(* ===== verification/Nox_Prelude.thy ===== *)
theory Nox_Prelude
  imports Main "HOL-Library.Word"
begin

unbundle bit_operations_syntax

text \<open>
  Shared vocabulary of the noxtor development: machine types of the C sources, byte buffers,
  the lemma collections the component proofs use, generic facts on lists and words, and the
  interfaces (locales) that several components implement: a state machine with an invariant,
  a codec, a framed byte stream and a synchronised channel.
\<close>

section \<open>Machine types\<close>

type_synonym byte = "8 word"
type_synonym bytes = "byte list"
type_synonym u32 = "32 word"
type_synonym u64 = "64 word"

text \<open>\<open>size_t\<close> where the code's own overflow checks matter (the arena); elsewhere lengths of
  buffers are lengths of lists.\<close>

type_synonym size_t = "64 word"

named_theorems nox_defs \<open>definitions unfolded by the component proofs\<close>
named_theorems nox_len \<open>lengths of buffers the operations produce\<close>

section \<open>Buffers\<close>

definition zeros :: "nat \<Rightarrow> bytes" where
  "zeros n = replicate n 0"

text \<open>\<open>sodium_is_zero\<close>: every byte of the buffer is zero.\<close>

definition is_zero :: "bytes \<Rightarrow> bool" where
  "is_zero b \<longleftrightarrow> list_all (\<lambda>x. x = 0) b"

text \<open>The bytes of a C string literal, without its terminating NUL.\<close>

definition str_bytes :: "string \<Rightarrow> bytes" where
  "str_bytes s = map of_char s"

lemma length_zeros [simp, nox_len]: "length (zeros n) = n"
  by (simp add: zeros_def)

lemma is_zero_zeros [simp]: "is_zero (zeros n)"
  by (simp add: is_zero_def zeros_def list_all_length)

lemma zeros_0 [simp]: "zeros 0 = []"
  by (simp add: zeros_def)

lemma is_zero_iff: "is_zero b \<longleftrightarrow> b = zeros (length b)"
  by (simp add: is_zero_def zeros_def list_all_iff)
     (metis in_set_replicate replicate_eqI)

lemma take_length_append [simp]: "length xs = n \<Longrightarrow> take n (xs @ ys) = xs"
  by simp

lemma drop_length_append [simp]: "length xs = n \<Longrightarrow> drop n (xs @ ys) = ys"
  by simp

section \<open>Little- and big-endian integers\<close>

definition le_bytes :: "nat \<Rightarrow> 'a::len word \<Rightarrow> bytes" where
  "le_bytes k w = map (\<lambda>i. ucast (drop_bit (8 * i) w)) [0..<k]"

fun of_le :: "bytes \<Rightarrow> 'a::len word" where
  "of_le [] = 0"
| "of_le (x # xs) = ucast x OR push_bit 8 (of_le xs)"

definition be_bytes :: "nat \<Rightarrow> 'a::len word \<Rightarrow> bytes" where
  "be_bytes k w = rev (le_bytes k w)"

definition of_be :: "bytes \<Rightarrow> 'a::len word" where
  "of_be b = of_le (rev b)"

lemma length_le_bytes [simp, nox_len]: "length (le_bytes k w) = k"
  by (simp add: le_bytes_def)

lemma length_be_bytes [simp, nox_len]: "length (be_bytes k w) = k"
  by (simp add: be_bytes_def)

lemma le_bytes_0 [simp]: "le_bytes 0 w = []"
  by (simp add: le_bytes_def)

lemma le_bytes_Suc: "le_bytes (Suc k) w = ucast w # le_bytes k (drop_bit 8 w)"
proof -
  have "[0..<Suc k] = 0 # map Suc [0..<k]"
    by (metis map_Suc_upt upt_conv_Cons zero_less_Suc)
  then show ?thesis
    by (simp add: le_bytes_def comp_def add.commute del: upt_Suc)
qed

lemma of_le_le_bytes: "of_le (le_bytes k w) = take_bit (8 * k) w"
proof (induction k arbitrary: w)
  case 0
  then show ?case by simp
next
  case (Suc k)
  have "ucast (ucast w :: byte) OR push_bit 8 (take_bit (8 * k) (drop_bit 8 w)) =
      take_bit (8 * Suc k) w"
    by (rule bit_word_eqI)
       (auto simp: bit_or_iff bit_push_bit_iff bit_ucast_iff bit_take_bit_iff bit_drop_bit_eq
         dest: bit_imp_le_length)
  with Suc show ?case by (simp add: le_bytes_Suc)
qed

lemma of_be_be_bytes: "of_be (be_bytes k w) = take_bit (8 * k) w"
  by (simp add: of_be_def be_bytes_def of_le_le_bytes)

lemma of_be_be_bytes_full: "LENGTH('a) \<le> 8 * k \<Longrightarrow> of_be (be_bytes k (w :: 'a::len word)) = w"
  by (simp add: of_be_be_bytes take_bit_word_eq_self)

lemma ucast_byte_or_push: "ucast (ucast (x :: byte) OR push_bit 8 (y :: 'a::len word)) = x"
  if "8 \<le> LENGTH('a)"
  using that
  by (intro bit_word_eqI) (auto simp: bit_or_iff bit_push_bit_iff bit_ucast_iff)

lemma drop_byte_or_push:
  "take_bit (LENGTH('a) - 8) y = y \<Longrightarrow>
     drop_bit 8 (ucast (x :: byte) OR push_bit 8 (y :: 'a::len word)) = y"
proof (rule bit_word_eqI)
  fix n assume y: "take_bit (LENGTH('a) - 8) y = y"
  have "bit y n \<Longrightarrow> n < LENGTH('a) - 8"
    by (subst (asm) y [symmetric]) (simp add: bit_take_bit_iff)
  moreover have "\<not> bit x (8 + n)"
    by (auto dest: bit_imp_le_length)
  ultimately show "bit (drop_bit 8 (ucast x OR push_bit 8 y)) n \<longleftrightarrow> bit y n"
    by (auto simp: bit_or_iff bit_push_bit_iff bit_ucast_iff bit_drop_bit_eq
        dest: bit_imp_le_length)
qed

lemma of_le_bounded: "take_bit (8 * length b) (of_le b :: 'a::len word) = of_le b"
proof (induction b)
  case Nil
  then show ?case by simp
next
  case (Cons x b)
  have "take_bit (8 * length (x # b)) (ucast x OR push_bit 8 (of_le b :: 'a word)) =
      ucast x OR push_bit 8 (take_bit (8 * length b) (of_le b))"
    by (rule bit_word_eqI)
       (auto simp: bit_or_iff bit_push_bit_iff bit_ucast_iff bit_take_bit_iff
         dest: bit_imp_le_length)
  with Cons show ?case by simp
qed

lemma le_bytes_of_le:
  "8 * length b \<le> LENGTH('a) \<Longrightarrow> le_bytes (length b) (of_le b :: 'a::len word) = b"
proof (induction b)
  case Nil
  then show ?case by simp
next
  case (Cons x b)
  have "take_bit (LENGTH('a) - 8) (of_le b :: 'a word) = of_le b"
    using of_le_bounded [of b] Cons.prems
    by (metis (no_types, lifting) add_diff_cancel_left' diff_le_mono length_Cons min.absorb_iff2
        mult_Suc_right take_bit_take_bit)
  with Cons show ?case
    by (simp add: le_bytes_Suc ucast_byte_or_push drop_byte_or_push del: drop_bit_or)
qed

lemma be_bytes_of_be:
  "8 * length b \<le> LENGTH('a) \<Longrightarrow> be_bytes (length b) (of_be b :: 'a::len word) = b"
  using le_bytes_of_le [where 'a = 'a, of "rev b"] by (simp add: be_bytes_def of_be_def)

section \<open>Powers of two and alignment\<close>

lemma nat_and_pred_pow2: "(n :: nat) \<noteq> 0 \<Longrightarrow> n AND (n - 1) = 0 \<Longrightarrow> \<exists>k. n = 2 ^ k"
proof (induction n rule: less_induct)
  case (less n)
  show ?case
  proof (cases "odd n")
    case True
    then have "n AND (n - 1) = 2 * (n div 2)"
      by (subst and_rec) (auto elim!: oddE)
    with less.prems True have "n = 1" by (auto elim!: oddE)
    then show ?thesis by (auto intro: exI [of _ 0])
  next
    case False
    then obtain m where m: "n = 2 * m" by (auto elim: evenE)
    have "(n - 1) div 2 = m - 1" using m by arith
    then have "n AND (n - 1) = 2 * (m AND (m - 1))"
      using m by (subst and_rec) simp
    with less m obtain k where "m = 2 ^ k" by (metis mult_eq_0_iff nat_0_less_mult_iff
       linorder_neqE_nat mult_2 less_add_same_cancel1 not_less_zero)
    with m show ?thesis by (intro exI [of _ "Suc k"]) simp
  qed
qed

lemma word_and_pred_pow2:
  fixes w :: "'a::len word"
  assumes "w \<noteq> 0" "w AND (w - 1) = 0"
  shows "\<exists>k < LENGTH('a). unat w = 2 ^ k"
proof -
  have "unat (w - 1) = unat w - 1" using assms(1) by (simp add: unat_minus_one)
  then have "unat w AND (unat w - 1) = 0"
    using assms(2) by (metis unsigned_and_eq unsigned_0)
  then obtain k where k: "unat w = 2 ^ k" using nat_and_pred_pow2 assms(1) by (metis unat_eq_0)
  have "unat w < 2 ^ LENGTH('a)" by simp
  with k show ?thesis by (metis one_less_numeral_iff power_strict_increasing_iff semiring_norm(76))
qed

lemma unat_and_not_mask:
  "unat ((x :: 'a::len word) AND NOT (mask k)) = unat x div 2 ^ k * 2 ^ k"
proof -
  have "x AND NOT (mask k) = push_bit k (drop_bit k x)"
    by (rule bit_word_eqI) (auto simp: bit_simps)
  moreover have "unat x div 2 ^ k * 2 ^ k < 2 ^ LENGTH('a)"
    by (rule le_less_trans [of _ "unat x"]) simp_all
  moreover have "unat (push_bit k y) = take_bit LENGTH('a) (unat y * 2 ^ k)" for y :: "'a word"
    by (subst unsigned_push_bit_eq) (simp add: push_bit_eq_mult)
  moreover have "unat (drop_bit k x) = unat x div 2 ^ k"
    by (subst unsigned_drop_bit_eq) (simp add: drop_bit_eq_div take_bit_nat_eq_self)
  ultimately show ?thesis by (simp only: take_bit_nat_eq_self)
qed

lemma unat_align_down:
  fixes x p :: "'a::len word"
  assumes "p \<noteq> 0" "p AND (p - 1) = 0"
  shows "unat (x AND NOT (p - 1)) = unat x div unat p * unat p"
proof -
  obtain k where k: "k < LENGTH('a)" "unat p = 2 ^ k" using word_and_pred_pow2 [OF assms] by blast
  have "p = 2 ^ k" using k by (metis of_nat_unat ucast_id of_nat_numeral of_nat_power)
  then have "p - 1 = mask k" by (simp add: mask_eq_decr_exp)
  with k show ?thesis by (simp add: unat_and_not_mask)
qed

lemma unat_dvd_mod0: "(x :: 'a::len word) mod y = 0 \<longleftrightarrow> unat y dvd unat x"
  by (metis unat_eq_0 unat_mod_distrib dvd_eq_mod_eq_0)

lemma and_15_eq_mod: "(x :: 64 word) AND 15 = x mod 16"
  using take_bit_eq_mask [of 4 x] take_bit_eq_mod[of 4 x] by (simp add: mask_eq_exp_minus_1)

lemma unat_align16: "unat ((x :: 64 word) AND NOT 15) = unat x div 16 * 16"
  using unat_and_not_mask [of x 4] by (simp add: mask_eq_exp_minus_1)
section \<open>Interface: a state machine with an invariant\<close>

locale step_invariant =
  fixes step :: "'s \<Rightarrow> 'e \<Rightarrow> 's"
    and inv :: "'s \<Rightarrow> bool"
  assumes inv_step: "inv s \<Longrightarrow> inv (step s e)"
begin

lemma inv_run: "inv s \<Longrightarrow> inv (foldl step s es)"
  by (induction es arbitrary: s) (auto intro: inv_step)

lemma inv_run_prefix: "inv s \<Longrightarrow> es = fs @ gs \<Longrightarrow> inv (foldl step s fs)"
  by (simp add: inv_run)

end

section \<open>Interface: codecs\<close>

text \<open>A codec has an encoder that is total and a decoder that may refuse. An exact codec accepts
  nothing but encodings, so that the wire form is canonical.\<close>

locale codec =
  fixes encode :: "'a \<Rightarrow> 'b"
    and decode :: "'b \<Rightarrow> 'a option"
    and valid :: "'a \<Rightarrow> bool"
  assumes decode_encode: "valid x \<Longrightarrow> decode (encode x) = Some x"
begin

lemma encode_inj: "valid x \<Longrightarrow> valid y \<Longrightarrow> encode x = encode y \<Longrightarrow> x = y"
  by (metis decode_encode option.inject)

end

locale exact_codec = codec +
  assumes encode_decode: "decode y = Some x \<Longrightarrow> valid x \<and> encode x = y"
begin

lemma decode_iff: "decode y = Some x \<longleftrightarrow> valid x \<and> y = encode x"
  using decode_encode encode_decode by blast

lemma decode_inj: "decode y = Some x \<Longrightarrow> decode z = Some x \<Longrightarrow> y = z"
  using encode_decode by blast

end

section \<open>Interface: a synchronised channel\<close>

text \<open>A sender and a receiver whose states agree: what one sends the other reads, and the two
  agree again afterwards. Over any number of messages the receiver then reads exactly what was
  sent, in order.\<close>

locale sync_channel =
  fixes send :: "'s \<Rightarrow> 'm \<Rightarrow> ('c \<times> 's) option"
    and recv :: "'r \<Rightarrow> 'c \<Rightarrow> ('m \<times> 'r) option"
    and sync :: "'s \<Rightarrow> 'r \<Rightarrow> bool"
  assumes sync_step:
    "sync s r \<Longrightarrow> send s m = Some (c, s') \<Longrightarrow> \<exists>r'. recv r c = Some (m, r') \<and> sync s' r'"
begin

fun send_all :: "'s \<Rightarrow> 'm list \<Rightarrow> ('c list \<times> 's) option" where
  "send_all s [] = Some ([], s)"
| "send_all s (m # ms) =
     (case send s m of None \<Rightarrow> None
      | Some (c, s') \<Rightarrow>
          (case send_all s' ms of None \<Rightarrow> None | Some (cs, s'') \<Rightarrow> Some (c # cs, s'')))"

fun recv_all :: "'r \<Rightarrow> 'c list \<Rightarrow> ('m list \<times> 'r) option" where
  "recv_all r [] = Some ([], r)"
| "recv_all r (c # cs) =
     (case recv r c of None \<Rightarrow> None
      | Some (m, r') \<Rightarrow>
          (case recv_all r' cs of None \<Rightarrow> None | Some (ms, r'') \<Rightarrow> Some (m # ms, r'')))"

lemma recv_all_send_all:
  "sync s r \<Longrightarrow> send_all s ms = Some (cs, s') \<Longrightarrow>
     \<exists>r'. recv_all r cs = Some (ms, r') \<and> sync s' r'"
proof (induction ms arbitrary: s r cs)
  case Nil
  then show ?case by simp
next
  case (Cons m ms)
  from Cons.prems(2) obtain c s1 cs1 where
    1: "send s m = Some (c, s1)" "send_all s1 ms = Some (cs1, s')" "cs = c # cs1"
    by (auto split: option.splits)
  from sync_step [OF Cons.prems(1) 1(1)] obtain r1 where
    2: "recv r c = Some (m, r1)" "sync s1 r1" by blast
  from Cons.IH [OF 2(2) 1(2)] obtain r' where "recv_all r1 cs1 = Some (ms, r')" "sync s' r'"
    by blast
  with 1 2 show ?case by simp
qed

end

end
