(* ===== verification/Nox_Common.thy ===== *)
theory Nox_Common
  imports Nox_Prelude
begin

text \<open>
  The project constants and the error codes of \<^verbatim>\<open>include/common.h\<close>.
\<close>

section \<open>Constants\<close>

definition NOX_KEY_LEN :: nat where "NOX_KEY_LEN = 32"
definition NOX_NONCE_LEN :: nat where "NOX_NONCE_LEN = 24"
definition NOX_MAC_LEN :: nat where "NOX_MAC_LEN = 16"
definition NOX_SALT_LEN :: nat where "NOX_SALT_LEN = 16"
definition NOX_CANARY_LEN :: nat where "NOX_CANARY_LEN = 16"
definition NOX_MAX_MSG_LEN :: nat where "NOX_MAX_MSG_LEN = 4096"
definition NOX_CHUNK_SIZE :: nat where "NOX_CHUNK_SIZE = 4096"
definition NOX_FRAME_MAGIC :: u32 where "NOX_FRAME_MAGIC = 0xDEADC0DE"
definition NOX_PIN_MIN_LEN :: nat where "NOX_PIN_MIN_LEN = 8"
definition NOX_PIN_MAX_LEN :: nat where "NOX_PIN_MAX_LEN = 128"
definition NOX_ONION_LEN :: nat where "NOX_ONION_LEN = 62"
definition NOX_ONION_B32_LEN :: nat where "NOX_ONION_B32_LEN = 56"
definition NOX_ONION_BODY_LEN :: nat where "NOX_ONION_BODY_LEN = 35"
definition NOX_HS_PAYLOAD_V1_VER :: byte where "NOX_HS_PAYLOAD_V1_VER = 1"
definition NOX_HS_PAYLOAD_V1_LEN :: nat where "NOX_HS_PAYLOAD_V1_LEN = 127"
definition NOX_CONTACT_NAME_LEN :: nat where "NOX_CONTACT_NAME_LEN = 64"
definition NOX_HANDSHAKE_TIMEOUT_SEC :: int where "NOX_HANDSHAKE_TIMEOUT_SEC = 30"
definition NOX_TOFU_TIMEOUT_SEC :: int where "NOX_TOFU_TIMEOUT_SEC = 120"
definition NOX_FILE_CHUNK_TIMEOUT_SEC :: int where "NOX_FILE_CHUNK_TIMEOUT_SEC = 60"
definition NOX_PEER_IDLE_TIMEOUT_SEC :: int where "NOX_PEER_IDLE_TIMEOUT_SEC = 3600"
definition NOX_HALFFRAME_TIMEOUT_SEC :: int where "NOX_HALFFRAME_TIMEOUT_SEC = 60"

lemmas nox_consts =
  NOX_KEY_LEN_def NOX_NONCE_LEN_def NOX_MAC_LEN_def NOX_SALT_LEN_def NOX_CANARY_LEN_def
  NOX_MAX_MSG_LEN_def NOX_CHUNK_SIZE_def NOX_FRAME_MAGIC_def NOX_PIN_MIN_LEN_def
  NOX_PIN_MAX_LEN_def NOX_ONION_LEN_def NOX_ONION_B32_LEN_def NOX_ONION_BODY_LEN_def
  NOX_HS_PAYLOAD_V1_VER_def NOX_HS_PAYLOAD_V1_LEN_def NOX_CONTACT_NAME_LEN_def
  NOX_HANDSHAKE_TIMEOUT_SEC_def NOX_TOFU_TIMEOUT_SEC_def NOX_FILE_CHUNK_TIMEOUT_SEC_def
  NOX_PEER_IDLE_TIMEOUT_SEC_def NOX_HALFFRAME_TIMEOUT_SEC_def

section \<open>Error codes\<close>

datatype nox_err_t =
    NOX_OK | NOX_ERR_ALLOC | NOX_ERR_CRYPTO | NOX_ERR_IO | NOX_ERR_PROTO | NOX_ERR_AUTH
  | NOX_ERR_LOCKED | NOX_ERR_PIN | NOX_ERR_CONFIG | NOX_ERR_TOR | NOX_ERR_NET | NOX_ERR_DB
  | NOX_ERR_OVERFLOW | NOX_ERR_STATE | NOX_ERR_NOT_FOUND | NOX_ERR_LANDLOCK_UNSUPPORTED

text \<open>Answers of the allocator: each call of \<open>sodium_malloc\<close> takes the next answer of the
  sequence (the call succeeded or returned NULL); after the last one calls succeed.\<close>

type_synonym heap_answers = "bool list"

fun sodium_malloc :: "heap_answers \<Rightarrow> bool \<times> heap_answers" where
  "sodium_malloc [] = (True, [])"
| "sodium_malloc (b # bs) = (b, bs)"

definition heap_ok :: "heap_answers \<Rightarrow> bool" where
  "heap_ok al \<longleftrightarrow> list_all id al"

lemma heap_ok_Nil [simp]: "heap_ok []"
  by (simp add: heap_ok_def)

lemma sodium_malloc_ok [simp]:
  "heap_ok al \<Longrightarrow> fst (sodium_malloc al)" "heap_ok al \<Longrightarrow> heap_ok (snd (sodium_malloc al))"
  by (cases al; simp add: heap_ok_def)+

end
