(* ===== verification/Nox_Cipher.thy ===== *)
theory Nox_Cipher
  imports Nox_Common
begin

text \<open>
  The lower half of \<^verbatim>\<open>src/noise.c\<close>: the cipher state (ChaChaPoly with a 64-bit counter
  nonce) and the transport functions over a session. libsodium is not part of the repository:
  its functions are the fields of the record \<open>sodium\<close>, an argument of every definition that
  calls them, and \<open>sodium_ok\<close> collects the documented behaviour the protocol relies on.
\<close>

section \<open>libsodium as a parameter\<close>

text \<open>
  \<open>sod_blake2b m\<close> is the unkeyed 64-byte BLAKE2b digest (the streaming calls
  \<open>init\<close>/\<open>update\<close>/\<open>final\<close> digest the concatenation of their inputs); the AEAD functions take
  key, nonce, additional data and message and give \<open>None\<close> for a return value other than 0, as
  does \<open>sod_scalarmult\<close>.
\<close>

record sodium =
  sod_blake2b :: "bytes \<Rightarrow> bytes"
  sod_aead_encrypt :: "bytes \<Rightarrow> bytes \<Rightarrow> bytes \<Rightarrow> bytes \<Rightarrow> bytes option"
  sod_aead_decrypt :: "bytes \<Rightarrow> bytes \<Rightarrow> bytes \<Rightarrow> bytes \<Rightarrow> bytes option"
  sod_scalarmult :: "bytes \<Rightarrow> bytes \<Rightarrow> bytes option"
  sod_scalarmult_base :: "bytes \<Rightarrow> bytes"

definition NOISE_HASHLEN :: nat where "NOISE_HASHLEN = 64"
definition NOISE_MAX_PAYLOAD_LEN :: nat where "NOISE_MAX_PAYLOAD_LEN = NOX_MAX_MSG_LEN + NOX_MAC_LEN"
definition UINT64_MAX :: u64 where "UINT64_MAX = 0xFFFFFFFFFFFFFFFF"

definition aead_ok :: "sodium \<Rightarrow> bool" where
  "aead_ok S \<longleftrightarrow>
     (\<forall>k n ad p. \<exists>c. sod_aead_encrypt S k n ad p = Some c \<and> length c = length p + NOX_MAC_LEN
        \<and> sod_aead_decrypt S k n ad c = Some p) \<and>
     (\<forall>k n ad c p. sod_aead_decrypt S k n ad c = Some p \<longrightarrow> length c = length p + NOX_MAC_LEN)"

definition sodium_ok :: "sodium \<Rightarrow> bool" where
  "sodium_ok S \<longleftrightarrow> aead_ok S \<and>
     (\<forall>m. length (sod_blake2b S m) = NOISE_HASHLEN) \<and>
     (\<forall>a. length a = NOX_KEY_LEN \<longrightarrow> length (sod_scalarmult_base S a) = NOX_KEY_LEN) \<and>
     (\<forall>a b. sod_scalarmult S a (sod_scalarmult_base S b) =
            sod_scalarmult S b (sod_scalarmult_base S a)) \<and>
     (\<forall>a b z. sod_scalarmult S a b = Some z \<longrightarrow> length z = NOX_KEY_LEN)"

section \<open>Cipher state\<close>

record noise_cipher_state =
  cs_k :: bytes
  cs_n :: u64
  cs_has_key :: bool

definition cipher_init :: "noise_cipher_state \<Rightarrow> noise_cipher_state" where
  "cipher_init cs = \<lparr>cs_k = zeros NOX_KEY_LEN, cs_n = 0, cs_has_key = False\<rparr>"

text \<open>The key argument is a C pointer: 32 bytes are copied from it.\<close>

definition cipher_init_key :: "noise_cipher_state \<Rightarrow> bytes \<Rightarrow> noise_cipher_state" where
  "cipher_init_key cs key = cs\<lparr>cs_k := take NOX_KEY_LEN key, cs_n := 0, cs_has_key := True\<rparr>"

definition encode_nonce :: "u64 \<Rightarrow> bytes" where
  "encode_nonce n = zeros 4 @ map (\<lambda>i. ucast (drop_bit (8 * i) n)) [0..<8]"

definition cipher_encrypt ::
    "sodium \<Rightarrow> noise_cipher_state \<Rightarrow> bytes \<Rightarrow> bytes \<Rightarrow> bytes option \<times> noise_cipher_state" where
  "cipher_encrypt S cs ad pt =
     (if length pt > NOX_MAX_MSG_LEN then (None, cs)
      else if \<not> cs_has_key cs then (Some pt, cs)
      else let current_n = cs_n cs; cs1 = cs\<lparr>cs_n := current_n + 1\<rparr> in
        if current_n \<ge> UINT64_MAX then (None, cs1\<lparr>cs_n := UINT64_MAX\<rparr>)
        else (sod_aead_encrypt S (cs_k cs1) (encode_nonce current_n) ad pt, cs1))"

definition cipher_decrypt ::
    "sodium \<Rightarrow> noise_cipher_state \<Rightarrow> bytes \<Rightarrow> bytes \<Rightarrow> bytes option \<times> noise_cipher_state" where
  "cipher_decrypt S cs ad ct =
     (if length ct > NOISE_MAX_PAYLOAD_LEN then (None, cs)
      else if \<not> cs_has_key cs then (Some ct, cs)
      else if length ct < NOX_MAC_LEN then (None, cs)
      else let current_n = cs_n cs in
        if current_n \<ge> UINT64_MAX then (None, cs)
        else case sod_aead_decrypt S (cs_k cs) (encode_nonce current_n) ad ct of
          None \<Rightarrow> (None, cs)
        | Some pt \<Rightarrow> (Some pt, cs\<lparr>cs_n := cs_n cs + 1\<rparr>))"

section \<open>Session\<close>

record noise_session =
  ns_tx :: noise_cipher_state
  ns_rx :: noise_cipher_state
  ns_remote_static :: bytes

definition noise_encrypt ::
    "sodium \<Rightarrow> noise_session \<Rightarrow> bytes \<Rightarrow> bytes option \<times> noise_session" where
  "noise_encrypt S s pt =
     (if length pt > NOX_MAX_MSG_LEN then (None, s)
      else let (r, tx) = cipher_encrypt S (ns_tx s) [] pt in (r, s\<lparr>ns_tx := tx\<rparr>))"

definition noise_decrypt ::
    "sodium \<Rightarrow> noise_session \<Rightarrow> bytes \<Rightarrow> bytes option \<times> noise_session" where
  "noise_decrypt S s ct =
     (if length ct > NOISE_MAX_PAYLOAD_LEN then (None, s)
      else if length ct < NOX_MAC_LEN then (None, s)
      else let (r, rx) = cipher_decrypt S (ns_rx s) [] ct in (r, s\<lparr>ns_rx := rx\<rparr>))"

section \<open>The nonce encoding\<close>

definition decode_nonce :: "bytes \<Rightarrow> u64" where
  "decode_nonce b = of_le (drop 4 b)"

lemma encode_nonce_le: "encode_nonce n = zeros 4 @ le_bytes 8 n"
  by (simp add: encode_nonce_def le_bytes_def)

lemma length_encode_nonce [simp, nox_len]: "length (encode_nonce n) = 12"
  by (simp add: encode_nonce_le)

lemma decode_encode_nonce: "decode_nonce (encode_nonce n) = n"
  by (simp add: decode_nonce_def encode_nonce_le of_le_le_bytes take_bit_word_eq_self)

interpretation nonce: codec encode_nonce "\<lambda>b. Some (decode_nonce b)" "\<lambda>_. True"
  by unfold_locales (simp add: decode_encode_nonce)

lemma encode_nonce_eq [simp]: "encode_nonce a = encode_nonce b \<longleftrightarrow> a = b"
  using nonce.encode_inj by blast

section \<open>Cipher state lemmas\<close>

lemma UINT64_MAX_minus_1: "UINT64_MAX = - 1"
  by (simp add: UINT64_MAX_def)

lemma UINT64_MAX_max: "(n :: u64) \<le> UINT64_MAX"
  by (simp add: UINT64_MAX_minus_1)

lemma UINT64_MAX_le_small [simp]: "\<not> UINT64_MAX \<le> 0" "\<not> UINT64_MAX \<le> 1" "\<not> UINT64_MAX \<le> 2" "UINT64_MAX \<noteq> 0"
  by (simp_all add: UINT64_MAX_def not_le)

lemma less_UINT64_MAX_Suc: "n < UINT64_MAX \<Longrightarrow> n < n + 1"
  by (simp add: UINT64_MAX_minus_1) unat_arith

lemma unat_Suc_UINT64_MAX: "n < UINT64_MAX \<Longrightarrow> unat (n + 1) = unat n + 1"
  by (simp add: UINT64_MAX_minus_1) unat_arith

lemma less_UINT64_MAX_Suc_le: "n < UINT64_MAX \<Longrightarrow> m \<le> n \<Longrightarrow> m < n + 1"
  using less_UINT64_MAX_Suc by (metis order_le_less_trans)

lemma aead_ok_encrypt:
  assumes "aead_ok S"
  obtains c where "sod_aead_encrypt S k n ad p = Some c" "length c = length p + NOX_MAC_LEN"
    "sod_aead_decrypt S k n ad c = Some p"
  using assms unfolding aead_ok_def by blast

lemma cipher_encrypt_keyed:
  "cs_has_key cs \<Longrightarrow> length pt \<le> NOX_MAX_MSG_LEN \<Longrightarrow> cs_n cs < UINT64_MAX \<Longrightarrow>
     cipher_encrypt S cs ad pt =
       (sod_aead_encrypt S (cs_k cs) (encode_nonce (cs_n cs)) ad pt, cs\<lparr>cs_n := cs_n cs + 1\<rparr>)"
  by (auto simp: cipher_encrypt_def Let_def)

text \<open>What one call of \<open>cipher_encrypt\<close> does to a keyed state, in every case.\<close>

lemma cipher_encrypt_step:
  assumes "cs_has_key cs" and "cipher_encrypt S cs ad pt = (r, cs')"
  shows "cs_has_key cs' \<and> cs_k cs' = cs_k cs \<and> cs_n cs \<le> cs_n cs' \<and>
    (r \<noteq> None \<longrightarrow> cs_n cs < UINT64_MAX \<and> cs_n cs < cs_n cs' \<and> length pt \<le> NOX_MAX_MSG_LEN \<and>
       r = sod_aead_encrypt S (cs_k cs) (encode_nonce (cs_n cs)) ad pt)"
  using assms UINT64_MAX_max [of "cs_n cs"]
  by (auto simp: cipher_encrypt_def Let_def less_UINT64_MAX_Suc order_less_imp_le
      split: if_splits)

lemma cipher_encrypt_exhausted:
  "cs_has_key cs \<Longrightarrow> cs_n cs = UINT64_MAX \<Longrightarrow> cipher_encrypt S cs ad pt = (None, cs)"
  by (simp add: cipher_encrypt_def)

lemma cipher_decrypt_fail: "cipher_decrypt S cs ad ct = (None, cs') \<Longrightarrow> cs' = cs"
  by (auto simp: cipher_decrypt_def Let_def split: if_splits option.splits)

lemma cipher_decrypt_step:
  assumes "cs_has_key cs" and "cipher_decrypt S cs ad ct = (r, cs')"
  shows "cs_has_key cs' \<and> cs_k cs' = cs_k cs \<and> cs_n cs \<le> cs_n cs' \<and>
    (r \<noteq> None \<longrightarrow> cs_n cs < UINT64_MAX \<and> cs_n cs' = cs_n cs + 1 \<and> cs_n cs < cs_n cs' \<and>
       r = sod_aead_decrypt S (cs_k cs) (encode_nonce (cs_n cs)) ad ct)"
  using assms
  by (auto simp: cipher_decrypt_def Let_def less_UINT64_MAX_Suc order_less_imp_le
      split: if_splits option.splits)

lemma cipher_decrypt_encrypt:
  assumes S: "aead_ok S" and k: "cs_has_key cs" and e: "cipher_encrypt S cs ad pt = (Some ct, cs')"
  shows "cipher_decrypt S cs ad ct = (Some pt, cs') \<and> length ct = length pt + NOX_MAC_LEN"
proof -
  have n: "cs_n cs < UINT64_MAX" "length pt \<le> NOX_MAX_MSG_LEN"
    and ct: "sod_aead_encrypt S (cs_k cs) (encode_nonce (cs_n cs)) ad pt = Some ct"
    using cipher_encrypt_step [OF k e] by auto
  have cs': "cs' = cs\<lparr>cs_n := cs_n cs + 1\<rparr>"
    using e k n by (simp add: cipher_encrypt_keyed)
  obtain c where c: "sod_aead_encrypt S (cs_k cs) (encode_nonce (cs_n cs)) ad pt = Some c"
    "length c = length pt + NOX_MAC_LEN"
    "sod_aead_decrypt S (cs_k cs) (encode_nonce (cs_n cs)) ad c = Some pt"
    by (rule aead_ok_encrypt [OF S])
  from c(1) ct have "c = ct" by simp
  with c n cs' k show ?thesis
    by (simp add: cipher_decrypt_def NOISE_MAX_PAYLOAD_LEN_def Let_def)
qed

section \<open>The transport as a synchronised channel\<close>

definition transport_send :: "sodium \<Rightarrow> noise_session \<Rightarrow> bytes \<Rightarrow> (bytes \<times> noise_session) option" where
  "transport_send S s m = (case noise_encrypt S s m of (None, _) \<Rightarrow> None | (Some c, s') \<Rightarrow> Some (c, s'))"

definition transport_recv :: "sodium \<Rightarrow> noise_session \<Rightarrow> bytes \<Rightarrow> (bytes \<times> noise_session) option" where
  "transport_recv S s c = (case noise_decrypt S s c of (None, _) \<Rightarrow> None | (Some m, s') \<Rightarrow> Some (m, s'))"

definition transport_sync :: "sodium \<Rightarrow> noise_session \<Rightarrow> noise_session \<Rightarrow> bool" where
  "transport_sync S s r \<longleftrightarrow> aead_ok S \<and> cs_has_key (ns_tx s) \<and> ns_rx r = ns_tx s"

lemma transport_recv_send:
  assumes sy: "transport_sync S s r" and e: "transport_send S s m = Some (c, s')"
  shows "transport_recv S r c = Some (m, r\<lparr>ns_rx := ns_tx s'\<rparr>) \<and>
    transport_sync S s' (r\<lparr>ns_rx := ns_tx s'\<rparr>)"
proof -
  from e obtain tx where enc: "cipher_encrypt S (ns_tx s) [] m = (Some c, tx)"
    and s': "s' = s\<lparr>ns_tx := tx\<rparr>" and len: "length m \<le> NOX_MAX_MSG_LEN"
    by (auto simp: transport_send_def noise_encrypt_def
        split: if_splits prod.splits option.splits)
  have k: "cs_has_key (ns_tx s)" and S: "aead_ok S" and rx: "ns_rx r = ns_tx s"
    using sy by (auto simp: transport_sync_def)
  have "cipher_decrypt S (ns_rx r) [] c = (Some m, tx)" "length c = length m + NOX_MAC_LEN"
    using cipher_decrypt_encrypt [OF S k enc] rx by auto
  with s' len k S enc show ?thesis
    using cipher_encrypt_step [OF k enc]
    by (auto simp: transport_recv_def noise_decrypt_def transport_sync_def
        NOISE_MAX_PAYLOAD_LEN_def)
qed

interpretation transport: sync_channel "transport_send S" "transport_recv S" "transport_sync S"
  for S
  by unfold_locales (use transport_recv_send in blast)

section \<open>A concrete instance of the parameter\<close>

text \<open>A function of every field that satisfies \<open>sodium_ok\<close>: the hypotheses on libsodium can
  hold. It is no cryptography: the tag carries the nonce, the digest is a prefix, the shared
  secret an exclusive or.\<close>

definition toy_pad :: "nat \<Rightarrow> bytes \<Rightarrow> bytes" where
  "toy_pad n b = take n (b @ zeros n)"

definition toy_tag :: "bytes \<Rightarrow> bytes" where
  "toy_tag n = toy_pad 16 n"

definition toy_sodium :: sodium where
  "toy_sodium = \<lparr>
     sod_blake2b = (\<lambda>m. toy_pad 64 m),
     sod_aead_encrypt = (\<lambda>k n ad p. Some (p @ toy_tag n)),
     sod_aead_decrypt = (\<lambda>k n ad c.
        if length c < 16 then None
        else if drop (length c - 16) c = toy_tag n then Some (take (length c - 16) c) else None),
     sod_scalarmult = (\<lambda>a b. Some (map2 (XOR) (toy_pad 32 a) (toy_pad 32 b))),
     sod_scalarmult_base = (\<lambda>a. toy_pad 32 a) \<rparr>"

lemma length_toy_pad [simp]: "length (toy_pad n b) = n"
  by (simp add: toy_pad_def)

lemma toy_pad_id [simp]: "length b = n \<Longrightarrow> toy_pad n b = b"
  by (simp add: toy_pad_def)

lemma length_toy_tag [simp]: "length (toy_tag n) = 16"
  by (simp add: toy_tag_def)

lemma map2_XOR_commute: "map2 (XOR) xs ys = map2 (XOR) ys (xs :: bytes)"
  by (induction xs ys rule: list_induct2') (auto simp: xor.commute)

lemma toy_aead_encrypt [simp]: "sod_aead_encrypt toy_sodium k n ad p = Some (p @ toy_tag n)"
  by (simp add: toy_sodium_def)

lemma toy_dh_commute:
  "sod_scalarmult toy_sodium a (sod_scalarmult_base toy_sodium b) =
   sod_scalarmult toy_sodium b (sod_scalarmult_base toy_sodium a)"
  by (simp add: toy_sodium_def) (rule map2_XOR_commute)

lemma toy_aead_ok: "aead_ok toy_sodium"
  by (auto simp: aead_ok_def toy_sodium_def NOX_MAC_LEN_def split: if_splits)

lemma toy_sodium_ok: "sodium_ok toy_sodium"
  unfolding sodium_ok_def
  using toy_aead_ok toy_dh_commute
  by (auto simp: toy_sodium_def NOISE_HASHLEN_def NOX_KEY_LEN_def)

end
