(* ===== verification/Nox_Handshake.thy ===== *)
theory Nox_Handshake
  imports Nox_Cipher
begin

text \<open>
  The Noise XX handshake of \<^verbatim>\<open>src/noise.c\<close>: HMAC and HKDF over BLAKE2b, the symmetric
  state, the three XX messages in both roles, and the split into a transport session. Every
  operation takes the answers of \<open>sodium_malloc\<close> and returns the rest of them, so that the
  allocation failures of the code are branches of the model; \<open>hs\<close>, \<open>out\<close> and the other pointers
  the callers never pass as NULL are values. Fresh ephemeral key pairs (public, private) are an
  argument of the writing operations.
\<close>

section \<open>HMAC and HKDF\<close>

definition BLAKE2B_BLOCK_SIZE :: nat where "BLAKE2B_BLOCK_SIZE = 128"

definition noise_hmac_blake2b_64 ::
    "sodium \<Rightarrow> bytes \<Rightarrow> bytes \<Rightarrow> heap_answers \<Rightarrow> nox_err_t \<times> bytes \<times> heap_answers" where
  "noise_hmac_blake2b_64 S key data al =
     (let (k, al) = sodium_malloc al;
          (ipad, al) = sodium_malloc al;
          (opad, al) = sodium_malloc al;
          (inner, al) = sodium_malloc al
      in if \<not> k \<or> \<not> ipad \<or> \<not> opad \<or> \<not> inner then (NOX_ERR_ALLOC, zeros NOISE_HASHLEN, al)
         else if length key > BLAKE2B_BLOCK_SIZE then (NOX_ERR_CRYPTO, zeros NOISE_HASHLEN, al)
         else let kb = key @ zeros (BLAKE2B_BLOCK_SIZE - length key);
                  ip = map (\<lambda>x. x XOR 0x36) kb;
                  op = map (\<lambda>x. x XOR 0x5c) kb;
                  i = sod_blake2b S (ip @ data)
              in (NOX_OK, sod_blake2b S (op @ i), al))"

definition hkdf_blake2b ::
    "sodium \<Rightarrow> bytes \<Rightarrow> bytes \<Rightarrow> heap_answers \<Rightarrow> nox_err_t \<times> bytes \<times> bytes \<times> heap_answers" where
  "hkdf_blake2b S ck ikm al =
     (let (t, al) = sodium_malloc al;
          (b, al) = sodium_malloc al
      in if \<not> t \<or> \<not> b then (NOX_ERR_ALLOC, zeros NOISE_HASHLEN, zeros NOISE_HASHLEN, al)
         else let (err, temp_key, al) = noise_hmac_blake2b_64 S ck ikm al in
         if err \<noteq> NOX_OK then (err, zeros NOISE_HASHLEN, zeros NOISE_HASHLEN, al)
         else let (err, out1, al) = noise_hmac_blake2b_64 S temp_key [0x01] al in
         if err \<noteq> NOX_OK then (err, zeros NOISE_HASHLEN, zeros NOISE_HASHLEN, al)
         else let (err, out2, al) = noise_hmac_blake2b_64 S temp_key (out1 @ [0x02]) al in
         if err \<noteq> NOX_OK then (err, zeros NOISE_HASHLEN, zeros NOISE_HASHLEN, al)
         else (NOX_OK, out1, out2, al))"

section \<open>Symmetric state\<close>

record noise_symmetric_state =
  ss_ck :: bytes
  ss_h :: bytes
  ss_cs :: noise_cipher_state

definition symmetric_init :: "sodium \<Rightarrow> noise_symmetric_state \<Rightarrow> bytes \<Rightarrow> noise_symmetric_state" where
  "symmetric_init S ss name =
     (let h = (if length name \<le> NOISE_HASHLEN then name @ zeros (NOISE_HASHLEN - length name)
               else sod_blake2b S name)
      in \<lparr>ss_ck = h, ss_h = h, ss_cs = cipher_init (ss_cs ss)\<rparr>)"

definition symmetric_mix_hash :: "sodium \<Rightarrow> noise_symmetric_state \<Rightarrow> bytes \<Rightarrow> noise_symmetric_state" where
  "symmetric_mix_hash S ss data = ss\<lparr>ss_h := sod_blake2b S (ss_h ss @ data)\<rparr>"

text \<open>\<open>hkdf_blake2b\<close> writes its first output over \<open>ck\<close>, zeros included when it fails.\<close>

definition symmetric_mix_key ::
    "sodium \<Rightarrow> noise_symmetric_state \<Rightarrow> bytes \<Rightarrow> heap_answers \<Rightarrow>
       nox_err_t \<times> noise_symmetric_state \<times> heap_answers" where
  "symmetric_mix_key S ss ikm al =
     (let (err, ck, temp_k, al) = hkdf_blake2b S (ss_ck ss) ikm al; ss = ss\<lparr>ss_ck := ck\<rparr>
      in if err \<noteq> NOX_OK then (err, ss, al)
         else (NOX_OK, ss\<lparr>ss_cs := cipher_init_key (ss_cs ss) temp_k\<rparr>, al))"

definition symmetric_encrypt_and_hash ::
    "sodium \<Rightarrow> noise_symmetric_state \<Rightarrow> bytes \<Rightarrow> bytes option \<times> noise_symmetric_state" where
  "symmetric_encrypt_and_hash S ss pt =
     (let (r, cs) = cipher_encrypt S (ss_cs ss) (ss_h ss) pt; ss = ss\<lparr>ss_cs := cs\<rparr>
      in case r of None \<Rightarrow> (None, ss) | Some ct \<Rightarrow> (Some ct, symmetric_mix_hash S ss ct))"

definition symmetric_decrypt_and_hash ::
    "sodium \<Rightarrow> noise_symmetric_state \<Rightarrow> bytes \<Rightarrow> nat \<Rightarrow> bytes option \<times> noise_symmetric_state" where
  "symmetric_decrypt_and_hash S ss ct out_cap =
     (if cs_has_key (ss_cs ss) \<and> (length ct < NOX_MAC_LEN \<or> length ct - NOX_MAC_LEN > out_cap)
      then (None, ss)
      else if \<not> cs_has_key (ss_cs ss) \<and> length ct > out_cap then (None, ss)
      else let (r, cs) = cipher_decrypt S (ss_cs ss) (ss_h ss) ct; ss = ss\<lparr>ss_cs := cs\<rparr>
           in case r of None \<Rightarrow> (None, ss\<lparr>ss_h := zeros NOISE_HASHLEN\<rparr>)
              | Some pt \<Rightarrow> (Some pt, symmetric_mix_hash S ss ct))"

definition symmetric_split ::
    "sodium \<Rightarrow> noise_symmetric_state \<Rightarrow> noise_cipher_state \<Rightarrow> noise_cipher_state \<Rightarrow> heap_answers \<Rightarrow>
       nox_err_t \<times> noise_symmetric_state \<times> noise_cipher_state \<times> noise_cipher_state \<times> heap_answers" where
  "symmetric_split S ss c1 c2 al =
     (let (err, temp_k1, temp_k2, al) = hkdf_blake2b S (ss_ck ss) [] al
      in if err \<noteq> NOX_OK then (err, ss, c1, c2, al)
         else (NOX_OK,
               \<lparr>ss_ck = zeros NOISE_HASHLEN, ss_h = zeros NOISE_HASHLEN, ss_cs = cipher_init (ss_cs ss)\<rparr>,
               cipher_init_key c1 temp_k1, cipher_init_key c2 temp_k2, al))"

section \<open>Handshake state\<close>

record noise_handshake =
  hs_ss :: noise_symmetric_state
  hs_s :: bytes
  hs_s_pub :: bytes
  hs_e :: bytes
  hs_e_pub :: bytes
  hs_rs :: bytes
  hs_re :: bytes
  hs_initiator :: bool
  hs_msg_index :: nat
  hs_split_done :: bool
  hs_failed :: bool

definition NOISE_MAX_HANDSHAKE_LEN :: nat where "NOISE_MAX_HANDSHAKE_LEN = 256"

definition NOISE_PROTOCOL_NAME :: bytes where
  "NOISE_PROTOCOL_NAME = str_bytes ''Noise_XX_25519_ChaChaPoly_BLAKE2b''"

text \<open>The prologue literal is UTF-8: its u with diaeresis is the two bytes C3 BC.\<close>

definition NOISE_PROLOGUE :: bytes where
  "NOISE_PROLOGUE = str_bytes ''Mustafa Kemal Atat'' @ [0xC3, 0xBC] @ str_bytes ''rk''"

definition noise_dh :: "sodium \<Rightarrow> bytes \<Rightarrow> bytes \<Rightarrow> nox_err_t \<times> bytes" where
  "noise_dh S priv pub =
     (if is_zero pub then (NOX_ERR_CRYPTO, zeros NOX_KEY_LEN)
      else case sod_scalarmult S priv pub of
        None \<Rightarrow> (NOX_ERR_CRYPTO, zeros NOX_KEY_LEN)
      | Some out \<Rightarrow> if is_zero out then (NOX_ERR_CRYPTO, out) else (NOX_OK, out))"

definition zero_cipher :: noise_cipher_state where
  "zero_cipher = \<lparr>cs_k = zeros NOX_KEY_LEN, cs_n = 0, cs_has_key = False\<rparr>"

definition zero_symmetric :: noise_symmetric_state where
  "zero_symmetric = \<lparr>ss_ck = zeros NOISE_HASHLEN, ss_h = zeros NOISE_HASHLEN, ss_cs = zero_cipher\<rparr>"

definition handshake_init :: "sodium \<Rightarrow> bool \<Rightarrow> bytes \<Rightarrow> bytes \<Rightarrow> noise_handshake" where
  "handshake_init S initiator s_priv s_pub =
     (let ss = symmetric_init S zero_symmetric NOISE_PROTOCOL_NAME
      in \<lparr>hs_ss = symmetric_mix_hash S ss NOISE_PROLOGUE,
          hs_s = s_priv, hs_s_pub = s_pub,
          hs_e = zeros NOX_KEY_LEN, hs_e_pub = zeros NOX_KEY_LEN,
          hs_rs = zeros NOX_KEY_LEN, hs_re = zeros NOX_KEY_LEN,
          hs_initiator = initiator, hs_msg_index = 0, hs_split_done = False, hs_failed = False\<rparr>)"

text \<open>The wipe that the failure branches of \<open>handshake_write\<close>, \<open>handshake_read\<close> and
  \<open>handshake_split\<close> share.\<close>

definition hs_fail :: "noise_handshake \<Rightarrow> noise_handshake" where
  "hs_fail hs = hs\<lparr>
     hs_failed := True,
     hs_e := zeros NOX_KEY_LEN, hs_e_pub := zeros NOX_KEY_LEN,
     hs_s := zeros NOX_KEY_LEN, hs_s_pub := zeros NOX_KEY_LEN,
     hs_re := zeros NOX_KEY_LEN, hs_rs := zeros NOX_KEY_LEN,
     hs_ss := (hs_ss hs)\<lparr>ss_ck := zeros NOISE_HASHLEN,
                        ss_cs := (ss_cs (hs_ss hs))\<lparr>cs_k := zeros NOX_KEY_LEN\<rparr>,
                        ss_h := zeros NOISE_HASHLEN\<rparr>\<rparr>"

section \<open>Writing messages\<close>

text \<open>The result is the error, the new state, the message written and the remaining allocator
  answers; \<open>cap\<close> is the value of \<open>*out_len\<close> on entry.\<close>

type_synonym hs_result = "nox_err_t \<times> noise_handshake \<times> bytes \<times> heap_answers"

definition write_msg0 ::
    "sodium \<Rightarrow> bytes \<times> bytes \<Rightarrow> noise_handshake \<Rightarrow> bytes \<Rightarrow> nat \<Rightarrow> heap_answers \<Rightarrow> hs_result" where
  "write_msg0 S kp hs payload cap al =
     (if NOX_KEY_LEN + length payload > cap then (NOX_ERR_PROTO, hs, [], al)
      else let hs = hs\<lparr>hs_e_pub := fst kp, hs_e := snd kp\<rparr>;
               hs = hs\<lparr>hs_ss := symmetric_mix_hash S (hs_ss hs) (hs_e_pub hs)\<rparr>;
               (r, ss) = symmetric_encrypt_and_hash S (hs_ss hs) payload;
               hs' = hs\<lparr>hs_ss := ss\<rparr>
      in case r of None \<Rightarrow> (NOX_ERR_CRYPTO, hs', [], al)
         | Some ct \<Rightarrow> (NOX_OK, hs', hs_e_pub hs @ ct, al))"

definition write_msg1 ::
    "sodium \<Rightarrow> bytes \<times> bytes \<Rightarrow> noise_handshake \<Rightarrow> bytes \<Rightarrow> nat \<Rightarrow> heap_answers \<Rightarrow> hs_result" where
  "write_msg1 S kp hs payload cap al =
     (if NOX_KEY_LEN + NOX_KEY_LEN + NOX_MAC_LEN + length payload + NOX_MAC_LEN > cap
      then (NOX_ERR_PROTO, hs, [], al)
      else
      let hs = hs\<lparr>hs_e_pub := fst kp, hs_e := snd kp\<rparr>;
          hs = hs\<lparr>hs_ss := symmetric_mix_hash S (hs_ss hs) (hs_e_pub hs)\<rparr>;
          (err, dh) = noise_dh S (hs_e hs) (hs_re hs)
      in if err \<noteq> NOX_OK then (NOX_ERR_CRYPTO, hs, [], al) else
      let (err, ss, al) = symmetric_mix_key S (hs_ss hs) dh al; hs = hs\<lparr>hs_ss := ss\<rparr>
      in if err \<noteq> NOX_OK then (err, hs, [], al) else
      let (r, ss) = symmetric_encrypt_and_hash S (hs_ss hs) (hs_s_pub hs); hs = hs\<lparr>hs_ss := ss\<rparr>
      in case r of None \<Rightarrow> (NOX_ERR_CRYPTO, hs, [], al) | Some cs \<Rightarrow>
      let (err, dh) = noise_dh S (hs_s hs) (hs_re hs)
      in if err \<noteq> NOX_OK then (NOX_ERR_CRYPTO, hs, [], al) else
      let (err, ss, al) = symmetric_mix_key S (hs_ss hs) dh al; hs = hs\<lparr>hs_ss := ss\<rparr>
      in if err \<noteq> NOX_OK then (err, hs, [], al) else
      let (r, ss) = symmetric_encrypt_and_hash S (hs_ss hs) payload; hs = hs\<lparr>hs_ss := ss\<rparr>
      in case r of None \<Rightarrow> (NOX_ERR_CRYPTO, hs, [], al) | Some cp \<Rightarrow>
      (NOX_OK, hs\<lparr>hs_s := zeros NOX_KEY_LEN\<rparr>, hs_e_pub hs @ cs @ cp, al))"

definition write_msg2 ::
    "sodium \<Rightarrow> noise_handshake \<Rightarrow> bytes \<Rightarrow> nat \<Rightarrow> heap_answers \<Rightarrow> hs_result" where
  "write_msg2 S hs payload cap al =
     (if NOX_KEY_LEN + NOX_MAC_LEN + length payload + NOX_MAC_LEN > cap
      then (NOX_ERR_PROTO, hs, [], al)
      else
      let (r, ss) = symmetric_encrypt_and_hash S (hs_ss hs) (hs_s_pub hs); hs = hs\<lparr>hs_ss := ss\<rparr>
      in case r of None \<Rightarrow> (NOX_ERR_CRYPTO, hs, [], al) | Some cs \<Rightarrow>
      let (err, dh) = noise_dh S (hs_s hs) (hs_re hs)
      in if err \<noteq> NOX_OK then (NOX_ERR_CRYPTO, hs, [], al) else
      let (err, ss, al) = symmetric_mix_key S (hs_ss hs) dh al; hs = hs\<lparr>hs_ss := ss\<rparr>
      in if err \<noteq> NOX_OK then (err, hs, [], al) else
      let (r, ss) = symmetric_encrypt_and_hash S (hs_ss hs) payload; hs = hs\<lparr>hs_ss := ss\<rparr>
      in case r of None \<Rightarrow> (NOX_ERR_CRYPTO, hs, [], al) | Some cp \<Rightarrow>
      (NOX_OK, hs\<lparr>hs_s := zeros NOX_KEY_LEN\<rparr>, cs @ cp, al))"

text \<open>The common end of \<open>handshake_write\<close> and \<open>handshake_read\<close>.\<close>

definition hs_finish :: "hs_result \<Rightarrow> hs_result" where
  "hs_finish r = (case r of (err, hs, out, al) \<Rightarrow>
     if err = NOX_OK then (NOX_OK, hs\<lparr>hs_msg_index := hs_msg_index hs + 1\<rparr>, out, al)
     else (err, hs_fail hs, [], al))"

text \<open>A NULL payload counts as an empty one.\<close>

definition handshake_write ::
    "sodium \<Rightarrow> bytes \<times> bytes \<Rightarrow> noise_handshake \<Rightarrow> bytes option \<Rightarrow> nat \<Rightarrow> heap_answers \<Rightarrow> hs_result" where
  "handshake_write S kp hs payload cap al =
     (let pl = (case payload of None \<Rightarrow> [] | Some p \<Rightarrow> p)
      in if hs_split_done hs \<or> hs_failed hs then (NOX_ERR_STATE, hs, [], al)
         else if length pl > NOISE_MAX_HANDSHAKE_LEN then (NOX_ERR_PROTO, hs, [], al)
         else if hs_initiator hs then
           (if hs_msg_index hs = 0 then hs_finish (write_msg0 S kp hs pl cap al)
            else if hs_msg_index hs = 2 then hs_finish (write_msg2 S hs pl cap al)
            else (NOX_ERR_STATE, hs, [], al))
         else
           (if hs_msg_index hs = 1 then hs_finish (write_msg1 S kp hs pl cap al)
            else (NOX_ERR_STATE, hs, [], al)))"

section \<open>Reading messages\<close>

definition read_msg0 ::
    "sodium \<Rightarrow> noise_handshake \<Rightarrow> bytes \<Rightarrow> nat \<Rightarrow> heap_answers \<Rightarrow> hs_result" where
  "read_msg0 S hs msg out_cap al =
     (if length msg < NOX_KEY_LEN then (NOX_ERR_PROTO, hs, [], al)
      else
      let hs = hs\<lparr>hs_re := take NOX_KEY_LEN msg\<rparr>;
          hs = hs\<lparr>hs_ss := symmetric_mix_hash S (hs_ss hs) (hs_re hs)\<rparr>;
          (r, ss) = symmetric_decrypt_and_hash S (hs_ss hs) (drop NOX_KEY_LEN msg) out_cap;
          hs = hs\<lparr>hs_ss := ss\<rparr>
      in case r of None \<Rightarrow> (NOX_ERR_AUTH, hs, [], al) | Some pt \<Rightarrow> (NOX_OK, hs, pt, al))"

definition read_msg1 ::
    "sodium \<Rightarrow> noise_handshake \<Rightarrow> bytes \<Rightarrow> nat \<Rightarrow> heap_answers \<Rightarrow> hs_result" where
  "read_msg1 S hs msg out_cap al =
     (if length msg < NOX_KEY_LEN + NOX_KEY_LEN + NOX_MAC_LEN then (NOX_ERR_PROTO, hs, [], al)
      else
      let hs = hs\<lparr>hs_re := take NOX_KEY_LEN msg\<rparr>;
          hs = hs\<lparr>hs_ss := symmetric_mix_hash S (hs_ss hs) (hs_re hs)\<rparr>;
          msg = drop NOX_KEY_LEN msg;
          (err, dh) = noise_dh S (hs_e hs) (hs_re hs)
      in if err \<noteq> NOX_OK then (NOX_ERR_CRYPTO, hs, [], al) else
      let (err, ss, al) = symmetric_mix_key S (hs_ss hs) dh al; hs = hs\<lparr>hs_ss := ss\<rparr>
      in if err \<noteq> NOX_OK then (err, hs, [], al) else
      let (r, ss) = symmetric_decrypt_and_hash S (hs_ss hs) (take (NOX_KEY_LEN + NOX_MAC_LEN) msg)
                      NOX_KEY_LEN;
          hs = hs\<lparr>hs_ss := ss\<rparr>
      in case r of None \<Rightarrow> (NOX_ERR_AUTH, hs, [], al) | Some rs \<Rightarrow>
      let hs = hs\<lparr>hs_rs := rs\<rparr>; msg = drop (NOX_KEY_LEN + NOX_MAC_LEN) msg;
          (err, dh) = noise_dh S (hs_e hs) (hs_rs hs)
      in if err \<noteq> NOX_OK then (NOX_ERR_CRYPTO, hs, [], al) else
      let (err, ss, al) = symmetric_mix_key S (hs_ss hs) dh al; hs = hs\<lparr>hs_ss := ss\<rparr>
      in if err \<noteq> NOX_OK then (err, hs, [], al) else
      let (r, ss) = symmetric_decrypt_and_hash S (hs_ss hs) msg out_cap; hs = hs\<lparr>hs_ss := ss\<rparr>
      in case r of None \<Rightarrow> (NOX_ERR_AUTH, hs, [], al) | Some pt \<Rightarrow> (NOX_OK, hs, pt, al))"

definition read_msg2 ::
    "sodium \<Rightarrow> noise_handshake \<Rightarrow> bytes \<Rightarrow> nat \<Rightarrow> heap_answers \<Rightarrow> hs_result" where
  "read_msg2 S hs msg out_cap al =
     (if length msg < NOX_KEY_LEN + NOX_MAC_LEN then (NOX_ERR_PROTO, hs, [], al)
      else
      let (r, ss) = symmetric_decrypt_and_hash S (hs_ss hs) (take (NOX_KEY_LEN + NOX_MAC_LEN) msg)
                      NOX_KEY_LEN;
          hs = hs\<lparr>hs_ss := ss\<rparr>
      in case r of None \<Rightarrow> (NOX_ERR_AUTH, hs, [], al) | Some rs \<Rightarrow>
      let hs = hs\<lparr>hs_rs := rs\<rparr>; msg = drop (NOX_KEY_LEN + NOX_MAC_LEN) msg;
          (err, dh) = noise_dh S (hs_e hs) (hs_rs hs)
      in if err \<noteq> NOX_OK then (NOX_ERR_CRYPTO, hs, [], al) else
      let (err, ss, al) = symmetric_mix_key S (hs_ss hs) dh al; hs = hs\<lparr>hs_ss := ss\<rparr>
      in if err \<noteq> NOX_OK then (err, hs, [], al) else
      let (r, ss) = symmetric_decrypt_and_hash S (hs_ss hs) msg out_cap; hs = hs\<lparr>hs_ss := ss\<rparr>
      in case r of None \<Rightarrow> (NOX_ERR_AUTH, hs, [], al) | Some pt \<Rightarrow> (NOX_OK, hs, pt, al))"

text \<open>After the last use of the ephemeral private key, a successful read erases it.\<close>

definition hs_drop_e :: "hs_result \<Rightarrow> hs_result" where
  "hs_drop_e r = (case r of (err, hs, out, al) \<Rightarrow>
     if err = NOX_OK then (err, hs\<lparr>hs_e := zeros NOX_KEY_LEN\<rparr>, out, al) else r)"

definition handshake_read ::
    "sodium \<Rightarrow> noise_handshake \<Rightarrow> bytes \<Rightarrow> nat \<Rightarrow> heap_answers \<Rightarrow> hs_result" where
  "handshake_read S hs msg out_cap al =
     (if hs_split_done hs \<or> hs_failed hs then (NOX_ERR_STATE, hs, [], al)
      else if hs_initiator hs then
        (if hs_msg_index hs = 1 then hs_finish (hs_drop_e (read_msg1 S hs msg out_cap al))
         else (NOX_ERR_STATE, hs, [], al))
      else
        (if hs_msg_index hs = 0 then hs_finish (read_msg0 S hs msg out_cap al)
         else if hs_msg_index hs = 2 then hs_finish (hs_drop_e (read_msg2 S hs msg out_cap al))
         else (NOX_ERR_STATE, hs, [], al)))"

section \<open>Completion\<close>

definition handshake_is_complete :: "noise_handshake \<Rightarrow> bool" where
  "handshake_is_complete hs \<longleftrightarrow> hs_msg_index hs \<ge> 3"

definition handshake_split ::
    "sodium \<Rightarrow> noise_handshake \<Rightarrow> noise_session \<Rightarrow> heap_answers \<Rightarrow>
       nox_err_t \<times> noise_handshake \<times> noise_session \<times> heap_answers" where
  "handshake_split S hs se al =
     (if hs_split_done hs \<or> hs_failed hs then (NOX_ERR_STATE, hs, se, al)
      else if \<not> handshake_is_complete hs then (NOX_ERR_STATE, hs, se, al)
      else
      let (err, ss, se', al) =
        (if hs_initiator hs
         then (case symmetric_split S (hs_ss hs) (ns_tx se) (ns_rx se) al of
                 (err, ss, tx, rx, al) \<Rightarrow> (err, ss, se\<lparr>ns_tx := tx, ns_rx := rx\<rparr>, al))
         else (case symmetric_split S (hs_ss hs) (ns_rx se) (ns_tx se) al of
                 (err, ss, rx, tx, al) \<Rightarrow> (err, ss, se\<lparr>ns_tx := tx, ns_rx := rx\<rparr>, al)))
      in if err \<noteq> NOX_OK then (err, hs_fail (hs\<lparr>hs_ss := ss\<rparr>), se', al)
         else (NOX_OK,
               hs\<lparr>hs_ss := ss,
                  hs_e := zeros NOX_KEY_LEN, hs_e_pub := zeros NOX_KEY_LEN,
                  hs_s := zeros NOX_KEY_LEN, hs_s_pub := zeros NOX_KEY_LEN,
                  hs_re := zeros NOX_KEY_LEN, hs_rs := zeros NOX_KEY_LEN,
                  hs_split_done := True\<rparr>,
               se'\<lparr>ns_remote_static := hs_rs hs\<rparr>, al))"

end
