(* ===== verification/Nox_Handshake_Laws.thy ===== *)
theory Nox_Handshake_Laws
  imports Nox_Handshake
begin

text \<open>
  Lemmas on the symmetric state and the three messages: what each operation computes when the
  allocator answers, that reading a message undoes writing it, and the agreement of the two
  symmetric states through the whole exchange.
\<close>

section \<open>The key derivation computes the specified functions\<close>

text \<open>The formulas of the comments in the source: HMAC with the block size of BLAKE2b, and the
  two-output HKDF of the Noise specification.\<close>

definition hmac_spec :: "sodium \<Rightarrow> bytes \<Rightarrow> bytes \<Rightarrow> bytes" where
  "hmac_spec S key m =
     (let k = key @ zeros (128 - length key)
      in sod_blake2b S (map (\<lambda>x. x XOR 0x5c) k @ sod_blake2b S (map (\<lambda>x. x XOR 0x36) k @ m)))"

definition hkdf_spec :: "sodium \<Rightarrow> bytes \<Rightarrow> bytes \<Rightarrow> bytes \<times> bytes" where
  "hkdf_spec S ck ikm =
     (let t = hmac_spec S ck ikm; o1 = hmac_spec S t [1] in (o1, hmac_spec S t (o1 @ [2])))"

lemma sodium_okD:
  assumes "sodium_ok S"
  shows "aead_ok S" "length (sod_blake2b S m) = 64"
    "length a = NOX_KEY_LEN \<Longrightarrow> length (sod_scalarmult_base S a) = NOX_KEY_LEN"
    "sod_scalarmult S a (sod_scalarmult_base S b) = sod_scalarmult S b (sod_scalarmult_base S a)"
    "sod_scalarmult S a b = Some z \<Longrightarrow> length z = NOX_KEY_LEN"
  using assms unfolding sodium_ok_def NOISE_HASHLEN_def by blast+

lemma length_hmac_spec: "sodium_ok S \<Longrightarrow> length (hmac_spec S k m) = 64"
  by (simp add: hmac_spec_def Let_def sodium_okD)

lemma length_hkdf_spec:
  "sodium_ok S \<Longrightarrow> length (fst (hkdf_spec S ck ikm)) = 64"
  "sodium_ok S \<Longrightarrow> length (snd (hkdf_spec S ck ikm)) = 64"
  by (simp_all add: hkdf_spec_def Let_def length_hmac_spec)

lemma sodium_malloc_heap_ok:
  assumes "heap_ok al"
  obtains al' where "sodium_malloc al = (True, al')" "heap_ok al'"
  using assms by (cases al) (auto simp: heap_ok_def)

lemma noise_hmac_ok:
  assumes "heap_ok al" and "length key \<le> 128"
  obtains al' where "noise_hmac_blake2b_64 S key m al = (NOX_OK, hmac_spec S key m, al')"
    "heap_ok al'"
proof -
  obtain a1 where 1: "sodium_malloc al = (True, a1)" "heap_ok a1"
    using assms(1) by (rule sodium_malloc_heap_ok)
  obtain a2 where 2: "sodium_malloc a1 = (True, a2)" "heap_ok a2"
    using 1(2) by (rule sodium_malloc_heap_ok)
  obtain a3 where 3: "sodium_malloc a2 = (True, a3)" "heap_ok a3"
    using 2(2) by (rule sodium_malloc_heap_ok)
  obtain a4 where 4: "sodium_malloc a3 = (True, a4)" "heap_ok a4"
    using 3(2) by (rule sodium_malloc_heap_ok)
  have "noise_hmac_blake2b_64 S key m al = (NOX_OK, hmac_spec S key m, a4)"
    using assms(2) 1(1) 2(1) 3(1) 4(1)
    by (simp add: noise_hmac_blake2b_64_def hmac_spec_def BLAKE2B_BLOCK_SIZE_def Let_def)
  with 4(2) that show ?thesis by blast
qed

lemma hkdf_blake2b_ok:
  assumes S: "sodium_ok S" and al: "heap_ok al" and ck: "length ck = 64"
  obtains al' where
    "hkdf_blake2b S ck ikm al = (NOX_OK, fst (hkdf_spec S ck ikm), snd (hkdf_spec S ck ikm), al')"
    "heap_ok al'"
proof -
  define t where "t = hmac_spec S ck ikm"
  define o1 where "o1 = hmac_spec S t [1]"
  have t: "length t \<le> 128" using S by (simp add: t_def length_hmac_spec)
  obtain a1 where 1: "sodium_malloc al = (True, a1)" "heap_ok a1"
    using al by (rule sodium_malloc_heap_ok)
  obtain a2 where 2: "sodium_malloc a1 = (True, a2)" "heap_ok a2"
    using 1(2) by (rule sodium_malloc_heap_ok)
  obtain a3 where 3: "noise_hmac_blake2b_64 S ck ikm a2 = (NOX_OK, t, a3)" "heap_ok a3"
    using noise_hmac_ok [OF 2(2), of ck S ikm] ck unfolding t_def by auto
  obtain a4 where 4: "noise_hmac_blake2b_64 S t [1] a3 = (NOX_OK, o1, a4)" "heap_ok a4"
    using noise_hmac_ok [OF 3(2) t] unfolding o1_def by blast
  obtain a5 where 5: "noise_hmac_blake2b_64 S t (o1 @ [2]) a4 = (NOX_OK, hmac_spec S t (o1 @ [2]), a5)"
    "heap_ok a5"
    using noise_hmac_ok [OF 4(2) t] by blast
  have "hkdf_spec S ck ikm = (o1, hmac_spec S t (o1 @ [2]))"
    by (simp add: hkdf_spec_def Let_def t_def o1_def)
  with 1 2 3 4 5 that show ?thesis by (simp add: hkdf_blake2b_def)
qed

section \<open>Symmetric state\<close>

definition mix_key_spec :: "sodium \<Rightarrow> noise_symmetric_state \<Rightarrow> bytes \<Rightarrow> noise_symmetric_state" where
  "mix_key_spec S ss ikm =
     (let (o1, o2) = hkdf_spec S (ss_ck ss) ikm
      in ss\<lparr>ss_ck := o1, ss_cs := \<lparr>cs_k = take NOX_KEY_LEN o2, cs_n = 0, cs_has_key = True\<rparr>\<rparr>)"

lemma symmetric_mix_key_ok:
  assumes "sodium_ok S" "heap_ok al" "length (ss_ck ss) = 64"
  obtains al' where "symmetric_mix_key S ss ikm al = (NOX_OK, mix_key_spec S ss ikm, al')" "heap_ok al'"
proof -
  obtain al' where
    "hkdf_blake2b S (ss_ck ss) ikm al =
       (NOX_OK, fst (hkdf_spec S (ss_ck ss) ikm), snd (hkdf_spec S (ss_ck ss) ikm), al')" "heap_ok al'"
    using assms by (rule hkdf_blake2b_ok)
  with that show ?thesis
    by (simp add: symmetric_mix_key_def mix_key_spec_def cipher_init_key_def
        split: prod.splits)
qed

lemma mix_key_spec_simps [simp]:
  "cs_has_key (ss_cs (mix_key_spec S ss ikm))"
  "cs_n (ss_cs (mix_key_spec S ss ikm)) = 0"
  "sodium_ok S \<Longrightarrow> length (ss_ck (mix_key_spec S ss ikm)) = 64"
  "ss_h (mix_key_spec S ss ikm) = ss_h ss"
  using length_hkdf_spec [of S "ss_ck ss" ikm]
  by (auto simp: mix_key_spec_def split: prod.splits)

lemma symmetric_mix_hash_simps [simp]:
  "ss_ck (symmetric_mix_hash S ss d) = ss_ck ss"
  "ss_cs (symmetric_mix_hash S ss d) = ss_cs ss"
  by (simp_all add: symmetric_mix_hash_def)

lemma encrypt_and_hash_keyed:
  assumes S: "sodium_ok S" and k: "cs_has_key (ss_cs ss)" and n: "cs_n (ss_cs ss) < UINT64_MAX"
    and len: "length pt \<le> NOX_MAX_MSG_LEN"
  obtains ct ss' where
    "symmetric_encrypt_and_hash S ss pt = (Some ct, ss')"
    "length ct = length pt + NOX_MAC_LEN" "ss_ck ss' = ss_ck ss" "cs_has_key (ss_cs ss')"
    "cs_n (ss_cs ss') = cs_n (ss_cs ss) + 1"
proof -
  obtain c where "sod_aead_encrypt S (cs_k (ss_cs ss)) (encode_nonce (cs_n (ss_cs ss))) (ss_h ss) pt = Some c"
    "length c = length pt + NOX_MAC_LEN"
    using aead_ok_encrypt [OF sodium_okD(1) [OF S]] by metis
  with k n len that show ?thesis
    by (simp add: symmetric_encrypt_and_hash_def cipher_encrypt_keyed)
qed

lemma encrypt_and_hash_unkeyed:
  "\<not> cs_has_key (ss_cs ss) \<Longrightarrow> length pt \<le> NOX_MAX_MSG_LEN \<Longrightarrow>
     symmetric_encrypt_and_hash S ss pt = (Some pt, symmetric_mix_hash S ss pt)"
  by (simp add: symmetric_encrypt_and_hash_def cipher_encrypt_def)

lemma decrypt_encrypt_and_hash:
  assumes S: "aead_ok S" and e: "symmetric_encrypt_and_hash S ss pt = (Some ct, ss')"
    and cap: "length pt \<le> cap" and len: "length pt \<le> NOX_MAX_MSG_LEN"
  shows "symmetric_decrypt_and_hash S ss ct cap = (Some pt, ss')"
proof -
  obtain cs where c: "cipher_encrypt S (ss_cs ss) (ss_h ss) pt = (Some ct, cs)"
    and ss': "ss' = symmetric_mix_hash S (ss\<lparr>ss_cs := cs\<rparr>) ct"
    using e by (auto simp: symmetric_encrypt_and_hash_def Let_def split: prod.splits option.splits)
  show ?thesis
  proof (cases "cs_has_key (ss_cs ss)")
    case True
    with cipher_decrypt_encrypt [OF S True c] ss' cap show ?thesis
      by (simp add: symmetric_decrypt_and_hash_def)
  next
    case False
    with c len have "ct = pt" "cs = ss_cs ss" by (auto simp: cipher_encrypt_def)
    with False ss' cap len show ?thesis
      by (simp add: symmetric_decrypt_and_hash_def cipher_decrypt_def NOISE_MAX_PAYLOAD_LEN_def)
  qed
qed

section \<open>One message, written and read\<close>

text \<open>A Diffie-Hellman exchange between the owners of \<open>a\<close> and \<open>b\<close> that passes the weak key and
  zero output checks on both sides.\<close>

definition dh_ok :: "sodium \<Rightarrow> bytes \<Rightarrow> bytes \<Rightarrow> bool" where
  "dh_ok S a b \<longleftrightarrow> fst (noise_dh S a (sod_scalarmult_base S b)) = NOX_OK \<and>
     fst (noise_dh S b (sod_scalarmult_base S a)) = NOX_OK"

definition dh_secret :: "sodium \<Rightarrow> bytes \<Rightarrow> bytes \<Rightarrow> bytes" where
  "dh_secret S a b = snd (noise_dh S a (sod_scalarmult_base S b))"

lemma noise_dh_agree:
  assumes "sodium_ok S" and "dh_ok S a b"
  shows "noise_dh S a (sod_scalarmult_base S b) = (NOX_OK, dh_secret S a b)"
    and "noise_dh S b (sod_scalarmult_base S a) = (NOX_OK, dh_secret S a b)"
  using assms sodium_okD(4) [OF assms(1), of a b]
  by (auto simp: dh_ok_def dh_secret_def noise_dh_def split: if_splits option.splits)

text \<open>\<open>noise_dh\<close> never succeeds with an all-zero secret.\<close>

lemma noise_dh_nonzero: "noise_dh S a b = (NOX_OK, z) \<Longrightarrow> \<not> is_zero z"
  by (auto simp: noise_dh_def split: if_splits option.splits)

abbreviation keypair :: "sodium \<Rightarrow> bytes \<Rightarrow> bytes \<times> bytes" where
  "keypair S e \<equiv> (sod_scalarmult_base S e, e)"

lemma msg0_exchange:
  assumes S: "sodium_ok S" and e: "length e = NOX_KEY_LEN"
    and ss: "hs_ss R = hs_ss I" "\<not> cs_has_key (ss_cs (hs_ss I))" "length (ss_ck (hs_ss I)) = 64"
    and p: "NOX_KEY_LEN + length p \<le> cap" "length p \<le> ocap" "length p \<le> NOX_MAX_MSG_LEN"
  obtains ss' m where
    "write_msg0 S (keypair S e) I p cap al =
       (NOX_OK, I\<lparr>hs_e_pub := sod_scalarmult_base S e, hs_e := e, hs_ss := ss'\<rparr>, m, al)"
    "read_msg0 S R m ocap bl = (NOX_OK, R\<lparr>hs_re := sod_scalarmult_base S e, hs_ss := ss'\<rparr>, p, bl)"
    "length (ss_ck ss') = 64"
proof -
  let ?ep = "sod_scalarmult_base S e"
  define s1 where "s1 = symmetric_mix_hash S (hs_ss I) ?ep"
  have s1: "\<not> cs_has_key (ss_cs s1)" "length (ss_ck s1) = 64"
    using ss by (simp_all add: s1_def)
  note enc = encrypt_and_hash_unkeyed [OF s1(1) p(3), of S]
  note dec = decrypt_encrypt_and_hash [OF sodium_okD(1) [OF S] enc p(2,3)]
  have b: "length ?ep = NOX_KEY_LEN"
    using S e by (simp add: sodium_okD)
  show ?thesis
  proof (rule that)
    show "write_msg0 S (keypair S e) I p cap al =
       (NOX_OK, I\<lparr>hs_e_pub := ?ep, hs_e := e, hs_ss := symmetric_mix_hash S s1 p\<rparr>, ?ep @ p, al)"
      using p(1) enc by (simp add: write_msg0_def Let_def s1_def)
    show "read_msg0 S R (?ep @ p) ocap bl =
       (NOX_OK, R\<lparr>hs_re := ?ep, hs_ss := symmetric_mix_hash S s1 p\<rparr>, p, bl)"
      using b dec ss(1) by (simp add: read_msg0_def Let_def s1_def)
  qed (use s1 in simp)
qed

text \<open>The two keyed steps the later messages share: a static key, then a payload under the next
  key.\<close>

lemma static_then_payload:
  assumes S: "sodium_ok S" and al: "heap_ok al"
    and ss: "length (ss_ck s2) = 64" "cs_has_key (ss_cs s2)" "cs_n (ss_cs s2) < UINT64_MAX"
    and sp: "length sp = NOX_KEY_LEN"
    and p: "length p \<le> ocap" "length p \<le> NOX_MAX_MSG_LEN"
  obtains c s3 s4 d s5 w where
    "symmetric_encrypt_and_hash S s2 sp = (Some c, s3)" "length c = 48"
    "symmetric_decrypt_and_hash S s2 c NOX_KEY_LEN = (Some sp, s3)"
    "symmetric_mix_key S s3 z al = (NOX_OK, s4, w)" "heap_ok w"
    "\<forall>bl. heap_ok bl \<longrightarrow> (\<exists>v. symmetric_mix_key S s3 z bl = (NOX_OK, s4, v) \<and> heap_ok v)"
    "symmetric_encrypt_and_hash S s4 p = (Some d, s5)"
    "symmetric_decrypt_and_hash S s4 d ocap = (Some p, s5)"
    "length (ss_ck s5) = 64" "cs_has_key (ss_cs s5)" "cs_n (ss_cs s5) = 1"
proof -
  have a: "aead_ok S" using S by (rule sodium_okD)
  have lsp: "length sp \<le> NOX_MAX_MSG_LEN" "length sp \<le> NOX_KEY_LEN"
    using sp by (simp_all add: nox_consts)
  obtain c s3 where c: "symmetric_encrypt_and_hash S s2 sp = (Some c, s3)"
    "length c = length sp + NOX_MAC_LEN" "ss_ck s3 = ss_ck s2"
    using encrypt_and_hash_keyed [OF S ss(2,3) lsp(1)] by metis
  have ck3: "length (ss_ck s3) = 64" using c ss by simp
  define s4 where "s4 = mix_key_spec S s3 z"
  obtain w where w: "symmetric_mix_key S s3 z al = (NOX_OK, s4, w)" "heap_ok w"
    unfolding s4_def by (rule symmetric_mix_key_ok [OF S al ck3])
  have v: "\<exists>v. symmetric_mix_key S s3 z bl = (NOX_OK, s4, v) \<and> heap_ok v" if "heap_ok bl" for bl
    unfolding s4_def by (rule symmetric_mix_key_ok [OF S that ck3]) blast
  have k4: "cs_has_key (ss_cs s4)" "cs_n (ss_cs s4) < UINT64_MAX" "length (ss_ck s4) = 64"
    "cs_n (ss_cs s4) = 0"
    using S by (simp_all add: s4_def UINT64_MAX_def)
  obtain d s5 where d: "symmetric_encrypt_and_hash S s4 p = (Some d, s5)"
    "ss_ck s5 = ss_ck s4" "cs_has_key (ss_cs s5)" "cs_n (ss_cs s5) = cs_n (ss_cs s4) + 1"
    using encrypt_and_hash_keyed [OF S k4(1,2) p(2)] by metis
  show ?thesis
    by (rule that [OF c(1) _ decrypt_encrypt_and_hash [OF a c(1) lsp(2,1)] w _ d(1)
          decrypt_encrypt_and_hash [OF a d(1) p]])
       (use c(2) sp d k4 v in \<open>simp_all add: nox_consts\<close>)
qed

lemma msg1_exchange:
  assumes S: "sodium_ok S" and al: "heap_ok al"
    and len: "length er = NOX_KEY_LEN" "length sr = NOX_KEY_LEN"
    and ss: "hs_ss I = hs_ss R" "length (ss_ck (hs_ss R)) = 64"
    and R: "hs_re R = sod_scalarmult_base S ei" "hs_s R = sr" "hs_s_pub R = sod_scalarmult_base S sr"
    and I: "hs_e I = ei"
    and dh: "dh_ok S er ei" "dh_ok S sr ei"
    and p: "96 + length p \<le> cap" "length p \<le> ocap" "length p \<le> NOX_MAX_MSG_LEN"
  obtains ss' m al' where
    "write_msg1 S (keypair S er) R p cap al =
       (NOX_OK, R\<lparr>hs_e_pub := sod_scalarmult_base S er, hs_e := er, hs_ss := ss', hs_s := zeros NOX_KEY_LEN\<rparr>, m, al')"
    "\<forall>bl. heap_ok bl \<longrightarrow> (\<exists>bl'. heap_ok bl' \<and> read_msg1 S I m ocap bl =
       (NOX_OK, I\<lparr>hs_re := sod_scalarmult_base S er, hs_rs := sod_scalarmult_base S sr, hs_ss := ss'\<rparr>, p, bl'))"
    "length (ss_ck ss') = 64" "cs_has_key (ss_cs ss')" "cs_n (ss_cs ss') = 1" "heap_ok al'"
proof -
  let ?ep = "sod_scalarmult_base S er" and ?sp = "sod_scalarmult_base S sr"
  have b: "length ?ep = NOX_KEY_LEN" "length ?sp = NOX_KEY_LEN"
    using S len by (simp_all add: sodium_okD)
  define s1 where "s1 = symmetric_mix_hash S (hs_ss R) ?ep"
  define s2 where "s2 = mix_key_spec S s1 (dh_secret S er ei)"
  have ck1: "length (ss_ck s1) = 64" and k2: "length (ss_ck s2) = 64" "cs_has_key (ss_cs s2)"
    "cs_n (ss_cs s2) < UINT64_MAX"
    using ss S by (simp_all add: s1_def s2_def UINT64_MAX_def)
  obtain w1 where w1: "symmetric_mix_key S s1 (dh_secret S er ei) al = (NOX_OK, s2, w1)" "heap_ok w1"
    unfolding s2_def by (rule symmetric_mix_key_ok [OF S al ck1])
  obtain c s3 s4 d s5 w where st:
    "symmetric_encrypt_and_hash S s2 ?sp = (Some c, s3)" "length c = 48"
    "symmetric_decrypt_and_hash S s2 c NOX_KEY_LEN = (Some ?sp, s3)"
    "symmetric_mix_key S s3 (dh_secret S sr ei) w1 = (NOX_OK, s4, w)" "heap_ok w"
    "\<forall>bl. heap_ok bl \<longrightarrow>
        (\<exists>v. symmetric_mix_key S s3 (dh_secret S sr ei) bl = (NOX_OK, s4, v) \<and> heap_ok v)"
    "symmetric_encrypt_and_hash S s4 p = (Some d, s5)"
    "symmetric_decrypt_and_hash S s4 d ocap = (Some p, s5)"
    "length (ss_ck s5) = 64" "cs_has_key (ss_cs s5)" "cs_n (ss_cs s5) = 1"
    by (rule static_then_payload [OF S w1(2) k2 b(2) p(2,3), where z = "dh_secret S sr ei"])
  note dhs = noise_dh_agree [OF S dh(1)] noise_dh_agree [OF S dh(2)]
  show ?thesis
  proof (rule that)
    show "write_msg1 S (keypair S er) R p cap al =
       (NOX_OK, R\<lparr>hs_e_pub := ?ep, hs_e := er, hs_ss := s5, hs_s := zeros NOX_KEY_LEN\<rparr>, ?ep @ c @ d, w)"
      using p(1) R dhs w1 st(1-5,7,8)
      by (simp add: write_msg1_def Let_def nox_consts s1_def)
    have "\<exists>v. heap_ok v \<and> read_msg1 S I (?ep @ c @ d) ocap bl =
       (NOX_OK, I\<lparr>hs_re := ?ep, hs_rs := ?sp, hs_ss := s5\<rparr>, p, v)" if bl: "heap_ok bl" for bl
    proof -
    obtain v1 where v1: "symmetric_mix_key S s1 (dh_secret S er ei) bl = (NOX_OK, s2, v1)" "heap_ok v1"
      unfolding s2_def by (rule symmetric_mix_key_ok [OF S bl ck1])
    obtain v where v: "symmetric_mix_key S s3 (dh_secret S sr ei) v1 = (NOX_OK, s4, v)" "heap_ok v"
      using st(6) v1(2) by blast
    have "read_msg1 S I (?ep @ c @ d) ocap bl =
       (NOX_OK, I\<lparr>hs_re := ?ep, hs_rs := ?sp, hs_ss := s5\<rparr>, p, v)"
      using b ss(1) I dhs v1 v st(1-3,7,8)
      by (simp add: read_msg1_def Let_def nox_consts s1_def)
    with v(2) show ?thesis by blast
    qed
    then show "\<forall>bl. heap_ok bl \<longrightarrow> (\<exists>v. heap_ok v \<and> read_msg1 S I (?ep @ c @ d) ocap bl =
       (NOX_OK, I\<lparr>hs_re := ?ep, hs_rs := ?sp, hs_ss := s5\<rparr>, p, v))" by blast
  qed (use st in simp_all)
qed

lemma msg2_exchange:
  assumes S: "sodium_ok S" and al: "heap_ok al" and len: "length si = NOX_KEY_LEN"
    and ss: "hs_ss R = hs_ss I" "length (ss_ck (hs_ss I)) = 64" "cs_has_key (ss_cs (hs_ss I))"
      "cs_n (ss_cs (hs_ss I)) < UINT64_MAX"
    and I: "hs_re I = sod_scalarmult_base S er" "hs_s I = si" "hs_s_pub I = sod_scalarmult_base S si"
    and R: "hs_e R = er"
    and dh: "dh_ok S si er"
    and p: "64 + length p \<le> cap" "length p \<le> ocap" "length p \<le> NOX_MAX_MSG_LEN"
  obtains ss' m al' where
    "write_msg2 S I p cap al = (NOX_OK, I\<lparr>hs_ss := ss', hs_s := zeros NOX_KEY_LEN\<rparr>, m, al')"
    "\<forall>bl. heap_ok bl \<longrightarrow> (\<exists>bl'. heap_ok bl' \<and> read_msg2 S R m ocap bl =
       (NOX_OK, R\<lparr>hs_rs := sod_scalarmult_base S si, hs_ss := ss'\<rparr>, p, bl'))"
    "length (ss_ck ss') = 64" "heap_ok al'"
proof -
  let ?sp = "sod_scalarmult_base S si"
  have b: "length ?sp = NOX_KEY_LEN"
    using S len by (simp add: sodium_okD)
  obtain c s3 s4 d s5 w where st:
    "symmetric_encrypt_and_hash S (hs_ss I) ?sp = (Some c, s3)" "length c = 48"
    "symmetric_decrypt_and_hash S (hs_ss I) c NOX_KEY_LEN = (Some ?sp, s3)"
    "symmetric_mix_key S s3 (dh_secret S si er) al = (NOX_OK, s4, w)" "heap_ok w"
    "\<forall>bl. heap_ok bl \<longrightarrow>
        (\<exists>v. symmetric_mix_key S s3 (dh_secret S si er) bl = (NOX_OK, s4, v) \<and> heap_ok v)"
    "symmetric_encrypt_and_hash S s4 p = (Some d, s5)"
    "symmetric_decrypt_and_hash S s4 d ocap = (Some p, s5)"
    "length (ss_ck s5) = 64" "cs_has_key (ss_cs s5)" "cs_n (ss_cs s5) = 1"
    by (rule static_then_payload [OF S al ss(2,3,4) b p(2,3), where z = "dh_secret S si er"])
  note dhs = noise_dh_agree [OF S dh]
  show ?thesis
  proof (rule that)
    show "write_msg2 S I p cap al = (NOX_OK, I\<lparr>hs_ss := s5, hs_s := zeros NOX_KEY_LEN\<rparr>, c @ d, w)"
      using p(1) I dhs st(1-5,7,8) by (simp add: write_msg2_def Let_def nox_consts)
    have "\<exists>v. heap_ok v \<and> read_msg2 S R (c @ d) ocap bl =
       (NOX_OK, R\<lparr>hs_rs := ?sp, hs_ss := s5\<rparr>, p, v)" if "heap_ok bl" for bl
    proof -
    from that st(6) obtain v where v: "symmetric_mix_key S s3 (dh_secret S si er) bl = (NOX_OK, s4, v)"
      "heap_ok v" by blast
    have "read_msg2 S R (c @ d) ocap bl = (NOX_OK, R\<lparr>hs_rs := ?sp, hs_ss := s5\<rparr>, p, v)"
      using ss(1) R dhs v st(1-3,7,8) by (simp add: read_msg2_def Let_def nox_consts)
    with v(2) show ?thesis by blast
    qed
    then show "\<forall>bl. heap_ok bl \<longrightarrow> (\<exists>v. heap_ok v \<and> read_msg2 S R (c @ d) ocap bl =
       (NOX_OK, R\<lparr>hs_rs := ?sp, hs_ss := s5\<rparr>, p, v))" by blast
  qed (use st in simp_all)
qed

end
