(* ===== verification/Nox_Handshake_Run.thy ===== *)
theory Nox_Handshake_Run
  imports Nox_Handshake_Laws
begin

text \<open>
  The handshake as a state machine: the calls a peer can make on a handshake object, the
  invariant every reachable object has (message order, erasure of key material), the terminal
  states, and the complete run of two honest parties up to the transport session.
\<close>

section \<open>What a message operation leaves alone\<close>

definition same_role :: "noise_handshake \<Rightarrow> noise_handshake \<Rightarrow> bool" where
  "same_role hs hs' \<longleftrightarrow> hs_initiator hs' = hs_initiator hs \<and> hs_msg_index hs' = hs_msg_index hs \<and>
     hs_split_done hs' = hs_split_done hs \<and> hs_failed hs' = hs_failed hs"

lemma write_msg0_frame:
  "write_msg0 S kp hs p cap al = (err, hs', out, al') \<Longrightarrow>
     same_role hs hs' \<and> hs_s hs' = hs_s hs \<and> hs_rs hs' = hs_rs hs"
  by (auto simp: write_msg0_def same_role_def Let_def split: if_splits prod.splits option.splits)

lemma write_msg1_frame:
  "write_msg1 S kp hs p cap al = (err, hs', out, al') \<Longrightarrow>
     same_role hs hs' \<and> (err = NOX_OK \<longrightarrow> hs_s hs' = zeros NOX_KEY_LEN)"
  by (auto simp: write_msg1_def same_role_def Let_def split: if_splits prod.splits option.splits)

lemma write_msg2_frame:
  "write_msg2 S hs p cap al = (err, hs', out, al') \<Longrightarrow>
     same_role hs hs' \<and> hs_e hs' = hs_e hs \<and> (err = NOX_OK \<longrightarrow> hs_s hs' = zeros NOX_KEY_LEN)"
  by (auto simp: write_msg2_def same_role_def Let_def split: if_splits prod.splits option.splits)

lemma read_msg0_frame:
  "read_msg0 S hs m cap al = (err, hs', out, al') \<Longrightarrow> same_role hs hs' \<and> hs_s hs' = hs_s hs"
  by (auto simp: read_msg0_def same_role_def Let_def split: if_splits prod.splits option.splits)

lemma read_msg1_frame:
  "read_msg1 S hs m cap al = (err, hs', out, al') \<Longrightarrow> same_role hs hs' \<and> hs_s hs' = hs_s hs"
  by (auto simp: read_msg1_def same_role_def Let_def split: if_splits prod.splits option.splits)

lemma read_msg2_frame:
  "read_msg2 S hs m cap al = (err, hs', out, al') \<Longrightarrow> same_role hs hs' \<and> hs_s hs' = hs_s hs"
  by (auto simp: read_msg2_def same_role_def Let_def split: if_splits prod.splits option.splits)

section \<open>The invariant of a handshake object\<close>

definition hs_wiped :: "noise_handshake \<Rightarrow> bool" where
  "hs_wiped hs \<longleftrightarrow> is_zero (hs_e hs) \<and> is_zero (hs_e_pub hs) \<and> is_zero (hs_s hs) \<and>
     is_zero (hs_s_pub hs) \<and> is_zero (hs_re hs) \<and> is_zero (hs_rs hs) \<and>
     is_zero (ss_ck (hs_ss hs)) \<and> is_zero (ss_h (hs_ss hs)) \<and> is_zero (cs_k (ss_cs (hs_ss hs)))"

text \<open>At most three messages; a failed or split object holds no key material; the static private
  key is gone after the owner's last message that needs it, the ephemeral one after the last
  message read.\<close>

definition hs_inv :: "noise_handshake \<Rightarrow> bool" where
  "hs_inv hs \<longleftrightarrow>
     hs_msg_index hs \<le> 3 \<and>
     (hs_failed hs \<longrightarrow> hs_wiped hs \<and> \<not> hs_split_done hs) \<and>
     (hs_split_done hs \<longrightarrow> hs_wiped hs \<and> hs_msg_index hs = 3) \<and>
     (hs_initiator hs \<and> 2 \<le> hs_msg_index hs \<longrightarrow> is_zero (hs_e hs)) \<and>
     (\<not> hs_initiator hs \<and> 2 \<le> hs_msg_index hs \<longrightarrow> is_zero (hs_s hs)) \<and>
     (hs_msg_index hs = 3 \<longrightarrow> is_zero (hs_e hs) \<and> is_zero (hs_s hs))"

datatype hs_event =
    HsWrite "bytes \<times> bytes" "bytes option" nat heap_answers
  | HsRead bytes nat heap_answers
  | HsSplit noise_session heap_answers

fun hs_step :: "sodium \<Rightarrow> noise_handshake \<Rightarrow> hs_event \<Rightarrow> noise_handshake" where
  "hs_step S hs (HsWrite kp p cap al) = fst (snd (handshake_write S kp hs p cap al))"
| "hs_step S hs (HsRead m cap al) = fst (snd (handshake_read S hs m cap al))"
| "hs_step S hs (HsSplit se al) = fst (snd (handshake_split S hs se al))"

lemma hs_wiped_fail: "hs_wiped (hs_fail hs)"
  by (simp add: hs_wiped_def hs_fail_def)

lemma hs_fail_simps [simp]:
  "hs_failed (hs_fail hs)" "hs_msg_index (hs_fail hs) = hs_msg_index hs"
  "hs_split_done (hs_fail hs) = hs_split_done hs"
  by (simp_all add: hs_fail_def)

lemma hs_inv_fail: "hs_msg_index hs \<le> 3 \<Longrightarrow> \<not> hs_split_done hs \<Longrightarrow> hs_inv (hs_fail hs)"
  using hs_wiped_fail [of hs] by (simp add: hs_inv_def hs_wiped_def)

lemma hs_inv_init: "hs_inv (handshake_init S i s_priv s_pub)"
  by (simp add: hs_inv_def handshake_init_def Let_def)

text \<open>A finished message operation: the invariant follows from what the operation says of the
  role and, on success, of the private keys at the next index.\<close>

lemma hs_inv_finish:
  assumes inv: "hs_inv hs" and live: "\<not> hs_split_done hs" "\<not> hs_failed hs" "hs_msg_index hs \<le> 2"
    and r: "same_role hs (fst (snd r))"
    and keys: "fst r = NOX_OK \<Longrightarrow>
        (hs_initiator hs \<and> 1 \<le> hs_msg_index hs \<longrightarrow> is_zero (hs_e (fst (snd r)))) \<and>
        (\<not> hs_initiator hs \<and> 1 \<le> hs_msg_index hs \<longrightarrow> is_zero (hs_s (fst (snd r)))) \<and>
        (hs_msg_index hs = 2 \<longrightarrow> is_zero (hs_e (fst (snd r))) \<and> is_zero (hs_s (fst (snd r))))"
  shows "hs_inv (fst (snd (hs_finish r)))"
proof -
  obtain err hs' out al where rr: "r = (err, hs', out, al)" by (cases r) auto
  show ?thesis
  proof (cases "err = NOX_OK")
    case True
    with rr r keys live show ?thesis
      by (auto simp: hs_finish_def hs_inv_def same_role_def)
  next
    case False
    with rr have "fst (snd (hs_finish r)) = hs_fail hs'" by (simp add: hs_finish_def)
    moreover have "hs_msg_index hs' \<le> 3" "\<not> hs_split_done hs'"
      using rr r live by (auto simp: same_role_def)
    ultimately show ?thesis by (simp add: hs_inv_fail)
  qed
qed

lemma write_msg_inv:
  assumes inv: "hs_inv hs" and live: "\<not> hs_split_done hs" "\<not> hs_failed hs"
  shows "hs_msg_index hs = 0 \<Longrightarrow> hs_initiator hs \<Longrightarrow>
      hs_inv (fst (snd (hs_finish (write_msg0 S kp hs p cap al))))"
    and "hs_msg_index hs = 1 \<Longrightarrow> \<not> hs_initiator hs \<Longrightarrow>
      hs_inv (fst (snd (hs_finish (write_msg1 S kp hs p cap al))))"
    and "hs_msg_index hs = 2 \<Longrightarrow> hs_initiator hs \<Longrightarrow>
      hs_inv (fst (snd (hs_finish (write_msg2 S hs p cap al))))"
proof -
  obtain a0 b0 c0 d0 where w0: "write_msg0 S kp hs p cap al = (a0, b0, c0, d0)" by (metis prod_cases4)
  obtain a1 b1 c1 d1 where w1: "write_msg1 S kp hs p cap al = (a1, b1, c1, d1)" by (metis prod_cases4)
  obtain a2 b2 c2 d2 where w2: "write_msg2 S hs p cap al = (a2, b2, c2, d2)" by (metis prod_cases4)
  note fin = hs_inv_finish [OF inv live]
  show "hs_inv (fst (snd (hs_finish (write_msg0 S kp hs p cap al))))"
    if "hs_msg_index hs = 0" "hs_initiator hs"
    by (rule fin) (use that w0 write_msg0_frame [OF w0] in simp_all)
  show "hs_inv (fst (snd (hs_finish (write_msg1 S kp hs p cap al))))"
    if "hs_msg_index hs = 1" "\<not> hs_initiator hs"
    by (rule fin) (use that w1 write_msg1_frame [OF w1] in simp_all)
  show "hs_inv (fst (snd (hs_finish (write_msg2 S hs p cap al))))"
    if "hs_msg_index hs = 2" "hs_initiator hs"
    by (rule fin) (use that inv w2 write_msg2_frame [OF w2] in \<open>simp_all add: hs_inv_def\<close>)
qed

lemma handshake_write_inv: "hs_inv hs \<Longrightarrow> hs_inv (fst (snd (handshake_write S kp hs p cap al)))"
  by (simp add: handshake_write_def write_msg_inv Let_def)

lemma hs_drop_e_frame:
  "same_role hs (fst (snd r)) \<Longrightarrow> same_role hs (fst (snd (hs_drop_e r)))"
  "fst (hs_drop_e r) = fst r"
  "hs_s (fst (snd (hs_drop_e r))) = hs_s (fst (snd r))"
  "fst r = NOX_OK \<Longrightarrow> is_zero (hs_e (fst (snd (hs_drop_e r))))"
  by (auto simp: hs_drop_e_def same_role_def split: prod.splits)

lemma read_msg_inv:
  assumes inv: "hs_inv hs" and live: "\<not> hs_split_done hs" "\<not> hs_failed hs"
  shows "hs_msg_index hs = 0 \<Longrightarrow> \<not> hs_initiator hs \<Longrightarrow>
      hs_inv (fst (snd (hs_finish (read_msg0 S hs m cap al))))"
    and "hs_msg_index hs = 1 \<Longrightarrow> hs_initiator hs \<Longrightarrow>
      hs_inv (fst (snd (hs_finish (hs_drop_e (read_msg1 S hs m cap al)))))"
    and "hs_msg_index hs = 2 \<Longrightarrow> \<not> hs_initiator hs \<Longrightarrow>
      hs_inv (fst (snd (hs_finish (hs_drop_e (read_msg2 S hs m cap al)))))"
proof -
  obtain a0 b0 c0 d0 where w0: "read_msg0 S hs m cap al = (a0, b0, c0, d0)" by (metis prod_cases4)
  obtain a1 b1 c1 d1 where w1: "read_msg1 S hs m cap al = (a1, b1, c1, d1)" by (metis prod_cases4)
  obtain a2 b2 c2 d2 where w2: "read_msg2 S hs m cap al = (a2, b2, c2, d2)" by (metis prod_cases4)
  note fin = hs_inv_finish [OF inv live]
  show "hs_inv (fst (snd (hs_finish (read_msg0 S hs m cap al))))"
    if "hs_msg_index hs = 0" "\<not> hs_initiator hs"
    by (rule fin) (use that w0 read_msg0_frame [OF w0] in simp_all)
  show "hs_inv (fst (snd (hs_finish (hs_drop_e (read_msg1 S hs m cap al)))))"
    if "hs_msg_index hs = 1" "hs_initiator hs"
    by (rule fin) (use that w1 read_msg1_frame [OF w1] in \<open>simp_all add: hs_drop_e_frame\<close>)
  show "hs_inv (fst (snd (hs_finish (hs_drop_e (read_msg2 S hs m cap al)))))"
    if "hs_msg_index hs = 2" "\<not> hs_initiator hs"
    by (rule fin)
       (use that inv w2 read_msg2_frame [OF w2] in \<open>simp_all add: hs_drop_e_frame hs_inv_def\<close>)
qed

lemma handshake_read_inv: "hs_inv hs \<Longrightarrow> hs_inv (fst (snd (handshake_read S hs m cap al)))"
  by (simp add: handshake_read_def read_msg_inv)

lemma symmetric_split_ok:
  "symmetric_split S ss c1 c2 al = (NOX_OK, ss', r) \<Longrightarrow>
     is_zero (ss_ck ss') \<and> is_zero (ss_h ss') \<and> is_zero (cs_k (ss_cs ss'))"
  by (auto simp: symmetric_split_def cipher_init_def Let_def split: if_splits prod.splits)

lemma handshake_split_inv: "hs_inv hs \<Longrightarrow> hs_inv (fst (snd (handshake_split S hs se al)))"
proof -
  assume inv: "hs_inv hs"
  obtain e1 s1 a1 b1 l1 where w1: "symmetric_split S (hs_ss hs) (ns_tx se) (ns_rx se) al = (e1, s1, a1, b1, l1)"
    by (metis prod_cases5)
  obtain e2 s2 a2 b2 l2 where w2: "symmetric_split S (hs_ss hs) (ns_rx se) (ns_tx se) al = (e2, s2, a2, b2, l2)"
    by (metis prod_cases5)
  have "hs_msg_index hs \<le> 3" using inv by (simp add: hs_inv_def)
  then show ?thesis
    unfolding handshake_split_def Let_def w1 w2
    using inv w1 w2 hs_inv_fail
    by (auto simp: hs_inv_def hs_wiped_def handshake_is_complete_def dest!: symmetric_split_ok
        split: prod.splits)
qed

interpretation handshake: step_invariant "hs_step S" hs_inv for S
proof unfold_locales
  fix hs e assume "hs_inv hs"
  then show "hs_inv (hs_step S hs e)"
    by (cases e) (simp_all add: handshake_write_inv handshake_read_inv handshake_split_inv)
qed

section \<open>Two honest parties\<close>

text \<open>The order of calls of two programs that talk to each other: the initiator writes the first
  message, the responder reads it, and so on; then both split. The buffers have the 256 bytes
  the event loop gives them.\<close>

definition zero_session :: noise_session where
  "zero_session = \<lparr>ns_tx = zero_cipher, ns_rx = zero_cipher, ns_remote_static = zeros NOX_KEY_LEN\<rparr>"

definition xx_run ::
    "sodium \<Rightarrow> bytes \<Rightarrow> bytes \<Rightarrow> bytes \<Rightarrow> bytes \<Rightarrow> bytes option \<Rightarrow> bytes option \<Rightarrow> bytes option \<Rightarrow>
     heap_answers \<Rightarrow>
     nox_err_t list \<times> bytes list \<times> (noise_handshake \<times> noise_session) \<times> (noise_handshake \<times> noise_session)" where
  "xx_run S si sr ei er p0 p1 p2 al =
     (let I = handshake_init S True si (sod_scalarmult_base S si);
          R = handshake_init S False sr (sod_scalarmult_base S sr);
          (w0, I, m0, al) = handshake_write S (keypair S ei) I p0 256 al;
          (r0, R, q0, al) = handshake_read S R m0 256 al;
          (w1, R, m1, al) = handshake_write S (keypair S er) R p1 256 al;
          (r1, I, q1, al) = handshake_read S I m1 256 al;
          (w2, I, m2, al) = handshake_write S (keypair S ei) I p2 256 al;
          (r2, R, q2, al) = handshake_read S R m2 256 al;
          (xi, I, sI, al) = handshake_split S I zero_session al;
          (xr, R, sR, al) = handshake_split S R zero_session al
      in ([w0, r0, w1, r1, w2, r2, xi, xr], [q0, q1, q2], (I, sI), (R, sR)))"

abbreviation opt_payload :: "bytes option \<Rightarrow> bytes" where
  "opt_payload p \<equiv> (case p of None \<Rightarrow> [] | Some b \<Rightarrow> b)"

text \<open>The parties of an honest run: keys of the right length, Diffie-Hellman results that are not
  refused, payloads that fit the buffers.\<close>

definition honest_run ::
    "sodium \<Rightarrow> bytes \<Rightarrow> bytes \<Rightarrow> bytes \<Rightarrow> bytes \<Rightarrow> bytes option \<Rightarrow> bytes option \<Rightarrow> bytes option \<Rightarrow> bool" where
  "honest_run S si sr ei er p0 p1 p2 \<longleftrightarrow> sodium_ok S \<and>
     length si = NOX_KEY_LEN \<and> length sr = NOX_KEY_LEN \<and>
     length ei = NOX_KEY_LEN \<and> length er = NOX_KEY_LEN \<and>
     dh_ok S er ei \<and> dh_ok S sr ei \<and> dh_ok S si er \<and>
     length (opt_payload p0) \<le> 224 \<and> length (opt_payload p1) \<le> 160 \<and>
     length (opt_payload p2) \<le> 192"

lemma handshake_write_live:
  "\<not> hs_split_done hs \<Longrightarrow> \<not> hs_failed hs \<Longrightarrow> length (opt_payload p) \<le> 256 \<Longrightarrow>
     handshake_write S kp hs p cap al =
       (if hs_initiator hs then
          (if hs_msg_index hs = 0 then hs_finish (write_msg0 S kp hs (opt_payload p) cap al)
           else if hs_msg_index hs = 2 then hs_finish (write_msg2 S hs (opt_payload p) cap al)
           else (NOX_ERR_STATE, hs, [], al))
        else if hs_msg_index hs = 1 then hs_finish (write_msg1 S kp hs (opt_payload p) cap al)
             else (NOX_ERR_STATE, hs, [], al))"
  by (simp add: handshake_write_def NOISE_MAX_HANDSHAKE_LEN_def)

lemma handshake_init_ss:
  assumes "sodium_ok S"
  shows "\<not> cs_has_key (ss_cs (hs_ss (handshake_init S i a b)))"
    and "length (ss_ck (hs_ss (handshake_init S i a b))) = 64"
    and "hs_ss (handshake_init S i a b) = hs_ss (handshake_init S j c d)"
  using sodium_okD(2) [OF assms, of NOISE_PROTOCOL_NAME]
  by (simp_all add: handshake_init_def symmetric_init_def cipher_init_def NOISE_HASHLEN_def Let_def)

definition keyed :: "bytes \<Rightarrow> noise_cipher_state" where
  "keyed k = \<lparr>cs_k = take NOX_KEY_LEN k, cs_n = 0, cs_has_key = True\<rparr>"

definition hs_closed :: "noise_handshake \<Rightarrow> noise_handshake" where
  "hs_closed hs = hs\<lparr>hs_ss := zero_symmetric,
     hs_e := zeros NOX_KEY_LEN, hs_e_pub := zeros NOX_KEY_LEN,
     hs_s := zeros NOX_KEY_LEN, hs_s_pub := zeros NOX_KEY_LEN,
     hs_re := zeros NOX_KEY_LEN, hs_rs := zeros NOX_KEY_LEN, hs_split_done := True\<rparr>"

lemma hs_closed_simps [simp]: "hs_wiped (hs_closed hs)" "hs_split_done (hs_closed hs)"
  by (simp_all add: hs_closed_def hs_wiped_def zero_symmetric_def zero_cipher_def)

text \<open>Splitting a completed handshake: the two keys are the HKDF outputs of the chaining key, the
  initiator sends with the first and receives with the second, the responder the other way
  round.\<close>

lemma handshake_split_keys:
  assumes S: "sodium_ok S" and al: "heap_ok al" and ck: "length (ss_ck (hs_ss hs)) = 64"
    and live: "\<not> hs_split_done hs" "\<not> hs_failed hs" "hs_msg_index hs = 3"
    and k: "hkdf_spec S (ss_ck (hs_ss hs)) [] = (k1, k2)"
  obtains al' where
    "handshake_split S hs zero_session al =
       (NOX_OK, hs_closed hs,
        (if hs_initiator hs then \<lparr>ns_tx = keyed k1, ns_rx = keyed k2, ns_remote_static = hs_rs hs\<rparr>
         else \<lparr>ns_tx = keyed k2, ns_rx = keyed k1, ns_remote_static = hs_rs hs\<rparr>), al')"
    "heap_ok al'"
proof -
  obtain al' where h: "hkdf_blake2b S (ss_ck (hs_ss hs)) [] al = (NOX_OK, k1, k2, al')" "heap_ok al'"
    using hkdf_blake2b_ok [OF S al ck, of "[]"] k by (metis fst_conv snd_conv)
  have "symmetric_split S (hs_ss hs) zero_cipher zero_cipher al =
       (NOX_OK, zero_symmetric, keyed k1, keyed k2, al')"
    using h by (simp add: symmetric_split_def keyed_def zero_symmetric_def zero_cipher_def
        cipher_init_def cipher_init_key_def)
  with live h(2) that show ?thesis
    by (cases "hs_initiator hs")
       (auto simp: handshake_split_def handshake_is_complete_def zero_session_def hs_closed_def)
qed

text \<open>The handshake objects of an honest run after the first message, and after the second.\<close>

definition init_after0 :: "sodium \<Rightarrow> bytes \<Rightarrow> bytes \<Rightarrow> noise_symmetric_state \<Rightarrow> noise_handshake" where
  "init_after0 S si ei ss = (handshake_init S True si (sod_scalarmult_base S si))
     \<lparr>hs_e_pub := sod_scalarmult_base S ei, hs_e := ei, hs_ss := ss, hs_msg_index := 1\<rparr>"

definition resp_after0 :: "sodium \<Rightarrow> bytes \<Rightarrow> bytes \<Rightarrow> noise_symmetric_state \<Rightarrow> noise_handshake" where
  "resp_after0 S sr ei ss = (handshake_init S False sr (sod_scalarmult_base S sr))
     \<lparr>hs_re := sod_scalarmult_base S ei, hs_ss := ss, hs_msg_index := 1\<rparr>"

definition init_after1 ::
    "sodium \<Rightarrow> bytes \<Rightarrow> bytes \<Rightarrow> bytes \<Rightarrow> bytes \<Rightarrow> noise_symmetric_state \<Rightarrow> noise_handshake" where
  "init_after1 S si sr ei er ss = (init_after0 S si ei ss)
     \<lparr>hs_re := sod_scalarmult_base S er, hs_rs := sod_scalarmult_base S sr,
      hs_e := zeros NOX_KEY_LEN, hs_msg_index := 2\<rparr>"

definition resp_after1 ::
    "sodium \<Rightarrow> bytes \<Rightarrow> bytes \<Rightarrow> bytes \<Rightarrow> noise_symmetric_state \<Rightarrow> noise_handshake" where
  "resp_after1 S sr ei er ss = (resp_after0 S sr ei ss)
     \<lparr>hs_e_pub := sod_scalarmult_base S er, hs_e := er, hs_s := zeros NOX_KEY_LEN, hs_msg_index := 2\<rparr>"

lemmas run_state_defs =
  init_after0_def resp_after0_def init_after1_def resp_after1_def handshake_init_def Let_def

lemma xx_message0:
  assumes S: "sodium_ok S" and e: "length ei = NOX_KEY_LEN" and p: "length (opt_payload p0) \<le> 224"
  obtains ss m where
    "handshake_write S (keypair S ei) (handshake_init S True si (sod_scalarmult_base S si)) p0 256 al =
       (NOX_OK, init_after0 S si ei ss, m, al)"
    "handshake_read S (handshake_init S False sr (sod_scalarmult_base S sr)) m 256 al2 =
       (NOX_OK, resp_after0 S sr ei ss, opt_payload p0, al2)"
    "length (ss_ck ss) = 64"
proof -
  let ?I = "handshake_init S True si (sod_scalarmult_base S si)"
  let ?R = "handshake_init S False sr (sod_scalarmult_base S sr)"
  note init = handshake_init_ss [OF S]
  have b: "NOX_KEY_LEN + length (opt_payload p0) \<le> 256" "length (opt_payload p0) \<le> 256"
    "length (opt_payload p0) \<le> NOX_MAX_MSG_LEN"
    using p by (simp_all add: nox_consts)
  obtain ss m where m:
    "write_msg0 S (keypair S ei) ?I (opt_payload p0) 256 al =
       (NOX_OK, ?I\<lparr>hs_e_pub := sod_scalarmult_base S ei, hs_e := ei, hs_ss := ss\<rparr>, m, al)"
    "read_msg0 S ?R m 256 al2 =
       (NOX_OK, ?R\<lparr>hs_re := sod_scalarmult_base S ei, hs_ss := ss\<rparr>, opt_payload p0, al2)"
    "length (ss_ck ss) = 64"
    by (rule msg0_exchange [where al = al and bl = al2, OF S e init(3) init(1) init(2) b])
  show ?thesis
  proof (rule that [of ss m, OF _ _ m(3)])
    show "handshake_write S (keypair S ei) ?I p0 256 al = (NOX_OK, init_after0 S si ei ss, m, al)"
      using m(1) b by (subst handshake_write_live) (simp_all add: hs_finish_def run_state_defs)
    show "handshake_read S ?R m 256 al2 = (NOX_OK, resp_after0 S sr ei ss, opt_payload p0, al2)"
      using m(2) by (simp add: handshake_read_def hs_finish_def run_state_defs)
  qed
qed

lemma xx_message1:
  assumes S: "sodium_ok S" and al: "heap_ok al" and ck: "length (ss_ck ss) = 64"
    and len: "length er = NOX_KEY_LEN" "length sr = NOX_KEY_LEN"
    and dh: "dh_ok S er ei" "dh_ok S sr ei" and p: "length (opt_payload p1) \<le> 160"
  obtains ss' m al' al2 where
    "handshake_write S (keypair S er) (resp_after0 S sr ei ss) p1 256 al =
       (NOX_OK, resp_after1 S sr ei er ss', m, al')"
    "handshake_read S (init_after0 S si ei ss) m 256 al' =
       (NOX_OK, init_after1 S si sr ei er ss', opt_payload p1, al2)"
    "length (ss_ck ss') = 64" "cs_has_key (ss_cs ss')" "cs_n (ss_cs ss') = 1" "heap_ok al2"
proof -
  let ?I = "init_after0 S si ei ss" and ?R = "resp_after0 S sr ei ss"
  have b: "96 + length (opt_payload p1) \<le> 256" "length (opt_payload p1) \<le> 256"
    "length (opt_payload p1) \<le> NOX_MAX_MSG_LEN"
    using p by (simp_all add: nox_consts)
  have st: "hs_ss ?I = hs_ss ?R" "length (ss_ck (hs_ss ?R)) = 64"
    "hs_re ?R = sod_scalarmult_base S ei" "hs_s ?R = sr" "hs_s_pub ?R = sod_scalarmult_base S sr"
    "hs_e ?I = ei"
    using ck by (simp_all add: run_state_defs)
  obtain ss' m al' where m:
    "write_msg1 S (keypair S er) ?R (opt_payload p1) 256 al =
       (NOX_OK, ?R\<lparr>hs_e_pub := sod_scalarmult_base S er, hs_e := er, hs_ss := ss', hs_s := zeros NOX_KEY_LEN\<rparr>, m, al')"
    "\<forall>al2. heap_ok al2 \<longrightarrow> (\<exists>al2'. heap_ok al2' \<and> read_msg1 S ?I m 256 al2 =
       (NOX_OK, ?I\<lparr>hs_re := sod_scalarmult_base S er, hs_rs := sod_scalarmult_base S sr, hs_ss := ss'\<rparr>,
        opt_payload p1, al2'))"
    "length (ss_ck ss') = 64" "cs_has_key (ss_cs ss')" "cs_n (ss_cs ss') = 1" "heap_ok al'"
    by (rule msg1_exchange [OF S al len st dh b])
  from m(2,6) obtain al2 where r: "heap_ok al2" "read_msg1 S ?I m 256 al' =
       (NOX_OK, ?I\<lparr>hs_re := sod_scalarmult_base S er, hs_rs := sod_scalarmult_base S sr, hs_ss := ss'\<rparr>,
        opt_payload p1, al2)" by blast
  show ?thesis
  proof (rule that [of ss' m al' al2, OF _ _ m(3-5) r(1)])
    show "handshake_write S (keypair S er) ?R p1 256 al = (NOX_OK, resp_after1 S sr ei er ss', m, al')"
      using m(1) b by (subst handshake_write_live) (simp_all add: hs_finish_def run_state_defs)
    show "handshake_read S ?I m 256 al' = (NOX_OK, init_after1 S si sr ei er ss', opt_payload p1, al2)"
      using r(2) by (simp add: handshake_read_def hs_finish_def hs_drop_e_def run_state_defs)
  qed
qed

lemma xx_message2:
  assumes S: "sodium_ok S" and al: "heap_ok al"
    and ss: "length (ss_ck ss) = 64" "cs_has_key (ss_cs ss)" "cs_n (ss_cs ss) = 1"
    and len: "length si = NOX_KEY_LEN" and dh: "dh_ok S si er"
    and p: "length (opt_payload p2) \<le> 192"
  obtains I R m al' al2 where
    "handshake_write S kp (init_after1 S si sr ei er ss) p2 256 al = (NOX_OK, I, m, al')"
    "handshake_read S (resp_after1 S sr ei er ss) m 256 al' = (NOX_OK, R, opt_payload p2, al2)"
    "heap_ok al2" "hs_ss R = hs_ss I" "length (ss_ck (hs_ss I)) = 64"
    "hs_initiator I" "\<not> hs_split_done I" "\<not> hs_failed I" "hs_msg_index I = 3"
    "\<not> hs_initiator R" "\<not> hs_split_done R" "\<not> hs_failed R" "hs_msg_index R = 3"
    "hs_rs I = sod_scalarmult_base S sr" "hs_rs R = sod_scalarmult_base S si"
proof -
  let ?I = "init_after1 S si sr ei er ss" and ?R = "resp_after1 S sr ei er ss"
  have b: "64 + length (opt_payload p2) \<le> 256" "length (opt_payload p2) \<le> 256"
    "length (opt_payload p2) \<le> NOX_MAX_MSG_LEN"
    using p by (simp_all add: nox_consts)
  have st: "hs_ss ?R = hs_ss ?I" "length (ss_ck (hs_ss ?I)) = 64" "cs_has_key (ss_cs (hs_ss ?I))"
    "cs_n (ss_cs (hs_ss ?I)) < UINT64_MAX"
    "hs_re ?I = sod_scalarmult_base S er" "hs_s ?I = si" "hs_s_pub ?I = sod_scalarmult_base S si"
    "hs_e ?R = er"
    using ss by (simp_all add: run_state_defs UINT64_MAX_def)
  obtain ss' m al' where m:
    "write_msg2 S ?I (opt_payload p2) 256 al =
       (NOX_OK, ?I\<lparr>hs_ss := ss', hs_s := zeros NOX_KEY_LEN\<rparr>, m, al')"
    "\<forall>al2. heap_ok al2 \<longrightarrow> (\<exists>al2'. heap_ok al2' \<and> read_msg2 S ?R m 256 al2 =
       (NOX_OK, ?R\<lparr>hs_rs := sod_scalarmult_base S si, hs_ss := ss'\<rparr>, opt_payload p2, al2'))"
    "length (ss_ck ss') = 64" "heap_ok al'"
    by (rule msg2_exchange [OF S al len st dh b])
  from m(2,4) obtain al2 where r: "heap_ok al2" "read_msg2 S ?R m 256 al' =
       (NOX_OK, ?R\<lparr>hs_rs := sod_scalarmult_base S si, hs_ss := ss'\<rparr>, opt_payload p2, al2)" by blast
  let ?I' = "?I\<lparr>hs_ss := ss', hs_s := zeros NOX_KEY_LEN, hs_msg_index := 3\<rparr>"
  let ?R' = "?R\<lparr>hs_rs := sod_scalarmult_base S si, hs_ss := ss', hs_e := zeros NOX_KEY_LEN, hs_msg_index := 3\<rparr>"
  show ?thesis
  proof (rule that [of ?I' m al' ?R' al2, OF _ _ r(1)])
    show "handshake_write S kp ?I p2 256 al = (NOX_OK, ?I', m, al')"
      using m(1) b by (subst handshake_write_live) (simp_all add: hs_finish_def run_state_defs)
    show "handshake_read S ?R m 256 al' = (NOX_OK, ?R', opt_payload p2, al2)"
      using r(2) by (simp add: handshake_read_def hs_finish_def hs_drop_e_def run_state_defs)
  qed (use m(3) in \<open>simp_all add: run_state_defs\<close>)
qed

lemma xx_run_ok:
  assumes h: "honest_run S si sr ei er p0 p1 p2" and al: "heap_ok al"
  shows "\<exists>I sI R sR. xx_run S si sr ei er p0 p1 p2 al =
      (replicate 8 NOX_OK, [opt_payload p0, opt_payload p1, opt_payload p2], (I, sI), (R, sR)) \<and>
      transport_sync S sI sR \<and> transport_sync S sR sI \<and>
      cs_n (ns_tx sI) = 0 \<and> cs_n (ns_tx sR) = 0 \<and>
      ns_remote_static sI = sod_scalarmult_base S sr \<and>
      ns_remote_static sR = sod_scalarmult_base S si \<and>
      hs_wiped I \<and> hs_split_done I \<and> hs_wiped R \<and> hs_split_done R"
proof -
  note hh = h [unfolded honest_run_def]
  have S: "sodium_ok S" using hh by simp
  obtain s0 m0 where 0:
    "handshake_write S (keypair S ei) (handshake_init S True si (sod_scalarmult_base S si)) p0 256 al =
       (NOX_OK, init_after0 S si ei s0, m0, al)"
    "handshake_read S (handshake_init S False sr (sod_scalarmult_base S sr)) m0 256 al =
       (NOX_OK, resp_after0 S sr ei s0, opt_payload p0, al)"
    "length (ss_ck s0) = 64"
    by (rule xx_message0 [of S ei p0 si al sr al]) (use hh in auto)
  obtain s1 m1 a1 a2 where 1:
    "handshake_write S (keypair S er) (resp_after0 S sr ei s0) p1 256 al =
       (NOX_OK, resp_after1 S sr ei er s1, m1, a1)"
    "handshake_read S (init_after0 S si ei s0) m1 256 a1 =
       (NOX_OK, init_after1 S si sr ei er s1, opt_payload p1, a2)"
    "length (ss_ck s1) = 64" "cs_has_key (ss_cs s1)" "cs_n (ss_cs s1) = 1" "heap_ok a2"
    by (rule xx_message1 [of S al s0 er sr ei p1 si]) (use hh al 0(3) in auto)
  obtain I R m2 a3 a4 where 2:
    "handshake_write S (keypair S ei) (init_after1 S si sr ei er s1) p2 256 a2 = (NOX_OK, I, m2, a3)"
    "handshake_read S (resp_after1 S sr ei er s1) m2 256 a3 = (NOX_OK, R, opt_payload p2, a4)"
    "heap_ok a4" "hs_ss R = hs_ss I" "length (ss_ck (hs_ss I)) = 64"
    "hs_initiator I" "\<not> hs_split_done I" "\<not> hs_failed I" "hs_msg_index I = 3"
    "\<not> hs_initiator R" "\<not> hs_split_done R" "\<not> hs_failed R" "hs_msg_index R = 3"
    "hs_rs I = sod_scalarmult_base S sr" "hs_rs R = sod_scalarmult_base S si"
    by (rule xx_message2 [of S a2 s1 si er p2 "keypair S ei" sr ei]) (use hh 1 in auto)
  obtain k1 k2 where k: "hkdf_spec S (ss_ck (hs_ss I)) [] = (k1, k2)" by (metis surj_pair)
  let ?sI = "\<lparr>ns_tx = keyed k1, ns_rx = keyed k2, ns_remote_static = sod_scalarmult_base S sr\<rparr>"
  let ?sR = "\<lparr>ns_tx = keyed k2, ns_rx = keyed k1, ns_remote_static = sod_scalarmult_base S si\<rparr>"
  obtain a5 where 3: "handshake_split S I zero_session a4 = (NOX_OK, hs_closed I, ?sI, a5)" "heap_ok a5"
    using handshake_split_keys [OF S 2(3,5,7-9) k] 2 by auto
  obtain a6 where 4: "handshake_split S R zero_session a5 = (NOX_OK, hs_closed R, ?sR, a6)"
    using handshake_split_keys [OF S 3(2) _ 2(11-13)] 2 k by auto
  have "xx_run S si sr ei er p0 p1 p2 al =
      (replicate 8 NOX_OK, [opt_payload p0, opt_payload p1, opt_payload p2],
       (hs_closed I, ?sI), (hs_closed R, ?sR))"
    unfolding xx_run_def Let_def
    using 0(1,2) 1(1,2) 2(1,2) 3(1) 4 by (simp add: numeral_eq_Suc)
  moreover have "aead_ok S" using S by (rule sodium_okD)
  ultimately show ?thesis
    by (intro exI [of _ "hs_closed I"] exI [of _ "hs_closed R"] exI [of _ ?sI] exI [of _ ?sR])
       (simp add: transport_sync_def keyed_def)
qed

end
