(* ===== verification/Nox_Noise_Props.thy ===== *)
theory Nox_Noise_Props
  imports Nox_Handshake_Run
begin

text \<open>
  Properties of the Noise layer: the run of two honest parties at a concrete input, the states a
  handshake object can reach, its terminal states, and the transport (order, nonces, replay).
\<close>

section \<open>The honest run at a concrete input\<close>

definition key_of :: "byte \<Rightarrow> bytes" where
  "key_of b = replicate 32 b"

lemma toy_base_key [simp]: "sod_scalarmult_base toy_sodium (key_of b) = key_of b"
  by (simp add: toy_sodium_def key_of_def)

lemma is_zero_key_of [simp]: "is_zero (key_of b) \<longleftrightarrow> b = 0"
  by (auto simp: is_zero_def key_of_def list_all_iff)

lemma toy_scalarmult_key: "sod_scalarmult toy_sodium (key_of a) (key_of b) = Some (key_of (a XOR b))"
  by (simp add: toy_sodium_def key_of_def zip_replicate)

lemma toy_dh_ok: "a \<noteq> 0 \<Longrightarrow> b \<noteq> 0 \<Longrightarrow> a XOR b \<noteq> 0 \<Longrightarrow> dh_ok toy_sodium (key_of a) (key_of b)"
  by (simp add: dh_ok_def noise_dh_def toy_scalarmult_key xor.commute [of b a])

lemma toy_honest: "honest_run toy_sodium (key_of 1) (key_of 2) (key_of 4) (key_of 8) None (Some [1, 2]) (Some [3])"
  unfolding honest_run_def
  by (simp add: toy_sodium_ok toy_dh_ok) (simp add: key_of_def NOX_KEY_LEN_def)

text \<open>C1. The complete run: every call succeeds, each party reads the other's payloads, the
  initiator's sending state is the responder's receiving state and the other way round (keyed,
  counters at zero), each session records the other party's static public key, and the two
  handshake objects hold no key material any more.\<close>

theorem xx_run_agreement:
  assumes h: "honest_run S si sr ei er p0 p1 p2" and al: "heap_ok al"
  shows "\<exists>I sI R sR. xx_run S si sr ei er p0 p1 p2 al =
      (replicate 8 NOX_OK, [opt_payload p0, opt_payload p1, opt_payload p2], (I, sI), (R, sR)) \<and>
      transport_sync S sI sR \<and> transport_sync S sR sI \<and>
      cs_n (ns_tx sI) = 0 \<and> cs_n (ns_tx sR) = 0 \<and>
      ns_remote_static sI = sod_scalarmult_base S sr \<and>
      ns_remote_static sR = sod_scalarmult_base S si \<and>
      hs_wiped I \<and> hs_split_done I \<and> hs_wiped R \<and> hs_split_done R"
  using assms by (rule xx_run_ok)

theorem xx_run_agreement_witness:
  "honest_run toy_sodium (key_of 1) (key_of 2) (key_of 4) (key_of 8) None (Some [1, 2]) (Some [3]) \<and>
   heap_ok [True] \<and>
   (\<exists>I sI R sR. xx_run toy_sodium (key_of 1) (key_of 2) (key_of 4) (key_of 8)
        None (Some [1, 2]) (Some [3]) [True] =
      (replicate 8 NOX_OK, [[], [1, 2], [3]], (I, sI), (R, sR)) \<and>
      transport_sync toy_sodium sI sR \<and> ns_remote_static sI = key_of 2 \<and> hs_wiped I)"
  using xx_run_agreement [OF toy_honest, of "[True]"] toy_honest
  by (auto simp: heap_ok_def)

section \<open>Reachable handshake objects\<close>

text \<open>C17. Whatever sequence of writes, reads and splits is applied to a fresh handshake object, with
  whatever messages, buffers and allocator answers: at most three messages are processed, a
  failed object and a split object hold no key material (a failed one is never split), and the
  static and ephemeral private keys are gone as soon as their owner has no further use for
  them.\<close>

theorem handshake_reachable_inv:
  "hs_inv (foldl (hs_step S) (handshake_init S initiator s_priv s_pub) es)"
  by (rule handshake.inv_run [OF hs_inv_init])

text \<open>A failed or already split handshake object is dead: every further call returns
  \<open>NOX_ERR_STATE\<close>, produces nothing and changes nothing, so no message can be processed after an
  authentication failure and a second split never happens.\<close>

theorem handshake_dead:
  assumes "hs_failed hs \<or> hs_split_done hs"
  shows "handshake_write S kp hs p cap al = (NOX_ERR_STATE, hs, [], al) \<and>
    handshake_read S hs m cap al = (NOX_ERR_STATE, hs, [], al) \<and>
    handshake_split S hs se al = (NOX_ERR_STATE, hs, se, al)"
  using assms by (auto simp: handshake_write_def handshake_read_def handshake_split_def Let_def)

theorem handshake_dead_witness:
  "hs_failed (hs_fail (handshake_init toy_sodium True (key_of 1) (key_of 1))) \<and>
   handshake_split toy_sodium (hs_fail (handshake_init toy_sodium True (key_of 1) (key_of 1))) zero_session [] =
     (NOX_ERR_STATE, hs_fail (handshake_init toy_sodium True (key_of 1) (key_of 1)), zero_session, [])"
  using handshake_dead [of "hs_fail (handshake_init toy_sodium True (key_of 1) (key_of 1))"] by simp

text \<open>The index at which a role writes and reads.\<close>

definition write_turn :: "noise_handshake \<Rightarrow> bool" where
  "write_turn hs \<longleftrightarrow> (if hs_initiator hs then hs_msg_index hs \<in> {0, 2} else hs_msg_index hs = 1)"

definition read_turn :: "noise_handshake \<Rightarrow> bool" where
  "read_turn hs \<longleftrightarrow> (if hs_initiator hs then hs_msg_index hs = 1 else hs_msg_index hs \<in> {0, 2})"

lemma hs_finish_index:
  "same_role hs (fst (snd r)) \<Longrightarrow> fst (hs_finish r) = NOX_OK \<Longrightarrow>
     hs_msg_index (fst (snd (hs_finish r))) = hs_msg_index hs + 1"
  by (auto simp: hs_finish_def same_role_def split: prod.splits if_splits)

lemma msg_same_role:
  "same_role hs (fst (snd (write_msg0 S kp hs p cap al)))"
  "same_role hs (fst (snd (write_msg1 S kp hs p cap al)))"
  "same_role hs (fst (snd (write_msg2 S hs p cap al)))"
  "same_role hs (fst (snd (read_msg0 S hs m cap al)))"
  "same_role hs (fst (snd (read_msg1 S hs m cap al)))"
  "same_role hs (fst (snd (read_msg2 S hs m cap al)))"
  using write_msg0_frame write_msg1_frame write_msg2_frame read_msg0_frame read_msg1_frame
    read_msg2_frame
  by (metis prod_cases4 fst_conv snd_conv)+

text \<open>The XX pattern is enforced: a call that succeeds was the caller's turn and advances the
  message index by exactly one; a call out of turn on a live object is refused with
  \<open>NOX_ERR_STATE\<close> and leaves the object alone (for a write, unless its payload is oversized, which
  is refused before the turn is looked at).\<close>

theorem handshake_order:
  "(fst (handshake_write S kp hs p cap al) = NOX_OK \<longrightarrow> write_turn hs \<and>
      hs_msg_index (fst (snd (handshake_write S kp hs p cap al))) = hs_msg_index hs + 1) \<and>
   (fst (handshake_read S hs m cap al) = NOX_OK \<longrightarrow> read_turn hs \<and>
      hs_msg_index (fst (snd (handshake_read S hs m cap al))) = hs_msg_index hs + 1) \<and>
   (\<not> write_turn hs \<longrightarrow> length (opt_payload p) \<le> 256 \<longrightarrow>
      handshake_write S kp hs p cap al = (NOX_ERR_STATE, hs, [], al)) \<and>
   (\<not> read_turn hs \<longrightarrow> handshake_read S hs m cap al = (NOX_ERR_STATE, hs, [], al))"
  using hs_finish_index [OF msg_same_role(1)] hs_finish_index [OF msg_same_role(2)]
    hs_finish_index [OF msg_same_role(3)] hs_finish_index [OF msg_same_role(4)]
    hs_finish_index [OF hs_drop_e_frame(1) [OF msg_same_role(5)]]
    hs_finish_index [OF hs_drop_e_frame(1) [OF msg_same_role(6)]]
  by (auto simp: handshake_write_def handshake_read_def write_turn_def read_turn_def Let_def
      NOISE_MAX_HANDSHAKE_LEN_def)

theorem handshake_order_witness:
  "\<not> read_turn (handshake_init toy_sodium True (key_of 1) (key_of 1)) \<and>
   handshake_read toy_sodium (handshake_init toy_sodium True (key_of 1) (key_of 1)) [1] 256 [] =
     (NOX_ERR_STATE, handshake_init toy_sodium True (key_of 1) (key_of 1), [], [])"
proof -
  let ?hs = "handshake_init toy_sodium True (key_of 1) (key_of 1)"
  have r: "\<not> read_turn ?hs"
    by (simp add: read_turn_def handshake_init_def Let_def)
  from handshake_order [of toy_sodium "([], [])" ?hs None 256 "[]" "[1]"] r show ?thesis by blast
qed

section \<open>The transport\<close>

text \<open>After an honest run, everything the initiator encrypts with its session the responder
  decrypts with its own, message by message and in order, whatever the number of messages.\<close>

theorem transport_in_order:
  assumes h: "honest_run S si sr ei er p0 p1 p2" and al: "heap_ok al"
    and run: "xx_run S si sr ei er p0 p1 p2 al = (errs, pls, (I, sI), (R, sR))"
    and sent: "transport.send_all S sI ms = Some (cs, sI')"
  shows "\<exists>sR'. transport.recv_all S sR cs = Some (ms, sR') \<and> transport_sync S sI' sR'"
proof -
  have "transport_sync S sI sR"
    using xx_run_ok [OF h al] run by auto
  then show ?thesis using sent by (rule transport.recv_all_send_all)
qed

theorem transport_in_order_witness:
  "\<exists>I sI R sR cs sI' sR'.
     xx_run toy_sodium (key_of 1) (key_of 2) (key_of 4) (key_of 8) None (Some [1, 2]) (Some [3]) [] =
       (replicate 8 NOX_OK, [[], [1, 2], [3]], (I, sI), (R, sR)) \<and>
     transport.send_all toy_sodium sI [[7], [8, 9]] = Some (cs, sI') \<and>
     transport.recv_all toy_sodium sR cs = Some ([[7], [8, 9]], sR')"
proof -
  obtain I sI R sR where run: "xx_run toy_sodium (key_of 1) (key_of 2) (key_of 4) (key_of 8)
      None (Some [1, 2]) (Some [3]) [] = (replicate 8 NOX_OK, [[], [1, 2], [3]], (I, sI), (R, sR))"
    and sy: "transport_sync toy_sodium sI sR" and n: "cs_n (ns_tx sI) = 0"
    using xx_run_ok [OF toy_honest heap_ok_Nil] by auto
  have k: "cs_has_key (ns_tx sI)" using sy by (simp add: transport_sync_def)
  obtain cs sI' where s: "transport.send_all toy_sodium sI [[7], [8, 9]] = Some (cs, sI')"
    using k n
    by (auto simp: transport_send_def noise_encrypt_def cipher_encrypt_def Let_def
        NOX_MAX_MSG_LEN_def)
  with transport_in_order [OF toy_honest heap_ok_Nil run s] run show ?thesis by blast
qed

text \<open>A sequence of encryptions of one cipher state, with the results.\<close>

fun encrypt_all ::
    "sodium \<Rightarrow> noise_cipher_state \<Rightarrow> (bytes \<times> bytes) list \<Rightarrow> bytes option list \<times> noise_cipher_state" where
  "encrypt_all S cs [] = ([], cs)"
| "encrypt_all S cs ((ad, pt) # xs) =
     (let (r, cs) = cipher_encrypt S cs ad pt; (rs, cs) = encrypt_all S cs xs in (r # rs, cs))"

lemma encrypt_all_nonces:
  assumes "cs_has_key cs" and "encrypt_all S cs xs = (rs, cs')"
  shows "\<exists>f. \<forall>i < length xs. rs ! i \<noteq> None \<longrightarrow>
      cs_n cs \<le> f i \<and> f i < UINT64_MAX \<and>
      rs ! i = sod_aead_encrypt S (cs_k cs) (encode_nonce (f i)) (fst (xs ! i)) (snd (xs ! i)) \<and>
      (\<forall>j < i. rs ! j \<noteq> None \<longrightarrow> f j < f i)"
  using assms
proof (induction S cs xs arbitrary: rs rule: encrypt_all.induct)
  case (1 S cs)
  then show ?case by simp
next
  case (2 S cs ad pt xs)
  obtain r c1 where e: "cipher_encrypt S cs ad pt = (r, c1)" by fastforce
  obtain rs1 where rs: "encrypt_all S c1 xs = (rs1, cs')" "rs = r # rs1"
    using "2.prems"(2) e by (auto split: prod.splits)
  note step = cipher_encrypt_step [OF "2.prems"(1) e]
  from "2.IH" [OF e [symmetric] refl] step rs obtain f where
    f: "\<forall>i < length xs. rs1 ! i \<noteq> None \<longrightarrow> cs_n c1 \<le> f i \<and> f i < UINT64_MAX \<and>
      rs1 ! i = sod_aead_encrypt S (cs_k cs) (encode_nonce (f i)) (fst (xs ! i)) (snd (xs ! i)) \<and>
      (\<forall>j < i. rs1 ! j \<noteq> None \<longrightarrow> f j < f i)" by auto
  define g where "g = (\<lambda>i. if i = 0 then cs_n cs else f (i - 1))"
  have "\<forall>i < length ((ad, pt) # xs). rs ! i \<noteq> None \<longrightarrow> cs_n cs \<le> g i \<and> g i < UINT64_MAX \<and>
      rs ! i = sod_aead_encrypt S (cs_k cs) (encode_nonce (g i))
        (fst (((ad, pt) # xs) ! i)) (snd (((ad, pt) # xs) ! i)) \<and>
      (\<forall>j < i. rs ! j \<noteq> None \<longrightarrow> g j < g i)"
  proof (intro allI impI)
    fix i assume i: "i < length ((ad, pt) # xs)" "rs ! i \<noteq> None"
    show "cs_n cs \<le> g i \<and> g i < UINT64_MAX \<and>
      rs ! i = sod_aead_encrypt S (cs_k cs) (encode_nonce (g i))
        (fst (((ad, pt) # xs) ! i)) (snd (((ad, pt) # xs) ! i)) \<and>
      (\<forall>j < i. rs ! j \<noteq> None \<longrightarrow> g j < g i)"
    proof (cases i)
      case 0
      with i step rs show ?thesis by (simp add: g_def)
    next
      case (Suc k)
      with i rs f have k: "cs_n c1 \<le> f k" "f k < UINT64_MAX"
        "rs1 ! k = sod_aead_encrypt S (cs_k cs) (encode_nonce (f k)) (fst (xs ! k)) (snd (xs ! k))"
        "\<forall>j < k. rs1 ! j \<noteq> None \<longrightarrow> f j < f k" by auto
      have "g j < g i" if "j < i" "rs ! j \<noteq> None" for j
        using that Suc k(1,4) step rs by (cases j) (auto simp: g_def)
      with k step Suc rs show ?thesis by (auto simp: g_def)
    qed
  qed
  then show ?case by blast
qed

text \<open>C14. The nonces of one key: over any sequence of encryptions with a keyed cipher state, each
  ciphertext that is produced is the AEAD encryption under a counter that is larger than the
  counters of all ciphertexts before it and is never \<open>UINT64_MAX\<close>; no nonce is used twice.\<close>

theorem nonce_never_reused:
  assumes "cs_has_key cs" and "encrypt_all S cs xs = (rs, cs')"
  shows "\<exists>f. \<forall>i < length xs. rs ! i \<noteq> None \<longrightarrow> f i < UINT64_MAX \<and>
      rs ! i = sod_aead_encrypt S (cs_k cs) (encode_nonce (f i)) (fst (xs ! i)) (snd (xs ! i)) \<and>
      (\<forall>j < i. rs ! j \<noteq> None \<longrightarrow> f j < f i \<and> encode_nonce (f j) \<noteq> encode_nonce (f i))"
  using encrypt_all_nonces [OF assms] by fastforce

theorem nonce_never_reused_witness:
  "\<exists>f. fst (encrypt_all toy_sodium (keyed (key_of 5)) [([], [1]), ([], [1])]) ! 1 \<noteq> None \<and>
     f (1 :: nat) < UINT64_MAX \<and> f 0 < f 1 \<and> encode_nonce (f 0) \<noteq> encode_nonce (f 1)"
proof -
  let ?xs = "[([], [1]), ([], [1])] :: (bytes \<times> bytes) list"
  obtain rs cs' where e: "encrypt_all toy_sodium (keyed (key_of 5)) ?xs = (rs, cs')" by fastforce
  have k: "cs_has_key (keyed (key_of 5))" by (simp add: keyed_def)
  have "fst (encrypt_all toy_sodium (keyed (key_of 5)) ?xs) ! 0 \<noteq> None" by code_simp
  then have some: "rs ! 0 \<noteq> None" unfolding e fst_conv .
  have "fst (encrypt_all toy_sodium (keyed (key_of 5)) ?xs) ! 1 \<noteq> None" by code_simp
  then have some1: "rs ! 1 \<noteq> None" unfolding e fst_conv .
  from nonce_never_reused [OF k e] obtain f where
    f: "\<forall>i < length ?xs. rs ! i \<noteq> None \<longrightarrow> f i < UINT64_MAX \<and>
      rs ! i = sod_aead_encrypt toy_sodium (cs_k (keyed (key_of 5))) (encode_nonce (f i))
        (fst (?xs ! i)) (snd (?xs ! i)) \<and>
      (\<forall>j < i. rs ! j \<noteq> None \<longrightarrow> f j < f i \<and> encode_nonce (f j) \<noteq> encode_nonce (f i))" by blast
  have "1 < length ?xs" by simp
  with f some1 have "f 1 < UINT64_MAX" "\<forall>j < 1. rs ! j \<noteq> None \<longrightarrow> f j < f 1 \<and> encode_nonce (f j) \<noteq> encode_nonce (f 1)"
    by blast+
  then show ?thesis unfolding e fst_conv using some some1 by (intro exI [of _ f]) auto
qed

text \<open>A receiving cipher state is moved only by authentic messages: a decryption that fails leaves
  the whole state as it was, so forged or damaged ciphertexts cannot desynchronise it; one that
  succeeds with a key consumes exactly one counter value, below \<open>UINT64_MAX\<close>, and keeps the key.\<close>

theorem decrypt_consumes_one_nonce:
  assumes "cipher_decrypt S cs ad ct = (r, cs')"
  shows "(r = None \<longrightarrow> cs' = cs) \<and>
    (r \<noteq> None \<and> cs_has_key cs \<longrightarrow> cs' = cs\<lparr>cs_n := cs_n cs + 1\<rparr> \<and> unat (cs_n cs') = unat (cs_n cs) + 1 \<and>
       r = sod_aead_decrypt S (cs_k cs) (encode_nonce (cs_n cs)) ad ct)"
  using assms
  by (auto simp: cipher_decrypt_def Let_def not_le unat_Suc_UINT64_MAX split: if_splits option.splits)

theorem decrypt_consumes_one_nonce_witness:
  "\<exists>cs'. cipher_decrypt toy_sodium (keyed (key_of 5)) [] ([1] @ toy_tag (encode_nonce 0)) = (Some [1], cs') \<and>
     unat (cs_n cs') = 1"
proof -
  let ?ct = "[1] @ toy_tag (encode_nonce 0) :: bytes"
  have d: "fst (cipher_decrypt toy_sodium (keyed (key_of 5)) [] ?ct) = Some [1]"
    by (simp add: cipher_decrypt_def keyed_def toy_sodium_def Let_def NOISE_MAX_PAYLOAD_LEN_def nox_consts)
  obtain r cs' where e: "cipher_decrypt toy_sodium (keyed (key_of 5)) [] ?ct = (r, cs')" by fastforce
  from decrypt_consumes_one_nonce [OF e] d e show ?thesis by (auto simp: keyed_def)
qed

text \<open>A ciphertext made under one nonce is not accepted under another: what an AEAD is expected to
  guarantee, as a hypothesis on the parameter.\<close>

definition aead_binds_nonce :: "sodium \<Rightarrow> bool" where
  "aead_binds_nonce S \<longleftrightarrow>
     (\<forall>k n n' ad ad' p c. length n = 12 \<and> length n' = 12 \<and> n \<noteq> n' \<and>
        sod_aead_encrypt S k n ad p = Some c \<longrightarrow> sod_aead_decrypt S k n' ad' c = None)"

fun decrypt_all :: "sodium \<Rightarrow> noise_session \<Rightarrow> bytes list \<Rightarrow> noise_session" where
  "decrypt_all S s [] = s"
| "decrypt_all S s (c # cs) = decrypt_all S (snd (noise_decrypt S s c)) cs"

lemma noise_decrypt_rx:
  assumes "cs_has_key (ns_rx s)"
  shows "cs_has_key (ns_rx (snd (noise_decrypt S s c))) \<and>
    cs_k (ns_rx (snd (noise_decrypt S s c))) = cs_k (ns_rx s) \<and>
    cs_n (ns_rx s) \<le> cs_n (ns_rx (snd (noise_decrypt S s c)))"
proof -
  obtain r rx where d: "cipher_decrypt S (ns_rx s) [] c = (r, rx)" by fastforce
  have "snd (noise_decrypt S s c) \<in> {s, s\<lparr>ns_rx := rx\<rparr>}"
    using d by (simp add: noise_decrypt_def)
  with cipher_decrypt_step [OF assms d] assms show ?thesis by auto
qed

lemma decrypt_all_rx:
  "cs_has_key (ns_rx s) \<Longrightarrow> cs_has_key (ns_rx (decrypt_all S s cs)) \<and>
     cs_k (ns_rx (decrypt_all S s cs)) = cs_k (ns_rx s) \<and> cs_n (ns_rx s) \<le> cs_n (ns_rx (decrypt_all S s cs))"
proof (induction cs arbitrary: s)
  case Nil
  then show ?case by simp
next
  case (Cons c cs)
  from noise_decrypt_rx [OF Cons.prems, of S c] Cons.IH [of "snd (noise_decrypt S s c)"]
  show ?case by (auto intro: order_trans)
qed

lemma noise_decrypt_old_nonce:
  assumes b: "aead_binds_nonce S" and k: "cs_has_key (ns_rx s)"
    and c: "sod_aead_encrypt S (cs_k (ns_rx s)) (encode_nonce n) ad m = Some c"
    and n: "n < cs_n (ns_rx s)"
  shows "fst (noise_decrypt S s c) = None"
proof -
  have "sod_aead_decrypt S (cs_k (ns_rx s)) (encode_nonce (cs_n (ns_rx s))) [] c = None"
    using b c n unfolding aead_binds_nonce_def
    by (metis encode_nonce_eq length_encode_nonce less_irrefl)
  with k show ?thesis
    by (auto simp: noise_decrypt_def cipher_decrypt_def Let_def split: prod.splits)
qed

text \<open>Replay: a transport message that the receiver has accepted is refused when it arrives
  again, whatever frames (authentic or not) the receiver was given in between.\<close>

theorem transport_replay_refused:
  assumes b: "aead_binds_nonce S" and sy: "transport_sync S s r"
    and snt: "transport_send S s m = Some (c, s')" and rcv: "transport_recv S r c = Some (m', r')"
  shows "fst (noise_decrypt S (decrypt_all S r' cs) c) = None"
proof -
  have k: "cs_has_key (ns_rx r)" and tx: "ns_tx s = ns_rx r"
    using sy by (auto simp: transport_sync_def)
  from snt obtain tx where enc: "cipher_encrypt S (ns_tx s) [] m = (Some c, tx)"
    by (auto simp: transport_send_def noise_encrypt_def split: if_splits prod.splits option.splits)
  have c: "sod_aead_encrypt S (cs_k (ns_rx r)) (encode_nonce (cs_n (ns_rx r))) [] m = Some c"
    using cipher_encrypt_step [OF _ enc] k tx by auto
  from rcv obtain rx where d: "cipher_decrypt S (ns_rx r) [] c = (Some m', rx)" and r': "ns_rx r' = rx"
    by (auto simp: transport_recv_def noise_decrypt_def split: if_splits prod.splits option.splits)
  have r1: "cs_has_key (ns_rx r')" "cs_k (ns_rx r') = cs_k (ns_rx r)" "cs_n (ns_rx r) < cs_n (ns_rx r')"
    using cipher_decrypt_step [OF k d] r' by auto
  note all = decrypt_all_rx [OF r1(1), of S cs]
  show ?thesis
    by (rule noise_decrypt_old_nonce [OF b, of _ "cs_n (ns_rx r)"]) (use all r1 c in auto)
qed

lemma toy_tag_inj: "length n = 12 \<Longrightarrow> length n' = 12 \<Longrightarrow> toy_tag n = toy_tag n' \<Longrightarrow> n = n'"
  by (simp add: toy_tag_def toy_pad_def)

lemma toy_binds_nonce: "aead_binds_nonce toy_sodium"
  unfolding aead_binds_nonce_def by (auto simp: toy_sodium_def dest: toy_tag_inj)

theorem transport_replay_refused_witness:
  "\<exists>c s' r'.
     let s = zero_session\<lparr>ns_tx := keyed (key_of 5)\<rparr>; r = zero_session\<lparr>ns_rx := keyed (key_of 5)\<rparr> in
     transport_send toy_sodium s [1] = Some (c, s') \<and> transport_recv toy_sodium r c = Some ([1], r') \<and>
     fst (noise_decrypt toy_sodium (decrypt_all toy_sodium r' [[0], c]) c) = None"
proof -
  let ?s = "zero_session\<lparr>ns_tx := keyed (key_of 5)\<rparr>" and ?r = "zero_session\<lparr>ns_rx := keyed (key_of 5)\<rparr>"
  have sy: "transport_sync toy_sodium ?s ?r"
    by (simp add: transport_sync_def toy_aead_ok keyed_def)
  obtain c s' where snt: "transport_send toy_sodium ?s [1] = Some (c, s')"
    by (auto simp: transport_send_def noise_encrypt_def cipher_encrypt_def keyed_def nox_consts Let_def)
  obtain r' where rcv: "transport_recv toy_sodium ?r c = Some ([1], r')"
    using transport_recv_send [OF sy snt] by blast
  from transport_replay_refused [OF toy_binds_nonce sy snt rcv, of "[[0], c]"] snt rcv
  show ?thesis unfolding Let_def by blast
qed

end
