(* ===== verification/Nox_Arena.thy ===== *)
theory Nox_Arena
  imports Nox_Common
begin

text \<open>
  \<^verbatim>\<open>src/arena.c\<close>: the locked, guarded bump allocator for key material. Sizes and addresses are
  64-bit words, so that the overflow checks of the code are the checks of the model. The process
  image is a store of bytes with the list of its mappings and of the ranges made inaccessible;
  the answers of the kernel and of libsodium are a record of the environment. An operation that
  ends the process gives \<open>Abort\<close> with the image it leaves behind. The build modelled is the release build, where \<open>assert\<close> is
  empty and \<open>NOX_ARENA_STRICT_LOCK\<close> is defined, as the source does.
\<close>

section \<open>Data\<close>

record secure_arena =
  ar_base :: size_t
  ar_total_size :: size_t
  ar_usable_size :: size_t
  ar_offset :: size_t
  ar_page_size :: size_t
  ar_fork_safe :: bool
  ar_dump_safe :: bool
  ar_locked :: bool
  ar_canary :: bytes

definition zero_arena :: secure_arena where
  "zero_arena = \<lparr>ar_base = 0, ar_total_size = 0, ar_usable_size = 0, ar_offset = 0,
     ar_page_size = 0, ar_fork_safe = False, ar_dump_safe = False, ar_locked = False,
     ar_canary = zeros NOX_CANARY_LEN\<rparr>"

type_synonym region = "size_t \<times> size_t"

record process_image =
  pi_mem :: "size_t \<Rightarrow> byte"
  pi_maps :: "region list"
  pi_guards :: "region list"

datatype 'a outcome = Abort process_image | Ret 'a

record arena_env =
  ae_sodium_init :: bool
  ae_pagesize :: "64 word"
  ae_mmap :: "size_t option"
  ae_mlock :: bool
  ae_dontfork :: bool
  ae_dontdump :: bool
  ae_guard_lower :: bool
  ae_guard_upper :: bool
  ae_munmap :: bool
  ae_canary :: bytes

definition SIZE_MAX :: size_t where "SIZE_MAX = 0xFFFFFFFFFFFFFFFF"
definition CANARY :: size_t where "CANARY = 16"
definition MAX_WIPE :: size_t where "MAX_WIPE = 256 * 1024 * 1024"

section \<open>Memory\<close>

text \<open>\<open>sodium_memzero\<close>, \<open>memcpy\<close> into the store, and reading a buffer. An address is in
  \<open>[p, p + len)\<close> when its distance from \<open>p\<close> is less than \<open>len\<close>.\<close>

definition mem_zero :: "size_t \<Rightarrow> size_t \<Rightarrow> process_image \<Rightarrow> process_image" where
  "mem_zero p len m = m\<lparr>pi_mem := (\<lambda>x. if x - p < len then 0 else pi_mem m x)\<rparr>"

definition mem_write :: "size_t \<Rightarrow> bytes \<Rightarrow> process_image \<Rightarrow> process_image" where
  "mem_write p b m = m\<lparr>pi_mem :=
     (\<lambda>x. if unat (x - p) < length b then b ! unat (x - p) else pi_mem m x)\<rparr>"

definition mem_read :: "size_t \<Rightarrow> nat \<Rightarrow> process_image \<Rightarrow> bytes" where
  "mem_read p n m = map (\<lambda>i. pi_mem m (p + of_nat i)) [0..<n]"

definition munmap :: "bool \<Rightarrow> size_t \<Rightarrow> size_t \<Rightarrow> process_image \<Rightarrow> process_image" where
  "munmap ok base tot m = (if \<not> ok then m else m\<lparr>pi_maps := removeAll (base, tot) (pi_maps m),
     pi_guards := filter (\<lambda>(g, _). \<not> g - base < tot) (pi_guards m)\<rparr>)"

section \<open>Operations\<close>

definition get_page_size :: "64 word \<Rightarrow> size_t" where
  "get_page_size ps = (if sint ps \<le> 0 then 0 else ps)"

definition page_align :: "size_t \<Rightarrow> size_t \<Rightarrow> size_t" where
  "page_align sz page_size =
     (if page_size = 0 \<or> page_size AND (page_size - 1) \<noteq> 0 then 0
      else if sz > SIZE_MAX - (page_size - 1) then 0
      else (sz + page_size - 1) AND NOT (page_size - 1))"

definition arena_is_valid :: "secure_arena \<Rightarrow> bool" where
  "arena_is_valid a =
     (if ar_base a = 0 \<or> ar_page_size a = 0 then False
      else if ar_page_size a AND (ar_page_size a - 1) \<noteq> 0 then False
      else if ar_base a mod ar_page_size a \<noteq> 0 then False
      else if ar_usable_size a = 0 \<or> ar_usable_size a \<ge> ar_total_size a then False
      else if ar_page_size a > SIZE_MAX div 2 then False
      else let guard_total = 2 * ar_page_size a in
           if ar_total_size a < guard_total then False
      else if ar_usable_size a > SIZE_MAX - CANARY then False
      else let usable = ar_usable_size a + CANARY in
           if usable mod ar_page_size a \<noteq> 0 then False
      else if usable > SIZE_MAX - guard_total then False
      else if ar_total_size a \<noteq> usable + guard_total then False
      else if ar_offset a > ar_usable_size a then False
      else if ar_offset a AND 15 \<noteq> 0 then False
      else True)"

definition arena_init ::
    "arena_env \<Rightarrow> secure_arena \<Rightarrow> size_t \<Rightarrow> process_image \<Rightarrow> nox_err_t \<times> secure_arena \<times> process_image" where
  "arena_init env a sz m =
     (if sz = 0 then (NOX_ERR_ALLOC, a, m)
      else if \<not> ae_sodium_init env then (NOX_ERR_ALLOC, a, m)
      else let page_size = get_page_size (ae_pagesize env) in
      if page_size = 0 then (NOX_ERR_ALLOC, a, m)
      else if sz > SIZE_MAX - CANARY then (NOX_ERR_ALLOC, a, m)
      else let raw = sz + CANARY; usable = page_align raw page_size in
      if usable = 0 then (NOX_ERR_ALLOC, a, m)
      else if usable > SIZE_MAX - 2 * page_size then (NOX_ERR_ALLOC, a, m)
      else let tot = page_size + usable + page_size in
      case ae_mmap env of None \<Rightarrow> (NOX_ERR_ALLOC, a, m)
      | Some base \<Rightarrow>
      let m = m\<lparr>pi_maps := (base, tot) # pi_maps m\<rparr> in
      if \<not> ae_mlock env then (NOX_ERR_ALLOC, zero_arena, munmap (ae_munmap env) base tot m)
      else let a = a\<lparr>ar_fork_safe := ae_dontfork env, ar_dump_safe := ae_dontdump env\<rparr> in
      if \<not> ae_guard_lower env then (NOX_ERR_ALLOC, zero_arena, munmap (ae_munmap env) base tot m)
      else let m = m\<lparr>pi_guards := (base, page_size) # pi_guards m\<rparr> in
      if \<not> ae_guard_upper env then (NOX_ERR_ALLOC, zero_arena, munmap (ae_munmap env) base tot m)
      else let m = m\<lparr>pi_guards := (base + page_size + usable, page_size) # pi_guards m\<rparr>;
               a = a\<lparr>ar_base := base, ar_total_size := tot, ar_usable_size := usable - CANARY,
                     ar_offset := 0, ar_page_size := page_size, ar_locked := True,
                     ar_canary := ae_canary env\<rparr>
           in (NOX_OK, a, mem_write (base + page_size + ar_usable_size a) (ar_canary a) m))"

definition secure_abort :: "secure_arena \<Rightarrow> process_image \<Rightarrow> process_image" where
  "secure_abort a m =
     (if arena_is_valid a then
        let wipe = ar_usable_size a + CANARY;
            wipe = (if wipe > MAX_WIPE then MAX_WIPE else wipe);
            usable_start = ar_base a + ar_page_size a
        in if usable_start + wipe \<le> ar_base a + ar_total_size a then mem_zero usable_start wipe m else m
      else m)"

definition canary_pos :: "secure_arena \<Rightarrow> size_t" where
  "canary_pos a = ar_base a + ar_page_size a + ar_usable_size a"

definition arena_check_canary :: "secure_arena \<Rightarrow> process_image \<Rightarrow> unit outcome" where
  "arena_check_canary a m =
     (if ar_base a = 0 then Ret ()
      else if \<not> arena_is_valid a then Abort (secure_abort a m)
      else if canary_pos a < ar_base a + ar_page_size a \<or>
              canary_pos a + CANARY > ar_base a + ar_total_size a - ar_page_size a
           then Abort (secure_abort a m)
      else if mem_read (canary_pos a) NOX_CANARY_LEN m \<noteq> ar_canary a then Abort (secure_abort a m)
      else Ret ())"

definition arena_alloc ::
    "secure_arena \<Rightarrow> size_t \<Rightarrow> process_image \<Rightarrow> (size_t option \<times> secure_arena) outcome" where
  "arena_alloc a sz m =
     (if ar_base a = 0 \<or> sz = 0 then Ret (None, a)
      else case arena_check_canary a m of Abort m' \<Rightarrow> Abort m' | Ret _ \<Rightarrow>
      if sz > SIZE_MAX - 15 then Ret (None, a)
      else let aligned_size = (sz + 15) AND NOT 15 in
      if aligned_size > SIZE_MAX - ar_offset a then Ret (None, a)
      else if ar_offset a + aligned_size > ar_usable_size a then Ret (None, a)
      else Ret (Some (ar_base a + ar_page_size a + ar_offset a),
                a\<lparr>ar_offset := ar_offset a + aligned_size\<rparr>))"

text \<open>\<open>rnd\<close> is what \<open>randombytes_buf\<close> writes.\<close>

definition arena_alloc_canary ::
    "secure_arena \<Rightarrow> size_t \<Rightarrow> bytes \<Rightarrow> process_image \<Rightarrow>
       (size_t option \<times> secure_arena \<times> process_image) outcome" where
  "arena_alloc_canary a sz rnd m =
     (case arena_alloc a sz m of
        Abort m' \<Rightarrow> Abort m'
      | Ret (None, a') \<Rightarrow> Ret (None, a', m)
      | Ret (Some p, a') \<Rightarrow> Ret (Some p, a', mem_write p (take (unat sz) rnd) m))"

text \<open>\<open>munmap_ok\<close> is the answer of the kernel to \<open>munmap\<close>; the code only logs a failure.\<close>

definition arena_destroy ::
    "bool \<Rightarrow> secure_arena \<Rightarrow> process_image \<Rightarrow> (secure_arena \<times> process_image) outcome" where
  "arena_destroy munmap_ok a m =
     (if ar_base a = 0 then Ret (a, m)
      else if \<not> arena_is_valid a then Abort m
      else let canary_ok =
             (if canary_pos a < ar_base a + ar_page_size a \<or>
                 canary_pos a + CANARY > ar_base a + ar_total_size a - ar_page_size a then False
              else mem_read (canary_pos a) NOX_CANARY_LEN m = ar_canary a);
               usable_start = ar_base a + ar_page_size a;
               wipe_size = ar_usable_size a + CANARY;
               wipe_size = (if wipe_size > MAX_WIPE then MAX_WIPE else wipe_size);
               m = (if usable_start + wipe_size \<le> ar_base a + ar_total_size a
                    then mem_zero usable_start wipe_size m else m);
               m = munmap munmap_ok (ar_base a) (ar_total_size a) m
           in if canary_ok then Ret (zero_arena, m) else Abort m)"

definition arena_bytes_used :: "secure_arena \<Rightarrow> size_t" where
  "arena_bytes_used a = ar_offset a"

definition arena_bytes_free :: "secure_arena \<Rightarrow> size_t" where
  "arena_bytes_free a = (if ar_offset a > ar_usable_size a then 0 else ar_usable_size a - ar_offset a)"

definition arena_save :: "secure_arena \<Rightarrow> size_t" where
  "arena_save a = ar_offset a"

definition arena_restore ::
    "secure_arena \<Rightarrow> size_t \<Rightarrow> process_image \<Rightarrow> (secure_arena \<times> process_image) outcome" where
  "arena_restore a saved_offset m =
     (if ar_base a = 0 then Ret (a, m)
      else case arena_check_canary a m of Abort m' \<Rightarrow> Abort m' | Ret _ \<Rightarrow>
      if ar_offset a > ar_usable_size a then Abort (secure_abort a m)
      else if saved_offset > ar_usable_size a then Ret (a, m)
      else if saved_offset mod 16 \<noteq> 0 then Ret (a, m)
      else if saved_offset > ar_offset a then Ret (a, m)
      else if saved_offset = ar_offset a then Ret (a, m)
      else Ret (a\<lparr>ar_offset := saved_offset\<rparr>,
                mem_zero (ar_base a + ar_page_size a + saved_offset) (ar_offset a - saved_offset) m))"

end
