(* ===== verification/Nox_Arena_Laws.thy ===== *)
theory Nox_Arena_Laws
  imports Nox_Arena
begin

text \<open>
  Facts on the arena over natural numbers: the layout a struct accepted by \<open>arena_is_valid\<close>
  describes, the addresses in it (no computation wraps when the mapping lies in the address
  space), the closed form of \<open>arena_alloc\<close>, and reads after writes of the byte store.
\<close>

section \<open>Layout\<close>

definition arena_layout :: "secure_arena \<Rightarrow> bool" where
  "arena_layout a \<longleftrightarrow> ar_base a \<noteq> 0 \<and> (\<exists>k. unat (ar_page_size a) = 2 ^ k) \<and>
     unat (ar_page_size a) dvd unat (ar_base a) \<and> 0 < unat (ar_usable_size a) \<and>
     unat (ar_page_size a) dvd unat (ar_usable_size a) + 16 \<and>
     unat (ar_total_size a) = unat (ar_usable_size a) + 16 + 2 * unat (ar_page_size a) \<and>
     unat (ar_offset a) \<le> unat (ar_usable_size a) \<and> 16 dvd unat (ar_offset a)"

lemma unat_64: "unat (x :: size_t) < 18446744073709551616"
  using unsigned_less [where 'a = nat and w = x] by simp

lemma unat_le_diff: "x \<le> SIZE_MAX - y \<longleftrightarrow> unat x + unat y < 2 ^ 64"
  using unat_64 [of x] unat_64 [of y]
  by (auto simp: SIZE_MAX_def word_le_nat_alt unat_sub_if')

lemma unat_add_nowrap: "unat (x :: size_t) + unat y < 2 ^ 64 \<Longrightarrow> unat (x + y) = unat x + unat y"
  by (simp add: unat_plus_if')

lemma pow2_word_nonzero: "unat (p :: 'a::len word) = 2 ^ k \<Longrightarrow> p \<noteq> 0"
  by auto

lemma arena_is_valid_layout: 
  assumes "arena_is_valid a" shows "arena_layout a"
proof -
  from assms have a: "ar_base a \<noteq> 0" "ar_page_size a \<noteq> 0" "ar_page_size a AND (ar_page_size a - 1) = 0"
    "ar_base a mod ar_page_size a = 0" "ar_usable_size a \<noteq> 0" "ar_page_size a \<le> SIZE_MAX div 2"
    "ar_usable_size a \<le> SIZE_MAX - CANARY" "(ar_usable_size a + CANARY) mod ar_page_size a = 0"
    "ar_usable_size a + CANARY \<le> SIZE_MAX - 2 * ar_page_size a"
    "ar_total_size a = ar_usable_size a + CANARY + 2 * ar_page_size a"
    "ar_offset a \<le> ar_usable_size a" "ar_offset a mod 16 = 0"
    by (auto simp: arena_is_valid_def Let_def not_less and_15_eq_mod split: if_splits)
  have c: "unat CANARY = 16" by (simp add: CANARY_def)
  have u: "unat (ar_usable_size a + CANARY) = unat (ar_usable_size a) + 16"
    using a(7) c by (simp add: unat_le_diff unat_add_nowrap)
  have "unat (ar_page_size a) \<le> unat (SIZE_MAX div 2)"
    using a(6) by (simp add: word_le_nat_alt)
  then have "unat (ar_page_size a) < 2 ^ 63" by (simp add: SIZE_MAX_def)
  then have p: "unat (2 * ar_page_size a) = 2 * unat (ar_page_size a)"
    by (simp add: unat_word_ariths)
  have t: "unat (ar_total_size a) = unat (ar_usable_size a) + 16 + 2 * unat (ar_page_size a)"
    using a(9,10) u p by (simp add: unat_le_diff unat_add_nowrap)
  show ?thesis
    unfolding arena_layout_def
    using a word_and_pred_pow2 [OF a(2,3)] u t
    by (auto simp: unat_dvd_mod0 word_le_nat_alt unat_gt_0)
qed

definition arena_mapped :: "secure_arena \<Rightarrow> bool" where
  "arena_mapped a \<longleftrightarrow> unat (ar_base a) + unat (ar_total_size a) < 2 ^ 64"

definition arena_start :: "secure_arena \<Rightarrow> nat" where
  "arena_start a = unat (ar_base a) + unat (ar_page_size a)"

definition arena_ok :: "secure_arena \<Rightarrow> process_image \<Rightarrow> bool" where
  "arena_ok a m \<longleftrightarrow> arena_is_valid a \<and> arena_mapped a \<and> 16 dvd unat (ar_page_size a) \<and>
     mem_read (canary_pos a) NOX_CANARY_LEN m = ar_canary a"

lemma arena_valid_offset:
  "arena_is_valid a \<Longrightarrow> off \<le> ar_usable_size a \<Longrightarrow> off mod 16 = 0 \<Longrightarrow> arena_is_valid (a\<lparr>ar_offset := off\<rparr>)"
  by (auto simp: arena_is_valid_def Let_def and_15_eq_mod split: if_splits)

lemma arena_addresses:
  assumes "arena_layout a" "arena_mapped a"
  shows "unat (ar_base a + ar_page_size a) = arena_start a"
    and "off \<le> ar_usable_size a + CANARY \<Longrightarrow> unat (ar_base a + ar_page_size a + off) = arena_start a + unat off"
    and "unat (ar_usable_size a + CANARY) = unat (ar_usable_size a) + 16"
    and "unat (ar_base a + ar_total_size a) = arena_start a + unat (ar_usable_size a) + 16 + unat (ar_page_size a)"
    and "arena_start a + unat (ar_usable_size a) + 16 + unat (ar_page_size a) < 2 ^ 64"
proof -
  have T: "unat (ar_total_size a) = unat (ar_usable_size a) + 16 + 2 * unat (ar_page_size a)"
    using assms(1) by (simp add: arena_layout_def)
  have c: "unat CANARY = 16" by (simp add: CANARY_def)
  show 5: "arena_start a + unat (ar_usable_size a) + 16 + unat (ar_page_size a) < 2 ^ 64"
    using assms(2) T by (simp add: arena_mapped_def arena_start_def)
  show 1: "unat (ar_base a + ar_page_size a) = arena_start a"
    using 5 by (simp add: arena_start_def unat_add_nowrap)
  show 3: "unat (ar_usable_size a + CANARY) = unat (ar_usable_size a) + 16"
    using 5 c by (subst unat_add_nowrap) simp_all
  show 4: "unat (ar_base a + ar_total_size a) = arena_start a + unat (ar_usable_size a) + 16 + unat (ar_page_size a)"
    using 5 T by (subst unat_add_nowrap) (simp_all add: arena_start_def)
  show "unat (ar_base a + ar_page_size a + off) = arena_start a + unat off"
    if "off \<le> ar_usable_size a + CANARY"
    using that 1 3 5 by (subst unat_add_nowrap) (simp_all add: word_le_nat_alt)
qed

lemma unat_canary_pos:
  assumes "arena_layout a" "arena_mapped a"
  shows "unat (canary_pos a) = arena_start a + unat (ar_usable_size a)"
  unfolding canary_pos_def using arena_addresses(2) [OF assms, of "ar_usable_size a"]
    arena_addresses(3) [OF assms] by (simp add: word_le_nat_alt)

lemma canary_in_mapping:
  assumes "arena_layout a" "arena_mapped a"
  shows "\<not> (canary_pos a < ar_base a + ar_page_size a \<or>
              canary_pos a + CANARY > ar_base a + ar_total_size a - ar_page_size a)"
proof -
  have c: "unat CANARY = 16" by (simp add: CANARY_def)
  note ad = arena_addresses [OF assms] unat_canary_pos [OF assms]
  have "unat (canary_pos a + CANARY) = arena_start a + unat (ar_usable_size a) + 16"
    using ad c by (subst unat_add_nowrap) simp_all
  moreover have "unat (ar_base a + ar_total_size a - ar_page_size a) = arena_start a + unat (ar_usable_size a) + 16"
    using ad by (subst unat_sub) (simp_all add: word_le_nat_alt)
  ultimately show ?thesis using ad by (simp add: word_less_nat_alt)
qed

lemma arena_check_canary_ok:
  "arena_ok a m \<Longrightarrow> arena_check_canary a m = Ret ()"
  using canary_in_mapping arena_is_valid_layout
  by (auto simp: arena_ok_def arena_check_canary_def)

lemma arena_check_canary_Ret_iff:
  assumes "ar_base a \<noteq> 0" "arena_mapped a"
  shows "arena_check_canary a m = Ret () \<longleftrightarrow> arena_is_valid a \<and> mem_read (canary_pos a) NOX_CANARY_LEN m = ar_canary a"
  using canary_in_mapping [OF arena_is_valid_layout assms(2)] assms(1)
  by (auto simp: arena_check_canary_def split: if_splits)

definition round16 :: "nat \<Rightarrow> nat" where
  "round16 n = (n + 15) div 16 * 16"

lemma round16_bounds: "n \<le> round16 n" "round16 n < n + 16" "16 dvd round16 n"
  by (simp_all add: round16_def)

lemma offset_fits:
  assumes "unat (x :: size_t) = n" "off \<le> u"
  shows "\<not> x > SIZE_MAX - off \<and> \<not> off + x > u \<longleftrightarrow> n \<le> unat u - unat off"
proof (cases "unat x + unat off < 2 ^ 64")
  case True
  then have "unat (off + x) = unat off + n" using assms by (subst unat_add_nowrap) simp_all
  with True assms unat_le_diff [of x off] show ?thesis by (auto simp: not_less word_le_nat_alt)
next
  case False
  then show ?thesis using assms unat_64 [of u] unat_le_diff [of x off]
    by (auto simp: not_less word_le_nat_alt)
qed

lemma arena_alloc_spec:
  assumes ok: "arena_ok a m"
  shows "arena_alloc a sz m =
    (if sz \<noteq> 0 \<and> round16 (unat sz) \<le> unat (ar_usable_size a) - unat (ar_offset a)
     then Ret (Some (ar_base a + ar_page_size a + ar_offset a),
               a\<lparr>ar_offset := ar_offset a + of_nat (round16 (unat sz))\<rparr>)
     else Ret (None, a))"
proof -
  have l: "arena_layout a" using ok by (simp add: arena_ok_def arena_is_valid_layout)
  then have b: "ar_base a \<noteq> 0" and off: "ar_offset a \<le> ar_usable_size a"
    by (simp_all add: arena_layout_def word_le_nat_alt)
  show ?thesis
  proof (cases "sz > SIZE_MAX - 15")
    case True
    then have "2 ^ 64 \<le> unat sz + 15" using unat_le_diff [of sz 15] by (simp add: not_le [symmetric])
    then have "unat (ar_usable_size a) < round16 (unat sz)"
      using arena_addresses(5) [OF l] ok round16_bounds(1) [of "unat sz"] by (simp add: arena_ok_def)
    then have "\<not> round16 (unat sz) \<le> unat (ar_usable_size a) - unat (ar_offset a)" by linarith
    with True b arena_check_canary_ok [OF ok] show ?thesis by (simp add: arena_alloc_def)
  next
    case False
    then have "unat (sz + 15) = unat sz + 15" using unat_le_diff [of sz 15]
      by (subst unat_add_nowrap) (simp_all add: not_less)
    then have al: "unat ((sz + 15) AND NOT 15) = round16 (unat sz)"
      using unat_align16 [of "sz + 15"] by (simp add: round16_def)
    then have "(sz + 15) AND NOT 15 = of_nat (round16 (unat sz))"
      by (metis of_nat_unat ucast_id)
    with False b arena_check_canary_ok [OF ok] offset_fits [OF al off] show ?thesis
      by (auto simp: arena_alloc_def Let_def)
  qed
qed

text \<open>What an allocation that succeeds gives.\<close>

lemma arena_alloc_block:
  assumes ok: "arena_ok a m" and al: "arena_alloc a sz m = Ret (Some p, a')"
  shows "arena_ok a' m" "0 < unat sz" "unat p = arena_start a + unat (ar_offset a)"
    "unat (ar_offset a') = unat (ar_offset a) + round16 (unat sz)"
    "unat (ar_offset a') \<le> unat (ar_usable_size a)"
    "a' = a\<lparr>ar_offset := ar_offset a'\<rparr>" "16 dvd unat p"
proof -
  have l: "arena_layout a" "arena_mapped a" and pg: "16 dvd unat (ar_page_size a)"
    using ok by (simp_all add: arena_ok_def arena_is_valid_layout)
  from al have sz: "sz \<noteq> 0" and fits: "round16 (unat sz) \<le> unat (ar_usable_size a) - unat (ar_offset a)"
    and p: "p = ar_base a + ar_page_size a + ar_offset a"
    and a': "a' = a\<lparr>ar_offset := ar_offset a + of_nat (round16 (unat sz))\<rparr>"
    by (auto simp: arena_alloc_spec [OF ok] split: if_splits)
  show "0 < unat sz" using sz by (simp add: unat_gt_0)
  have off: "unat (ar_offset a) \<le> unat (ar_usable_size a)" "16 dvd unat (ar_offset a)"
    using l(1) by (simp_all add: arena_layout_def)
  have r: "unat (of_nat (round16 (unat sz)) :: size_t) = round16 (unat sz)"
    using fits unat_64 [of "ar_usable_size a"] by (simp only: unsigned_of_nat) (simp add: take_bit_nat_eq_self)
  show o': "unat (ar_offset a') = unat (ar_offset a) + round16 (unat sz)"
  proof -
    have "unat (ar_offset a + of_nat (round16 (unat sz))) = unat (ar_offset a) + round16 (unat sz)"
      using r fits off(1) unat_64 [of "ar_usable_size a"] by (subst unat_add_nowrap) simp_all
    then show ?thesis by (simp add: a')
  qed
  show u': "unat (ar_offset a') \<le> unat (ar_usable_size a)" using o' fits off by simp
  show "a' = a\<lparr>ar_offset := ar_offset a'\<rparr>" using a' by simp
  show "unat p = arena_start a + unat (ar_offset a)"
    unfolding p by (rule arena_addresses(2) [OF l])
      (use arena_addresses(3) [OF l] off(1) in \<open>simp add: word_le_nat_alt\<close>)
  moreover have "16 dvd arena_start a"
    using dvd_trans [OF pg, of "unat (ar_base a)"] l(1) pg
    by (simp add: arena_layout_def arena_start_def)
  ultimately show "16 dvd unat p" using off by simp
  have "ar_offset a' mod 16 = 0"
    using o' off round16_bounds(3) by (simp add: unat_dvd_mod0)
  with u' have "arena_is_valid a'"
    using ok arena_valid_offset [of a "ar_offset a'"] a' by (simp add: arena_ok_def word_le_nat_alt)
  then show "arena_ok a' m"
    using ok a' by (simp add: arena_ok_def arena_mapped_def canary_pos_def)
qed

section \<open>Memory\<close>

lemma mem_write_outside:
  assumes "unat p + length b \<le> 2 ^ 64" "unat x < unat p \<or> unat p + length b \<le> unat x"
  shows "pi_mem (mem_write p b m) x = pi_mem m x"
  using assms unat_64 [of x] by (auto simp: mem_write_def unat_sub_if')

lemma mem_zero_at:
  assumes "unat p + unat n < 2 ^ 64"
  shows "pi_mem (mem_zero p n m) x = (if unat p \<le> unat x \<and> unat x < unat p + unat n then 0 else pi_mem m x)"
  using assms unat_64 [of x] by (auto simp: mem_zero_def word_less_nat_alt unat_sub_if')

lemma mem_read_cong:
  "(\<And>i. i < n \<Longrightarrow> pi_mem m (p + of_nat i) = pi_mem m' (p + of_nat i)) \<Longrightarrow> mem_read p n m = mem_read p n m'"
  by (simp add: mem_read_def)

lemma mem_read_write: "length b < 2 ^ 64 \<Longrightarrow> mem_read p (length b) (mem_write p b m) = b"
  by (rule nth_equalityI) (auto simp: mem_read_def mem_write_def unat_of_nat)
end
