(* ===== verification/Nox_Arena_Props.thy ===== *)
theory Nox_Arena_Props
  imports Nox_Arena_Laws
begin

text \<open>
  Properties of the arena: initialisation, any sequence of client operations, restoring, and
  destruction, with the detection of a damaged canary.
\<close>

section \<open>Clients of the arena\<close>

text \<open>A client allocates blocks and honeypots, writes inside the blocks it holds, and restores a
  saved offset (the blocks above it are gone then). The state is \<open>None\<close> once the process has been
  ended by the arena.\<close>

datatype arena_event = A_alloc size_t | A_honeypot size_t bytes | A_write nat nat bytes | A_restore size_t

type_synonym arena_client = "(secure_arena \<times> process_image \<times> region list) option"

fun arena_step :: "arena_client \<Rightarrow> arena_event \<Rightarrow> arena_client" where
  "arena_step None e = None"
| "arena_step (Some (a, m, bs)) (A_alloc sz) =
     (case arena_alloc a sz m of Abort _ \<Rightarrow> None
      | Ret (None, a') \<Rightarrow> Some (a', m, bs)
      | Ret (Some p, a') \<Rightarrow> Some (a', m, (p, sz) # bs))"
| "arena_step (Some (a, m, bs)) (A_honeypot sz rnd) =
     (case arena_alloc_canary a sz rnd m of Abort _ \<Rightarrow> None
      | Ret (None, a', m') \<Rightarrow> Some (a', m', bs)
      | Ret (Some p, a', m') \<Rightarrow> Some (a', m', (p, sz) # bs))"
| "arena_step (Some (a, m, bs)) (A_write i k b) =
     (if i < length bs \<and> k + length b \<le> unat (snd (bs ! i))
      then Some (a, mem_write (fst (bs ! i) + of_nat k) b m, bs)
      else Some (a, m, bs))"
| "arena_step (Some (a, m, bs)) (A_restore off) =
     (case arena_restore a off m of Abort _ \<Rightarrow> None
      | Ret (a', m') \<Rightarrow> Some (a', m',
          filter (\<lambda>(p, n). unat p + unat n \<le> arena_start a' + unat (ar_offset a')) bs))"

definition blocks_ok :: "secure_arena \<Rightarrow> region list \<Rightarrow> bool" where
  "blocks_ok a bs \<longleftrightarrow>
     (\<forall>(p, n) \<in> set bs. 0 < unat n \<and> 16 dvd unat p \<and> arena_start a \<le> unat p \<and>
        unat p + unat n \<le> arena_start a + unat (ar_offset a)) \<and>
     sorted_wrt (\<lambda>(p, _) (q, n). unat q + unat n \<le> unat p) bs"

definition client_inv :: "arena_client \<Rightarrow> bool" where
  "client_inv c \<longleftrightarrow> (\<exists>a m bs. c = Some (a, m, bs) \<and> arena_ok a m \<and> blocks_ok a bs)"

lemma arena_ok_mem:
  assumes ok: "arena_ok a m"
    and same: "\<And>x. arena_start a + unat (ar_usable_size a) \<le> unat x \<Longrightarrow> unat x < arena_start a + unat (ar_usable_size a) + 16
       \<Longrightarrow> pi_mem m' x = pi_mem m x"
  shows "arena_ok a m'"
proof -
  have l: "arena_layout a" "arena_mapped a"
    using ok by (simp_all add: arena_ok_def arena_is_valid_layout)
  note ad = arena_addresses [OF l] unat_canary_pos [OF l]
  have "mem_read (canary_pos a) NOX_CANARY_LEN m' = mem_read (canary_pos a) NOX_CANARY_LEN m"
  proof (rule mem_read_cong)
    fix i assume i: "i < NOX_CANARY_LEN"
    then have "unat (of_nat i :: size_t) = i" by (simp add: unat_of_nat NOX_CANARY_LEN_def)
    then have "unat (canary_pos a + of_nat i) = arena_start a + unat (ar_usable_size a) + i"
      using ad i by (subst unat_add_nowrap) (simp_all add: NOX_CANARY_LEN_def)
    then show "pi_mem m' (canary_pos a + of_nat i) = pi_mem m (canary_pos a + of_nat i)"
      using i by (intro same) (simp_all add: NOX_CANARY_LEN_def)
  qed
  with ok show ?thesis by (simp add: arena_ok_def)
qed

lemma arena_ok_write:
  assumes ok: "arena_ok a m" and w: "unat p + length b \<le> arena_start a + unat (ar_usable_size a)"
  shows "arena_ok a (mem_write p b m)"
proof (rule arena_ok_mem [OF ok])
  have l: "arena_layout a" "arena_mapped a"
    using ok by (simp_all add: arena_ok_def arena_is_valid_layout)
  fix x assume "arena_start a + unat (ar_usable_size a) \<le> unat (x :: size_t)"
  then show "pi_mem (mem_write p b m) x = pi_mem m x"
    using w arena_addresses(5) [OF l] by (intro mem_write_outside) simp_all
qed

lemma arena_start_offset: "arena_start (a\<lparr>ar_offset := x\<rparr>) = arena_start a"
  by (simp add: arena_start_def)

lemma blocks_ok_alloc:
  assumes "arena_ok a m" "blocks_ok a bs" "arena_alloc a sz m = Ret (Some p, a')"
  shows "blocks_ok a' ((p, sz) # bs)"
proof -
  note al = arena_alloc_block [OF assms(1,3)]
  have s: "arena_start a' = arena_start a" using al(6) by (metis arena_start_offset)
  show ?thesis
    using assms(2) al s round16_bounds(1) [of "unat sz"] by (fastforce simp: blocks_ok_def)
qed
section \<open>Restoring an offset\<close>

lemma arena_restore_spec:
  assumes ok: "arena_ok a m" 
  shows "arena_restore a off m =
    (if off < ar_offset a \<and> off mod 16 = 0
     then Ret (a\<lparr>ar_offset := off\<rparr>, mem_zero (ar_base a + ar_page_size a + off) (ar_offset a - off) m)
     else Ret (a, m))"
proof -
  have "ar_base a \<noteq> 0" "ar_offset a \<le> ar_usable_size a"
    using arena_is_valid_layout [of a] ok by (simp_all add: arena_ok_def arena_layout_def word_le_nat_alt)
  then show ?thesis
    by (auto simp: arena_restore_def arena_check_canary_ok [OF ok])
qed

lemma arena_restore_mem:
  assumes ok: "arena_ok a m" and off: "off < ar_offset a"
  shows "pi_mem (mem_zero (ar_base a + ar_page_size a + off) (ar_offset a - off) m) x =
    (if arena_start a + unat off \<le> unat x \<and> unat x < arena_start a + unat (ar_offset a) then 0 else pi_mem m x)"
proof -
  have l: "arena_layout a" "arena_mapped a"
    using ok by (simp_all add: arena_ok_def arena_is_valid_layout)
  have u: "unat (ar_offset a) \<le> unat (ar_usable_size a)" using l by (simp add: arena_layout_def)
  have o: "unat off < unat (ar_offset a)" using off by (simp add: word_less_nat_alt)
  have p: "unat (ar_base a + ar_page_size a + off) = arena_start a + unat off"
    by (rule arena_addresses(2) [OF l]) (use arena_addresses(3) [OF l] o u in \<open>simp add: word_le_nat_alt\<close>)
  have n: "unat (ar_offset a - off) = unat (ar_offset a) - unat off"
    using o by (simp add: unat_sub word_le_nat_alt)
  show ?thesis
    using o u p n arena_addresses(5) [OF l] by (subst mem_zero_at) simp_all
qed

lemma arena_ok_restore:
  assumes ok: "arena_ok a m" and r: "arena_restore a off m = Ret (a', m')"
  shows "arena_ok a' m'" "arena_start a' = arena_start a"
proof -
  have "arena_ok a' m' \<and> arena_start a' = arena_start a"
  proof (cases "off < ar_offset a \<and> off mod 16 = 0")
    case True
    have u: "ar_offset a \<le> ar_usable_size a"
      using arena_is_valid_layout [of a] ok by (simp add: arena_ok_def arena_layout_def word_le_nat_alt)
    let ?m = "mem_zero (ar_base a + ar_page_size a + off) (ar_offset a - off) m"
    from True r have a': "a' = a\<lparr>ar_offset := off\<rparr>" "m' = ?m"
      by (simp_all add: arena_restore_spec [OF ok])
    have "arena_ok a ?m"
      using u by (intro arena_ok_mem [OF ok])
        (simp add: arena_restore_mem [OF ok] True word_le_nat_alt)
    moreover have "arena_is_valid (a\<lparr>ar_offset := off\<rparr>)"
      using ok True u by (intro arena_valid_offset) (auto simp: arena_ok_def)
    ultimately show ?thesis
      using a' by (simp add: arena_ok_def arena_mapped_def canary_pos_def arena_start_def)
  next
    case False
    with r ok show ?thesis by (auto simp: arena_restore_spec [OF ok] split: if_splits)
  qed
  then show "arena_ok a' m'" "arena_start a' = arena_start a" by simp_all
qed

lemma blocks_ok_filter:
  assumes "blocks_ok a bs" "arena_start a' = arena_start a"
  shows "blocks_ok a' (filter (\<lambda>(p, n). unat p + unat n \<le> arena_start a' + unat (ar_offset a')) bs)"
  using assms by (auto simp: blocks_ok_def intro: sorted_wrt_filter)

lemma arena_ok_block_write:
  assumes ok: "arena_ok a m" and bs: "blocks_ok a bs"
    and i: "i < length bs" "k + length b \<le> unat (snd (bs ! i))"
  shows "arena_ok a (mem_write (fst (bs ! i) + of_nat k) b m)"
proof (rule arena_ok_write [OF ok])
  obtain p n where pn: "bs ! i = (p, n)" by fastforce
  have "(p, n) \<in> set bs" using i(1) pn by (metis nth_mem)
  with bs have e: "unat p + unat n \<le> arena_start a + unat (ar_offset a)"
    by (auto simp: blocks_ok_def)
  have l: "arena_layout a" "arena_mapped a"
    using ok by (simp_all add: arena_ok_def arena_is_valid_layout)
  then have u: "unat (ar_offset a) \<le> unat (ar_usable_size a)" by (simp add: arena_layout_def)
  have k: "unat (of_nat k :: size_t) = k"
    using i(2) pn unat_64 [of n] by (simp only: unsigned_of_nat) (simp add: take_bit_nat_eq_self)
  have "unat (p + of_nat k) = unat p + k"
    using k e u i(2) pn arena_addresses(5) [OF l] by (subst unat_add_nowrap) simp_all
  then show "unat (fst (bs ! i) + of_nat k) + length b \<le> arena_start a + unat (ar_usable_size a)"
    using e u i(2) pn by simp
qed

lemma client_inv_step: "client_inv c \<Longrightarrow> client_inv (arena_step c e)"
proof -
  assume "client_inv c"
  then obtain a m bs where c: "c = Some (a, m, bs)" and ok: "arena_ok a m" and bs: "blocks_ok a bs"
    by (auto simp: client_inv_def)
  show ?thesis
  proof (cases e)
    case (A_alloc sz)
    obtain r a' where r: "arena_alloc a sz m = Ret (r, a')"
      using arena_alloc_spec [OF ok, of sz] by (auto split: if_splits)
    then have n: "r = None \<Longrightarrow> a' = a" by (auto simp: arena_alloc_spec [OF ok] split: if_splits)
    show ?thesis
      using c A_alloc r ok bs n arena_alloc_block(1) [OF ok] blocks_ok_alloc [OF ok bs]
      by (cases r) (simp_all add: client_inv_def)
  next
    case (A_honeypot sz rnd)
    obtain r a' where r: "arena_alloc a sz m = Ret (r, a')"
      using arena_alloc_spec [OF ok, of sz] by (auto split: if_splits)
    then have n: "r = None \<Longrightarrow> a' = a" by (auto simp: arena_alloc_spec [OF ok] split: if_splits)
    have s: "arena_ok a' (mem_write p (take (unat sz) rnd) m)" if "r = Some p" for p
    proof -
      note al = arena_alloc_block [OF ok r [unfolded that]]
      show ?thesis
        using al(3,4,5) round16_bounds(1) [of "unat sz"]
        by (intro arena_ok_write [OF al(1)])
          (subst al(6), simp, subst al(6), simp add: arena_start_def)
    qed
    show ?thesis
      using c A_honeypot r ok bs n s blocks_ok_alloc [OF ok bs]
      by (cases r) (simp_all add: client_inv_def arena_alloc_canary_def)
  next
    case (A_write i k b)
    then show ?thesis
      using c ok bs arena_ok_block_write [OF ok bs, of i k b] by (auto simp: client_inv_def)
  next
    case (A_restore off)
    obtain a' m' where r: "arena_restore a off m = Ret (a', m')"
      using arena_restore_spec [OF ok, of off] by (auto split: if_splits)
    with arena_ok_restore [OF ok r] blocks_ok_filter [OF bs] c A_restore show ?thesis
      by (simp add: client_inv_def)
  qed
qed

interpretation arena_client: step_invariant arena_step client_inv
  by unfold_locales (rule client_inv_step)

section \<open>Destruction\<close>

definition wipe_len :: "secure_arena \<Rightarrow> nat" where
  "wipe_len a = min (unat (ar_usable_size a) + 16) (256 * 1024 * 1024)"

definition arena_wiped :: "secure_arena \<Rightarrow> process_image \<Rightarrow> process_image \<Rightarrow> bool" where
  "arena_wiped a m m' \<longleftrightarrow> (\<forall>x. pi_mem m' x =
     (if arena_start a \<le> unat x \<and> unat x < arena_start a + wipe_len a then 0 else pi_mem m x))"

lemma unat_wipe:
  assumes "arena_layout a" "arena_mapped a"
  shows "unat (if ar_usable_size a + CANARY > MAX_WIPE then MAX_WIPE else ar_usable_size a + CANARY) = wipe_len a"
  using arena_addresses(3) [OF assms] by (auto simp: wipe_len_def MAX_WIPE_def word_less_nat_alt)

lemma arena_wipe:
  assumes l: "arena_layout a" "arena_mapped a"
  defines "w \<equiv> (if ar_usable_size a + CANARY > MAX_WIPE then MAX_WIPE else ar_usable_size a + CANARY)"
  shows "ar_base a + ar_page_size a + w \<le> ar_base a + ar_total_size a"
    and "arena_wiped a m (mem_zero (ar_base a + ar_page_size a) w m)"
proof -
  note ad = arena_addresses [OF l]
  have w: "unat w = wipe_len a" "wipe_len a \<le> unat (ar_usable_size a) + 16"
    using unat_wipe [OF l] by (simp_all add: w_def wipe_len_def)
  have "unat (ar_base a + ar_page_size a + w) = arena_start a + wipe_len a"
    using w ad by (subst unat_add_nowrap) simp_all
  then show "ar_base a + ar_page_size a + w \<le> ar_base a + ar_total_size a"
    using w ad by (simp add: word_le_nat_alt)
  show "arena_wiped a m (mem_zero (ar_base a + ar_page_size a) w m)"
    unfolding arena_wiped_def using w ad by (subst mem_zero_at) simp_all
qed

lemma arena_wiped_munmap [simp]: "arena_wiped a m (munmap ok base tot m') = arena_wiped a m m'"
  by (simp add: arena_wiped_def munmap_def)

lemma secure_abort_wiped:
  assumes "arena_is_valid a" "arena_mapped a"
  shows "arena_wiped a m (secure_abort a m)"
  using arena_wipe [OF arena_is_valid_layout [OF assms(1)] assms(2)] assms(1)
  by (simp add: secure_abort_def Let_def)

lemma arena_destroy_valid:
  assumes v: "arena_is_valid a" "arena_mapped a"
  shows "\<exists>m'. arena_wiped a m m' \<and> arena_destroy mo a m =
    (if mem_read (canary_pos a) NOX_CANARY_LEN m = ar_canary a
     then Ret (zero_arena, munmap mo (ar_base a) (ar_total_size a) m')
     else Abort (munmap mo (ar_base a) (ar_total_size a) m'))"
proof -
  have l: "arena_layout a" using v(1) by (rule arena_is_valid_layout)
  then have b: "ar_base a \<noteq> 0" by (simp add: arena_layout_def)
  show ?thesis
    using arena_wipe(1) [OF l v(2)] arena_wipe(2) [OF l v(2), of m] canary_in_mapping [OF l v(2)] b v(1)
    by (intro exI [of _ "mem_zero (ar_base a + ar_page_size a)
         (if ar_usable_size a + CANARY > MAX_WIPE then MAX_WIPE else ar_usable_size a + CANARY) m"])
       (simp add: arena_destroy_def Let_def)
qed

section \<open>Initialisation\<close>

text \<open>The length \<open>arena_init\<close> asks \<open>mmap\<close> for.\<close>

definition mmap_request :: "arena_env \<Rightarrow> size_t \<Rightarrow> size_t" where
  "mmap_request env sz =
     (let ps = get_page_size (ae_pagesize env) in ps + page_align (sz + CANARY) ps + ps)"

text \<open>The contract of the kernel and of libsodium that the arena relies on: the page size is a
  multiple of 16, \<open>mmap\<close> returns a page-aligned non-null address of a range of the requested length
  that does not wrap and is new in the process, and the canary buffer is filled.\<close>

definition kernel_ok :: "arena_env \<Rightarrow> size_t \<Rightarrow> process_image \<Rightarrow> bool" where
  "kernel_ok env sz m \<longleftrightarrow> 16 dvd unat (ae_pagesize env) \<and> length (ae_canary env) = NOX_CANARY_LEN \<and>
     (\<forall>b. ae_mmap env = Some b \<longrightarrow> b \<noteq> 0 \<and> unat (ae_pagesize env) dvd unat b \<and>
        unat b + unat (mmap_request env sz) < 2 ^ 64 \<and>
        (b, mmap_request env sz) \<notin> set (pi_maps m) \<and>
        (\<forall>(g, _) \<in> set (pi_guards m). \<not> g - b < mmap_request env sz))"

lemma round_up_bounds:
  assumes "0 < (p :: nat)"
  shows "n \<le> (n + (p - 1)) div p * p" "(n + (p - 1)) div p * p < n + p"
  using assms div_mult_mod_eq [of "n + (p - 1)" p] mod_less_divisor [of p "n + (p - 1)"]
  by linarith+

lemma page_align_spec:
  assumes "page_align x p = y" "y \<noteq> 0"
  shows "p \<noteq> 0" "p AND (p - 1) = 0" "unat p dvd unat y" "unat x \<le> unat y" "unat y < unat x + unat p"
proof -
  from assms have p: "p \<noteq> 0" "p AND (p - 1) = 0" "x \<le> SIZE_MAX - (p - 1)"
    and y: "y = (x + p - 1) AND NOT (p - 1)"
    by (auto simp: page_align_def split: if_splits)
  have p1: "unat (p - 1) = unat p - 1" using p(1) by (simp add: unat_minus_one)
  have "unat x + (unat p - 1) < 2 ^ 64" using p(3) p1 by (simp add: unat_le_diff)
  then have "unat (x + (p - 1)) = unat x + (unat p - 1)" using p1 by (subst unat_add_nowrap) simp_all
  then have "unat y = (unat x + (unat p - 1)) div unat p * unat p"
    using unat_align_down [OF p(1,2), of "x + (p - 1)"] y by (simp add: add_diff_eq)
  moreover have "0 < unat p" using p(1) by (simp add: unat_gt_0)
  ultimately show "p \<noteq> 0" "p AND (p - 1) = 0" "unat p dvd unat y" "unat x \<le> unat y" "unat y < unat x + unat p"
    using p round_up_bounds [of "unat p" "unat x"] by (simp_all only: dvd_triv_right not_False_eq_True)
qed

lemma get_page_size_bound: "get_page_size ps \<noteq> 0 \<Longrightarrow> get_page_size ps = ps \<and> unat ps < 2 ^ 63"
proof -
  assume a: "get_page_size ps \<noteq> 0"
  then have s: "0 < sint ps" "get_page_size ps = ps" by (auto simp: get_page_size_def split: if_splits)
  have u: "take_bit (Suc 63) (uint ps) = uint ps"
    using uint_lt2p [of ps] by (simp add: take_bit_int_eq_self)
  have "sint ps = uint ps - 2 ^ 64 * of_bool (bit (uint ps) 63)"
    using u by (simp add: sint_uint signed_take_bit_eq_take_bit_minus)
  then have "\<not> bit (uint ps) 63" using s(1) uint_lt2p [of ps] by (auto split: if_splits)
  then have "take_bit 63 (uint ps) = uint ps" using u take_bit_Suc_from_most [of 63 "uint ps"]
    by (metis add.left_neutral mult_zero_right of_bool_eq(1))
  then have "uint ps < 2 ^ 63" by (metis take_bit_int_less_exp)
  then have "int (unat ps) < int (2 ^ 63)" by simp
  then have "unat ps < 2 ^ 63" by (simp only: of_nat_less_iff)
  with s show ?thesis by simp
qed

lemma request_nonzero:
  assumes "u \<noteq> 0" "u \<le> SIZE_MAX - p"
  shows "p + u \<noteq> 0"
proof -
  have "unat (u + p) = unat u + unat p" using assms(2) by (simp add: unat_le_diff unat_add_nowrap)
  moreover have "0 < unat u" using assms(1) by (simp add: unat_gt_0)
  ultimately show ?thesis by (metis add.commute add_gr_0 less_irrefl unat_eq_0)
qed

lemma arena_init_OK_cases:
  assumes "arena_init env a sz m = (NOX_OK, a', m')"
  obtains b where "ae_mmap env = Some b" "sz \<noteq> 0" "get_page_size (ae_pagesize env) = ae_pagesize env"
    "ae_pagesize env \<noteq> 0" "sz \<le> SIZE_MAX - CANARY"
    "page_align (sz + CANARY) (ae_pagesize env) \<noteq> 0"
    "page_align (sz + CANARY) (ae_pagesize env) \<le> SIZE_MAX - 2 * ae_pagesize env"
    "a' = \<lparr>ar_base = b, ar_total_size = mmap_request env sz,
       ar_usable_size = page_align (sz + CANARY) (ae_pagesize env) - CANARY, ar_offset = 0,
       ar_page_size = ae_pagesize env, ar_fork_safe = ae_dontfork env, ar_dump_safe = ae_dontdump env,
       ar_locked = True, ar_canary = ae_canary env\<rparr>"
    "m' = mem_write (canary_pos a') (ae_canary env)
       (m\<lparr>pi_maps := (b, mmap_request env sz) # pi_maps m,
          pi_guards := (b + ae_pagesize env + page_align (sz + CANARY) (ae_pagesize env), ae_pagesize env) #
            (b, ae_pagesize env) # pi_guards m\<rparr>)"
  using assms get_page_size_bound [of "ae_pagesize env"]
  by (auto simp: arena_init_def Let_def mmap_request_def canary_pos_def not_less
      split: if_splits option.splits)

lemma arena_init_ok:
  assumes i: "arena_init env a sz m = (NOX_OK, a', m')" and k: "kernel_ok env sz m"
  shows "arena_ok a' m' \<and> arena_bytes_used a' = 0 \<and> unat sz \<le> unat (arena_bytes_free a') \<and> ar_locked a' \<and>
    pi_maps m' = (ar_base a', ar_total_size a') # pi_maps m \<and>
    pi_guards m' = (canary_pos a' + CANARY, ar_page_size a') # (ar_base a', ar_page_size a') # pi_guards m"
  using i
proof (rule arena_init_OK_cases)
  fix b let ?p = "ae_pagesize env"
  let ?u = "page_align (sz + CANARY) ?p"
  assume b: "ae_mmap env = Some b" and sz: "sz \<noteq> 0" and ps: "get_page_size ?p = ?p" "?p \<noteq> 0"
    and ov: "sz \<le> SIZE_MAX - CANARY" "?u \<noteq> 0" "?u \<le> SIZE_MAX - 2 * ?p"
    and a': "a' = \<lparr>ar_base = b, ar_total_size = mmap_request env sz,
       ar_usable_size = ?u - CANARY, ar_offset = 0,
       ar_page_size = ?p, ar_fork_safe = ae_dontfork env, ar_dump_safe = ae_dontdump env,
       ar_locked = True, ar_canary = ae_canary env\<rparr>"
    and m': "m' = mem_write (canary_pos a') (ae_canary env)
       (m\<lparr>pi_maps := (b, mmap_request env sz) # pi_maps m,
          pi_guards := (b + ?p + ?u, ?p) # (b, ?p) # pi_guards m\<rparr>)"
  have c: "unat CANARY = 16" by (simp add: CANARY_def)
  have kk: "b \<noteq> 0" "?p \<noteq> 0" "b mod ?p = 0" "unat b + unat (mmap_request env sz) < 2 ^ 64"
     "16 dvd unat ?p" "length (ae_canary env) = 16"
    using k b ps by (auto simp: kernel_ok_def unat_dvd_mod0 NOX_CANARY_LEN_def)
  note pa = page_align_spec [OF refl ov(2)]
  have s16: "unat (sz + CANARY) = unat sz + 16" "0 < unat sz"
    using ov(1) sz c by (simp_all add: unat_le_diff unat_add_nowrap unat_gt_0)
  have u: "unat (?u - CANARY) = unat ?u - 16" "16 + unat sz \<le> unat ?u"
    using pa(4) s16 c by (simp_all add: unat_sub word_le_nat_alt)
  have up: "?u - CANARY + CANARY = ?u" by simp
  have p2: "?p \<le> SIZE_MAX div 2" "2 * ?p = ?p + ?p"
    using get_page_size_bound [of ?p] ps by (simp_all add: SIZE_MAX_def word_le_nat_alt)
  have "unat ?u + unat (2 * ?p) < 2 ^ 64" using ov(3) by (simp only: unat_le_diff)
  moreover have req: "mmap_request env sz = ?u + 2 * ?p"
    using ps by (simp add: mmap_request_def Let_def)
  ultimately have tot: "unat (mmap_request env sz) = unat ?u + unat (2 * ?p)"
    by (simp only: unat_add_nowrap)
  have off: "\<not> ?u - CANARY \<ge> mmap_request env sz" "\<not> mmap_request env sz < 2 * ?p"
    unfolding word_le_nat_alt word_less_nat_alt tot u(1) using u(2) by linarith+
  have mx: "\<not> ?u - CANARY > SIZE_MAX - CANARY"
    using u c unat_64 [of ?u] by (simp add: not_less unat_le_diff)
  have "0 < unat (?u - CANARY)" using u s16 by linarith
  then have pos: "?u - CANARY \<noteq> 0" by (simp add: unat_gt_0)
  have um: "?u mod ?p = 0" using pa(3) by (simp add: unat_dvd_mod0)
  have v: "arena_is_valid a'"
    using kk(1-3) pa(2) pos off p2(1) mx um ov(3) req by (simp add: a' arena_is_valid_def Let_def not_less)
  have "mem_read (canary_pos a') NOX_CANARY_LEN m' = ae_canary env"
    using mem_read_write [of "ae_canary env" "canary_pos a'"] kk(6) unfolding m'
    by (simp add: NOX_CANARY_LEN_def)
  with v kk have ok: "arena_ok a' m'" by (simp add: arena_ok_def arena_mapped_def a')
  have "unat sz \<le> unat (arena_bytes_free a')" using u by (simp add: arena_bytes_free_def a')
  moreover have "b + ?p + ?u = canary_pos a' + CANARY" by (simp add: canary_pos_def a')
  ultimately show ?thesis using ok by (simp add: arena_bytes_used_def m' a' mem_write_def)
qed

lemma arena_init_fail:
  assumes i: "arena_init env a sz m = (r, a', m')" "r \<noteq> NOX_OK" and k: "kernel_ok env sz m" and mu: "ae_munmap env"
  shows "r = NOX_ERR_ALLOC \<and> a' \<in> {a, zero_arena} \<and> m' = m"
proof -
  have g: "filter (\<lambda>(g, _). \<not> g - b < t) (pi_guards m) = pi_guards m"
    if "\<forall>(g, _) \<in> set (pi_guards m). \<not> g - b < t" for b t
    using that by (auto intro!: filter_True)
  show ?thesis
    using i k mu get_page_size_bound [of "ae_pagesize env"]
    by (auto simp: arena_init_def Let_def kernel_ok_def munmap_def mmap_request_def g not_less request_nonzero
      removeAll_id split: if_splits option.splits)
qed
section \<open>Properties\<close>

text \<open>An environment in which initialisation succeeds: pages of 4096 bytes, mapping at 65536.\<close>

definition demo_env :: arena_env where
  "demo_env = \<lparr>ae_sodium_init = True, ae_pagesize = 4096, ae_mmap = Some 65536, ae_mlock = True,
     ae_dontfork = True, ae_dontdump = True, ae_guard_lower = True, ae_guard_upper = True,
     ae_munmap = True, ae_canary = replicate 16 7\<rparr>"

definition demo_image :: process_image where
  "demo_image = \<lparr>pi_mem = (\<lambda>_. 0), pi_maps = [], pi_guards = []\<rparr>"

lemma demo_page_size: "get_page_size 4096 = 4096"
  by (simp add: get_page_size_def)

lemma demo_page_align: "page_align 116 4096 = 4096"
  by (simp add: page_align_def SIZE_MAX_def)

lemma demo_kernel_ok: "kernel_ok demo_env 100 demo_image"
  by (simp add: kernel_ok_def demo_env_def demo_image_def mmap_request_def demo_page_size
      demo_page_align CANARY_def NOX_CANARY_LEN_def)

lemma kernel_ok_guard: "kernel_ok (env\<lparr>ae_guard_upper := g\<rparr>) sz m = kernel_ok env sz m"
  by (simp add: kernel_ok_def mmap_request_def)

lemma demo_init_ok: "fst (arena_init demo_env zero_arena 100 demo_image) = NOX_OK"
  by (simp add: arena_init_def demo_env_def demo_page_size demo_page_align CANARY_def SIZE_MAX_def)

lemma demo_init_cases:
  obtains a m where "arena_init demo_env zero_arena 100 demo_image = (NOX_OK, a, m)"
  using demo_init_ok by (metis prod.collapse)

text \<open>A successful \<open>arena_init\<close> yields a struct that passes the mapping check, with an intact
  canary, locked, with nothing allocated and at least the requested number of bytes free; the
  mapping is recorded with its length, and the two guard ranges are exactly the page before the
  usable area and the page after the canary. No size computation wraps.\<close>

theorem arena_init_sound:
  assumes "arena_init env a sz m = (NOX_OK, a', m')" and "kernel_ok env sz m"
  shows "arena_check_canary a' m' = Ret () \<and> arena_is_valid a' \<and> ar_locked a' \<and>
    arena_bytes_used a' = 0 \<and> unat sz \<le> unat (arena_bytes_free a') \<and>
    pi_maps m' = (ar_base a', ar_total_size a') # pi_maps m \<and>
    pi_guards m' = (canary_pos a' + CANARY, ar_page_size a') # (ar_base a', ar_page_size a') # pi_guards m \<and>
    unat (ar_total_size a') = unat (ar_usable_size a') + 16 + 2 * unat (ar_page_size a')"
  using arena_init_ok [OF assms] arena_check_canary_ok arena_is_valid_layout [of a']
  by (auto simp: arena_ok_def arena_layout_def)

theorem arena_init_sound_witness:
  "\<exists>a' m'. arena_init demo_env zero_arena 100 demo_image = (NOX_OK, a', m') \<and>
     arena_check_canary a' m' = Ret () \<and> 100 \<le> unat (arena_bytes_free a')"
proof -
  obtain a m where i: "arena_init demo_env zero_arena 100 demo_image = (NOX_OK, a, m)"
    by (rule demo_init_cases)
  from arena_init_sound [OF this demo_kernel_ok] i show ?thesis by auto
qed

text \<open>A failing \<open>arena_init\<close> reports \<open>NOX_ERR_ALLOC\<close> and leaks nothing: the struct is untouched
  or all zero, and the mappings, guards and memory of the process are as before.\<close>

theorem arena_init_no_leak:
  assumes "arena_init env a sz m = (r, a', m')" "r \<noteq> NOX_OK" "kernel_ok env sz m" "ae_munmap env"
  shows "r = NOX_ERR_ALLOC \<and> a' \<in> {a, zero_arena} \<and> m' = m"
  using assms by (rule arena_init_fail)

theorem arena_init_no_leak_witness:
  "arena_init (demo_env\<lparr>ae_guard_upper := False\<rparr>) zero_arena 100 demo_image =
     (NOX_ERR_ALLOC, zero_arena, demo_image)"
proof -
  let ?e = "demo_env\<lparr>ae_guard_upper := False\<rparr>"
  obtain r a m where i: "arena_init ?e zero_arena 100 demo_image = (r, a, m)" by (metis prod_cases3)
  then have "r \<noteq> NOX_OK"
    by (auto simp: arena_init_def demo_env_def Let_def split: if_splits)
  moreover have "kernel_ok ?e 100 demo_image" "ae_munmap ?e"
    using demo_kernel_ok by (simp_all only: kernel_ok_guard) (simp add: demo_env_def)
  ultimately show ?thesis using arena_init_no_leak [OF i] i by auto
qed

text \<open>C18. After a successful \<open>arena_init\<close>, no sequence of allocations, honeypots, restores and writes
  that stay inside the held blocks makes the arena end the process: the canary stays intact, every
  held block is 16-aligned and lies between the lower guard and the canary, and any two held blocks
  are disjoint.\<close>

theorem arena_clients_safe:
  assumes "arena_init env a sz m = (NOX_OK, a0, m0)" and "kernel_ok env sz m"
  shows "\<exists>a' m' bs. foldl arena_step (Some (a0, m0, [])) es = Some (a', m', bs) \<and>
    arena_check_canary a' m' = Ret () \<and>
    (\<forall>(p, n) \<in> set bs. 0 < unat n \<and> 16 dvd unat p \<and>
       unat (ar_base a') + unat (ar_page_size a') \<le> unat p \<and> unat p + unat n \<le> unat (canary_pos a')) \<and>
    (\<forall>i j. i < j \<and> j < length bs \<longrightarrow>
       unat (fst (bs ! j)) + unat (snd (bs ! j)) \<le> unat (fst (bs ! i)))"
proof -
  have "client_inv (Some (a0, m0, []))"
    using arena_init_ok [OF assms] by (simp add: client_inv_def blocks_ok_def)
  then have "client_inv (foldl arena_step (Some (a0, m0, [])) es)" by (rule arena_client.inv_run)
  then obtain a' m' bs where c: "foldl arena_step (Some (a0, m0, [])) es = Some (a', m', bs)"
    and ok: "arena_ok a' m'" and bs: "blocks_ok a' bs" by (auto simp: client_inv_def)
  have l: "arena_layout a'" "arena_mapped a'"
    using ok by (simp_all add: arena_ok_def arena_is_valid_layout)
  then have "unat (ar_offset a') \<le> unat (ar_usable_size a')" by (simp add: arena_layout_def)
  with bs unat_canary_pos [OF l] have "\<forall>(p, n) \<in> set bs. 0 < unat n \<and> 16 dvd unat p \<and>
       unat (ar_base a') + unat (ar_page_size a') \<le> unat p \<and> unat p + unat n \<le> unat (canary_pos a')"
    by (fastforce simp: blocks_ok_def arena_start_def)
  moreover have "unat (fst (bs ! j)) + unat (snd (bs ! j)) \<le> unat (fst (bs ! i))"
    if "i < j" "j < length bs" for i j
    using sorted_wrt_nth_less [OF conjunct2 [OF bs [unfolded blocks_ok_def]] that]
    by (simp add: case_prod_beta)
  ultimately show ?thesis using c arena_check_canary_ok [OF ok] by blast
qed

theorem arena_clients_safe_witness:
  "\<exists>a0 m0 a' m' bs. arena_init demo_env zero_arena 100 demo_image = (NOX_OK, a0, m0) \<and>
     foldl arena_step (Some (a0, m0, [])) [A_alloc 40, A_alloc 32, A_write 0 0 [1, 2, 3], A_restore 48] =
       Some (a', m', bs) \<and> arena_check_canary a' m' = Ret ()"
proof -
  obtain a m where i: "arena_init demo_env zero_arena 100 demo_image = (NOX_OK, a, m)"
    by (rule demo_init_cases)
  from arena_clients_safe [OF i demo_kernel_ok,
      of "[A_alloc 40, A_alloc 32, A_write 0 0 [1, 2, 3], A_restore 48]"] i
  show ?thesis by blast
qed

text \<open>With an intact arena \<open>arena_alloc\<close> succeeds exactly when the request, rounded up to a
  multiple of 16, fits in the bytes that are free, and then takes exactly that many; otherwise it
  returns NULL and changes nothing. It never ends the process.\<close>

theorem arena_alloc_exact:
  assumes "arena_ok a m"
  shows "if sz \<noteq> 0 \<and> round16 (unat sz) \<le> unat (arena_bytes_free a)
    then \<exists>p a'. arena_alloc a sz m = Ret (Some p, a') \<and>
      unat p = unat (ar_base a) + unat (ar_page_size a) + unat (arena_bytes_used a) \<and>
      unat (arena_bytes_used a') = unat (arena_bytes_used a) + round16 (unat sz) \<and> arena_ok a' m
    else arena_alloc a sz m = Ret (None, a)"
proof -
  have "ar_offset a \<le> ar_usable_size a"
    using arena_is_valid_layout [of a] assms by (simp add: arena_ok_def arena_layout_def word_le_nat_alt)
  then have f: "unat (arena_bytes_free a) = unat (ar_usable_size a) - unat (ar_offset a)"
    by (simp add: arena_bytes_free_def unat_sub)
  show ?thesis
  proof (cases "sz \<noteq> 0 \<and> round16 (unat sz) \<le> unat (arena_bytes_free a)")
    case True
    with f obtain p a' where al: "arena_alloc a sz m = Ret (Some p, a')"
      by (auto simp: arena_alloc_spec [OF assms])
    with arena_alloc_block [OF assms al] True show ?thesis
      by (auto simp: arena_bytes_used_def arena_start_def)
  next
    case False
    with f show ?thesis
      unfolding if_not_P [OF False] by (simp only: arena_alloc_spec [OF assms] if_False)
  qed
qed

theorem arena_alloc_exact_witness:
  "\<exists>a m p a'. arena_ok a m \<and> arena_alloc a 33 m = Ret (Some p, a') \<and> unat (arena_bytes_used a') = 48"
proof -
  obtain a m where i: "arena_init demo_env zero_arena 100 demo_image = (NOX_OK, a, m)"
    by (rule demo_init_cases)
  from arena_init_ok [OF i demo_kernel_ok] have ok: "arena_ok a m" and u: "arena_bytes_used a = 0"
    and f: "100 \<le> unat (arena_bytes_free a)" by auto
  have r: "round16 33 = 48" by (simp add: round16_def)
  from arena_alloc_exact [OF ok, of 33] f r u ok show ?thesis by auto
qed

text \<open>\<open>arena_restore\<close> to an offset taken earlier with \<open>arena_save\<close> makes the bytes above it free
  again and zeroes exactly those: everything below the saved offset, the canary and the rest of
  memory keep their contents.\<close>

theorem arena_restore_wipes:
  assumes "arena_ok a m" and "off \<le> arena_save a" and "off mod 16 = 0"
  shows "\<exists>a' m'. arena_restore a off m = Ret (a', m') \<and> arena_ok a' m' \<and> arena_save a' = off \<and>
    (\<forall>x. pi_mem m' x =
       (if unat (ar_base a) + unat (ar_page_size a) + unat off \<le> unat x \<and>
           unat x < unat (ar_base a) + unat (ar_page_size a) + unat (arena_save a) then 0 else pi_mem m x))"
proof -
  obtain a' m' where r: "arena_restore a off m = Ret (a', m')"
    using arena_restore_spec [OF assms(1), of off] by (auto split: if_splits)
  note ok = arena_ok_restore [OF assms(1) r]
  show ?thesis
  proof (cases "off < ar_offset a")
    case True
    with assms r have "a' = a\<lparr>ar_offset := off\<rparr>"
      "m' = mem_zero (ar_base a + ar_page_size a + off) (ar_offset a - off) m"
      by (simp_all add: arena_restore_spec)
    with r ok arena_restore_mem [OF assms(1) True] show ?thesis
      by (simp add: arena_save_def arena_start_def)
  next
    case False
    with assms r ok show ?thesis
      by (auto simp: arena_restore_spec arena_save_def)
  qed
qed

theorem arena_restore_wipes_witness:
  "\<exists>a m a' m'. arena_ok a m \<and> arena_save a = 48 \<and> arena_restore a 16 m = Ret (a', m') \<and> arena_save a' = 16"
proof -
  obtain a m where i: "arena_init demo_env zero_arena 100 demo_image = (NOX_OK, a, m)"
    by (rule demo_init_cases)
  from arena_init_ok [OF i demo_kernel_ok] have ok: "arena_ok a m" and u: "ar_offset a = 0"
    and f: "100 \<le> unat (arena_bytes_free a)" by (auto simp: arena_bytes_used_def)
  have "round16 (unat (33 :: size_t)) = 48" by (simp add: round16_def)
  with f u obtain p a1 where al: "arena_alloc a 33 m = Ret (Some p, a1)" and o1: "ar_offset a1 = 48"
    by (auto simp: arena_alloc_spec [OF ok] arena_bytes_free_def)
  have "arena_ok a1 m" using arena_alloc_block(1) [OF ok al] .
  with arena_restore_wipes [OF this, of 16] o1 show ?thesis by (auto simp: arena_save_def)
qed

text \<open>\<open>arena_destroy\<close> on a consistent struct zeroes the usable area and the canary (up to the
  256 MB limit of the code) and touches nothing else, whether or not the canary is intact; with an
  intact canary it returns with an all-zero struct, with a damaged one the process ends after the
  wipe. A damaged canary also makes the next allocation and the next restore end the process, with
  the same area wiped.\<close>

theorem arena_destroy_wipes:
  assumes "arena_is_valid a" "arena_mapped a"
  shows "(mem_read (canary_pos a) NOX_CANARY_LEN m = ar_canary a \<longrightarrow>
      (\<exists>m'. arena_destroy mo a m = Ret (zero_arena, m') \<and> arena_wiped a m m')) \<and>
    (mem_read (canary_pos a) NOX_CANARY_LEN m \<noteq> ar_canary a \<longrightarrow>
      (\<exists>m'. arena_destroy mo a m = Abort m' \<and> arena_wiped a m m') \<and>
      (sz \<noteq> 0 \<longrightarrow> (\<exists>m'. arena_alloc a sz m = Abort m' \<and> arena_wiped a m m')) \<and>
      (\<exists>m'. arena_restore a off m = Abort m' \<and> arena_wiped a m m'))"
proof -
  have b: "ar_base a \<noteq> 0" using arena_is_valid_layout [OF assms(1)] by (simp add: arena_layout_def)
  have "arena_check_canary a m = Abort (secure_abort a m)"
    if "mem_read (canary_pos a) NOX_CANARY_LEN m \<noteq> ar_canary a"
    using that b assms(1) by (simp add: arena_check_canary_def)
  with b secure_abort_wiped [OF assms, of m] arena_destroy_valid [OF assms, of m mo] show ?thesis
    by (auto simp: arena_alloc_def arena_restore_def)
qed

theorem arena_destroy_wipes_witness:
  "\<exists>a m m'. arena_is_valid a \<and> arena_mapped a \<and> arena_destroy True a m = Ret (zero_arena, m') \<and> arena_wiped a m m'"
proof -
  obtain a m where i: "arena_init demo_env zero_arena 100 demo_image = (NOX_OK, a, m)"
    by (rule demo_init_cases)
  from arena_init_ok [OF i demo_kernel_ok] have "arena_is_valid a" "arena_mapped a"
    "mem_read (canary_pos a) NOX_CANARY_LEN m = ar_canary a" by (auto simp: arena_ok_def)
  with arena_destroy_wipes [of a m True] show ?thesis by blast
qed

end
