(* ===== verification/Nox_Wire.thy ===== *)
theory Nox_Wire
  imports Nox_Common
begin

text \<open>
  The wire layer of \<^verbatim>\<open>src/network.c\<close>: the 13-byte frame header and the read and write loops.
  The answers of the kernel are sequences that the loops consume; a loop that is still waiting
  when the sequence ends has not returned (\<open>None\<close>).
\<close>

section \<open>Frame header\<close>

definition NOX_MSG_TEXT :: byte where "NOX_MSG_TEXT = 1"
definition NOX_MSG_FILE :: byte where "NOX_MSG_FILE = 2"
definition NOX_MSG_ACK :: byte where "NOX_MSG_ACK = 3"
definition NOX_MSG_CTRL :: byte where "NOX_MSG_CTRL = 4"

lemmas msg_types = NOX_MSG_TEXT_def NOX_MSG_FILE_def NOX_MSG_ACK_def NOX_MSG_CTRL_def

record frame_header =
  fh_magic :: u32
  fh_type :: byte
  fh_seq :: u32
  fh_len :: u32

definition FRAME_HEADER_WIRE_SIZE :: nat where "FRAME_HEADER_WIRE_SIZE = 13"
definition FRAME_MAX_PAYLOAD :: u32 where "FRAME_MAX_PAYLOAD = 4112"

definition frame_header_encode :: "frame_header \<Rightarrow> bytes" where
  "frame_header_encode hdr =
     [ucast (drop_bit 24 (fh_magic hdr)), ucast (drop_bit 16 (fh_magic hdr)),
      ucast (drop_bit 8 (fh_magic hdr)), ucast (fh_magic hdr),
      fh_type hdr,
      ucast (drop_bit 24 (fh_seq hdr)), ucast (drop_bit 16 (fh_seq hdr)),
      ucast (drop_bit 8 (fh_seq hdr)), ucast (fh_seq hdr),
      ucast (drop_bit 24 (fh_len hdr)), ucast (drop_bit 16 (fh_len hdr)),
      ucast (drop_bit 8 (fh_len hdr)), ucast (fh_len hdr)]"

definition be32 :: "byte \<Rightarrow> byte \<Rightarrow> byte \<Rightarrow> byte \<Rightarrow> u32" where
  "be32 a b c d = push_bit 24 (ucast a) OR push_bit 16 (ucast b) OR push_bit 8 (ucast c) OR ucast d"

definition header_fields :: "bytes \<Rightarrow> frame_header" where
  "header_fields wire =
     \<lparr>fh_magic = be32 (wire ! 0) (wire ! 1) (wire ! 2) (wire ! 3), fh_type = wire ! 4,
      fh_seq = be32 (wire ! 5) (wire ! 6) (wire ! 7) (wire ! 8),
      fh_len = be32 (wire ! 9) (wire ! 10) (wire ! 11) (wire ! 12)\<rparr>"

definition frame_header_decode :: "bytes \<Rightarrow> nox_err_t \<times> frame_header" where
  "frame_header_decode wire =
     (let hdr = header_fields wire in
      if fh_magic hdr \<noteq> NOX_FRAME_MAGIC then (NOX_ERR_PROTO, hdr)
      else if fh_type hdr < NOX_MSG_TEXT \<or> fh_type hdr > NOX_MSG_CTRL then (NOX_ERR_PROTO, hdr)
      else if fh_len hdr > FRAME_MAX_PAYLOAD then (NOX_ERR_PROTO, hdr)
      else (NOX_OK, hdr))"

section \<open>The header is an exact codec\<close>

definition header_ok :: "frame_header \<Rightarrow> bool" where
  "header_ok h \<longleftrightarrow> fh_magic h = NOX_FRAME_MAGIC \<and> fh_type h \<in> {1, 2, 3, 4} \<and> fh_len h \<le> FRAME_MAX_PAYLOAD"

definition header_parse :: "bytes \<Rightarrow> frame_header option" where
  "header_parse w = (if length w = FRAME_HEADER_WIRE_SIZE \<and> fst (frame_header_decode w) = NOX_OK
     then Some (snd (frame_header_decode w)) else None)"

lemma length_frame_header_encode [simp, nox_len]: "length (frame_header_encode h) = 13"
  by (simp add: frame_header_encode_def)

lemma be32_split: "be32 (ucast (drop_bit 24 w)) (ucast (drop_bit 16 w)) (ucast (drop_bit 8 w)) (ucast w) = w"
proof (rule bit_word_eqI)
  fix n assume n: "n < LENGTH(32)"
  consider "n < 8" | "8 \<le> n" "n < 16" | "16 \<le> n" "n < 24" | "24 \<le> n" by linarith
  then show "bit (be32 (ucast (drop_bit 24 w)) (ucast (drop_bit 16 w)) (ucast (drop_bit 8 w)) (ucast w)) n = bit w n"
    using n by cases (auto simp: be32_def bit_or_iff bit_push_bit_iff bit_ucast_iff bit_drop_bit_eq)
qed

lemma be32_join:
  "ucast (drop_bit 24 (be32 a b c d)) = a" "ucast (drop_bit 16 (be32 a b c d)) = b"
  "ucast (drop_bit 8 (be32 a b c d)) = c" "ucast (be32 a b c d) = d"
  unfolding be32_def
  by (rule bit_word_eqI; auto simp: bit_or_iff bit_push_bit_iff bit_ucast_iff bit_drop_bit_eq
      dest: bit_imp_le_length)+

lemma msg_type_range: "\<not> ((t :: byte) < NOX_MSG_TEXT \<or> t > NOX_MSG_CTRL) \<longleftrightarrow> t \<in> {1, 2, 3, 4}"
  unfolding msg_types
  by (simp add: not_less word_le_nat_alt word_unat_eq_iff del: unat_1) arith

lemma bytes_13:
  assumes "length w = 13"
  shows "\<exists>a b c d e f g h i j k l m. w = [a, b, c, d, e, f, g, h, i, j, k, l, m]"
proof -
  have "length w = Suc (Suc (Suc (Suc (Suc (Suc (Suc (Suc (Suc (Suc (Suc (Suc (Suc 0))))))))))))"
    using assms by simp
  then show ?thesis unfolding length_Suc_conv by auto
qed

lemma snd_frame_header_decode [simp]: "snd (frame_header_decode w) = header_fields w"
  by (simp add: frame_header_decode_def Let_def)

lemma header_fields_encode [simp]: "header_fields (frame_header_encode h @ b) = h"
  by (simp add: header_fields_def frame_header_encode_def be32_split)

lemma frame_header_encode_fields:
  assumes "length w = 13"
  shows "frame_header_encode (header_fields w) = w"
proof -
  obtain a b c d e f g h i j k l m where "w = [a, b, c, d, e, f, g, h, i, j, k, l, m]"
    using bytes_13 [OF assms] by blast
  then show ?thesis by (simp add: header_fields_def frame_header_encode_def be32_join)
qed

lemma fst_frame_header_decode:
  "fst (frame_header_decode w) = (if header_ok (header_fields w) then NOX_OK else NOX_ERR_PROTO)"
  using msg_type_range [of "fh_type (header_fields w)"]
  by (simp only: frame_header_decode_def header_ok_def Let_def not_less) auto

lemma header_fields_encode' [simp]: "header_fields (frame_header_encode h) = h"
  using header_fields_encode [of h "[]"] by simp

interpretation frame_codec: exact_codec frame_header_encode header_parse header_ok
  by unfold_locales
     (auto simp: header_parse_def FRAME_HEADER_WIRE_SIZE_def fst_frame_header_decode
       frame_header_encode_fields split: if_splits)

section \<open>Read and write loops\<close>

text \<open>Answers of \<open>poll\<close> and of \<open>read\<close>/\<open>write\<close>. The time left until the deadline (in milliseconds)
  is part of the answers at which the code reads the clock.\<close>

datatype poll_ans = Poll_ready | Poll_timeout | Poll_intr | Poll_err

datatype write_ans = W_ok nat | W_intr | W_again int poll_ans | W_err

fun write_full :: "write_ans list \<Rightarrow> bytes \<Rightarrow> (nox_err_t \<times> bytes \<times> write_ans list) option" where
  "write_full ws [] = Some (NOX_OK, [], ws)"
| "write_full [] (x # xs) = None"
| "write_full (W_ok n # ws) (x # xs) =
     (if n = 0 then Some (NOX_ERR_IO, [], ws)
      else map_option (\<lambda>(e, out, ws'). (e, take n (x # xs) @ out, ws')) (write_full ws (drop n (x # xs))))"
| "write_full (W_intr # ws) (x # xs) = write_full ws (x # xs)"
| "write_full (W_again remaining_ms pret # ws) (x # xs) =
     (if remaining_ms \<le> 0 then Some (NOX_ERR_IO, [], ws)
      else case pret of
        Poll_err \<Rightarrow> Some (NOX_ERR_IO, [], ws)
      | Poll_timeout \<Rightarrow> Some (NOX_ERR_IO, [], ws)
      | _ \<Rightarrow> write_full ws (x # xs))"
| "write_full (W_err # ws) (x # xs) = Some (NOX_ERR_IO, [], ws)"

text \<open>One round of \<open>read_full\<close>: the time left, the answer of \<open>poll\<close> and, when it is ready, the
  answer of \<open>read\<close> (interrupted reads are retried at once and have no entry). A read of no bytes is
  the end of the stream, and a read yields at most what was asked for. The answers that are left
  belong to the next call.\<close>

datatype read_ans = R_data bytes | R_again | R_eof | R_err

type_synonym read_round = "int \<times> poll_ans \<times> read_ans"

fun read_full :: "read_round list \<Rightarrow> nat \<Rightarrow> (nox_err_t \<times> bytes \<times> read_round list) option" where
  "read_full rs 0 = Some (NOX_OK, [], rs)"
| "read_full [] (Suc n) = None"
| "read_full ((remaining_ms, ret, r) # rs) (Suc n) =
     (if remaining_ms \<le> 0 then Some (NOX_ERR_IO, [], rs)
      else case ret of
        Poll_intr \<Rightarrow> read_full rs (Suc n)
      | Poll_err \<Rightarrow> Some (NOX_ERR_IO, [], rs)
      | Poll_timeout \<Rightarrow> Some (NOX_ERR_IO, [], rs)
      | Poll_ready \<Rightarrow>
          (case r of
             R_again \<Rightarrow> read_full rs (Suc n)
           | R_err \<Rightarrow> Some (NOX_ERR_IO, [], rs)
           | R_eof \<Rightarrow> Some (NOX_ERR_IO, [], rs)
           | R_data d \<Rightarrow>
               if d = [] then Some (NOX_ERR_IO, [], rs)
               else map_option (\<lambda>(e, out, rs'). (e, take (Suc n) d @ out, rs'))
                      (read_full rs (Suc n - length (take (Suc n) d)))))"

lemma read_full_exact:
  "read_full rs n = Some (e, out, rs') \<Longrightarrow> length out \<le> n \<and> (e = NOX_OK \<longleftrightarrow> length out = n) \<and> (e = NOX_OK \<or> e = NOX_ERR_IO)"
proof (induction rs n arbitrary: out rule: read_full.induct)
  case (3 t ret r rs n)
  show ?case
  proof (cases "t > 0 \<and> ret = Poll_ready \<and> (\<exists>d. r = R_data d \<and> d \<noteq> [])")
    case True
    then obtain d where d: "t > 0" "ret = Poll_ready" "r = R_data d" "d \<noteq> []" by blast
    with "3.prems" obtain o1 where o: "read_full rs (Suc n - length (take (Suc n) d)) = Some (e, o1, rs')"
      "out = take (Suc n) d @ o1" by auto
    have "length o1 \<le> Suc n - length (take (Suc n) d) \<and> (e = NOX_OK \<longleftrightarrow> length o1 = Suc n - length (take (Suc n) d)) \<and>
        (e = NOX_OK \<or> e = NOX_ERR_IO)"
      using "3.IH"(1) [OF _ d(2,3,4) o(1)] d(1) by linarith
    then show ?thesis using o(2) by auto
  qed (use 3 in \<open>auto split: if_splits poll_ans.splits read_ans.splits\<close>)
qed auto

text \<open>A stream that delivers its bytes one by one.\<close>

definition drip :: "bytes \<Rightarrow> read_round list" where
  "drip bs = map (\<lambda>b. (1, Poll_ready, R_data [b])) bs"

lemma read_full_drip:
  "n \<le> length bs \<Longrightarrow> read_full (drip bs @ rs) n = Some (NOX_OK, take n bs, drip (drop n bs) @ rs)"
proof (induction bs arbitrary: n)
  case (Cons b bs)
  then show ?case by (cases n) (simp_all add: drip_def)
qed (simp add: drip_def)

lemma write_full_prefix:
  "write_full ws b = Some (e, out, ws') \<Longrightarrow> (\<exists>r. b = out @ r) \<and> (e = NOX_OK \<longleftrightarrow> out = b)"
proof (induction ws b arbitrary: out rule: write_full.induct)
  case (3 n ws x xs)
  show ?case
  proof (cases "n = 0")
    case False
    with "3.prems" obtain o1 where o: "write_full ws (drop n (x # xs)) = Some (e, o1, ws')"
      "out = take n (x # xs) @ o1" by auto
    from "3.IH" [OF False o(1)] obtain r where "drop n (x # xs) = o1 @ r"
      "e = NOX_OK \<longleftrightarrow> o1 = drop n (x # xs)" by blast
    with o(2) show ?thesis by (metis append.assoc append_take_drop_id same_append_eq)
  qed (use 3 in auto)
qed (auto split: if_splits poll_ans.splits)

section \<open>Properties\<close>

text \<open>The frame header is a canonical encoding: thirteen bytes are accepted by
  \<open>frame_header_decode\<close> exactly when they are the encoding of a header with the right magic, a known
  type and a payload length within the limit, and the header read is that header.\<close>

theorem frame_header_roundtrip:
  assumes "length w = FRAME_HEADER_WIRE_SIZE"
  shows "frame_header_decode w = (NOX_OK, h) \<longleftrightarrow> header_ok h \<and> w = frame_header_encode h"
proof -
  have "frame_header_decode w = (NOX_OK, h) \<longleftrightarrow> header_parse w = Some h"
    using assms by (auto simp: header_parse_def prod_eq_iff)
  then show ?thesis by (simp add: frame_codec.decode_iff)
qed

theorem frame_header_roundtrip_witness:
  "frame_header_decode [0xDE, 0xAD, 0xC0, 0xDE, 1, 0, 0, 0, 5, 0, 0, 0, 17] =
     (NOX_OK, \<lparr>fh_magic = 0xDEADC0DE, fh_type = 1, fh_seq = 5, fh_len = 17\<rparr>)"
  by (subst frame_header_roundtrip)
     (simp_all add: FRAME_HEADER_WIRE_SIZE_def header_ok_def frame_header_encode_def
       NOX_FRAME_MAGIC_def FRAME_MAX_PAYLOAD_def drop_bit_eq_div)

lemma write_full_returns:
  "length b \<le> length (filter (\<lambda>w. \<exists>n. w = W_ok n) ws) \<Longrightarrow> \<exists>r. write_full ws b = Some r"
proof (induction ws b rule: write_full.induct)
  case (3 n ws x xs)
  show ?case
  proof (cases "n = 0")
    case False
    then have "length (drop n (x # xs)) \<le> length xs" by simp
    with 3 False show ?thesis by (metis (mono_tags, lifting) write_full.simps(3) filter.simps(2)
       length_Cons le_trans not_less_eq_eq option.simps(9))
  qed simp
qed (auto split: poll_ans.splits)

text \<open>C19. \<open>write_full\<close> puts a prefix of the buffer on the wire whatever the kernel answers, all of it
  exactly when it reports success, and it returns as soon as the kernel has accepted as many writes
  as the buffer has bytes, however small they are and however many are interrupted.\<close>

theorem write_full_exact:
  "(\<forall>e out ws'. write_full ws b = Some (e, out, ws') \<longrightarrow> (\<exists>r. b = out @ r) \<and> (e = NOX_OK \<longleftrightarrow> out = b)) \<and>
   (length b \<le> length (filter (\<lambda>w. \<exists>n. w = W_ok n) ws) \<longrightarrow> (\<exists>r. write_full ws b = Some r))"
  using write_full_prefix [of ws b] write_full_returns [of b ws] by blast

theorem write_full_exact_witness:
  "write_full [W_ok 2, W_intr, W_again 5 Poll_ready, W_ok 1] [7, 8, 9] = Some (NOX_OK, [7, 8, 9], []) \<and>
   (\<exists>r. [7, 8, 9] = [7, 8, 9] @ (r :: bytes))"
  using write_full_exact [of "[W_ok 2, W_intr, W_again 5 Poll_ready, W_ok 1]" "[7, 8, 9]"] by simp

end
