(* ===== verification/Nox_Onion.thy ===== *)
theory Nox_Onion
  imports Nox_Common
begin

text \<open>
  Onion addresses: the v3 address check and the identity claim of \<^verbatim>\<open>src/crypto.c\<close>
  (\<open>onion_b32_decode\<close>, \<open>crypto_onion_pubkey\<close>, \<open>crypto_onion_sign\<close>, \<open>crypto_onion_verify\<close>), the
  checks of \<^verbatim>\<open>src/network.c\<close> and \<^verbatim>\<open>src/stdin_handler.c\<close> that use them. Addresses are C strings:
  byte lists without their terminating NUL. SHA3-256 and Ed25519 are parameters.
\<close>

section \<open>Parameters\<close>

text \<open>\<open>oc_sha3\<close> gives the 32-byte digest (\<open>None\<close>: the call failed), \<open>oc_seed_keypair\<close> the public and
  the secret key of a seed, \<open>oc_sign\<close> the detached signature of a message under a secret key and
  \<open>oc_verify sig msg pk\<close> whether verification succeeds.\<close>

record onion_crypto =
  oc_sha3 :: "bytes \<Rightarrow> bytes option"
  oc_seed_keypair :: "bytes \<Rightarrow> (bytes \<times> bytes) option"
  oc_sign :: "bytes \<Rightarrow> bytes \<Rightarrow> bytes option"
  oc_verify :: "bytes \<Rightarrow> bytes \<Rightarrow> bytes \<Rightarrow> bool"

section \<open>Base32\<close>

definition b32_char :: "byte \<Rightarrow> bool" where
  "b32_char c \<longleftrightarrow> (c \<ge> 97 \<and> c \<le> 122) \<or> (c \<ge> 50 \<and> c \<le> 55)"

definition b32_value :: "byte \<Rightarrow> u32 option" where
  "b32_value c =
     (if c \<ge> 97 \<and> c \<le> 122 then Some (ucast (c - 97))
      else if c \<ge> 50 \<and> c \<le> 55 then Some (26 + ucast (c - 50))
      else None)"

text \<open>The loop body: \<open>acc\<close> is a 32-bit accumulator, \<open>bits\<close> the number of bits pending in it.\<close>

fun b32_loop :: "bytes \<Rightarrow> u32 \<Rightarrow> nat \<Rightarrow> bytes \<Rightarrow> (nat \<times> bytes) option" where
  "b32_loop [] acc bits out = Some (bits, out)"
| "b32_loop (c # cs) acc bits out =
     (case b32_value c of None \<Rightarrow> None
      | Some v \<Rightarrow>
          let acc = push_bit 5 acc OR v; bits = bits + 5 in
          if bits \<ge> 8
          then let bits = bits - 8 in
               b32_loop cs acc bits (out @ [ucast (drop_bit bits acc AND 0xFF)])
          else b32_loop cs acc bits out)"

definition onion_b32_decode :: "bytes \<Rightarrow> nox_err_t \<times> bytes" where
  "onion_b32_decode s =
     (case b32_loop (take NOX_ONION_B32_LEN s) 0 0 [] of
        None \<Rightarrow> (NOX_ERR_CRYPTO, [])
      | Some (bits, out) \<Rightarrow>
          if bits \<noteq> 0 \<or> length out \<noteq> NOX_ONION_BODY_LEN then (NOX_ERR_CRYPTO, out) else (NOX_OK, out))"

section \<open>Addresses and claims\<close>

definition NOX_ONION_BIND_CTX :: bytes where "NOX_ONION_BIND_CTX = str_bytes ''noxtor-bind-v1''"
definition NOX_ONION_CKSUM_CTX :: bytes where "NOX_ONION_CKSUM_CTX = str_bytes ''.onion checksum''"
definition ONION_SUFFIX :: bytes where "ONION_SUFFIX = str_bytes ''.onion''"

definition onion_bind_msg :: "bytes \<Rightarrow> bytes \<Rightarrow> bytes" where
  "onion_bind_msg addr static_pub = NOX_ONION_BIND_CTX @ take NOX_ONION_LEN addr @ take NOX_KEY_LEN static_pub"

definition crypto_onion_pubkey :: "onion_crypto \<Rightarrow> bytes \<Rightarrow> nox_err_t \<times> bytes" where
  "crypto_onion_pubkey C addr =
     (if length addr \<noteq> NOX_ONION_LEN then (NOX_ERR_PROTO, [])
      else if drop NOX_ONION_B32_LEN addr \<noteq> ONION_SUFFIX then (NOX_ERR_PROTO, [])
      else if \<not> list_all b32_char (take NOX_ONION_B32_LEN addr) then (NOX_ERR_PROTO, [])
      else case onion_b32_decode addr of (err, body) \<Rightarrow>
        if err \<noteq> NOX_OK then (NOX_ERR_CRYPTO, [])
        else if body ! (NOX_ONION_BODY_LEN - 1) \<noteq> 3 then (NOX_ERR_PROTO, [])
        else let ck_in = NOX_ONION_CKSUM_CTX @ take NOX_KEY_LEN body @ [3] in
          case oc_sha3 C ck_in of
            None \<Rightarrow> (NOX_ERR_CRYPTO, [])
          | Some digest \<Rightarrow>
              if take 2 digest \<noteq> take 2 (drop NOX_KEY_LEN body) then (NOX_ERR_PROTO, [])
              else (NOX_OK, take NOX_KEY_LEN body))"

definition crypto_onion_sign :: "onion_crypto \<Rightarrow> bytes \<Rightarrow> bytes \<Rightarrow> bytes \<Rightarrow> nox_err_t \<times> bytes" where
  "crypto_onion_sign C addr static_pub onion_seed =
     (if length addr \<noteq> NOX_ONION_LEN then (NOX_ERR_PROTO, [])
      else case oc_seed_keypair C onion_seed of
        None \<Rightarrow> (NOX_ERR_CRYPTO, [])
      | Some (pk, sk) \<Rightarrow>
          (case oc_sign C (onion_bind_msg addr static_pub) sk of
             None \<Rightarrow> (NOX_ERR_CRYPTO, [])
           | Some sig \<Rightarrow> (NOX_OK, sig)))"

definition crypto_onion_verify :: "onion_crypto \<Rightarrow> bytes \<Rightarrow> bytes \<Rightarrow> bytes \<Rightarrow> nox_err_t" where
  "crypto_onion_verify C sig addr static_pub =
     (case crypto_onion_pubkey C addr of (err, pub) \<Rightarrow>
        if err \<noteq> NOX_OK then err
        else if oc_verify C sig (onion_bind_msg addr static_pub) pub then NOX_OK else NOX_ERR_AUTH)"

definition validate_onion_address :: "onion_crypto \<Rightarrow> bytes \<Rightarrow> bool" where
  "validate_onion_address C addr \<longleftrightarrow> fst (crypto_onion_pubkey C addr) = NOX_OK"

definition validate_onion_input :: "bytes \<Rightarrow> bool" where
  "validate_onion_input onion \<longleftrightarrow> length onion = NOX_ONION_LEN \<and>
     list_all b32_char (take 56 onion) \<and> drop 56 onion = ONION_SUFFIX"

section \<open>Base32 against positional notation\<close>

text \<open>The number a list of digits denotes, most significant digit first.\<close>

definition pos_val :: "nat \<Rightarrow> nat list \<Rightarrow> nat" where
  "pos_val b ds = foldl (\<lambda>n d. n * b + d) 0 ds"

definition b32_digit :: "byte \<Rightarrow> nat" where
  "b32_digit c = unat (the (b32_value c))"

lemma pos_val_snoc [simp]: "pos_val b (ds @ [d]) = pos_val b ds * b + d"
  by (simp add: pos_val_def)

lemma pos_val_Nil [simp]: "pos_val b [] = 0"
  by (simp add: pos_val_def)

lemma b32_value_Some: "b32_char c \<longleftrightarrow> b32_value c \<noteq> None"
  by (auto simp: b32_char_def b32_value_def)

lemma b32_value_digit:
  assumes "b32_value c = Some v"
  shows "unat v = (if c \<ge> 97 then unat c - 97 else unat c - 24)" "unat v < 32"
proof -
  have "unat v = (if c \<ge> 97 then unat c - 97 else unat c - 24) \<and> unat v < 32"
  proof (cases "97 \<le> c \<and> c \<le> 122")
    case True
    with assms have "v = ucast (c - 97)" by (simp add: b32_value_def)
    then have "unat v = unat c - 97"
      using True by (auto simp: unsigned_ucast_eq take_bit_nat_eq_self_iff unat_sub word_le_nat_alt)
    with True show ?thesis by (auto simp: word_le_nat_alt)
  next
    case False
    with assms have r: "50 \<le> c" "c \<le> 55" "v = 26 + ucast (c - 50)"
      by (auto simp: b32_value_def split: if_splits)
    have "unat (ucast (c - 50) :: u32) = unat c - 50"
      using r by (simp add: unsigned_ucast_eq take_bit_nat_eq_self_iff unat_sub word_le_nat_alt)
    moreover have "unat c \<le> 55" "50 \<le> unat c" using r by (simp_all add: word_le_nat_alt)
    ultimately have "unat v = unat c - 24" using r by (simp add: unat_plus_if')
    with r show ?thesis by (simp add: word_le_nat_alt)
  qed
  then show "unat v = (if c \<ge> 97 then unat c - 97 else unat c - 24)" "unat v < 32" by simp_all
qed

lemma acc_step:
  assumes v: "unat (v :: u32) < 32" and b: "b \<le> 27"
  shows "unat (push_bit 5 acc OR v :: u32) mod 2 ^ (b + 5) = unat acc mod 2 ^ b * 32 + unat v"
proof -
  have vb: "n < 5" if "bit v n" for n
  proof (rule ccontr)
    assume "\<not> n < 5"
    have "take_bit 5 (unat v) = unat v" using v by (simp add: take_bit_nat_eq_self)
    then have "bit (unat v) n \<Longrightarrow> n < 5" by (metis bit_take_bit_iff)
    with that \<open>\<not> n < 5\<close> show False by (simp add: bit_unsigned_iff)
  qed
  have "take_bit (b + 5) (unat (push_bit 5 acc OR v)) = push_bit 5 (take_bit b (unat acc)) OR unat v"
  proof (rule bit_eqI)
    fix n
    show "bit (take_bit (b + 5) (unat (push_bit 5 acc OR v))) n = bit (push_bit 5 (take_bit b (unat acc)) OR unat v) n"
      using vb [of n] b
      by (auto simp: bit_take_bit_iff bit_unsigned_iff bit_or_iff bit_push_bit_iff dest: bit_imp_le_length)
  qed
  also have "\<dots> = push_bit 5 (take_bit b (unat acc)) + unat v"
    using vb by (intro disjunctive_add_eq_or [symmetric])
       (fastforce intro: bit_eqI dest: vb simp: bit_and_iff bit_push_bit_iff bit_unsigned_iff)
  finally show ?thesis by (simp add: take_bit_eq_mod push_bit_eq_mult)
qed
lemma out_byte: "unat (ucast (drop_bit k (acc :: u32) AND 0xFF) :: byte) = unat acc div 2 ^ k mod 256"
proof -
  have "drop_bit k acc AND 0xFF = take_bit 8 (drop_bit k acc)"
    by (simp add: take_bit_eq_mask mask_eq_exp_minus_1)
  then have "unat (ucast (drop_bit k acc AND 0xFF) :: byte) = take_bit 8 (unat (drop_bit k acc))"
    by (simp add: unsigned_ucast_eq unsigned_take_bit_eq)
  also have "\<dots> = take_bit 8 (drop_bit k (unat acc))"
    using unsigned_less [where 'a = nat and w = acc]
    by (subst unsigned_drop_bit_eq) (simp only: take_bit_nat_eq_self)
  finally show ?thesis by (simp add: take_bit_eq_mod drop_bit_eq_div)
qed

lemma mod_split: "(n :: nat) mod 2 ^ (k + 8) = n div 2 ^ k mod 256 * 2 ^ k + n mod 2 ^ k"
  using mod_mult2_eq [of n "2 ^ k" 256] by (simp add: power_add mult.commute)

text \<open>The loop keeps the number denoted by the digits read so far: the bytes already written,
  followed by the pending bits of the accumulator.\<close>

definition b32_state :: "u32 \<Rightarrow> nat \<Rightarrow> bytes \<Rightarrow> nat" where
  "b32_state acc bits out = pos_val 256 (map unat out) * 2 ^ bits + unat acc mod 2 ^ bits"

lemma b32_state_emit: "b32_state a k (out @ [ucast (drop_bit k a AND 0xFF)]) = b32_state a (k + 8) out"
  using mod_split [of "unat a" k] by (simp add: b32_state_def out_byte power_add algebra_simps)

lemma b32_loop_value:
  "list_all b32_char cs \<Longrightarrow> bits < 8 \<Longrightarrow>
     \<exists>acc' bits' out'. b32_loop cs acc bits out = Some (bits', out') \<and> bits' < 8 \<and>
       8 * length out' + bits' = 8 * length out + bits + 5 * length cs \<and>
       b32_state acc' bits' out' = foldl (\<lambda>n d. n * 32 + d) (b32_state acc bits out) (map b32_digit cs)"
proof (induction cs arbitrary: acc bits out)
  case Nil
  then show ?case by auto
next
  case (Cons c cs)
  then obtain v where v: "b32_value c = Some v" by (auto simp: b32_value_Some)
  let ?acc = "push_bit 5 acc OR v"
  have st: "unat ?acc mod 2 ^ (bits + 5) = unat acc mod 2 ^ bits * 32 + unat v"
    using Cons.prems b32_value_digit(2) [OF v] by (intro acc_step) auto
  have val: "b32_state ?acc (bits + 5) out = b32_state acc bits out * 32 + b32_digit c"
    using st v by (simp add: b32_state_def b32_digit_def power_add algebra_simps)
  show ?case
  proof (cases "bits + 5 \<ge> 8")
    case True
    define k where "k = bits + 5 - 8"
    let ?o = "out @ [ucast (drop_bit k ?acc AND 0xFF)]"
    have k: "bits + 5 = k + 8" "k < 8" using True Cons.prems by (auto simp: k_def)
    have "b32_state ?acc k ?o = b32_state ?acc (bits + 5) out"
      unfolding k(1) by (rule b32_state_emit)
    with Cons.IH [of k ?acc ?o] Cons.prems v k True val show ?thesis
      by (auto simp: Let_def k_def [symmetric])
  next
    case False
    with Cons.IH [of "bits + 5" ?acc out] Cons.prems v val show ?thesis by (auto simp: Let_def)
  qed
qed

text \<open>Every 56-character string over the alphabet decodes, to the 35 bytes that denote the same
  number.\<close>

lemma onion_b32_decode_value:
  assumes "list_all b32_char (take NOX_ONION_B32_LEN s)" "NOX_ONION_B32_LEN \<le> length s"
  shows "\<exists>body. onion_b32_decode s = (NOX_OK, body) \<and> length body = NOX_ONION_BODY_LEN \<and>
    pos_val 256 (map unat body) = pos_val 32 (map b32_digit (take NOX_ONION_B32_LEN s))"
proof -
  obtain acc' bits' out' where l: "b32_loop (take NOX_ONION_B32_LEN s) 0 0 [] = Some (bits', out')"
    "bits' < 8" "8 * length out' + bits' = 280"
    "b32_state acc' bits' out' = pos_val 32 (map b32_digit (take NOX_ONION_B32_LEN s))"
    using b32_loop_value [OF assms(1), of 0 0 "[]"] assms(2)
    by (auto simp: NOX_ONION_B32_LEN_def b32_state_def pos_val_def)
  then have "bits' = 0" "length out' = 35" by presburger+
  with l show ?thesis
    by (simp add: onion_b32_decode_def b32_state_def NOX_ONION_BODY_LEN_def)
qed

section \<open>Addresses are canonical\<close>

lemma pos_val_inj:
  assumes "length xs = length ys" "\<forall>x \<in> set xs. x < b" "\<forall>y \<in> set ys. y < b" "pos_val b xs = pos_val b ys"
  shows "xs = ys"
  using assms
proof (induction xs arbitrary: ys rule: rev_induct)
  case Nil
  then show ?case by simp
next
  case (snoc x xs)
  then obtain ys1 y where ys: "ys = ys1 @ [y]" by (cases ys rule: rev_cases) auto
  have d: "x < b" "y < b" using snoc.prems ys by auto
  have e: "pos_val b xs * b + x = pos_val b ys1 * b + y" using snoc.prems(4) ys by simp
  have "x = y" using arg_cong [OF e, of "\<lambda>n. n mod b"] d by simp
  moreover have "pos_val b xs = pos_val b ys1" using arg_cong [OF e, of "\<lambda>n. n div b"] d by simp
  ultimately show ?case using snoc.IH [of ys1] snoc.prems ys by simp
qed

lemma b32_digit_less: "b32_char c \<Longrightarrow> b32_digit c < 32"
  using b32_value_digit(2) by (auto simp: b32_value_Some b32_digit_def)

lemma b32_digit_inj: "b32_char c \<Longrightarrow> b32_char d \<Longrightarrow> b32_digit c = b32_digit d \<Longrightarrow> c = d"
proof -
  assume a: "b32_char c" "b32_char d" "b32_digit c = b32_digit d"
  then obtain v w where v: "b32_value c = Some v" "b32_value d = Some w" by (auto simp: b32_value_Some)
  from a(1,2) have "(97 \<le> unat c \<and> unat c \<le> 122) \<or> (50 \<le> unat c \<and> unat c \<le> 55)"
    "(97 \<le> unat d \<and> unat d \<le> 122) \<or> (50 \<le> unat d \<and> unat d \<le> 55)"
    by (auto simp: b32_char_def word_le_nat_alt)
  with a(3) v b32_value_digit(1) [OF v(1)] b32_value_digit(1) [OF v(2)] have "unat c = unat d"
    by (auto simp: b32_digit_def word_le_nat_alt split: if_splits)
  then show "c = d" by (simp add: word_unat_eq_iff)
qed

lemma map_digit_inj:
  "list_all b32_char s \<Longrightarrow> list_all b32_char t \<Longrightarrow> map b32_digit s = map b32_digit t \<Longrightarrow> s = t"
  by (rule map_inj_on [of b32_digit]) (auto simp: inj_on_def list_all_iff intro: b32_digit_inj)

text \<open>What a successful \<open>crypto_onion_pubkey\<close> tells of an address.\<close>

lemma crypto_onion_pubkey_OK:
  assumes "crypto_onion_pubkey C addr = (NOX_OK, pub)"
  obtains body digest where "length addr = NOX_ONION_LEN" "drop NOX_ONION_B32_LEN addr = ONION_SUFFIX"
    "list_all b32_char (take NOX_ONION_B32_LEN addr)" "onion_b32_decode addr = (NOX_OK, body)"
    "oc_sha3 C (NOX_ONION_CKSUM_CTX @ pub @ [3]) = Some digest"
    "length body = NOX_ONION_BODY_LEN" "body = pub @ take 2 digest @ [3]"
    "pos_val 256 (map unat body) = pos_val 32 (map b32_digit (take NOX_ONION_B32_LEN addr))"
proof -
  from assms obtain body digest where
    a: "length addr = NOX_ONION_LEN" "drop NOX_ONION_B32_LEN addr = ONION_SUFFIX"
      "list_all b32_char (take NOX_ONION_B32_LEN addr)" "onion_b32_decode addr = (NOX_OK, body)"
    and b: "body ! 34 = 3" "pub = take 32 body" "take 2 digest = take 2 (drop 32 body)"
    and d: "oc_sha3 C (NOX_ONION_CKSUM_CTX @ pub @ [3]) = Some digest"
    by (auto simp: crypto_onion_pubkey_def Let_def NOX_ONION_BODY_LEN_def NOX_KEY_LEN_def
        split: if_splits prod.splits option.splits)
  have len: "length body = NOX_ONION_BODY_LEN \<and>
      pos_val 256 (map unat body) = pos_val 32 (map b32_digit (take NOX_ONION_B32_LEN addr))"
    using onion_b32_decode_value [OF a(3)] a(1,4) by (auto simp: NOX_ONION_LEN_def NOX_ONION_B32_LEN_def)
  then have l: "length body = 35" by (simp add: NOX_ONION_BODY_LEN_def)
  have "body = take 32 body @ take 2 (drop 32 body) @ drop 2 (drop 32 body)"
    by (simp only: append_take_drop_id)
  moreover have "drop 2 (drop 32 body) = [3]"
    using l b(1) Cons_nth_drop_Suc [of 34 body] by simp
  ultimately have "body = pub @ take 2 digest @ [3]" using b(2,3) by simp
  with that [OF a d] len show ?thesis by blast
qed

section \<open>Properties\<close>

text \<open>A concrete instance of the parameters: a constant digest, and signatures that carry the key
  and the message.\<close>

definition toy_onion :: onion_crypto where
  "toy_onion = \<lparr>oc_sha3 = (\<lambda>_. Some (zeros 32)), oc_seed_keypair = (\<lambda>s. Some (s, s)),
     oc_sign = (\<lambda>m k. Some (take 64 (k @ m @ zeros 64))),
     oc_verify = (\<lambda>sig m k. sig = take 64 (k @ m @ zeros 64))\<rparr>"

definition demo_addr :: bytes where
  "demo_addr = replicate 55 97 @ [100] @ ONION_SUFFIX"

lemma demo_addr_pubkey: "crypto_onion_pubkey toy_onion demo_addr = (NOX_OK, zeros 32)"
  by code_simp

lemma length_demo_addr: "length demo_addr = NOX_ONION_LEN"
  by code_simp

text \<open>An onion address is the canonical encoding of its public key: two strings that
  \<open>crypto_onion_pubkey\<close> accepts (length, suffix, alphabet, version, checksum) with the same public
  key are the same string, so a peer has one address under which contacts are stored.\<close>

theorem onion_address_canonical:
  assumes a: "crypto_onion_pubkey C a = (NOX_OK, pub)" and b: "crypto_onion_pubkey C b = (NOX_OK, pub)"
  shows "a = b"
proof (rule crypto_onion_pubkey_OK [OF a], rule crypto_onion_pubkey_OK [OF b])
  fix body digest body' digest'
  assume A: "length a = NOX_ONION_LEN" "drop NOX_ONION_B32_LEN a = ONION_SUFFIX"
      "list_all b32_char (take NOX_ONION_B32_LEN a)"
      "oc_sha3 C (NOX_ONION_CKSUM_CTX @ pub @ [3]) = Some digest" "body = pub @ take 2 digest @ [3]"
      "pos_val 256 (map unat body) = pos_val 32 (map b32_digit (take NOX_ONION_B32_LEN a))"
    and B: "length b = NOX_ONION_LEN" "drop NOX_ONION_B32_LEN b = ONION_SUFFIX"
      "list_all b32_char (take NOX_ONION_B32_LEN b)"
      "oc_sha3 C (NOX_ONION_CKSUM_CTX @ pub @ [3]) = Some digest'" "body' = pub @ take 2 digest' @ [3]"
      "pos_val 256 (map unat body') = pos_val 32 (map b32_digit (take NOX_ONION_B32_LEN b))"
  have "map b32_digit (take NOX_ONION_B32_LEN a) = map b32_digit (take NOX_ONION_B32_LEN b)"
    using A(1,3,4-6) B(1,3,4-6)
    by (intro pos_val_inj [of _ _ 32]) (auto simp: list_all_iff b32_digit_less)
  then have "take NOX_ONION_B32_LEN a = take NOX_ONION_B32_LEN b"
    by (rule map_digit_inj [OF A(3) B(3)])
  then show "a = b" using A(2) B(2) by (metis append_take_drop_id)
qed

theorem onion_address_canonical_witness:
  "str_bytes (replicate 55 CHR ''a'' @ ''d.onion'') = demo_addr"
proof (rule onion_address_canonical [OF _ demo_addr_pubkey])
  show "crypto_onion_pubkey toy_onion (str_bytes (replicate 55 CHR ''a'' @ ''d.onion'')) = (NOX_OK, zeros 32)"
    by code_simp
qed

text \<open>What Ed25519 guarantees of its own signatures.\<close>

definition ed25519_ok :: "onion_crypto \<Rightarrow> bool" where
  "ed25519_ok C \<longleftrightarrow> (\<forall>seed pk sk msg sig.
     oc_seed_keypair C seed = Some (pk, sk) \<and> oc_sign C msg sk = Some sig \<longrightarrow> oc_verify C sig msg pk)"

lemma onion_bind_msg_inj:
  assumes "length a = NOX_ONION_LEN" "length b = NOX_ONION_LEN" "length k = NOX_KEY_LEN" "length l = NOX_KEY_LEN"
    and "onion_bind_msg a k = onion_bind_msg b l"
  shows "a = b \<and> k = l"
  using assms by (simp add: onion_bind_msg_def)

text \<open>C20. The identity claim of the handshake: a claim made with the seed behind an address verifies
  for that address, and a claim that verifies was checked, under the key that the address itself
  encodes, over a message that no other pair of address and static key has.\<close>

theorem onion_claim_bound:
  assumes ok: "ed25519_ok C" and len: "length sp = NOX_KEY_LEN"
  shows "(\<forall>seed pk sk sig. oc_seed_keypair C seed = Some (pk, sk) \<and> crypto_onion_pubkey C addr = (NOX_OK, pk) \<and>
      crypto_onion_sign C addr sp seed = (NOX_OK, sig) \<longrightarrow> crypto_onion_verify C sig addr sp = NOX_OK) \<and>
    (\<forall>sig. crypto_onion_verify C sig addr sp = NOX_OK \<longrightarrow>
      (\<exists>pub msg. crypto_onion_pubkey C addr = (NOX_OK, pub) \<and> oc_verify C sig msg pub \<and>
        (\<forall>b k. length b = NOX_ONION_LEN \<and> length k = NOX_KEY_LEN \<longrightarrow>
           (onion_bind_msg b k = msg \<longleftrightarrow> b = addr \<and> k = sp))))"
proof (intro conjI allI impI)
  fix seed pk sk sig
  assume "oc_seed_keypair C seed = Some (pk, sk) \<and> crypto_onion_pubkey C addr = (NOX_OK, pk) \<and>
      crypto_onion_sign C addr sp seed = (NOX_OK, sig)"
  with ok show "crypto_onion_verify C sig addr sp = NOX_OK"
    by (auto simp: crypto_onion_verify_def crypto_onion_sign_def ed25519_ok_def
        split: if_splits option.splits)
next
  fix sig assume v: "crypto_onion_verify C sig addr sp = NOX_OK"
  then obtain pub where p: "crypto_onion_pubkey C addr = (NOX_OK, pub)"
    and s: "oc_verify C sig (onion_bind_msg addr sp) pub"
    by (auto simp: crypto_onion_verify_def split: prod.splits if_splits)
  have "length addr = NOX_ONION_LEN" using p by (rule crypto_onion_pubkey_OK)
  then have "\<forall>b k. length b = NOX_ONION_LEN \<and> length k = NOX_KEY_LEN \<longrightarrow>
      (onion_bind_msg b k = onion_bind_msg addr sp \<longleftrightarrow> b = addr \<and> k = sp)"
    using onion_bind_msg_inj len by blast
  with p s show "\<exists>pub msg. crypto_onion_pubkey C addr = (NOX_OK, pub) \<and> oc_verify C sig msg pub \<and>
        (\<forall>b k. length b = NOX_ONION_LEN \<and> length k = NOX_KEY_LEN \<longrightarrow>
           (onion_bind_msg b k = msg \<longleftrightarrow> b = addr \<and> k = sp))" by blast
qed

theorem onion_claim_bound_witness:
  "crypto_onion_verify toy_onion (take 64 (zeros 32 @ onion_bind_msg demo_addr (replicate 32 9) @ zeros 64))
     demo_addr (replicate 32 9) = NOX_OK"
proof -
  have "ed25519_ok toy_onion" by (auto simp: ed25519_ok_def toy_onion_def)
  from onion_claim_bound [OF this, of "replicate 32 9" demo_addr] demo_addr_pubkey length_demo_addr
  show ?thesis
    by (auto simp: crypto_onion_sign_def NOX_KEY_LEN_def toy_onion_def)
qed

end
