(* ===== verification/Nox_Database.thy ===== *)
theory Nox_Database
  imports Nox_Common
begin

text \<open>
  \<^verbatim>\<open>src/database.c\<close>: encrypted contacts, the outgoing queue and the message history. SQLite is a
  parameter that answers one statement at a time on the tables of the three \<open>CREATE TABLE\<close>
  statements; it may fail when the statement is prepared, when a value is bound or when it is
  stepped. The secretbox and the keyed hash of libsodium are parameters. The mutex only
  serialises the operations and is not part of the model; random nonces are arguments.
\<close>

section \<open>Parameters\<close>

text \<open>A statement with the values bound to it; the SQL text is the one of the function named in the
  comment of each constructor below.\<close>

datatype sql =
    Sql_replace_contact bytes bytes bytes
  | Sql_select_contact bytes
  | Sql_select_contacts
  | Sql_insert_queue bytes bytes bytes
  | Sql_select_queue bytes
  | Sql_delete_queue int
  | Sql_rollback_queue bytes nat
  | Sql_insert_message bytes bytes bytes int bool
  | Sql_select_history bytes nat
  | Sql_delete_messages bytes

record sql_row =
  row_id :: int
  row_nonce :: bytes
  row_cipher :: bytes
  row_time :: int
  row_out :: bool

datatype sql_answer = Prepare_failed | Bind_failed | Step_failed | Done "sql_row list"

record db_tables =
  tb_contacts :: "(bytes \<times> bytes \<times> bytes) list"
  tb_queue :: "(int \<times> bytes \<times> bytes \<times> bytes) list"
  tb_messages :: "(int \<times> bytes \<times> bytes \<times> bytes \<times> int \<times> bool) list"
  tb_next_id :: int

type_synonym sqlite = "db_tables \<Rightarrow> sql \<Rightarrow> sql_answer \<times> db_tables"

record box_crypto =
  bx_hash :: "bytes \<Rightarrow> bytes \<Rightarrow> bytes option"
  bx_seal :: "bytes \<Rightarrow> bytes \<Rightarrow> bytes \<Rightarrow> bytes option"
  bx_open :: "bytes \<Rightarrow> bytes \<Rightarrow> bytes \<Rightarrow> bytes option"

section \<open>State\<close>

record nox_db =
  db_key :: "bytes option"
  db_ready :: bool
  db_data :: db_tables

definition secretbox_MACBYTES :: nat where "secretbox_MACBYTES = 16"
definition DB_MAX_MSG_LEN :: nat where "DB_MAX_MSG_LEN = 4095"
definition QUEUE_BATCH_LIMIT :: nat where "QUEUE_BATCH_LIMIT = 256"

text \<open>A C string in a buffer: the bytes before the first NUL.\<close>

definition c_str :: "bytes \<Rightarrow> bytes" where
  "c_str b = takeWhile (\<lambda>x. x \<noteq> 0) b"

definition pad_to :: "nat \<Rightarrow> bytes \<Rightarrow> bytes" where
  "pad_to n b = take n b @ zeros (n - length b)"

section \<open>Helpers\<close>

definition hash_onion :: "box_crypto \<Rightarrow> nox_db \<Rightarrow> bytes \<Rightarrow> nox_err_t \<times> bytes" where
  "hash_onion B d onion =
     (case db_key d of None \<Rightarrow> (NOX_ERR_CRYPTO, zeros 32)
      | Some k \<Rightarrow>
          if length onion \<noteq> NOX_ONION_LEN then (NOX_ERR_CRYPTO, zeros 32)
          else case bx_hash B onion k of None \<Rightarrow> (NOX_ERR_CRYPTO, zeros 32) | Some h \<Rightarrow> (NOX_OK, h))"

definition encrypt_payload :: "box_crypto \<Rightarrow> nox_db \<Rightarrow> bytes \<Rightarrow> bytes \<Rightarrow> nat \<Rightarrow> nox_err_t \<times> bytes" where
  "encrypt_payload B d plain nonce cipher_len =
     (if cipher_len < length plain + secretbox_MACBYTES then (NOX_ERR_OVERFLOW, [])
      else case db_key d of None \<Rightarrow> (NOX_ERR_CRYPTO, [])
      | Some k \<Rightarrow> (case bx_seal B plain nonce k of None \<Rightarrow> (NOX_ERR_CRYPTO, []) | Some c \<Rightarrow> (NOX_OK, c)))"

definition decrypt_payload :: "box_crypto \<Rightarrow> nox_db \<Rightarrow> bytes \<Rightarrow> bytes \<Rightarrow> nat \<Rightarrow> nox_err_t \<times> bytes" where
  "decrypt_payload B d cipher nonce plain_len =
     (if length cipher < secretbox_MACBYTES then (NOX_ERR_AUTH, [])
      else if plain_len < length cipher - secretbox_MACBYTES then (NOX_ERR_OVERFLOW, [])
      else case db_key d of None \<Rightarrow> (NOX_ERR_AUTH, [])
      | Some k \<Rightarrow> (case bx_open B cipher nonce k of None \<Rightarrow> (NOX_ERR_AUTH, []) | Some p \<Rightarrow> (NOX_OK, p)))"

definition db_decrypt_row :: "box_crypto \<Rightarrow> nox_db \<Rightarrow> sql_row \<Rightarrow> nat \<Rightarrow> nox_err_t \<times> bytes" where
  "db_decrypt_row B d r plain_size =
     (if length (row_nonce r) \<noteq> NOX_NONCE_LEN \<or> row_cipher r = [] then (NOX_ERR_AUTH, [])
      else decrypt_payload B d (row_cipher r) (row_nonce r) plain_size)"

definition db_queue_delete :: "sqlite \<Rightarrow> nox_db \<Rightarrow> int \<Rightarrow> nox_db" where
  "db_queue_delete Q d i =
     (if \<not> db_ready d then d else d\<lparr>db_data := snd (Q (db_data d) (Sql_delete_queue i))\<rparr>)"

definition db_close :: "nox_db \<Rightarrow> nox_db" where
  "db_close d = d\<lparr>db_key := None, db_ready := False\<rparr>"

section \<open>Contacts\<close>

definition CONTACT_PAYLOAD_LEN :: nat where "CONTACT_PAYLOAD_LEN = 160"

definition contact_payload :: "bytes \<Rightarrow> bytes \<Rightarrow> bytes \<Rightarrow> bytes" where
  "contact_payload onion name noise_key =
     pad_to (NOX_ONION_LEN + 1) onion @ pad_to (NOX_CONTACT_NAME_LEN + 1) name @ pad_to NOX_KEY_LEN noise_key"

definition cp_onion :: "bytes \<Rightarrow> bytes" where "cp_onion p = c_str (take 63 p)"
definition cp_name :: "bytes \<Rightarrow> bytes" where "cp_name p = c_str (take 65 (drop 63 p))"
definition cp_key :: "bytes \<Rightarrow> bytes" where "cp_key p = take 32 (drop 128 p)"

text \<open>The fields of a \<open>struct contact_payload\<close> that was zeroed before the plaintext was written over it.\<close>

definition contact_fields :: "bytes \<Rightarrow> bytes \<times> bytes \<times> bytes" where
  "contact_fields p = (let cp = pad_to CONTACT_PAYLOAD_LEN p in (cp_onion cp, cp_name cp, cp_key cp))"

text \<open>A statement that fails in a \<open>sqlite3_bind\<close> call leaves the function through
  \<open>DB_BIND_CHECK\<close>, which jumps to the cleanup with \<open>err\<close> as it stands.\<close>

definition db_add_contact ::
    "box_crypto \<Rightarrow> sqlite \<Rightarrow> bytes \<Rightarrow> nox_db \<Rightarrow> bytes \<Rightarrow> bytes \<Rightarrow> bytes \<Rightarrow> nox_err_t \<times> nox_db" where
  "db_add_contact B Q nonce d onion name noise_key =
     (if \<not> db_ready d then (NOX_ERR_STATE, d)
      else if length onion \<noteq> NOX_ONION_LEN \<or> length name > NOX_CONTACT_NAME_LEN then (NOX_ERR_DB, d)
      else case encrypt_payload B d (contact_payload onion name noise_key) nonce
                  (CONTACT_PAYLOAD_LEN + secretbox_MACBYTES) of (err, cipher) \<Rightarrow>
      if err \<noteq> NOX_OK then (err, d)
      else case hash_onion B d onion of (err, h) \<Rightarrow>
      if err \<noteq> NOX_OK then (err, d)
      else case Q (db_data d) (Sql_replace_contact h nonce cipher) of
        (Prepare_failed, t) \<Rightarrow> (NOX_ERR_DB, d\<lparr>db_data := t\<rparr>)
      | (Bind_failed, t) \<Rightarrow> (err, d\<lparr>db_data := t\<rparr>)
      | (Step_failed, t) \<Rightarrow> (NOX_ERR_DB, d\<lparr>db_data := t\<rparr>)
      | (Done _, t) \<Rightarrow> (NOX_OK, d\<lparr>db_data := t\<rparr>))"

definition db_get_contact ::
    "box_crypto \<Rightarrow> sqlite \<Rightarrow> nox_db \<Rightarrow> bytes \<Rightarrow> nat \<Rightarrow> nox_err_t \<times> bytes \<times> bytes" where
  "db_get_contact B Q d onion name_len =
     (if \<not> db_ready d then (NOX_ERR_STATE, [], [])
      else if name_len = 0 then (NOX_ERR_DB, [], [])
      else case hash_onion B d onion of (err, h) \<Rightarrow>
      if err \<noteq> NOX_OK then (err, [], [])
      else case fst (Q (db_data d) (Sql_select_contact h)) of
        Done (r # _) \<Rightarrow>
          (case db_decrypt_row B d r CONTACT_PAYLOAD_LEN of (err, p) \<Rightarrow>
             if err \<noteq> NOX_OK then (err, [], [])
             else if length p \<noteq> CONTACT_PAYLOAD_LEN then (NOX_ERR_DB, [], [])
             else (NOX_OK, take (name_len - 1) (cp_name p), cp_key p))
      | _ \<Rightarrow> (NOX_ERR_DB, [], []))"

text \<open>The visitor is called once for each row that decrypts; the model gives the list of calls.\<close>

definition db_list_contacts ::
    "box_crypto \<Rightarrow> sqlite \<Rightarrow> nox_db \<Rightarrow> nox_err_t \<times> (bytes \<times> bytes \<times> bytes) list" where
  "db_list_contacts B Q d =
     (if \<not> db_ready d then (NOX_ERR_STATE, [])
      else case fst (Q (db_data d) Sql_select_contacts) of
        Prepare_failed \<Rightarrow> (NOX_ERR_DB, [])
      | Done rows \<Rightarrow>
          (NOX_OK, [contact_fields p. r \<leftarrow> rows,
             (err, p) \<leftarrow> [db_decrypt_row B d r CONTACT_PAYLOAD_LEN], err = NOX_OK])
      | _ \<Rightarrow> (NOX_OK, []))"

section \<open>Queue\<close>

definition db_queue_message ::
    "box_crypto \<Rightarrow> sqlite \<Rightarrow> bytes \<Rightarrow> heap_answers \<Rightarrow> nox_db \<Rightarrow> bytes \<Rightarrow> bytes \<Rightarrow>
       nox_err_t \<times> nox_db \<times> heap_answers" where
  "db_queue_message B Q nonce al d onion txt =
     (if \<not> db_ready d then (NOX_ERR_STATE, d, al)
      else if length txt > DB_MAX_MSG_LEN then (NOX_ERR_DB, d, al)
      else case sodium_malloc al of (ok, al) \<Rightarrow>
      if \<not> ok then (NOX_ERR_ALLOC, d, al)
      else case encrypt_payload B d (txt @ [0]) nonce (length txt + 1 + secretbox_MACBYTES) of (err, cipher) \<Rightarrow>
      if err \<noteq> NOX_OK then (err, d, al)
      else case hash_onion B d onion of (err, h) \<Rightarrow>
      if err \<noteq> NOX_OK then (err, d, al)
      else case Q (db_data d) (Sql_insert_queue h nonce cipher) of
        (Done _, t) \<Rightarrow> (NOX_OK, d\<lparr>db_data := t\<rparr>, al)
      | (_, t) \<Rightarrow> (NOX_ERR_DB, d\<lparr>db_data := t\<rparr>, al))"

definition db_queue_rollback_last ::
    "box_crypto \<Rightarrow> sqlite \<Rightarrow> nox_db \<Rightarrow> bytes \<Rightarrow> nat \<Rightarrow> nox_err_t \<times> nox_db" where
  "db_queue_rollback_last B Q d onion cnt =
     (if cnt = 0 then (NOX_ERR_DB, d)
      else if \<not> db_ready d then (NOX_ERR_STATE, d)
      else case hash_onion B d onion of (err, h) \<Rightarrow>
      if err \<noteq> NOX_OK then (err, d)
      else case Q (db_data d) (Sql_rollback_queue h cnt) of
        (Done _, t) \<Rightarrow> (NOX_OK, d\<lparr>db_data := t\<rparr>)
      | (_, t) \<Rightarrow> (NOX_ERR_DB, d\<lparr>db_data := t\<rparr>))"

text \<open>The rows read into the batch: at most 256, rows of a wrong shape are skipped; \<open>None\<close> when a
  buffer cannot be allocated.\<close>

fun queue_batch :: "sql_row list \<Rightarrow> nat \<Rightarrow> heap_answers \<Rightarrow> sql_row list option \<times> heap_answers" where
  "queue_batch [] n al = (Some [], al)"
| "queue_batch (r # rs) n al =
     (if n \<ge> QUEUE_BATCH_LIMIT then (Some [], al)
      else if length (row_nonce r) \<noteq> NOX_NONCE_LEN then queue_batch rs n al
      else if length (row_cipher r) \<le> secretbox_MACBYTES \<or> length (row_cipher r) > 4096 + secretbox_MACBYTES
           then queue_batch rs n al
      else case sodium_malloc al of (ok, al) \<Rightarrow>
        if \<not> ok then (None, al)
        else case queue_batch rs (n + 1) al of (b, al) \<Rightarrow> (map_option (Cons r) b, al))"

text \<open>The sending loop. The callback works on a state of the caller.\<close>

fun queue_send ::
    "box_crypto \<Rightarrow> sqlite \<Rightarrow> (bytes \<Rightarrow> 's \<Rightarrow> nox_err_t \<times> 's) \<Rightarrow> sql_row list \<Rightarrow> heap_answers \<Rightarrow> nox_db \<Rightarrow> 's \<Rightarrow>
       nox_err_t \<times> nox_db \<times> 's \<times> heap_answers" where
  "queue_send B Q send_fn [] al d s = (NOX_OK, d, s, al)"
| "queue_send B Q send_fn (r # rs) al d s =
     (case sodium_malloc al of (ok, al) \<Rightarrow>
      if \<not> ok then (NOX_ERR_ALLOC, d, s, al)
      else case decrypt_payload B d (row_cipher r) (row_nonce r)
                  (length (row_cipher r) - secretbox_MACBYTES) of (err, plain) \<Rightarrow>
      if err \<noteq> NOX_OK then queue_send B Q send_fn rs al (db_queue_delete Q d (row_id r)) s
      else if plain = [] \<or> last plain \<noteq> 0
           then queue_send B Q send_fn rs al (db_queue_delete Q d (row_id r)) s
      else case send_fn (c_str plain) s of (err, s) \<Rightarrow>
      if err = NOX_OK then queue_send B Q send_fn rs al (db_queue_delete Q d (row_id r)) s
      else (err, d, s, al))"

definition db_process_queue ::
    "box_crypto \<Rightarrow> sqlite \<Rightarrow> (bytes \<Rightarrow> 's \<Rightarrow> nox_err_t \<times> 's) \<Rightarrow> heap_answers \<Rightarrow> nox_db \<Rightarrow> bytes \<Rightarrow> 's \<Rightarrow>
       nox_err_t \<times> nox_db \<times> 's \<times> heap_answers" where
  "db_process_queue B Q send_fn al d onion s =
     (if \<not> db_ready d then (NOX_ERR_STATE, d, s, al)
      else case hash_onion B d onion of (err, h) \<Rightarrow>
      if err \<noteq> NOX_OK then (err, d, s, al)
      else case fst (Q (db_data d) (Sql_select_queue h)) of
        Prepare_failed \<Rightarrow> (NOX_ERR_DB, d, s, al)
      | Bind_failed \<Rightarrow> (NOX_ERR_DB, d, s, al)
      | Step_failed \<Rightarrow> (NOX_OK, d, s, al)
      | Done rows \<Rightarrow>
          (case queue_batch rows 0 al of
             (None, al) \<Rightarrow> (NOX_ERR_ALLOC, d, s, al)
           | (Some b, al) \<Rightarrow> queue_send B Q send_fn b al d s))"

section \<open>History\<close>

definition db_save_message ::
    "box_crypto \<Rightarrow> sqlite \<Rightarrow> bytes \<Rightarrow> heap_answers \<Rightarrow> nox_db \<Rightarrow> bytes \<Rightarrow> bytes \<Rightarrow> bool \<Rightarrow> int \<Rightarrow>
       nox_err_t \<times> nox_db \<times> heap_answers" where
  "db_save_message B Q nonce al d onion txt is_outgoing timestamp =
     (if \<not> db_ready d then (NOX_ERR_STATE, d, al)
      else if length txt > DB_MAX_MSG_LEN then (NOX_ERR_DB, d, al)
      else case sodium_malloc al of (ok, al) \<Rightarrow>
      if \<not> ok then (NOX_ERR_ALLOC, d, al)
      else case encrypt_payload B d (txt @ [0]) nonce (length txt + 1 + secretbox_MACBYTES) of (err, cipher) \<Rightarrow>
      if err \<noteq> NOX_OK then (err, d, al)
      else case hash_onion B d onion of (err, h) \<Rightarrow>
      if err \<noteq> NOX_OK then (err, d, al)
      else case Q (db_data d) (Sql_insert_message h nonce cipher timestamp is_outgoing) of
        (Done _, t) \<Rightarrow> (NOX_OK, d\<lparr>db_data := t\<rparr>, al)
      | (_, t) \<Rightarrow> (NOX_ERR_DB, d\<lparr>db_data := t\<rparr>, al))"

text \<open>The visitor calls of \<open>db_get_history\<close>, up to the row whose buffer cannot be allocated.\<close>

fun history_visit ::
    "box_crypto \<Rightarrow> nox_db \<Rightarrow> sql_row list \<Rightarrow> heap_answers \<Rightarrow>
       nox_err_t \<times> (bytes \<times> bool \<times> int) list \<times> heap_answers" where
  "history_visit B d [] al = (NOX_OK, [], al)"
| "history_visit B d (r # rs) al =
     (if length (row_cipher r) \<le> secretbox_MACBYTES then history_visit B d rs al
      else case sodium_malloc al of (ok, al) \<Rightarrow>
      if \<not> ok then (NOX_ERR_ALLOC, [], al)
      else case db_decrypt_row B d r (length (row_cipher r) - secretbox_MACBYTES) of (err, p) \<Rightarrow>
        case history_visit B d rs al of (e, vs, al) \<Rightarrow>
          (e, (if err = NOX_OK then [(c_str p, row_out r, row_time r)] else []) @ vs, al))"

definition db_get_history ::
    "box_crypto \<Rightarrow> sqlite \<Rightarrow> heap_answers \<Rightarrow> nox_db \<Rightarrow> bytes \<Rightarrow> int \<Rightarrow>
       nox_err_t \<times> (bytes \<times> bool \<times> int) list \<times> heap_answers" where
  "db_get_history B Q al d onion limit =
     (if \<not> db_ready d then (NOX_ERR_STATE, [], al)
      else let limit = (if limit \<le> 0 then 1000 else limit) in
      case hash_onion B d onion of (err, h) \<Rightarrow>
      if err \<noteq> NOX_OK then (err, [], al)
      else case fst (Q (db_data d) (Sql_select_history h (nat limit))) of
        Prepare_failed \<Rightarrow> (NOX_ERR_DB, [], al)
      | Bind_failed \<Rightarrow> (NOX_ERR_DB, [], al)
      | Step_failed \<Rightarrow> (NOX_OK, [], al)
      | Done rows \<Rightarrow> history_visit B d rows al)"

definition db_delete_conversation :: "box_crypto \<Rightarrow> sqlite \<Rightarrow> nox_db \<Rightarrow> bytes \<Rightarrow> nox_err_t \<times> nox_db" where
  "db_delete_conversation B Q d onion =
     (if \<not> db_ready d then (NOX_ERR_STATE, d)
      else case hash_onion B d onion of (err, h) \<Rightarrow>
      if err \<noteq> NOX_OK then (err, d)
      else case Q (db_data d) (Sql_delete_messages h) of
        (Done _, t) \<Rightarrow> (NOX_OK, d\<lparr>db_data := t\<rparr>)
      | (_, t) \<Rightarrow> (NOX_ERR_DB, d\<lparr>db_data := t\<rparr>))"

end
