(* ===== verification/Nox_Database_Props.thy ===== *)
theory Nox_Database_Props
  imports Nox_Database
begin

text \<open>
  What the database promises, under the documented behaviour of SQL and of the secretbox: the
  contact round trip, and the queue as a list of texts per recipient (an abstraction of the
  encrypted rows) that the operations append to, send from the front and roll back.
\<close>

section \<open>Hypotheses on the parameters\<close>

text \<open>What the statements of the code mean in SQL on the three tables. Rows of a table are kept in
  the order of their ids.\<close>

definition q_row :: "int \<times> bytes \<times> bytes \<times> bytes \<Rightarrow> sql_row" where
  "q_row r = (case r of (i, h, n, c) \<Rightarrow> \<lparr>row_id = i, row_nonce = n, row_cipher = c, row_time = 0, row_out = False\<rparr>)"

lemma q_row_simps [simp]:
  "row_id (q_row (i, h, n, c)) = i" "row_nonce (q_row (i, h, n, c)) = n" "row_cipher (q_row (i, h, n, c)) = c"
  by (simp_all add: q_row_def)

definition last_n :: "nat \<Rightarrow> 'a list \<Rightarrow> 'a list" where
  "last_n n xs = drop (length xs - n) xs"

fun sql_exec :: "db_tables \<Rightarrow> sql \<Rightarrow> sql_row list \<times> db_tables" where
  "sql_exec t (Sql_replace_contact h n c) =
     ([], t\<lparr>tb_contacts := filter (\<lambda>(h', _). h' \<noteq> h) (tb_contacts t) @ [(h, n, c)]\<rparr>)"
| "sql_exec t (Sql_select_contact h) =
     (map (\<lambda>(h', n, c). q_row (0, h', n, c)) (filter (\<lambda>(h', _). h' = h) (tb_contacts t)), t)"
| "sql_exec t Sql_select_contacts = (map (\<lambda>(h', n, c). q_row (0, h', n, c)) (tb_contacts t), t)"
| "sql_exec t (Sql_insert_queue h n c) =
     ([], t\<lparr>tb_queue := tb_queue t @ [(tb_next_id t, h, n, c)], tb_next_id := tb_next_id t + 1\<rparr>)"
| "sql_exec t (Sql_select_queue h) = (map q_row (filter (\<lambda>(_, h', _). h' = h) (tb_queue t)), t)"
| "sql_exec t (Sql_delete_queue i) = ([], t\<lparr>tb_queue := filter (\<lambda>(j, _). j \<noteq> i) (tb_queue t)\<rparr>)"
| "sql_exec t (Sql_rollback_queue h k) =
     (let ids = map fst (last_n k (filter (\<lambda>(_, h', _). h' = h) (tb_queue t)))
      in ([], t\<lparr>tb_queue := filter (\<lambda>(j, _). j \<notin> set ids) (tb_queue t)\<rparr>))"
| "sql_exec t (Sql_insert_message h n c ts out) =
     ([], t\<lparr>tb_messages := tb_messages t @ [(tb_next_id t, h, n, c, ts, out)], tb_next_id := tb_next_id t + 1\<rparr>)"
| "sql_exec t (Sql_select_history h k) =
     (map (\<lambda>(i, h', n, c, ts, out). \<lparr>row_id = i, row_nonce = n, row_cipher = c, row_time = ts, row_out = out\<rparr>)
        (last_n k (sort_key (\<lambda>(i, h', n, c, ts, out). ts) (filter (\<lambda>(_, h', _). h' = h) (tb_messages t)))), t)"
| "sql_exec t (Sql_delete_messages h) =
     ([], t\<lparr>tb_messages := filter (\<lambda>(_, h', _). h' \<noteq> h) (tb_messages t)\<rparr>)"

text \<open>An engine may fail, and then leaves the tables alone; when it does not fail it does what the
  statement means. \<open>sqlite_total\<close>: it does not fail.\<close>

definition sqlite_sound :: "sqlite \<Rightarrow> bool" where
  "sqlite_sound Q \<longleftrightarrow> (\<forall>t s. (\<forall>rows t'. Q t s = (Done rows, t') \<longrightarrow> (rows, t') = sql_exec t s) \<and>
     (\<forall>a t'. Q t s = (a, t') \<and> (\<forall>rows. a \<noteq> Done rows) \<longrightarrow> t' = t))"

definition sqlite_total :: "sqlite \<Rightarrow> bool" where
  "sqlite_total Q \<longleftrightarrow> (\<forall>t s. Q t s = (Done (fst (sql_exec t s)), snd (sql_exec t s)))"

definition box_ok :: "box_crypto \<Rightarrow> bool" where
  "box_ok B \<longleftrightarrow> (\<forall>p n k. \<exists>c. bx_seal B p n k = Some c \<and> length c = length p + secretbox_MACBYTES \<and>
     bx_open B c n k = Some p) \<and> (\<forall>m k. \<exists>h. bx_hash B m k = Some h)"

lemma sqlite_totalD: "sqlite_total Q \<Longrightarrow> Q t s = (Done (fst (sql_exec t s)), snd (sql_exec t s))"
  by (simp add: sqlite_total_def)

lemma box_okE:
  assumes "box_ok B"
  obtains c where "bx_seal B p n k = Some c" "length c = length p + secretbox_MACBYTES" "bx_open B c n k = Some p"
  using assms unfolding box_ok_def by blast

lemma box_ok_hash: "box_ok B \<Longrightarrow> \<exists>h. bx_hash B m k = Some h"
  by (simp add: box_ok_def)

section \<open>Contact records\<close>

lemma c_str_pad: "0 \<notin> set s \<Longrightarrow> length s < n \<Longrightarrow> c_str (pad_to n s) = s"
proof -
  assume a: "0 \<notin> set s" "length s < n"
  have "zeros (n - length s) = 0 # zeros (n - length s - 1)"
    using a(2) by (cases "n - length s") (auto simp: zeros_def)
  moreover have "takeWhile (\<lambda>x. x \<noteq> 0) s = s" using a(1) by (auto simp: takeWhile_eq_all_conv)
  ultimately show ?thesis
    using a by (simp add: c_str_def pad_to_def takeWhile_append)
qed

lemma length_pad_to [simp]: "length (pad_to n b) = n"
  by (simp add: pad_to_def)

lemma length_contact_payload [simp]: "length (contact_payload o1 nm k) = CONTACT_PAYLOAD_LEN"
  by (simp add: contact_payload_def CONTACT_PAYLOAD_LEN_def nox_consts)

lemma contact_payload_fields:
  assumes "0 \<notin> set nm" "length nm \<le> NOX_CONTACT_NAME_LEN" "length k = NOX_KEY_LEN"
  shows "cp_name (contact_payload o1 nm k) = nm" "cp_key (contact_payload o1 nm k) = k"
  using assms c_str_pad [of nm 65]
  by (simp_all add: cp_name_def cp_key_def contact_payload_def nox_consts pad_to_def)

lemma db_add_contact_OK:
  assumes Q: "sqlite_sound Q" and nb: "\<forall>t s. fst (Q t s) \<noteq> Bind_failed"
    and add: "db_add_contact B Q nonce d onion nm key = (NOX_OK, d')"
  obtains k h cipher where "db_key d = Some k" "db_ready d" "length onion = NOX_ONION_LEN"
    "length nm \<le> NOX_CONTACT_NAME_LEN" "bx_hash B onion k = Some h"
    "bx_seal B (contact_payload onion nm key) nonce k = Some cipher"
    "d' = d\<lparr>db_data := (db_data d)\<lparr>tb_contacts :=
       filter (\<lambda>(h', _). h' \<noteq> h) (tb_contacts (db_data d)) @ [(h, nonce, cipher)]\<rparr>\<rparr>"
proof -
  from add obtain k h cipher t where a: "db_key d = Some k" "db_ready d" "length onion = NOX_ONION_LEN"
    "length nm \<le> NOX_CONTACT_NAME_LEN" "bx_hash B onion k = Some h"
    "bx_seal B (contact_payload onion nm key) nonce k = Some cipher"
    and q: "Q (db_data d) (Sql_replace_contact h nonce cipher) = t" and r: "(\<exists>rows. fst t = Done rows) \<or> fst t = Bind_failed"
      "d' = d\<lparr>db_data := snd t\<rparr>"
    by (auto simp: db_add_contact_def encrypt_payload_def hash_onion_def
        split: if_splits option.splits prod.splits sql_answer.splits)
  from r nb q obtain rows where "Q (db_data d) (Sql_replace_contact h nonce cipher) = (Done rows, snd t)"
    by (metis prod.collapse)
  with Q have "snd t = snd (sql_exec (db_data d) (Sql_replace_contact h nonce cipher))"
    unfolding sqlite_sound_def by (metis snd_conv)
  with a r(2) that show ?thesis by simp
qed

lemma db_get_contact_row:
  assumes "sqlite_sound Q" "db_key d = Some k" "db_ready d" "length onion = NOX_ONION_LEN"
    and "bx_hash B onion k = Some h" "bx_open B c n k = Some p" "length p = CONTACT_PAYLOAD_LEN"
    and "length n = NOX_NONCE_LEN" "length c = CONTACT_PAYLOAD_LEN + secretbox_MACBYTES"
    and "filter (\<lambda>(h', _). h' = h) (tb_contacts (db_data d)) = [(h, n, c)]"
  shows "db_get_contact B Q d onion 65 =
    (if \<exists>rows. fst (Q (db_data d) (Sql_select_contact h)) = Done rows then (NOX_OK, take 64 (cp_name p), cp_key p) else (NOX_ERR_DB, [], []))"
proof (cases "fst (Q (db_data d) (Sql_select_contact h))")
  case (Done rows)
  then have "(rows, snd (Q (db_data d) (Sql_select_contact h))) = sql_exec (db_data d) (Sql_select_contact h)"
    using assms(1) unfolding sqlite_sound_def by (metis prod.collapse)
  then have "rows = [q_row (0, h, n, c)]" using assms(10) by simp
  moreover have "c \<noteq> []" using assms(9) by (auto simp: secretbox_MACBYTES_def)
  ultimately show ?thesis
    using assms(2-9) Done
    by (simp add: db_get_contact_def hash_onion_def db_decrypt_row_def decrypt_payload_def q_row_def)
qed (use assms in \<open>simp_all add: db_get_contact_def hash_onion_def\<close>)

text \<open>Contacts: after a successful \<open>db_add_contact\<close>, \<open>db_get_contact\<close> for the same onion address
  returns exactly the stored name and key when SQLite completes its one statement, and an error when it
  does not, whatever was stored before; the entry for an address with a different hash is not touched.\<close>

lemma contact_roundtrip:
  assumes Q: "sqlite_sound Q" and nb: "\<forall>t s. fst (Q t s) \<noteq> Bind_failed" and B: "box_ok B"
    and add: "db_add_contact B Q nonce d onion nm key = (NOX_OK, d')"
    and wf: "length nonce = NOX_NONCE_LEN" "length key = NOX_KEY_LEN" "0 \<notin> set nm"
  shows "(\<exists>k h. db_key d = Some k \<and> bx_hash B onion k = Some h \<and>
      db_get_contact B Q d' onion (NOX_CONTACT_NAME_LEN + 1) =
        (if \<exists>rows. fst (Q (db_data d') (Sql_select_contact h)) = Done rows then (NOX_OK, nm, key) else (NOX_ERR_DB, [], []))) \<and>
    (\<forall>o2 k. db_key d = Some k \<and> bx_hash B o2 k \<noteq> bx_hash B onion k \<longrightarrow>
      filter (\<lambda>(h, _). Some h = bx_hash B o2 k) (tb_contacts (db_data d')) =
      filter (\<lambda>(h, _). Some h = bx_hash B o2 k) (tb_contacts (db_data d)))"
proof -
  from add obtain k h cipher where a: "db_key d = Some k" "db_ready d" "length onion = NOX_ONION_LEN"
    "length nm \<le> NOX_CONTACT_NAME_LEN" "bx_hash B onion k = Some h"
    "bx_seal B (contact_payload onion nm key) nonce k = Some cipher"
    and d': "d' = d\<lparr>db_data := (db_data d)\<lparr>tb_contacts :=
       filter (\<lambda>(h', _). h' \<noteq> h) (tb_contacts (db_data d)) @ [(h, nonce, cipher)]\<rparr>\<rparr>"
    by (rule db_add_contact_OK [OF Q nb])
  obtain c where "bx_seal B (contact_payload onion nm key) nonce k = Some c"
    "length c = CONTACT_PAYLOAD_LEN + secretbox_MACBYTES" "bx_open B c nonce k = Some (contact_payload onion nm key)"
    using box_okE [OF B, of "contact_payload onion nm key" nonce k] by auto
  with a(6) have c: "length cipher = CONTACT_PAYLOAD_LEN + secretbox_MACBYTES"
    "bx_open B cipher nonce k = Some (contact_payload onion nm key)" by simp_all
  have "filter (\<lambda>(h', _). h' = h) (tb_contacts (db_data d')) = [(h, nonce, cipher)]"
    by (auto simp: d' filter_empty_conv)
  then have "db_get_contact B Q d' onion 65 =
      (if \<exists>rows. fst (Q (db_data d') (Sql_select_contact h)) = Done rows then (NOX_OK, nm, key) else (NOX_ERR_DB, [], []))"
    using db_get_contact_row [OF Q _ _ a(3,5) c(2) length_contact_payload wf(1) c(1), of d'] a d' wf
      contact_payload_fields [OF wf(3) a(4) wf(2)]
    by (auto simp: NOX_CONTACT_NAME_LEN_def)
  moreover have "filter (\<lambda>(h, _). Some h = bx_hash B o2 k') (tb_contacts (db_data d')) =
      filter (\<lambda>(h, _). Some h = bx_hash B o2 k') (tb_contacts (db_data d))"
    if "db_key d = Some k'" "bx_hash B o2 k' \<noteq> bx_hash B onion k'" for o2 k'
    using that a(1,5) by (auto simp: d' intro!: filter_cong)
  ultimately show ?thesis using a(1,5) by (simp add: NOX_CONTACT_NAME_LEN_def)
qed

section \<open>A concrete instance of the parameters\<close>

definition toy_box :: box_crypto where
  "toy_box = \<lparr>bx_hash = (\<lambda>m k. Some m), bx_seal = (\<lambda>p n k. Some (p @ zeros 16)),
     bx_open = (\<lambda>c n k. if length c < 16 then None else Some (take (length c - 16) c))\<rparr>"

definition toy_sqlite :: sqlite where
  "toy_sqlite t s = (Done (fst (sql_exec t s)), snd (sql_exec t s))"

definition toy_db :: nox_db where
  "toy_db = \<lparr>db_key = Some (zeros 32), db_ready = True,
     db_data = \<lparr>tb_contacts = [], tb_queue = [], tb_messages = [], tb_next_id = 1\<rparr>\<rparr>"

definition toy_onion_name :: bytes where "toy_onion_name = replicate 62 97"

lemma toy_sqlite_total: "sqlite_total toy_sqlite"
  by (simp add: sqlite_total_def toy_sqlite_def)

lemma total_sound: "sqlite_total Q \<Longrightarrow> sqlite_sound Q"
  by (simp add: sqlite_total_def sqlite_sound_def)

lemma toy_box_ok: "box_ok toy_box"
  by (simp add: box_ok_def toy_box_def secretbox_MACBYTES_def)

text \<open>A contact that was not stored is reported as stored: when SQLite fails to bind a value (for
  instance when it is out of memory), \<open>db_add_contact\<close> returns \<open>NOX_OK\<close> and the database is as it
  was. \<open>DB_BIND_CHECK\<close> leaves through the cleanup with the \<open>NOX_OK\<close> of the hash computation.\<close>

theorem add_contact_bind_failure:
  assumes "sqlite_sound Q" "\<forall>t h n c. fst (Q t (Sql_replace_contact h n c)) = Bind_failed" "box_ok B"
    and "db_ready d" "db_key d = Some k" "length onion = NOX_ONION_LEN" "length nm \<le> NOX_CONTACT_NAME_LEN"
  shows "db_add_contact B Q nonce d onion nm key = (NOX_OK, d)"
proof -
  obtain c where c: "bx_seal B (contact_payload onion nm key) nonce k = Some c"
    using box_okE [OF assms(3)] by blast
  obtain h where h: "bx_hash B onion k = Some h" using box_ok_hash [OF assms(3)] by blast
  obtain t where q: "Q (db_data d) (Sql_replace_contact h nonce c) = (Bind_failed, t)"
    using assms(2) by (metis prod.collapse)
  with assms(1) have "t = db_data d" unfolding sqlite_sound_def by blast
  with assms(4-7) c h q show ?thesis
    by (simp add: db_add_contact_def encrypt_payload_def hash_onion_def)
qed

theorem add_contact_bind_failure_witness:
  "db_add_contact toy_box (\<lambda>t s. (Bind_failed, t)) (zeros 24) toy_db toy_onion_name [65] (replicate 32 7) = (NOX_OK, toy_db)"
  by (rule add_contact_bind_failure [where k = "zeros 32"])
     (simp_all add: sqlite_sound_def toy_box_ok toy_db_def toy_onion_name_def nox_consts)

section \<open>The queue as lists of texts\<close>

definition queued :: "box_crypto \<Rightarrow> nox_db \<Rightarrow> bytes \<Rightarrow> bytes list" where
  "queued B d onion = (case db_key d of None \<Rightarrow> []
     | Some k \<Rightarrow> map (\<lambda>(i, h, n, c). c_str (the (bx_open B c n k)))
         (filter (\<lambda>(i, h, _). Some h = bx_hash B onion k) (tb_queue (db_data d))))"

definition row_ok :: "box_crypto \<Rightarrow> bytes \<Rightarrow> int \<times> bytes \<times> bytes \<times> bytes \<Rightarrow> bool" where
  "row_ok B k r = (case r of (i, h, n, c) \<Rightarrow> length n = NOX_NONCE_LEN \<and>
     (\<exists>t. bx_open B c n k = Some (t @ [0]) \<and> 0 \<notin> set t \<and> length t \<le> DB_MAX_MSG_LEN \<and> length c = length t + 17))"

definition queue_wf :: "box_crypto \<Rightarrow> bytes \<Rightarrow> nox_db \<Rightarrow> bool" where
  "queue_wf B k d \<longleftrightarrow> db_ready d \<and> db_key d = Some k \<and> distinct (map fst (tb_queue (db_data d))) \<and>
     (\<forall>r \<in> set (tb_queue (db_data d)). fst r < tb_next_id (db_data d) \<and> row_ok B k r)"

lemma c_str_nul: "0 \<notin> set t \<Longrightarrow> c_str (t @ [0]) = t"
  by (auto simp: c_str_def takeWhile_append)

lemma queue_message_ok:
  assumes Q: "sqlite_total Q" and B: "box_ok B" and wf: "queue_wf B k d" and al: "heap_ok al"
    and t: "length txt \<le> DB_MAX_MSG_LEN" "0 \<notin> set txt" and n: "length nonce = NOX_NONCE_LEN"
    and o1: "length onion = NOX_ONION_LEN"
  shows "\<exists>d' al'. db_queue_message B Q nonce al d onion txt = (NOX_OK, d', al') \<and> heap_ok al' \<and> queue_wf B k d' \<and>
    queued B d' onion = queued B d onion @ [txt] \<and>
    (\<forall>o2. bx_hash B o2 k \<noteq> bx_hash B onion k \<longrightarrow> queued B d' o2 = queued B d o2)"
proof -
  obtain c where c0: "bx_seal B (txt @ [0]) nonce k = Some c" "length c = length (txt @ [0]) + secretbox_MACBYTES"
    "bx_open B c nonce k = Some (txt @ [0])" by (rule box_okE [OF B])
  then have c: "bx_seal B (txt @ [0]) nonce k = Some c" "length c = length txt + 17"
    "bx_open B c nonce k = Some (txt @ [0])" by (simp_all add: secretbox_MACBYTES_def)
  obtain h where h: "bx_hash B onion k = Some h" using box_ok_hash [OF B] by blast
  obtain al' where al': "sodium_malloc al = (True, al')" "heap_ok al'"
    using sodium_malloc_ok [OF al] by (metis prod.collapse)
  have k: "db_key d = Some k" "db_ready d" using wf by (simp_all add: queue_wf_def)
  let ?t = "(db_data d)\<lparr>tb_queue := tb_queue (db_data d) @ [(tb_next_id (db_data d), h, nonce, c)],
      tb_next_id := tb_next_id (db_data d) + 1\<rparr>"
  let ?d = "d\<lparr>db_data := ?t\<rparr>"
  have "db_queue_message B Q nonce al d onion txt = (NOX_OK, ?d, al')"
    using c h al'(1) k t o1
    by (simp add: db_queue_message_def encrypt_payload_def hash_onion_def sqlite_totalD [OF Q]
        secretbox_MACBYTES_def not_less)
  moreover have "queue_wf B k ?d"
    using wf c t n by (fastforce simp: queue_wf_def row_ok_def)
  moreover have "queued B ?d onion = queued B d onion @ [txt]"
    using k h c(3) t(2) by (simp add: queued_def c_str_nul)
  moreover have "queued B ?d o2 = queued B d o2" if "bx_hash B o2 k \<noteq> bx_hash B onion k" for o2
    using that k h by (auto simp: queued_def)
  ultimately show ?thesis using al' by blast
qed

text \<open>Sending a list of texts one after another, with the number accepted before the first
  refusal.\<close>

fun send_seq :: "(bytes \<Rightarrow> 's \<Rightarrow> nox_err_t \<times> 's) \<Rightarrow> bytes list \<Rightarrow> 's \<Rightarrow> nox_err_t \<times> nat \<times> 's" where
  "send_seq send_fn [] s = (NOX_OK, 0, s)"
| "send_seq send_fn (t # ts) s =
     (case send_fn t s of (e, s') \<Rightarrow>
        if e = NOX_OK then (case send_seq send_fn ts s' of (e', n, s'') \<Rightarrow> (e', n + 1, s''))
        else (e, 0, s'))"

lemma send_seq_count: "send_seq send_fn ts s = (e, n, s') \<Longrightarrow> n \<le> length ts"
  by (induction ts arbitrary: s e n) (fastforce split: prod.splits if_splits)+

lemma drop_take_drop: "n \<le> length (take m xs) \<Longrightarrow> drop n (take m xs) @ drop m xs = drop n xs"
  by (metis append_take_drop_id drop_append diff_is_0_eq drop_0)

lemma queue_batch_ok:
  assumes "\<forall>r \<in> set xs. row_ok B k r" "heap_ok al"
  shows "\<exists>al'. queue_batch (map q_row xs) n al = (Some (map q_row (take (QUEUE_BATCH_LIMIT - n) xs)), al') \<and> heap_ok al'"
  using assms
proof (induction xs arbitrary: n al)
  case Nil
  then show ?case by simp
next
  case (Cons r xs)
  obtain al1 where al1: "sodium_malloc al = (True, al1)" "heap_ok al1"
    using sodium_malloc_ok [OF Cons.prems(2)] by (metis prod.collapse)
  obtain al' where al': "queue_batch (map q_row xs) (n + 1) al1 =
      (Some (map q_row (take (QUEUE_BATCH_LIMIT - (n + 1)) xs)), al')" "heap_ok al'"
    using Cons.IH [of al1 "n + 1"] Cons.prems al1 by auto
  have sh: "length (row_nonce (q_row r)) = NOX_NONCE_LEN" "\<not> length (row_cipher (q_row r)) \<le> secretbox_MACBYTES"
    "\<not> length (row_cipher (q_row r)) > 4096 + secretbox_MACBYTES"
    using Cons.prems by (auto simp: row_ok_def q_row_def secretbox_MACBYTES_def DB_MAX_MSG_LEN_def split: prod.splits)
  show ?case
  proof (cases "n \<ge> QUEUE_BATCH_LIMIT")
    case False
    then have "take (QUEUE_BATCH_LIMIT - n) (r # xs) = r # take (QUEUE_BATCH_LIMIT - (n + 1)) xs"
      by (simp add: take_Cons' Suc_diff_Suc)
    with False sh al1 al' show ?thesis by simp
  qed (use Cons.prems in auto)
qed

lemma delete_first:
  assumes "distinct (map fst q)" "filter P q = x # xs"
  shows "filter P (filter (\<lambda>(j, _). j \<noteq> fst x) q) = xs"
proof -
  have "distinct (map fst (x # xs))" using assms by (metis distinct_map_filter)
  then have "filter (\<lambda>(j, _). j \<noteq> fst x) (x # xs) = xs"
    by (auto simp: filter_id_conv image_iff)
  moreover have "filter P (filter R q) = filter R (filter P q)" for R
    by (simp add: conj_commute)
  ultimately show ?thesis using assms(2) by metis
qed

text \<open>Rows for another recipient are not touched by deleting a row of this one.\<close>

lemma queue_delete_step:
  assumes Q: "sqlite_total Q" and wf: "queue_wf B k d" and h: "bx_hash B onion k = Some h"
    and f: "filter (\<lambda>(_, h', _). h' = h) (tb_queue (db_data d)) = x # xs"
  defines "d' \<equiv> db_queue_delete Q d (fst x)"
  shows "queue_wf B k d'" "filter (\<lambda>(_, h', _). h' = h) (tb_queue (db_data d')) = xs"
    "bx_hash B o2 k \<noteq> Some h \<Longrightarrow> queued B d' o2 = queued B d o2"
proof -
  have d': "db_data d' = (db_data d)\<lparr>tb_queue := filter (\<lambda>(j, _). j \<noteq> fst x) (tb_queue (db_data d))\<rparr>"
    "db_ready d'" "db_key d' = Some k"
    using wf by (simp_all add: d'_def db_queue_delete_def sqlite_totalD [OF Q] queue_wf_def)
  have dist: "distinct (map fst (tb_queue (db_data d)))" using wf by (simp add: queue_wf_def)
  show "queue_wf B k d'" using wf d' by (auto simp: queue_wf_def distinct_map_filter)
  show "filter (\<lambda>(_, h', _). h' = h) (tb_queue (db_data d')) = xs"
    using delete_first [OF dist f] by (simp add: d')
  have "x \<in> set (filter (\<lambda>(_, h', _). h' = h) (tb_queue (db_data d)))" by (simp add: f)
  then have x: "x \<in> set (tb_queue (db_data d))" "fst (snd x) = h" by auto
  have uniq: "r = x" if "r \<in> set (tb_queue (db_data d))" "fst r = fst x" for r
    using dist that x(1) by (metis eq_key_imp_eq_value prod.collapse distinct_map inj_on_def)
  show "queued B d' o2 = queued B d o2" if "bx_hash B o2 k \<noteq> Some h"
  proof -
    have "filter (\<lambda>(i, h', _). Some h' = bx_hash B o2 k) (filter (\<lambda>(j, _). j \<noteq> fst x) (tb_queue (db_data d))) =
        filter (\<lambda>(i, h', _). Some h' = bx_hash B o2 k) (tb_queue (db_data d))"
    proof -
      have "fst r \<noteq> fst x" if r: "r \<in> set (tb_queue (db_data d))" "Some (fst (snd r)) = bx_hash B o2 k" for r
        using uniq [OF r(1)] r(2) x(2) \<open>bx_hash B o2 k \<noteq> Some h\<close> by auto
      then show ?thesis by (fastforce intro: filter_cong simp: case_prod_beta)
    qed
    with d' wf show ?thesis by (simp add: queued_def queue_wf_def)
  qed
qed

lemma queue_send_ok:
  assumes Q: "sqlite_total Q" and h: "bx_hash B onion k = Some h"
    and "queue_wf B k d" "heap_ok al" "filter (\<lambda>(_, h', _). h' = h) (tb_queue (db_data d)) = xs @ ys"
    and "send_seq send_fn (map (\<lambda>(i, h, n, c). c_str (the (bx_open B c n k))) xs) s = (e, cnt, s')"
  shows "\<exists>d' al'. queue_send B Q send_fn (map q_row xs) al d s = (e, d', s', al') \<and> queue_wf B k d' \<and>
    filter (\<lambda>(_, h', _). h' = h) (tb_queue (db_data d')) = drop cnt xs @ ys \<and>
    (\<forall>o2. bx_hash B o2 k \<noteq> Some h \<longrightarrow> queued B d' o2 = queued B d o2)"
  using assms(3-)
proof (induction xs arbitrary: al d s e cnt s')
  case Nil
  then show ?case by auto
next
  case (Cons x xs)
  obtain i g n c where x: "x = (i, g, n, c)" by (metis prod_cases4)
  have xr: "row_ok B k x"
  proof -
    have "x \<in> set (filter (\<lambda>(_, h', _). h' = h) (tb_queue (db_data d)))" using Cons.prems(3) by simp
    with Cons.prems(1) show ?thesis by (auto simp: queue_wf_def)
  qed
  obtain al1 where al1: "sodium_malloc al = (True, al1)" "heap_ok al1"
    using sodium_malloc_ok [OF Cons.prems(2)] by (metis prod.collapse)
  obtain t where t: "bx_open B c n k = Some (t @ [0])" "c_str (t @ [0]) = t" "length c = length t + 17"
    using xr x c_str_nul by (auto simp: row_ok_def)
  have dec: "decrypt_payload B d c n (length c - secretbox_MACBYTES) = (NOX_OK, t @ [0])"
    using t Cons.prems(1) by (simp add: decrypt_payload_def queue_wf_def secretbox_MACBYTES_def)
  obtain e1 s1 where s1: "send_fn t s = (e1, s1)" by fastforce
  show ?case
  proof (cases "e1 = NOX_OK")
    case True
    obtain cnt1 where c1: "send_seq send_fn (map (\<lambda>(i, h, n, c). c_str (the (bx_open B c n k))) xs) s1 = (e, cnt1, s')"
      "cnt = cnt1 + 1"
      using Cons.prems(4) True s1 t x by (auto split: prod.splits)
    note st = queue_delete_step [OF Q Cons.prems(1) h, of x "xs @ ys"]
    let ?d = "db_queue_delete Q d i"
    have f: "filter (\<lambda>(_, h', _). h' = h) (tb_queue (db_data d)) = x # xs @ ys" using Cons.prems(3) by simp
    from Cons.IH [OF _ al1(2) _ c1(1), of ?d] st(1,2) [OF f] x obtain d' al' where
      "queue_send B Q send_fn (map q_row xs) al1 ?d s1 = (e, d', s', al')" "queue_wf B k d'"
      "filter (\<lambda>(_, h', _). h' = h) (tb_queue (db_data d')) = drop cnt1 xs @ ys"
      "\<forall>o2. bx_hash B o2 k \<noteq> Some h \<longrightarrow> queued B d' o2 = queued B ?d o2" by auto
    with st(3) [OF f] x dec t s1 True al1 c1(2) show ?thesis by auto
  next
    case False
    with Cons.prems x dec t s1 al1 show ?thesis by auto
  qed
qed

text \<open>C21. The outgoing queue refines a list of texts per recipient. \<open>db_queue_message\<close> appends to the
  list of its recipient. \<open>db_process_queue\<close> hands the texts of the front of the list (at most 256) to
  the send callback, in order, stops at the first one it refuses, reports that error, and removes
  exactly the accepted ones: no message is lost, duplicated or reordered. Other recipients' lists
  stay as they are.\<close>

theorem queue_refines_list:
  assumes Q: "sqlite_total Q" and B: "box_ok B" and wf: "queue_wf B k d" and al: "heap_ok al"
    and o1: "length onion = NOX_ONION_LEN"
  shows "(length txt \<le> DB_MAX_MSG_LEN \<and> 0 \<notin> set txt \<and> length nonce = NOX_NONCE_LEN \<longrightarrow>
      (\<exists>d' al'. db_queue_message B Q nonce al d onion txt = (NOX_OK, d', al') \<and> queue_wf B k d' \<and>
         queued B d' onion = queued B d onion @ [txt] \<and>
         (\<forall>o2. bx_hash B o2 k \<noteq> bx_hash B onion k \<longrightarrow> queued B d' o2 = queued B d o2))) \<and>
    (\<forall>e cnt s'. send_seq send_fn (take QUEUE_BATCH_LIMIT (queued B d onion)) s = (e, cnt, s') \<longrightarrow>
      (\<exists>d' al'. db_process_queue B Q send_fn al d onion s = (e, d', s', al') \<and> queue_wf B k d' \<and>
         queued B d' onion = drop cnt (queued B d onion) \<and>
         (\<forall>o2. bx_hash B o2 k \<noteq> bx_hash B onion k \<longrightarrow> queued B d' o2 = queued B d o2)))"
proof (intro conjI impI allI)
  assume "length txt \<le> DB_MAX_MSG_LEN \<and> 0 \<notin> set txt \<and> length nonce = NOX_NONCE_LEN"
  then show "\<exists>d' al'. db_queue_message B Q nonce al d onion txt = (NOX_OK, d', al') \<and> queue_wf B k d' \<and>
         queued B d' onion = queued B d onion @ [txt] \<and>
         (\<forall>o2. bx_hash B o2 k \<noteq> bx_hash B onion k \<longrightarrow> queued B d' o2 = queued B d o2)"
    using queue_message_ok [OF Q B wf al] o1 by blast
next
  fix e cnt s'
  assume sent: "send_seq send_fn (take QUEUE_BATCH_LIMIT (queued B d onion)) s = (e, cnt, s')"
  obtain h where h: "bx_hash B onion k = Some h" using box_ok_hash [OF B] by blast
  define rows where "rows = filter (\<lambda>(_, h', _). h' = h) (tb_queue (db_data d))"
  have k: "db_key d = Some k" "db_ready d" using wf by (simp_all add: queue_wf_def)
  have q: "queued B d' onion = map (\<lambda>(i, h, n, c). c_str (the (bx_open B c n k)))
      (filter (\<lambda>(_, h', _). h' = h) (tb_queue (db_data d')))" if "queue_wf B k d'" for d'
    using that h by (simp add: queued_def queue_wf_def)
  have "\<forall>r \<in> set rows. row_ok B k r" using wf by (auto simp: rows_def queue_wf_def)
  then obtain al1 where b: "queue_batch (map q_row rows) 0 al = (Some (map q_row (take QUEUE_BATCH_LIMIT rows)), al1)"
    "heap_ok al1" using queue_batch_ok [of rows B k al 0] al by auto
  have "send_seq send_fn (map (\<lambda>(i, h, n, c). c_str (the (bx_open B c n k))) (take QUEUE_BATCH_LIMIT rows)) s = (e, cnt, s')"
    using sent by (simp add: q [OF wf] rows_def take_map)
  from queue_send_ok [OF Q h wf b(2) _ this, of "drop QUEUE_BATCH_LIMIT rows"] obtain d' al' where
    d': "queue_send B Q send_fn (map q_row (take QUEUE_BATCH_LIMIT rows)) al1 d s = (e, d', s', al')" "queue_wf B k d'"
      "filter (\<lambda>(_, h', _). h' = h) (tb_queue (db_data d')) = drop cnt (take QUEUE_BATCH_LIMIT rows) @ drop QUEUE_BATCH_LIMIT rows"
      "\<forall>o2. bx_hash B o2 k \<noteq> Some h \<longrightarrow> queued B d' o2 = queued B d o2"
    by (auto simp: rows_def)
  show "\<exists>d' al'. db_process_queue B Q send_fn al d onion s = (e, d', s', al') \<and> queue_wf B k d' \<and>
         queued B d' onion = drop cnt (queued B d onion) \<and>
         (\<forall>o2. bx_hash B o2 k \<noteq> bx_hash B onion k \<longrightarrow> queued B d' o2 = queued B d o2)"
  proof -
    have "cnt \<le> length (take QUEUE_BATCH_LIMIT rows)"
      using send_seq_count [OF sent] by (simp add: q [OF wf] rows_def)
    then have "queued B d' onion = drop cnt (queued B d onion)"
      using d'(3) by (simp add: q [OF d'(2)] q [OF wf] drop_take_drop rows_def [symmetric] drop_map)
    moreover have "db_process_queue B Q send_fn al d onion s = (e, d', s', al')"
      using k h o1 b(1) d'(1)
      by (simp add: db_process_queue_def hash_onion_def sqlite_totalD [OF Q] rows_def [symmetric])
    ultimately show ?thesis using d'(2,4) h by auto
  qed
qed

text \<open>A callback that records what it is given and accepts \<open>n\<close> texts.\<close>

fun take_n_cb :: "bytes \<Rightarrow> nat \<times> bytes list \<Rightarrow> nox_err_t \<times> (nat \<times> bytes list)" where
  "take_n_cb t (0, out) = (NOX_ERR_NET, (0, out))"
| "take_n_cb t (Suc n, out) = (NOX_OK, (n, out @ [t]))"

lemma toy_queue_wf: "queue_wf toy_box (zeros 32) toy_db" "queued toy_box toy_db o1 = []"
  by (simp_all add: queue_wf_def toy_db_def queued_def)

theorem queue_refines_list_witness:
  "\<exists>d1 al1 d2 al2 d3 al3. db_queue_message toy_box toy_sqlite (zeros 24) [] toy_db toy_onion_name [65] = (NOX_OK, d1, al1) \<and>
     db_queue_message toy_box toy_sqlite (zeros 24) [] d1 toy_onion_name [66] = (NOX_OK, d2, al2) \<and>
     db_process_queue toy_box toy_sqlite take_n_cb [] d2 toy_onion_name (1, []) = (NOX_ERR_NET, d3, (0, [[65]]), al3) \<and>
     queued toy_box d3 toy_onion_name = [[66]]"
proof -
  have ol: "length toy_onion_name = NOX_ONION_LEN" by (simp add: toy_onion_name_def NOX_ONION_LEN_def)
  have m: "length [x] \<le> DB_MAX_MSG_LEN \<and> 0 \<notin> set [x] \<and> length (zeros 24) = NOX_NONCE_LEN" if "x \<noteq> 0" for x :: byte
    using that by (simp add: DB_MAX_MSG_LEN_def NOX_NONCE_LEN_def)
  note Q = toy_sqlite_total and B = toy_box_ok
  obtain d1 al1 where 1: "db_queue_message toy_box toy_sqlite (zeros 24) [] toy_db toy_onion_name [65] = (NOX_OK, d1, al1)"
    "queue_wf toy_box (zeros 32) d1" "queued toy_box d1 toy_onion_name = [[65]]"
    using queue_refines_list [OF Q B toy_queue_wf(1) heap_ok_Nil ol, THEN conjunct1, rule_format, OF m, of 65]
      toy_queue_wf(2) by auto
  obtain d2 al2 where 2: "db_queue_message toy_box toy_sqlite (zeros 24) [] d1 toy_onion_name [66] = (NOX_OK, d2, al2)"
    "queue_wf toy_box (zeros 32) d2" "queued toy_box d2 toy_onion_name = [[65], [66]]"
    using queue_refines_list [OF Q B 1(2) heap_ok_Nil ol, THEN conjunct1, rule_format, OF m, of 66] 1(3) by auto
  have "send_seq take_n_cb (take QUEUE_BATCH_LIMIT (queued toy_box d2 toy_onion_name)) (1, []) = (NOX_ERR_NET, 1, (0, [[65]]))"
    using 2(3) by (simp add: QUEUE_BATCH_LIMIT_def)
  from queue_refines_list [OF Q B 2(2) heap_ok_Nil ol, THEN conjunct2, rule_format, OF this] 2(3)
  obtain d3 al3 where "db_process_queue toy_box toy_sqlite take_n_cb [] d2 toy_onion_name (1, []) = (NOX_ERR_NET, d3, (0, [[65]]), al3)"
    "queued toy_box d3 toy_onion_name = [[66]]" by auto
  with 1(1) 2(1) show ?thesis by blast
qed

end
