(* ===== verification/Nox_Peer.thy ===== *)
theory Nox_Peer
  imports Nox_Handshake Nox_Wire Nox_Onion Nox_Database
begin

text \<open>
  The shared state of the program: \<^verbatim>\<open>struct peer_session\<close> and \<^verbatim>\<open>struct app_state\<close> of
  \<^verbatim>\<open>include/types.h\<close>, and the peer state machine of \<^verbatim>\<open>src/state_machine.c\<close>. Pointers to peers are
  indices into the array of slots; an allocated object is \<open>Some\<close>, a freed or NULL one \<open>None\<close>. The
  receive buffer is the list of its first \<open>recv_pos\<close> bytes. Times are the seconds of the monotonic
  clock. The record \<open>sys\<close> adds what the code reaches through system calls: answers of the kernel and
  of the allocators, the database, and the log of effects on descriptors, files, wire and screen.
\<close>

section \<open>File transfer state\<close>

record file_rx_state =
  rx_active :: bool
  rx_fd :: int
  rx_filename :: bytes
  rx_expected_size :: u64
  rx_received_bytes :: u64
  rx_expected_hash :: bytes
  rx_hash_state :: bytes
  rx_last_chunk :: int
  rx_local_name :: bytes

text \<open>\<open>rx_hash_state\<close> is the input digested so far.\<close>

definition zero_rx :: file_rx_state where
  "zero_rx = \<lparr>rx_active = False, rx_fd = 0, rx_filename = [], rx_expected_size = 0, rx_received_bytes = 0,
     rx_expected_hash = zeros 32, rx_hash_state = [], rx_last_chunk = 0, rx_local_name = []\<rparr>"

record file_tx_state =
  tx_active :: bool
  tx_fd :: int
  tx_filename :: bytes
  tx_total_size :: u64
  tx_sent_bytes :: u64
  tx_hash :: bytes
  tx_plain_buf :: bool
  tx_buf :: bytes
  tx_offset :: nat
  tx_chunk_size :: nat

text \<open>\<open>tx_buf\<close> is the list of its first \<open>tx_len\<close> bytes.\<close>

definition zero_tx :: file_tx_state where
  "zero_tx = \<lparr>tx_active = False, tx_fd = 0, tx_filename = [], tx_total_size = 0, tx_sent_bytes = 0,
     tx_hash = zeros 32, tx_plain_buf = False, tx_buf = [], tx_offset = 0, tx_chunk_size = 0\<rparr>"

section \<open>States and events\<close>

datatype peer_state_t =
    ST_IDLE | ST_CONNECTING | ST_HANDSHAKE_INIT | ST_HANDSHAKE_RESP | ST_TOFU_PENDING | ST_ACTIVE
  | ST_FILE_TX | ST_FILE_RX

datatype peer_event_t =
    EV_CONNECT_CMD | EV_PEER_ACCEPTED | EV_HANDSHAKE_MSG | EV_HANDSHAKE_DONE | EV_SESSION_READY
  | EV_TOFU_ACCEPTED | EV_TOFU_REJECTED | EV_PEER_DISCONNECTED | EV_HANDSHAKE_TIMEOUT
  | EV_HANDSHAKE_ERROR | EV_FILE_START | EV_FILE_RX_START | EV_FILE_DONE | EV_RATE_LIMIT
  | EV_SEQ_MISMATCH | EV_ARENA_FAIL | EV_TOR_DIED

section \<open>Peers and application\<close>

record peer_session =
  ps_peer_onion :: bytes
  ps_name :: bytes
  ps_fd :: int
  ps_session :: "noise_session option"
  ps_hs :: "noise_handshake option"
  ps_handshake_start :: int
  ps_tx_seq :: u32
  ps_rx_seq :: u32
  ps_queue_flushed :: bool
  ps_state :: peer_state_t
  ps_connect_target :: bytes
  ps_tofu_pending :: bool
  ps_tofu_peer_fd :: int
  ps_tofu_new_key :: bytes
  ps_tofu_onion :: bytes
  ps_tofu_name :: bytes
  ps_tofu_start :: int
  ps_tofu_was_zero_key :: bool
  ps_tofu_epoch :: u64
  ps_peer_verified :: bool
  ps_recv_buf :: bytes
  ps_last_active :: int
  ps_rx_file :: file_rx_state
  ps_tx_file :: file_tx_state
  ps_unread_count :: u32

definition NOX_MAX_PEERS :: nat where "NOX_MAX_PEERS = 16"
definition RECV_BUF_CAPACITY :: nat where "RECV_BUF_CAPACITY = 13 + 4096 + NOX_MAC_LEN"
definition TX_BUF_CAPACITY :: nat where "TX_BUF_CAPACITY = 13 + 4096 + NOX_MAC_LEN"

text \<open>A slot at program start.\<close>

definition init_peer :: peer_session where
  "init_peer = \<lparr>ps_peer_onion = [], ps_name = [], ps_fd = -1, ps_session = None, ps_hs = None, ps_handshake_start = 0,
     ps_tx_seq = 0, ps_rx_seq = 0, ps_queue_flushed = False, ps_state = ST_IDLE, ps_connect_target = [],
     ps_tofu_pending = False, ps_tofu_peer_fd = -1, ps_tofu_new_key = zeros NOX_KEY_LEN, ps_tofu_onion = [],
     ps_tofu_name = [], ps_tofu_start = 0, ps_tofu_was_zero_key = False, ps_tofu_epoch = 0, ps_peer_verified = False,
     ps_recv_buf = [], ps_last_active = 0, ps_rx_file = zero_rx, ps_tx_file = zero_tx, ps_unread_count = 0\<rparr>"

record app_state =
  as_peers :: "peer_session list"
  as_active_peer_idx :: int
  as_my_static_priv :: "bytes option"
  as_my_static_pub :: "bytes option"
  as_my_onion_seed :: "bytes option"
  as_hs_attempt_count :: int
  as_hs_window_start :: int
  as_hs_inbound_count :: int
  as_hs_inbound_window_start :: int
  as_tor_ctrl_fd :: int
  as_tor_pid :: int
  as_onion_addr :: bytes
  as_running :: bool
  as_ghost_mode :: bool
  as_downloads_dir_fd :: int
  as_tofu_epoch :: u64
  as_tofu_prompt_epoch :: u64
  as_tofu_prompt_fp :: bytes
  as_active_peer_onion :: bytes

datatype effect =
    E_close int | E_epoll_add int | E_epoll_del int | E_epoll_mod int bool
  | E_unlink bytes | E_wire int bytes | E_file_write int bytes | E_incoming bytes | E_outgoing bytes

text \<open>Answer of \<open>openat\<close> with \<open>O_CREAT | O_EXCL\<close>.\<close>

datatype open_ans = Opened int | Open_exists | Open_failed

text \<open>Answer of \<open>fstat\<close>.\<close>

record stat_info =
  si_lnk :: bool
  si_dir :: bool
  si_reg :: bool
  si_uid :: int
  si_mode :: nat
  si_size :: int

record sys = app_state +
  io_now :: int
  io_heap :: heap_answers
  io_hash :: heap_answers
  io_db_heap :: heap_answers
  io_writev :: "int list"
  io_file_write :: "write_ans list"
  io_sock_write :: "write_ans list"
  io_file_read :: "read_ans list"
  io_keys :: "(bytes \<times> bytes) list"
  io_nonces :: "bytes list"
  io_rand :: "u32 list"
  io_open :: "open_ans list"
  io_uid :: int
  io_dir_stat :: "stat_info option"
  io_disk_avail :: "(u64 \<times> u64) option"
  io_db :: nox_db
  io_log :: "effect list"

text \<open>The libraries, as parameters.\<close>

record nox_env =
  ne_sodium :: sodium
  ne_onion :: onion_crypto
  ne_box :: box_crypto
  ne_sql :: sqlite
  ne_hash32 :: "bytes \<Rightarrow> bytes"

definition get_peer :: "sys \<Rightarrow> nat \<Rightarrow> peer_session" where
  "get_peer st i = as_peers st ! i"

definition upd_peer :: "nat \<Rightarrow> (peer_session \<Rightarrow> peer_session) \<Rightarrow> sys \<Rightarrow> sys" where
  "upd_peer i f st = st\<lparr>as_peers := (as_peers st)[i := f (as_peers st ! i)]\<rparr>"

definition emit :: "effect \<Rightarrow> sys \<Rightarrow> sys" where
  "emit e st = st\<lparr>io_log := io_log st @ [e]\<rparr>"

definition ACTIVE_PEER :: "sys \<Rightarrow> nat option" where
  "ACTIVE_PEER st =
     (if as_active_peer_idx st \<ge> 0 \<and> nat (as_active_peer_idx st) < NOX_MAX_PEERS
      then Some (nat (as_active_peer_idx st)) else None)"

text \<open>Allocation: the next answer of the allocator.\<close>

definition sys_malloc :: "sys \<Rightarrow> bool \<times> sys" where
  "sys_malloc st = (case sodium_malloc (io_heap st) of (ok, al) \<Rightarrow> (ok, st\<lparr>io_heap := al\<rparr>))"

section \<open>Cleanup\<close>

definition close_fd :: "int \<Rightarrow> sys \<Rightarrow> sys" where
  "close_fd fd st = (if fd \<ge> 0 then emit (E_close fd) st else st)"

definition unlink_partial :: "bytes \<Rightarrow> sys \<Rightarrow> sys" where
  "unlink_partial nm st = (if as_downloads_dir_fd st \<ge> 0 \<and> nm \<noteq> [] then emit (E_unlink nm) st else st)"

definition action_cleanup :: "nat \<Rightarrow> sys \<Rightarrow> nox_err_t \<times> sys" where
  "action_cleanup i st =
     (let ps = get_peer st i;
          st = (if ps_fd ps \<ge> 0
                then upd_peer i (ps_fd_update (\<lambda>_. -1)) (emit (E_close (ps_fd ps)) (emit (E_epoll_del (ps_fd ps)) st))
                else st);
          st = upd_peer i (\<lambda>ps. ps\<lparr>ps_hs := None, ps_session := None, ps_tx_seq := 0, ps_rx_seq := 0,
                 ps_peer_onion := [], ps_connect_target := [],
                 ps_tofu_pending := False, ps_tofu_peer_fd := -1, ps_tofu_was_zero_key := False,
                 ps_peer_verified := False, ps_last_active := 0,
                 ps_tofu_onion := [], ps_tofu_name := [], ps_tofu_new_key := zeros NOX_KEY_LEN,
                 ps_queue_flushed := False\<rparr>) st;
          rx = ps_rx_file ps;
          st = (if rx_active rx
                then upd_peer i (ps_rx_file_update (\<lambda>_. zero_rx\<lparr>rx_fd := -1\<rparr>))
                       (unlink_partial (rx_local_name rx) (close_fd (rx_fd rx) st))
                else st);
          tx = ps_tx_file ps;
          st = (if tx_active tx
                then upd_peer i (ps_tx_file_update (\<lambda>_. zero_tx\<lparr>tx_fd := -1\<rparr>)) (close_fd (tx_fd tx) st)
                else st);
          st = upd_peer i (\<lambda>ps. ps\<lparr>ps_recv_buf := [], ps_name := [], ps_unread_count := 0\<rparr>) st
      in (NOX_OK,
          if ACTIVE_PEER st = Some i then st\<lparr>as_active_peer_idx := -1, as_active_peer_onion := []\<rparr> else st))"

section \<open>The other actions\<close>

definition action_tofu_prompt :: "nat \<Rightarrow> sys \<Rightarrow> nox_err_t \<times> sys" where
  "action_tofu_prompt i st =
     (let st = st\<lparr>as_tofu_epoch := as_tofu_epoch st + 1\<rparr>;
          st = upd_peer i (\<lambda>ps. ps\<lparr>ps_tofu_epoch := as_tofu_epoch st\<rparr>) st;
          st = (if as_tofu_prompt_epoch st = 0
                then st\<lparr>as_tofu_prompt_epoch := ps_tofu_epoch (get_peer st i),
                        as_tofu_prompt_fp := ps_tofu_new_key (get_peer st i)\<rparr>
                else st)
      in (NOX_OK, st))"

text \<open>\<open>disconnect\<close> is the nested \<open>sm_dispatch (ps, state, EV_PEER_DISCONNECTED)\<close>. The database call
  takes the next nonce; its result is only displayed.\<close>

definition next_nonce :: "sys \<Rightarrow> bytes \<times> sys" where
  "next_nonce st = (case io_nonces st of [] \<Rightarrow> (zeros NOX_NONCE_LEN, st)
     | n # ns \<Rightarrow> (n, st\<lparr>io_nonces := ns\<rparr>))"

definition tofu_save_contact :: "nox_env \<Rightarrow> nat \<Rightarrow> sys \<Rightarrow> sys" where
  "tofu_save_contact E i st =
     (if as_ghost_mode st then st
      else case next_nonce st of (n, st) \<Rightarrow>
        let ps = get_peer st i in
        st\<lparr>io_db := snd (db_add_contact (ne_box E) (ne_sql E) n (io_db st)
               (ps_tofu_onion ps) (ps_tofu_name ps) (ps_tofu_new_key ps))\<rparr>)"

definition fresh_session :: noise_session where
  "fresh_session = \<lparr>ns_tx = zero_cipher, ns_rx = zero_cipher, ns_remote_static = zeros NOX_KEY_LEN\<rparr>"

definition action_tofu_accept :: "nox_env \<Rightarrow> (nat \<Rightarrow> sys \<Rightarrow> sys) \<Rightarrow> nat \<Rightarrow> sys \<Rightarrow> nox_err_t \<times> sys" where
  "action_tofu_accept E disconnect i st =
     (let ps = get_peer st i in
      if ps_tofu_epoch ps \<noteq> as_tofu_prompt_epoch st \<or> ps_tofu_new_key ps \<noteq> as_tofu_prompt_fp st
      then (NOX_ERR_PROTO, st)
      else case ps_hs ps of None \<Rightarrow> (NOX_ERR_PROTO, st)
      | Some hs \<Rightarrow>
        let st = tofu_save_contact E i st in
        case sys_malloc st of (ok, st) \<Rightarrow>
        if \<not> ok then (NOX_ERR_ALLOC, disconnect i st)
        else case handshake_split (ne_sodium E) hs fresh_session (io_heap st) of (err, hs, se, al) \<Rightarrow>
        let st = st\<lparr>io_heap := al\<rparr> in
        if err \<noteq> NOX_OK
        then (NOX_ERR_PROTO, disconnect i (upd_peer i (\<lambda>ps. ps\<lparr>ps_hs := Some hs, ps_session := None\<rparr>) st))
        else let st = upd_peer i (\<lambda>ps. ps\<lparr>ps_session := Some se, ps_hs := None, ps_tx_seq := 0, ps_rx_seq := 0,
                   ps_queue_flushed := False, ps_peer_verified := False, ps_last_active := io_now st,
                   ps_tofu_pending := False,
                   ps_peer_onion := take NOX_ONION_LEN (ps_tofu_onion ps), ps_name := take NOX_CONTACT_NAME_LEN (ps_tofu_name ps)\<rparr>) st
             in (NOX_OK, st\<lparr>as_active_peer_onion := take NOX_ONION_LEN (ps_peer_onion (get_peer st i))\<rparr>))"

section \<open>Transition table and dispatch\<close>

datatype sm_action =
    A_cleanup | A_connect | A_accept | A_hs_process | A_tofu_prompt | A_tofu_accept | A_session_up
  | A_file_begin | A_file_end | A_file_begin_rx

definition transitions :: "(peer_state_t \<times> peer_event_t \<times> peer_state_t \<times> sm_action) list" where
  "transitions = [
    (ST_IDLE, EV_CONNECT_CMD, ST_HANDSHAKE_INIT, A_connect),
    (ST_IDLE, EV_PEER_ACCEPTED, ST_HANDSHAKE_RESP, A_accept),
    (ST_HANDSHAKE_INIT, EV_HANDSHAKE_MSG, ST_HANDSHAKE_INIT, A_hs_process),
    (ST_HANDSHAKE_RESP, EV_HANDSHAKE_MSG, ST_HANDSHAKE_RESP, A_hs_process),
    (ST_HANDSHAKE_INIT, EV_SESSION_READY, ST_ACTIVE, A_session_up),
    (ST_HANDSHAKE_RESP, EV_SESSION_READY, ST_ACTIVE, A_session_up),
    (ST_HANDSHAKE_INIT, EV_HANDSHAKE_DONE, ST_TOFU_PENDING, A_tofu_prompt),
    (ST_HANDSHAKE_RESP, EV_HANDSHAKE_DONE, ST_TOFU_PENDING, A_tofu_prompt),
    (ST_TOFU_PENDING, EV_TOFU_ACCEPTED, ST_ACTIVE, A_tofu_accept),
    (ST_TOFU_PENDING, EV_TOFU_REJECTED, ST_IDLE, A_cleanup),
    (ST_ACTIVE, EV_FILE_START, ST_FILE_TX, A_file_begin),
    (ST_ACTIVE, EV_FILE_RX_START, ST_FILE_RX, A_file_begin_rx),
    (ST_FILE_TX, EV_FILE_DONE, ST_ACTIVE, A_file_end),
    (ST_FILE_RX, EV_FILE_DONE, ST_ACTIVE, A_file_end),
    (ST_CONNECTING, EV_PEER_DISCONNECTED, ST_IDLE, A_cleanup),
    (ST_HANDSHAKE_INIT, EV_PEER_DISCONNECTED, ST_IDLE, A_cleanup),
    (ST_HANDSHAKE_RESP, EV_PEER_DISCONNECTED, ST_IDLE, A_cleanup),
    (ST_TOFU_PENDING, EV_PEER_DISCONNECTED, ST_IDLE, A_cleanup),
    (ST_ACTIVE, EV_PEER_DISCONNECTED, ST_IDLE, A_cleanup),
    (ST_FILE_TX, EV_PEER_DISCONNECTED, ST_IDLE, A_cleanup),
    (ST_FILE_RX, EV_PEER_DISCONNECTED, ST_IDLE, A_cleanup),
    (ST_HANDSHAKE_INIT, EV_HANDSHAKE_TIMEOUT, ST_IDLE, A_cleanup),
    (ST_HANDSHAKE_RESP, EV_HANDSHAKE_TIMEOUT, ST_IDLE, A_cleanup),
    (ST_HANDSHAKE_INIT, EV_HANDSHAKE_ERROR, ST_IDLE, A_cleanup),
    (ST_HANDSHAKE_RESP, EV_HANDSHAKE_ERROR, ST_IDLE, A_cleanup),
    (ST_ACTIVE, EV_SEQ_MISMATCH, ST_IDLE, A_cleanup),
    (ST_FILE_TX, EV_SEQ_MISMATCH, ST_IDLE, A_cleanup),
    (ST_FILE_RX, EV_SEQ_MISMATCH, ST_IDLE, A_cleanup),
    (ST_HANDSHAKE_INIT, EV_ARENA_FAIL, ST_IDLE, A_cleanup),
    (ST_HANDSHAKE_RESP, EV_ARENA_FAIL, ST_IDLE, A_cleanup),
    (ST_IDLE, EV_TOR_DIED, ST_IDLE, A_cleanup),
    (ST_CONNECTING, EV_TOR_DIED, ST_IDLE, A_cleanup),
    (ST_HANDSHAKE_INIT, EV_TOR_DIED, ST_IDLE, A_cleanup),
    (ST_HANDSHAKE_RESP, EV_TOR_DIED, ST_IDLE, A_cleanup),
    (ST_TOFU_PENDING, EV_TOR_DIED, ST_IDLE, A_cleanup),
    (ST_ACTIVE, EV_TOR_DIED, ST_IDLE, A_cleanup),
    (ST_FILE_TX, EV_TOR_DIED, ST_IDLE, A_cleanup),
    (ST_FILE_RX, EV_TOR_DIED, ST_IDLE, A_cleanup),
    (ST_HANDSHAKE_INIT, EV_RATE_LIMIT, ST_IDLE, A_cleanup),
    (ST_HANDSHAKE_RESP, EV_RATE_LIMIT, ST_IDLE, A_cleanup)]"

text \<open>The first row that matches is used. The remaining actions are empty in the source and
  return \<open>NOX_OK\<close>.\<close>

definition sm_lookup :: "peer_state_t \<Rightarrow> peer_event_t \<Rightarrow> (peer_state_t \<times> sm_action) option" where
  "sm_lookup s ev = (case find (\<lambda>(f, e, _). f = s \<and> e = ev) transitions of
     None \<Rightarrow> None | Some (_, _, t, a) \<Rightarrow> Some (t, a))"

definition sm_row :: "(sm_action \<Rightarrow> nat \<Rightarrow> sys \<Rightarrow> nox_err_t \<times> sys) \<Rightarrow> nat \<Rightarrow> peer_event_t \<Rightarrow> sys \<Rightarrow> nox_err_t \<times> sys" where
  "sm_row act i ev st =
     (case sm_lookup (ps_state (get_peer st i)) ev of
        None \<Rightarrow> (NOX_ERR_STATE, st)
      | Some (t, a) \<Rightarrow>
          (case act a i st of (err, st) \<Rightarrow>
             (err, if err = NOX_OK then upd_peer i (ps_state_update (\<lambda>_. t)) st else st)))"

fun simple_action :: "sm_action \<Rightarrow> nat \<Rightarrow> sys \<Rightarrow> nox_err_t \<times> sys" where
  "simple_action A_cleanup i st = action_cleanup i st"
| "simple_action A_tofu_prompt i st = action_tofu_prompt i st"
| "simple_action _ i st = (NOX_OK, st)"

text \<open>The dispatch that \<open>action_tofu_accept\<close> makes from inside: the event is
  \<open>EV_PEER_DISCONNECTED\<close>, whose rows never lead back to that action (\<open>nested_disconnect\<close> below).\<close>

definition sm_disconnect :: "nat \<Rightarrow> sys \<Rightarrow> sys" where
  "sm_disconnect i st = snd (sm_row simple_action i EV_PEER_DISCONNECTED st)"

definition run_action :: "nox_env \<Rightarrow> sm_action \<Rightarrow> nat \<Rightarrow> sys \<Rightarrow> nox_err_t \<times> sys" where
  "run_action E a i st =
     (if a = A_tofu_accept then action_tofu_accept E sm_disconnect i st else simple_action a i st)"

definition sm_dispatch :: "nox_env \<Rightarrow> nat \<Rightarrow> peer_event_t \<Rightarrow> sys \<Rightarrow> nox_err_t \<times> sys" where
  "sm_dispatch E i ev st = sm_row (run_action E) i ev st"

definition sm_dispatch_active :: "nox_env \<Rightarrow> peer_event_t \<Rightarrow> sys \<Rightarrow> nox_err_t \<times> sys" where
  "sm_dispatch_active E ev st =
     (case ACTIVE_PEER st of None \<Rightarrow> (NOX_ERR_NOT_FOUND, st) | Some i \<Rightarrow> sm_dispatch E i ev st)"

end
