(* ===== verification/Nox_Peer_Props.thy ===== *)
theory Nox_Peer_Props
  imports Nox_Peer Nox_Database_Props
begin

text \<open>
  Properties of the peer state machine: the table is a function, every connected state can be
  closed and a closed slot holds nothing of its peer, one slot's events never touch another slot,
  and the approval of a new key is bound to the prompt the user saw.
\<close>

section \<open>Peers of a state\<close>

lemma get_upd_peer [simp]:
  "i < length (as_peers st) \<Longrightarrow> get_peer (upd_peer i f st) j = (if i = j then f (get_peer st i) else get_peer st j)"
  by (simp add: get_peer_def upd_peer_def)

lemma get_upd_peer_other [simp]: "i \<noteq> j \<Longrightarrow> get_peer (upd_peer i f st) j = get_peer st j"
  by (simp add: get_peer_def upd_peer_def)

lemma length_upd_peer [simp]: "length (as_peers (upd_peer i f st)) = length (as_peers st)"
  by (simp add: upd_peer_def)

lemma get_peer_emit [simp]: "get_peer (emit e st) j = get_peer st j" "as_peers (emit e st) = as_peers st"
  by (simp_all add: get_peer_def emit_def)

lemma get_peer_close [simp]: "get_peer (close_fd fd st) j = get_peer st j" "as_peers (close_fd fd st) = as_peers st"
  by (simp_all add: close_fd_def)

lemma get_peer_unlink [simp]:
  "get_peer (unlink_partial nm st) j = get_peer st j" "as_peers (unlink_partial nm st) = as_peers st"
  by (simp_all add: unlink_partial_def)

text \<open>Updates of the other fields do not concern the peers.\<close>

lemma get_peer_frame [simp]:
  "get_peer (st\<lparr>as_active_peer_idx := a\<rparr>) j = get_peer st j"
  "get_peer (st\<lparr>as_active_peer_onion := b\<rparr>) j = get_peer st j"
  "get_peer (st\<lparr>as_tofu_epoch := c\<rparr>) j = get_peer st j"
  "get_peer (st\<lparr>as_tofu_prompt_epoch := c\<rparr>) j = get_peer st j"
  "get_peer (st\<lparr>as_tofu_prompt_fp := b\<rparr>) j = get_peer st j"
  "get_peer (st\<lparr>io_heap := al\<rparr>) j = get_peer st j"
  "get_peer (st\<lparr>io_nonces := ns\<rparr>) j = get_peer st j"
  "get_peer (st\<lparr>io_db := d\<rparr>) j = get_peer st j"
  by (simp_all add: get_peer_def)

text \<open>The part of the state that the TOFU decision is bound to.\<close>

definition tofu_view :: "sys \<Rightarrow> u64 \<times> u64 \<times> bytes" where
  "tofu_view st = (as_tofu_epoch st, as_tofu_prompt_epoch st, as_tofu_prompt_fp st)"

lemma tofu_view_frame [simp]:
  "tofu_view (upd_peer i f st) = tofu_view st" "tofu_view (emit e st) = tofu_view st"
  "tofu_view (close_fd fd st) = tofu_view st" "tofu_view (unlink_partial nm st) = tofu_view st"
  "tofu_view (st\<lparr>as_active_peer_idx := a\<rparr>) = tofu_view st"
  "tofu_view (st\<lparr>as_active_peer_onion := b\<rparr>) = tofu_view st"
  "tofu_view (st\<lparr>io_heap := al\<rparr>) = tofu_view st" "tofu_view (st\<lparr>io_nonces := ns\<rparr>) = tofu_view st"
  "tofu_view (st\<lparr>io_db := d\<rparr>) = tofu_view st"
  by (simp_all add: tofu_view_def upd_peer_def emit_def close_fd_def unlink_partial_def)

section \<open>Cleanup\<close>

text \<open>A slot that holds nothing of a peer.\<close>

definition peer_clean :: "peer_session \<Rightarrow> bool" where
  "peer_clean ps \<longleftrightarrow> ps_fd ps < 0 \<and> ps_hs ps = None \<and> ps_session ps = None \<and> ps_tx_seq ps = 0 \<and> ps_rx_seq ps = 0 \<and>
     ps_peer_onion ps = [] \<and> ps_connect_target ps = [] \<and> ps_name ps = [] \<and> ps_tofu_onion ps = [] \<and> ps_tofu_name ps = [] \<and>
     ps_tofu_new_key ps = zeros NOX_KEY_LEN \<and> \<not> ps_tofu_pending ps \<and> \<not> ps_peer_verified ps \<and> \<not> ps_queue_flushed ps \<and>
     ps_recv_buf ps = [] \<and> \<not> rx_active (ps_rx_file ps) \<and> \<not> tx_active (ps_tx_file ps)"

lemma action_cleanup_peers:
  assumes "i < length (as_peers st)"
  shows "fst (action_cleanup i st) = NOX_OK"
    and "peer_clean (get_peer (snd (action_cleanup i st)) i)"
    and "ps_state (get_peer (snd (action_cleanup i st)) i) = ps_state (get_peer st i)"
    and "j \<noteq> i \<Longrightarrow> get_peer (snd (action_cleanup i st)) j = get_peer st j"
    and "length (as_peers (snd (action_cleanup i st))) = length (as_peers st)"
    and "tofu_view (snd (action_cleanup i st)) = tofu_view st"
    and "ps_tofu_epoch (get_peer (snd (action_cleanup i st)) i) = ps_tofu_epoch (get_peer st i)"
  using assms
  by (simp_all add: action_cleanup_def Let_def peer_clean_def zero_rx_def zero_tx_def)

lemma upd_peer_frame [simp]:
  "io_log (upd_peer i f st) = io_log st" "as_active_peer_idx (upd_peer i f st) = as_active_peer_idx st"
  "as_downloads_dir_fd (upd_peer i f st) = as_downloads_dir_fd st" "ACTIVE_PEER (upd_peer i f st) = ACTIVE_PEER st"
  by (simp_all add: upd_peer_def ACTIVE_PEER_def)

lemma effect_frame [simp]:
  "as_active_peer_idx (emit e st) = as_active_peer_idx st" "as_downloads_dir_fd (emit e st) = as_downloads_dir_fd st"
  "as_active_peer_idx (close_fd fd st) = as_active_peer_idx st" "as_downloads_dir_fd (close_fd fd st) = as_downloads_dir_fd st"
  "as_active_peer_idx (unlink_partial nm st) = as_active_peer_idx st"
  "as_downloads_dir_fd (unlink_partial nm st) = as_downloads_dir_fd st"
  "io_log (emit e st) = io_log st @ [e]" "io_log (close_fd fd st) = io_log st @ (if fd \<ge> 0 then [E_close fd] else [])"
  "io_log (unlink_partial nm st) = io_log st @ (if as_downloads_dir_fd st \<ge> 0 \<and> nm \<noteq> [] then [E_unlink nm] else [])"
  by (simp_all add: emit_def close_fd_def unlink_partial_def)

lemma cleanup_active: "i < NOX_MAX_PEERS \<Longrightarrow> as_active_peer_idx (snd (action_cleanup i st)) \<noteq> int i"
  by (simp add: action_cleanup_def Let_def ACTIVE_PEER_def split: if_splits) auto

lemma cleanup_log:
  "io_log (snd (action_cleanup i st)) = io_log st @
     (if ps_fd (get_peer st i) \<ge> 0 then [E_epoll_del (ps_fd (get_peer st i)), E_close (ps_fd (get_peer st i))] else []) @
     (if rx_active (ps_rx_file (get_peer st i)) \<and> rx_fd (ps_rx_file (get_peer st i)) \<ge> 0
      then [E_close (rx_fd (ps_rx_file (get_peer st i)))] else []) @
     (if rx_active (ps_rx_file (get_peer st i)) \<and> as_downloads_dir_fd st \<ge> 0 \<and> rx_local_name (ps_rx_file (get_peer st i)) \<noteq> []
      then [E_unlink (rx_local_name (ps_rx_file (get_peer st i)))] else []) @
     (if tx_active (ps_tx_file (get_peer st i)) \<and> tx_fd (ps_tx_file (get_peer st i)) \<ge> 0
      then [E_close (tx_fd (ps_tx_file (get_peer st i)))] else [])"
  by (simp add: action_cleanup_def Let_def)

section \<open>The table\<close>

lemma transitions_distinct: "distinct (map (\<lambda>(f, e, _). (f, e)) transitions)"
  by (simp add: transitions_def)

lemma find_first_row:
  assumes "distinct (map (\<lambda>(f, e, _). (f, e)) rows)"
  shows "find (\<lambda>(f, e, _). f = s \<and> e = ev) rows = Some (f, e, t, a) \<longleftrightarrow> f = s \<and> e = ev \<and> (s, ev, t, a) \<in> set rows"
  using assms by (induction rows) (auto simp: rev_image_eqI)

lemma sm_lookup_iff: "sm_lookup s ev = Some (t, a) \<longleftrightarrow> (s, ev, t, a) \<in> set transitions"
proof -
  have "sm_lookup s ev = Some (t, a) \<longleftrightarrow>
      (\<exists>f e. find (\<lambda>(f, e, _). f = s \<and> e = ev) transitions = Some (f, e, t, a))"
    by (auto simp: sm_lookup_def split: option.splits)
  then show ?thesis using find_first_row [OF transitions_distinct] by auto
qed

text \<open>Every row is of one of these shapes.\<close>

definition row_shape :: "peer_state_t \<Rightarrow> peer_event_t \<Rightarrow> peer_state_t \<Rightarrow> sm_action \<Rightarrow> bool" where
  "row_shape s ev t a \<longleftrightarrow>
    t = ST_IDLE \<and> a = A_cleanup \<or>
    s = ST_IDLE \<and> ev = EV_CONNECT_CMD \<and> t = ST_HANDSHAKE_INIT \<and> a = A_connect \<or>
    s = ST_IDLE \<and> ev = EV_PEER_ACCEPTED \<and> t = ST_HANDSHAKE_RESP \<and> a = A_accept \<or>
    (s = ST_HANDSHAKE_INIT \<or> s = ST_HANDSHAKE_RESP) \<and> ev = EV_HANDSHAKE_MSG \<and> t = s \<and> a = A_hs_process \<or>
    (s = ST_HANDSHAKE_INIT \<or> s = ST_HANDSHAKE_RESP) \<and> ev = EV_SESSION_READY \<and> t = ST_ACTIVE \<and> a = A_session_up \<or>
    (s = ST_HANDSHAKE_INIT \<or> s = ST_HANDSHAKE_RESP) \<and> ev = EV_HANDSHAKE_DONE \<and> t = ST_TOFU_PENDING \<and> a = A_tofu_prompt \<or>
    s = ST_TOFU_PENDING \<and> ev = EV_TOFU_ACCEPTED \<and> t = ST_ACTIVE \<and> a = A_tofu_accept \<or>
    s = ST_ACTIVE \<and> ev = EV_FILE_START \<and> t = ST_FILE_TX \<and> a = A_file_begin \<or>
    s = ST_ACTIVE \<and> ev = EV_FILE_RX_START \<and> t = ST_FILE_RX \<and> a = A_file_begin_rx \<or>
    (s = ST_FILE_TX \<or> s = ST_FILE_RX) \<and> ev = EV_FILE_DONE \<and> t = ST_ACTIVE \<and> a = A_file_end"

lemma sm_lookup_cases: "sm_lookup s ev = Some (t, a) \<Longrightarrow> row_shape s ev t a"
proof -
  have "list_all (\<lambda>(s, ev, t, a). row_shape s ev t a) transitions"
    by (simp add: transitions_def row_shape_def)
  then show "sm_lookup s ev = Some (t, a) \<Longrightarrow> row_shape s ev t a"
    by (auto simp: sm_lookup_iff list_all_iff)
qed

lemma sm_lookup_disconnect: "s \<noteq> ST_IDLE \<Longrightarrow> sm_lookup s EV_PEER_DISCONNECTED = Some (ST_IDLE, A_cleanup)"
  unfolding sm_lookup_iff by (cases s) (simp_all add: transitions_def)

lemma sm_lookup_tor_died: "sm_lookup s EV_TOR_DIED = Some (ST_IDLE, A_cleanup)"
  unfolding sm_lookup_iff by (cases s) (simp_all add: transitions_def)

lemma sm_lookup_idle_disconnect: "sm_lookup ST_IDLE EV_PEER_DISCONNECTED = None"
  by (simp add: sm_lookup_def transitions_def)

text \<open>The dispatch nested in \<open>action_tofu_accept\<close> is the ordinary one.\<close>

lemma nested_disconnect: "sm_disconnect i st = snd (sm_dispatch E i EV_PEER_DISCONNECTED st)"
proof -
  have "a \<noteq> A_tofu_accept" if "sm_lookup s EV_PEER_DISCONNECTED = Some (t, a)" for s t a
    using sm_lookup_cases [OF that] by (auto simp: row_shape_def)
  then show ?thesis
    by (auto simp: sm_disconnect_def sm_dispatch_def sm_row_def run_action_def split: option.splits prod.splits)
qed

section \<open>What a dispatch does\<close>

lemma sm_close:
  assumes "i < length (as_peers st)" "sm_lookup (ps_state (get_peer st i)) ev = Some (ST_IDLE, A_cleanup)"
  shows "sm_dispatch E i ev st = (NOX_OK, upd_peer i (ps_state_update (\<lambda>_. ST_IDLE)) (snd (action_cleanup i st)))"
proof -
  obtain st' where c: "action_cleanup i st = (NOX_OK, st')"
    using action_cleanup_peers(1) [OF assms(1)] by (metis prod.collapse)
  then show ?thesis using assms(2) by (simp add: sm_dispatch_def sm_row_def run_action_def)
qed

lemma sm_close_peers:
  assumes "i < length (as_peers st)" "sm_lookup (ps_state (get_peer st i)) ev = Some (ST_IDLE, A_cleanup)"
  shows "fst (sm_dispatch E i ev st) = NOX_OK" "peer_clean (get_peer (snd (sm_dispatch E i ev st)) i)"
    "ps_state (get_peer (snd (sm_dispatch E i ev st)) i) = ST_IDLE"
    "j \<noteq> i \<Longrightarrow> get_peer (snd (sm_dispatch E i ev st)) j = get_peer st j"
    "length (as_peers (snd (sm_dispatch E i ev st))) = length (as_peers st)"
    "tofu_view (snd (sm_dispatch E i ev st)) = tofu_view st"
    "ps_tofu_epoch (get_peer (snd (sm_dispatch E i ev st)) i) = ps_tofu_epoch (get_peer st i)"
  using action_cleanup_peers [OF assms(1)] assms(1)
  by (simp_all add: sm_close [OF assms] peer_clean_def)

text \<open>What an action keeps: the number of slots, the other slots and, prompts apart, the TOFU token.\<close>

definition keeps :: "nat \<Rightarrow> sys \<Rightarrow> sys \<Rightarrow> bool" where
  "keeps i st st' \<longleftrightarrow> length (as_peers st') = length (as_peers st) \<and> (\<forall>j. j \<noteq> i \<longrightarrow> get_peer st' j = get_peer st j)"

definition keeps_token :: "nat \<Rightarrow> sys \<Rightarrow> sys \<Rightarrow> bool" where
  "keeps_token i st st' \<longleftrightarrow> tofu_view st' = tofu_view st \<and> ps_tofu_epoch (get_peer st' i) = ps_tofu_epoch (get_peer st i)"

lemma keeps_refl [simp, intro]: "keeps i st st" "keeps_token i st st"
  by (simp_all add: keeps_def keeps_token_def)

lemma keeps_trans: "keeps i a b \<Longrightarrow> keeps i b c \<Longrightarrow> keeps i a c"
  by (simp add: keeps_def)

lemma keeps_token_trans: "keeps_token i a b \<Longrightarrow> keeps_token i b c \<Longrightarrow> keeps_token i a c"
  by (simp add: keeps_token_def)

lemma tofu_save_frame [simp]:
  "get_peer (tofu_save_contact E i st) j = get_peer st j" "as_peers (tofu_save_contact E i st) = as_peers st"
  "tofu_view (tofu_save_contact E i st) = tofu_view st"
  by (auto simp: tofu_save_contact_def next_nonce_def get_peer_def tofu_view_def Let_def split: list.splits)

lemma sys_malloc_frame:
  assumes "sys_malloc st = (ok, st')"
  shows "get_peer st' j = get_peer st j" "as_peers st' = as_peers st" "tofu_view st' = tofu_view st"
  using assms by (auto simp: sys_malloc_def get_peer_def tofu_view_def split: prod.splits)

lemma sm_disconnect_keeps:
  assumes "i < length (as_peers st)"
  shows "keeps i st (sm_disconnect i st)" "keeps_token i st (sm_disconnect i st)"
    and "ps_state (get_peer (sm_disconnect i st) i) = ST_IDLE"
proof (goal_cases)
  have idle: "sm_disconnect i st = st" if "ps_state (get_peer st i) = ST_IDLE"
    using that by (simp add: sm_disconnect_def sm_row_def sm_lookup_idle_disconnect)
  note other = sm_close_peers [OF assms sm_lookup_disconnect]
  {
    case 1
    then show ?case
      using idle other(4,5) by (cases "ps_state (get_peer st i) = ST_IDLE")
        (auto simp: nested_disconnect [where E = undefined] keeps_def)
  next
    case 2
    then show ?case
      using idle other(6,7) by (cases "ps_state (get_peer st i) = ST_IDLE")
        (auto simp: nested_disconnect [where E = undefined] keeps_token_def)
  next
    case 3
    then show ?case
      using idle other(3) by (cases "ps_state (get_peer st i) = ST_IDLE")
        (auto simp: nested_disconnect [where E = undefined])
  }
qed

lemma keeps_upd_peer: "keeps i st st' \<Longrightarrow> keeps i st (upd_peer i f st')"
  by (simp add: keeps_def)

lemma keeps_frame:
  "keeps i st (st'\<lparr>io_heap := al\<rparr>) = keeps i st st'" "keeps i st (st'\<lparr>as_active_peer_onion := b\<rparr>) = keeps i st st'"
  "keeps_token i st (st'\<lparr>io_heap := al\<rparr>) = keeps_token i st st'"
  "keeps_token i st (st'\<lparr>as_active_peer_onion := b\<rparr>) = keeps_token i st st'"
  by (simp_all add: keeps_def keeps_token_def)

lemma keeps_length: "keeps i st st' \<Longrightarrow> length (as_peers st') = length (as_peers st)"
  by (simp add: keeps_def)

section \<open>Accepting a key\<close>

text \<open>The outcomes of \<open>action_tofu_accept\<close>.\<close>

lemma tofu_accept_cases:
  assumes acc: "action_tofu_accept E sm_disconnect i st = (err, st')" and i: "i < length (as_peers st)"
  obtains (refused) "err = NOX_ERR_PROTO" "st' = st"
  | (closed) "err \<noteq> NOX_OK" "keeps i st st'" "keeps_token i st st'" "ps_state (get_peer st' i) = ST_IDLE"
  | (accepted) se where "err = NOX_OK" "ps_tofu_epoch (get_peer st i) = as_tofu_prompt_epoch st"
      "ps_tofu_new_key (get_peer st i) = as_tofu_prompt_fp st" "ps_hs (get_peer st i) \<noteq> None"
      "ps_session (get_peer st' i) = Some se" "ps_hs (get_peer st' i) = None" "\<not> ps_peer_verified (get_peer st' i)"
      "\<not> ps_queue_flushed (get_peer st' i)" "ps_state (get_peer st' i) = ps_state (get_peer st i)"
      "keeps i st st'" "keeps_token i st st'"
proof -
  let ?ps = "get_peer st i"
  consider (bad) "ps_tofu_epoch ?ps \<noteq> as_tofu_prompt_epoch st \<or> ps_tofu_new_key ?ps \<noteq> as_tofu_prompt_fp st"
    | (nohs) "ps_tofu_epoch ?ps = as_tofu_prompt_epoch st" "ps_tofu_new_key ?ps = as_tofu_prompt_fp st" "ps_hs ?ps = None"
    | (go) hs where "ps_tofu_epoch ?ps = as_tofu_prompt_epoch st" "ps_tofu_new_key ?ps = as_tofu_prompt_fp st"
        "ps_hs ?ps = Some hs"
    by blast
  then show thesis
  proof cases
    case bad
    with acc show ?thesis by (intro refused) (auto simp: action_tofu_accept_def)
  next
    case nohs
    with acc show ?thesis by (intro refused) (auto simp: action_tofu_accept_def)
  next
    case go
    obtain ok st1 where m: "sys_malloc (tofu_save_contact E i st) = (ok, st1)" by (rule prod.exhaust)
    note fr = sys_malloc_frame [OF m]
    obtain e hs' se al where sp: "handshake_split (ne_sodium E) hs fresh_session (io_heap st1) = (e, hs', se, al)"
      by (metis prod_cases4)
    have k1: "keeps i st st1" "keeps_token i st st1"
      using fr by (simp_all add: keeps_def keeps_token_def)
    consider "\<not> ok" | "ok" "e \<noteq> NOX_OK" | "ok" "e = NOX_OK" by blast
    then show ?thesis
    proof cases
      case 1
      with acc go m have "err = NOX_ERR_ALLOC" "st' = sm_disconnect i st1"
        by (simp_all add: action_tofu_accept_def)
      then show ?thesis
        using sm_disconnect_keeps [of i st1] fr i k1
        by (intro closed) (auto intro: keeps_trans keeps_token_trans)
    next
      case 2
      let ?s = "upd_peer i (\<lambda>ps. ps\<lparr>ps_hs := Some hs', ps_session := None\<rparr>) (st1\<lparr>io_heap := al\<rparr>)"
      have "err = NOX_ERR_PROTO" "st' = sm_disconnect i ?s"
        using 2 acc go m sp by (simp_all add: action_tofu_accept_def)
      moreover have "keeps i st ?s" "keeps_token i st ?s"
        using k1 fr i by (simp_all add: keeps_upd_peer keeps_frame, simp add: keeps_token_def)
      ultimately show ?thesis
        using sm_disconnect_keeps [of i ?s] fr i
        by (intro closed) (auto intro: keeps_trans keeps_token_trans)
    next
      case 3
      then have "err = NOX_OK" and st': "st' = snd (action_tofu_accept E sm_disconnect i st)"
        using acc go m sp by (simp_all add: action_tofu_accept_def Let_def)
      then show ?thesis
        using go k1 fr i m sp 3
        by (intro accepted [of se])
          (simp_all add: action_tofu_accept_def Let_def keeps_upd_peer keeps_frame, simp add: keeps_token_def)
    qed
  qed
qed

section \<open>One dispatch\<close>

definition tofu_prompted :: "nat \<Rightarrow> sys \<Rightarrow> sys \<Rightarrow> bool" where
  "tofu_prompted i st st' \<longleftrightarrow> as_tofu_epoch st' = as_tofu_epoch st + 1 \<and>
     ps_tofu_epoch (get_peer st' i) = as_tofu_epoch st' \<and>
     (if as_tofu_prompt_epoch st = 0
      then as_tofu_prompt_epoch st' = as_tofu_epoch st' \<and> as_tofu_prompt_fp st' = ps_tofu_new_key (get_peer st i)
      else as_tofu_prompt_epoch st' = as_tofu_prompt_epoch st \<and> as_tofu_prompt_fp st' = as_tofu_prompt_fp st)"

lemma tofu_prompt_effect:
  assumes "i < length (as_peers st)"
  shows "fst (action_tofu_prompt i st) = NOX_OK" "keeps i st (snd (action_tofu_prompt i st))"
    "tofu_prompted i st (snd (action_tofu_prompt i st))"
  using assms
  by (simp_all add: action_tofu_prompt_def Let_def keeps_def tofu_prompted_def upd_peer_def get_peer_def)

lemma tofu_prompted_set_state:
  "i < length (as_peers st') \<Longrightarrow> tofu_prompted i st (upd_peer i (ps_state_update (\<lambda>_. t)) st') = tofu_prompted i st st'"
  by (simp add: tofu_prompted_def upd_peer_def get_peer_def)

lemma keeps_token_set_state:
  "i < length (as_peers st') \<Longrightarrow> keeps_token i st (upd_peer i (ps_state_update (\<lambda>_. t)) st') = keeps_token i st st'"
  by (simp add: keeps_token_def)

lemma run_action_outcome:
  assumes "sm_lookup (ps_state (get_peer st i)) ev = Some (t, a)" "run_action E a i st = (err, st')"
    and i: "i < length (as_peers st)"
  shows "keeps i st st' \<and> (if ev = EV_HANDSHAKE_DONE then tofu_prompted i st st' else keeps_token i st st') \<and>
    (err \<noteq> NOX_OK \<longrightarrow> ps_state (get_peer st i) = ST_TOFU_PENDING \<and> ev = EV_TOFU_ACCEPTED \<and>
       (st' = st \<or> ps_state (get_peer st' i) = ST_IDLE))"
proof -
  note sh = sm_lookup_cases [OF assms(1), unfolded row_shape_def]
  have noprompt: "a = A_tofu_prompt \<longleftrightarrow> ev = EV_HANDSHAKE_DONE"
  proof
    show "a = A_tofu_prompt" if "ev = EV_HANDSHAKE_DONE"
      using assms(1) that by (cases "ps_state (get_peer st i)") (simp_all add: sm_lookup_def transitions_def)
  qed (use sh in auto)
  consider "a = A_cleanup" | "a = A_tofu_prompt" | "a = A_tofu_accept"
    | "a \<notin> {A_cleanup, A_tofu_prompt, A_tofu_accept}" by blast
  then show ?thesis
  proof cases
    case 1
    with assms(2) noprompt show ?thesis
      using action_cleanup_peers [OF i] by (auto simp: run_action_def keeps_def keeps_token_def)
  next
    case 2
    with assms(2) noprompt show ?thesis
      using tofu_prompt_effect [OF i] by (auto simp: run_action_def)
  next
    case 3
    then have acc: "action_tofu_accept E sm_disconnect i st = (err, st')" and ev: "ev = EV_TOFU_ACCEPTED"
      "ps_state (get_peer st i) = ST_TOFU_PENDING"
      using assms(2) sh by (auto simp: run_action_def)
    from acc i show ?thesis by (cases rule: tofu_accept_cases) (simp_all add: ev)
  next
    case 4
    then have "err = NOX_OK" "st' = st" using assms(2) by (cases a; simp add: run_action_def)+
    then show ?thesis using 4 noprompt by auto
  qed
qed

lemma sm_dispatch_outcome:
  assumes d: "sm_dispatch E i ev st = (err, st')" and i: "i < length (as_peers st)"
  shows "keeps i st st'"
    and "err = NOX_OK \<Longrightarrow> \<exists>a. sm_lookup (ps_state (get_peer st i)) ev = Some (ps_state (get_peer st' i), a)"
    and "err \<noteq> NOX_OK \<Longrightarrow> ps_state (get_peer st' i) = ps_state (get_peer st i) \<or>
      ps_state (get_peer st i) = ST_TOFU_PENDING \<and> ev = EV_TOFU_ACCEPTED \<and> ps_state (get_peer st' i) = ST_IDLE"
    and "if ev = EV_HANDSHAKE_DONE \<and> err = NOX_OK then tofu_prompted i st st' else keeps_token i st st'"
    and "sm_lookup (ps_state (get_peer st i)) ev = None \<Longrightarrow> err = NOX_ERR_STATE \<and> st' = st"
proof -
  have "keeps i st st' \<and>
    (err = NOX_OK \<longrightarrow> (\<exists>a. sm_lookup (ps_state (get_peer st i)) ev = Some (ps_state (get_peer st' i), a))) \<and>
    (err \<noteq> NOX_OK \<longrightarrow> ps_state (get_peer st' i) = ps_state (get_peer st i) \<or>
      ps_state (get_peer st i) = ST_TOFU_PENDING \<and> ev = EV_TOFU_ACCEPTED \<and> ps_state (get_peer st' i) = ST_IDLE) \<and>
    (if ev = EV_HANDSHAKE_DONE \<and> err = NOX_OK then tofu_prompted i st st' else keeps_token i st st') \<and>
    (sm_lookup (ps_state (get_peer st i)) ev = None \<longrightarrow> err = NOX_ERR_STATE \<and> st' = st)"
  proof (cases "sm_lookup (ps_state (get_peer st i)) ev")
    case None
    with d show ?thesis by (auto simp: sm_dispatch_def sm_row_def)
  next
    case (Some r)
    then obtain t a where ta: "sm_lookup (ps_state (get_peer st i)) ev = Some (t, a)" by (cases r) simp
    obtain e s1 where r: "run_action E a i st = (e, s1)" by (rule prod.exhaust)
    note o = run_action_outcome [OF ta r i]
    have l: "i < length (as_peers s1)" using o keeps_length i by metis
    show ?thesis
    proof (cases "e = NOX_OK")
      case True
      then have "err = NOX_OK" "st' = upd_peer i (ps_state_update (\<lambda>_. t)) s1"
        using d ta r by (simp_all add: sm_dispatch_def sm_row_def)
      then show ?thesis using o l ta
        by (simp add: keeps_upd_peer tofu_prompted_set_state keeps_token_set_state)
    next
      case False
      then have "err = e" "st' = s1" using d ta r by (simp_all add: sm_dispatch_def sm_row_def)
      then show ?thesis using False o ta by auto
    qed
  qed
  then show "keeps i st st'"
    and "err = NOX_OK \<Longrightarrow> \<exists>a. sm_lookup (ps_state (get_peer st i)) ev = Some (ps_state (get_peer st' i), a)"
    and "err \<noteq> NOX_OK \<Longrightarrow> ps_state (get_peer st' i) = ps_state (get_peer st i) \<or>
      ps_state (get_peer st i) = ST_TOFU_PENDING \<and> ev = EV_TOFU_ACCEPTED \<and> ps_state (get_peer st' i) = ST_IDLE"
    and "if ev = EV_HANDSHAKE_DONE \<and> err = NOX_OK then tofu_prompted i st st' else keeps_token i st st'"
    and "sm_lookup (ps_state (get_peer st i)) ev = None \<Longrightarrow> err = NOX_ERR_STATE \<and> st' = st"
    by blast+
qed

section \<open>Runs\<close>

text \<open>The abstract machine: the list of the slots' states. A dispatch that succeeds follows a row
  of the table; one that fails leaves the state, or drops a slot whose approval could not be
  completed.\<close>

inductive slot_step :: "peer_state_t list \<Rightarrow> nat \<Rightarrow> peer_event_t \<Rightarrow> bool \<Rightarrow> peer_state_t list \<Rightarrow> bool" where
  move: "i < length ss \<Longrightarrow> (ss ! i, ev, t, a) \<in> set transitions \<Longrightarrow> slot_step ss i ev True (ss[i := t])"
| stay: "slot_step ss i ev False ss"
| drop: "i < length ss \<Longrightarrow> ss ! i = ST_TOFU_PENDING \<Longrightarrow> slot_step ss i EV_TOFU_ACCEPTED False (ss[i := ST_IDLE])"

inductive_cases slot_stepE: "slot_step ss i ev ok ss'"

definition slot_states :: "sys \<Rightarrow> peer_state_t list" where
  "slot_states st = map ps_state (as_peers st)"

lemma length_slot_states [simp]: "length (slot_states st) = length (as_peers st)"
  by (simp add: slot_states_def)

lemma nth_slot_states: "i < length (as_peers st) \<Longrightarrow> slot_states st ! i = ps_state (get_peer st i)"
  by (simp add: slot_states_def get_peer_def)

lemma slot_states_keeps:
  assumes "keeps i st st'" "i < length (as_peers st)"
  shows "slot_states st' = (slot_states st)[i := ps_state (get_peer st' i)]"
proof (rule nth_equalityI)
  show "length (slot_states st') = length ((slot_states st)[i := ps_state (get_peer st' i)])"
    using keeps_length [OF assms(1)] by simp
next
  fix j assume "j < length (slot_states st')"
  then have "j < length (as_peers st')" "j < length (as_peers st)" using keeps_length [OF assms(1)] by simp_all
  then show "slot_states st' ! j = (slot_states st)[i := ps_state (get_peer st' i)] ! j"
    using assms by (cases "j = i") (simp_all add: nth_slot_states keeps_def)
qed

lemma dispatch_slot_step:
  assumes d: "sm_dispatch E i ev st = (err, st')" and i: "i < length (as_peers st)"
  shows "slot_step (slot_states st) i ev (err = NOX_OK) (slot_states st')"
proof -
  note o = sm_dispatch_outcome [OF d i]
  note eq = slot_states_keeps [OF o(1) i]
  show ?thesis
  proof (cases "err = NOX_OK")
    case True
    then obtain a where "(slot_states st ! i, ev, ps_state (get_peer st' i), a) \<in> set transitions"
      using o(2) i by (auto simp: sm_lookup_iff nth_slot_states)
    with True i show ?thesis by (auto simp: eq intro: slot_step.move)
  next
    case False
    from o(3) [OF False] show ?thesis
    proof
      assume "ps_state (get_peer st' i) = ps_state (get_peer st i)"
      then have "slot_states st' = slot_states st" using i by (simp add: eq nth_slot_states [symmetric])
      with False show ?thesis by (simp add: slot_step.stay)
    next
      assume "ps_state (get_peer st i) = ST_TOFU_PENDING \<and> ev = EV_TOFU_ACCEPTED \<and> ps_state (get_peer st' i) = ST_IDLE"
      with False i show ?thesis by (simp add: eq nth_slot_states slot_step.drop)
    qed
  qed
qed

text \<open>Between dispatches the rest of the program changes any field but the states, the epochs and
  the prompt.\<close>

definition env_step :: "sys \<Rightarrow> sys \<Rightarrow> bool" where
  "env_step st st' \<longleftrightarrow> slot_states st' = slot_states st \<and> tofu_view st' = tofu_view st \<and>
     map ps_tofu_epoch (as_peers st') = map ps_tofu_epoch (as_peers st)"

inductive sm_path :: "nox_env \<Rightarrow> sys \<Rightarrow> (nat \<times> peer_event_t \<times> nox_err_t) list \<Rightarrow> sys \<Rightarrow> bool" for E st where
  start: "sm_path E st [] st"
| dispatch: "sm_path E st es s1 \<Longrightarrow> i < length (as_peers s1) \<Longrightarrow> sm_dispatch E i ev s1 = (err, s2) \<Longrightarrow>
    sm_path E st (es @ [(i, ev, err)]) s2"
| other: "sm_path E st es s1 \<Longrightarrow> env_step s1 s2 \<Longrightarrow> sm_path E st es s2"

lemma env_step_slot:
  assumes "env_step st st'"
  shows "length (as_peers st') = length (as_peers st)" "tofu_view st' = tofu_view st"
    and "i < length (as_peers st) \<Longrightarrow> ps_state (get_peer st' i) = ps_state (get_peer st i)"
    and "i < length (as_peers st) \<Longrightarrow> ps_tofu_epoch (get_peer st' i) = ps_tofu_epoch (get_peer st i)"
proof -
  show l: "length (as_peers st') = length (as_peers st)" and "tofu_view st' = tofu_view st"
    using assms by (auto simp: env_step_def dest: map_eq_imp_length_eq)
  show "ps_state (get_peer st' i) = ps_state (get_peer st i)" if "i < length (as_peers st)"
    using assms l that by (metis env_step_def nth_slot_states)
  show "ps_tofu_epoch (get_peer st' i) = ps_tofu_epoch (get_peer st i)" if "i < length (as_peers st)"
    using assms l that by (simp add: env_step_def get_peer_def) (metis nth_map)
qed

lemma sm_path_length: "sm_path E st es st' \<Longrightarrow> length (as_peers st') = length (as_peers st)"
proof (induction rule: sm_path.induct)
  case (dispatch es s1 i ev err s2)
  then show ?case using keeps_length [OF sm_dispatch_outcome(1)] by metis
qed (simp_all add: env_step_slot(1))

end
