(* ===== verification/Nox_Machine_Props.thy ===== *)
theory Nox_Machine_Props
  imports Nox_Peer_Props
begin

text \<open>
  The properties of the peer state machine, over single dispatches and over runs in which the rest
  of the program changes everything the machine does not own.
\<close>

section \<open>Concrete states\<close>

definition toy_env :: nox_env where
  "toy_env = \<lparr>ne_sodium = toy_sodium, ne_onion = toy_onion, ne_box = toy_box, ne_sql = toy_sqlite,
     ne_hash32 = (\<lambda>b. take 32 (b @ zeros 32))\<rparr>"

definition toy_sys :: sys where
  "toy_sys = \<lparr>as_peers = replicate NOX_MAX_PEERS init_peer, as_active_peer_idx = -1, as_my_static_priv = Some (zeros 32),
     as_my_static_pub = Some (zeros 32), as_my_onion_seed = Some (zeros 32), as_hs_attempt_count = 0, as_hs_window_start = 0,
     as_hs_inbound_count = 0, as_hs_inbound_window_start = 0, as_tor_ctrl_fd = 5, as_tor_pid = 100, as_onion_addr = [],
     as_running = True, as_ghost_mode = False, as_downloads_dir_fd = 6, as_tofu_epoch = 0, as_tofu_prompt_epoch = 0,
     as_tofu_prompt_fp = zeros 32, as_active_peer_onion = [], io_now = 1000, io_heap = [], io_hash = [], io_db_heap = [], io_writev = [],
     io_file_write = [], io_sock_write = [], io_file_read = [], io_keys = [], io_nonces = [], io_rand = [], io_open = [],
     io_uid = 1000, io_dir_stat = Some \<lparr>si_lnk = False, si_dir = True, si_reg = False, si_uid = 1000, si_mode = 448, si_size = 0\<rparr>,
     io_disk_avail = Some (1000000, 4096),
     io_db = toy_db, io_log = []\<rparr>"

lemma toy_sys_peers [simp]: "as_peers toy_sys = replicate NOX_MAX_PEERS init_peer"
  by (simp add: toy_sys_def)

section \<open>Closing\<close>

text \<open>Whatever state a slot is in, the death of Tor closes it, and a disconnect closes every slot
  that is not idle already: the dispatch succeeds, the slot is idle and holds nothing of its peer
  (socket, handshake and session keys, names, pending approval, buffers, transfers), its socket and
  the descriptors of its transfers have been closed, a partly received file has been removed, it is
  no longer the active peer, and no other slot is changed.\<close>

theorem sm_always_closes:
  assumes "i < length (as_peers st)" "i < NOX_MAX_PEERS"
    and "ev = EV_TOR_DIED \<or> ev = EV_PEER_DISCONNECTED \<and> ps_state (get_peer st i) \<noteq> ST_IDLE"
  shows "\<exists>st'. sm_dispatch E i ev st = (NOX_OK, st') \<and> ps_state (get_peer st' i) = ST_IDLE \<and>
    peer_clean (get_peer st' i) \<and> as_active_peer_idx st' \<noteq> int i \<and> (\<forall>j. j \<noteq> i \<longrightarrow> get_peer st' j = get_peer st j) \<and>
    (let ps = get_peer st i; rx = ps_rx_file ps; tx = ps_tx_file ps in
       io_log st' = io_log st @
         (if ps_fd ps \<ge> 0 then [E_epoll_del (ps_fd ps), E_close (ps_fd ps)] else []) @
         (if rx_active rx \<and> rx_fd rx \<ge> 0 then [E_close (rx_fd rx)] else []) @
         (if rx_active rx \<and> as_downloads_dir_fd st \<ge> 0 \<and> rx_local_name rx \<noteq> [] then [E_unlink (rx_local_name rx)] else []) @
         (if tx_active tx \<and> tx_fd tx \<ge> 0 then [E_close (tx_fd tx)] else []))"
proof -
  have l: "sm_lookup (ps_state (get_peer st i)) ev = Some (ST_IDLE, A_cleanup)"
    using assms(3) sm_lookup_tor_died sm_lookup_disconnect by metis
  note c = sm_close_peers [OF assms(1) l, where E = E]
  have d: "sm_dispatch E i ev st = (NOX_OK, snd (sm_dispatch E i ev st))"
    using c(1) by (metis prod.collapse)
  have "as_active_peer_idx (snd (sm_dispatch E i ev st)) \<noteq> int i"
    using assms(2) by (simp add: sm_close [OF assms(1) l] cleanup_active)
  moreover note cleanup_log [of i st]
  ultimately show ?thesis using c d
    by (intro exI [of _ "snd (sm_dispatch E i ev st)"]) (auto simp: sm_close [OF assms(1) l] Let_def)
qed

definition busy_peer :: peer_session where
  "busy_peer = init_peer\<lparr>ps_state := ST_FILE_RX, ps_fd := 9, ps_session := Some fresh_session,
     ps_rx_file := zero_rx\<lparr>rx_active := True, rx_fd := 11, rx_local_name := str_bytes ''a.part''\<rparr>\<rparr>"

theorem sm_always_closes_witness:
  "\<exists>st'. sm_dispatch toy_env 2 EV_PEER_DISCONNECTED (upd_peer 2 (\<lambda>_. busy_peer) toy_sys) = (NOX_OK, st') \<and>
     peer_clean (get_peer st' 2) \<and> io_log st' = [E_epoll_del 9, E_close 9, E_close 11, E_unlink (str_bytes ''a.part'')]"
proof -
  let ?st = "upd_peer 2 (\<lambda>_. busy_peer) toy_sys"
  have p: "get_peer ?st 2 = busy_peer" "length (as_peers ?st) = 16"
    by (simp_all add: NOX_MAX_PEERS_def)
  have b: "ps_state busy_peer = ST_FILE_RX" "ps_fd busy_peer = 9" "\<not> tx_active (ps_tx_file busy_peer)"
    "ps_rx_file busy_peer = zero_rx\<lparr>rx_active := True, rx_fd := 11, rx_local_name := str_bytes ''a.part''\<rparr>"
    by (simp_all add: busy_peer_def init_peer_def zero_tx_def)
  have t: "io_log ?st = []" "as_downloads_dir_fd ?st = 6" by (simp_all add: toy_sys_def)
  obtain st' where "sm_dispatch toy_env 2 EV_PEER_DISCONNECTED ?st = (NOX_OK, st')" "peer_clean (get_peer st' 2)"
    and lg: "let ps = get_peer ?st 2; rx = ps_rx_file ps; tx = ps_tx_file ps in
       io_log st' = io_log ?st @
         (if ps_fd ps \<ge> 0 then [E_epoll_del (ps_fd ps), E_close (ps_fd ps)] else []) @
         (if rx_active rx \<and> rx_fd rx \<ge> 0 then [E_close (rx_fd rx)] else []) @
         (if rx_active rx \<and> as_downloads_dir_fd ?st \<ge> 0 \<and> rx_local_name rx \<noteq> [] then [E_unlink (rx_local_name rx)] else []) @
         (if tx_active tx \<and> tx_fd tx \<ge> 0 then [E_close (tx_fd tx)] else [])"
    using sm_always_closes [of 2 ?st EV_PEER_DISCONNECTED toy_env] p b(1)
    by (simp only: NOX_MAX_PEERS_def peer_state_t.distinct) auto
  moreover have "io_log st' = [E_epoll_del 9, E_close 9, E_close 11, E_unlink (str_bytes ''a.part'')]"
    using lg by (simp only: p b t Let_def) (simp add: str_bytes_def)
  ultimately show ?thesis by blast
qed

section \<open>The table is implemented\<close>

text \<open>The dispatcher implements its table: seen through the states of the slots, a dispatch that
  returns \<open>NOX_OK\<close> moves the slot along the row of the table for its state and event, every other
  outcome leaves all states as they are, except that an approval which cannot be completed drops
  the slot to idle; an event with no row is refused with \<open>NOX_ERR_STATE\<close> and changes nothing.\<close>

theorem sm_refines_table:
  assumes "sm_dispatch E i ev st = (err, st')" "i < length (as_peers st)"
  shows "slot_step (slot_states st) i ev (err = NOX_OK) (slot_states st') \<and>
    ((\<forall>t a. (ps_state (get_peer st i), ev, t, a) \<notin> set transitions) \<longrightarrow> err = NOX_ERR_STATE \<and> st' = st)"
proof -
  have "sm_lookup (ps_state (get_peer st i)) ev = None"
    if "\<forall>t a. (ps_state (get_peer st i), ev, t, a) \<notin> set transitions"
    using that by (metis not_None_eq sm_lookup_iff surj_pair)
  then show ?thesis using dispatch_slot_step [OF assms] sm_dispatch_outcome(5) [OF assms] by blast
qed

theorem sm_refines_table_witness:
  "slot_step (slot_states toy_sys) 3 EV_PEER_ACCEPTED True
     (slot_states (snd (sm_dispatch toy_env 3 EV_PEER_ACCEPTED toy_sys))) \<and>
   sm_dispatch toy_env 3 EV_FILE_DONE toy_sys = (NOX_ERR_STATE, toy_sys)"
proof -
  have a: "fst (sm_dispatch toy_env 3 EV_PEER_ACCEPTED toy_sys) = NOX_OK"
    by (simp add: sm_dispatch_def sm_row_def get_peer_def NOX_MAX_PEERS_def init_peer_def sm_lookup_def transitions_def
        run_action_def)
  have b: "ps_state (get_peer toy_sys 3) = ST_IDLE"
    by (simp add: get_peer_def NOX_MAX_PEERS_def init_peer_def)
  have c: "\<forall>t a. (ST_IDLE, EV_FILE_DONE, t, a) \<notin> set transitions" by (simp add: transitions_def)
  have l: "3 < length (as_peers toy_sys)" by (simp add: NOX_MAX_PEERS_def)
  have "slot_step (slot_states toy_sys) 3 EV_PEER_ACCEPTED (fst (sm_dispatch toy_env 3 EV_PEER_ACCEPTED toy_sys) = NOX_OK)
      (slot_states (snd (sm_dispatch toy_env 3 EV_PEER_ACCEPTED toy_sys)))"
    by (rule sm_refines_table [OF prod.collapse [symmetric] l, THEN conjunct1])
  moreover have "fst (sm_dispatch toy_env 3 EV_FILE_DONE toy_sys) = NOX_ERR_STATE \<and>
      snd (sm_dispatch toy_env 3 EV_FILE_DONE toy_sys) = toy_sys"
    using sm_refines_table [OF prod.collapse [symmetric] l, where E = toy_env and ev = EV_FILE_DONE] b c by simp
  ultimately show ?thesis using a by (simp add: prod_eq_iff)
qed

section \<open>A conversation needs an approval\<close>

definition conversing :: "peer_state_t set" where "conversing = {ST_ACTIVE, ST_FILE_TX, ST_FILE_RX}"

lemma slot_step_conversing:
  assumes "slot_step ss j ev ok ss'" "ss' ! i \<in> conversing" "i < length ss"
  shows "j = i \<and> ok \<and> ev \<in> {EV_SESSION_READY, EV_TOFU_ACCEPTED} \<or>
    ss ! i \<in> conversing \<and> (j = i \<and> ok \<longrightarrow> ev \<in> {EV_FILE_START, EV_FILE_RX_START, EV_FILE_DONE})"
  using assms(1)
proof cases
  case (move t a)
  then have "row_shape (ss ! j) ev t a" by (simp add: sm_lookup_iff [symmetric] sm_lookup_cases)
  with move assms(2,3) show ?thesis
    by (cases "j = i") (auto simp: row_shape_def conversing_def)
next
  case stay
  with assms show ?thesis by simp
next
  case drop
  with assms show ?thesis by (cases "j = i") (auto simp: conversing_def)
qed

text \<open>C15. No slot reaches a state in which messages or files are exchanged without an approval:
  in every run from a state where the slot was not conversing, if the slot is active (or in a file
  transfer) then the run contains a successful \<open>EV_SESSION_READY\<close> (a known, verified peer) or
  \<open>EV_TOFU_ACCEPTED\<close> (the user's yes) for that slot, after which the only events the slot accepted
  are those of file transfers.\<close>

theorem conversation_approved:
  assumes "sm_path E st es st'" "i < length (as_peers st)" "ps_state (get_peer st i) \<notin> conversing"
    and "ps_state (get_peer st' i) \<in> conversing"
  shows "\<exists>es1 ev es2. es = es1 @ (i, ev, NOX_OK) # es2 \<and> ev \<in> {EV_SESSION_READY, EV_TOFU_ACCEPTED} \<and>
    (\<forall>e. (i, e, NOX_OK) \<in> set es2 \<longrightarrow> e \<in> {EV_FILE_START, EV_FILE_RX_START, EV_FILE_DONE})"
  using assms
proof (induction rule: sm_path.induct)
  case start
  then show ?case by simp
next
  case (dispatch es s1 j ev err s2)
  have l: "i < length (as_peers s1)" "i < length (as_peers s2)"
    using sm_path_length [OF dispatch.hyps(1)] sm_path_length [OF sm_path.dispatch [OF dispatch.hyps]] dispatch.prems(1)
    by simp_all
  have "slot_step (slot_states s1) j ev (err = NOX_OK) (slot_states s2)"
    by (rule dispatch_slot_step [OF dispatch.hyps(3,2)])
  from slot_step_conversing [OF this, of i] dispatch.prems(3) l
  consider "j = i" "err = NOX_OK" "ev \<in> {EV_SESSION_READY, EV_TOFU_ACCEPTED}"
    | "ps_state (get_peer s1 i) \<in> conversing" "j = i \<and> err = NOX_OK \<longrightarrow> ev \<in> {EV_FILE_START, EV_FILE_RX_START, EV_FILE_DONE}"
    by (auto simp: nth_slot_states)
  then show ?case
  proof cases
    case 1
    then show ?thesis by (intro exI [of _ es] exI [of _ ev] exI [of _ "[]"]) simp
  next
    case 2
    from dispatch.IH [OF dispatch.prems(1,2) 2(1)] obtain es1 e1 es2 where
      "es = es1 @ (i, e1, NOX_OK) # es2" "e1 \<in> {EV_SESSION_READY, EV_TOFU_ACCEPTED}"
      "\<forall>e. (i, e, NOX_OK) \<in> set es2 \<longrightarrow> e \<in> {EV_FILE_START, EV_FILE_RX_START, EV_FILE_DONE}" by blast
    with 2(2) show ?thesis
      by (intro exI [of _ es1] exI [of _ e1] exI [of _ "es2 @ [(j, ev, err)]"]) auto
  qed
next
  case (other es s1 s2)
  then show ?case using env_step_slot(3) [OF other.hyps(2)] sm_path_length [OF other.hyps(1)] by auto
qed

lemma simple_dispatch:
  assumes "sm_lookup (ps_state (get_peer st i)) ev = Some (t, a)" "a \<notin> {A_cleanup, A_tofu_prompt, A_tofu_accept}"
  shows "sm_dispatch E i ev st = (NOX_OK, upd_peer i (ps_state_update (\<lambda>_. t)) st)"
proof -
  have "run_action E a i st = (NOX_OK, st)" using assms(2) by (cases a) (simp_all add: run_action_def)
  then show ?thesis using assms(1) by (simp add: sm_dispatch_def sm_row_def)
qed

lemma toy_peer: "i < 16 \<Longrightarrow> get_peer toy_sys i = init_peer"
  by (simp add: get_peer_def NOX_MAX_PEERS_def)

lemma toy_length: "length (as_peers toy_sys) = 16"
  by (simp add: NOX_MAX_PEERS_def)

lemma init_peer_state [simp]: "ps_state init_peer = ST_IDLE"
  by (simp add: init_peer_def)

lemma lookup_connect: "sm_lookup ST_IDLE EV_CONNECT_CMD = Some (ST_HANDSHAKE_INIT, A_connect)"
  by (simp add: sm_lookup_def transitions_def)

lemma lookup_ready: "sm_lookup ST_HANDSHAKE_INIT EV_SESSION_READY = Some (ST_ACTIVE, A_session_up)"
  by (simp add: sm_lookup_def transitions_def)

lemma lookup_done: "sm_lookup ST_HANDSHAKE_INIT EV_HANDSHAKE_DONE = Some (ST_TOFU_PENDING, A_tofu_prompt)"
  by (simp add: sm_lookup_def transitions_def)

lemma toy_connect:
  "sm_dispatch E 0 EV_CONNECT_CMD toy_sys = (NOX_OK, upd_peer 0 (ps_state_update (\<lambda>_. ST_HANDSHAKE_INIT)) toy_sys)"
  by (rule simple_dispatch [where a = A_connect]) (simp_all add: toy_peer lookup_connect)

theorem conversation_approved_witness:
  "\<exists>es st'. sm_path toy_env toy_sys es st' \<and> ps_state (get_peer st' 0) = ST_ACTIVE \<and>
    (\<exists>es1 ev es2. es = es1 @ (0, ev, NOX_OK) # es2 \<and> ev \<in> {EV_SESSION_READY, EV_TOFU_ACCEPTED})"
proof -
  let ?s1 = "upd_peer 0 (ps_state_update (\<lambda>_. ST_HANDSHAKE_INIT)) toy_sys"
  let ?s2 = "upd_peer 0 (ps_state_update (\<lambda>_. ST_ACTIVE)) ?s1"
  have "sm_dispatch toy_env 0 EV_SESSION_READY ?s1 = (NOX_OK, ?s2)"
    by (rule simple_dispatch [where a = A_session_up]) (simp_all add: toy_length lookup_ready del: toy_sys_peers)
  then have p: "sm_path toy_env toy_sys ([] @ [(0, EV_CONNECT_CMD, NOX_OK)] @ [(0, EV_SESSION_READY, NOX_OK)]) ?s2"
    unfolding append_assoc [symmetric]
    by (intro sm_path.dispatch [OF sm_path.dispatch [OF sm_path.start _ toy_connect]])
      (simp_all add: toy_length del: toy_sys_peers)
  have s: "ps_state (get_peer ?s2 0) = ST_ACTIVE" by (simp add: toy_length del: toy_sys_peers)
  have "\<exists>es1 ev es2. [] @ [(0 :: nat, EV_CONNECT_CMD, NOX_OK)] @ [(0, EV_SESSION_READY, NOX_OK)] = es1 @ (0, ev, NOX_OK) # es2 \<and>
      ev \<in> {EV_SESSION_READY, EV_TOFU_ACCEPTED} \<and>
      (\<forall>e. (0, e, NOX_OK) \<in> set es2 \<longrightarrow> e \<in> {EV_FILE_START, EV_FILE_RX_START, EV_FILE_DONE})"
    by (rule conversation_approved [OF p]) (simp_all add: toy_length toy_peer s conversing_def del: toy_sys_peers)
  with p s show ?thesis by blast
qed

section \<open>Approval of new keys\<close>

text \<open>The user's approval is bound to what the user saw: \<open>EV_TOFU_ACCEPTED\<close> succeeds only for a
  slot that waits for approval, whose epoch is that of the prompt on screen, whose key is the key of
  that prompt, and which still has its handshake; it then has a session and no handshake, and it is
  not marked verified, so that the queued messages stay where they are.\<close>

theorem tofu_accept_bound:
  assumes d: "sm_dispatch E i EV_TOFU_ACCEPTED st = (NOX_OK, st')" and i: "i < length (as_peers st)"
  shows "ps_state (get_peer st i) = ST_TOFU_PENDING \<and> ps_tofu_epoch (get_peer st i) = as_tofu_prompt_epoch st \<and>
    ps_tofu_new_key (get_peer st i) = as_tofu_prompt_fp st \<and> ps_hs (get_peer st i) \<noteq> None \<and>
    ps_state (get_peer st' i) = ST_ACTIVE \<and> ps_session (get_peer st' i) \<noteq> None \<and> ps_hs (get_peer st' i) = None \<and>
    \<not> ps_peer_verified (get_peer st' i) \<and> \<not> ps_queue_flushed (get_peer st' i)"
proof -
  obtain t a where l: "sm_lookup (ps_state (get_peer st i)) EV_TOFU_ACCEPTED = Some (t, a)"
    using sm_dispatch_outcome(2) [OF d i] by auto
  then have s: "ps_state (get_peer st i) = ST_TOFU_PENDING" "t = ST_ACTIVE" "a = A_tofu_accept"
    by (cases "ps_state (get_peer st i)"; simp add: sm_lookup_def transitions_def)+
  obtain e s1 where acc: "action_tofu_accept E sm_disconnect i st = (e, s1)" by (rule prod.exhaust)
  with d l s have e: "e = NOX_OK" "st' = upd_peer i (ps_state_update (\<lambda>_. ST_ACTIVE)) s1"
    by (simp_all add: sm_dispatch_def sm_row_def run_action_def split: if_splits)
  from acc i show ?thesis
  proof (cases rule: tofu_accept_cases)
    case (accepted se)
    then show ?thesis using s e keeps_length [OF accepted(10)] i by simp
  qed (simp_all add: e)
qed

definition tofu_sys :: sys where
  "tofu_sys = (upd_peer 0 (\<lambda>_. init_peer\<lparr>ps_state := ST_TOFU_PENDING, ps_tofu_epoch := 1,
     ps_hs := Some ((handshake_init toy_sodium True (zeros 32) (zeros 32))\<lparr>hs_msg_index := 3\<rparr>)\<rparr>) toy_sys)
     \<lparr>as_tofu_epoch := 1, as_tofu_prompt_epoch := 1\<rparr>"

lemma tofu_sys_accepts: "fst (sm_dispatch toy_env 0 EV_TOFU_ACCEPTED tofu_sys) = NOX_OK"
  by code_simp

theorem tofu_accept_bound_witness:
  "ps_session (get_peer (snd (sm_dispatch toy_env 0 EV_TOFU_ACCEPTED tofu_sys)) 0) \<noteq> None \<and>
   ps_tofu_epoch (get_peer tofu_sys 0) = as_tofu_prompt_epoch tofu_sys"
proof -
  have "sm_dispatch toy_env 0 EV_TOFU_ACCEPTED tofu_sys =
      (NOX_OK, snd (sm_dispatch toy_env 0 EV_TOFU_ACCEPTED tofu_sys))"
    using tofu_sys_accepts by (metis prod.collapse)
  from tofu_accept_bound [OF this] show ?thesis
    by (simp add: tofu_sys_def NOX_MAX_PEERS_def)
qed

lemma tofu_viewD:
  "tofu_view st' = tofu_view st \<Longrightarrow> as_tofu_epoch st' = as_tofu_epoch st \<and>
     as_tofu_prompt_epoch st' = as_tofu_prompt_epoch st \<and> as_tofu_prompt_fp st' = as_tofu_prompt_fp st"
  by (simp add: tofu_view_def)

lemma dispatch_prompt:
  assumes "sm_dispatch E i ev st = (err, st')" "i < length (as_peers st)" "as_tofu_prompt_epoch st \<noteq> 0"
  shows "as_tofu_prompt_epoch st' = as_tofu_prompt_epoch st \<and> as_tofu_prompt_fp st' = as_tofu_prompt_fp st"
  using sm_dispatch_outcome(4) [OF assms(1,2)] assms(3)
  by (auto simp: tofu_prompted_def keeps_token_def dest: tofu_viewD split: if_splits)

lemma path_prompt:
  assumes "sm_path E st es st'" "as_tofu_prompt_epoch st \<noteq> 0"
  shows "as_tofu_prompt_epoch st' = as_tofu_prompt_epoch st \<and> as_tofu_prompt_fp st' = as_tofu_prompt_fp st"
  using assms
proof (induction rule: sm_path.induct)
  case (dispatch es s1 i ev err s2)
  then show ?case using dispatch_prompt [OF dispatch.hyps(3,2)] by simp
next
  case (other es s1 s2)
  then show ?case using tofu_viewD [OF env_step_slot(2) [OF other.hyps(2)]] by simp
qed simp

text \<open>While the user has not answered, the prompt on screen stays the one that will be answered:
  no run of dispatches, with whatever other peers do in between, replaces the epoch or the key of a
  pending prompt.\<close>

theorem prompt_not_overwritten:
  assumes "sm_path E st es st'" "as_tofu_prompt_epoch st \<noteq> 0"
  shows "as_tofu_prompt_epoch st' = as_tofu_prompt_epoch st \<and> as_tofu_prompt_fp st' = as_tofu_prompt_fp st"
  by (rule path_prompt [OF assms])

lemma toy_stale:
  "\<exists>st'. sm_path toy_env (toy_sys\<lparr>as_tofu_epoch := 1, as_tofu_prompt_epoch := 1\<rparr>)
     [(0, EV_CONNECT_CMD, NOX_OK), (0, EV_HANDSHAKE_DONE, NOX_OK)] st'"
proof -
  let ?s0 = "toy_sys\<lparr>as_tofu_epoch := 1, as_tofu_prompt_epoch := 1\<rparr>"
  let ?s1 = "upd_peer 0 (ps_state_update (\<lambda>_. ST_HANDSHAKE_INIT)) ?s0"
  have l: "0 < length (as_peers ?s0)" "0 < length (as_peers ?s1)" by (simp_all add: NOX_MAX_PEERS_def)
  have d1: "sm_dispatch toy_env 0 EV_CONNECT_CMD ?s0 = (NOX_OK, ?s1)"
    by (rule simple_dispatch [where a = A_connect]) (simp_all add: toy_peer lookup_connect)
  have "fst (sm_dispatch toy_env 0 EV_HANDSHAKE_DONE ?s1) = NOX_OK" by code_simp
  then have d2: "sm_dispatch toy_env 0 EV_HANDSHAKE_DONE ?s1 = (NOX_OK, snd (sm_dispatch toy_env 0 EV_HANDSHAKE_DONE ?s1))"
    by (metis prod.collapse)
  from sm_path.dispatch [OF sm_path.dispatch [OF sm_path.start l(1) d1] l(2) d2] show ?thesis by auto
qed

theorem prompt_not_overwritten_witness:
  "\<exists>st'. sm_path toy_env (toy_sys\<lparr>as_tofu_epoch := 1, as_tofu_prompt_epoch := 1\<rparr>)
     [(0, EV_CONNECT_CMD, NOX_OK), (0, EV_HANDSHAKE_DONE, NOX_OK)] st' \<and> as_tofu_prompt_epoch st' = 1"
proof -
  obtain st' where p: "sm_path toy_env (toy_sys\<lparr>as_tofu_epoch := 1, as_tofu_prompt_epoch := 1\<rparr>)
     [(0, EV_CONNECT_CMD, NOX_OK), (0, EV_HANDSHAKE_DONE, NOX_OK)] st'" using toy_stale by blast
  then show ?thesis using prompt_not_overwritten [OF p] by auto
qed

text \<open>Epochs only grow while the counter does not wrap.\<close>

lemma unat_Suc_word: "unat (w :: u64) + 1 < 2 ^ 64 \<Longrightarrow> unat (w + 1) = unat w + 1"
  by (simp add: unat_word_ariths)

lemma path_epochs:
  assumes "sm_path E st es st'" "i < length (as_peers st)" "unat (as_tofu_epoch st) + length es < 2 ^ 64"
    and "unat e \<le> unat (as_tofu_epoch st)"
  shows "unat (as_tofu_epoch st') \<le> unat (as_tofu_epoch st) + length es \<and> unat e \<le> unat (as_tofu_epoch st') \<and>
    ((i, EV_HANDSHAKE_DONE, NOX_OK) \<in> set es \<longrightarrow> unat e < unat (ps_tofu_epoch (get_peer st' i)))"
  using assms
proof (induction rule: sm_path.induct)
  case (dispatch es s1 j ev err s2)
  have l: "i < length (as_peers s1)" using sm_path_length [OF dispatch.hyps(1)] dispatch.prems(1) by simp
  have b: "unat (as_tofu_epoch st) + length es + 1 < 2 ^ 64" using dispatch.prems(2) by simp
  have ih: "unat (as_tofu_epoch s1) \<le> unat (as_tofu_epoch st) + length es" "unat e \<le> unat (as_tofu_epoch s1)"
    "(i, EV_HANDSHAKE_DONE, NOX_OK) \<in> set es \<longrightarrow> unat e < unat (ps_tofu_epoch (get_peer s1 i))"
    using dispatch.IH [OF dispatch.prems(1) _ dispatch.prems(3)] b by linarith+
  have up: "unat (as_tofu_epoch s1 + 1) = unat (as_tofu_epoch s1) + 1" using ih(1) b by (intro unat_Suc_word) linarith
  note o = sm_dispatch_outcome(1,4) [OF dispatch.hyps(3,2)]
  have same: "i \<noteq> j \<Longrightarrow> get_peer s2 i = get_peer s1 i" using o(1) by (simp add: keeps_def)
  show ?case
  proof (cases "ev = EV_HANDSHAKE_DONE \<and> err = NOX_OK")
    case True
    with o(2) have "as_tofu_epoch s2 = as_tofu_epoch s1 + 1" "ps_tofu_epoch (get_peer s2 j) = as_tofu_epoch s2"
      by (simp_all add: tofu_prompted_def)
    with ih up same True show ?thesis by (cases "i = j") auto
  next
    case False
    with o(2) have "as_tofu_epoch s2 = as_tofu_epoch s1" "ps_tofu_epoch (get_peer s2 j) = ps_tofu_epoch (get_peer s1 j)"
      by (auto simp: keeps_token_def dest: tofu_viewD)
    with ih same False show ?thesis by (cases "i = j") auto
  qed
next
  case (other es s1 s2)
  have "i < length (as_peers s1)" using sm_path_length [OF other.hyps(1)] other.prems(1) by simp
  then show ?case
    using other.IH [OF other.prems] env_step_slot(4) [OF other.hyps(2)] tofu_viewD [OF env_step_slot(2) [OF other.hyps(2)]]
    by simp
qed simp

text \<open>A late yes cannot approve another key: if the slot the prompt was about has been through a
  new handshake since the prompt was shown (the peer dropped and someone else took the slot), then
  \<open>EV_TOFU_ACCEPTED\<close> for the slot is refused and changes nothing. The epoch counter is 64 bits wide
  and is assumed not to wrap within the run.\<close>

theorem stale_approval_refused:
  assumes "sm_path E st es st'" "i < length (as_peers st)" "as_tofu_prompt_epoch st \<noteq> 0"
    and "unat (as_tofu_prompt_epoch st) \<le> unat (as_tofu_epoch st)" "unat (as_tofu_epoch st) + length es < 2 ^ 64"
    and "(i, EV_HANDSHAKE_DONE, NOX_OK) \<in> set es"
  shows "\<exists>err. sm_dispatch E i EV_TOFU_ACCEPTED st' = (err, st') \<and> err \<noteq> NOX_OK"
proof -
  have "ps_tofu_epoch (get_peer st' i) \<noteq> as_tofu_prompt_epoch st'"
    using path_epochs [OF assms(1,2,5,4)] path_prompt [OF assms(1,3)] assms(6) by auto
  then have r: "action_tofu_accept E sm_disconnect i st' = (NOX_ERR_PROTO, st')"
    by (simp add: action_tofu_accept_def)
  show ?thesis
  proof (cases "sm_lookup (ps_state (get_peer st' i)) EV_TOFU_ACCEPTED")
    case None
    then show ?thesis by (simp add: sm_dispatch_def sm_row_def)
  next
    case (Some ta)
    then obtain t a where "sm_lookup (ps_state (get_peer st' i)) EV_TOFU_ACCEPTED = Some (t, a)" by (cases ta) simp
    moreover from this have "a = A_tofu_accept"
      by (cases "ps_state (get_peer st' i)") (simp_all add: sm_lookup_def transitions_def)
    ultimately show ?thesis using r by (simp add: sm_dispatch_def sm_row_def run_action_def)
  qed
qed

theorem stale_approval_refused_witness:
  "\<exists>st' err. sm_path toy_env (toy_sys\<lparr>as_tofu_epoch := 1, as_tofu_prompt_epoch := 1\<rparr>)
     [(0, EV_CONNECT_CMD, NOX_OK), (0, EV_HANDSHAKE_DONE, NOX_OK)] st' \<and>
     sm_dispatch toy_env 0 EV_TOFU_ACCEPTED st' = (err, st') \<and> err \<noteq> NOX_OK"
proof -
  obtain st' where p: "sm_path toy_env (toy_sys\<lparr>as_tofu_epoch := 1, as_tofu_prompt_epoch := 1\<rparr>)
     [(0, EV_CONNECT_CMD, NOX_OK), (0, EV_HANDSHAKE_DONE, NOX_OK)] st'" using toy_stale by blast
  have "\<exists>err. sm_dispatch toy_env 0 EV_TOFU_ACCEPTED st' = (err, st') \<and> err \<noteq> NOX_OK"
    by (rule stale_approval_refused [OF p]) (simp_all add: NOX_MAX_PEERS_def)
  with p show ?thesis by blast
qed

end
