(* ===== verification/Nox_File.thy ===== *)
theory Nox_File
  imports Nox_Peer
begin

text \<open>
  File transfer: \<^verbatim>\<open>src/file_transfer.c\<close>. A file goes out as one METADATA frame (name, size and the
  digest of size and content) followed by chunks of at most 4096 bytes; the receiver writes them under
  a sanitised name and keeps the file only when the digest agrees. The answers of the kernel for the
  local file, the socket and the download directory are fields of \<open>sys\<close>; a regular file accepts a
  write in full once its answers are used up, a socket then answers \<^verbatim>\<open>EAGAIN\<close>, a read then answers
  the end of the file.
\<close>

section \<open>File names\<close>

definition ascii_slash :: byte where "ascii_slash = 47"
definition ascii_dot :: byte where "ascii_dot = 46"
definition ascii_us :: byte where "ascii_us = 95"

lemmas ascii_defs = ascii_slash_def ascii_dot_def ascii_us_def

text \<open>What follows the last slash.\<close>

definition after_last_slash :: "bytes \<Rightarrow> bytes" where
  "after_last_slash name = rev (takeWhile (\<lambda>c. c \<noteq> ascii_slash) (rev name))"

definition name_allowed :: "byte \<Rightarrow> bool" where
  "name_allowed c \<longleftrightarrow> (97 \<le> c \<and> c \<le> 122) \<or> (65 \<le> c \<and> c \<le> 90) \<or> (48 \<le> c \<and> c \<le> 57) \<or>
     c = ascii_dot \<or> c = ascii_us \<or> c = 45"

fun break_dots :: "bytes \<Rightarrow> bytes" where
  "break_dots (x # y # r) =
     (if x = ascii_dot \<and> y = ascii_dot then ascii_us # break_dots (ascii_us # r) else x # break_dots (y # r))"
| "break_dots r = r"

text \<open>\<open>printf\<close> with \<^verbatim>\<open>%08x\<close>.\<close>

definition hex_digit :: "u32 \<Rightarrow> byte" where
  "hex_digit d = (if d < 10 then 48 + ucast d else 87 + ucast d)"

definition hex8 :: "u32 \<Rightarrow> bytes" where
  "hex8 w = map (\<lambda>i. hex_digit (drop_bit (4 * i) w AND 15)) [7, 6, 5, 4, 3, 2, 1, 0]"

text \<open>Steps 1 to 4 of \<open>sanitize_filename\<close>; step 5 replaces an empty name and needs randomness.\<close>

definition sanitize_steps :: "bytes \<Rightarrow> nat \<Rightarrow> bytes" where
  "sanitize_steps name max_len =
     (let name = (if ascii_slash \<in> set name then take (max_len - 1) (after_last_slash name) else name);
          name = take (max_len - 1) name;
          name = map (\<lambda>c. if name_allowed c then c else ascii_us) name;
          name = break_dots name
      in case name of [] \<Rightarrow> [] | c # r \<Rightarrow> (if c = ascii_dot then ascii_us else c) # r)"

definition next_rand :: "sys \<Rightarrow> u32 \<times> sys" where
  "next_rand st = (case io_rand st of [] \<Rightarrow> (0, st) | r # rs \<Rightarrow> (r, st\<lparr>io_rand := rs\<rparr>))"

definition sanitize_filename :: "bytes \<Rightarrow> nat \<Rightarrow> sys \<Rightarrow> bytes \<times> sys" where
  "sanitize_filename name max_len st =
     (if max_len = 0 then (name, st)
      else let name = sanitize_steps name max_len
           in if name = [] then (case next_rand st of (rnd, st) \<Rightarrow> (take (max_len - 1) (str_bytes ''file_'' @ hex8 rnd), st))
              else (name, st))"

text \<open>\<open>basename\<close> of \<^verbatim>\<open>libgen.h\<close>.\<close>

definition posix_basename :: "bytes \<Rightarrow> bytes" where
  "posix_basename path =
     (if path = [] then [ascii_dot]
      else let p = rev (dropWhile (\<lambda>c. c = ascii_slash) (rev path))
           in if p = [] then [ascii_slash] else after_last_slash p)"

section \<open>Answers\<close>

definition next_hash :: "sys \<Rightarrow> bool \<times> sys" where
  "next_hash st = (case sodium_malloc (io_hash st) of (ok, r) \<Rightarrow> (ok, st\<lparr>io_hash := r\<rparr>))"

definition next_open :: "sys \<Rightarrow> open_ans \<times> sys" where
  "next_open st = (case io_open st of [] \<Rightarrow> (Open_failed, st) | r # rs \<Rightarrow> (r, st\<lparr>io_open := rs\<rparr>))"

text \<open>\<open>writev\<close> on the socket: the answer is the number of bytes taken, or negative.\<close>

definition sys_writev :: "int \<Rightarrow> bytes \<Rightarrow> sys \<Rightarrow> int \<times> sys" where
  "sys_writev fd b st =
     (let (w, st) = (case io_writev st of [] \<Rightarrow> (int (length b), st) | w # ws \<Rightarrow> (w, st\<lparr>io_writev := ws\<rparr>))
      in (w, if w > 0 then emit (E_wire fd (take (nat w) b)) st else st))"

section \<open>Sending\<close>

definition NOX_MAX_FILE_SIZE :: u64 where "NOX_MAX_FILE_SIZE = 100 * 1024 * 1024 * 1024"
definition NOX_PATH_MAX :: nat where "NOX_PATH_MAX = 512"
definition METADATA_TAG :: bytes where "METADATA_TAG = str_bytes ''METADATA'' @ [0]"
definition METADATA_LEN :: nat where "METADATA_LEN = 305"

definition metadata :: "bytes \<Rightarrow> u64 \<Rightarrow> bytes \<Rightarrow> bytes" where
  "metadata name sz hash = METADATA_TAG @ pad_to 256 name @ be_bytes 8 sz @ hash"

text \<open>The answers about the file that is to be sent: \<open>open\<close>, \<open>fstat\<close>, \<open>flock\<close>, the reads of the
  digest pass, \<open>lseek\<close>.\<close>

record src_file =
  sf_fd :: int
  sf_stat :: "stat_info option"
  sf_lock :: bool
  sf_reads :: "read_ans list"
  sf_seek :: bool

text \<open>The digest pass; the state of the hash is its input so far. An interrupted read is
  \<open>R_again\<close>.\<close>

fun hash_reads :: "read_ans list \<Rightarrow> bytes \<Rightarrow> sys \<Rightarrow> bytes option \<times> sys" where
  "hash_reads [] acc st = (Some acc, st)"
| "hash_reads (R_again # rs) acc st = hash_reads rs acc st"
| "hash_reads (R_err # rs) acc st = (None, st)"
| "hash_reads (R_eof # rs) acc st = (Some acc, st)"
| "hash_reads (R_data d # rs) acc st =
     (if d = [] then (Some acc, st)
      else case next_hash st of (ok, st) \<Rightarrow>
        if \<not> ok then (None, st) else hash_reads rs (acc @ take 4096 d) st)"

definition peer_encrypt :: "nox_env \<Rightarrow> nat \<Rightarrow> bytes \<Rightarrow> sys \<Rightarrow> bytes option \<times> sys" where
  "peer_encrypt E i pt st =
     (case ps_session (get_peer st i) of None \<Rightarrow> (None, st)
      | Some se \<Rightarrow> (case noise_encrypt (ne_sodium E) se pt of (r, se') \<Rightarrow>
          (r, upd_peer i (ps_session_update (\<lambda>_. Some se')) st)))"

definition frame_bytes :: "byte \<Rightarrow> u32 \<Rightarrow> bytes \<Rightarrow> bytes" where
  "frame_bytes ty seq ct =
     frame_header_encode \<lparr>fh_magic = NOX_FRAME_MAGIC, fh_type = ty, fh_seq = seq, fh_len = of_nat (length ct)\<rparr> @ ct"

text \<open>The end of a transfer, completed or given up: the local file is closed and the slot's transfer wiped.\<close>

definition tx_drop :: "nat \<Rightarrow> sys \<Rightarrow> sys" where
  "tx_drop i st =
     upd_peer i (ps_tx_file_update (\<lambda>_. zero_tx\<lparr>tx_fd := -1\<rparr>))
       (emit (E_close (tx_fd (ps_tx_file (get_peer st i)))) st)"

definition tx_end :: "nat \<Rightarrow> sys \<Rightarrow> sys" where
  "tx_end i st = emit (E_epoll_mod (ps_fd (get_peer st i)) False) (tx_drop i st)"

text \<open>Sending the METADATA frame, once the file has been digested.\<close>

definition tx_send_metadata :: "nox_env \<Rightarrow> nat \<Rightarrow> sys \<Rightarrow> sys" where
  "tx_send_metadata E i st =
     (case sys_malloc st of (ok, st) \<Rightarrow>
      if \<not> ok then tx_drop i st
      else let st = upd_peer i (ps_tx_file_update (tx_plain_buf_update (\<lambda>_. True))) st;
               tx = ps_tx_file (get_peer st i) in
      case peer_encrypt E i (metadata (tx_filename tx) (tx_total_size tx) (tx_hash tx)) st of (r, st) \<Rightarrow>
      case r of None \<Rightarrow> tx_drop i st
      | Some ct \<Rightarrow>
        let ps = get_peer st i; wire = frame_bytes NOX_MSG_FILE (ps_tx_seq ps) ct in
        case sys_writev (ps_fd ps) wire st of (written, st) \<Rightarrow>
        if written \<noteq> int (length wire) then tx_drop i st
        else emit (E_epoll_mod (ps_fd ps) True) (upd_peer i (ps_tx_seq_update (\<lambda>s. s + 1)) st))"

definition file_transfer_start :: "nox_env \<Rightarrow> src_file \<Rightarrow> bytes \<Rightarrow> sys \<Rightarrow> sys" where
  "file_transfer_start E F filepath st =
     (case ACTIVE_PEER st of None \<Rightarrow> st
      | Some i \<Rightarrow>
        let ps = get_peer st i in
        if ps_fd ps < 0 \<or> ps_session ps = None then st
        else if tx_active (ps_tx_file ps) then st
        else if length filepath = 0 \<or> length filepath \<ge> NOX_PATH_MAX then st
        else if sf_fd F < 0 then st
        else case sf_stat F of None \<Rightarrow> emit (E_close (sf_fd F)) st
        | Some s \<Rightarrow>
          if \<not> si_reg s \<or> \<not> sf_lock F \<or> si_size s \<le> 0 \<or> word_of_int (si_size s) > NOX_MAX_FILE_SIZE
          then emit (E_close (sf_fd F)) st
          else let safe_name = take 255 (posix_basename filepath);
                   fsize = word_of_int (si_size s) in
          case next_hash st of (ok, st) \<Rightarrow>
          if \<not> ok then emit (E_close (sf_fd F)) st
          else case next_hash st of (ok, st) \<Rightarrow>
          if \<not> ok then emit (E_close (sf_fd F)) st
          else case hash_reads (sf_reads F) (be_bytes 8 fsize) st of (r, st) \<Rightarrow>
          case r of None \<Rightarrow> emit (E_close (sf_fd F)) st
          | Some input \<Rightarrow>
            case next_hash st of (ok, st) \<Rightarrow>
            if \<not> ok \<or> \<not> sf_seek F then emit (E_close (sf_fd F)) st
            else tx_send_metadata E i (upd_peer i (ps_tx_file_update (\<lambda>_. zero_tx\<lparr>tx_active := True, tx_fd := sf_fd F,
                   tx_filename := safe_name, tx_total_size := fsize, tx_hash := ne_hash32 E input\<rparr>)) st))"

text \<open>One call for a writable socket: either more of the pending frame is written, or the next chunk is
  read and encrypted. \<open>W_again\<close> and \<open>W_intr\<close> are the answers \<^verbatim>\<open>EAGAIN\<close> and \<^verbatim>\<open>EINTR\<close>.\<close>

definition next_sock_write :: "sys \<Rightarrow> write_ans \<times> sys" where
  "next_sock_write st = (case io_sock_write st of [] \<Rightarrow> (W_again 0 Poll_timeout, st) | w # ws \<Rightarrow> (w, st\<lparr>io_sock_write := ws\<rparr>))"

definition next_file_read :: "sys \<Rightarrow> read_ans \<times> sys" where
  "next_file_read st = (case io_file_read st of [] \<Rightarrow> (R_eof, st) | r # rs \<Rightarrow> (r, st\<lparr>io_file_read := rs\<rparr>))"

definition tx_wrote :: "nat \<Rightarrow> nat \<Rightarrow> sys \<Rightarrow> sys" where
  "tx_wrote i w st =
     (let ps = get_peer st i; tx = ps_tx_file ps;
          w = min w (length (tx_buf tx) - tx_offset tx);
          st = emit (E_wire (ps_fd ps) (take w (drop (tx_offset tx) (tx_buf tx)))) st;
          tx = tx\<lparr>tx_offset := tx_offset tx + w\<rparr>;
          st = upd_peer i (\<lambda>ps. ps\<lparr>ps_tx_file := tx, ps_last_active := io_now st\<rparr>) st
      in if tx_offset tx = length (tx_buf tx)
         then let tx = tx\<lparr>tx_buf := [], tx_offset := 0,
                          tx_sent_bytes := tx_sent_bytes tx + of_nat (tx_chunk_size tx), tx_chunk_size := 0\<rparr>;
                  st = upd_peer i (\<lambda>ps. ps\<lparr>ps_tx_seq := ps_tx_seq ps + 1, ps_tx_file := tx\<rparr>) st
              in if tx_sent_bytes tx \<ge> tx_total_size tx then tx_end i st else st
         else st)"

definition tx_next_chunk :: "nox_env \<Rightarrow> nat \<Rightarrow> sys \<Rightarrow> sys" where
  "tx_next_chunk E i st =
     (let tx = ps_tx_file (get_peer st i);
          remaining = (if tx_total_size tx > tx_sent_bytes tx then tx_total_size tx - tx_sent_bytes tx else 0)
      in if remaining = 0 then tx_end i st
         else let to_read = (if remaining < 4096 then unat remaining else 4096) in
         case next_file_read st of (r, st) \<Rightarrow>
         case r of
           R_again \<Rightarrow> st
         | R_err \<Rightarrow> tx_end i st
         | R_eof \<Rightarrow> tx_end i st
         | R_data d \<Rightarrow>
           if d = [] then tx_end i st
           else let pt = take to_read d;
                    st = upd_peer i (ps_tx_file_update (tx_chunk_size_update (\<lambda>_. length pt))) st in
           if FRAME_HEADER_WIRE_SIZE + (length pt + NOX_MAC_LEN) > TX_BUF_CAPACITY then tx_end i st
           else case peer_encrypt E i pt st of (r, st) \<Rightarrow>
           (case r of None \<Rightarrow> tx_end i st
            | Some ct \<Rightarrow>
              upd_peer i (ps_tx_file_update (\<lambda>tx. tx\<lparr>tx_buf := frame_bytes NOX_MSG_FILE (ps_tx_seq (get_peer st i)) ct,
                 tx_offset := 0\<rparr>)) st))"

definition file_transfer_handle_tx :: "nox_env \<Rightarrow> nat \<Rightarrow> sys \<Rightarrow> sys" where
  "file_transfer_handle_tx E i st =
     (let ps = get_peer st i in
      if ps_fd ps < 0 \<or> \<not> tx_active (ps_tx_file ps) then st
      else if tx_buf (ps_tx_file ps) \<noteq> []
      then (case next_sock_write st of (w, st) \<Rightarrow>
            case w of
              W_ok n \<Rightarrow> if n > 0 then tx_wrote i n st else tx_end i st
            | W_intr \<Rightarrow> st
            | W_again _ _ \<Rightarrow> st
            | W_err \<Rightarrow> tx_end i st)
      else tx_next_chunk E i st)"

section \<open>Receiving\<close>

text \<open>\<open>write_to_file\<close>: the error and what reached the file.\<close>

fun write_loop :: "write_ans list \<Rightarrow> bytes \<Rightarrow> nox_err_t \<times> bytes \<times> write_ans list" where
  "write_loop ws [] = (NOX_OK, [], ws)"
| "write_loop [] (x # xs) = (NOX_OK, x # xs, [])"
| "write_loop (W_ok n # ws) (x # xs) =
     (if n = 0 then (NOX_ERR_IO, [], ws)
      else case write_loop ws (drop n (x # xs)) of (e, out, ws') \<Rightarrow> (e, take n (x # xs) @ out, ws'))"
| "write_loop (W_intr # ws) (x # xs) = write_loop ws (x # xs)"
| "write_loop (W_again _ _ # ws) (x # xs) = (NOX_ERR_IO, [], ws)"
| "write_loop (W_err # ws) (x # xs) = (NOX_ERR_IO, [], ws)"

definition write_to_file :: "int \<Rightarrow> bytes \<Rightarrow> sys \<Rightarrow> nox_err_t \<times> sys" where
  "write_to_file fd data st =
     (case write_loop (io_file_write st) data of (e, out, ws) \<Rightarrow>
        (e, emit (E_file_write fd out) (st\<lparr>io_file_write := ws\<rparr>)))"

definition verify_downloads_dir_fd :: "sys \<Rightarrow> nox_err_t" where
  "verify_downloads_dir_fd st =
     (case io_dir_stat st of None \<Rightarrow> NOX_ERR_IO
      | Some s \<Rightarrow>
        if si_lnk s then NOX_ERR_CONFIG
        else if \<not> si_dir s then NOX_ERR_CONFIG
        else if si_uid s \<noteq> io_uid st then NOX_ERR_CONFIG
        else if si_mode s mod 512 \<noteq> 448 then NOX_ERR_CONFIG
        else NOX_OK)"

text \<open>\<open>open_recv_file\<close>: on success the name is recorded in the slot and the descriptor returned.
  The refused second \<open>snprintf\<close> (a record of at least the size of the name) has no branch.\<close>

definition open_recv_file :: "nat \<Rightarrow> bytes \<Rightarrow> sys \<Rightarrow> (nox_err_t \<times> int) \<times> sys" where
  "open_recv_file i safe_name st =
     (if ascii_slash \<in> set safe_name \<or> 92 \<in> set safe_name then ((NOX_ERR_CONFIG, -1), st)
      else if as_downloads_dir_fd st < 0 \<or> verify_downloads_dir_fd st \<noteq> NOX_OK then ((NOX_ERR_CONFIG, -1), st)
      else let local_name = str_bytes ''received_'' @ safe_name in
      if length local_name \<ge> 300 then ((NOX_ERR_CONFIG, -1), st)
      else case next_open st of (a, st) \<Rightarrow>
      case a of
        Opened fd \<Rightarrow> ((NOX_OK, fd), upd_peer i (ps_rx_file_update (rx_local_name_update (\<lambda>_. local_name))) st)
      | Open_failed \<Rightarrow> ((NOX_ERR_IO, -1), st)
      | Open_exists \<Rightarrow>
        (case next_rand st of (rnd, st) \<Rightarrow>
         let local_name = local_name @ [ascii_dot] @ hex8 rnd in
         if length local_name \<ge> 300 then ((NOX_ERR_CONFIG, -1), st)
         else case next_open st of (a, st) \<Rightarrow>
         case a of
           Opened fd \<Rightarrow> ((NOX_OK, fd), upd_peer i (ps_rx_file_update (rx_local_name_update (\<lambda>_. local_name))) st)
         | _ \<Rightarrow> ((NOX_ERR_IO, -1), st)))"

definition peer_decrypt :: "nox_env \<Rightarrow> nat \<Rightarrow> bytes \<Rightarrow> sys \<Rightarrow> bytes option \<times> sys" where
  "peer_decrypt E i ct st =
     (case ps_session (get_peer st i) of None \<Rightarrow> (None, st)
      | Some se \<Rightarrow> (case noise_decrypt (ne_sodium E) se ct of (r, se') \<Rightarrow>
          (r, upd_peer i (ps_session_update (\<lambda>_. Some se')) st)))"

text \<open>The common exit of an abandoned transfer, and the wipe that follows the end of any transfer.\<close>

definition rx_wipe :: "nox_env \<Rightarrow> nat \<Rightarrow> sys \<Rightarrow> sys" where
  "rx_wipe E i st =
     snd (sm_dispatch E i EV_FILE_DONE (upd_peer i (ps_rx_file_update (\<lambda>_. zero_rx\<lparr>rx_fd := -1\<rparr>)) st))"

definition rx_abort :: "nox_env \<Rightarrow> nat \<Rightarrow> sys \<Rightarrow> sys" where
  "rx_abort E i st =
     (let rx = ps_rx_file (get_peer st i)
      in rx_wipe E i (unlink_partial (rx_local_name rx) (close_fd (rx_fd rx) st)))"

definition is_metadata :: "bytes \<Rightarrow> bool" where
  "is_metadata pt \<longleftrightarrow> length pt = METADATA_LEN \<and> take 9 pt = METADATA_TAG"

text \<open>A new transfer, from its METADATA.\<close>

definition rx_begin :: "nox_env \<Rightarrow> nat \<Rightarrow> bytes \<Rightarrow> u64 \<Rightarrow> bytes \<Rightarrow> sys \<Rightarrow> sys" where
  "rx_begin E i safe_name net_size file_hash st =
     (case open_recv_file i safe_name (upd_peer i (ps_rx_file_update (\<lambda>_. zero_rx)) st) of ((err, fd), st) \<Rightarrow>
      if err = NOX_OK \<and> fd \<ge> 0
      then let st = upd_peer i (ps_rx_file_update (\<lambda>rx. rx\<lparr>rx_active := True, rx_fd := fd, rx_expected_size := net_size,
                      rx_received_bytes := 0, rx_last_chunk := io_now st, rx_expected_hash := file_hash,
                      rx_filename := take 255 safe_name\<rparr>)) st;
               st = snd (sm_dispatch E i EV_FILE_RX_START st) in
           case next_hash st of (ok, st) \<Rightarrow>
           if \<not> ok then rx_abort E i st
           else case next_hash st of (ok, st) \<Rightarrow>
           if \<not> ok then rx_abort E i st
           else upd_peer i (ps_rx_file_update (rx_hash_state_update (\<lambda>_. be_bytes 8 net_size))) st
      else st)"

definition rx_metadata :: "nox_env \<Rightarrow> nat \<Rightarrow> bytes \<Rightarrow> sys \<Rightarrow> sys" where
  "rx_metadata E i pt st =
     (case sanitize_filename (c_str (take 255 (drop 9 pt))) 256 st of (safe_name, st) \<Rightarrow>
      let net_size = of_be (take 8 (drop 265 pt)) in
      if net_size = 0 \<or> net_size > NOX_MAX_FILE_SIZE then st
      else case io_disk_avail st of None \<Rightarrow> st
      | Some (bavail, frsize) \<Rightarrow>
        if bavail * frsize < net_size + net_size div 10 then st
        else let file_hash = take 32 (drop 273 pt) in
        if is_zero file_hash then st
        else rx_begin E i safe_name net_size file_hash st)"

text \<open>A chunk of the running transfer.\<close>

definition rx_finish :: "nox_env \<Rightarrow> nat \<Rightarrow> sys \<Rightarrow> sys" where
  "rx_finish E i st =
     (let rx = ps_rx_file (get_peer st i) in
      case next_hash st of (ok, st) \<Rightarrow>
      if \<not> ok then rx_wipe E i (close_fd (rx_fd rx) (emit (E_unlink (rx_local_name rx)) st))
      else let st = close_fd (rx_fd rx) st in
      if ne_hash32 E (rx_hash_state rx) = rx_expected_hash rx then rx_wipe E i st
      else rx_wipe E i (emit (E_unlink (rx_local_name rx)) st))"

definition rx_chunk :: "nox_env \<Rightarrow> nat \<Rightarrow> bytes \<Rightarrow> sys \<Rightarrow> sys" where
  "rx_chunk E i pt st =
     (let rx = ps_rx_file (get_peer st i) in
      if rx_received_bytes rx > rx_expected_size rx then rx_abort E i st
      else let remaining = rx_expected_size rx - rx_received_bytes rx in
      if remaining = 0 then rx_abort E i st
      else let data = (if of_nat (length pt) > remaining then take (unat remaining) pt else pt) in
      case write_to_file (rx_fd rx) data st of (err, st) \<Rightarrow>
      if err \<noteq> NOX_OK then rx_abort E i st
      else case next_hash st of (ok, st) \<Rightarrow>
      if \<not> ok then rx_abort E i st
      else let rx = rx\<lparr>rx_hash_state := rx_hash_state rx @ data,
                       rx_received_bytes := rx_received_bytes rx + of_nat (length data), rx_last_chunk := io_now st\<rparr>;
               st = upd_peer i (ps_rx_file_update (\<lambda>_. rx)) st in
      if rx_received_bytes rx \<ge> rx_expected_size rx
      then (if rx_received_bytes rx \<noteq> rx_expected_size rx then rx_abort E i st else rx_finish E i st)
      else st)"

definition file_transfer_handle_rx :: "nox_env \<Rightarrow> nat \<Rightarrow> bytes \<Rightarrow> sys \<Rightarrow> bool \<times> sys" where
  "file_transfer_handle_rx E i payload st =
     (if length payload < NOX_MAC_LEN \<or> length payload > 4096 + NOX_MAC_LEN then (False, st)
      else case sys_malloc st of (ok, st) \<Rightarrow>
      if \<not> ok then (False, st)
      else case peer_decrypt E i payload st of (r, st) \<Rightarrow>
      let pt = (case r of None \<Rightarrow> [] | Some p \<Rightarrow> p);
          active = rx_active (ps_rx_file (get_peer st i)) in
      if pt = [] then (True, if active then rx_abort E i st else st)
      else if is_metadata pt then (True, if active then rx_abort E i st else rx_metadata E i pt st)
      else (True, if active then rx_chunk E i pt st else st))"

section \<open>Timeout and cleanup\<close>

definition file_transfer_chunk_expired :: "int \<Rightarrow> int \<Rightarrow> int \<Rightarrow> bool" where
  "file_transfer_chunk_expired last_ts now timeout_sec \<longleftrightarrow> now - last_ts > timeout_sec"

definition cleanup_slot :: "nat \<Rightarrow> sys \<Rightarrow> sys" where
  "cleanup_slot i st =
     (let tx = ps_tx_file (get_peer st i);
          st = (if tx_active tx
                then upd_peer i (ps_tx_file_update (\<lambda>_. zero_tx\<lparr>tx_fd := -1\<rparr>)) (close_fd (tx_fd tx) st) else st);
          rx = ps_rx_file (get_peer st i)
      in if rx_active rx
         then upd_peer i (ps_rx_file_update (\<lambda>_. zero_rx\<lparr>rx_fd := -1\<rparr>))
                (unlink_partial (rx_local_name rx) (close_fd (rx_fd rx) st))
         else st)"

definition file_transfer_cleanup :: "sys \<Rightarrow> sys" where
  "file_transfer_cleanup st = foldl (\<lambda>st i. cleanup_slot i st) st [0..<NOX_MAX_PEERS]"

end
