(* ===== verification/Nox_Message.thy ===== *)
theory Nox_Message
  imports Nox_File
begin

text \<open>
  Messages to peers, from \<^verbatim>\<open>src/stdin_handler.c\<close>: the split of a long text into chunks that respect
  UTF-8, sending to a connected peer, queueing for an absent one, flushing the queue, the user's
  answer to a TOFU prompt. A text is a C string: a list of bytes without NUL; sizes are those of
  buffers in memory, so they stay below \<^verbatim>\<open>SIZE_MAX\<close>.
\<close>

section \<open>Chunks\<close>

definition CHUNK_LIMIT :: nat where "CHUNK_LIMIT = 4000"
definition SIZE_MAX :: nat where "SIZE_MAX = 18446744073709551615"

text \<open>A UTF-8 continuation byte.\<close>

definition is_cont :: "byte \<Rightarrow> bool" where
  "is_cont b \<longleftrightarrow> b AND 0xC0 = 0x80"

fun back_up :: "bytes \<Rightarrow> nat \<Rightarrow> nat \<Rightarrow> nat" where
  "back_up msg offset 0 = 0"
| "back_up msg offset (Suc n) = (if is_cont (msg ! (offset + Suc n)) then back_up msg offset n else Suc n)"

definition nox_next_chunk_size :: "bytes \<Rightarrow> nat \<Rightarrow> nat \<Rightarrow> nat" where
  "nox_next_chunk_size msg offset total_len =
     (if offset \<ge> total_len then 0
      else let remaining = total_len - offset in
      if remaining \<le> CHUNK_LIMIT then remaining
      else if offset > SIZE_MAX - CHUNK_LIMIT then CHUNK_LIMIT
      else let k = back_up msg offset CHUNK_LIMIT in if k = 0 then 1 else k)"

lemma back_up_le: "back_up msg offset n \<le> n"
  by (induction n) auto

lemma next_chunk_size_bounds:
  assumes "offset < total_len"
  shows "0 < nox_next_chunk_size msg offset total_len"
    "nox_next_chunk_size msg offset total_len \<le> total_len - offset"
    "nox_next_chunk_size msg offset total_len \<le> CHUNK_LIMIT"
  using assms back_up_le [of msg offset CHUNK_LIMIT]
  by (auto simp: nox_next_chunk_size_def Let_def CHUNK_LIMIT_def)

lemma next_chunk_progress [termination_simp]:
  "offset < total_len \<Longrightarrow> total_len - (offset + nox_next_chunk_size msg offset total_len) < total_len - offset"
  using next_chunk_size_bounds(1) [of offset total_len msg] by simp

section \<open>Peers\<close>

definition active_peer_count :: "sys \<Rightarrow> nat" where
  "active_peer_count st = length (filter (\<lambda>ps. ps_fd ps \<ge> 0) (take NOX_MAX_PEERS (as_peers st)))"

definition first_peer :: "(peer_session \<Rightarrow> bool) \<Rightarrow> sys \<Rightarrow> nat option" where
  "first_peer P st = find (\<lambda>i. P (get_peer st i)) [0..<NOX_MAX_PEERS]"

definition find_peer_by_name_or_onion :: "nox_env \<Rightarrow> bytes \<Rightarrow> sys \<Rightarrow> nat option" where
  "find_peer_by_name_or_onion E arg st =
     (case first_peer (\<lambda>ps. \<not> (ps_fd ps < 0 \<and> ps_state ps = ST_IDLE) \<and>
               ((ps_name ps \<noteq> [] \<and> ps_name ps = arg) \<or> ps_peer_onion ps = arg)) st of
        Some i \<Rightarrow> Some i
      | None \<Rightarrow>
          if \<not> as_ghost_mode st \<and> fst (db_get_contact (ne_box E) (ne_sql E) (io_db st) arg (NOX_CONTACT_NAME_LEN + 1)) = NOX_OK
          then first_peer (\<lambda>ps. ps_fd ps \<ge> 0 \<and> ps_peer_onion ps = arg) st
          else None)"

section \<open>Sending\<close>

text \<open>One TEXT frame with its terminating NUL, as \<open>send_queued_callback\<close> and
  \<open>send_segmented_message_to\<close> send it: a frame that is not written in full costs the connection.\<close>

definition send_text_frame :: "nox_env \<Rightarrow> nat \<Rightarrow> bytes \<Rightarrow> sys \<Rightarrow> nox_err_t \<times> sys" where
  "send_text_frame E i txt st =
     (case peer_encrypt E i (txt @ [0]) st of (r, st) \<Rightarrow>
      case r of None \<Rightarrow> (NOX_ERR_CRYPTO, st)
      | Some ct \<Rightarrow>
        let ps = get_peer st i; wire = frame_bytes NOX_MSG_TEXT (ps_tx_seq ps) ct in
        case sys_writev (ps_fd ps) wire st of (written, st) \<Rightarrow>
        if written \<noteq> int (length wire) then (NOX_ERR_IO, snd (sm_dispatch E i EV_PEER_DISCONNECTED st))
        else (NOX_OK, upd_peer i (\<lambda>ps. ps\<lparr>ps_tx_seq := ps_tx_seq ps + 1, ps_last_active := io_now st\<rparr>) st))"

definition send_queued_callback :: "nox_env \<Rightarrow> nat \<Rightarrow> bytes \<Rightarrow> sys \<Rightarrow> nox_err_t \<times> sys" where
  "send_queued_callback E i txt st =
     (let ps = get_peer st i in
      if ps_fd ps < 0 \<or> ps_session ps = None then (NOX_ERR_NET, st)
      else if length txt + 1 > 4096 then (NOX_ERR_PROTO, st)
      else case sys_malloc st of (ok, st) \<Rightarrow>
      if \<not> ok then (NOX_ERR_ALLOC, st) else send_text_frame E i txt st)"

function send_chunks :: "nox_env \<Rightarrow> nat \<Rightarrow> bytes \<Rightarrow> nat \<Rightarrow> sys \<Rightarrow> nox_err_t \<times> sys" where
  "send_chunks E i msg offset st =
     (if offset < length msg
      then let chunk_len = nox_next_chunk_size msg offset (length msg) in
           case send_text_frame E i (take chunk_len (drop offset msg)) st of (err, st) \<Rightarrow>
           if err \<noteq> NOX_OK then (err, st) else send_chunks E i msg (offset + chunk_len) st
      else (NOX_OK, st))"
  by pat_completeness auto
termination
  by (relation "measure (\<lambda>(E, i, msg, offset, st). length msg - offset)")
     (auto simp: termination_simp)

declare send_chunks.simps [simp del]

definition send_segmented_message_to :: "nox_env \<Rightarrow> nat option \<Rightarrow> bytes \<Rightarrow> sys \<Rightarrow> nox_err_t \<times> sys" where
  "send_segmented_message_to E p msg st =
     (case p of None \<Rightarrow> (NOX_ERR_NET, st)
      | Some i \<Rightarrow>
        if ps_session (get_peer st i) = None \<or> ps_fd (get_peer st i) < 0 then (NOX_ERR_NET, st)
        else case sys_malloc st of (ct, st) \<Rightarrow>
        case sys_malloc st of (chunk, st) \<Rightarrow>
        if \<not> ct \<or> \<not> chunk then (NOX_ERR_ALLOC, st) else send_chunks E i msg 0 st)"

definition send_segmented_message :: "nox_env \<Rightarrow> bytes \<Rightarrow> sys \<Rightarrow> nox_err_t \<times> sys" where
  "send_segmented_message E msg st = send_segmented_message_to E (ACTIVE_PEER st) msg st"

section \<open>Queueing\<close>

definition sys_queue_message :: "nox_env \<Rightarrow> bytes \<Rightarrow> bytes \<Rightarrow> sys \<Rightarrow> nox_err_t \<times> sys" where
  "sys_queue_message E onion txt st =
     (case next_nonce st of (n, st) \<Rightarrow>
      case db_queue_message (ne_box E) (ne_sql E) n (io_db_heap st) (io_db st) onion txt of (err, d, al) \<Rightarrow>
        (err, st\<lparr>io_db := d, io_db_heap := al\<rparr>))"

function queue_chunks :: "nox_env \<Rightarrow> bytes \<Rightarrow> bytes \<Rightarrow> nat \<Rightarrow> nat \<Rightarrow> sys \<Rightarrow> nox_err_t \<times> sys" where
  "queue_chunks E onion msg offset queued st =
     (if offset < length msg
      then let chunk_len = nox_next_chunk_size msg offset (length msg) in
           case sys_queue_message E onion (take chunk_len (drop offset msg)) st of (err, st) \<Rightarrow>
           if err \<noteq> NOX_OK
           then (err, if queued > 0
                      then st\<lparr>io_db := snd (db_queue_rollback_last (ne_box E) (ne_sql E) (io_db st) onion queued)\<rparr>
                      else st)
           else queue_chunks E onion msg (offset + chunk_len) (queued + 1) st
      else (NOX_OK, st))"
  by pat_completeness auto
termination
  by (relation "measure (\<lambda>(E, onion, msg, offset, queued, st). length msg - offset)")
     (auto simp: termination_simp)

declare queue_chunks.simps [simp del]

definition queue_segmented_message :: "nox_env \<Rightarrow> bytes \<Rightarrow> bytes \<Rightarrow> sys \<Rightarrow> nox_err_t \<times> sys" where
  "queue_segmented_message E onion msg st =
     (case sys_malloc st of (ok, st) \<Rightarrow> if \<not> ok then (NOX_ERR_ALLOC, st) else queue_chunks E onion msg 0 0 st)"

section \<open>The queue of a peer that came back\<close>

definition flush_queue :: "nox_env \<Rightarrow> nat \<Rightarrow> sys \<Rightarrow> sys" where
  "flush_queue E i st =
     (case db_process_queue (ne_box E) (ne_sql E) (send_queued_callback E i) (io_db_heap st) (io_db st)
             (ps_peer_onion (get_peer st i)) st of (_, d, st', al) \<Rightarrow> st'\<lparr>io_db := d, io_db_heap := al\<rparr>)"

section \<open>The answer to a TOFU prompt\<close>

definition tofu_pending_slots :: "sys \<Rightarrow> nat list" where
  "tofu_pending_slots st = filter (\<lambda>i. ps_state (get_peer st i) = ST_TOFU_PENDING) [0..<NOX_MAX_PEERS]"

definition tofu_user_response :: "nox_env \<Rightarrow> bool \<Rightarrow> sys \<Rightarrow> sys" where
  "tofu_user_response E accept st =
     (case tofu_pending_slots st of
        [i] \<Rightarrow>
          let ps = get_peer st i in
          if accept then
            if ps_tofu_epoch ps \<noteq> as_tofu_prompt_epoch st \<or> ps_tofu_new_key ps \<noteq> as_tofu_prompt_fp st
            then st\<lparr>as_tofu_prompt_epoch := ps_tofu_epoch ps, as_tofu_prompt_fp := ps_tofu_new_key ps\<rparr>
            else case sm_dispatch E i EV_TOFU_ACCEPTED st of (acc_rc, st) \<Rightarrow>
              let st = st\<lparr>as_tofu_prompt_epoch := 0\<rparr>
              in if acc_rc \<noteq> NOX_OK then snd (sm_dispatch E i EV_PEER_DISCONNECTED st) else st
          else snd (sm_dispatch E i EV_TOFU_REJECTED (st\<lparr>as_tofu_prompt_epoch := 0\<rparr>))
      | _ \<Rightarrow> st)"

end
