(* ===== verification/Nox_Frames.thy ===== *)
theory Nox_Frames
  imports Nox_Message
begin

text \<open>
  The frames a peer sends, from \<^verbatim>\<open>process_peer_frames\<close> of \<^verbatim>\<open>src/event_loop.c\<close>: one pass of its loop
  with all the branches of a handshake message, a text and a piece of a file. The loop itself is in
  \<open>Nox_Event\<close>, after the lemma that every pass consumes input. Screen output other than received and
  sent texts is not modelled.
\<close>

section \<open>Helpers\<close>

definition fire :: "nox_env \<Rightarrow> nat \<Rightarrow> peer_event_t \<Rightarrow> sys \<Rightarrow> sys" where
  "fire E i ev st = snd (sm_dispatch E i ev st)"

definition find_peer_by_fd :: "int \<Rightarrow> sys \<Rightarrow> nat option" where
  "find_peer_by_fd fd st = first_peer (\<lambda>ps. ps_fd ps = fd) st"

text \<open>The ephemeral key pair that \<open>handshake_write\<close> may generate.\<close>

definition next_key :: "sys \<Rightarrow> (bytes \<times> bytes) \<times> sys" where
  "next_key st = (case io_keys st of [] \<Rightarrow> ((zeros NOX_KEY_LEN, zeros NOX_KEY_LEN), st)
     | k # ks \<Rightarrow> (k, st\<lparr>io_keys := ks\<rparr>))"

text \<open>A text of blanks only is not shown.\<close>

definition ui_print_incoming :: "bytes \<Rightarrow> sys \<Rightarrow> sys" where
  "ui_print_incoming msg st = (if list_all (\<lambda>c. c = 32 \<or> c = 9) msg then st else emit (E_incoming msg) st)"

definition ui_print_outgoing :: "bytes \<Rightarrow> sys \<Rightarrow> sys" where
  "ui_print_outgoing msg st = emit (E_outgoing msg) st"

section \<open>The identity claim\<close>

definition hs_build_claim_payload :: "nox_env \<Rightarrow> sys \<Rightarrow> nox_err_t \<times> bytes" where
  "hs_build_claim_payload E st =
     (case (as_my_onion_seed st, as_my_static_pub st) of
        (Some seed, Some pub) \<Rightarrow>
          (case crypto_onion_sign (ne_onion E) (as_onion_addr st) pub seed of (err, sig) \<Rightarrow>
             if err \<noteq> NOX_OK then (err, [])
             else (NOX_OK, NOX_HS_PAYLOAD_V1_VER # take NOX_ONION_LEN (as_onion_addr st) @ sig))
      | _ \<Rightarrow> (NOX_ERR_STATE, []))"

section \<open>Handshake frames\<close>

text \<open>The answer to a handshake message; \<open>False\<close> when the loop is left.\<close>

definition hs_reply :: "nox_env \<Rightarrow> nat \<Rightarrow> int \<Rightarrow> noise_handshake \<Rightarrow> sys \<Rightarrow> bool \<times> sys" where
  "hs_reply E i fd hs st =
     (case hs_build_claim_payload E st of (err, pl) \<Rightarrow>
      if err \<noteq> NOX_OK then (False, fire E i EV_HANDSHAKE_ERROR st)
      else case next_key st of (kp, st) \<Rightarrow>
      case handshake_write (ne_sodium E) kp hs (Some pl) NOISE_MAX_HANDSHAKE_LEN (io_heap st) of (err, hs, out, al) \<Rightarrow>
      let st = upd_peer i (ps_hs_update (\<lambda>_. Some hs)) (st\<lparr>io_heap := al\<rparr>) in
      if err \<noteq> NOX_OK then (False, fire E i EV_HANDSHAKE_ERROR st)
      else let wire = frame_bytes NOX_MSG_CTRL (ps_tx_seq (get_peer st i)) out in
      case sys_writev fd wire st of (written, st) \<Rightarrow>
      if written \<noteq> int (length wire) then (False, fire E i EV_HANDSHAKE_ERROR st)
      else (True, upd_peer i (\<lambda>ps. ps\<lparr>ps_tx_seq := ps_tx_seq ps + 1, ps_last_active := io_now st\<rparr>) st))"

text \<open>The handshake is complete and the contact's key is the stored one.\<close>

definition known_peer :: "nox_env \<Rightarrow> nat \<Rightarrow> noise_handshake \<Rightarrow> bytes \<Rightarrow> sys \<Rightarrow> sys" where
  "known_peer E i hs peer_onion st =
     (case sys_malloc st of (ok, st) \<Rightarrow>
      if \<not> ok then fire E i EV_ARENA_FAIL (upd_peer i (ps_session_update (\<lambda>_. None)) st)
      else case handshake_split (ne_sodium E) hs fresh_session (io_heap st) of (err, hs, se, al) \<Rightarrow>
      let st = upd_peer i (\<lambda>ps. ps\<lparr>ps_hs := Some hs, ps_session := Some se\<rparr>) (st\<lparr>io_heap := al\<rparr>) in
      if err \<noteq> NOX_OK then fire E i EV_HANDSHAKE_ERROR st
      else let st = upd_peer i (\<lambda>ps. ps\<lparr>ps_hs := None, ps_tx_seq := 0, ps_rx_seq := 0, ps_queue_flushed := False,
                      ps_peer_verified := True, ps_tofu_was_zero_key := False, ps_last_active := io_now st\<rparr>) st;
               st = fire E i EV_SESSION_READY st;
               st = upd_peer i (ps_peer_onion_update (\<lambda>_. take NOX_ONION_LEN peer_onion)) st
           in st\<lparr>as_active_peer_onion := take NOX_ONION_LEN (ps_peer_onion (get_peer st i))\<rparr>)"

text \<open>The user has to decide.\<close>

definition tofu_ask :: "nox_env \<Rightarrow> nat \<Rightarrow> int \<Rightarrow> bytes \<Rightarrow> bytes \<Rightarrow> bytes \<Rightarrow> bool \<Rightarrow> sys \<Rightarrow> sys" where
  "tofu_ask E i fd peer_onion name remote_pub was_zero st =
     fire E i EV_HANDSHAKE_DONE
       (upd_peer i (\<lambda>ps. ps\<lparr>ps_tofu_pending := True, ps_tofu_peer_fd := fd, ps_tofu_was_zero_key := was_zero,
          ps_peer_verified := False, ps_tofu_onion := take NOX_ONION_LEN peer_onion,
          ps_tofu_name := take NOX_CONTACT_NAME_LEN name, ps_tofu_new_key := remote_pub, ps_tofu_start := io_now st\<rparr>) st)"

text \<open>All three messages have been exchanged: the peer's claim is checked.\<close>

definition claim_onion :: "bytes \<Rightarrow> bytes" where
  "claim_onion pl = c_str (take NOX_ONION_LEN (drop 1 pl))"

definition claim_ok :: "nox_env \<Rightarrow> bytes \<Rightarrow> bytes \<Rightarrow> bytes \<Rightarrow> bool" where
  "claim_ok E pl remote_pub connect_target \<longleftrightarrow>
     length pl = NOX_HS_PAYLOAD_V1_LEN \<and> pl ! 0 = NOX_HS_PAYLOAD_V1_VER \<and>
     validate_onion_address (ne_onion E) (claim_onion pl) \<and>
     crypto_onion_verify (ne_onion E) (drop (1 + NOX_ONION_LEN) pl) (claim_onion pl) remote_pub = NOX_OK \<and>
     (connect_target = [] \<or> claim_onion pl = connect_target)"

definition hs_complete :: "nox_env \<Rightarrow> nat \<Rightarrow> int \<Rightarrow> noise_handshake \<Rightarrow> bytes \<Rightarrow> sys \<Rightarrow> sys" where
  "hs_complete E i fd hs pl st =
     (if \<not> claim_ok E pl (hs_rs hs) (ps_connect_target (get_peer st i)) then fire E i EV_HANDSHAKE_ERROR st
      else let peer_onion = claim_onion pl; remote_pub = hs_rs hs;
               (db_err, name, stored_key) =
                 (if as_ghost_mode st then (NOX_ERR_DB, [], [])
                  else db_get_contact (ne_box E) (ne_sql E) (io_db st) peer_onion (NOX_CONTACT_NAME_LEN + 1));
               zero_key = is_zero stored_key
           in if db_err = NOX_OK \<and> \<not> zero_key
              then (if stored_key = remote_pub then known_peer E i hs peer_onion st
                    else tofu_ask E i fd peer_onion name remote_pub False st)
              else let is_placeholder = (db_err = NOX_OK \<and> zero_key);
                       default_name = (if is_placeholder \<and> name \<noteq> [] then name
                                       else str_bytes ''peer_'' @ take 8 peer_onion)
                   in tofu_ask E i fd peer_onion default_name remote_pub is_placeholder st)"

definition ctrl_frame :: "nox_env \<Rightarrow> nat \<Rightarrow> int \<Rightarrow> noise_handshake \<Rightarrow> bytes \<Rightarrow> sys \<Rightarrow> bool \<times> sys" where
  "ctrl_frame E i fd hs payload st =
     (case handshake_read (ne_sodium E) hs payload NOX_HS_PAYLOAD_V1_LEN (io_heap st) of (err, hs, pl, al) \<Rightarrow>
      let st = upd_peer i (ps_hs_update (\<lambda>_. Some hs)) (st\<lparr>io_heap := al\<rparr>) in
      if err \<noteq> NOX_OK then (False, fire E i EV_HANDSHAKE_ERROR st)
      else case (if hs_msg_index hs < 3 then hs_reply E i fd hs st else (True, st)) of (go, st) \<Rightarrow>
      if \<not> go then (False, st)
      else case ps_hs (get_peer st i) of
        Some hs \<Rightarrow> (True, if hs_msg_index hs \<ge> 3 then hs_complete E i fd hs pl st else st)
      | None \<Rightarrow> (True, st))"

section \<open>Frames of a session\<close>

text \<open>The queue is flushed after the first text of a verified session.\<close>

definition first_text :: "nox_env \<Rightarrow> nat \<Rightarrow> sys \<Rightarrow> sys" where
  "first_text E i st =
     (let ps = get_peer st i in
      if \<not> ps_queue_flushed ps \<and> \<not> as_ghost_mode st
      then let st = upd_peer i (ps_queue_flushed_update (\<lambda>_. True)) st
           in if \<not> ps_peer_verified ps then st else flush_queue E i st
      else st)"

definition rx_count :: "nat \<Rightarrow> sys \<Rightarrow> sys" where
  "rx_count i st = upd_peer i (\<lambda>ps. ps\<lparr>ps_rx_seq := ps_rx_seq ps + 1, ps_last_active := io_now st\<rparr>) st"

definition text_frame :: "nox_env \<Rightarrow> nat \<Rightarrow> bytes \<Rightarrow> sys \<Rightarrow> sys" where
  "text_frame E i payload st =
     (case sys_malloc st of (ok, st) \<Rightarrow>
      if \<not> ok then st
      else case peer_decrypt E i payload st of (r, st) \<Rightarrow>
      case r of None \<Rightarrow> st
      | Some pt \<Rightarrow>
        if pt \<noteq> [] \<and> length pt \<le> length payload
        then rx_count i (first_text E i (ui_print_incoming (c_str pt) st)) else st)"

definition data_frame :: "nox_env \<Rightarrow> nat \<Rightarrow> frame_header \<Rightarrow> bytes \<Rightarrow> sys \<Rightarrow> bool \<times> sys" where
  "data_frame E i fh payload st =
     (if fh_seq fh \<noteq> ps_rx_seq (get_peer st i) then (False, fire E i EV_SEQ_MISMATCH st)
      else (True,
        if fh_type fh = NOX_MSG_TEXT then text_frame E i payload st
        else case file_transfer_handle_rx E i payload st of (ok, st) \<Rightarrow> if ok then rx_count i st else st))"

section \<open>One pass of the loop\<close>

text \<open>\<open>False\<close>: the loop is left.\<close>

definition set_recv :: "nat \<Rightarrow> bytes \<Rightarrow> sys \<Rightarrow> sys" where
  "set_recv i b st = upd_peer i (ps_recv_buf_update (\<lambda>_. b)) st"

definition frame_step :: "nox_env \<Rightarrow> nat \<Rightarrow> int \<Rightarrow> sys \<Rightarrow> bool \<times> sys" where
  "frame_step E i fd st =
     (let buf = ps_recv_buf (get_peer st i) in
      case frame_header_decode (take FRAME_HEADER_WIRE_SIZE buf) of (err, fh) \<Rightarrow>
      if err \<noteq> NOX_OK then (False, set_recv i [] st)
      else if fh_len fh = 0 \<or> fh_len fh > of_nat (4096 + NOX_MAC_LEN) then (False, set_recv i [] st)
      else let frame_total = FRAME_HEADER_WIRE_SIZE + unat (fh_len fh);
               data = (fh_type fh = NOX_MSG_TEXT \<or> fh_type fh = NOX_MSG_FILE) in
      if length buf < frame_total then (False, st)
      else if data \<and> ps_session (get_peer st i) = None then (False, st)
      else case sys_malloc st of (ok, st) \<Rightarrow>
      if \<not> ok then (False, set_recv i [] st)
      else let payload = take (unat (fh_len fh)) (drop FRAME_HEADER_WIRE_SIZE buf);
               st = set_recv i (drop frame_total buf) st in
      if data then data_frame E i fh payload st
      else case ps_hs (get_peer st i) of
        Some hs \<Rightarrow> if fh_type fh = NOX_MSG_CTRL \<and> hs_msg_index hs < 3 then ctrl_frame E i fd hs payload st else (True, st)
      | None \<Rightarrow> (True, st))"

end
