(* ===== verification/Nox_File_Props.thy ===== *)
theory Nox_File_Props
  imports Nox_File Nox_Machine_Props
begin

text \<open>
  Properties of file transfer: received files get confined names, never grow beyond the announced size
  and are kept only when the digest agrees; a transfer that is sent never exceeds the announced size
  and the buffers.
\<close>

section \<open>Names\<close>

definition safe_name :: "bytes \<Rightarrow> bool" where
  "safe_name n \<longleftrightarrow> n \<noteq> [] \<and> list_all name_allowed n \<and> hd n \<noteq> ascii_dot \<and>
     (\<forall>k. Suc k < length n \<longrightarrow> \<not> (n ! k = ascii_dot \<and> n ! Suc k = ascii_dot))"

lemma break_dots_Nil [simp]: "break_dots n = [] \<longleftrightarrow> n = []"
  by (cases n rule: break_dots.cases) auto

lemma length_break_dots [simp]: "length (break_dots n) = length n"
  by (induction n rule: break_dots.induct) auto

lemma us_not_dot [simp]: "ascii_us \<noteq> ascii_dot" "ascii_dot \<noteq> ascii_us" "name_allowed ascii_us"
  by (simp_all add: ascii_defs name_allowed_def)

lemma break_dots_allowed: "list_all name_allowed n \<Longrightarrow> list_all name_allowed (break_dots n)"
  by (induction n rule: break_dots.induct) auto

text \<open>The first byte is kept or becomes an underscore, and no two dots are adjacent.\<close>

lemma break_dots_hd: "n \<noteq> [] \<Longrightarrow> hd (break_dots n) = hd n \<or> hd (break_dots n) = ascii_us"
  by (cases n rule: break_dots.cases) auto

lemma break_dots_hd_us: "n \<noteq> [] \<Longrightarrow> hd n \<noteq> ascii_dot \<Longrightarrow> hd (break_dots n) = hd n"
  by (cases n rule: break_dots.cases) auto

lemma nth_0_hd: "xs \<noteq> [] \<Longrightarrow> xs ! 0 = hd xs"
  by (cases xs) auto

lemma break_dots_adjacent:
  "Suc k < length n \<Longrightarrow> \<not> (break_dots n ! k = ascii_dot \<and> break_dots n ! Suc k = ascii_dot)"
proof (induction n arbitrary: k rule: break_dots.induct)
  case (1 x y r)
  show ?case
  proof (cases k)
    case 0
    then show ?thesis
      using break_dots_hd_us [of "y # r"] by (cases "y = ascii_dot") (auto simp: nth_0_hd)
  next
    case (Suc j)
    with 1 show ?thesis by (cases "x = ascii_dot \<and> y = ascii_dot") auto
  qed
qed auto

lemma sanitize_steps_safe:
  assumes "sanitize_steps name m \<noteq> []"
  shows "safe_name (sanitize_steps name m) \<and> length (sanitize_steps name m) \<le> m - 1"
proof -
  define a where "a = (if ascii_slash \<in> set name then take (m - 1) (after_last_slash name) else name)"
  define b where "b = map (\<lambda>c. if name_allowed c then c else ascii_us) (take (m - 1) a)"
  have eq: "sanitize_steps name m = (case break_dots b of [] \<Rightarrow> [] | c # r \<Rightarrow> (if c = ascii_dot then ascii_us else c) # r)"
    by (simp add: sanitize_steps_def a_def b_def Let_def)
  obtain c r where cr: "break_dots b = c # r" using assms eq by (cases "break_dots b") auto
  have "list_all name_allowed b" by (auto simp: b_def list_all_iff)
  from break_dots_allowed [OF this] have all: "list_all name_allowed (c # r)" by (simp only: cr)
  have adj: "Suc k < length (c # r) \<Longrightarrow> \<not> ((c # r) ! k = ascii_dot \<and> (c # r) ! Suc k = ascii_dot)" for k
    using break_dots_adjacent [of k b] cr by (metis length_break_dots)
  have "\<not> (((if c = ascii_dot then ascii_us else c) # r) ! k = ascii_dot \<and>
      ((if c = ascii_dot then ascii_us else c) # r) ! Suc k = ascii_dot)" if "Suc k < length (c # r)" for k
    using adj [OF that] by (cases k) auto
  moreover have "length (c # r) \<le> m - 1"
  proof -
    have "length (c # r) = length b" by (metis cr length_break_dots)
    then show ?thesis by (simp add: b_def)
  qed
  ultimately show ?thesis using all by (simp add: eq cr safe_name_def)
qed

lemma hex_digit_allowed: "d < 16 \<Longrightarrow> name_allowed (hex_digit d) \<and> hex_digit d \<noteq> ascii_dot"
proof -
  assume "d < 16"
  then have "unat d < 16" by (simp add: word_less_nat_alt)
  moreover have "list_all (\<lambda>n. name_allowed (hex_digit (of_nat n)) \<and> hex_digit (of_nat n) \<noteq> ascii_dot) [0..<16]"
    by code_simp
  ultimately show ?thesis by (simp add: list_all_iff) (metis atLeastLessThan_iff of_nat_unat ucast_id zero_le)
qed

lemma hex8_allowed: "list_all (\<lambda>c. name_allowed c \<and> c \<noteq> ascii_dot) (hex8 w)"
proof -
  have "x AND 15 < 16" for x :: u32
  proof -
    have "x AND 15 \<le> 15" by (rule word_and_le1)
    moreover have "(15 :: u32) < 16" by simp
    ultimately show ?thesis by (rule le_less_trans)
  qed
  then show ?thesis by (simp add: hex8_def hex_digit_allowed)
qed

lemma no_dots_safe: "n \<noteq> [] \<Longrightarrow> list_all (\<lambda>c. name_allowed c \<and> c \<noteq> ascii_dot) n \<Longrightarrow> safe_name n"
  unfolding safe_name_def list_all_iff by (metis Suc_lessD hd_in_set nth_mem)

lemma break_dots_id:
  "(\<And>k. Suc k < length n \<Longrightarrow> \<not> (n ! k = ascii_dot \<and> n ! Suc k = ascii_dot)) \<Longrightarrow> break_dots n = n"
proof (induction n rule: break_dots.induct)
  case (1 x y r)
  have "\<not> (x = ascii_dot \<and> y = ascii_dot)" using "1.prems" [of 0] by simp
  moreover have "break_dots (y # r) = y # r"
    using 1(2) [OF calculation] "1.prems" by (metis Suc_less_eq length_Cons nth_Cons_Suc)
  ultimately show ?case by simp
qed auto

lemma slash_not_allowed: "\<not> name_allowed ascii_slash"
  by (simp add: name_allowed_def ascii_defs)

lemma safe_name_no_slash: "safe_name n \<Longrightarrow> ascii_slash \<notin> set n"
  using slash_not_allowed by (auto simp: safe_name_def list_all_iff)

lemma sanitize_steps_id:
  assumes "safe_name n" "length n \<le> m - 1"
  shows "sanitize_steps n m = n"
proof -
  have "map (\<lambda>c. if name_allowed c then c else ascii_us) n = n"
    using assms(1) by (auto simp: safe_name_def list_all_iff intro: map_idI)
  moreover have "break_dots n = n" using assms(1) by (intro break_dots_id) (auto simp: safe_name_def)
  moreover have "n \<noteq> []" "hd n \<noteq> ascii_dot" using assms(1) by (simp_all add: safe_name_def)
  ultimately show ?thesis
    using assms safe_name_no_slash [OF assms(1)] by (cases n) (simp_all add: sanitize_steps_def Let_def)
qed

lemma sanitize_filename_ok:
  assumes "2 \<le> m" "sanitize_filename name m st = (n, st')"
  shows "safe_name n" "length n < m"
proof -
  consider "sanitize_steps name m \<noteq> []" "n = sanitize_steps name m"
    | rnd where "n = take (m - 1) (str_bytes ''file_'' @ hex8 rnd)"
    using assms by (auto simp: sanitize_filename_def Let_def split: if_splits prod.splits)
  then have "safe_name n \<and> length n < m"
  proof cases
    case 1
    then show ?thesis using sanitize_steps_safe [OF 1(1)] assms(1) by auto
  next
    case (2 rnd)
    have "list_all (\<lambda>c. name_allowed c \<and> c \<noteq> ascii_dot) (str_bytes ''file_'' @ hex8 rnd)"
      using hex8_allowed [of rnd] by (simp add: str_bytes_def name_allowed_def ascii_defs)
    then have "list_all (\<lambda>c. name_allowed c \<and> c \<noteq> ascii_dot) n"
      unfolding 2 by (auto simp: list_all_iff dest: in_set_takeD)
    moreover have "n \<noteq> []" unfolding 2 using assms(1) by (auto simp: str_bytes_def)
    ultimately show ?thesis using assms(1) 2 by (auto intro: no_dots_safe)
  qed
  then show "safe_name n" "length n < m" by simp_all
qed

text \<open>Names that arrive from the network are confined: whatever bytes the peer sent, the sanitised
  name is not empty, fits the buffer, consists of letters, digits, dots, underscores and dashes only
  (so it has no path separator), does not start with a dot and has no two dots in a row; and a name
  that is already of this form is not changed.\<close>

theorem sanitize_filename_safe:
  assumes "2 \<le> max_len" "sanitize_filename name max_len st = (n, st')"
  shows "safe_name n \<and> length n < max_len \<and> ascii_slash \<notin> set n \<and>
    (safe_name name \<and> length name < max_len \<longrightarrow> n = name)"
proof -
  have "n = name" if "safe_name name" "length name < max_len"
  proof -
    have "sanitize_steps name max_len = name" using that by (intro sanitize_steps_id) simp_all
    moreover have "name \<noteq> []" using that(1) by (simp add: safe_name_def)
    ultimately show ?thesis using assms by (simp add: sanitize_filename_def)
  qed
  then show ?thesis using sanitize_filename_ok [OF assms] safe_name_no_slash by blast
qed

theorem sanitize_filename_safe_witness:
  "fst (sanitize_filename (str_bytes ''../../etc/..passwd'') 256 toy_sys) = str_bytes ''__passwd'' \<and>
   safe_name (str_bytes ''__passwd'')"
proof -
  have e: "sanitize_filename (str_bytes ''../../etc/..passwd'') 256 toy_sys = (str_bytes ''__passwd'', toy_sys)"
    by (simp add: sanitize_filename_def sanitize_steps_def after_last_slash_def str_bytes_def ascii_defs name_allowed_def)
  then show ?thesis using sanitize_filename_safe [OF _ e] by simp
qed

section \<open>The events of a transfer\<close>

lemma file_event_dispatch:
  assumes "ev = EV_FILE_DONE \<or> ev = EV_FILE_RX_START"
  shows "\<exists>f. (\<forall>ps. f ps = ps\<lparr>ps_state := ps_state (f ps)\<rparr>) \<and> snd (sm_dispatch E i ev st) = upd_peer i f st"
proof (cases "sm_lookup (ps_state (get_peer st i)) ev")
  case None
  then have "snd (sm_dispatch E i ev st) = st" by (simp add: sm_dispatch_def sm_row_def)
  moreover have "upd_peer i id st = st" by (simp add: upd_peer_def list_update_id)
  ultimately show ?thesis by (intro exI [of _ id]) simp
next
  case (Some ta)
  obtain t a where l: "sm_lookup (ps_state (get_peer st i)) ev = Some (t, a)" using Some by (cases ta) simp
  have "list_all (\<lambda>(s, ev, t, a). ev = EV_FILE_DONE \<or> ev = EV_FILE_RX_START \<longrightarrow> a \<notin> {A_cleanup, A_tofu_prompt, A_tofu_accept})
      transitions"
    by (simp add: transitions_def)
  then have "a \<notin> {A_cleanup, A_tofu_prompt, A_tofu_accept}"
    using l assms unfolding sm_lookup_iff list_all_iff by fast
  from simple_dispatch [OF l this, of E] show ?thesis
    by (intro exI [of _ "ps_state_update (\<lambda>_. t)"]) simp
qed

lemma file_event_frame:
  assumes "ev = EV_FILE_DONE \<or> ev = EV_FILE_RX_START" "i < length (as_peers st)"
  shows "ps_rx_file (get_peer (snd (sm_dispatch E i ev st)) i) = ps_rx_file (get_peer st i)"
    and "ps_session (get_peer (snd (sm_dispatch E i ev st)) i) = ps_session (get_peer st i)"
    and "ps_rx_seq (get_peer (snd (sm_dispatch E i ev st)) i) = ps_rx_seq (get_peer st i)"
    and "j \<noteq> i \<Longrightarrow> get_peer (snd (sm_dispatch E i ev st)) j = get_peer st j"
    and "length (as_peers (snd (sm_dispatch E i ev st))) = length (as_peers st)"
    and "io_log (snd (sm_dispatch E i ev st)) = io_log st"
    and "as_downloads_dir_fd (snd (sm_dispatch E i ev st)) = as_downloads_dir_fd st"
    and "io_hash (snd (sm_dispatch E i ev st)) = io_hash st"
proof -
  from file_event_dispatch [OF assms(1), of E i st] obtain f where
    f: "\<And>ps. f ps = ps\<lparr>ps_state := ps_state (f ps)\<rparr>" "snd (sm_dispatch E i ev st) = upd_peer i f st" by blast
  have "ps_rx_file (f ps) = ps_rx_file ps" "ps_session (f ps) = ps_session ps" "ps_rx_seq (f ps) = ps_rx_seq ps" for ps
    by (subst f(1), simp)+
  then show "ps_rx_file (get_peer (snd (sm_dispatch E i ev st)) i) = ps_rx_file (get_peer st i)"
    and "ps_session (get_peer (snd (sm_dispatch E i ev st)) i) = ps_session (get_peer st i)"
    and "ps_rx_seq (get_peer (snd (sm_dispatch E i ev st)) i) = ps_rx_seq (get_peer st i)"
    and "j \<noteq> i \<Longrightarrow> get_peer (snd (sm_dispatch E i ev st)) j = get_peer st j"
    and "length (as_peers (snd (sm_dispatch E i ev st))) = length (as_peers st)"
    and "io_log (snd (sm_dispatch E i ev st)) = io_log st"
    and "as_downloads_dir_fd (snd (sm_dispatch E i ev st)) = as_downloads_dir_fd st"
    and "io_hash (snd (sm_dispatch E i ev st)) = io_hash st"
    using assms(2) by (simp_all add: f(2) upd_peer_def get_peer_def)
qed

section \<open>Frames of the helpers\<close>

lemma verify_upd_peer [simp]: "verify_downloads_dir_fd (upd_peer i f st) = verify_downloads_dir_fd st"
  by (cases "io_dir_stat st") (simp_all add: verify_downloads_dir_fd_def upd_peer_def)

text \<open>What the helpers leave alone: the slots, the log and the download directory.\<close>

definition same_view :: "sys \<Rightarrow> sys \<Rightarrow> bool" where
  "same_view st st' \<longleftrightarrow> as_peers st' = as_peers st \<and> io_log st' = io_log st \<and> as_downloads_dir_fd st' = as_downloads_dir_fd st \<and>
     io_dir_stat st' = io_dir_stat st \<and> io_uid st' = io_uid st"

lemma next_hash_view: "next_hash st = (ok, st') \<Longrightarrow> same_view st st'"
  by (auto simp: next_hash_def same_view_def split: prod.splits)

lemma next_rand_view: "next_rand st = (r, st') \<Longrightarrow> same_view st st'"
  by (auto simp: next_rand_def same_view_def split: list.splits)

lemma next_open_view: "next_open st = (r, st') \<Longrightarrow> same_view st st'"
  by (auto simp: next_open_def same_view_def split: list.splits)

lemma sys_malloc_view: "sys_malloc st = (ok, st') \<Longrightarrow> same_view st st'"
  by (auto simp: sys_malloc_def same_view_def split: prod.splits)

lemma sanitize_view: "sanitize_filename name m st = (n, st') \<Longrightarrow> same_view st st'"
  by (auto simp: sanitize_filename_def Let_def same_view_def dest: next_rand_view split: if_splits prod.splits)

lemma same_viewD:
  assumes "same_view st st'"
  shows "get_peer st' j = get_peer st j" "as_peers st' = as_peers st" "io_log st' = io_log st"
    "as_downloads_dir_fd st' = as_downloads_dir_fd st" "verify_downloads_dir_fd st' = verify_downloads_dir_fd st"
  using assms by (simp_all add: same_view_def get_peer_def verify_downloads_dir_fd_def split: option.splits)

section \<open>Receiving\<close>

lemma rx_wipe_effect:
  assumes "i < length (as_peers st)"
  shows "ps_rx_file (get_peer (rx_wipe E i st) i) = zero_rx\<lparr>rx_fd := -1\<rparr>"
    and "io_log (rx_wipe E i st) = io_log st" "as_downloads_dir_fd (rx_wipe E i st) = as_downloads_dir_fd st"
    and "length (as_peers (rx_wipe E i st)) = length (as_peers st)"
    and "j \<noteq> i \<Longrightarrow> get_peer (rx_wipe E i st) j = get_peer st j"
  unfolding rx_wipe_def using assms by (simp_all add: file_event_frame)

text \<open>A running transfer whose file holds the bytes \<open>c\<close>.\<close>

definition rx_inv :: "sys \<Rightarrow> nat \<Rightarrow> bytes \<Rightarrow> bool" where
  "rx_inv st i c \<longleftrightarrow> (let rx = ps_rx_file (get_peer st i) in rx_active rx \<and> rx_fd rx \<ge> 0 \<and>
     rx_hash_state rx = be_bytes 8 (rx_expected_size rx) @ c \<and> unat (rx_received_bytes rx) = length c \<and>
     rx_received_bytes rx < rx_expected_size rx \<and> as_downloads_dir_fd st \<ge> 0 \<and> rx_local_name rx \<noteq> [])"

text \<open>What fixes the transfer: its file, size and digest.\<close>

definition rx_ident :: "file_rx_state \<Rightarrow> int \<times> u64 \<times> bytes \<times> bytes" where
  "rx_ident rx = (rx_fd rx, rx_expected_size rx, rx_expected_hash rx, rx_local_name rx)"

text \<open>The three outcomes of a frame: the transfer goes on with more bytes in the file; it is over and
  the file, complete and with the announced digest, stays; it is over and the file is removed.\<close>

definition rx_goes_on :: "nat \<Rightarrow> bytes \<Rightarrow> sys \<Rightarrow> sys \<Rightarrow> bytes \<Rightarrow> bool" where
  "rx_goes_on i c st st' d \<longleftrightarrow> rx_inv st' i (c @ d) \<and> rx_ident (ps_rx_file (get_peer st' i)) = rx_ident (ps_rx_file (get_peer st i)) \<and>
     io_log st' = io_log st @ (if d = [] then [] else [E_file_write (rx_fd (ps_rx_file (get_peer st i))) d])"

definition rx_kept :: "nox_env \<Rightarrow> nat \<Rightarrow> bytes \<Rightarrow> sys \<Rightarrow> sys \<Rightarrow> bytes \<Rightarrow> bool" where
  "rx_kept E i c st st' d \<longleftrightarrow> (let rx = ps_rx_file (get_peer st i) in
     \<not> rx_active (ps_rx_file (get_peer st' i)) \<and> length (c @ d) = unat (rx_expected_size rx) \<and>
     ne_hash32 E (be_bytes 8 (rx_expected_size rx) @ c @ d) = rx_expected_hash rx \<and>
     io_log st' = io_log st @ [E_file_write (rx_fd rx) d, E_close (rx_fd rx)])"

definition rx_removed :: "nat \<Rightarrow> sys \<Rightarrow> sys \<Rightarrow> bool" where
  "rx_removed i st st' \<longleftrightarrow> \<not> rx_active (ps_rx_file (get_peer st' i)) \<and>
     (\<exists>l. io_log st' = io_log st @ l \<and> E_unlink (rx_local_name (ps_rx_file (get_peer st i))) \<in> set l \<and>
        E_close (rx_fd (ps_rx_file (get_peer st i))) \<in> set l)"

lemma rx_abort_removed:
  assumes "i < length (as_peers s1)" "rx_active (ps_rx_file (get_peer st i))" "as_downloads_dir_fd s1 \<ge> 0"
    and "rx_local_name (ps_rx_file (get_peer s1 i)) = rx_local_name (ps_rx_file (get_peer st i))"
    and "rx_fd (ps_rx_file (get_peer s1 i)) = rx_fd (ps_rx_file (get_peer st i))"
    and "rx_local_name (ps_rx_file (get_peer st i)) \<noteq> []" "rx_fd (ps_rx_file (get_peer st i)) \<ge> 0" "io_log s1 = io_log st @ l"
  shows "rx_removed i st (rx_abort E i s1)"
  using assms by (simp add: rx_removed_def rx_abort_def Let_def rx_wipe_effect zero_rx_def)

lemma write_loop_prefix: "write_loop ws b = (NOX_OK, out, ws') \<Longrightarrow> out = b"
proof (induction ws b arbitrary: out rule: write_loop.induct)
  case (3 n ws x xs)
  show ?case
  proof (cases "n = 0")
    case False
    with "3.prems" obtain o1 where o: "write_loop ws (drop n (x # xs)) = (NOX_OK, o1, ws')" "out = take n (x # xs) @ o1"
      by (auto split: prod.splits)
    from "3.IH" [OF False o(1)] o(2) show ?thesis by simp
  qed (use 3 in simp)
qed auto

lemma write_to_file_effect:
  assumes "write_to_file fd data st = (e, st')"
  shows "as_peers st' = as_peers st" "as_downloads_dir_fd st' = as_downloads_dir_fd st"
    and "\<exists>out. io_log st' = io_log st @ [E_file_write fd out] \<and> (e = NOX_OK \<longrightarrow> out = data)"
  using assms by (auto simp: write_to_file_def dest: write_loop_prefix split: prod.splits)

lemma rx_finish_cases:
  assumes i: "i < length (as_peers st)" and f: "rx_fd (ps_rx_file (get_peer st i)) \<ge> 0"
  defines "rx \<equiv> ps_rx_file (get_peer st i)"
  shows "\<not> rx_active (ps_rx_file (get_peer (rx_finish E i st) i))"
    and "io_log (rx_finish E i st) = io_log st @ [E_close (rx_fd rx)] \<and> ne_hash32 E (rx_hash_state rx) = rx_expected_hash rx \<or>
      (\<exists>l. io_log (rx_finish E i st) = io_log st @ l \<and> E_unlink (rx_local_name rx) \<in> set l \<and> E_close (rx_fd rx) \<in> set l)"
proof -
  obtain ok s1 where h: "next_hash st = (ok, s1)" by (rule prod.exhaust)
  note v = same_viewD [OF next_hash_view [OF h]]
  have l: "i < length (as_peers s1)" using i v(2) by simp
  show "\<not> rx_active (ps_rx_file (get_peer (rx_finish E i st) i))"
    using l v(2) by (simp add: rx_finish_def Let_def h rx_wipe_effect zero_rx_def)
  show "io_log (rx_finish E i st) = io_log st @ [E_close (rx_fd rx)] \<and> ne_hash32 E (rx_hash_state rx) = rx_expected_hash rx \<or>
      (\<exists>l. io_log (rx_finish E i st) = io_log st @ l \<and> E_unlink (rx_local_name rx) \<in> set l \<and> E_close (rx_fd rx) \<in> set l)"
    using l f v by (cases ok) (simp_all add: rx_finish_def Let_def h rx_wipe_effect rx_def)
qed

lemma unat_add_le: "(a :: u64) \<le> b \<Longrightarrow> n \<le> unat (b - a) \<Longrightarrow> unat (a + of_nat n) = unat a + n"
proof -
  assume a: "a \<le> b" "n \<le> unat (b - a)"
  have "unat (b - a) = unat b - unat a" using a(1) by (simp add: unat_sub word_le_nat_alt)
  moreover have "unat b < 2 ^ 64" using unsigned_less [of b] by simp
  moreover have "unat a \<le> unat b" using a(1) by (simp add: word_le_nat_alt)
  ultimately have "unat a + n < 2 ^ 64" using a(2) by linarith
  then show ?thesis by (simp add: unat_word_ariths unat_of_nat take_bit_nat_eq_self)
qed

lemma rx_chunk_cases:
  assumes inv: "rx_inv st i c" and i: "i < length (as_peers st)" and pt: "pt \<noteq> []" "length pt \<le> 4112"
  shows "(\<exists>d. rx_goes_on i c st (rx_chunk E i pt st) d) \<or> (\<exists>d. rx_kept E i c st (rx_chunk E i pt st) d) \<or>
    rx_removed i st (rx_chunk E i pt st)"
proof -
  define rx where "rx = ps_rx_file (get_peer st i)"
  have r: "rx_active rx" "rx_fd rx \<ge> 0" "rx_hash_state rx = be_bytes 8 (rx_expected_size rx) @ c"
    "unat (rx_received_bytes rx) = length c" "rx_received_bytes rx < rx_expected_size rx" "as_downloads_dir_fd st \<ge> 0"
    "rx_local_name rx \<noteq> []"
    using inv by (simp_all add: rx_inv_def rx_def Let_def)
  define rem where "rem = rx_expected_size rx - rx_received_bytes rx"
  have rem: "rem \<noteq> 0" using r(5) by (auto simp: rem_def)
  define data where "data = (if of_nat (length pt) > rem then take (unat rem) pt else pt)"
  have ptl: "unat (of_nat (length pt) :: u64) = length pt"
    using pt(2) by (simp add: unat_of_nat take_bit_nat_eq_self)
  have dl: "length data \<le> unat rem" "data \<noteq> []"
    using pt rem ptl by (auto simp: data_def word_less_nat_alt not_less unat_eq_0)
  obtain e s1 where w: "write_to_file (rx_fd rx) data st = (e, s1)" by (rule prod.exhaust)
  note we = write_to_file_effect [OF w]
  obtain out where out: "io_log s1 = io_log st @ [E_file_write (rx_fd rx) out]" "e = NOX_OK \<longrightarrow> out = data"
    using we(3) by blast
  obtain ok s2 where h: "next_hash s1 = (ok, s2)" by (rule prod.exhaust)
  note hv = same_viewD [OF next_hash_view [OF h]]
  have p1: "get_peer s1 i = get_peer st i" "get_peer s2 i = get_peer st i" "i < length (as_peers s1)" "i < length (as_peers s2)"
    using we(1) hv(2) i by (simp_all add: get_peer_def)
  define rx' where "rx' = rx\<lparr>rx_hash_state := rx_hash_state rx @ data,
      rx_received_bytes := rx_received_bytes rx + of_nat (length data), rx_last_chunk := io_now s2\<rparr>"
  define s3 where "s3 = upd_peer i (ps_rx_file_update (\<lambda>_. rx')) s2"
  have p3: "ps_rx_file (get_peer s3 i) = rx'" "i < length (as_peers s3)" "as_downloads_dir_fd s3 = as_downloads_dir_fd st"
    "io_log s3 = io_log s2" using p1 we(2) hv(4) by (simp_all add: s3_def)
  have rec: "unat (rx_received_bytes rx') = length (c @ data)"
    using unat_add_le [of "rx_received_bytes rx" "rx_expected_size rx" "length data"] r(4,5) dl
    by (simp add: rx'_def rem_def)
  have eq: "rx_chunk E i pt st =
      (if e \<noteq> NOX_OK then rx_abort E i s1 else if \<not> ok then rx_abort E i s2
       else if rx_received_bytes rx' \<ge> rx_expected_size rx'
       then (if rx_received_bytes rx' \<noteq> rx_expected_size rx' then rx_abort E i s3 else rx_finish E i s3) else s3)"
    using r(5) rem w h unfolding rx_chunk_def
    by (simp add: Let_def rx_def [symmetric] rem_def [symmetric] data_def [symmetric] rx'_def [symmetric] s3_def [symmetric] not_less)
       (simp add: rx'_def)
  consider "e \<noteq> NOX_OK" | "e = NOX_OK" "\<not> ok" | "e = NOX_OK" "ok" "rx_received_bytes rx' \<ge> rx_expected_size rx'"
    "rx_received_bytes rx' \<noteq> rx_expected_size rx'" | "e = NOX_OK" "ok" "rx_received_bytes rx' = rx_expected_size rx'"
    | "e = NOX_OK" "ok" "rx_received_bytes rx' < rx_expected_size rx'" by fastforce
  then show ?thesis
  proof cases
    case 1
    then show ?thesis using rx_abort_removed [OF p1(3)] r p1 we out by (simp add: eq rx_def)
  next
    case 2
    then show ?thesis using rx_abort_removed [OF p1(4)] r p1 we out hv by (simp add: eq rx_def)
  next
    case 3
    then show ?thesis using rx_abort_removed [OF p3(2)] r p3 we out hv by (simp add: eq rx_def rx'_def)
  next
    case 4
    have fd: "rx_fd (ps_rx_file (get_peer s3 i)) \<ge> 0" using r(2) p3(1) by (simp add: rx'_def)
    have "rx_kept E i c st (rx_finish E i s3) data" if "io_log (rx_finish E i s3) = io_log s3 @ [E_close (rx_fd rx')]"
      "ne_hash32 E (rx_hash_state rx') = rx_expected_hash rx'"
      using that 4 rx_finish_cases(1) [OF p3(2) fd, of E] rec out hv p3
      by (simp add: rx_kept_def rx_def [symmetric] Let_def) (simp add: rx'_def r(3))
    moreover have "rx_removed i st (rx_finish E i s3)" if "io_log (rx_finish E i s3) = io_log s3 @ l"
      "E_unlink (rx_local_name rx') \<in> set l" "E_close (rx_fd rx') \<in> set l" for l
      using that rx_finish_cases(1) [OF p3(2) fd, of E] out hv p3
      by (simp add: rx_removed_def rx_def [symmetric]) (simp add: rx'_def)
    ultimately show ?thesis using 4 rx_finish_cases(2) [OF p3(2) fd, of E] by (auto simp: eq p3(1))
  next
    case 5
    then have "rx_goes_on i c st s3 data"
      using r p3 rec out hv dl by (simp add: rx_goes_on_def rx_inv_def Let_def rx_def [symmetric]) (simp add: rx'_def rx_ident_def)
    then show ?thesis using 5 by (auto simp: eq)
  qed
qed

lemma peer_decrypt_effect:
  assumes "peer_decrypt E i ct st = (r, st')" "i < length (as_peers st)"
  shows "ps_rx_file (get_peer st' i) = ps_rx_file (get_peer st i)" "length (as_peers st') = length (as_peers st)"
    "io_log st' = io_log st" "as_downloads_dir_fd st' = as_downloads_dir_fd st"
    "verify_downloads_dir_fd st' = verify_downloads_dir_fd st"
  using assms by (auto simp: peer_decrypt_def split: option.splits prod.splits)

lemma peer_decrypt_length:
  assumes S: "sodium_ok (ne_sodium E)" and d: "peer_decrypt E i ct st = (Some pt, st')"
  shows "length pt \<le> length ct"
proof -
  obtain se se' where n: "noise_decrypt (ne_sodium E) se ct = (Some pt, se')"
    using d by (auto simp: peer_decrypt_def split: option.splits prod.splits)
  have law: "length c = length p + NOX_MAC_LEN" if "sod_aead_decrypt (ne_sodium E) k n ad c = Some p" for k n ad c p
    using S that unfolding sodium_ok_def aead_ok_def by blast
  from n show ?thesis
    by (auto simp: noise_decrypt_def cipher_decrypt_def Let_def dest: law split: if_splits prod.splits option.splits)
qed

lemma rx_inv_cong:
  "ps_rx_file (get_peer st' i) = ps_rx_file (get_peer st i) \<Longrightarrow> as_downloads_dir_fd st' = as_downloads_dir_fd st \<Longrightarrow>
     rx_inv st' i c = rx_inv st i c"
  by (simp add: rx_inv_def)

lemma rx_outcome_cong:
  assumes "ps_rx_file (get_peer s1 i) = ps_rx_file (get_peer st i)" "io_log s1 = io_log st"
  shows "rx_goes_on i c s1 st' d = rx_goes_on i c st st' d" "rx_kept E i c s1 st' d = rx_kept E i c st st' d"
    "rx_removed i s1 st' = rx_removed i st st'"
  using assms by (simp_all add: rx_goes_on_def rx_kept_def rx_removed_def)

lemma handle_rx_cases:
  assumes inv: "rx_inv st i c" and i: "i < length (as_peers st)" and S: "sodium_ok (ne_sodium E)"
    and h: "file_transfer_handle_rx E i payload st = (r, st')"
  shows "(\<exists>d. rx_goes_on i c st st' d) \<or> (\<exists>d. rx_kept E i c st st' d) \<or> rx_removed i st st'"
proof -
  have same: "rx_goes_on i c st s []" if "ps_rx_file (get_peer s i) = ps_rx_file (get_peer st i)"
    "as_downloads_dir_fd s = as_downloads_dir_fd st" "io_log s = io_log st" for s
    using inv that by (simp add: rx_goes_on_def rx_inv_cong [OF that(1,2)])
  obtain ok s1 where m: "sys_malloc st = (ok, s1)" by (rule prod.exhaust)
  note mv = same_viewD [OF sys_malloc_view [OF m]]
  obtain q s2 where d: "peer_decrypt E i payload s1 = (q, s2)" by (rule prod.exhaust)
  have i1: "i < length (as_peers s1)" using i mv by simp
  note dv = peer_decrypt_effect [OF d i1]
  have v: "ps_rx_file (get_peer s2 i) = ps_rx_file (get_peer st i)" "as_downloads_dir_fd s2 = as_downloads_dir_fd st"
    "io_log s2 = io_log st" "i < length (as_peers s2)" using dv mv i by simp_all
  have inv2: "rx_inv s2 i c" "rx_active (ps_rx_file (get_peer s2 i))"
    using inv v by (simp_all add: rx_inv_cong [OF v(1,2)]) (simp add: rx_inv_def Let_def)
  define pt where "pt = (case q of None \<Rightarrow> [] | Some p \<Rightarrow> p)"
  have ab: "rx_removed i st (rx_abort E i s2)"
    using inv inv2 v by (intro rx_abort_removed [where l = "[]"]) (simp_all add: rx_inv_def Let_def)
  show ?thesis
  proof (cases "length payload < NOX_MAC_LEN \<or> length payload > 4096 + NOX_MAC_LEN \<or> \<not> ok")
    case True
    then have "st' = st \<or> st' = s1" using h m by (auto simp: file_transfer_handle_rx_def split: if_splits)
    then show ?thesis using same [of st] same [of s1] mv by auto
  next
    case False
    then have l: "length payload \<le> 4112" by (simp add: NOX_MAC_LEN_def)
    have eq: "st' = (if pt = [] then rx_abort E i s2 else if is_metadata pt then rx_abort E i s2 else rx_chunk E i pt s2)"
      using h m d False inv2(2) by (auto simp: file_transfer_handle_rx_def pt_def Let_def split: if_splits)
    show ?thesis
    proof (cases "pt = [] \<or> is_metadata pt")
      case True
      then show ?thesis using ab eq by auto
    next
      case False
      then obtain p where "q = Some p" "pt = p" by (auto simp: pt_def split: option.splits)
      then have "length pt \<le> 4112" using peer_decrypt_length [OF S] d l by fastforce
      from rx_chunk_cases [OF inv2(1) v(4) _ this, of E] False show ?thesis
        using eq by (simp add: rx_outcome_cong [OF v(1,3)])
    qed
  qed
qed

text \<open>No step changes the number of slots.\<close>

lemma rx_abort_length: "i < length (as_peers st) \<Longrightarrow> length (as_peers (rx_abort E i st)) = length (as_peers st)"
  by (simp add: rx_abort_def Let_def rx_wipe_effect)

lemma next_hash_peers [simp]: "as_peers (snd (next_hash st)) = as_peers st"
  by (metis next_hash_view prod.collapse same_viewD(2))

lemma write_to_file_peers [simp]: "as_peers (snd (write_to_file fd d st)) = as_peers st"
  by (metis prod.collapse write_to_file_effect(1))

lemma rx_finish_length: "i < length (as_peers st) \<Longrightarrow> length (as_peers (rx_finish E i st)) = length (as_peers st)"
  by (simp add: rx_finish_def Let_def rx_wipe_effect case_prod_beta)

lemma rx_chunk_length:
  "i < length (as_peers st) \<Longrightarrow> length (as_peers (rx_chunk E i pt st)) = length (as_peers st)"
  by (simp add: rx_chunk_def Let_def rx_abort_length rx_finish_length case_prod_beta)

text \<open>\<open>open_recv_file\<close> either fails and changes nothing of the slots, or records the name of the file it
  has created.\<close>

definition recv_name :: "bytes \<Rightarrow> bytes \<Rightarrow> bool" where
  "recv_name n local_name \<longleftrightarrow> local_name = str_bytes ''received_'' @ n \<or>
     (\<exists>r. local_name = str_bytes ''received_'' @ n @ [ascii_dot] @ hex8 r)"

lemma open_recv_file_cases:
  assumes o: "open_recv_file i n st = ((err, fd), st')"
  obtains (failed) "err \<noteq> NOX_OK" "same_view st st'"
  | (opened) nm s where "err = NOX_OK" "as_downloads_dir_fd st \<ge> 0" "verify_downloads_dir_fd st = NOX_OK" "same_view st s"
      "recv_name n nm" "st' = upd_peer i (ps_rx_file_update (rx_local_name_update (\<lambda>_. nm))) s"
proof (cases "(ascii_slash \<in> set n \<or> 92 \<in> set n) \<or> (as_downloads_dir_fd st < 0 \<or> verify_downloads_dir_fd st \<noteq> NOX_OK) \<or>
      length (str_bytes ''received_'' @ n) \<ge> 300")
  case True
  then have "err = NOX_ERR_CONFIG" "st' = st" using o by (auto simp: open_recv_file_def Let_def split: if_splits)
  then show thesis by (intro failed) (simp_all add: same_view_def)
next
  case False
  obtain a s1 where o1: "next_open st = (a, s1)" by (rule prod.exhaust)
  note v1 = next_open_view [OF o1]
  have eq: "open_recv_file i n st = (case a of
      Opened fd \<Rightarrow> ((NOX_OK, fd), upd_peer i (ps_rx_file_update (rx_local_name_update (\<lambda>_. str_bytes ''received_'' @ n))) s1)
    | Open_failed \<Rightarrow> ((NOX_ERR_IO, -1), s1)
    | Open_exists \<Rightarrow>
      (case next_rand s1 of (rnd, st) \<Rightarrow>
       let local_name = (str_bytes ''received_'' @ n) @ [ascii_dot] @ hex8 rnd in
       if length local_name \<ge> 300 then ((NOX_ERR_CONFIG, -1), st)
       else case next_open st of (a, st) \<Rightarrow>
       case a of
         Opened fd \<Rightarrow> ((NOX_OK, fd), upd_peer i (ps_rx_file_update (rx_local_name_update (\<lambda>_. local_name))) st)
       | _ \<Rightarrow> ((NOX_ERR_IO, -1), st)))"
    unfolding open_recv_file_def using False by (simp only: Let_def o1 if_False split: if_splits) simp
  have ok: "as_downloads_dir_fd st \<ge> 0" "verify_downloads_dir_fd st = NOX_OK" using False by auto
  show thesis
  proof (cases a)
    case (Opened f)
    with o eq have "err = NOX_OK" "st' = upd_peer i (ps_rx_file_update (rx_local_name_update (\<lambda>_. str_bytes ''received_'' @ n))) s1"
      by simp_all
    then show thesis using ok v1 by (intro opened [of s1]) (auto simp: recv_name_def)
  next
    case Open_failed
    with o eq v1 show thesis by (intro failed) auto
  next
    case Open_exists
    obtain r s2 where r: "next_rand s1 = (r, s2)" by (rule prod.exhaust)
    obtain b s3 where o2: "next_open s2 = (b, s3)" by (rule prod.exhaust)
    have v2: "same_view st s2" and v3: "same_view st s3"
      using v1 next_rand_view [OF r] next_open_view [OF o2] by (simp_all add: same_view_def)
    let ?nm = "(str_bytes ''received_'' @ n) @ [ascii_dot] @ hex8 r"
    have eq2: "((err, fd), st') = (if length ?nm \<ge> 300 then ((NOX_ERR_CONFIG, -1), s2) else
       case b of Opened fd \<Rightarrow> ((NOX_OK, fd), upd_peer i (ps_rx_file_update (rx_local_name_update (\<lambda>_. ?nm))) s3)
       | _ \<Rightarrow> ((NOX_ERR_IO, -1), s3))"
      unfolding o [symmetric] eq Open_exists by (simp only: open_ans.case r o2 prod.case Let_def)
    show thesis
    proof (cases "length ?nm \<ge> 300")
      case True
      with eq2 v2 show thesis by (intro failed) simp_all
    next
      case False
      show thesis
      proof (cases b)
        case (Opened f)
        with eq2 False have "err = NOX_OK" "st' = upd_peer i (ps_rx_file_update (rx_local_name_update (\<lambda>_. ?nm))) s3"
          by simp_all
        then show thesis using ok v3 by (intro opened [of s3 ?nm]) (auto simp: recv_name_def)
      qed (use eq2 False v3 in \<open>auto intro: failed\<close>)
    qed
  qed
qed

text \<open>A transfer that has just begun.\<close>

definition rx_started :: "sys \<Rightarrow> nat \<Rightarrow> bytes \<Rightarrow> u64 \<Rightarrow> bytes \<Rightarrow> sys \<Rightarrow> bool" where
  "rx_started st i n sz hsh st' \<longleftrightarrow> rx_inv st' i [] \<and> io_log st' = io_log st \<and> verify_downloads_dir_fd st = NOX_OK \<and>
     rx_expected_size (ps_rx_file (get_peer st' i)) = sz \<and> rx_expected_hash (ps_rx_file (get_peer st' i)) = hsh \<and>
     recv_name n (rx_local_name (ps_rx_file (get_peer st' i)))"

lemma rx_abort_inactive: "i < length (as_peers s) \<Longrightarrow> \<not> rx_active (ps_rx_file (get_peer (rx_abort E i s) i))"
  by (simp add: rx_abort_def Let_def rx_wipe_effect zero_rx_def)

lemma rx_begin_opened:
  fixes hsh n :: bytes and E :: nox_env
  assumes l: "i < length (as_peers s)" and sz: "sz \<noteq> 0" and fd: "fd \<ge> 0" and nm: "nm \<noteq> []" and dd: "as_downloads_dir_fd s \<ge> 0"
    and rx: "ps_rx_file (get_peer s i) = zero_rx\<lparr>rx_local_name := nm\<rparr>"
  defines "s2 \<equiv> upd_peer i (ps_rx_file_update (\<lambda>rx. rx\<lparr>rx_active := True, rx_fd := fd, rx_expected_size := sz,
      rx_received_bytes := 0, rx_last_chunk := io_now s, rx_expected_hash := hsh, rx_filename := take 255 n\<rparr>)) s"
  defines "s3 \<equiv> snd (sm_dispatch E i EV_FILE_RX_START s2)"
  assumes v: "as_peers s5 = as_peers s3" "io_log s5 = io_log s3" "as_downloads_dir_fd s5 = as_downloads_dir_fd s3"
  defines "s6 \<equiv> upd_peer i (ps_rx_file_update (rx_hash_state_update (\<lambda>_. be_bytes 8 sz))) s5"
  shows "rx_inv s6 i []" "io_log s6 = io_log s" "rx_expected_size (ps_rx_file (get_peer s6 i)) = sz"
    "rx_expected_hash (ps_rx_file (get_peer s6 i)) = hsh" "rx_local_name (ps_rx_file (get_peer s6 i)) = nm"
    "length (as_peers s6) = length (as_peers s)"
proof -
  have l2: "i < length (as_peers s2)" using l by (simp add: s2_def)
  note fe = file_event_frame [where ev = EV_FILE_RX_START, OF disjI2 [OF refl] l2, where E = E, folded s3_def]
  have p5: "get_peer s5 i = get_peer s3 i" "i < length (as_peers s5)" using v(1) fe(5) l2 by (simp_all add: get_peer_def)
  have rx6: "ps_rx_file (get_peer s6 i) = zero_rx\<lparr>rx_local_name := nm, rx_active := True, rx_fd := fd, rx_expected_size := sz,
      rx_received_bytes := 0, rx_last_chunk := io_now s, rx_expected_hash := hsh, rx_filename := take 255 n,
      rx_hash_state := be_bytes 8 sz\<rparr>"
    using p5 fe(1) l rx by (simp add: s6_def s2_def)
  have "0 < sz" using sz by (simp add: word_gt_0)
  moreover have "as_downloads_dir_fd s6 = as_downloads_dir_fd s" using v fe(7) by (simp add: s6_def s2_def)
  ultimately show "rx_inv s6 i []" using rx6 fd nm dd by (simp add: rx_inv_def)
  show "io_log s6 = io_log s" using v fe(6) by (simp add: s6_def s2_def)
  show "rx_expected_size (ps_rx_file (get_peer s6 i)) = sz" "rx_expected_hash (ps_rx_file (get_peer s6 i)) = hsh"
    "rx_local_name (ps_rx_file (get_peer s6 i)) = nm" using rx6 by simp_all
  show "length (as_peers s6) = length (as_peers s)" using v fe(5) by (simp add: s6_def s2_def)
qed

lemma recv_name_nonempty: "recv_name n nm \<Longrightarrow> nm \<noteq> []"
  by (auto simp: recv_name_def str_bytes_def)

lemma rx_begin_cases:
  assumes i: "i < length (as_peers st)" and sz: "sz \<noteq> 0"
  shows "length (as_peers (rx_begin E i n sz hsh st)) = length (as_peers st)" (is ?len)
    and "\<not> rx_active (ps_rx_file (get_peer (rx_begin E i n sz hsh st) i)) \<or> rx_started st i n sz hsh (rx_begin E i n sz hsh st)"
proof -
  let ?st0 = "upd_peer i (ps_rx_file_update (\<lambda>_. zero_rx)) st"
  obtain err fd s1 where o: "open_recv_file i n ?st0 = ((err, fd), s1)" by (metis surj_pair)
  define s2 where "s2 = upd_peer i (ps_rx_file_update (\<lambda>rx. rx\<lparr>rx_active := True, rx_fd := fd, rx_expected_size := sz,
      rx_received_bytes := 0, rx_last_chunk := io_now s1, rx_expected_hash := hsh, rx_filename := take 255 n\<rparr>)) s1"
  define s3 where "s3 = snd (sm_dispatch E i EV_FILE_RX_START s2)"
  obtain ok1 s4 where h1: "next_hash s3 = (ok1, s4)" by (rule prod.exhaust)
  note v4 = same_viewD [OF next_hash_view [OF h1]]
  obtain ok2 s5 where h2: "next_hash s4 = (ok2, s5)" by (rule prod.exhaust)
  note v5 = same_viewD [OF next_hash_view [OF h2]]
  define s6 where "s6 = upd_peer i (ps_rx_file_update (rx_hash_state_update (\<lambda>_. be_bytes 8 sz))) s5"
  have eq: "rx_begin E i n sz hsh st = (if err = NOX_OK \<and> fd \<ge> 0 then
      (if \<not> ok1 then rx_abort E i s4 else if \<not> ok2 then rx_abort E i s5 else s6) else s1)"
    unfolding rx_begin_def by (simp add: o Let_def s2_def [symmetric] s3_def [symmetric] h1 h2 s6_def [symmetric])
  from o have "?len \<and> (\<not> rx_active (ps_rx_file (get_peer (rx_begin E i n sz hsh st) i)) \<or>
      rx_started st i n sz hsh (rx_begin E i n sz hsh st))"
  proof (cases rule: open_recv_file_cases)
    case failed
    then show ?thesis using same_viewD [OF failed(2)] i by (simp add: eq zero_rx_def)
  next
    case (opened nm s)
    note v = same_viewD [OF opened(4)]
    have l: "i < length (as_peers s1)" and rx1: "ps_rx_file (get_peer s1 i) = zero_rx\<lparr>rx_local_name := nm\<rparr>"
      using opened(6) v i by simp_all
    have l3: "length (as_peers s3) = length (as_peers st)"
      using file_event_frame(5) [where ev = EV_FILE_RX_START, OF disjI2 [OF refl], of i s2 E] l v opened(6)
      by (simp add: s3_def s2_def)
    have l45: "i < length (as_peers s4)" "i < length (as_peers s5)" using l3 v4 v5 i by simp_all
    have dd: "as_downloads_dir_fd s1 \<ge> 0" using opened v by simp
    have nm: "nm \<noteq> []" by (rule recv_name_nonempty [OF opened(5)])
    have v6: "as_peers s5 = as_peers s3" "io_log s5 = io_log s3" "as_downloads_dir_fd s5 = as_downloads_dir_fd s3"
      using v4 v5 by simp_all
    show ?thesis
    proof (cases "fd \<ge> 0 \<and> ok1 \<and> ok2")
      case True
      note b = rx_begin_opened [OF l sz _ nm dd rx1, where E = E and fd = fd and hsh = hsh and n = n, folded s2_def, folded s3_def, OF _ v6, folded s6_def]
      have "rx_started st i n sz hsh s6"
        using b True opened v by (auto simp: rx_started_def)
      then show ?thesis using True opened(1,6) b(6) v by (simp add: eq)
    next
      case False
      then show ?thesis
        using rx_abort_inactive [OF l45(1), of E] rx_abort_inactive [OF l45(2), of E] l45 l3 v4 v5 rx1 v opened(6)
        by (auto simp: eq rx_abort_length zero_rx_def)
    qed
  qed
  then show ?len "\<not> rx_active (ps_rx_file (get_peer (rx_begin E i n sz hsh st) i)) \<or>
      rx_started st i n sz hsh (rx_begin E i n sz hsh st)" by blast+
qed

lemma rx_metadata_cases:
  assumes i: "i < length (as_peers st)" and off: "\<not> rx_active (ps_rx_file (get_peer st i))"
  shows "length (as_peers (rx_metadata E i pt st)) = length (as_peers st)" (is ?len)
    and "\<not> rx_active (ps_rx_file (get_peer (rx_metadata E i pt st) i)) \<or>
      (\<exists>n sz s. safe_name n \<and> sz \<noteq> 0 \<and> sz \<le> NOX_MAX_FILE_SIZE \<and> \<not> is_zero (take 32 (drop 273 pt)) \<and> same_view st s \<and>
         rx_started s i n sz (take 32 (drop 273 pt)) (rx_metadata E i pt st))"
proof -
  obtain n s where n: "sanitize_filename (c_str (take 255 (drop 9 pt))) 256 st = (n, s)" by (rule prod.exhaust)
  note v = same_viewD [OF sanitize_view [OF n]]
  define sz where "sz = (of_be (take 8 (drop 265 pt)) :: u64)"
  have l: "i < length (as_peers s)" using i v by simp
  have cs: "rx_metadata E i pt st = s \<or>
      sz \<noteq> 0 \<and> sz \<le> NOX_MAX_FILE_SIZE \<and> \<not> is_zero (take 32 (drop 273 pt)) \<and>
      rx_metadata E i pt st = rx_begin E i n sz (take 32 (drop 273 pt)) s"
    unfolding rx_metadata_def by (auto simp: n Let_def sz_def [symmetric] not_less split: option.splits)
  then have "?len \<and> (\<not> rx_active (ps_rx_file (get_peer (rx_metadata E i pt st) i)) \<or>
      (\<exists>n sz s. safe_name n \<and> sz \<noteq> 0 \<and> sz \<le> NOX_MAX_FILE_SIZE \<and> \<not> is_zero (take 32 (drop 273 pt)) \<and> same_view st s \<and>
         rx_started s i n sz (take 32 (drop 273 pt)) (rx_metadata E i pt st)))"
  proof
    assume "rx_metadata E i pt st = s"
    then show ?thesis using v off by simp
  next
    assume a: "sz \<noteq> 0 \<and> sz \<le> NOX_MAX_FILE_SIZE \<and> \<not> is_zero (take 32 (drop 273 pt)) \<and>
      rx_metadata E i pt st = rx_begin E i n sz (take 32 (drop 273 pt)) s"
    then have sz: "sz \<noteq> 0" by blast
    have "safe_name n" using sanitize_filename_ok(1) [OF _ n] by simp
    then show ?thesis
      using a rx_begin_cases [OF l sz, where E = E and n = n and hsh = "take 32 (drop 273 pt)"] v sanitize_view [OF n]
      by auto
  qed
  then show ?len "\<not> rx_active (ps_rx_file (get_peer (rx_metadata E i pt st) i)) \<or>
      (\<exists>n sz s. safe_name n \<and> sz \<noteq> 0 \<and> sz \<le> NOX_MAX_FILE_SIZE \<and> \<not> is_zero (take 32 (drop 273 pt)) \<and> same_view st s \<and>
         rx_started s i n sz (take 32 (drop 273 pt)) (rx_metadata E i pt st))" by blast+
qed

lemma handle_rx_frame:
  assumes h: "file_transfer_handle_rx E i payload st = (r, st')" and i: "i < length (as_peers st)"
  shows "length (as_peers st') = length (as_peers st)"
    and "\<not> rx_active (ps_rx_file (get_peer st i)) \<Longrightarrow> rx_active (ps_rx_file (get_peer st' i)) \<Longrightarrow>
      \<exists>n sz hsh s. safe_name n \<and> sz \<noteq> 0 \<and> sz \<le> NOX_MAX_FILE_SIZE \<and> \<not> is_zero hsh \<and> io_log s = io_log st \<and>
        verify_downloads_dir_fd s = verify_downloads_dir_fd st \<and> rx_started s i n sz hsh st'"
proof -
  obtain ok s1 where m: "sys_malloc st = (ok, s1)" by (rule prod.exhaust)
  note mv = same_viewD [OF sys_malloc_view [OF m]]
  obtain q s2 where d: "peer_decrypt E i payload s1 = (q, s2)" by (rule prod.exhaust)
  have i1: "i < length (as_peers s1)" using i mv by simp
  note dv = peer_decrypt_effect [OF d i1]
  have v: "ps_rx_file (get_peer s2 i) = ps_rx_file (get_peer st i)" "io_log s2 = io_log st" "i < length (as_peers s2)"
    "length (as_peers s2) = length (as_peers st)" "verify_downloads_dir_fd s2 = verify_downloads_dir_fd st"
    using dv mv i by simp_all
  define pt where "pt = (case q of None \<Rightarrow> [] | Some p \<Rightarrow> p)"
  have "st' = st \<or> st' = s1 \<or> st' = (if pt = [] then (if rx_active (ps_rx_file (get_peer s2 i)) then rx_abort E i s2 else s2)
      else if is_metadata pt then (if rx_active (ps_rx_file (get_peer s2 i)) then rx_abort E i s2 else rx_metadata E i pt s2)
      else if rx_active (ps_rx_file (get_peer s2 i)) then rx_chunk E i pt s2 else s2)"
    using h m d by (auto simp: file_transfer_handle_rx_def pt_def Let_def split: if_splits)
  then consider "st' = st" | "st' = s1" | "st' = s2" | "st' = rx_abort E i s2"
    | "st' = rx_metadata E i pt s2" "\<not> rx_active (ps_rx_file (get_peer s2 i))"
    | "st' = rx_chunk E i pt s2" "rx_active (ps_rx_file (get_peer s2 i))"
    by (auto split: if_splits)
  then have "length (as_peers st') = length (as_peers st) \<and> (\<not> rx_active (ps_rx_file (get_peer st i)) \<longrightarrow>
     rx_active (ps_rx_file (get_peer st' i)) \<longrightarrow>
      (\<exists>n sz hsh s. safe_name n \<and> sz \<noteq> 0 \<and> sz \<le> NOX_MAX_FILE_SIZE \<and> \<not> is_zero hsh \<and> io_log s = io_log st \<and>
        verify_downloads_dir_fd s = verify_downloads_dir_fd st \<and> rx_started s i n sz hsh st'))"
  proof cases
    case 4
    then show ?thesis using rx_abort_inactive [OF v(3), of E] rx_abort_length [OF v(3), of E] v by simp
  next
    case 5
    note mc = rx_metadata_cases [OF v(3) 5(2), where E = E and pt = pt, folded 5(1)]
    show ?thesis
    proof (cases "rx_active (ps_rx_file (get_peer st' i))")
      case True
      then obtain n sz s where o: "safe_name n" "sz \<noteq> 0" "sz \<le> NOX_MAX_FILE_SIZE" "\<not> is_zero (take 32 (drop 273 pt))"
        "same_view s2 s" "rx_started s i n sz (take 32 (drop 273 pt)) st'" using mc(2) by blast
      have "io_log s = io_log st" "verify_downloads_dir_fd s = verify_downloads_dir_fd st"
        using same_viewD(3,5) [OF o(5)] v by simp_all
      with o mc(1) v(4) show ?thesis by metis
    qed (use mc v in simp)
  next
    case 6
    then show ?thesis using rx_chunk_length [OF v(3), of E pt] v by simp
  qed (use mv v in simp_all)
  then show "length (as_peers st') = length (as_peers st)"
    and "\<not> rx_active (ps_rx_file (get_peer st i)) \<Longrightarrow> rx_active (ps_rx_file (get_peer st' i)) \<Longrightarrow>
      \<exists>n sz hsh s. safe_name n \<and> sz \<noteq> 0 \<and> sz \<le> NOX_MAX_FILE_SIZE \<and> \<not> is_zero hsh \<and> io_log s = io_log st \<and>
        verify_downloads_dir_fd s = verify_downloads_dir_fd st \<and> rx_started s i n sz hsh st'"
    by blast+
qed

section \<open>Properties of receiving\<close>

text \<open>C22. A peer can make the program create a file only inside the checked download directory and only
  under a harmless name: whenever a FILE frame starts a transfer, the directory was owned by the user
  with mode 0700, the new file is called \<open>received_\<close> followed by a sanitised name (and possibly a
  random suffix), no byte of its name is a path separator, its announced size is positive and within
  the limit, and no byte has been written yet.\<close>

theorem received_file_confined:
  assumes "file_transfer_handle_rx E i payload st = (r, st')" "i < length (as_peers st)"
    and "\<not> rx_active (ps_rx_file (get_peer st i))" "rx_active (ps_rx_file (get_peer st' i))"
  shows "\<exists>n. safe_name n \<and> recv_name n (rx_local_name (ps_rx_file (get_peer st' i))) \<and>
    ascii_slash \<notin> set (rx_local_name (ps_rx_file (get_peer st' i))) \<and>
    0 < rx_expected_size (ps_rx_file (get_peer st' i)) \<and> rx_expected_size (ps_rx_file (get_peer st' i)) \<le> NOX_MAX_FILE_SIZE \<and>
    rx_inv st' i [] \<and> io_log st' = io_log st \<and> verify_downloads_dir_fd st = NOX_OK"
proof -
  obtain n sz hsh s where a: "safe_name n" "sz \<noteq> 0" "sz \<le> NOX_MAX_FILE_SIZE" "io_log s = io_log st" "rx_started s i n sz hsh st'"
    "verify_downloads_dir_fd s = verify_downloads_dir_fd st"
    using handle_rx_frame(2) [OF assms] by blast
  note b = a(5) [unfolded rx_started_def]
  have "ascii_slash \<notin> set (hex8 r)" for r using hex8_allowed [of r] slash_not_allowed by (auto simp: list_all_iff)
  moreover have "ascii_slash \<notin> set (str_bytes ''received_'')" "ascii_slash \<noteq> ascii_dot"
    by (simp_all add: str_bytes_def ascii_defs)
  ultimately have "ascii_slash \<notin> set (rx_local_name (ps_rx_file (get_peer st' i)))"
    using b safe_name_no_slash [OF a(1)] by (auto simp: recv_name_def)
  then show ?thesis using a b by (intro exI [of _ n]) (auto simp: word_gt_0)
qed

text \<open>The bytes that reached a file, and the frames of a transfer one after the other.\<close>

fun file_bytes :: "int \<Rightarrow> effect list \<Rightarrow> bytes" where
  "file_bytes fd [] = []"
| "file_bytes fd (E_file_write f d # es) = (if f = fd then d @ file_bytes fd es else file_bytes fd es)"
| "file_bytes fd (_ # es) = file_bytes fd es"

lemma file_bytes_append [simp]: "file_bytes fd (a @ b) = file_bytes fd a @ file_bytes fd b"
  by (induction fd a rule: file_bytes.induct) auto

fun rx_run :: "nox_env \<Rightarrow> nat \<Rightarrow> bytes list \<Rightarrow> sys \<Rightarrow> sys" where
  "rx_run E i [] st = st"
| "rx_run E i (p # ps) st =
     (if rx_active (ps_rx_file (get_peer st i)) then rx_run E i ps (snd (file_transfer_handle_rx E i p st)) else st)"

lemma rx_run_cases:
  assumes "rx_inv st i c" "i < length (as_peers st)" "sodium_ok (ne_sodium E)"
    and "st' = rx_run E i ps st" "rx = ps_rx_file (get_peer st i)"
  shows "\<exists>l. io_log st' = io_log st @ l \<and>
    (rx_inv st' i (c @ file_bytes (rx_fd rx) l) \<or>
     \<not> rx_active (ps_rx_file (get_peer st' i)) \<and> length (c @ file_bytes (rx_fd rx) l) = unat (rx_expected_size rx) \<and>
       ne_hash32 E (be_bytes 8 (rx_expected_size rx) @ c @ file_bytes (rx_fd rx) l) = rx_expected_hash rx \<or>
     \<not> rx_active (ps_rx_file (get_peer st' i)) \<and> E_unlink (rx_local_name rx) \<in> set l \<and> E_close (rx_fd rx) \<in> set l)"
  using assms
proof (induction ps arbitrary: st c rx)
  case Nil
  then show ?case by (intro exI [of _ "[]"]) simp
next
  case (Cons p ps)
  obtain r s1 where h: "file_transfer_handle_rx E i p st = (r, s1)" by (rule prod.exhaust)
  have act: "rx_active (ps_rx_file (get_peer st i))" using Cons.prems(1) by (simp add: rx_inv_def Let_def)
  have st': "st' = rx_run E i ps s1" using Cons.prems(4) act h by simp
  have stop: "rx_run E i ps s1 = s1" if "\<not> rx_active (ps_rx_file (get_peer s1 i))"
    using that by (cases ps) simp_all
  from handle_rx_cases [OF Cons.prems(1-3) h] show ?case
  proof (elim disjE exE)
    fix d assume g: "rx_goes_on i c st s1 d"
    have l1: "i < length (as_peers s1)" using handle_rx_frame(1) [OF h Cons.prems(2)] Cons.prems(2) by simp
    from Cons.IH [OF _ l1 Cons.prems(3) st' refl, of "c @ d"] g obtain l where
      l: "io_log st' = io_log s1 @ l" and o: "rx_inv st' i ((c @ d) @ file_bytes (rx_fd (ps_rx_file (get_peer s1 i))) l) \<or>
     \<not> rx_active (ps_rx_file (get_peer st' i)) \<and>
       length ((c @ d) @ file_bytes (rx_fd (ps_rx_file (get_peer s1 i))) l) = unat (rx_expected_size (ps_rx_file (get_peer s1 i))) \<and>
       ne_hash32 E (be_bytes 8 (rx_expected_size (ps_rx_file (get_peer s1 i))) @ (c @ d) @
         file_bytes (rx_fd (ps_rx_file (get_peer s1 i))) l) = rx_expected_hash (ps_rx_file (get_peer s1 i)) \<or>
     \<not> rx_active (ps_rx_file (get_peer st' i)) \<and> E_unlink (rx_local_name (ps_rx_file (get_peer s1 i))) \<in> set l \<and>
       E_close (rx_fd (ps_rx_file (get_peer s1 i))) \<in> set l"
      unfolding rx_goes_on_def by blast
    show ?thesis
      using g o l Cons.prems(5)
      by (intro exI [of _ "(if d = [] then [] else [E_file_write (rx_fd rx) d]) @ l"])
        (cases "d = []"; simp add: rx_goes_on_def rx_ident_def)
  next
    fix d assume k: "rx_kept E i c st s1 d"
    then show ?thesis using Cons.prems(5) st' stop
      by (intro exI [of _ "[E_file_write (rx_fd rx) d, E_close (rx_fd rx)]"]) (simp add: rx_kept_def Let_def)
  next
    assume k: "rx_removed i st s1"
    then show ?thesis using Cons.prems(5) st' stop unfolding rx_removed_def by auto
  qed
qed

text \<open>C16. Only complete and authentic files stay on disk. Whatever FILE frames follow the start of a
  transfer, at the end either the transfer is still running with fewer bytes than announced in the
  file, or it is over and the bytes in the file are exactly as many as announced and have the
  announced digest (of the size and the content), or it is over and the file was closed and removed.\<close>

theorem received_file_verified:
  assumes "rx_inv st i []" "i < length (as_peers st)" "sodium_ok (ne_sodium E)"
  shows "\<exists>l. io_log (rx_run E i ps st) = io_log st @ l \<and>
    (let rx = ps_rx_file (get_peer st i); content = file_bytes (rx_fd rx) l; st' = rx_run E i ps st in
     rx_inv st' i content \<or>
     \<not> rx_active (ps_rx_file (get_peer st' i)) \<and> length content = unat (rx_expected_size rx) \<and>
       ne_hash32 E (be_bytes 8 (rx_expected_size rx) @ content) = rx_expected_hash rx \<or>
     \<not> rx_active (ps_rx_file (get_peer st' i)) \<and> E_unlink (rx_local_name rx) \<in> set l \<and> E_close (rx_fd rx) \<in> set l)"
  using rx_run_cases [OF assms refl refl, of ps] by (simp add: Let_def)

section \<open>A concrete transfer\<close>

definition toy_cipher :: noise_cipher_state where
  "toy_cipher = \<lparr>cs_k = zeros 32, cs_n = 0, cs_has_key = True\<rparr>"

definition toy_session :: noise_session where
  "toy_session = \<lparr>ns_tx = toy_cipher, ns_rx = toy_cipher, ns_remote_static = zeros 32\<rparr>"

definition talk_sys :: sys where
  "talk_sys = (upd_peer 0 (\<lambda>_. init_peer\<lparr>ps_state := ST_ACTIVE, ps_fd := 9, ps_session := Some toy_session\<rparr>) toy_sys)
     \<lparr>as_active_peer_idx := 0, io_open := [Opened 20]\<rparr>"

definition toy_content :: bytes where "toy_content = [1, 2, 3]"

definition toy_meta :: bytes where
  "toy_meta = metadata (str_bytes ''a.txt'') 3 (ne_hash32 toy_env (be_bytes 8 (3 :: u64) @ toy_content)) @ toy_tag (encode_nonce 0)"

definition recv_sys :: sys where
  "recv_sys = snd (file_transfer_handle_rx toy_env 0 toy_meta talk_sys)"

lemma recv_sys_started: "rx_active (ps_rx_file (get_peer recv_sys 0))"
  by code_simp

lemma talk_sys_length: "0 < length (as_peers talk_sys)"
  by code_simp

lemma talk_sys_idle: "\<not> rx_active (ps_rx_file (get_peer talk_sys 0))"
  by code_simp

lemma recv_sys_eq: "file_transfer_handle_rx toy_env 0 toy_meta talk_sys = (True, recv_sys)"
proof -
  have "fst (file_transfer_handle_rx toy_env 0 toy_meta talk_sys)" by code_simp
  then show ?thesis by (simp add: recv_sys_def prod_eq_iff)
qed

theorem received_file_confined_witness:
  "\<exists>n. safe_name n \<and> recv_name n (rx_local_name (ps_rx_file (get_peer recv_sys 0))) \<and> rx_inv recv_sys 0 []"
  using received_file_confined [OF recv_sys_eq talk_sys_length talk_sys_idle recv_sys_started] by blast

lemma recv_sys_inv: "rx_inv recv_sys 0 []" "0 < length (as_peers recv_sys)"
proof -
  obtain n sz hsh s where "rx_started s 0 n sz hsh recv_sys"
    using handle_rx_frame(2) [OF recv_sys_eq talk_sys_length talk_sys_idle recv_sys_started] by blast
  then show "rx_inv recv_sys 0 []" by (simp add: rx_started_def)
  show "0 < length (as_peers recv_sys)"
    using handle_rx_frame(1) [OF recv_sys_eq talk_sys_length] talk_sys_length by simp
qed

lemma toy_env_sodium: "sodium_ok (ne_sodium toy_env)"
  by (simp add: toy_env_def toy_sodium_ok)

lemma toy_transfer_kept:
  "io_log (rx_run toy_env 0 [toy_content @ toy_tag (encode_nonce 1)] recv_sys) = [E_file_write 20 toy_content, E_close 20]"
  by code_simp

theorem received_file_verified_witness:
  "\<exists>l. io_log (rx_run toy_env 0 [toy_content @ toy_tag (encode_nonce 1)] recv_sys) = io_log recv_sys @ l \<and>
     file_bytes 20 l = toy_content"
proof -
  have l0: "io_log recv_sys = []" by code_simp
  from received_file_verified [OF recv_sys_inv toy_env_sodium, of "[toy_content @ toy_tag (encode_nonce 1)]"]
  obtain l where "io_log (rx_run toy_env 0 [toy_content @ toy_tag (encode_nonce 1)] recv_sys) = io_log recv_sys @ l"
    by blast
  then show ?thesis using toy_transfer_kept l0 by auto
qed

end
