(* ===== verification/Nox_Send_Props.thy ===== *)
theory Nox_Send_Props
  imports Nox_File_Props
begin

text \<open>
  Properties of sending files: the bounds of a transfer and what a failed METADATA frame leaves behind.
\<close>

section \<open>Properties of sending\<close>

lemma peer_encrypt_effect:
  assumes e: "peer_encrypt E i pt st = (r, st')" and i: "i < length (as_peers st)"
  shows "length (as_peers st') = length (as_peers st)" "j \<noteq> i \<Longrightarrow> get_peer st' j = get_peer st j"
    "ps_tx_file (get_peer st' i) = ps_tx_file (get_peer st i)" "ps_tx_seq (get_peer st' i) = ps_tx_seq (get_peer st i)"
    "ps_fd (get_peer st' i) = ps_fd (get_peer st i)" "ps_state (get_peer st' i) = ps_state (get_peer st i)"
    "io_log st' = io_log st" "io_writev st' = io_writev st"
  using assms by (auto simp: peer_encrypt_def upd_peer_def get_peer_def split: option.splits prod.splits)

lemma peer_encrypt_length:
  assumes S: "sodium_ok (ne_sodium E)" and e: "peer_encrypt E i pt st = (Some ct, st')"
  shows "length ct \<le> length pt + NOX_MAC_LEN"
proof -
  obtain se se' where n: "noise_encrypt (ne_sodium E) se pt = (Some ct, se')"
    using e by (auto simp: peer_encrypt_def split: option.splits prod.splits)
  have law: "length c = length p + NOX_MAC_LEN" if "sod_aead_encrypt (ne_sodium E) k n ad p = Some c" for k n ad c p
    using S that unfolding sodium_ok_def aead_ok_def by (metis option.inject)
  from n show ?thesis
    by (auto simp: noise_encrypt_def cipher_encrypt_def Let_def dest: law split: if_splits prod.splits)
qed

text \<open>What holds of a transfer that is being sent.\<close>

definition tx_inv :: "file_tx_state \<Rightarrow> bool" where
  "tx_inv tx \<longleftrightarrow> (tx_active tx \<longrightarrow> tx_sent_bytes tx < tx_total_size tx \<and> length (tx_buf tx) \<le> TX_BUF_CAPACITY \<and>
     (tx_buf tx \<noteq> [] \<longrightarrow> tx_offset tx < length (tx_buf tx) \<and> 0 < tx_chunk_size tx \<and>
        tx_chunk_size tx \<le> unat (tx_total_size tx - tx_sent_bytes tx)))"

lemma tx_end_effect:
  assumes "i < length (as_peers st)"
  shows "ps_tx_file (get_peer (tx_end i st) i) = zero_tx\<lparr>tx_fd := -1\<rparr>" "ps_tx_seq (get_peer (tx_end i st) i) = ps_tx_seq (get_peer st i)"
    "j \<noteq> i \<Longrightarrow> get_peer (tx_end i st) j = get_peer st j" "length (as_peers (tx_end i st)) = length (as_peers st)"
  using assms by (simp_all add: tx_end_def tx_drop_def)

lemma tx_inv_zero [simp]: "tx_inv (zero_tx\<lparr>tx_fd := -1\<rparr>)"
  by (simp add: tx_inv_def zero_tx_def)

lemma tx_wrote_effect:
  assumes inv: "tx_inv (ps_tx_file (get_peer st i))" and i: "i < length (as_peers st)" and n: "0 < n"
    and act: "tx_active (ps_tx_file (get_peer st i))" "tx_buf (ps_tx_file (get_peer st i)) \<noteq> []"
  shows "tx_inv (ps_tx_file (get_peer (tx_wrote i n st) i)) \<and> (\<forall>j. j \<noteq> i \<longrightarrow> get_peer (tx_wrote i n st) j = get_peer st j) \<and>
    (ps_tx_seq (get_peer (tx_wrote i n st) i) = ps_tx_seq (get_peer st i) + 1 \<longleftrightarrow>
       tx_offset (ps_tx_file (get_peer st i)) + n \<ge> length (tx_buf (ps_tx_file (get_peer st i)))) \<and>
    (ps_tx_seq (get_peer (tx_wrote i n st) i) \<in> {ps_tx_seq (get_peer st i), ps_tx_seq (get_peer st i) + 1})"
proof -
  define tx where "tx = ps_tx_file (get_peer st i)"
  have t: "tx_sent_bytes tx < tx_total_size tx" "length (tx_buf tx) \<le> TX_BUF_CAPACITY" "tx_offset tx < length (tx_buf tx)"
    "0 < tx_chunk_size tx" "tx_chunk_size tx \<le> unat (tx_total_size tx - tx_sent_bytes tx)"
    using inv act by (simp_all add: tx_inv_def tx_def)
  define w where "w = min n (length (tx_buf tx) - tx_offset tx)"
  define s1 where "s1 = upd_peer i (\<lambda>ps. ps\<lparr>ps_tx_file := tx\<lparr>tx_offset := tx_offset tx + w\<rparr>, ps_last_active := io_now st\<rparr>)
      (emit (E_wire (ps_fd (get_peer st i)) (take w (drop (tx_offset tx) (tx_buf tx)))) st)"
  define tx2 where "tx2 = tx\<lparr>tx_buf := [], tx_offset := 0, tx_sent_bytes := tx_sent_bytes tx + of_nat (tx_chunk_size tx), tx_chunk_size := 0\<rparr>"
  define s2 where "s2 = upd_peer i (\<lambda>ps. ps\<lparr>ps_tx_seq := ps_tx_seq ps + 1, ps_tx_file := tx2\<rparr>) s1"
  have eq: "tx_wrote i n st = (if tx_offset tx + w = length (tx_buf tx)
      then if tx_sent_bytes tx2 \<ge> tx_total_size tx2 then tx_end i s2 else s2 else s1)"
    unfolding tx_wrote_def
    by (simp add: Let_def tx_def [symmetric] w_def [symmetric] s2_def tx2_def s1_def emit_def)
  have l: "i < length (as_peers s1)" "i < length (as_peers s2)" using i by (simp_all add: s1_def s2_def)
  have full: "tx_offset tx + w = length (tx_buf tx) \<longleftrightarrow> tx_offset tx + n \<ge> length (tx_buf tx)"
    using t(3) n by (auto simp: w_def)
  have off: "tx_offset tx + w \<le> length (tx_buf tx)" using t(3) by (simp add: w_def)
  have "tx_inv tx2" if "\<not> tx_sent_bytes tx2 \<ge> tx_total_size tx2"
    using that by (simp add: tx_inv_def tx2_def not_le)
  moreover have "tx_inv (tx\<lparr>tx_offset := tx_offset tx + w\<rparr>)" if "tx_offset tx + w \<noteq> length (tx_buf tx)"
    using that off t by (simp add: tx_inv_def)
  ultimately show ?thesis
    using i l full tx_end_effect [OF l(2)] unfolding eq tx_def [symmetric]
    by (auto simp: s1_def s2_def)
qed

lemma tx_next_chunk_effect:
  assumes inv: "tx_inv (ps_tx_file (get_peer st i))" and i: "i < length (as_peers st)" and S: "sodium_ok (ne_sodium E)"
    and act: "tx_active (ps_tx_file (get_peer st i))" "tx_buf (ps_tx_file (get_peer st i)) = []"
  shows "tx_inv (ps_tx_file (get_peer (tx_next_chunk E i st) i)) \<and>
    (\<forall>j. j \<noteq> i \<longrightarrow> get_peer (tx_next_chunk E i st) j = get_peer st j) \<and>
    ps_tx_seq (get_peer (tx_next_chunk E i st) i) = ps_tx_seq (get_peer st i)"
proof -
  define tx where "tx = ps_tx_file (get_peer st i)"
  have t: "tx_sent_bytes tx < tx_total_size tx" using inv act by (simp add: tx_inv_def tx_def)
  define rem where "rem = tx_total_size tx - tx_sent_bytes tx"
  have rem: "rem \<noteq> 0" using t by (auto simp: rem_def)
  have left_over: "(if tx_total_size tx > tx_sent_bytes tx then tx_total_size tx - tx_sent_bytes tx else 0) = rem"
    using t by (simp add: rem_def)
  define k where "k = (if rem < 4096 then unat rem else 4096)"
  have k: "0 < k" "k \<le> 4096" "k \<le> unat rem"
    using rem by (auto simp: k_def word_less_nat_alt word_le_nat_alt not_less unat_gt_0)
  obtain r s1 where r: "next_file_read st = (r, s1)" by (rule prod.exhaust)
  have v: "as_peers s1 = as_peers st" using r by (auto simp: next_file_read_def split: list.splits)
  have i1: "i < length (as_peers s1)" and p1: "get_peer s1 j = get_peer st j" for j using i v by (simp_all add: get_peer_def)
  have fin: "?thesis" if "tx_next_chunk E i st = tx_end i s" "as_peers s = as_peers st" for s
    using that tx_end_effect [of i s] i by (simp add: get_peer_def)
  have eq: "tx_next_chunk E i st = (case r of R_again \<Rightarrow> s1 | R_err \<Rightarrow> tx_end i s1 | R_eof \<Rightarrow> tx_end i s1
      | R_data d \<Rightarrow> if d = [] then tx_end i s1
          else let pt = take k d; st = upd_peer i (ps_tx_file_update (tx_chunk_size_update (\<lambda>_. length pt))) s1 in
           if FRAME_HEADER_WIRE_SIZE + (length pt + NOX_MAC_LEN) > TX_BUF_CAPACITY then tx_end i st
           else case peer_encrypt E i pt st of (r, st) \<Rightarrow>
           (case r of None \<Rightarrow> tx_end i st
            | Some ct \<Rightarrow>
              upd_peer i (ps_tx_file_update (\<lambda>tx. tx\<lparr>tx_buf := frame_bytes NOX_MSG_FILE (ps_tx_seq (get_peer st i)) ct,
                 tx_offset := 0\<rparr>)) st))"
    unfolding tx_next_chunk_def Let_def tx_def [symmetric] left_over r prod.case k_def [symmetric]
    using rem by (simp only: if_False refl)
  show ?thesis
  proof (cases r)
    case (R_data d)
    show ?thesis
    proof (cases "d = []")
      case True
      then show ?thesis using R_data eq v by (intro fin [of s1]) simp_all
    next
      case False
      define pt where "pt = take k d"
      have pt: "0 < length pt" "length pt \<le> 4096" "length pt \<le> unat rem" using False k by (auto simp: pt_def)
      define s2 where "s2 = upd_peer i (ps_tx_file_update (tx_chunk_size_update (\<lambda>_. length pt))) s1"
      have i2: "i < length (as_peers s2)" using i1 by (simp add: s2_def)
      obtain q s3 where e: "peer_encrypt E i pt s2 = (q, s3)" by (rule prod.exhaust)
      note pe = peer_encrypt_effect [OF e i2]
      have small: "\<not> FRAME_HEADER_WIRE_SIZE + (length pt + NOX_MAC_LEN) > TX_BUF_CAPACITY"
        using pt(2) by (simp add: FRAME_HEADER_WIRE_SIZE_def TX_BUF_CAPACITY_def)
      have eq2: "tx_next_chunk E i st = (case q of None \<Rightarrow> tx_end i s3 | Some ct \<Rightarrow>
          upd_peer i (ps_tx_file_update (\<lambda>tx. tx\<lparr>tx_buf := frame_bytes NOX_MSG_FILE (ps_tx_seq (get_peer s3 i)) ct,
             tx_offset := 0\<rparr>)) s3)"
        unfolding eq R_data using False small by (simp add: Let_def pt_def [symmetric] s2_def [symmetric] e)
      have i3: "i < length (as_peers s3)" using pe(1) i2 by simp
      have tx3: "ps_tx_file (get_peer s3 i) = tx\<lparr>tx_chunk_size := length pt\<rparr>" "ps_tx_seq (get_peer s3 i) = ps_tx_seq (get_peer st i)"
        using pe(3,4) i1 p1 by (simp_all add: s2_def tx_def)
      have oth: "j \<noteq> i \<Longrightarrow> get_peer s3 j = get_peer st j" for j using pe(2) p1 by (simp add: s2_def)
      show ?thesis
      proof (cases q)
        case None
        then show ?thesis using eq2 tx_end_effect [OF i3] oth tx3 by simp
      next
        case (Some ct)
        have "length ct \<le> length pt + NOX_MAC_LEN" using peer_encrypt_length [OF S] e Some by simp
        then have "length (frame_bytes NOX_MSG_FILE sq ct) \<le> TX_BUF_CAPACITY" for sq
          using pt(2) by (simp add: frame_bytes_def TX_BUF_CAPACITY_def)
        moreover have "0 < length (frame_bytes NOX_MSG_FILE sq ct)" for sq by (simp add: frame_bytes_def)
        ultimately have "tx_inv (tx\<lparr>tx_chunk_size := length pt, tx_buf := frame_bytes NOX_MSG_FILE sq ct, tx_offset := 0\<rparr>)" for sq
          using t pt by (auto simp: tx_inv_def rem_def)
        then show ?thesis using Some eq2 i3 oth tx3 by simp
      qed
    qed
  qed (use eq v p1 inv fin [of s1] in \<open>simp_all\<close>)
qed

text \<open>A transfer that is sent stays within its bounds, whatever the kernel answers: every call for
  the writable socket keeps the bytes counted as sent below the announced size, the pending frame
  within the transmit buffer and its chunk within what is still to be sent; other slots are not
  touched, and the sequence number advances by one exactly when the last byte of the pending frame
  has been taken by the socket.\<close>

theorem handle_tx_bounded:
  assumes inv: "tx_inv (ps_tx_file (get_peer st i))" and i: "i < length (as_peers st)" and S: "sodium_ok (ne_sodium E)"
  defines "st' \<equiv> file_transfer_handle_tx E i st" and "tx \<equiv> ps_tx_file (get_peer st i)"
  shows "tx_inv (ps_tx_file (get_peer st' i)) \<and> (\<forall>j. j \<noteq> i \<longrightarrow> get_peer st' j = get_peer st j) \<and>
    (ps_tx_seq (get_peer st' i) = ps_tx_seq (get_peer st i) \<or>
     ps_tx_seq (get_peer st' i) = ps_tx_seq (get_peer st i) + 1 \<and> tx_active tx \<and> tx_buf tx \<noteq> [] \<and>
       (\<exists>n ws. io_sock_write st = W_ok n # ws \<and> tx_offset tx + n \<ge> length (tx_buf tx)))"
proof (cases "ps_fd (get_peer st i) < 0 \<or> \<not> tx_active tx")
  case True
  then show ?thesis using inv by (auto simp: st'_def tx_def file_transfer_handle_tx_def)
next
  case False
  then have act: "tx_active (ps_tx_file (get_peer st i))" "\<not> ps_fd (get_peer st i) < 0" by (simp_all add: tx_def)
  show ?thesis
  proof (cases "tx_buf tx = []")
    case True
    then have "st' = tx_next_chunk E i st" using act by (simp add: st'_def tx_def file_transfer_handle_tx_def)
    then show ?thesis using tx_next_chunk_effect [OF inv i S act(1)] True by (simp add: tx_def)
  next
    case False
    obtain w s1 where w: "next_sock_write st = (w, s1)" by (rule prod.exhaust)
    have v: "as_peers s1 = as_peers st" using w by (auto simp: next_sock_write_def split: list.splits)
    then have p1: "get_peer s1 j = get_peer st j" and i1: "i < length (as_peers s1)" for j using i by (simp_all add: get_peer_def)
    have eq: "st' = (case w of W_ok n \<Rightarrow> if n > 0 then tx_wrote i n s1 else tx_end i s1 | W_intr \<Rightarrow> s1
        | W_again _ _ \<Rightarrow> s1 | W_err \<Rightarrow> tx_end i s1)"
      using False act by (simp add: st'_def tx_def file_transfer_handle_tx_def w)
    show ?thesis
    proof (cases "\<exists>n > 0. w = W_ok n")
      case True
      then obtain n where n: "0 < n" "w = W_ok n" by blast
      then have "\<exists>ws. io_sock_write st = W_ok n # ws" using w by (auto simp: next_sock_write_def split: list.splits)
      moreover note tx_wrote_effect [of s1 i n, unfolded p1, OF inv i1 n(1) act(1)] False
      ultimately show ?thesis using n eq act(1) by (auto simp: tx_def)
    next
      case False
      then have "st' = s1 \<or> st' = tx_end i s1" using eq by (cases w) auto
      then show ?thesis using tx_end_effect [OF i1] p1 inv by auto
    qed
  qed
qed

definition sending_sys :: sys where
  "sending_sys = (upd_peer 0 (ps_tx_file_update (\<lambda>_. zero_tx\<lparr>tx_active := True, tx_fd := 7, tx_total_size := 3\<rparr>)) talk_sys)
     \<lparr>io_file_read := [R_data [1, 2, 3, 4]]\<rparr>"

theorem handle_tx_bounded_witness:
  "tx_inv (ps_tx_file (get_peer (file_transfer_handle_tx toy_env 0 sending_sys) 0)) \<and>
   tx_chunk_size (ps_tx_file (get_peer (file_transfer_handle_tx toy_env 0 sending_sys) 0)) = 3"
proof -
  have "tx_inv (ps_tx_file (get_peer sending_sys 0))" by code_simp
  moreover have "0 < length (as_peers sending_sys)" by code_simp
  moreover have "tx_chunk_size (ps_tx_file (get_peer (file_transfer_handle_tx toy_env 0 sending_sys) 0)) = 3" by code_simp
  ultimately show ?thesis using handle_tx_bounded [of sending_sys 0 toy_env] toy_env_sodium by blast
qed

section \<open>A METADATA frame that is not sent\<close>

lemma peer_encrypt_keyed:
  assumes S: "sodium_ok (ne_sodium E)" and se: "ps_session (get_peer st i) = Some se" and k: "cs_has_key (ns_tx se)"
    and n: "cs_n (ns_tx se) < UINT64_MAX" and l: "length pt \<le> NOX_MAX_MSG_LEN"
  obtains ct where "peer_encrypt E i pt st = (Some ct, upd_peer i (ps_session_update (\<lambda>_. Some (se\<lparr>ns_tx := (ns_tx se)\<lparr>cs_n := cs_n (ns_tx se) + 1\<rparr>\<rparr>))) st)"
    "length ct = length pt + NOX_MAC_LEN"
proof -
  obtain ct where "sod_aead_encrypt (ne_sodium E) (cs_k (ns_tx se)) (encode_nonce (cs_n (ns_tx se))) [] pt = Some ct"
    "length ct = length pt + NOX_MAC_LEN" using S unfolding sodium_ok_def aead_ok_def by blast
  then show thesis using se k n l
    by (intro that [of ct]) (simp_all add: peer_encrypt_def noise_encrypt_def cipher_encrypt_def Let_def not_le not_less)
qed

lemma length_metadata:
  "length (metadata n sz h) = 273 + length h"
  by (simp add: metadata_def METADATA_TAG_def str_bytes_def)

text \<open>When the METADATA frame cannot be written (the socket takes nothing, or only a part) the
  transfer is given up, but the connection stays as it is: same descriptor, same state, same sequence
  number, while the sending cipher has used up a nonce the peer never saw (or part of a frame is on
  the wire). The next message of the session is then encrypted with a counter the peer does not
  expect.\<close>

theorem metadata_send_failure:
  assumes i: "i < length (as_peers st)" and S: "sodium_ok (ne_sodium E)" and h: "length (tx_hash (ps_tx_file (get_peer st i))) = 32"
    and se: "ps_session (get_peer st i) = Some se" and k: "cs_has_key (ns_tx se)" and n: "cs_n (ns_tx se) < UINT64_MAX"
    and al: "heap_ok (io_heap st)" and w: "io_writev st = w # ws" "w \<noteq> 334"
  shows "(let st' = tx_send_metadata E i st in
    \<not> tx_active (ps_tx_file (get_peer st' i)) \<and> ps_fd (get_peer st' i) = ps_fd (get_peer st i) \<and>
    ps_state (get_peer st' i) = ps_state (get_peer st i) \<and> ps_tx_seq (get_peer st' i) = ps_tx_seq (get_peer st i) \<and>
    (\<exists>se'. ps_session (get_peer st' i) = Some se' \<and> unat (cs_n (ns_tx se')) = unat (cs_n (ns_tx se)) + 1))"
proof -
  obtain ok s1 where m: "sys_malloc st = (ok, s1)" by (rule prod.exhaust)
  have ok: "ok" using m sodium_malloc_ok(1) [OF al] by (auto simp: sys_malloc_def split: prod.splits)
  note mv = same_viewD [OF sys_malloc_view [OF m]]
  have w1: "io_writev s1 = w # ws" using m w(1) by (auto simp: sys_malloc_def split: prod.splits)
  define s2 where "s2 = upd_peer i (ps_tx_file_update (tx_plain_buf_update (\<lambda>_. True))) s1"
  have i2: "i < length (as_peers s2)" using i mv by (simp add: s2_def)
  let ?tx = "ps_tx_file (get_peer s2 i)"
  let ?pt = "metadata (tx_filename ?tx) (tx_total_size ?tx) (tx_hash ?tx)"
  have l: "length ?pt = 305" using h i mv by (simp add: length_metadata s2_def)
  have se2: "ps_session (get_peer s2 i) = Some se" using se i mv by (simp add: s2_def)
  obtain ct where e: "peer_encrypt E i ?pt s2 = (Some ct, upd_peer i (ps_session_update (\<lambda>_. Some (se\<lparr>ns_tx := (ns_tx se)\<lparr>cs_n := cs_n (ns_tx se) + 1\<rparr>\<rparr>))) s2)"
    and lc: "length ct = length ?pt + NOX_MAC_LEN"
    by (rule peer_encrypt_keyed [OF S se2 k n, of ?pt]) (simp_all add: l NOX_MAX_MSG_LEN_def)
  define s3 where "s3 = upd_peer i (ps_session_update (\<lambda>_. Some (se\<lparr>ns_tx := (ns_tx se)\<lparr>cs_n := cs_n (ns_tx se) + 1\<rparr>\<rparr>))) s2"
  let ?wire = "frame_bytes NOX_MSG_FILE (ps_tx_seq (get_peer s3 i)) ct"
  have lw: "int (length ?wire) = 334" using lc l by (simp add: frame_bytes_def NOX_MAC_LEN_def)
  have w3: "io_writev s3 = w # ws" using w1 by (simp add: s3_def s2_def upd_peer_def)
  obtain s4 where wr: "sys_writev (ps_fd (get_peer s3 i)) ?wire s3 = (w, s4)" and p4: "as_peers s4 = as_peers s3"
    by (simp add: sys_writev_def w3 Let_def emit_def)
  have eq: "tx_send_metadata E i st = tx_drop i s4"
    unfolding tx_send_metadata_def
    using ok w(2) lw by (simp add: m Let_def s2_def [symmetric] e s3_def [symmetric] wr)
  have i4: "i < length (as_peers s4)" and g4: "get_peer s4 i = get_peer s3 i" using p4 i2 by (simp_all add: s3_def get_peer_def)
  have "unat (cs_n (ns_tx se) + 1) = unat (cs_n (ns_tx se)) + 1" using n unat_Suc_UINT64_MAX by blast
  then show ?thesis
    using i4 g4 i2 i mv unfolding eq Let_def
    by (simp add: tx_drop_def s3_def s2_def zero_tx_def)
qed

theorem metadata_send_failure_witness:
  "(\<exists>se'. ps_session (get_peer (tx_send_metadata toy_env 0 (talk_sys\<lparr>io_writev := [-1]\<rparr>)) 0) = Some se' \<and>
      unat (cs_n (ns_tx se')) = 1) \<and>
   ps_tx_seq (get_peer (tx_send_metadata toy_env 0 (talk_sys\<lparr>io_writev := [-1]\<rparr>)) 0) = 0"
proof -
  let ?st = "talk_sys\<lparr>io_writev := [-1]\<rparr>"
  have a: "0 < length (as_peers ?st)" by code_simp
  have b: "length (tx_hash (ps_tx_file (get_peer ?st 0))) = 32" by code_simp
  have c: "ps_session (get_peer ?st 0) = Some toy_session" by code_simp
  have d: "ps_tx_seq (get_peer ?st 0) = 0" by code_simp
  have e: "heap_ok (io_heap ?st)" by code_simp
  have f: "cs_has_key (ns_tx toy_session)" "cs_n (ns_tx toy_session) < UINT64_MAX" "unat (cs_n (ns_tx toy_session)) = 0"
    by (simp_all add: toy_session_def toy_cipher_def UINT64_MAX_def)
  show ?thesis
    using metadata_send_failure [OF a toy_env_sodium b c f(1,2) e, of "-1" "[]"] f(3) d by (auto simp: Let_def)
qed

end
