(* ===== verification/Nox_Message_Props.thy ===== *)
theory Nox_Message_Props
  imports Nox_Message Nox_Send_Props Nox_Database_Props
begin

text \<open>
  What sending and queueing a text guarantee. \<open>segments\<close> is the reference: the pieces a text is cut
  into. The sending loop puts exactly these on the wire, the queueing loop exactly these in the
  database, or none of them.
\<close>

section \<open>The segments of a text\<close>

function segments :: "bytes \<Rightarrow> nat \<Rightarrow> bytes list" where
  "segments msg offset =
     (if offset < length msg
      then let n = nox_next_chunk_size msg offset (length msg)
           in take n (drop offset msg) # segments msg (offset + n)
      else [])"
  by pat_completeness auto
termination
  by (relation "measure (\<lambda>(msg, offset). length msg - offset)") (auto simp: termination_simp)

declare segments.simps [simp del]

lemma segments_end [simp]: "\<not> offset < length msg \<Longrightarrow> segments msg offset = []"
  by (simp add: segments.simps)

lemma segments_step:
  "offset < length msg \<Longrightarrow> segments msg offset =
     take (nox_next_chunk_size msg offset (length msg)) (drop offset msg) #
     segments msg (offset + nox_next_chunk_size msg offset (length msg))"
  by (subst segments.simps) (simp add: Let_def)

lemma concat_segments: "concat (segments msg offset) = drop offset msg"
proof (induction msg offset rule: segments.induct)
  case (1 msg offset)
  let ?n = "nox_next_chunk_size msg offset (length msg)"
  show ?case
  proof (cases "offset < length msg")
    case True
    with 1 have "concat (segments msg (offset + ?n)) = drop (offset + ?n) msg" by simp
    with True show ?thesis
      by (simp add: segments_step) (metis add.commute append_take_drop_id drop_drop)
  qed simp
qed

lemma segments_sizes: "s \<in> set (segments msg offset) \<Longrightarrow> s \<noteq> [] \<and> length s \<le> CHUNK_LIMIT \<and> set s \<subseteq> set msg"
proof (induction msg offset rule: segments.induct)
  case (1 msg offset)
  let ?n = "nox_next_chunk_size msg offset (length msg)"
  show ?case
  proof (cases "offset < length msg")
    case True
    have "set (take ?n (drop offset msg)) \<subseteq> set msg" by (meson set_take_subset set_drop_subset order_trans)
    moreover have "take ?n (drop offset msg) \<noteq> []" "length (take ?n (drop offset msg)) \<le> CHUNK_LIMIT"
      using next_chunk_size_bounds [OF True, of msg] True by auto
    ultimately show ?thesis
      using 1 True by (auto simp: segments_step)
  qed (use 1 in simp)
qed

text \<open>A text in which no four bytes in a row are continuation bytes, as in every valid UTF-8 text.\<close>

definition utf8_like :: "bytes \<Rightarrow> bool" where
  "utf8_like msg \<longleftrightarrow> (\<forall>j. j + 4 \<le> length msg \<longrightarrow> (\<exists>m<4. \<not> is_cont (msg ! (j + m))))"

lemma back_up_boundary: "back_up msg offset n \<noteq> 0 \<Longrightarrow> \<not> is_cont (msg ! (offset + back_up msg offset n))"
  by (induction n) (auto split: if_splits)

lemma back_up_0: "back_up msg offset n = 0 \<Longrightarrow> 0 < m \<Longrightarrow> m \<le> n \<Longrightarrow> is_cont (msg ! (offset + m))"
  by (induction n) (auto simp: le_Suc_eq split: if_splits)

lemma next_chunk_boundary:
  assumes u: "utf8_like msg" and l: "length msg \<le> SIZE_MAX" and o: "offset < length msg"
    and n: "offset + nox_next_chunk_size msg offset (length msg) < length msg"
  shows "\<not> is_cont (msg ! (offset + nox_next_chunk_size msg offset (length msg)))"
proof -
  have big: "CHUNK_LIMIT < length msg - offset" using n o by (auto simp: nox_next_chunk_size_def Let_def split: if_splits)
  have "offset + 1 + 4 \<le> length msg" using big by (simp add: CHUNK_LIMIT_def)
  then have "\<exists>m<4. \<not> is_cont (msg ! (offset + 1 + m))" using u unfolding utf8_like_def by blast
  then obtain m where "m < 4" "\<not> is_cont (msg ! (offset + (1 + m)))" by (auto simp: add.assoc)
  then have "back_up msg offset CHUNK_LIMIT \<noteq> 0"
    using back_up_0 [of msg offset CHUNK_LIMIT "1 + m"] by (auto simp: CHUNK_LIMIT_def)
  moreover have "nox_next_chunk_size msg offset (length msg) = back_up msg offset CHUNK_LIMIT"
    using big l o calculation by (auto simp: nox_next_chunk_size_def Let_def)
  ultimately show ?thesis using back_up_boundary by simp
qed

lemma segments_boundary:
  assumes "utf8_like msg" "length msg \<le> SIZE_MAX" "s \<in> set (tl (segments msg offset))"
  shows "\<not> is_cont (hd s)"
  using assms
proof (induction msg offset rule: segments.induct)
  case (1 msg offset)
  let ?n = "nox_next_chunk_size msg offset (length msg)"
  have o: "offset < length msg" using 1(4) by (cases "offset < length msg") simp_all
  then have s: "s \<in> set (segments msg (offset + ?n))" using 1(4) by (simp add: segments_step)
  then have o2: "offset + ?n < length msg" by (cases "offset + ?n < length msg") simp_all
  show ?case
  proof (cases "s \<in> set (tl (segments msg (offset + ?n)))")
    case True
    then show ?thesis using 1(1) [OF o refl 1(2,3)] by simp
  next
    case False
    then have "s = take (nox_next_chunk_size msg (offset + ?n) (length msg)) (drop (offset + ?n) msg)"
      using s o2 by (simp add: segments_step [OF o2])
    then have "hd s = msg ! (offset + ?n)"
      using next_chunk_size_bounds(1) [OF o2, of msg] o2 by (simp add: hd_drop_conv_nth)
    then show ?thesis using next_chunk_boundary [OF 1(2,3) o o2] by simp
  qed
qed

section \<open>Sending\<close>

text \<open>Both loops hand the segments one after another to an operation that may refuse.\<close>

lemma send_chunks_seq:
  "send_chunks E i msg offset st = (case send_seq (send_text_frame E i) (segments msg offset) st of (e, _, st') \<Rightarrow> (e, st'))"
proof (induction E i msg offset st rule: send_chunks.induct)
  case (1 E i msg offset st)
  let ?n = "nox_next_chunk_size msg offset (length msg)"
  obtain e s1 where e: "send_text_frame E i (take ?n (drop offset msg)) st = (e, s1)" by (rule prod.exhaust)
  show ?case
  proof (cases "offset < length msg")
    case True
    then show ?thesis
      using 1 [OF True refl e [symmetric]] e
      by (subst send_chunks.simps) (auto simp: Let_def segments_step split: prod.splits)
  qed (simp add: send_chunks.simps)
qed

fun text_frames :: "u32 \<Rightarrow> bytes list \<Rightarrow> bytes list" where
  "text_frames seq [] = []"
| "text_frames seq (c # cs) = frame_bytes NOX_MSG_TEXT seq c # text_frames (seq + 1) cs"

lemma sys_writev_effect:
  assumes "sys_writev fd b st = (w, st')"
  shows "as_peers st' = as_peers st" "get_peer st' j = get_peer st j" "w = int (length b) \<Longrightarrow> b \<noteq> [] \<Longrightarrow> io_log st' = io_log st @ [E_wire fd b]"
    "io_writev st = [] \<Longrightarrow> w = int (length b) \<and> io_writev st' = []" "ACTIVE_PEER st' = ACTIVE_PEER st"
  using assms by (auto simp: sys_writev_def emit_def get_peer_def ACTIVE_PEER_def split: list.splits if_splits)

lemma frame_bytes_not_Nil [simp]: "frame_bytes ty s c \<noteq> []"
  using length_frame_header_encode by (auto simp: frame_bytes_def dest!: arg_cong [where f = length])

lemma send_text_frame_cases:
  assumes e: "send_text_frame E i t st = (err, st')" and i: "i < length (as_peers st)"
    and s: "ps_session (get_peer st i) = Some s"
  obtains (sent) ct s' where "err = NOX_OK" "transport_send (ne_sodium E) s (t @ [0]) = Some (ct, s')"
      "io_log st' = io_log st @ [E_wire (ps_fd (get_peer st i)) (frame_bytes NOX_MSG_TEXT (ps_tx_seq (get_peer st i)) ct)]"
      "get_peer st' i = (get_peer st i)\<lparr>ps_session := Some s', ps_tx_seq := ps_tx_seq (get_peer st i) + 1,
         ps_last_active := ps_last_active (get_peer st' i)\<rparr>"
      "keeps i st st'" "io_writev st = [] \<Longrightarrow> io_writev st' = []"
  | (crypto) "err = NOX_ERR_CRYPTO" "transport_send (ne_sodium E) s (t @ [0]) = None" "keeps i st st'" "io_log st' = io_log st"
  | (closed) "err = NOX_ERR_IO" "keeps i st st'" "io_writev st \<noteq> []"
      "ps_state (get_peer st i) \<noteq> ST_IDLE \<Longrightarrow> peer_clean (get_peer st' i) \<and> ps_state (get_peer st' i) = ST_IDLE"
proof -
  obtain r se where n: "noise_encrypt (ne_sodium E) s (t @ [0]) = (r, se)" by (rule prod.exhaust)
  define s1 where "s1 = upd_peer i (ps_session_update (\<lambda>_. Some se)) st"
  have pe: "peer_encrypt E i (t @ [0]) st = (r, s1)" by (simp add: peer_encrypt_def s n s1_def)
  have i1: "i < length (as_peers s1)" and g1: "get_peer s1 i = (get_peer st i)\<lparr>ps_session := Some se\<rparr>"
    and k1: "keeps i st s1" and l1: "io_log s1 = io_log st" "io_writev s1 = io_writev st"
    using i by (simp_all add: s1_def keeps_upd_peer) (simp add: upd_peer_def)
  show thesis
  proof (cases r)
    case None
    show thesis
    proof (rule crypto)
      show "err = NOX_ERR_CRYPTO" "keeps i st st'" "io_log st' = io_log st"
        using e None pe k1 l1 by (simp_all add: send_text_frame_def)
      show "transport_send (ne_sodium E) s (t @ [0]) = None" using n None by (simp add: transport_send_def)
    qed
  next
    case (Some ct)
    define w where "w = frame_bytes NOX_MSG_TEXT (ps_tx_seq (get_peer st i)) ct"
    obtain k s2 where wr: "sys_writev (ps_fd (get_peer st i)) w s1 = (k, s2)" by (rule prod.exhaust)
    note we = sys_writev_effect [OF wr]
    have i2: "i < length (as_peers s2)" using we(1) i1 by simp
    have k2: "keeps i st s2" using we(1,2) k1 by (simp add: keeps_def)
    have eq: "(err, st') = (if k \<noteq> int (length w) then (NOX_ERR_IO, snd (sm_dispatch E i EV_PEER_DISCONNECTED s2))
        else (NOX_OK, upd_peer i (\<lambda>ps. ps\<lparr>ps_tx_seq := ps_tx_seq ps + 1, ps_last_active := io_now s2\<rparr>) s2))"
      using e Some pe g1 wr by (simp add: send_text_frame_def w_def Let_def split: if_splits)
    show thesis
    proof (cases "k = int (length w)")
      case True
      have g2: "get_peer s2 i = (get_peer st i)\<lparr>ps_session := Some se\<rparr>" using we(2) g1 by simp
      have st': "st' = upd_peer i (\<lambda>ps. ps\<lparr>ps_tx_seq := ps_tx_seq ps + 1, ps_last_active := io_now s2\<rparr>) s2" "err = NOX_OK"
        using eq True by simp_all
      show thesis
      proof (rule sent)
        show "err = NOX_OK" "transport_send (ne_sodium E) s (t @ [0]) = Some (ct, se)"
          using st' n Some by (simp_all add: transport_send_def)
        show "io_log st' = io_log st @ [E_wire (ps_fd (get_peer st i)) (frame_bytes NOX_MSG_TEXT (ps_tx_seq (get_peer st i)) ct)]"
          using st' we(3) True l1 by (simp add: w_def)
        show "get_peer st' i = (get_peer st i)\<lparr>ps_session := Some se, ps_tx_seq := ps_tx_seq (get_peer st i) + 1,
           ps_last_active := ps_last_active (get_peer st' i)\<rparr>" using st' i2 g2 by simp
        show "keeps i st st'" using st' k2 by (simp add: keeps_upd_peer)
        show "io_writev st' = []" if "io_writev st = []" using that we(4) l1 st' by (simp add: upd_peer_def)
      qed
    next
      case False
      then have st': "st' = sm_disconnect i s2" "err = NOX_ERR_IO" using eq nested_disconnect [of i s2 E] by simp_all
      show thesis
      proof (rule closed)
        show "err = NOX_ERR_IO" "io_writev st \<noteq> []" using st' False we(4) l1 by auto
        show "keeps i st st'" using st' sm_disconnect_keeps(1) [OF i2] k2 keeps_trans by blast
        assume "ps_state (get_peer st i) \<noteq> ST_IDLE"
        then have "ps_state (get_peer s2 i) \<noteq> ST_IDLE" using we(2) g1 by simp
        from sm_close_peers(2,3) [OF i2 sm_lookup_disconnect [OF this]]
        show "peer_clean (get_peer st' i) \<and> ps_state (get_peer st' i) = ST_IDLE"
          using st'(1) nested_disconnect [of i s2 E] by simp
      qed
    qed
  qed
qed

definition nul_ended :: "bytes list \<Rightarrow> bytes list" where
  "nul_ended ts = map (\<lambda>t. t @ [0]) ts"

lemma nul_ended_simps [simp]: "nul_ended [] = []" "nul_ended (t # ts) = (t @ [0]) # nul_ended ts"
  by (simp_all add: nul_ended_def)

lemma send_seq_frames:
  assumes "send_seq (send_text_frame E i) ts st = (e, n, st')" "i < length (as_peers st)" "ps_session (get_peer st i) = Some s"
  shows "keeps i st st' \<and> (e = NOX_ERR_IO \<and> ps_state (get_peer st i) \<noteq> ST_IDLE \<longrightarrow>
      peer_clean (get_peer st' i) \<and> ps_state (get_peer st' i) = ST_IDLE) \<and>
    (e = NOX_OK \<longrightarrow> (\<exists>cts s'. transport.send_all (ne_sodium E) s (nul_ended ts) = Some (cts, s') \<and>
       io_log st' = io_log st @ map (E_wire (ps_fd (get_peer st i))) (text_frames (ps_tx_seq (get_peer st i)) cts) \<and>
       get_peer st' i = (get_peer st i)\<lparr>ps_session := Some s', ps_tx_seq := ps_tx_seq (get_peer st i) + of_nat (length ts),
         ps_last_active := ps_last_active (get_peer st' i)\<rparr>)) \<and>
    (io_writev st = [] \<and> transport.send_all (ne_sodium E) s (nul_ended ts) \<noteq> None \<longrightarrow> e = NOX_OK)"
  using assms
proof (induction ts arbitrary: st s n)
  case Nil
  then show ?case by simp
next
  case (Cons t ts)
  obtain e1 s1 where e1: "send_text_frame E i t st = (e1, s1)" by (rule prod.exhaust)
  show ?case
  proof (rule send_text_frame_cases [OF e1 Cons.prems(2,3)], goal_cases)
    case (1 ct sa)
    obtain m where m: "send_seq (send_text_frame E i) ts s1 = (e, m, st')"
      using Cons.prems(1) e1 1(1) by (auto split: prod.splits)
    have i1: "i < length (as_peers s1)" using 1(5) Cons.prems(2) by (simp add: keeps_def)
    have g: "ps_session (get_peer s1 i) = Some sa" "ps_tx_seq (get_peer s1 i) = ps_tx_seq (get_peer st i) + 1"
      "ps_fd (get_peer s1 i) = ps_fd (get_peer st i)" "ps_state (get_peer s1 i) = ps_state (get_peer st i)"
      by (subst 1(4), simp)+
    note ih = Cons.IH [OF m i1 g(1)]
    show ?case
    proof (intro conjI impI)
      show "keeps i st st'" using ih 1(5) keeps_trans by blast
      show "peer_clean (get_peer st' i)" "ps_state (get_peer st' i) = ST_IDLE"
        if "e = NOX_ERR_IO \<and> ps_state (get_peer st i) \<noteq> ST_IDLE" using ih that g(4) by simp_all
      show "e = NOX_OK" if "io_writev st = [] \<and> transport.send_all (ne_sodium E) s (nul_ended (t # ts)) \<noteq> None"
        using ih that 1(2,6) by (auto split: option.splits prod.splits)
      assume "e = NOX_OK"
      with ih obtain cts s' where c: "transport.send_all (ne_sodium E) sa (nul_ended ts) = Some (cts, s')"
        "io_log st' = io_log s1 @ map (E_wire (ps_fd (get_peer st i))) (text_frames (ps_tx_seq (get_peer st i) + 1) cts)"
        "get_peer st' i = (get_peer s1 i)\<lparr>ps_session := Some s', ps_tx_seq := ps_tx_seq (get_peer s1 i) + of_nat (length ts),
         ps_last_active := ps_last_active (get_peer st' i)\<rparr>" unfolding g(2,3) by blast
      have "get_peer st' i = (get_peer st i)\<lparr>ps_session := Some s',
          ps_tx_seq := ps_tx_seq (get_peer st i) + of_nat (length (t # ts)), ps_last_active := ps_last_active (get_peer st' i)\<rparr>"
        by (subst c(3), subst 1(4)) (simp add: g(2) algebra_simps)
      with c(1,2) 1(2,3) show "\<exists>cts s'. transport.send_all (ne_sodium E) s (nul_ended (t # ts)) = Some (cts, s') \<and>
         io_log st' = io_log st @ map (E_wire (ps_fd (get_peer st i))) (text_frames (ps_tx_seq (get_peer st i)) cts) \<and>
         get_peer st' i = (get_peer st i)\<lparr>ps_session := Some s', ps_tx_seq := ps_tx_seq (get_peer st i) + of_nat (length (t # ts)),
           ps_last_active := ps_last_active (get_peer st' i)\<rparr>"
        by (intro exI [of _ "ct # cts"] exI [of _ s']) simp
    qed
  next
    case 2
    then show ?case using Cons.prems(1) e1 by (auto split: prod.splits)
  next
    case 3
    then show ?case using Cons.prems(1) e1 by (auto split: prod.splits)
  qed
qed

lemma send_all_total:
  assumes "aead_ok S" "cs_has_key (ns_tx s)" "unat (cs_n (ns_tx s)) + length ts < unat UINT64_MAX"
    and "\<forall>t \<in> set ts. length t \<le> NOX_MAX_MSG_LEN"
  shows "transport.send_all S s ts \<noteq> None"
  using assms
proof (induction ts arbitrary: s)
  case Nil
  then show ?case by simp
next
  case (Cons t ts)
  have n: "cs_n (ns_tx s) < UINT64_MAX" using Cons.prems(3) by (simp add: word_less_nat_alt)
  obtain c where "sod_aead_encrypt S (cs_k (ns_tx s)) (encode_nonce (cs_n (ns_tx s))) [] t = Some c"
    by (rule aead_ok_encrypt [OF Cons.prems(1)])
  then have "transport_send S s t = Some (c, s\<lparr>ns_tx := (ns_tx s)\<lparr>cs_n := cs_n (ns_tx s) + 1\<rparr>\<rparr>)"
    using Cons.prems(2,4) n by (simp add: transport_send_def noise_encrypt_def cipher_encrypt_keyed)
  moreover have "transport.send_all S (s\<lparr>ns_tx := (ns_tx s)\<lparr>cs_n := cs_n (ns_tx s) + 1\<rparr>\<rparr>) ts \<noteq> None"
    using Cons.prems unat_Suc_UINT64_MAX [OF n] by (intro Cons.IH) simp_all
  ultimately show ?case by (auto split: option.splits)
qed

lemma send_all_length: "transport.send_all S s ts = Some (cts, s') \<Longrightarrow> length cts = length ts"
  by (induction ts arbitrary: s cts) (auto split: option.splits)

lemma length_segments: "length (segments msg offset) \<le> length msg - offset"
proof -
  have "length xs \<le> length (concat xs)" if "\<forall>s \<in> set xs. s \<noteq> []" for xs :: "bytes list"
    using that by (induction xs) (auto simp: Suc_le_eq simp flip: length_greater_0_conv)
  then show ?thesis using segments_sizes concat_segments by (metis length_drop)
qed

lemma segments_small: "\<forall>t \<in> set (nul_ended (segments msg offset)). length t \<le> NOX_MAX_MSG_LEN"
  using segments_sizes by (fastforce simp: nul_ended_def CHUNK_LIMIT_def NOX_MAX_MSG_LEN_def)

lemma sys_malloc_ok:
  assumes "heap_ok (io_heap st)" "sys_malloc st = (ok, st')"
  shows "ok" "heap_ok (io_heap st')"
  using assms(2) sodium_malloc_ok [OF assms(1)] by (auto simp: sys_malloc_def split: prod.splits)

lemma sys_malloc_writev: "sys_malloc st = (ok, st') \<Longrightarrow> io_writev st' = io_writev st \<and> ACTIVE_PEER st' = ACTIVE_PEER st"
  by (auto simp: sys_malloc_def ACTIVE_PEER_def split: prod.splits)

lemma segmented_send_frames:
  assumes i: "i < length (as_peers st)" and s: "ps_session (get_peer st i) = Some s" and fd: "ps_fd (get_peer st i) \<ge> 0"
    and res: "send_segmented_message_to E (Some i) msg st = (NOX_OK, st')"
  obtains cts s' where "transport.send_all (ne_sodium E) s (nul_ended (segments msg 0)) = Some (cts, s')"
    "io_log st' = io_log st @ map (E_wire (ps_fd (get_peer st i))) (text_frames (ps_tx_seq (get_peer st i)) cts)"
    "ps_session (get_peer st' i) = Some s'" "ps_tx_seq (get_peer st' i) = ps_tx_seq (get_peer st i) + of_nat (length cts)"
proof -
  obtain ok1 s1 where m1: "sys_malloc st = (ok1, s1)" by (rule prod.exhaust)
  obtain ok2 s2 where m2: "sys_malloc s1 = (ok2, s2)" by (rule prod.exhaust)
  note v1 = same_viewD [OF sys_malloc_view [OF m1]] and v2 = same_viewD [OF sys_malloc_view [OF m2]]
  obtain e n s3 where q: "send_seq (send_text_frame E i) (segments msg 0) s2 = (e, n, s3)" by (rule prod_cases3)
  have i2: "i < length (as_peers s2)" and p2: "get_peer s2 i = get_peer st i" using i v1 v2 by simp_all
  have eq: "e = NOX_OK" "st' = s3"
    using res s fd m1 m2 send_chunks_seq [of E i msg 0 s2, unfolded q]
    by (auto simp: send_segmented_message_to_def split: if_splits)
  obtain cts s' where c: "transport.send_all (ne_sodium E) s (nul_ended (segments msg 0)) = Some (cts, s')"
      "io_log s3 = io_log s2 @ map (E_wire (ps_fd (get_peer st i))) (text_frames (ps_tx_seq (get_peer st i)) cts)"
      "get_peer s3 i = (get_peer st i)\<lparr>ps_session := Some s', ps_tx_seq := ps_tx_seq (get_peer st i) + of_nat (length (segments msg 0)),
         ps_last_active := ps_last_active (get_peer s3 i)\<rparr>"
    using send_seq_frames [OF q i2, unfolded p2, OF s] eq(1) by blast
  have "length cts = length (segments msg 0)" using send_all_length [OF c(1)] by (simp add: nul_ended_def)
  moreover have "ps_session (get_peer s3 i) = Some s'" "ps_tx_seq (get_peer s3 i) = ps_tx_seq (get_peer st i) + of_nat (length (segments msg 0))"
    by (subst c(3), simp)+
  ultimately show thesis using that c v1 v2 eq(2) by simp
qed

text \<open>Sending a text to a connected peer. On success the wire carries one TEXT frame per segment
  with consecutive sequence numbers, a receiver whose session agrees decrypts exactly the segments
  (each with its terminating NUL), and agrees again afterwards; the segments make up the text, each
  has between 1 and 4000 bytes, and in a UTF-8 text none starts inside a code point. A frame that is
  not written in full costs the connection and the slot is wiped. With memory, a socket that takes
  the frames and counters that do not run out, sending succeeds.\<close>

theorem segmented_send:
  assumes i: "i < length (as_peers st)" and s: "ps_session (get_peer st i) = Some s" and fd: "ps_fd (get_peer st i) \<ge> 0"
    and act: "ps_state (get_peer st i) \<noteq> ST_IDLE" and sy: "transport_sync (ne_sodium E) s r"
    and res: "send_segmented_message_to E (Some i) msg st = (err, st')"
  shows "(err = NOX_OK \<longrightarrow> (\<exists>cts s' r'. transport.recv_all (ne_sodium E) r cts = Some (nul_ended (segments msg 0), r') \<and>
       io_log st' = io_log st @ map (E_wire (ps_fd (get_peer st i))) (text_frames (ps_tx_seq (get_peer st i)) cts) \<and>
       ps_session (get_peer st' i) = Some s' \<and> transport_sync (ne_sodium E) s' r' \<and>
       ps_tx_seq (get_peer st' i) = ps_tx_seq (get_peer st i) + of_nat (length cts))) \<and>
    (err = NOX_ERR_IO \<longrightarrow> peer_clean (get_peer st' i) \<and> ps_state (get_peer st' i) = ST_IDLE) \<and>
    (heap_ok (io_heap st) \<and> io_writev st = [] \<and> unat (cs_n (ns_tx s)) + length msg < unat UINT64_MAX \<longrightarrow> err = NOX_OK) \<and>
    concat (segments msg 0) = msg \<and> (\<forall>t \<in> set (segments msg 0). t \<noteq> [] \<and> length t \<le> CHUNK_LIMIT) \<and>
    (utf8_like msg \<and> length msg \<le> SIZE_MAX \<longrightarrow> (\<forall>t \<in> set (tl (segments msg 0)). \<not> is_cont (hd t)))"
proof -
  obtain ok1 s1 where m1: "sys_malloc st = (ok1, s1)" by (rule prod.exhaust)
  obtain ok2 s2 where m2: "sys_malloc s1 = (ok2, s2)" by (rule prod.exhaust)
  note v1 = same_viewD [OF sys_malloc_view [OF m1]] and v2 = same_viewD [OF sys_malloc_view [OF m2]]
  obtain e n s3 where q: "send_seq (send_text_frame E i) (segments msg 0) s2 = (e, n, s3)" by (rule prod_cases3)
  have i2: "i < length (as_peers s2)" and p2: "get_peer s2 i = get_peer st i" using i v1 v2 by simp_all
  note f = send_seq_frames [OF q i2, unfolded p2, OF s]
  have eq: "(err, st') = (if \<not> ok1 \<or> \<not> ok2 then (NOX_ERR_ALLOC, s2) else (e, s3))"
    using res s fd m1 m2 send_chunks_seq [of E i msg 0 s2, unfolded q]
    by (auto simp: send_segmented_message_to_def split: if_splits)
  show ?thesis
  proof (intro conjI impI)
    assume "err = NOX_OK"
    with res have "send_segmented_message_to E (Some i) msg st = (NOX_OK, st')" by simp
    then obtain cts s' where c: "transport.send_all (ne_sodium E) s (nul_ended (segments msg 0)) = Some (cts, s')"
      "io_log st' = io_log st @ map (E_wire (ps_fd (get_peer st i))) (text_frames (ps_tx_seq (get_peer st i)) cts)"
      "ps_session (get_peer st' i) = Some s'" "ps_tx_seq (get_peer st' i) = ps_tx_seq (get_peer st i) + of_nat (length cts)"
      by (rule segmented_send_frames [OF i s fd])
    obtain r' where "transport.recv_all (ne_sodium E) r cts = Some (nul_ended (segments msg 0), r')" "transport_sync (ne_sodium E) s' r'"
      using transport.recv_all_send_all [OF sy c(1)] by blast
    with c show "\<exists>cts s' r'. transport.recv_all (ne_sodium E) r cts = Some (nul_ended (segments msg 0), r') \<and>
       io_log st' = io_log st @ map (E_wire (ps_fd (get_peer st i))) (text_frames (ps_tx_seq (get_peer st i)) cts) \<and>
       ps_session (get_peer st' i) = Some s' \<and> transport_sync (ne_sodium E) s' r' \<and>
       ps_tx_seq (get_peer st' i) = ps_tx_seq (get_peer st i) + of_nat (length cts)" by blast
  next
    assume "err = NOX_ERR_IO"
    then have "e = NOX_ERR_IO" "st' = s3" using eq by (auto split: if_splits)
    with f act show "peer_clean (get_peer st' i)" "ps_state (get_peer st' i) = ST_IDLE" by blast+
  next
    assume a: "heap_ok (io_heap st) \<and> io_writev st = [] \<and> unat (cs_n (ns_tx s)) + length msg < unat UINT64_MAX"
    then have "ok1" "ok2" using sys_malloc_ok [OF _ m1] sys_malloc_ok [OF _ m2] by blast+
    moreover have "io_writev s2 = []" using a sys_malloc_writev [OF m1] sys_malloc_writev [OF m2] by simp
    moreover have "transport.send_all (ne_sodium E) s (nul_ended (segments msg 0)) \<noteq> None"
      using sy a length_segments [of msg 0] segments_small [of msg 0]
      by (intro send_all_total) (simp_all add: transport_sync_def nul_ended_def)
    ultimately show "err = NOX_OK" using f eq by auto
  next
    show "concat (segments msg 0) = msg" by (simp add: concat_segments)
    show "\<forall>t \<in> set (segments msg 0). t \<noteq> [] \<and> length t \<le> CHUNK_LIMIT" using segments_sizes by blast
    assume "utf8_like msg \<and> length msg \<le> SIZE_MAX"
    then show "\<forall>t \<in> set (tl (segments msg 0)). \<not> is_cont (hd t)" using segments_boundary by blast
  qed
qed

lemma toy_session_sync: "transport_sync toy_sodium toy_session toy_session"
  by (simp add: transport_sync_def toy_aead_ok toy_session_def toy_cipher_def)

theorem segmented_send_witness:
  "\<exists>cts r' st'. send_segmented_message_to toy_env (Some 0) [72, 105] talk_sys = (NOX_OK, st') \<and>
     io_log st' = map (E_wire 9) (text_frames 0 cts) \<and>
     transport.recv_all toy_sodium toy_session cts = Some ([[72, 105, 0]], r')"
proof -
  obtain st' where r: "send_segmented_message_to toy_env (Some 0) [72, 105] talk_sys = (NOX_OK, st')"
  proof -
    have "fst (send_segmented_message_to toy_env (Some 0) [72, 105] talk_sys) = NOX_OK" by code_simp
    then show ?thesis using that by (metis prod.collapse)
  qed
  have p: "0 < length (as_peers talk_sys)" "ps_session (get_peer talk_sys 0) = Some toy_session"
    "ps_fd (get_peer talk_sys 0) = 9" "ps_state (get_peer talk_sys 0) \<noteq> ST_IDLE" "io_log talk_sys = []"
    "ps_tx_seq (get_peer talk_sys 0) = 0" "nul_ended (segments [72, 105] 0) = [[72, 105, 0]]"
    by code_simp+
  have S: "ne_sodium toy_env = toy_sodium" by (simp add: toy_env_def)
  have "ps_fd (get_peer talk_sys 0) \<ge> 0" using p(3) by simp
  from segmented_send [OF p(1,2) this p(4) _ r, of toy_session] p S toy_session_sync
  show ?thesis using r by auto
qed

section \<open>Queueing\<close>



















section \<open>A text between the frames of a file\<close>

lemma next_chunk_buffered:
  assumes i: "i < length (as_peers st)" and s: "ps_session (get_peer st i) = Some s" and b: "tx_buf (ps_tx_file (get_peer st i)) = []"
    and st1: "st1 = tx_next_chunk E i st" "tx_buf (ps_tx_file (get_peer st1 i)) \<noteq> []"
  obtains pt ct s1 where "transport_send (ne_sodium E) s pt = Some (ct, s1)" "ps_session (get_peer st1 i) = Some s1"
    "tx_buf (ps_tx_file (get_peer st1 i)) = frame_bytes NOX_MSG_FILE (ps_tx_seq (get_peer st i)) ct"
    "tx_offset (ps_tx_file (get_peer st1 i)) = 0" "tx_active (ps_tx_file (get_peer st1 i)) = tx_active (ps_tx_file (get_peer st i))"
    "ps_fd (get_peer st1 i) = ps_fd (get_peer st i)" "ps_tx_seq (get_peer st1 i) = ps_tx_seq (get_peer st i)"
    "io_log st1 = io_log st" "length (as_peers st1) = length (as_peers st)"
proof -
  obtain a sa where r: "next_file_read st = (a, sa)" by (rule prod.exhaust)
  have v: "as_peers sa = as_peers st" "io_log sa = io_log st" using r by (auto simp: next_file_read_def split: list.splits)
  have ia: "i < length (as_peers sa)" and ga: "get_peer sa i = get_peer st i" using i v by (simp_all add: get_peer_def)
  have ended: "False" if "st1 = tx_end i s'" "length (as_peers s') = length (as_peers st)" for s'
    using st1(2) i tx_end_effect(1) [of i s'] that by (simp add: zero_tx_def)
  let ?tx = "ps_tx_file (get_peer st i)"
  define rem where "rem = (if tx_total_size ?tx > tx_sent_bytes ?tx then tx_total_size ?tx - tx_sent_bytes ?tx else 0)"
  define k where "k = (if rem < 4096 then unat rem else 4096)"
  have eq: "st1 = (if rem = 0 then tx_end i st else case a of R_again \<Rightarrow> sa | R_err \<Rightarrow> tx_end i sa | R_eof \<Rightarrow> tx_end i sa
      | R_data d \<Rightarrow> if d = [] then tx_end i sa
          else let pt = take k d; st = upd_peer i (ps_tx_file_update (tx_chunk_size_update (\<lambda>_. length pt))) sa in
           if FRAME_HEADER_WIRE_SIZE + (length pt + NOX_MAC_LEN) > TX_BUF_CAPACITY then tx_end i st
           else case peer_encrypt E i pt st of (r, st) \<Rightarrow>
           (case r of None \<Rightarrow> tx_end i st
            | Some ct \<Rightarrow>
              upd_peer i (ps_tx_file_update (\<lambda>tx. tx\<lparr>tx_buf := frame_bytes NOX_MSG_FILE (ps_tx_seq (get_peer st i)) ct,
                 tx_offset := 0\<rparr>)) st))"
    unfolding st1(1) tx_next_chunk_def Let_def r prod.case rem_def [symmetric] k_def [symmetric] by (rule refl)
  have "\<exists>d. a = R_data d \<and> d \<noteq> []"
    using eq ended [of st] ended [of sa] st1(2) b v ga by (cases a) (auto split: if_splits)
  then obtain d where d: "a = R_data d" "d \<noteq> []" by blast
  have rem: "rem \<noteq> 0" using eq ended [of st] by argo
  define pt where "pt = take k d"
  define s2 where "s2 = upd_peer i (ps_tx_file_update (tx_chunk_size_update (\<lambda>_. length pt))) sa"
  have i2: "i < length (as_peers s2)" using ia by (simp add: s2_def)
  have se2: "ps_session (get_peer s2 i) = Some s" using s ia ga by (simp add: s2_def)
  obtain q s3 where e: "peer_encrypt E i pt s2 = (q, s3)" by (rule prod.exhaust)
  note pe = peer_encrypt_effect [OF e i2]
  have l2: "length (as_peers s2) = length (as_peers st)" using v by (simp add: s2_def)
  have eq2: "st1 = (if FRAME_HEADER_WIRE_SIZE + (length pt + NOX_MAC_LEN) > TX_BUF_CAPACITY then tx_end i s2
           else case q of None \<Rightarrow> tx_end i s3 | Some ct \<Rightarrow>
              upd_peer i (ps_tx_file_update (\<lambda>tx. tx\<lparr>tx_buf := frame_bytes NOX_MSG_FILE (ps_tx_seq (get_peer s3 i)) ct,
                 tx_offset := 0\<rparr>)) s3)"
    using eq unfolding d(1) read_ans.case Let_def pt_def [symmetric] s2_def [symmetric] e prod.case
    using rem d(2) by (simp only: if_False)
  have "\<not> FRAME_HEADER_WIRE_SIZE + (length pt + NOX_MAC_LEN) > TX_BUF_CAPACITY" using eq2 ended [OF _ l2] by auto
  with eq2 have eq3: "st1 = (case q of None \<Rightarrow> tx_end i s3 | Some ct \<Rightarrow>
              upd_peer i (ps_tx_file_update (\<lambda>tx. tx\<lparr>tx_buf := frame_bytes NOX_MSG_FILE (ps_tx_seq (get_peer s3 i)) ct,
                 tx_offset := 0\<rparr>)) s3)" by simp
  then obtain ct where ct: "q = Some ct" using ended [of s3] pe(1) l2 by (cases q) auto
  obtain s1 where n: "noise_encrypt (ne_sodium E) s pt = (Some ct, s1)" "s3 = upd_peer i (ps_session_update (\<lambda>_. Some s1)) s2"
    using e ct se2 by (auto simp: peer_encrypt_def split: prod.splits)
  have i3: "i < length (as_peers s3)" using pe(1) i2 by simp
  show thesis
    using eq3 ct n i2 i3 ia ga v i pe
    by (intro that [of pt ct s1]) (simp_all add: transport_send_def s2_def)
qed

lemma tx_wrote_log:
  "\<exists>r. io_log (tx_wrote i w st) = io_log st @ E_wire (ps_fd (get_peer st i))
     (take (min w (length (tx_buf (ps_tx_file (get_peer st i))) - tx_offset (ps_tx_file (get_peer st i))))
        (drop (tx_offset (ps_tx_file (get_peer st i))) (tx_buf (ps_tx_file (get_peer st i))))) # r"
  by (simp add: tx_wrote_def Let_def tx_end_def tx_drop_def)

text \<open>A text that is sent while a chunk of a file waits in the transfer buffer takes the sequence
  number of that chunk: after \<open>file_transfer_handle_tx\<close> has prepared the chunk, a text goes out at
  once, then the chunk, and both frames carry the same number, while the chunk was encrypted with
  the earlier nonce. (The receiver expects consecutive numbers and decrypts in the order of arrival.)
  Nothing in the code holds the text back: the transfer state \<open>ST_FILE_TX\<close> is never entered.\<close>

theorem text_overtakes_chunk:
  assumes i: "i < length (as_peers st)" and s: "ps_session (get_peer st i) = Some s"
    and buf: "tx_active (ps_tx_file (get_peer st i))" "ps_fd (get_peer st i) \<ge> 0" "tx_buf (ps_tx_file (get_peer st i)) = []"
    and chunk: "st1 = file_transfer_handle_tx E i st" "tx_buf (ps_tx_file (get_peer st1 i)) \<noteq> []"
    and sent: "send_text_frame E i t st1 = (NOX_OK, st2)"
    and room: "next_sock_write st2 = (W_ok n, st3)" "n \<ge> length (tx_buf (ps_tx_file (get_peer st1 i)))"
  shows "\<exists>pt ct1 ct2 s1 s2. transport_send (ne_sodium E) s pt = Some (ct1, s1) \<and>
     transport_send (ne_sodium E) s1 (t @ [0]) = Some (ct2, s2) \<and>
     io_log st2 = io_log st @ [E_wire (ps_fd (get_peer st i)) (frame_bytes NOX_MSG_TEXT (ps_tx_seq (get_peer st i)) ct2)] \<and>
     (\<exists>r. io_log (file_transfer_handle_tx E i st2) = io_log st2 @
        E_wire (ps_fd (get_peer st i)) (frame_bytes NOX_MSG_FILE (ps_tx_seq (get_peer st i)) ct1) # r)"
proof -
  have st1: "st1 = tx_next_chunk E i st" using chunk(1) buf by (simp add: file_transfer_handle_tx_def Let_def)
  obtain pt ct1 s1 where c: "transport_send (ne_sodium E) s pt = Some (ct1, s1)" "ps_session (get_peer st1 i) = Some s1"
    "tx_buf (ps_tx_file (get_peer st1 i)) = frame_bytes NOX_MSG_FILE (ps_tx_seq (get_peer st i)) ct1"
    "tx_offset (ps_tx_file (get_peer st1 i)) = 0" "tx_active (ps_tx_file (get_peer st1 i))"
    "ps_fd (get_peer st1 i) = ps_fd (get_peer st i)" "ps_tx_seq (get_peer st1 i) = ps_tx_seq (get_peer st i)"
    "io_log st1 = io_log st" "i < length (as_peers st1)"
    by (rule next_chunk_buffered [OF i s buf(3) st1 chunk(2)]) (use buf i in auto)
  show ?thesis
  proof (rule send_text_frame_cases [OF sent c(9,2)], goal_cases)
    case (1 ct2 s2)
    have g2: "ps_tx_file (get_peer st2 i) = ps_tx_file (get_peer st1 i)" "ps_fd (get_peer st2 i) = ps_fd (get_peer st i)"
      by (subst 1(4), simp add: c(6))+
    have v: "get_peer st3 i = get_peer st2 i" "io_log st3 = io_log st2"
      using room(1) by (auto simp: next_sock_write_def get_peer_def split: list.splits)
    have "0 < n" using room(2) chunk(2) by (cases n) auto
    then have h: "file_transfer_handle_tx E i st2 = tx_wrote i n st3"
      using g2 buf(2) c(3,5) room(1) by (simp add: file_transfer_handle_tx_def Let_def)
    have full: "min n (length (tx_buf (ps_tx_file (get_peer st3 i))) - tx_offset (ps_tx_file (get_peer st3 i))) =
        length (tx_buf (ps_tx_file (get_peer st3 i)))" using room(2) g2 v c(4) by simp
    obtain r where r: "io_log (tx_wrote i n st3) = io_log st3 @ E_wire (ps_fd (get_peer st3 i))
        (take (length (tx_buf (ps_tx_file (get_peer st3 i))))
          (drop (tx_offset (ps_tx_file (get_peer st3 i))) (tx_buf (ps_tx_file (get_peer st3 i))))) # r"
      using tx_wrote_log [of i n st3, unfolded full] by blast
    have w: "io_log (file_transfer_handle_tx E i st2) = io_log st2 @
        E_wire (ps_fd (get_peer st i)) (frame_bytes NOX_MSG_FILE (ps_tx_seq (get_peer st i)) ct1) # r"
      unfolding h r by (simp add: v g2 c(3,4))
    show ?thesis
    proof (intro exI conjI)
      show "transport_send (ne_sodium E) s pt = Some (ct1, s1)" by (rule c(1))
      show "transport_send (ne_sodium E) s1 (t @ [0]) = Some (ct2, s2)" by (rule 1(2))
      show "io_log st2 = io_log st @ [E_wire (ps_fd (get_peer st i)) (frame_bytes NOX_MSG_TEXT (ps_tx_seq (get_peer st i)) ct2)]"
        using 1(3) c(6-8) by simp
      show "io_log (file_transfer_handle_tx E i st2) = io_log st2 @
        E_wire (ps_fd (get_peer st i)) (frame_bytes NOX_MSG_FILE (ps_tx_seq (get_peer st i)) ct1) # r" by (rule w)
    qed
  qed simp_all
qed

definition chunk_sys :: sys where
  "chunk_sys = sending_sys\<lparr>io_sock_write := [W_ok 100]\<rparr>"

theorem text_overtakes_chunk_witness:
  "\<exists>ct1 ct2 st2. send_text_frame toy_env 0 [72] (file_transfer_handle_tx toy_env 0 chunk_sys) = (NOX_OK, st2) \<and>
     io_log st2 = [E_wire 9 (frame_bytes NOX_MSG_TEXT 0 ct2)] \<and>
     (\<exists>r. io_log (file_transfer_handle_tx toy_env 0 st2) = io_log st2 @ E_wire 9 (frame_bytes NOX_MSG_FILE 0 ct1) # r)"
proof -
  define st1 where "st1 = file_transfer_handle_tx toy_env 0 chunk_sys"
  define st2 where "st2 = snd (send_text_frame toy_env 0 [72] st1)"
  have a: "0 < length (as_peers chunk_sys)" "ps_session (get_peer chunk_sys 0) = Some toy_session"
    "tx_active (ps_tx_file (get_peer chunk_sys 0))" "ps_fd (get_peer chunk_sys 0) = 9" "tx_buf (ps_tx_file (get_peer chunk_sys 0)) = []"
    "io_log chunk_sys = []" "ps_tx_seq (get_peer chunk_sys 0) = 0" by code_simp+
  have b: "tx_buf (ps_tx_file (get_peer st1 0)) \<noteq> []" "100 \<ge> length (tx_buf (ps_tx_file (get_peer st1 0)))"
    unfolding st1_def by code_simp+
  have "fst (send_text_frame toy_env 0 [72] st1) = NOX_OK" unfolding st1_def by code_simp
  then have c: "send_text_frame toy_env 0 [72] st1 = (NOX_OK, st2)" by (simp add: st2_def prod_eq_iff)
  have "fst (next_sock_write st2) = W_ok 100" unfolding st2_def st1_def by code_simp
  then obtain st3 where d: "next_sock_write st2 = (W_ok 100, st3)" by (metis prod.collapse)
  have fd: "0 \<le> ps_fd (get_peer chunk_sys 0)" using a(4) by simp
  show ?thesis
    using text_overtakes_chunk [OF a(1-3) fd a(5) st1_def b(1) c d b(2)] c a unfolding st1_def by auto
qed

end
