(* ===== verification/Nox_Frames_Laws.thy ===== *)
theory Nox_Frames_Laws
  imports Nox_Frames Nox_Message_Props
begin

text \<open>
  What the handlers of a frame leave alone: every other slot, and the received bytes that follow (or
  the whole buffer is dropped). With it, each pass of the receive loop that goes on has consumed at
  least a header, so the loop ends.
\<close>

section \<open>Interface: a relation that operations keep\<close>

locale kept =
  fixes rel :: "'s \<Rightarrow> 's \<Rightarrow> bool"
  assumes rel_refl: "rel s s"
    and rel_trans: "rel a b \<Longrightarrow> rel b c \<Longrightarrow> rel a c"
begin

lemma rel_foldl: "(\<And>s x. x \<in> set xs \<Longrightarrow> rel s (f s x)) \<Longrightarrow> rel s (foldl f s xs)"
proof (induction xs arbitrary: s)
  case Nil
  then show ?case by (simp add: rel_refl)
next
  case (Cons x xs)
  have "rel (f s x) (foldl f (f s x) xs)" by (rule Cons.IH) (use Cons.prems in simp)
  then show ?case using rel_trans [of s "f s x"] Cons.prems by simp
qed

lemma rel_steps: "step\<^sup>*\<^sup>* s s' \<Longrightarrow> (\<And>a b. step a b \<Longrightarrow> rel a b) \<Longrightarrow> rel s s'"
  by (induction rule: rtranclp_induct) (auto intro: rel_refl rel_trans)

end

section \<open>What a handler of slot i may touch\<close>

definition serves :: "nat \<Rightarrow> sys \<Rightarrow> sys \<Rightarrow> bool" where
  "serves i st st' \<longleftrightarrow> keeps i st st' \<and>
     (i < length (as_peers st) \<longrightarrow> ps_recv_buf (get_peer st' i) \<in> {ps_recv_buf (get_peer st i), []})"

lemma serves_refl [simp, intro]: "serves i st st"
  by (simp add: serves_def)

lemma serves_trans: "serves i a b \<Longrightarrow> serves i b c \<Longrightarrow> serves i a c"
  by (auto simp: serves_def keeps_def)

interpretation serves: kept "serves i" for i
  by unfold_locales (blast intro: serves_trans)+

lemma serves_length: "serves i a b \<Longrightarrow> length (as_peers b) = length (as_peers a)"
  by (simp add: serves_def keeps_def)

lemma servesD: "serves i a b \<Longrightarrow> j \<noteq> i \<Longrightarrow> get_peer b j = get_peer a j"
  by (simp add: serves_def keeps_def)

lemma serves_same: "as_peers st' = as_peers st \<Longrightarrow> serves i st st'"
  by (simp add: serves_def keeps_def get_peer_def)

lemma serves_upd:
  "(\<And>ps. ps_recv_buf (f ps) = ps_recv_buf ps) \<Longrightarrow> serves i st (upd_peer i f st)"
  by (auto simp: serves_def keeps_def)

lemma serves_wipe: "serves i st (upd_peer i (ps_recv_buf_update (\<lambda>_. [])) st)"
  by (auto simp: serves_def keeps_def)

lemma serves_upd_after:
  "serves i st st' \<Longrightarrow> (\<And>ps. ps_recv_buf (f ps) = ps_recv_buf ps) \<Longrightarrow> serves i st (upd_peer i f st')"
  using serves_upd serves_trans by blast

lemma serves_same_after: "serves i st st' \<Longrightarrow> as_peers st'' = as_peers st' \<Longrightarrow> serves i st st''"
  using serves_same serves_trans by blast

lemma serves_same_view: "same_view st st' \<Longrightarrow> serves i st st'"
  by (intro serves_same) (simp add: same_view_def)

lemma serves_if: "serves i st a \<Longrightarrow> serves i st b \<Longrightarrow> serves i st (if c then a else b)"
  by simp

text \<open>Fields outside the slots do not matter.\<close>

lemma serves_fields [simp]:
  "serves i st (st'\<lparr>as_active_peer_idx := x0\<rparr>) = serves i st st'"
  "serves i st (st'\<lparr>as_active_peer_onion := x1\<rparr>) = serves i st st'"
  "serves i st (st'\<lparr>as_tofu_epoch := x2\<rparr>) = serves i st st'"
  "serves i st (st'\<lparr>as_tofu_prompt_epoch := x3\<rparr>) = serves i st st'"
  "serves i st (st'\<lparr>as_tofu_prompt_fp := x4\<rparr>) = serves i st st'"
  "serves i st (st'\<lparr>as_hs_attempt_count := x5\<rparr>) = serves i st st'"
  "serves i st (st'\<lparr>as_hs_window_start := x6\<rparr>) = serves i st st'"
  "serves i st (st'\<lparr>as_hs_inbound_count := x7\<rparr>) = serves i st st'"
  "serves i st (st'\<lparr>as_hs_inbound_window_start := x8\<rparr>) = serves i st st'"
  "serves i st (st'\<lparr>as_running := x9\<rparr>) = serves i st st'"
  "serves i st (st'\<lparr>as_tor_ctrl_fd := x10\<rparr>) = serves i st st'"
  "serves i st (st'\<lparr>as_tor_pid := x11\<rparr>) = serves i st st'"
  "serves i st (st'\<lparr>as_my_static_priv := x12\<rparr>) = serves i st st'"
  "serves i st (st'\<lparr>as_my_static_pub := x13\<rparr>) = serves i st st'"
  "serves i st (st'\<lparr>as_my_onion_seed := x14\<rparr>) = serves i st st'"
  "serves i st (st'\<lparr>io_now := x15\<rparr>) = serves i st st'"
  "serves i st (st'\<lparr>io_heap := x16\<rparr>) = serves i st st'"
  "serves i st (st'\<lparr>io_hash := x17\<rparr>) = serves i st st'"
  "serves i st (st'\<lparr>io_db_heap := x18\<rparr>) = serves i st st'"
  "serves i st (st'\<lparr>io_writev := x19\<rparr>) = serves i st st'"
  "serves i st (st'\<lparr>io_file_write := x20\<rparr>) = serves i st st'"
  "serves i st (st'\<lparr>io_sock_write := x21\<rparr>) = serves i st st'"
  "serves i st (st'\<lparr>io_file_read := x22\<rparr>) = serves i st st'"
  "serves i st (st'\<lparr>io_keys := x23\<rparr>) = serves i st st'"
  "serves i st (st'\<lparr>io_nonces := x24\<rparr>) = serves i st st'"
  "serves i st (st'\<lparr>io_rand := x25\<rparr>) = serves i st st'"
  "serves i st (st'\<lparr>io_open := x26\<rparr>) = serves i st st'"
  "serves i st (st'\<lparr>io_db := x27\<rparr>) = serves i st st'"
  "serves i st (st'\<lparr>io_log := x28\<rparr>) = serves i st st'"
  by (simp_all add: serves_def keeps_def get_peer_def)

lemma serves_effects [simp]:
  "serves i st (emit e st') = serves i st st'" "serves i st (close_fd fd st') = serves i st st'"
  "serves i st (unlink_partial nm st') = serves i st st'" "serves i st (tofu_save_contact E i st') = serves i st st'"
  by (simp_all add: serves_def keeps_def)

section \<open>Dispatches\<close>

lemma serves_cleanup: "serves i st (snd (action_cleanup i st))"
proof (cases "i < length (as_peers st)")
  case True
  then show ?thesis using action_cleanup_peers(2,4,5) [OF True] by (auto simp: serves_def keeps_def peer_clean_def)
next
  case False
  then have "as_peers (upd_peer i f s) = as_peers s" if "as_peers s = as_peers st" for f s
    using that False by (simp add: upd_peer_def not_less list_update_beyond)
  then have "as_peers (snd (action_cleanup i st)) = as_peers st"
    by (simp add: action_cleanup_def Let_def)
  then show ?thesis by (rule serves_same)
qed

lemma serves_simple: "serves i st (snd (simple_action a i st))"
  by (cases a) (auto simp: serves_cleanup action_tofu_prompt_def Let_def intro!: serves_upd_after)

lemma serves_row:
  assumes "\<And>a. serves i st (snd (act a i st))"
  shows "serves i st (snd (sm_row act i ev st))"
  by (auto simp: sm_row_def case_prod_beta split: option.splits intro!: serves_upd_after assms)

lemma serves_disconnect: "serves i st (sm_disconnect i st)"
  unfolding sm_disconnect_def by (rule serves_row) (rule serves_simple)

lemma serves_disconnect_after: "serves i st st' \<Longrightarrow> serves i st (sm_disconnect i st')"
  using serves_trans serves_disconnect by blast

lemma serves_malloc [simp]: "serves i st (snd (sys_malloc st')) = serves i st st'"
  by (simp add: sys_malloc_def case_prod_beta)

lemma serves_tofu_accept: "serves i st (snd (action_tofu_accept E sm_disconnect i st))"
  unfolding action_tofu_accept_def Let_def case_prod_beta
  by (auto split: option.splits intro!: serves_disconnect_after serves_upd_after)

lemma serves_dispatch: "serves i st (snd (sm_dispatch E i ev st))"
  unfolding sm_dispatch_def by (rule serves_row) (simp add: run_action_def serves_tofu_accept serves_simple)

lemma serves_fire: "serves i st (fire E i ev st)"
  by (simp add: fire_def serves_dispatch)

lemma serves_fire_after: "serves i st st' \<Longrightarrow> serves i st (fire E i ev st')"
  using serves_trans serves_fire by blast

section \<open>Sending\<close>

lemma serves_writev [simp]: "serves i st (snd (sys_writev fd b st')) = serves i st st'"
  by (simp add: sys_writev_def case_prod_beta split: list.splits)

lemma serves_key [simp]: "serves i st (snd (next_key st')) = serves i st st'"
  by (simp add: next_key_def split: list.splits)

lemma serves_encrypt: "serves i st st' \<Longrightarrow> serves i st (snd (peer_encrypt E i pt st'))"
  by (auto simp: peer_encrypt_def case_prod_beta split: option.splits intro!: serves_upd_after)

lemma serves_decrypt: "serves i st st' \<Longrightarrow> serves i st (snd (peer_decrypt E i pt st'))"
  by (auto simp: peer_decrypt_def case_prod_beta split: option.splits intro!: serves_upd_after)

lemma serves_dispatch_after: "serves i st st' \<Longrightarrow> serves i st (snd (sm_dispatch E i ev st'))"
  using serves_fire_after by (simp add: fire_def)

lemma serves_text_frame_sent: "serves i st st' \<Longrightarrow> serves i st (snd (send_text_frame E i t st'))"
  unfolding send_text_frame_def Let_def case_prod_beta
  by (auto split: option.splits intro!: serves_dispatch_after serves_upd_after serves_encrypt)

lemma serves_queued_callback: "serves i st st' \<Longrightarrow> serves i st (snd (send_queued_callback E i t st'))"
  unfolding send_queued_callback_def Let_def case_prod_beta
  by (auto intro!: serves_text_frame_sent)

lemma queue_send_rel:
  assumes "\<And>t s. rel s0 s \<Longrightarrow> rel s0 (snd (send_fn t s))" "rel s0 s"
  shows "rel s0 (fst (snd (snd (queue_send B Q send_fn rs al d s))))"
  using assms(2)
proof (induction rs arbitrary: al d s)
  case (Cons r rs)
  then show ?case using assms(1) by (simp add: case_prod_beta)
qed simp

lemma process_queue_rel:
  assumes "\<And>t s. rel s0 s \<Longrightarrow> rel s0 (snd (send_fn t s))" "rel s0 s"
  shows "rel s0 (fst (snd (snd (db_process_queue B Q send_fn al d onion s))))"
proof -
  have "rel s0 (fst (snd (snd (queue_send B Q send_fn rs al d s))))" for rs al
    using assms by (rule queue_send_rel)
  then show ?thesis
    using assms(2) by (auto simp: db_process_queue_def case_prod_beta split: sql_answer.splits option.splits)
qed

lemma serves_flush: "serves i st st' \<Longrightarrow> serves i st (flush_queue E i st')"
  unfolding flush_queue_def case_prod_beta
  by (simp add: process_queue_rel [where rel = "serves i"] serves_queued_callback)

section \<open>Handshake frames\<close>

lemma serves_reply: "serves i st st' \<Longrightarrow> serves i st (snd (hs_reply E i fd hs st'))"
  unfolding hs_reply_def Let_def case_prod_beta by (auto intro!: serves_fire_after serves_upd_after)

lemma serves_known: "serves i st st' \<Longrightarrow> serves i st (known_peer E i hs onion st')"
  unfolding known_peer_def Let_def case_prod_beta by (auto intro!: serves_fire_after serves_upd_after)

lemma serves_ask: "serves i st st' \<Longrightarrow> serves i st (tofu_ask E i fd onion name k z st')"
  unfolding tofu_ask_def by (auto intro!: serves_fire_after serves_upd_after)

lemma serves_complete: "serves i st st' \<Longrightarrow> serves i st (hs_complete E i fd hs pl st')"
  unfolding hs_complete_def Let_def case_prod_beta by (auto intro!: serves_fire_after serves_known serves_ask)

lemma serves_ctrl: "serves i st st' \<Longrightarrow> serves i st (snd (ctrl_frame E i fd hs payload st'))"
  unfolding ctrl_frame_def Let_def case_prod_beta
  by (auto split: option.splits intro!: serves_fire_after serves_complete serves_reply serves_upd_after)

section \<open>Received files\<close>

lemma serves_answers [simp]:
  "serves i st (snd (next_hash st')) = serves i st st'" "serves i st (snd (next_rand st')) = serves i st st'"
  "serves i st (snd (next_open st')) = serves i st st'" "serves i st (snd (write_to_file fd b st')) = serves i st st'"
  "serves i st (snd (sanitize_filename nm m st')) = serves i st st'"
  by (auto simp: next_hash_def next_rand_def next_open_def write_to_file_def sanitize_filename_def Let_def case_prod_beta
      split: list.splits)

lemma serves_open: "serves i st st' \<Longrightarrow> serves i st (snd (open_recv_file i nm st'))"
  unfolding open_recv_file_def Let_def case_prod_beta
  by (auto split: open_ans.splits intro!: serves_upd_after)

lemma serves_rx_wipe: "serves i st st' \<Longrightarrow> serves i st (rx_wipe E i st')"
  unfolding rx_wipe_def by (intro serves_dispatch_after serves_upd_after) simp_all

lemma serves_rx_abort: "serves i st st' \<Longrightarrow> serves i st (rx_abort E i st')"
  unfolding rx_abort_def Let_def by (intro serves_rx_wipe) simp

lemma serves_rx_begin: "serves i st st' \<Longrightarrow> serves i st (rx_begin E i nm sz h st')"
  unfolding rx_begin_def Let_def case_prod_beta
  by (auto intro!: serves_rx_abort serves_dispatch_after serves_upd_after serves_open)

lemma serves_rx_metadata: "serves i st st' \<Longrightarrow> serves i st (rx_metadata E i pt st')"
  unfolding rx_metadata_def Let_def case_prod_beta by (auto split: option.splits intro!: serves_rx_begin)

lemma serves_rx_finish: "serves i st st' \<Longrightarrow> serves i st (rx_finish E i st')"
  unfolding rx_finish_def Let_def case_prod_beta by (auto intro!: serves_rx_wipe)

lemma serves_rx_chunk: "serves i st st' \<Longrightarrow> serves i st (rx_chunk E i pt st')"
  unfolding rx_chunk_def Let_def case_prod_beta
  by (intro serves_if serves_rx_abort serves_rx_finish serves_upd_after) simp_all

lemma serves_handle_rx: "serves i st st' \<Longrightarrow> serves i st (snd (file_transfer_handle_rx E i payload st'))"
  unfolding file_transfer_handle_rx_def Let_def case_prod_beta
  by (auto intro!: serves_rx_abort serves_rx_metadata serves_rx_chunk serves_decrypt)

section \<open>Frames of a session\<close>

lemma serves_incoming [simp]: "serves i st (ui_print_incoming m st') = serves i st st'"
  by (simp add: ui_print_incoming_def)

lemma serves_first_text: "serves i st st' \<Longrightarrow> serves i st (first_text E i st')"
  unfolding first_text_def Let_def by (auto intro!: serves_flush serves_upd_after)

lemma serves_count: "serves i st st' \<Longrightarrow> serves i st (rx_count i st')"
  unfolding rx_count_def by (intro serves_upd_after) simp_all

lemma serves_text: "serves i st st' \<Longrightarrow> serves i st (text_frame E i payload st')"
  unfolding text_frame_def case_prod_beta
  by (auto split: option.splits intro!: serves_count serves_first_text serves_decrypt)

lemma serves_data: "serves i st st' \<Longrightarrow> serves i st (snd (data_frame E i fh payload st'))"
  unfolding data_frame_def case_prod_beta
  by (auto intro!: serves_fire_after serves_text serves_count serves_handle_rx)

section \<open>One pass of the loop\<close>

lemma keeps_set_recv [simp]: "keeps i st (set_recv i b st') = keeps i st st'"
  by (auto simp: set_recv_def keeps_def)

text \<open>A pass that goes on has taken the bytes of a whole frame from the buffer.\<close>

definition consumes :: "nat \<Rightarrow> sys \<Rightarrow> bool \<times> sys \<Rightarrow> bool" where
  "consumes i st r \<longleftrightarrow> keeps i st (snd r) \<and>
     length (ps_recv_buf (get_peer (snd r) i)) \<le> length (ps_recv_buf (get_peer st i)) \<and>
     (fst r \<longrightarrow> length (ps_recv_buf (get_peer (snd r) i)) + 13 \<le> length (ps_recv_buf (get_peer st i)))"

lemma consumes_stop:
  "keeps i st st' \<Longrightarrow> length (ps_recv_buf (get_peer st' i)) \<le> length (ps_recv_buf (get_peer st i)) \<Longrightarrow> consumes i st (False, st')"
  by (simp add: consumes_def)

lemma get_set_recv: "i < length (as_peers st) \<Longrightarrow> ps_recv_buf (get_peer (set_recv i b st) i) = b"
  by (simp add: set_recv_def)

lemma consumes_if: "(c \<Longrightarrow> consumes i st a) \<Longrightarrow> (\<not> c \<Longrightarrow> consumes i st b) \<Longrightarrow> consumes i st (if c then a else b)"
  by simp

lemma frame_step_consumes:
  assumes i: "i < length (as_peers st)"
  shows "consumes i st (frame_step E i fd st)"
proof -
  let ?buf = "ps_recv_buf (get_peer st i)"
  obtain err fh where h: "frame_header_decode (take FRAME_HEADER_WIRE_SIZE ?buf) = (err, fh)" by (rule prod.exhaust)
  define n where "n = FRAME_HEADER_WIRE_SIZE + unat (fh_len fh)"
  define s1 where "s1 = snd (sys_malloc st)"
  define s2 where "s2 = set_recv i (drop n ?buf) s1"
  have p1: "as_peers s1 = as_peers st" by (simp add: s1_def sys_malloc_def case_prod_beta)
  have s2: "i < length (as_peers s2)" "ps_recv_buf (get_peer s2 i) = drop n ?buf" "keeps i st s2" "keeps i st s1"
    using i p1 by (simp_all add: s2_def set_recv_def keeps_def get_peer_def upd_peer_def)
  have after: "consumes i st r" if "\<not> length ?buf < n" "serves i s2 (snd r)" for r
    using that s2 by (auto simp: consumes_def serves_def n_def FRAME_HEADER_WIRE_SIZE_def intro: keeps_trans)
  show ?thesis
    unfolding frame_step_def Let_def case_prod_beta h fst_conv snd_conv n_def [symmetric] s1_def [symmetric] s2_def [symmetric]
    by (intro consumes_if consumes_stop; (simp add: s2 i p1 get_set_recv)?; cases "ps_hs (get_peer s2 i)")
      (auto intro!: after serves_data serves_ctrl)
qed

end
