(* ===== verification/Nox_Event.thy ===== *)
theory Nox_Event
  imports Nox_Frames_Laws
begin

text \<open>
  The event loop of \<^verbatim>\<open>src/event_loop.c\<close>: the receive loop, the timeouts, the death of Tor, the drain of
  frames that waited for a session, incoming connections and the two directions of a peer's socket.
  What the kernel answers (descriptors, byte counts, data) comes in as arguments, the clock is
  \<open>io_now\<close>. A slot is an index into the array; the guard of the receive loop says that it is one.
\<close>

section \<open>The receive loop\<close>

function process_peer_frames :: "nox_env \<Rightarrow> nat \<Rightarrow> int \<Rightarrow> sys \<Rightarrow> sys" where
  "process_peer_frames E i fd st =
     (if i < length (as_peers st) \<and> FRAME_HEADER_WIRE_SIZE \<le> length (ps_recv_buf (get_peer st i))
      then case frame_step E i fd st of (go, st') \<Rightarrow> if go then process_peer_frames E i fd st' else st'
      else st)"
  by pat_completeness auto
termination
proof (relation "measure (\<lambda>(E, i, fd, st). length (ps_recv_buf (get_peer st i)))", goal_cases)
  case (2 E i fd st go st')
  then have "frame_step E i fd st = (True, st')" by simp
  with 2 show ?case using frame_step_consumes [of i st E fd] by (simp add: consumes_def)
qed simp

declare process_peer_frames.simps [simp del]

section \<open>Timeouts\<close>

definition talking :: "peer_session \<Rightarrow> bool" where
  "talking ps \<longleftrightarrow> ps_state ps = ST_ACTIVE \<or> ps_state ps = ST_FILE_TX \<or> ps_state ps = ST_FILE_RX"

definition handshake_timeout :: "nox_env \<Rightarrow> nat \<Rightarrow> sys \<Rightarrow> sys" where
  "handshake_timeout E i st =
     (let ps = get_peer st i in
      if (ps_state ps = ST_HANDSHAKE_INIT \<or> ps_state ps = ST_HANDSHAKE_RESP) \<and>
         io_now st - ps_handshake_start ps > NOX_HANDSHAKE_TIMEOUT_SEC
      then fire E i EV_HANDSHAKE_TIMEOUT st else st)"

definition tofu_timeout :: "nox_env \<Rightarrow> nat \<Rightarrow> sys \<Rightarrow> sys" where
  "tofu_timeout E i st =
     (let ps = get_peer st i in
      if ps_state ps = ST_TOFU_PENDING \<and> io_now st - ps_tofu_start ps > NOX_TOFU_TIMEOUT_SEC
      then fire E i EV_PEER_DISCONNECTED st else st)"

definition file_timeout :: "nox_env \<Rightarrow> nat \<Rightarrow> sys \<Rightarrow> sys" where
  "file_timeout E i st =
     (let rx = ps_rx_file (get_peer st i) in
      if rx_active rx \<and> file_transfer_chunk_expired (rx_last_chunk rx) (io_now st) NOX_FILE_CHUNK_TIMEOUT_SEC
      then let st = upd_peer i (ps_rx_file_update (\<lambda>_. zero_rx\<lparr>rx_fd := -1\<rparr>))
                      (close_fd (rx_fd rx) (unlink_partial (rx_local_name rx) st))
           in if ps_state (get_peer st i) = ST_FILE_RX then fire E i EV_FILE_DONE st else st
      else st)"

definition idle_timeout :: "nox_env \<Rightarrow> nat \<Rightarrow> sys \<Rightarrow> sys" where
  "idle_timeout E i st =
     (let ps = get_peer st i; idle = io_now st - ps_last_active ps; recv_pos = length (ps_recv_buf ps) in
      if talking ps
      then if idle > NOX_PEER_IDLE_TIMEOUT_SEC then fire E i EV_PEER_DISCONNECTED st
           else if recv_pos > 0 \<and> idle > NOX_HALFFRAME_TIMEOUT_SEC \<and> recv_pos < RECV_BUF_CAPACITY
                then fire E i EV_PEER_DISCONNECTED st else st
      else st)"

definition peer_timeouts :: "nox_env \<Rightarrow> nat \<Rightarrow> sys \<Rightarrow> sys" where
  "peer_timeouts E i st =
     (if ps_fd (get_peer st i) = -1 \<and> ps_state (get_peer st i) = ST_IDLE then st
      else idle_timeout E i (file_timeout E i (tofu_timeout E i (handshake_timeout E i st))))"

definition check_timeouts :: "nox_env \<Rightarrow> sys \<Rightarrow> sys" where
  "check_timeouts E st = foldl (\<lambda>st i. peer_timeouts E i st) st [0..<NOX_MAX_PEERS]"

section \<open>The death of Tor\<close>

text \<open>The result: is it dead, and the time of the last probe. \<open>gone\<close> is the answer \<^verbatim>\<open>ESRCH\<close> of \<open>kill\<close>.\<close>

definition tor_check :: "bool \<Rightarrow> bool \<Rightarrow> int \<Rightarrow> int \<Rightarrow> sys \<Rightarrow> bool \<times> int" where
  "tor_check g_tor_died gone now last_tor_check st =
     (if g_tor_died then (True, last_tor_check)
      else if as_tor_pid st > 0 \<and> now - last_tor_check \<ge> 5 then (gone, now)
      else (False, last_tor_check))"

definition tor_died :: "nox_env \<Rightarrow> sys \<Rightarrow> sys" where
  "tor_died E st =
     (if as_tor_pid st > 0
      then let st = foldl (\<lambda>st i. if ps_fd (get_peer st i) \<ge> 0 \<or> ps_state (get_peer st i) \<noteq> ST_IDLE
                             then fire E i EV_TOR_DIED st else st) st [0..<NOX_MAX_PEERS];
               st = (if as_tor_ctrl_fd st \<ge> 0 then (emit (E_close (as_tor_ctrl_fd st)) st)\<lparr>as_tor_ctrl_fd := -1\<rparr> else st);
               st = st\<lparr>as_tor_pid := 0\<rparr>;
               st = (if as_ghost_mode st then st else st\<lparr>io_db := db_close (io_db st)\<rparr>)
           in st\<lparr>as_my_static_priv := None, as_my_static_pub := None, as_my_onion_seed := None\<rparr>
      else st)"

section \<open>Frames that waited\<close>

definition drain_frames :: "nox_env \<Rightarrow> sys \<Rightarrow> sys" where
  "drain_frames E st =
     foldl (\<lambda>st i. let ps = get_peer st i in
        if ps_session ps \<noteq> None \<and> ps_fd ps \<ge> 0 \<and> length (ps_recv_buf ps) \<ge> FRAME_HEADER_WIRE_SIZE
        then process_peer_frames E i (ps_fd ps) st else st) st [0..<NOX_MAX_PEERS]"

section \<open>Incoming connections\<close>

definition free_slot :: "sys \<Rightarrow> nat option" where
  "free_slot st = first_peer (\<lambda>ps. ps_fd ps = -1 \<and> ps_state ps = ST_IDLE) st"

definition inbound_window :: "sys \<Rightarrow> sys" where
  "inbound_window st =
     (if io_now st - as_hs_inbound_window_start st \<ge> 60
      then st\<lparr>as_hs_inbound_count := 0, as_hs_inbound_window_start := io_now st\<rparr> else st)"

definition reject_fd :: "nat \<Rightarrow> int \<Rightarrow> sys \<Rightarrow> sys" where
  "reject_fd i peer_fd st = upd_peer i (ps_fd_update (\<lambda>_. -1)) (emit (E_close peer_fd) st)"

definition no_hs :: "nat \<Rightarrow> sys \<Rightarrow> sys" where
  "no_hs i st = upd_peer i (ps_hs_update (\<lambda>_. None)) st"

text \<open>\<open>peer_fd\<close> is the answer of \<open>accept4\<close>, \<open>epoll_ok\<close> that of \<open>epoll_add_fd\<close>.\<close>

definition accept_peer :: "nox_env \<Rightarrow> int \<Rightarrow> bool \<Rightarrow> sys \<Rightarrow> sys" where
  "accept_peer E peer_fd epoll_ok st =
     (if peer_fd < 0 then st
      else case free_slot st of None \<Rightarrow> emit (E_close peer_fd) st
      | Some i \<Rightarrow>
        let st = inbound_window st in
        if as_hs_inbound_count st \<ge> 5 then emit (E_close peer_fd) st
        else let st = upd_peer i (ps_fd_update (\<lambda>_. peer_fd)) st in
        if \<not> epoll_ok then reject_fd i peer_fd st
        else case sys_malloc (emit (E_epoll_add peer_fd) st) of (ok, st) \<Rightarrow>
        if \<not> ok then reject_fd i peer_fd (no_hs i st)
        else case (as_my_static_priv st, as_my_static_pub st) of
          (Some priv, Some pub) \<Rightarrow>
            let st = upd_peer i (\<lambda>ps. ps\<lparr>ps_hs := Some (handshake_init (ne_sodium E) False priv pub),
                       ps_handshake_start := io_now st, ps_last_active := io_now st\<rparr>) st;
                st = st\<lparr>as_hs_inbound_count := as_hs_inbound_count st + 1\<rparr>;
                st = fire E i EV_PEER_ACCEPTED st
            in if as_active_peer_idx st < 0 then st\<lparr>as_active_peer_idx := int i\<rparr> else st
        | _ \<Rightarrow> reject_fd i peer_fd (no_hs i st))"

section \<open>A peer's socket\<close>

definition peer_writable :: "nox_env \<Rightarrow> nat \<Rightarrow> int \<Rightarrow> sys \<Rightarrow> sys" where
  "peer_writable E i fd st =
     (if tx_active (ps_tx_file (get_peer st i)) then file_transfer_handle_tx E i st
      else emit (E_epoll_mod fd False) st)"

text \<open>\<open>avail\<close> is the answer of \<open>ioctl\<close> (zero when it fails), \<open>r\<close> that of \<open>recv\<close>.\<close>

definition peer_readable :: "nox_env \<Rightarrow> nat \<Rightarrow> int \<Rightarrow> nat \<Rightarrow> read_ans \<Rightarrow> sys \<Rightarrow> sys" where
  "peer_readable E i fd avail r st =
     (let space = RECV_BUF_CAPACITY - length (ps_recv_buf (get_peer st i));
          to_read = (if space > avail \<and> avail > 0 then avail else space)
      in if to_read = 0
         then let st = process_peer_frames E i fd st
              in if ps_fd (get_peer st i) \<ge> 0 then fire E i EV_PEER_DISCONNECTED st else st
         else case r of
           R_again \<Rightarrow> st
         | R_eof \<Rightarrow> fire E i EV_PEER_DISCONNECTED st
         | R_err \<Rightarrow> fire E i EV_PEER_DISCONNECTED st
         | R_data d \<Rightarrow>
             if d = [] then fire E i EV_PEER_DISCONNECTED st
             else process_peer_frames E i fd
                    (upd_peer i (\<lambda>ps. ps\<lparr>ps_recv_buf := ps_recv_buf ps @ take to_read d, ps_last_active := io_now st\<rparr>) st))"

definition peer_event :: "nox_env \<Rightarrow> int \<Rightarrow> bool \<Rightarrow> bool \<Rightarrow> nat \<Rightarrow> read_ans \<Rightarrow> sys \<Rightarrow> sys" where
  "peer_event E fd epollout epollin avail r st =
     (case find_peer_by_fd fd st of None \<Rightarrow> st
      | Some i \<Rightarrow>
        let st = (if epollout then peer_writable E i fd st else st)
        in if epollin then peer_readable E i fd avail r st else st)"

end
