(* ===== verification/Nox_Event_Props.thy ===== *)
theory Nox_Event_Props
  imports Nox_Event
begin

text \<open>
  Properties of the event loop: a peer reaches nothing but its own slot, a verified session rests on a
  signed claim and a stored key, texts arrive, and time limits and the connection limit hold.
\<close>

section \<open>The receive loop\<close>

lemma process_stop:
  "\<not> (i < length (as_peers st) \<and> 13 \<le> length (ps_recv_buf (get_peer st i))) \<Longrightarrow> process_peer_frames E i fd st = st"
  by (subst process_peer_frames.simps) (auto simp: FRAME_HEADER_WIRE_SIZE_def)

lemma process_step:
  assumes "i < length (as_peers st)" "13 \<le> length (ps_recv_buf (get_peer st i))" "frame_step E i fd st = (go, st')"
  shows "process_peer_frames E i fd st = (if go then process_peer_frames E i fd st' else st')"
  by (subst process_peer_frames.simps) (use assms in \<open>simp add: FRAME_HEADER_WIRE_SIZE_def\<close>)

text \<open>What holds of every pass, and is transitive, holds of the loop.\<close>

lemma process_rel:
  assumes refl: "\<And>st. rel st st" and trans: "\<And>a b c. rel a b \<Longrightarrow> rel b c \<Longrightarrow> rel a c"
    and pass: "\<And>st. i < length (as_peers st) \<Longrightarrow> 13 \<le> length (ps_recv_buf (get_peer st i)) \<Longrightarrow> rel st (snd (frame_step E i fd st))"
  shows "rel st (process_peer_frames E i fd st)"
proof (induction "length (ps_recv_buf (get_peer st i))" arbitrary: st rule: less_induct)
  case less
  show ?case
  proof (cases "i < length (as_peers st) \<and> 13 \<le> length (ps_recv_buf (get_peer st i))")
    case True
    obtain go st' where s: "frame_step E i fd st = (go, st')" by (rule prod.exhaust)
    have "rel st st'" using pass [of st] True s by simp
    moreover have "rel st' (process_peer_frames E i fd st')" if go
      using less frame_step_consumes [of i st E fd] True s that by (simp add: consumes_def)
    ultimately show ?thesis using process_step [OF _ _ s] True trans by auto
  qed (simp add: process_stop refl)
qed

definition confined :: "nat \<Rightarrow> sys \<Rightarrow> sys \<Rightarrow> bool" where
  "confined i st st' \<longleftrightarrow> keeps i st st' \<and>
     (i < length (as_peers st) \<longrightarrow> length (ps_recv_buf (get_peer st' i)) \<le> length (ps_recv_buf (get_peer st i)))"

lemma confined_refl: "confined i st st"
  by (simp add: confined_def)

lemma confined_trans: "confined i a b \<Longrightarrow> confined i b c \<Longrightarrow> confined i a c"
  by (auto simp: confined_def keeps_def intro: le_trans)

interpretation confined: kept "confined i" for i
  by unfold_locales (rule confined_refl, rule confined_trans)

lemma process_confined: "confined i st (process_peer_frames E i fd st)"
proof (rule process_rel [where rel = "confined i"])
  show "confined i st (snd (frame_step E i fd st))" if "i < length (as_peers st)" for st
    using frame_step_consumes [OF that, of E fd] by (simp add: consumes_def confined_def)
qed (rule confined_refl, rule confined_trans)

lemma serves_confined: "serves i st st' \<Longrightarrow> confined i st st'"
  by (auto simp: serves_def confined_def)

lemma serves_tx_end: "serves i st st' \<Longrightarrow> serves i st (tx_end i st')"
  unfolding tx_end_def tx_drop_def by (auto intro!: serves_upd_after)

lemma serves_tx_wrote: "serves i st st' \<Longrightarrow> serves i st (tx_wrote i n st')"
  unfolding tx_wrote_def Let_def by (intro serves_if serves_tx_end serves_upd_after) simp_all

lemma serves_file_read [simp]:
  "serves i st (snd (next_file_read st')) = serves i st st'" "serves i st (snd (next_sock_write st')) = serves i st st'"
  by (simp_all add: next_file_read_def next_sock_write_def split: list.splits)

lemma serves_read_case:
  "serves i st a \<Longrightarrow> serves i st b \<Longrightarrow> serves i st c \<Longrightarrow> (\<And>d. serves i st (f d)) \<Longrightarrow>
     serves i st (case r of R_data d \<Rightarrow> f d | R_eof \<Rightarrow> a | R_again \<Rightarrow> b | R_err \<Rightarrow> c)"
  by (simp split: read_ans.splits)

lemma serves_enc_case: "serves i st a \<Longrightarrow> (\<And>d. serves i st (f d)) \<Longrightarrow> serves i st (case r of None \<Rightarrow> a | Some d \<Rightarrow> f d)"
  by (simp split: option.splits)

lemma serves_tx_chunk: "serves i st st' \<Longrightarrow> serves i st (tx_next_chunk E i st')"
  unfolding tx_next_chunk_def Let_def case_prod_beta
  by (intro serves_if serves_tx_end serves_read_case serves_enc_case serves_upd_after serves_encrypt) simp_all

lemma serves_handle_tx: "serves i st st' \<Longrightarrow> serves i st (file_transfer_handle_tx E i st')"
  unfolding file_transfer_handle_tx_def Let_def case_prod_beta
  by (auto split: write_ans.splits intro!: serves_tx_end serves_tx_wrote serves_tx_chunk)

lemma serves_writable: "serves i st (peer_writable E i fd st)"
  unfolding peer_writable_def by (auto intro!: serves_handle_tx)

definition buffers_ok :: "sys \<Rightarrow> bool" where
  "buffers_ok st \<longleftrightarrow> (\<forall>i < length (as_peers st). length (ps_recv_buf (get_peer st i)) \<le> RECV_BUF_CAPACITY)"

lemma confined_buffers: "confined i st st' \<Longrightarrow> buffers_ok st \<Longrightarrow> buffers_ok st'"
  unfolding confined_def keeps_def buffers_ok_def by (metis le_trans)

lemma readable_keeps:
  assumes "buffers_ok st"
  shows "keeps i st (peer_readable E i fd avail r st) \<and> buffers_ok (peer_readable E i fd avail r st)"
proof -
  define space where "space = RECV_BUF_CAPACITY - length (ps_recv_buf (get_peer st i))"
  define k where "k = (if space > avail \<and> avail > 0 then avail else space)"
  have fire: "confined i st' (fire E i ev st')" for st' ev by (intro serves_confined serves_fire)
  have C: "keeps i st st' \<and> buffers_ok st'" if "confined i st st'" for st'
    using that confined_buffers assms by (simp add: confined_def)
  have full: "confined i st (let s = process_peer_frames E i fd st in if ps_fd (get_peer s i) \<ge> 0 then fire E i EV_PEER_DISCONNECTED s else s)"
    unfolding Let_def using process_confined confined_trans [OF process_confined fire] by simp
  have data: "keeps i st s' \<and> buffers_ok s'"
    if "s' = process_peer_frames E i fd (upd_peer i (\<lambda>ps. ps\<lparr>ps_recv_buf := ps_recv_buf ps @ take k d, ps_last_active := io_now st\<rparr>) st)" for s' d
  proof -
    let ?s = "upd_peer i (\<lambda>ps. ps\<lparr>ps_recv_buf := ps_recv_buf ps @ take k d, ps_last_active := io_now st\<rparr>) st"
    have "length (ps_recv_buf (get_peer st i)) + length (take k d) \<le> RECV_BUF_CAPACITY" if "i < length (as_peers st)"
      using assms that by (auto simp: k_def space_def buffers_ok_def)
    then have "length (ps_recv_buf (get_peer ?s j)) \<le> RECV_BUF_CAPACITY" if "j < length (as_peers st)" for j
      using assms that by (cases "j = i") (auto simp: buffers_ok_def)
    then have "buffers_ok ?s" by (simp add: buffers_ok_def)
    moreover have "keeps i st ?s" by (simp add: keeps_upd_peer)
    moreover have "confined i ?s s'" using process_confined that by simp
    ultimately show ?thesis
      using confined_buffers [of i ?s s'] keeps_trans [of i st ?s s'] by (simp add: confined_def)
  qed
  show ?thesis
    unfolding peer_readable_def Let_def space_def [symmetric] k_def [symmetric]
    using C [OF full [unfolded Let_def]] C [OF fire] C [OF confined_refl] data
    by (auto split: read_ans.splits)
qed

text \<open>A peer reaches nothing but its own slot: whatever becomes readable or writable on a peer's
  socket and whatever bytes it delivers, the event changes no other slot, and no receive buffer ever
  holds more than its capacity. The receive loop ends on every input (its definition is total: each
  pass that goes on has consumed at least a header).\<close>

theorem peer_event_confined:
  assumes "buffers_ok st" "find_peer_by_fd fd st = Some i"
  shows "(\<forall>j. j \<noteq> i \<longrightarrow> get_peer (peer_event E fd out inn avail r st) j = get_peer st j) \<and>
    length (as_peers (peer_event E fd out inn avail r st)) = length (as_peers st) \<and>
    buffers_ok (peer_event E fd out inn avail r st)"
proof -
  define s1 where "s1 = (if out then peer_writable E i fd st else st)"
  have "confined i st s1" using serves_confined [OF serves_writable] confined_refl by (simp add: s1_def)
  then have 1: "keeps i st s1" "buffers_ok s1" using confined_buffers assms(1) by (auto simp: confined_def)
  have eq: "peer_event E fd out inn avail r st = (if inn then peer_readable E i fd avail r s1 else s1)"
    by (simp add: peer_event_def assms(2) s1_def)
  have "keeps i st (peer_event E fd out inn avail r st) \<and> buffers_ok (peer_event E fd out inn avail r st)"
    unfolding eq using readable_keeps [OF 1(2)] 1 keeps_trans by auto
  then show ?thesis by (simp add: keeps_def)
qed

theorem peer_event_confined_witness:
  "get_peer (peer_event toy_env 9 False True 4 (R_data [1, 2, 3, 4]) talk_sys) 3 = get_peer talk_sys 3 \<and>
   ps_recv_buf (get_peer (peer_event toy_env 9 False True 4 (R_data [1, 2, 3, 4]) talk_sys) 0) = [1, 2, 3, 4]"
proof -
  have f: "find_peer_by_fd 9 talk_sys = Some 0" by code_simp
  have b: "buffers_ok talk_sys"
    by (simp add: buffers_ok_def talk_sys_def get_peer_def upd_peer_def nth_list_update init_peer_def NOX_MAX_PEERS_def)
  have "ps_recv_buf (get_peer (peer_event toy_env 9 False True 4 (R_data [1, 2, 3, 4]) talk_sys) 0) = [1, 2, 3, 4]" by code_simp
  with peer_event_confined [OF b f] show ?thesis by simp
qed

section \<open>Verified sessions\<close>

text \<open>What a handshake leaves in its slot when a frame fails, and the closing events.\<close>

definition shaking :: "sys \<Rightarrow> nat \<Rightarrow> bool" where
  "shaking st i \<longleftrightarrow> i < length (as_peers st) \<and>
     (ps_state (get_peer st i) = ST_HANDSHAKE_INIT \<or> ps_state (get_peer st i) = ST_HANDSHAKE_RESP)"

definition dropped :: "sys \<Rightarrow> nat \<Rightarrow> bool" where
  "dropped st i \<longleftrightarrow> peer_clean (get_peer st i) \<and> ps_state (get_peer st i) = ST_IDLE"

lemma shaking_lookups:
  "sm_lookup ST_HANDSHAKE_INIT EV_HANDSHAKE_ERROR = Some (ST_IDLE, A_cleanup)"
  "sm_lookup ST_HANDSHAKE_RESP EV_HANDSHAKE_ERROR = Some (ST_IDLE, A_cleanup)"
  "sm_lookup ST_HANDSHAKE_INIT EV_ARENA_FAIL = Some (ST_IDLE, A_cleanup)"
  "sm_lookup ST_HANDSHAKE_RESP EV_ARENA_FAIL = Some (ST_IDLE, A_cleanup)"
  "sm_lookup ST_HANDSHAKE_INIT EV_HANDSHAKE_TIMEOUT = Some (ST_IDLE, A_cleanup)"
  "sm_lookup ST_HANDSHAKE_RESP EV_HANDSHAKE_TIMEOUT = Some (ST_IDLE, A_cleanup)"
  "sm_lookup ST_HANDSHAKE_INIT EV_SESSION_READY = Some (ST_ACTIVE, A_session_up)"
  "sm_lookup ST_HANDSHAKE_RESP EV_SESSION_READY = Some (ST_ACTIVE, A_session_up)"
  "sm_lookup ST_HANDSHAKE_INIT EV_HANDSHAKE_DONE = Some (ST_TOFU_PENDING, A_tofu_prompt)"
  "sm_lookup ST_HANDSHAKE_RESP EV_HANDSHAKE_DONE = Some (ST_TOFU_PENDING, A_tofu_prompt)"
  by (simp_all add: sm_lookup_def transitions_def)

lemma fire_drops:
  assumes "shaking st i" "ev = EV_HANDSHAKE_ERROR \<or> ev = EV_ARENA_FAIL \<or> ev = EV_HANDSHAKE_TIMEOUT"
  shows "dropped (fire E i ev st) i"
proof -
  have "sm_lookup (ps_state (get_peer st i)) ev = Some (ST_IDLE, A_cleanup)"
    using assms by (auto simp: shaking_def shaking_lookups)
  from sm_close_peers(2,3) [OF _ this] assms(1) show ?thesis by (simp add: dropped_def fire_def shaking_def)
qed

lemma fire_ready:
  assumes "shaking st i"
  shows "fire E i EV_SESSION_READY st = upd_peer i (ps_state_update (\<lambda>_. ST_ACTIVE)) st"
proof -
  have "sm_lookup (ps_state (get_peer st i)) EV_SESSION_READY = Some (ST_ACTIVE, A_session_up)"
    using assms by (auto simp: shaking_def shaking_lookups)
  then show ?thesis by (simp add: fire_def sm_dispatch_def sm_row_def run_action_def)
qed

lemma fire_done:
  assumes "shaking st i"
  shows "get_peer (fire E i EV_HANDSHAKE_DONE st) i =
    (get_peer st i)\<lparr>ps_tofu_epoch := as_tofu_epoch st + 1, ps_state := ST_TOFU_PENDING\<rparr>"
proof -
  have "sm_lookup (ps_state (get_peer st i)) EV_HANDSHAKE_DONE = Some (ST_TOFU_PENDING, A_tofu_prompt)"
    using assms by (auto simp: shaking_def shaking_lookups)
  then show ?thesis
    using assms by (simp add: fire_def sm_dispatch_def sm_row_def run_action_def action_tofu_prompt_def Let_def shaking_def)
qed

text \<open>What a verified claim is, independently of the code that checks it: the payload is the version, an
  address and a signature; the address is the base32 text, over the alphabet of RFC 4648 in lower case, of a
  32-byte key, two bytes of the checksum of that key and the version 3; the signature verifies under this key,
  over the context, the address and the static key; and the address is the one that was dialled, if any.\<close>

definition b32_alphabet :: bytes where "b32_alphabet = str_bytes ''abcdefghijklmnopqrstuvwxyz234567''"

definition signed_claim :: "onion_crypto \<Rightarrow> bytes \<Rightarrow> bytes \<Rightarrow> bytes \<Rightarrow> bytes \<Rightarrow> bool" where
  "signed_claim C pl key target onion \<longleftrightarrow> (\<exists>ds pub digest sig.
     pl = [1] @ onion @ sig \<and> length sig = 64 \<and>
     onion = map (\<lambda>d. b32_alphabet ! d) ds @ str_bytes ''.onion'' \<and> length ds = 56 \<and> list_all (\<lambda>d. d < 32) ds \<and>
     length pub = 32 \<and> oc_sha3 C (str_bytes ''.onion checksum'' @ pub @ [3]) = Some digest \<and>
     pos_val 32 ds = pos_val 256 (map unat (pub @ take 2 digest @ [3])) \<and>
     oc_verify C sig (str_bytes ''noxtor-bind-v1'' @ onion @ take 32 key) pub \<and>
     (target = [] \<or> onion = target))"

text \<open>The payload and the static key that the handshake of the slot reads from the frame in front of its buffer.\<close>

definition arrived :: "nox_env \<Rightarrow> sys \<Rightarrow> nat \<Rightarrow> bytes \<Rightarrow> bytes \<Rightarrow> bool" where
  "arrived E st i pl key \<longleftrightarrow> (\<exists>hs hs' fh al al'. ps_hs (get_peer st i) = Some hs \<and>
     frame_header_decode (take FRAME_HEADER_WIRE_SIZE (ps_recv_buf (get_peer st i))) = (NOX_OK, fh) \<and> fh_type fh = NOX_MSG_CTRL \<and>
     handshake_read (ne_sodium E) hs (take (unat (fh_len fh)) (drop FRAME_HEADER_WIRE_SIZE (ps_recv_buf (get_peer st i))))
       NOX_HS_PAYLOAD_V1_LEN al = (NOX_OK, hs', pl, al') \<and> hs_rs hs' = key)"

text \<open>A slot that became a session did so with a signed claim and the contact's stored key; a slot
  that asks the user shows the key and the address of a signed claim.\<close>

definition session_of :: "nox_env \<Rightarrow> sys \<Rightarrow> nat \<Rightarrow> bytes \<Rightarrow> bytes \<Rightarrow> bytes \<Rightarrow> sys \<Rightarrow> bool" where
  "session_of E st i target pl key st' \<longleftrightarrow> (\<exists>onion name se. signed_claim (ne_onion E) pl key target onion \<and> \<not> as_ghost_mode st \<and>
     db_get_contact (ne_box E) (ne_sql E) (io_db st) onion (NOX_CONTACT_NAME_LEN + 1) = (NOX_OK, name, key) \<and>
     \<not> is_zero key \<and> ps_state (get_peer st' i) = ST_ACTIVE \<and> ps_peer_verified (get_peer st' i) \<and>
     ps_session (get_peer st' i) = Some se \<and> ns_remote_static se = key \<and> ps_peer_onion (get_peer st' i) = onion)"

definition prompt_of :: "nox_env \<Rightarrow> nat \<Rightarrow> bytes \<Rightarrow> bytes \<Rightarrow> bytes \<Rightarrow> sys \<Rightarrow> bool" where
  "prompt_of E i target pl key st' \<longleftrightarrow> (\<exists>onion hs. signed_claim (ne_onion E) pl key target onion \<and> ps_state (get_peer st' i) = ST_TOFU_PENDING \<and>
     ps_hs (get_peer st' i) = Some hs \<and> hs_rs hs = key \<and> ps_tofu_new_key (get_peer st' i) = key \<and>
     ps_tofu_onion (get_peer st' i) = onion \<and> \<not> ps_peer_verified (get_peer st' i) \<and> ps_session (get_peer st' i) = None)"

definition session_proof :: "nox_env \<Rightarrow> sys \<Rightarrow> nat \<Rightarrow> bytes \<Rightarrow> sys \<Rightarrow> bool" where
  "session_proof E st i target st' \<longleftrightarrow> (\<exists>pl key. arrived E st i pl key \<and> session_of E st i target pl key st')"

definition prompt_proof :: "nox_env \<Rightarrow> sys \<Rightarrow> nat \<Rightarrow> bytes \<Rightarrow> sys \<Rightarrow> bool" where
  "prompt_proof E st i target st' \<longleftrightarrow> (\<exists>pl key. arrived E st i pl key \<and> prompt_of E i target pl key st')"

lemma b32_alphabet_digit:
  assumes "b32_char c"
  shows "b32_alphabet ! b32_digit c = c"
proof -
  have "list_all (\<lambda>n. b32_char (of_nat n) \<longrightarrow> b32_alphabet ! b32_digit (of_nat n) = of_nat n) [0..<256]" by code_simp
  moreover have "unat c < 256" using unsigned_less [of c] by simp
  ultimately have "b32_char (of_nat (unat c)) \<longrightarrow> b32_alphabet ! b32_digit (of_nat (unat c)) = of_nat (unat c)"
    unfolding list_all_iff set_upt by (meson atLeastLessThan_iff zero_le)
  then show ?thesis using assms by simp
qed

lemma claim_ok_signed:
  assumes "claim_ok E pl key target"
  shows "signed_claim (ne_onion E) pl key target (claim_onion pl)"
proof -
  define a where "a = claim_onion pl"
  define sig where "sig = drop 63 pl"
  have pl: "length pl = 127" "pl ! 0 = 1" and t: "target = [] \<or> a = target"
    and v: "crypto_onion_verify (ne_onion E) sig a key = NOX_OK"
    using assms by (simp_all add: claim_ok_def a_def sig_def NOX_HS_PAYLOAD_V1_LEN_def NOX_HS_PAYLOAD_V1_VER_def NOX_ONION_LEN_def)
  obtain pub where p: "crypto_onion_pubkey (ne_onion E) a = (NOX_OK, pub)"
    and s: "oc_verify (ne_onion E) sig (onion_bind_msg a key) pub"
    using v by (auto simp: crypto_onion_verify_def split: prod.splits if_splits)
  have p32: "length pub \<le> 32"
    using p by (auto simp: crypto_onion_pubkey_def Let_def NOX_KEY_LEN_def split: if_splits prod.splits option.splits)
  from p obtain body digest where d: "length a = NOX_ONION_LEN" "drop NOX_ONION_B32_LEN a = ONION_SUFFIX"
    "list_all b32_char (take NOX_ONION_B32_LEN a)" "oc_sha3 (ne_onion E) (NOX_ONION_CKSUM_CTX @ pub @ [3]) = Some digest"
    "length body = NOX_ONION_BODY_LEN" "body = pub @ take 2 digest @ [3]"
    "pos_val 256 (map unat body) = pos_val 32 (map b32_digit (take NOX_ONION_B32_LEN a))" by (rule crypto_onion_pubkey_OK)
  define ds where "ds = map b32_digit (take 56 a)"
  have la: "length a = 62" using d(1) by (simp add: NOX_ONION_LEN_def)
  have "a = take 62 (drop 1 pl)"
  proof -
    have "length (c_str (take 62 (drop 1 pl))) = length (take 62 (drop 1 pl))"
      using la pl(1) by (simp add: a_def claim_onion_def NOX_ONION_LEN_def)
    then have "c_str (take 62 (drop 1 pl)) = take 62 (drop 1 pl)"
      unfolding c_str_def by (metis takeWhile_eq_take take_all order_refl length_takeWhile_le)
    then show ?thesis by (simp add: a_def claim_onion_def NOX_ONION_LEN_def)
  qed
  moreover have "sig = drop 62 (drop 1 pl)" by (simp add: sig_def)
  ultimately have "drop 1 pl = a @ sig" by (simp only: append_take_drop_id)
  then have shape: "pl = [1] @ a @ sig" using pl by (cases pl) simp_all
  have "map (\<lambda>x. b32_alphabet ! x) ds = take 56 a"
    using d(3) b32_alphabet_digit by (auto simp: ds_def list_all_iff NOX_ONION_B32_LEN_def intro: map_idI)
  then have addr: "a = map (\<lambda>x. b32_alphabet ! x) ds @ str_bytes ''.onion''"
    using d(2) append_take_drop_id [of 56 a] by (simp add: NOX_ONION_B32_LEN_def ONION_SUFFIX_def)
  have "length pub = 32" using d(5,6) p32 by (simp add: NOX_ONION_BODY_LEN_def)
  moreover have "list_all (\<lambda>x. x < 32) ds"
    using d(3) b32_digit_less by (auto simp: ds_def list_all_iff NOX_ONION_B32_LEN_def)
  moreover have "onion_bind_msg a key = str_bytes ''noxtor-bind-v1'' @ a @ take 32 key"
    using la by (simp add: onion_bind_msg_def NOX_ONION_BIND_CTX_def NOX_ONION_LEN_def NOX_KEY_LEN_def)
  moreover have "pos_val 32 ds = pos_val 256 (map unat (pub @ take 2 digest @ [3]))"
    using d(6,7) by (simp add: ds_def NOX_ONION_B32_LEN_def)
  moreover have "length ds = 56" "length sig = 64" using la pl(1) by (simp_all add: ds_def sig_def)
  ultimately show ?thesis
    unfolding a_def [symmetric] signed_claim_def using shape addr d(4) s t NOX_ONION_CKSUM_CTX_def by metis
qed

lemma handshake_write_rs:
  assumes "handshake_write S kp hs pl cap al = (NOX_OK, hs', out, al')"
  shows "hs_rs hs' = hs_rs hs"
proof -
  have 0: "hs_rs h' = hs_rs h" if "write_msg0 S kp h p c l = (e, h', q, r)" for h p c l e h' q r
    using that by (auto simp: write_msg0_def Let_def split: if_splits prod.splits option.splits)
  have 1: "hs_rs h' = hs_rs h" if "write_msg1 S kp h p c l = (e, h', q, r)" for h p c l e h' q r
    using that by (auto simp: write_msg1_def Let_def split: if_splits prod.splits option.splits)
  have 2: "hs_rs h' = hs_rs h" if "write_msg2 S h p c l = (e, h', q, r)" for h p c l e h' q r
    using that by (auto simp: write_msg2_def Let_def split: if_splits prod.splits option.splits)
  show ?thesis using assms
    by (auto simp: handshake_write_def hs_finish_def Let_def split: if_splits prod.splits dest: 0 1 2)
qed

lemma claim_onion_length: "length (claim_onion pl) \<le> NOX_ONION_LEN"
  unfolding claim_onion_def c_str_def by (metis length_take length_takeWhile_le min.bounded_iff)

lemma known_peer_cases:
  assumes s: "shaking st i"
  shows "dropped (known_peer E i hs onion st) i \<or>
    (\<exists>se. ps_state (get_peer (known_peer E i hs onion st) i) = ST_ACTIVE \<and> ps_peer_verified (get_peer (known_peer E i hs onion st) i) \<and>
      ps_session (get_peer (known_peer E i hs onion st) i) = Some se \<and> ns_remote_static se = hs_rs hs \<and>
      ps_peer_onion (get_peer (known_peer E i hs onion st) i) = take NOX_ONION_LEN onion)"
proof -
  obtain ok s1 where m: "sys_malloc st = (ok, s1)" by (rule prod.exhaust)
  have s1: "shaking s1 i" using s sys_malloc_frame [OF m] by (simp add: shaking_def)
  obtain e hs' se al where sp: "handshake_split (ne_sodium E) hs fresh_session (io_heap s1) = (e, hs', se, al)" by (metis prod_cases4)
  define s2 where "s2 = upd_peer i (\<lambda>ps. ps\<lparr>ps_hs := Some hs', ps_session := Some se\<rparr>) (s1\<lparr>io_heap := al\<rparr>)"
  define s3 where "s3 = upd_peer i (\<lambda>ps. ps\<lparr>ps_hs := None, ps_tx_seq := 0, ps_rx_seq := 0, ps_queue_flushed := False,
                      ps_peer_verified := True, ps_tofu_was_zero_key := False, ps_last_active := io_now s2\<rparr>) s2"
  have sh: "shaking s2 i" "shaking s3 i" using s1 by (simp_all add: s2_def s3_def shaking_def)
  have rs: "ns_remote_static se = hs_rs hs" if "e = NOX_OK"
    using sp that by (auto simp: handshake_split_def Let_def split: if_splits prod.splits)
  consider "\<not> ok" | "ok" "e \<noteq> NOX_OK" | "ok" "e = NOX_OK" by blast
  then show ?thesis
  proof cases
    case 1
    have "shaking (upd_peer i (ps_session_update (\<lambda>_. None)) s1) i" using s1 by (simp add: shaking_def)
    then show ?thesis using fire_drops [of _ i EV_ARENA_FAIL E] 1 m by (simp add: known_peer_def)
  next
    case 2
    then show ?thesis using fire_drops [OF sh(1), of EV_HANDSHAKE_ERROR E] m sp by (simp add: known_peer_def Let_def s2_def)
  next
    case 3
    have k: "known_peer E i hs onion st = (let s = upd_peer i (ps_peer_onion_update (\<lambda>_. take NOX_ONION_LEN onion))
        (upd_peer i (ps_state_update (\<lambda>_. ST_ACTIVE)) s3) in s\<lparr>as_active_peer_onion := take NOX_ONION_LEN (ps_peer_onion (get_peer s i))\<rparr>)"
      using 3 m sp fire_ready [OF sh(2), of E] by (simp add: known_peer_def Let_def s2_def s3_def)
    have i: "i < length (as_peers s2)" "i < length (as_peers s1)" using sh(1) s1 by (simp_all add: shaking_def)
    show ?thesis unfolding k using i rs 3(2) by (simp add: Let_def s3_def) (simp add: s2_def)
  qed
qed

lemma ask_proof:
  assumes "shaking st i" "ps_session (get_peer st i) = None" "ps_hs (get_peer st i) = Some hs" "claim_ok E pl (hs_rs hs) target"
  shows "prompt_of E i target pl (hs_rs hs) (tofu_ask E i fd (claim_onion pl) name (hs_rs hs) z st)"
proof -
  let ?s = "upd_peer i (\<lambda>ps. ps\<lparr>ps_tofu_pending := True, ps_tofu_peer_fd := fd, ps_tofu_was_zero_key := z,
          ps_peer_verified := False, ps_tofu_onion := take NOX_ONION_LEN (claim_onion pl),
          ps_tofu_name := take NOX_CONTACT_NAME_LEN name, ps_tofu_new_key := hs_rs hs, ps_tofu_start := io_now st\<rparr>) st"
  have "shaking ?s i" using assms(1) by (simp add: shaking_def)
  from fire_done [OF this, of E] assms claim_onion_length [of pl] claim_ok_signed [OF assms(4)] show ?thesis
    unfolding tofu_ask_def prompt_of_def by (intro exI [of _ "claim_onion pl"] exI [of _ hs]) (simp add: shaking_def)
qed

lemma hs_complete_cases:
  assumes "shaking st i" "ps_session (get_peer st i) = None" "ps_hs (get_peer st i) = Some hs"
  shows "dropped (hs_complete E i fd hs pl st) i \<or> session_of E st i (ps_connect_target (get_peer st i)) pl (hs_rs hs) (hs_complete E i fd hs pl st) \<or>
    prompt_of E i (ps_connect_target (get_peer st i)) pl (hs_rs hs) (hs_complete E i fd hs pl st)"
proof (cases "claim_ok E pl (hs_rs hs) (ps_connect_target (get_peer st i))")
  case False
  then show ?thesis using fire_drops [OF assms(1)] by (simp add: hs_complete_def)
next
  case True
  obtain e name key where d: "(if as_ghost_mode st then (NOX_ERR_DB, [], []) else
      db_get_contact (ne_box E) (ne_sql E) (io_db st) (claim_onion pl) (NOX_CONTACT_NAME_LEN + 1)) = (e, name, key)" by (rule prod_cases3)
  note ask = ask_proof [OF assms True, of fd]
  show ?thesis
  proof (cases "e = NOX_OK \<and> \<not> is_zero key \<and> key = hs_rs hs")
    case k: True
    then have "hs_complete E i fd hs pl st = known_peer E i hs (claim_onion pl) st"
      using True d by (auto simp: hs_complete_def Let_def)
    moreover have "\<not> as_ghost_mode st" using d k by (auto split: if_splits)
    ultimately show ?thesis
      using known_peer_cases [OF assms(1), of E hs "claim_onion pl"] claim_ok_signed [OF True] d k claim_onion_length [of pl]
      unfolding session_of_def by auto
  next
    case False
    then have "\<exists>nm z. hs_complete E i fd hs pl st = tofu_ask E i fd (claim_onion pl) nm (hs_rs hs) z st"
      using True d by (auto simp: hs_complete_def Let_def)
    then show ?thesis using ask by auto
  qed
qed

text \<open>The reply of a handshake that goes on.\<close>

definition hs_view :: "sys \<Rightarrow> nat \<Rightarrow> bool \<times> bytes option \<times> bool \<times> nox_db \<times> bytes" where
  "hs_view st i = (as_ghost_mode st, map_option (\<lambda>s. ns_remote_static s) (ps_session (get_peer st i)),
     ps_peer_verified (get_peer st i), io_db st, ps_connect_target (get_peer st i))"

lemma upd_peer_globals [simp]:
  "as_ghost_mode (upd_peer i f st) = as_ghost_mode st" "io_db (upd_peer i f st) = io_db st" "io_now (upd_peer i f st) = io_now st"
  "io_heap (upd_peer i f st) = io_heap st" "io_writev (upd_peer i f st) = io_writev st" "io_keys (upd_peer i f st) = io_keys st"
  "as_my_static_priv (upd_peer i f st) = as_my_static_priv st" "as_my_static_pub (upd_peer i f st) = as_my_static_pub st"
  "as_my_onion_seed (upd_peer i f st) = as_my_onion_seed st" "as_hs_inbound_count (upd_peer i f st) = as_hs_inbound_count st"
  "as_hs_inbound_window_start (upd_peer i f st) = as_hs_inbound_window_start st"
  by (simp_all add: upd_peer_def)

lemma writev_globals:
  "as_ghost_mode (snd (sys_writev fd b st)) = as_ghost_mode st" "io_db (snd (sys_writev fd b st)) = io_db st"
  by (simp_all add: sys_writev_def emit_def case_prod_beta split: list.splits)

lemma hs_reply_cases:
  assumes s: "shaking st i" and h: "ps_hs (get_peer st i) = Some hs"
    and r: "hs_reply E i fd hs st = (go, st')"
  shows "if go then shaking st' i \<and> hs_view st' i = hs_view st i \<and> (\<exists>hs'. ps_hs (get_peer st' i) = Some hs' \<and> hs_rs hs' = hs_rs hs) else dropped st' i"
proof -
  obtain e pl where c: "hs_build_claim_payload E st = (e, pl)" by (rule prod.exhaust)
  obtain kp s1 where k: "next_key st = (kp, s1)" by (rule prod.exhaust)
  have k1: "as_peers s1 = as_peers st" "as_ghost_mode s1 = as_ghost_mode st" "io_db s1 = io_db st"
    using k by (auto simp: next_key_def split: list.splits)
  obtain e2 hs2 out al where w: "handshake_write (ne_sodium E) kp hs (Some pl) NOISE_MAX_HANDSHAKE_LEN (io_heap s1) = (e2, hs2, out, al)"
    by (metis prod_cases4)
  define s2 where "s2 = upd_peer i (ps_hs_update (\<lambda>_. Some hs2)) (s1\<lparr>io_heap := al\<rparr>)"
  define wire where "wire = frame_bytes NOX_MSG_CTRL (ps_tx_seq (get_peer s2 i)) out"
  obtain n s3 where v: "sys_writev fd wire s2 = (n, s3)" by (rule prod.exhaust)
  have g: "i < length (as_peers st)" using s by (simp add: shaking_def)
  have p1: "get_peer s1 i = get_peer st i" using k1 by (simp add: get_peer_def)
  have v2: "shaking s2 i" "hs_view s2 i = hs_view st i" "ps_hs (get_peer s2 i) = Some hs2"
    using s g k1 p1 by (simp_all add: s2_def shaking_def hs_view_def)
  have v3: "shaking s3 i" "hs_view s3 i = hs_view st i" "ps_hs (get_peer s3 i) = Some hs2"
    using v2 sys_writev_effect(1,2) [OF v] writev_globals [of fd wire s2] unfolding v snd_conv
    by (simp_all add: shaking_def hs_view_def)
  have eq: "(go, st') = (if e \<noteq> NOX_OK then (False, fire E i EV_HANDSHAKE_ERROR st)
      else if e2 \<noteq> NOX_OK then (False, fire E i EV_HANDSHAKE_ERROR s2)
      else if n \<noteq> int (length wire) then (False, fire E i EV_HANDSHAKE_ERROR s3)
      else (True, upd_peer i (\<lambda>ps. ps\<lparr>ps_tx_seq := ps_tx_seq ps + 1, ps_last_active := io_now s3\<rparr>) s3))"
    unfolding r [symmetric] hs_reply_def c k prod.case w Let_def s2_def [symmetric] wire_def [symmetric] v by (rule refl)
  show ?thesis
    using eq fire_drops [OF s, of EV_HANDSHAKE_ERROR E] fire_drops [OF v2(1), of EV_HANDSHAKE_ERROR E]
      fire_drops [OF v3(1), of EV_HANDSHAKE_ERROR E] v3 handshake_write_rs [of "ne_sodium E" kp hs "Some pl" NOISE_MAX_HANDSHAKE_LEN "io_heap s1" hs2 out al] w
    by (auto simp: shaking_def hs_view_def split: if_splits)
qed

lemma ctrl_frame_cases:
  assumes s: "shaking st i" "ps_session (get_peer st i) = None" "\<not> ps_peer_verified (get_peer st i)"
    and r: "ctrl_frame E i fd hs payload st = (go, st')"
  shows "dropped st' i \<or>
    (\<exists>hs' pl al. handshake_read (ne_sodium E) hs payload NOX_HS_PAYLOAD_V1_LEN (io_heap st) = (NOX_OK, hs', pl, al) \<and>
      (session_of E st i (ps_connect_target (get_peer st i)) pl (hs_rs hs') st' \<or>
       prompt_of E i (ps_connect_target (get_peer st i)) pl (hs_rs hs') st')) \<or>
    shaking st' i \<and> ps_session (get_peer st' i) = None \<and> \<not> ps_peer_verified (get_peer st' i)"
proof -
  obtain e hs1 pl al where h: "handshake_read (ne_sodium E) hs payload NOX_HS_PAYLOAD_V1_LEN (io_heap st) = (e, hs1, pl, al)"
    by (metis prod_cases4)
  define s1 where "s1 = upd_peer i (ps_hs_update (\<lambda>_. Some hs1)) (st\<lparr>io_heap := al\<rparr>)"
  have g: "i < length (as_peers st)" using s by (simp add: shaking_def)
  have v1: "shaking s1 i" "hs_view s1 i = hs_view st i" "ps_hs (get_peer s1 i) = Some hs1"
    using s g by (simp_all add: s1_def shaking_def hs_view_def)
  obtain go2 s2 where q: "(if hs_msg_index hs1 < 3 then hs_reply E i fd hs1 s1 else (True, s1)) = (go2, s2)" by (rule prod.exhaust)
  have v2: "if go2 then shaking s2 i \<and> hs_view s2 i = hs_view st i \<and> (\<exists>hs'. ps_hs (get_peer s2 i) = Some hs' \<and> hs_rs hs' = hs_rs hs1) else dropped s2 i"
    using q hs_reply_cases [OF v1(1,3), of E fd go2 s2] v1 by (auto split: if_splits)
  have eq: "(go, st') = (if e \<noteq> NOX_OK then (False, fire E i EV_HANDSHAKE_ERROR s1) else if \<not> go2 then (False, s2)
      else case ps_hs (get_peer s2 i) of
        Some hs \<Rightarrow> (True, if hs_msg_index hs \<ge> 3 then hs_complete E i fd hs pl s2 else s2) | None \<Rightarrow> (True, s2))"
    unfolding r [symmetric] ctrl_frame_def h prod.case Let_def s1_def [symmetric] q by (rule refl)
  show ?thesis
  proof (cases "e = NOX_OK \<and> go2")
    case False
    then show ?thesis using eq fire_drops [OF v1(1), of EV_HANDSHAKE_ERROR E] v2 by (auto split: if_splits)
  next
    case True
    then obtain hs2 where h2: "ps_hs (get_peer s2 i) = Some hs2" "hs_rs hs2 = hs_rs hs1" and s2: "shaking s2 i" "hs_view s2 i = hs_view st i" using v2 by auto
    have f: "ps_session (get_peer s2 i) = None" "\<not> ps_peer_verified (get_peer s2 i)" "as_ghost_mode s2 = as_ghost_mode st"
      "io_db s2 = io_db st" "ps_connect_target (get_peer s2 i) = ps_connect_target (get_peer st i)"
      using s2(2) s(2,3) by (simp_all add: hs_view_def)
    have "st' = (if hs_msg_index hs2 \<ge> 3 then hs_complete E i fd hs2 pl s2 else s2)" using eq True h2 by simp
    moreover have "session_of E s2 i t p k x = session_of E st i t p k x" for t p k x by (simp add: session_of_def f)
    ultimately show ?thesis
      using hs_complete_cases [OF s2(1) f(1) h2(1), of E fd pl] s2(1) f h True unfolding h2(2) by (auto split: if_splits)
  qed
qed

text \<open>C3. How a session comes about. Take a slot in a handshake, with no session yet, and any bytes
  from its peer. After the next frame the slot is either still in the handshake, or closed and wiped,
  or it is one of: an active, verified session, and then the payload of the handshake message in this frame
  was the claim of an address with a signature over the static key of the same message that verifies under
  the key that the address encodes with its checksum, it is the address that was dialled (if this side
  dialled), and the contact list held exactly this key for it; or waiting for the user, and then the key
  and address shown are those of such a signed claim, and there is no session yet.\<close>

theorem session_authenticated:
  assumes s: "shaking st i" "ps_session (get_peer st i) = None" "\<not> ps_peer_verified (get_peer st i)"
    and r: "frame_step E i fd st = (go, st')"
  shows "shaking st' i \<and> ps_session (get_peer st' i) = None \<and> \<not> ps_peer_verified (get_peer st' i) \<or>
    dropped st' i \<or> session_proof E st i (ps_connect_target (get_peer st i)) st' \<or>
    prompt_proof E st i (ps_connect_target (get_peer st i)) st'"
proof -
  let ?buf = "ps_recv_buf (get_peer st i)"
  obtain err fh where h: "frame_header_decode (take FRAME_HEADER_WIRE_SIZE ?buf) = (err, fh)" by (rule prod.exhaust)
  define s1 where "s1 = snd (sys_malloc st)"
  define s2 where "s2 = set_recv i (drop (FRAME_HEADER_WIRE_SIZE + unat (fh_len fh)) ?buf) s1"
  define payload where "payload = take (unat (fh_len fh)) (drop FRAME_HEADER_WIRE_SIZE ?buf)"
  have same: "shaking x i \<and> ps_session (get_peer x i) = None \<and> \<not> ps_peer_verified (get_peer x i)"
    "as_ghost_mode x = as_ghost_mode st" "io_db x = io_db st" "ps_connect_target (get_peer x i) = ps_connect_target (get_peer st i)"
    if "x \<in> {set_recv i [] st, st, set_recv i [] s1, s2}" for x
    using that s sys_malloc_frame(1,2) [of st _ s1, unfolded s1_def] 
    by (auto simp: s1_def s2_def set_recv_def shaking_def sys_malloc_def case_prod_beta)
  have hs: "ps_hs (get_peer s2 i) = ps_hs (get_peer st i)" if "ps_hs (get_peer s2 i) = Some hs" for hs
    using s by (auto simp: s1_def s2_def set_recv_def shaking_def sys_malloc_def case_prod_beta get_peer_def upd_peer_def)
  have "st' \<in> {set_recv i [] st, st, set_recv i [] s1, s2} \<or> (\<exists>hs. ctrl_frame E i fd hs payload s2 = (go, st') \<and>
      ps_hs (get_peer s2 i) = Some hs \<and> err = NOX_OK \<and> fh_type fh = NOX_MSG_CTRL)"
    using r s(2) unfolding frame_step_def Let_def case_prod_beta h fst_conv snd_conv s1_def [symmetric] s2_def [symmetric] payload_def [symmetric]
    by (auto split: if_splits option.splits)
  then show ?thesis
  proof
    assume "st' \<in> {set_recv i [] st, st, set_recv i [] s1, s2}"
    then have "shaking st' i \<and> ps_session (get_peer st' i) = None \<and> \<not> ps_peer_verified (get_peer st' i)" by (rule same(1))
    then show ?thesis by (rule disjI1)
  next
    assume "\<exists>hs. ctrl_frame E i fd hs payload s2 = (go, st') \<and> ps_hs (get_peer s2 i) = Some hs \<and> err = NOX_OK \<and> fh_type fh = NOX_MSG_CTRL"
    then obtain hs where c: "ctrl_frame E i fd hs payload s2 = (go, st')" "ps_hs (get_peer st i) = Some hs" "err = NOX_OK" "fh_type fh = NOX_MSG_CTRL"
      using hs by auto
    have m: "s2 \<in> {set_recv i [] st, st, set_recv i [] s1, s2}" by simp
    have p: "session_of E s2 i t pl key st' = session_of E st i t pl key st'" for t pl key
      unfolding session_of_def same(2,3) [OF m] ..
    have read: "arrived E st i pl (hs_rs hs')" if "handshake_read (ne_sodium E) hs payload NOX_HS_PAYLOAD_V1_LEN (io_heap s2) = (NOX_OK, hs', pl, al)" for hs' pl al
      using that c(2-4) h unfolding arrived_def payload_def by blast
    have "dropped st' i \<or> session_proof E st i (ps_connect_target (get_peer st i)) st' \<or> prompt_proof E st i (ps_connect_target (get_peer st i)) st' \<or>
        shaking st' i \<and> ps_session (get_peer st' i) = None \<and> \<not> ps_peer_verified (get_peer st' i)"
      using ctrl_frame_cases [OF _ _ _ c(1)] same(1) [OF m] read
      unfolding same(4) [OF m] p session_proof_def prompt_proof_def by meson
    then show ?thesis by argo
  qed
qed

text \<open>The end of a handshake: the third message of a peer that is in the contact list under the key it
  presents.\<close>

definition callee :: sys where
  "callee = toy_sys\<lparr>as_onion_addr := demo_addr, as_my_static_priv := Some (replicate 32 2), as_my_static_pub := Some (replicate 32 2),
     io_db := snd (db_add_contact toy_box toy_sqlite (zeros 24) toy_db demo_addr [65] (replicate 32 1))\<rparr>"

definition callee_hs :: noise_handshake where
  "callee_hs = (handshake_init toy_sodium False (replicate 32 2) (replicate 32 2))
     \<lparr>hs_msg_index := 2, hs_e := replicate 32 8, hs_re := replicate 32 4, hs_ss := zero_symmetric\<lparr>ss_cs := toy_cipher\<rparr>\<rparr>"

definition caller_msg :: bytes where
  "caller_msg = (let tag = toy_tag (encode_nonce 0) in replicate 32 1 @ tag @
     snd (hs_build_claim_payload toy_env (callee\<lparr>as_my_static_pub := Some (replicate 32 1)\<rparr>)) @ tag)"

definition called :: sys where
  "called = upd_peer 0 (\<lambda>_. init_peer\<lparr>ps_state := ST_HANDSHAKE_RESP, ps_fd := 9, ps_hs := Some callee_hs,
     ps_recv_buf := frame_bytes NOX_MSG_CTRL 1 caller_msg\<rparr>) callee"

theorem session_authenticated_witness:
  "ps_state (get_peer (snd (frame_step toy_env 0 9 called)) 0) = ST_ACTIVE \<and>
   session_proof toy_env called 0 [] (snd (frame_step toy_env 0 9 called))"
proof -
  let ?st' = "snd (frame_step toy_env 0 9 called)"
  have s: "shaking called 0" "ps_session (get_peer called 0) = None" "\<not> ps_peer_verified (get_peer called 0)"
    "ps_connect_target (get_peer called 0) = []"
    by (simp_all add: called_def shaking_def callee_def NOX_MAX_PEERS_def init_peer_def)
  have a: "ps_state (get_peer ?st' 0) = ST_ACTIVE" by code_simp
  have "frame_step toy_env 0 9 called = (fst (frame_step toy_env 0 9 called), ?st')" by simp
  from session_authenticated [OF s(1-3) this] a s(4) show ?thesis
    by (auto simp: shaking_def dropped_def prompt_proof_def prompt_of_def)
qed

end
