(* ===== verification/Nox_Delivery.thy ===== *)
theory Nox_Delivery
  imports Nox_Event_Props
begin

text \<open>
  Two instances of the program: what one sends as a text the other shows. Combines sending
  (\<open>Nox_Message\<close>), the Noise transport (\<open>Nox_Cipher\<close>), the frame header (\<open>Nox_Wire\<close>) and the receive
  loop (\<open>Nox_Event\<close>).
\<close>

section \<open>One frame\<close>

lemma frame_len_word:
  assumes "length ct \<le> 4112"
  shows "unat (of_nat (length ct) :: u32) = length ct"
  using assms by (simp add: unsigned_of_nat take_bit_nat_eq_self)

lemma frame_bytes_decode:
  assumes ty: "ty \<in> {1, 2, 3, 4}" and l: "length ct \<le> 4112"
  shows "frame_header_decode (take FRAME_HEADER_WIRE_SIZE (frame_bytes ty seq ct)) =
      (NOX_OK, \<lparr>fh_magic = NOX_FRAME_MAGIC, fh_type = ty, fh_seq = seq, fh_len = of_nat (length ct)\<rparr>)"
proof -
  let ?h = "\<lparr>fh_magic = NOX_FRAME_MAGIC, fh_type = ty, fh_seq = seq, fh_len = of_nat (length ct)\<rparr>"
  have "header_ok ?h" using ty l frame_len_word [OF l] by (auto simp: header_ok_def FRAME_MAX_PAYLOAD_def word_le_nat_alt)
  then have "header_parse (frame_header_encode ?h) = Some ?h" by (rule frame_codec.decode_encode)
  then have "frame_header_decode (frame_header_encode ?h) = (NOX_OK, ?h)"
    by (auto simp: header_parse_def prod_eq_iff split: if_splits)
  then show ?thesis by (simp add: frame_bytes_def FRAME_HEADER_WIRE_SIZE_def)
qed

text \<open>What the receiver of texts needs: a session, an empty buffer, memory, and nothing left to flush.\<close>

definition listening :: "sys \<Rightarrow> nat \<Rightarrow> noise_session \<Rightarrow> u32 \<Rightarrow> bool" where
  "listening st j r seq \<longleftrightarrow> j < length (as_peers st) \<and> ps_session (get_peer st j) = Some r \<and> ps_recv_buf (get_peer st j) = [] \<and>
     ps_rx_seq (get_peer st j) = seq \<and> heap_ok (io_heap st) \<and> (ps_queue_flushed (get_peer st j) \<or> as_ghost_mode st)"

definition blank :: "bytes \<Rightarrow> bool" where
  "blank t \<longleftrightarrow> list_all (\<lambda>c. c = 32 \<or> c = 9) t"

definition shown :: "bytes list \<Rightarrow> effect list" where
  "shown ts = map E_incoming (filter (\<lambda>t. \<not> blank t) ts)"

lemma text_frame_shown:
  assumes l: "listening st j r seq" and t: "transport_recv (ne_sodium E) r ct = Some (t @ [0], r')" "0 \<notin> set t" "length t < length ct"
  shows "listening (text_frame E j ct st) j r' (seq + 1) \<and> io_log (text_frame E j ct st) = io_log st @ shown [t]"
proof -
  obtain ok s1 where m: "sys_malloc st = (ok, s1)" by (rule prod.exhaust)
  have ok: "ok" "heap_ok (io_heap s1)" using sys_malloc_ok [OF _ m] l by (simp_all add: listening_def)
  note v = same_viewD [OF sys_malloc_view [OF m]]
  have g: "as_ghost_mode s1 = as_ghost_mode st" using m by (auto simp: sys_malloc_def split: prod.splits)
  have n: "noise_decrypt (ne_sodium E) r ct = (Some (t @ [0]), r')"
    using t(1) by (auto simp: transport_recv_def split: prod.splits option.splits)
  define s2 where "s2 = upd_peer j (ps_session_update (\<lambda>_. Some r')) s1"
  have d: "peer_decrypt E j ct s1 = (Some (t @ [0]), s2)"
    using l v n by (simp add: peer_decrypt_def listening_def s2_def)
  define s3 where "s3 = ui_print_incoming t s2"
  have p3: "as_peers s3 = as_peers s2" "io_log s3 = io_log st @ shown [t]" "heap_ok (io_heap s3)" "as_ghost_mode s3 = as_ghost_mode st"
    using v ok g by (auto simp: s3_def s2_def ui_print_incoming_def shown_def blank_def emit_def)
  have j: "j < length (as_peers s1)" using l v by (simp add: listening_def)
  have g3: "get_peer s3 j = (get_peer st j)\<lparr>ps_session := Some r'\<rparr>" "j < length (as_peers s3)"
    using p3(1) j v by (simp_all add: get_peer_def s2_def upd_peer_def)
  have f: "first_text E j s3 = s3" using l g3 p3(4) by (auto simp: first_text_def listening_def Let_def)
  have eq: "text_frame E j ct st = rx_count j s3"
    using m ok d t(3) f by (simp add: text_frame_def c_str_nul [OF t(2)] s3_def)
  show ?thesis using l g3 p3 by (simp add: eq rx_count_def listening_def)
qed

lemma frame_received:
  assumes l: "listening st j r seq" and t: "transport_recv (ne_sodium E) r ct = Some (t @ [0], r')" "0 \<notin> set t"
    and c: "length ct = length t + 1 + NOX_MAC_LEN" "length t \<le> CHUNK_LIMIT"
  defines "f \<equiv> frame_bytes NOX_MSG_TEXT seq ct"
  shows "listening (peer_readable E j fd (length f) (R_data f) st) j r' (seq + 1) \<and>
    io_log (peer_readable E j fd (length f) (R_data f) st) = io_log st @ shown [t]"
proof -
  have len: "length f = 13 + length ct" "length ct \<le> 4112" "length ct < RECV_BUF_CAPACITY - 13" "0 < length ct"
    using c by (simp_all add: f_def frame_bytes_def CHUNK_LIMIT_def NOX_MAC_LEN_def RECV_BUF_CAPACITY_def)
  have dec: "frame_header_decode (take FRAME_HEADER_WIRE_SIZE f) =
      (NOX_OK, \<lparr>fh_magic = NOX_FRAME_MAGIC, fh_type = NOX_MSG_TEXT, fh_seq = seq, fh_len = of_nat (length ct)\<rparr>)"
    unfolding f_def by (rule frame_bytes_decode) (use len in \<open>simp_all add: NOX_MSG_TEXT_def\<close>)
  define s1 where "s1 = upd_peer j (\<lambda>ps. ps\<lparr>ps_recv_buf := f, ps_last_active := io_now st\<rparr>) st"
  have j: "j < length (as_peers st)" and nb: "ps_recv_buf (get_peer st j) = []" using l by (simp_all add: listening_def)
  have rd: "peer_readable E j fd (length f) (R_data f) st = process_peer_frames E j fd s1"
    using len nb j by (auto simp: peer_readable_def Let_def s1_def upd_peer_def get_peer_def)
  obtain ok s2 where m: "sys_malloc s1 = (ok, s2)" by (rule prod.exhaust)
  have h1: "heap_ok (io_heap s1)" using l by (simp add: s1_def listening_def)
  have ok: "ok" "heap_ok (io_heap s2)" using sys_malloc_ok [OF h1 m] by simp_all
  note v = same_viewD [OF sys_malloc_view [OF m]]
  define s3 where "s3 = set_recv j [] s2"
  have gh: "as_ghost_mode s3 = as_ghost_mode st" using m by (auto simp: sys_malloc_def s3_def set_recv_def s1_def split: prod.splits)
  have g3: "get_peer s3 j = (get_peer st j)\<lparr>ps_recv_buf := [], ps_last_active := io_now st\<rparr>" "j < length (as_peers s3)"
    using v j by (simp_all add: s3_def set_recv_def s1_def)
  have l3: "listening s3 j r seq" "io_log s3 = io_log st"
    using l g3 gh ok v by (simp_all add: listening_def s3_def set_recv_def s1_def)
  have tx: "listening (text_frame E j ct s3) j r' (seq + 1)" "io_log (text_frame E j ct s3) = io_log st @ shown [t]"
    using text_frame_shown [OF l3(1) t] c(1) l3(2) by simp_all
  have fs: "frame_step E j fd s1 = (True, text_frame E j ct s3)"
  proof -
    have b: "ps_recv_buf (get_peer s1 j) = f" "ps_session (get_peer s1 j) = Some r" "ps_rx_seq (get_peer s3 j) = seq"
      using j l g3 by (simp_all add: s1_def listening_def)
    have pl: "take (length ct) (drop FRAME_HEADER_WIRE_SIZE f) = ct" "drop (FRAME_HEADER_WIRE_SIZE + length ct) f = []"
      using len by (simp_all add: f_def frame_bytes_def FRAME_HEADER_WIRE_SIZE_def)
    have nz: "(of_nat (length ct) :: u32) \<noteq> 0" "\<not> (of_nat (length ct) :: u32) > of_nat (4096 + NOX_MAC_LEN)"
      using frame_len_word [OF len(2)] len(2,4) by (auto simp: word_less_nat_alt NOX_MAC_LEN_def)
    have "frame_step E j fd s1 = data_frame E j \<lparr>fh_magic = NOX_FRAME_MAGIC, fh_type = NOX_MSG_TEXT, fh_seq = seq,
        fh_len = of_nat (length ct)\<rparr> ct s3"
      unfolding frame_step_def Let_def b(1) dec prod.case
      using nz len(1) ok m b(2) pl
      by (simp add: frame_len_word [OF len(2)] s3_def FRAME_HEADER_WIRE_SIZE_def)
    then show ?thesis using b(3) by (simp add: data_frame_def)
  qed
  have "ps_recv_buf (get_peer (text_frame E j ct s3) j) = []" using tx(1) by (simp add: listening_def)
  then have "process_peer_frames E j fd s1 = text_frame E j ct s3"
    using process_step [OF _ _ fs] j len(1) by (simp add: s1_def process_stop)
  then show ?thesis using rd tx by simp
qed

section \<open>A whole text\<close>

definition deliver :: "nox_env \<Rightarrow> nat \<Rightarrow> int \<Rightarrow> bytes list \<Rightarrow> sys \<Rightarrow> sys" where
  "deliver E j fd frames st = foldl (\<lambda>st f. peer_readable E j fd (length f) (R_data f) st) st frames"

lemma send_ciphertext_length:
  assumes "aead_ok S" "cs_has_key (ns_tx s)" "transport_send S s m = Some (c, s')"
  shows "length c = length m + NOX_MAC_LEN"
proof -
  obtain tx where "cipher_encrypt S (ns_tx s) [] m = (Some c, tx)"
    using assms(3) by (auto simp: transport_send_def noise_encrypt_def split: if_splits prod.splits option.splits)
  from cipher_decrypt_encrypt [OF assms(1,2) this] show ?thesis by simp
qed

lemma frames_delivered:
  assumes "transport.send_all (ne_sodium E) s (nul_ended ts) = Some (cts, s')" "transport_sync (ne_sodium E) s r"
    and "listening st j r seq" "\<forall>t \<in> set ts. 0 \<notin> set t \<and> length t \<le> CHUNK_LIMIT"
  shows "\<exists>r'. transport_sync (ne_sodium E) s' r' \<and>
    listening (deliver E j fd (text_frames seq cts) st) j r' (seq + of_nat (length cts)) \<and>
    io_log (deliver E j fd (text_frames seq cts) st) = io_log st @ shown ts"
  using assms
proof (induction ts arbitrary: s r st seq cts)
  case Nil
  then show ?case by (auto simp: deliver_def shown_def)
next
  case (Cons t ts)
  from Cons.prems(1) obtain c s1 cs where 1: "transport_send (ne_sodium E) s (t @ [0]) = Some (c, s1)"
    "transport.send_all (ne_sodium E) s1 (nul_ended ts) = Some (cs, s')" "cts = c # cs"
    by (auto split: option.splits)
  obtain r1 where 2: "transport_recv (ne_sodium E) r c = Some (t @ [0], r1)" "transport_sync (ne_sodium E) s1 r1"
    using transport_recv_send [OF Cons.prems(2) 1(1)] by blast
  have lc: "length c = length t + 1 + NOX_MAC_LEN"
    using send_ciphertext_length [OF _ _ 1(1)] Cons.prems(2) by (simp add: transport_sync_def)
  let ?f = "frame_bytes NOX_MSG_TEXT seq c"
  define st1 where "st1 = peer_readable E j fd (length ?f) (R_data ?f) st"
  have 3: "listening st1 j r1 (seq + 1)" "io_log st1 = io_log st @ shown [t]"
    using frame_received [OF Cons.prems(3) 2(1) _ lc, of fd] Cons.prems(4) by (simp_all add: st1_def)
  obtain r' where "transport_sync (ne_sodium E) s' r'" "listening (deliver E j fd (text_frames (seq + 1) cs) st1) j r' (seq + 1 + of_nat (length cs))"
    "io_log (deliver E j fd (text_frames (seq + 1) cs) st1) = io_log st1 @ shown ts"
    using Cons.IH [OF 1(2) 2(2) 3(1)] Cons.prems(4) by auto
  then show ?case
    using 1(3) 3(2) by (intro exI [of _ r']) (simp add: deliver_def st1_def [symmetric] shown_def add.assoc)
qed

text \<open>C4. A text arrives. Let two instances hold the two ends of a session that agree, and let the
  sender's next number be the one the receiver expects. When \<open>send_segmented_message_to\<close> succeeds, the
  frames it put on the wire, read one after another by the receiver's event loop, make the receiver
  show exactly the segments of the text, in order (segments of blanks only are not displayed); the
  segments make up the text, and afterwards the two ends agree again, in keys and numbers.\<close>

theorem text_arrives:
  assumes i: "i < length (as_peers st)" and s: "ps_session (get_peer st i) = Some s" and fd: "ps_fd (get_peer st i) \<ge> 0"
    and sent: "send_segmented_message_to E (Some i) msg st = (NOX_OK, st')" and m: "0 \<notin> set msg"
    and sy: "transport_sync (ne_sodium E) s r" and E2: "ne_sodium E2 = ne_sodium E"
    and l: "listening rc j r (ps_tx_seq (get_peer st i))"
  shows "\<exists>frames s' r'. io_log st' = io_log st @ map (E_wire (ps_fd (get_peer st i))) frames \<and>
    io_log (deliver E2 j fd2 frames rc) = io_log rc @ shown (segments msg 0) \<and> concat (segments msg 0) = msg \<and>
    ps_session (get_peer st' i) = Some s' \<and> transport_sync (ne_sodium E) s' r' \<and>
    listening (deliver E2 j fd2 frames rc) j r' (ps_tx_seq (get_peer st' i))"
proof -
  obtain cts s' where c: "transport.send_all (ne_sodium E) s (nul_ended (segments msg 0)) = Some (cts, s')"
    "io_log st' = io_log st @ map (E_wire (ps_fd (get_peer st i))) (text_frames (ps_tx_seq (get_peer st i)) cts)"
    "ps_session (get_peer st' i) = Some s'" "ps_tx_seq (get_peer st' i) = ps_tx_seq (get_peer st i) + of_nat (length cts)"
    by (rule segmented_send_frames [OF i s fd sent])
  have sg: "\<forall>t \<in> set (segments msg 0). 0 \<notin> set t \<and> length t \<le> CHUNK_LIMIT" using segments_sizes m by blast
  obtain r' where "transport_sync (ne_sodium E) s' r'"
    "listening (deliver E2 j fd2 (text_frames (ps_tx_seq (get_peer st i)) cts) rc) j r' (ps_tx_seq (get_peer st i) + of_nat (length cts))"
    "io_log (deliver E2 j fd2 (text_frames (ps_tx_seq (get_peer st i)) cts) rc) = io_log rc @ shown (segments msg 0)"
    using frames_delivered [OF c(1) [folded E2] sy [folded E2] l sg, of fd2] E2 by auto
  with c show ?thesis by (auto simp: concat_segments)
qed

theorem text_arrives_witness:
  "\<exists>st' frames. send_segmented_message_to toy_env (Some 0) [72, 105] talk_sys = (NOX_OK, st') \<and>
     io_log st' = map (E_wire 9) frames \<and>
     io_log (deliver toy_env 0 9 frames (upd_peer 0 (ps_queue_flushed_update (\<lambda>_. True)) talk_sys)) = [E_incoming [72, 105]]"
proof -
  let ?rc = "upd_peer 0 (ps_queue_flushed_update (\<lambda>_. True)) talk_sys"
  obtain st' where r: "send_segmented_message_to toy_env (Some 0) [72, 105] talk_sys = (NOX_OK, st')"
  proof -
    have "fst (send_segmented_message_to toy_env (Some 0) [72, 105] talk_sys) = NOX_OK" by code_simp
    then show ?thesis using that by (metis prod.collapse)
  qed
  have p: "0 < length (as_peers talk_sys)" "ps_session (get_peer talk_sys 0) = Some toy_session"
    "ps_fd (get_peer talk_sys 0) = 9" "io_log talk_sys = []" "ps_tx_seq (get_peer talk_sys 0) = 0"
    "shown (segments [72, 105] 0) = [E_incoming [72, 105]]"
    by code_simp+
  have "ps_rx_seq (get_peer talk_sys 0) = 0" "ps_recv_buf (get_peer talk_sys 0) = []" "heap_ok (io_heap talk_sys)" by code_simp+
  then have l: "listening ?rc 0 toy_session (ps_tx_seq (get_peer talk_sys 0))" using p by (simp add: listening_def)
  have fd: "ps_fd (get_peer talk_sys 0) \<ge> 0" using p(3) by simp
  have S: "transport_sync (ne_sodium toy_env) toy_session toy_session" using toy_session_sync by (simp add: toy_env_def)
  from text_arrives [OF p(1,2) fd r _ S refl l, of 9] p r show ?thesis by auto
qed

end
