(* ===== verification/Nox_Limits_Props.thy ===== *)
theory Nox_Limits_Props
  imports Nox_Event_Props
begin

text \<open>
  The limits of the event loop: time limits of every stage of a connection, the limit on incoming
  handshakes, and the end of everything when Tor dies.
\<close>

section \<open>The clock and the loops over the slots\<close>

lemma io_now_frame [simp]:
  "io_now (emit e st) = io_now st" "io_now (close_fd fd st) = io_now st" "io_now (unlink_partial nm st) = io_now st"
  "io_now (tofu_save_contact E i st) = io_now st" "io_now (snd (sys_malloc st)) = io_now st"
  by (auto simp: emit_def close_fd_def unlink_partial_def tofu_save_contact_def next_nonce_def Let_def sys_malloc_def
      case_prod_beta split: list.splits)

lemma io_now_cleanup [simp]: "io_now (snd (action_cleanup i st)) = io_now st"
  by (simp add: action_cleanup_def Let_def)

lemma io_now_simple [simp]: "io_now (snd (simple_action a i st)) = io_now st"
  by (cases a) (simp_all add: action_tofu_prompt_def Let_def)

lemma io_now_row:
  assumes "\<And>a. io_now (snd (act a i st)) = io_now st"
  shows "io_now (snd (sm_row act i ev st)) = io_now st"
  by (auto simp: sm_row_def case_prod_beta assms split: option.splits)

lemma io_now_disconnect [simp]: "io_now (sm_disconnect i st) = io_now st"
  unfolding sm_disconnect_def by (rule io_now_row) simp

lemma io_now_fire [simp]: "io_now (fire E i ev st) = io_now st"
proof -
  have "io_now (snd (action_tofu_accept E sm_disconnect i st)) = io_now st"
    unfolding action_tofu_accept_def Let_def case_prod_beta by (simp split: option.splits)
  then show ?thesis unfolding fire_def sm_dispatch_def by (intro io_now_row) (simp add: run_action_def)
qed

text \<open>A loop over the slots whose body for slot \<open>i\<close> keeps the others: what it leaves in slot \<open>i\<close> is what
  the body made of the original slot.\<close>

lemma foldl_slots:
  assumes k: "\<And>i st. keeps i st (f i st)" and t: "\<And>i st. io_now (f i st) = io_now st"
  shows "length (as_peers (foldl (\<lambda>st i. f i st) st [0..<n])) = length (as_peers st) \<and>
    io_now (foldl (\<lambda>st i. f i st) st [0..<n]) = io_now st \<and>
    (\<forall>i. if i < n then (\<exists>s. get_peer s i = get_peer st i \<and> io_now s = io_now st \<and> length (as_peers s) = length (as_peers st) \<and>
          get_peer (foldl (\<lambda>st i. f i st) st [0..<n]) i = get_peer (f i s) i)
        else get_peer (foldl (\<lambda>st i. f i st) st [0..<n]) i = get_peer st i)"
proof (induction n)
  case 0
  then show ?case by simp
next
  case (Suc n)
  let ?s = "foldl (\<lambda>st i. f i st) st [0..<n]"
  have l: "length (as_peers (f n ?s)) = length (as_peers st)" "io_now (f n ?s) = io_now st"
    using Suc k [of n ?s] t by (simp_all add: keeps_def)
  have "\<exists>s. get_peer s n = get_peer st n \<and> io_now s = io_now st \<and> length (as_peers s) = length (as_peers st) \<and>
      get_peer (f n ?s) n = get_peer (f n s) n"
    using Suc by (intro exI [of _ ?s]) (auto dest: spec [of _ n])
  moreover have "get_peer (f n ?s) i = get_peer ?s i" if "i \<noteq> n" for i using k [of n ?s] that by (simp add: keeps_def)
  ultimately show ?case using Suc l by (auto simp: less_Suc_eq)
qed

section \<open>Timeouts\<close>

definition in_time :: "int \<Rightarrow> peer_session \<Rightarrow> bool" where
  "in_time now ps \<longleftrightarrow>
     ((ps_state ps = ST_HANDSHAKE_INIT \<or> ps_state ps = ST_HANDSHAKE_RESP) \<longrightarrow> now - ps_handshake_start ps \<le> NOX_HANDSHAKE_TIMEOUT_SEC) \<and>
     (ps_state ps = ST_TOFU_PENDING \<longrightarrow> now - ps_tofu_start ps \<le> NOX_TOFU_TIMEOUT_SEC) \<and>
     (rx_active (ps_rx_file ps) \<longrightarrow> now - rx_last_chunk (ps_rx_file ps) \<le> NOX_FILE_CHUNK_TIMEOUT_SEC) \<and>
     (talking ps \<longrightarrow> now - ps_last_active ps \<le> NOX_PEER_IDLE_TIMEOUT_SEC \<and>
        (ps_recv_buf ps \<noteq> [] \<and> length (ps_recv_buf ps) < RECV_BUF_CAPACITY \<longrightarrow> now - ps_last_active ps \<le> NOX_HALFFRAME_TIMEOUT_SEC))"

lemma dropped_in_time: "dropped st i \<Longrightarrow> in_time now (get_peer st i)"
  by (simp add: dropped_def in_time_def peer_clean_def talking_def)

lemma fire_disconnect_drops:
  assumes "i < length (as_peers st)" "ps_state (get_peer st i) \<noteq> ST_IDLE"
  shows "dropped (fire E i EV_PEER_DISCONNECTED st) i"
  using sm_close_peers(2,3) [OF assms(1) sm_lookup_disconnect [OF assms(2)]] by (simp add: dropped_def fire_def)

lemma keeps_fire: "keeps i st (fire E i ev st)"
  using serves_fire by (simp add: serves_def)

lemma fire_length [simp]: "length (as_peers (fire E i ev st)) = length (as_peers st)"
  using keeps_fire keeps_length by blast

text \<open>A dropped slot passes the later checks untouched.\<close>

lemma dropped_stages:
  assumes "dropped st i"
  shows "tofu_timeout E i st = st" "file_timeout E i st = st" "idle_timeout E i st = st"
  using assms by (simp_all add: dropped_def tofu_timeout_def file_timeout_def idle_timeout_def peer_clean_def talking_def Let_def)

lemma file_timeout_slot:
  assumes i: "i < length (as_peers st)"
  shows "get_peer (file_timeout E i st) i = get_peer st i \<and> (rx_active (ps_rx_file (get_peer st i)) \<longrightarrow>
      io_now st - rx_last_chunk (ps_rx_file (get_peer st i)) \<le> NOX_FILE_CHUNK_TIMEOUT_SEC) \<or>
    (\<exists>s. get_peer (file_timeout E i st) i = (get_peer st i)\<lparr>ps_rx_file := zero_rx\<lparr>rx_fd := -1\<rparr>, ps_state := s\<rparr> \<and>
      (s = ps_state (get_peer st i) \<or> ps_state (get_peer st i) = ST_FILE_RX \<and> s = ST_ACTIVE) \<and>
      rx_active (ps_rx_file (get_peer st i)) \<and> io_now st - rx_last_chunk (ps_rx_file (get_peer st i)) > NOX_FILE_CHUNK_TIMEOUT_SEC)"
proof -
  let ?rx = "ps_rx_file (get_peer st i)"
  define s1 where "s1 = upd_peer i (ps_rx_file_update (\<lambda>_. zero_rx\<lparr>rx_fd := -1\<rparr>)) (close_fd (rx_fd ?rx) (unlink_partial (rx_local_name ?rx) st))"
  have g: "get_peer s1 i = (get_peer st i)\<lparr>ps_rx_file := zero_rx\<lparr>rx_fd := -1\<rparr>\<rparr>" "i < length (as_peers s1)"
    using i by (simp_all add: s1_def)
  have "sm_lookup ST_FILE_RX EV_FILE_DONE = Some (ST_ACTIVE, A_file_end)" by (simp add: sm_lookup_def transitions_def)
  then have f: "fire E i EV_FILE_DONE s1 = upd_peer i (ps_state_update (\<lambda>_. ST_ACTIVE)) s1" if "ps_state (get_peer s1 i) = ST_FILE_RX"
    using that by (simp add: fire_def sm_dispatch_def sm_row_def run_action_def)
  have "(get_peer st i)\<lparr>ps_rx_file := zero_rx\<lparr>rx_fd := -1\<rparr>, ps_state := ps_state (get_peer st i)\<rparr> =
      (get_peer st i)\<lparr>ps_rx_file := zero_rx\<lparr>rx_fd := -1\<rparr>\<rparr>" by simp
  then show ?thesis
    using f g unfolding file_timeout_def Let_def s1_def [symmetric]
    by (auto simp: file_transfer_chunk_expired_def split: if_splits)
qed

lemma idle_timeout_slot:
  assumes "i < length (as_peers st)"
  shows "if talking (get_peer st i) \<and> (io_now st - ps_last_active (get_peer st i) > NOX_PEER_IDLE_TIMEOUT_SEC \<or>
      ps_recv_buf (get_peer st i) \<noteq> [] \<and> length (ps_recv_buf (get_peer st i)) < RECV_BUF_CAPACITY \<and>
      io_now st - ps_last_active (get_peer st i) > NOX_HALFFRAME_TIMEOUT_SEC)
    then dropped (idle_timeout E i st) i else idle_timeout E i st = st"
proof -
  have "dropped (fire E i EV_PEER_DISCONNECTED st) i" if "talking (get_peer st i)"
    using that by (intro fire_disconnect_drops [OF assms]) (auto simp: talking_def)
  then show ?thesis unfolding idle_timeout_def Let_def by auto
qed

lemma tofu_timeout_slot:
  assumes "i < length (as_peers st)"
  shows "if ps_state (get_peer st i) = ST_TOFU_PENDING \<and> io_now st - ps_tofu_start (get_peer st i) > NOX_TOFU_TIMEOUT_SEC
    then dropped (tofu_timeout E i st) i else tofu_timeout E i st = st"
  unfolding tofu_timeout_def Let_def using fire_disconnect_drops [OF assms, of E] by auto

lemma handshake_timeout_slot:
  assumes "i < length (as_peers st)"
  shows "if (ps_state (get_peer st i) = ST_HANDSHAKE_INIT \<or> ps_state (get_peer st i) = ST_HANDSHAKE_RESP) \<and>
      io_now st - ps_handshake_start (get_peer st i) > NOX_HANDSHAKE_TIMEOUT_SEC
    then dropped (handshake_timeout E i st) i else handshake_timeout E i st = st"
  unfolding handshake_timeout_def Let_def using fire_drops [of st i EV_HANDSHAKE_TIMEOUT E] assms by (auto simp: shaking_def)

lemma stages_frame:
  "keeps i st (handshake_timeout E i st)" "keeps i st (tofu_timeout E i st)" "keeps i st (file_timeout E i st)"
  "keeps i st (idle_timeout E i st)" "io_now (handshake_timeout E i st) = io_now st" "io_now (tofu_timeout E i st) = io_now st"
  "io_now (file_timeout E i st) = io_now st" "io_now (idle_timeout E i st) = io_now st"
proof -
  have "serves i st (file_timeout E i st)"
    unfolding file_timeout_def Let_def by (intro serves_if serves_fire_after serves_upd_after) simp_all
  then show "keeps i st (file_timeout E i st)" by (simp add: serves_def)
qed (simp_all add: handshake_timeout_def tofu_timeout_def file_timeout_def idle_timeout_def Let_def keeps_fire)

lemma peer_timeouts_frame: "keeps i st (peer_timeouts E i st)" "io_now (peer_timeouts E i st) = io_now st"
proof -
  show "keeps i st (peer_timeouts E i st)"
    unfolding peer_timeouts_def
    using keeps_trans [OF keeps_trans [OF keeps_trans [OF stages_frame(1) stages_frame(2)] stages_frame(3)] stages_frame(4)] by simp
qed (simp add: peer_timeouts_def stages_frame)

lemma file_timeout_facts:
  assumes i: "i < length (as_peers st)" and ps3: "ps3 = get_peer (file_timeout E i st) i"
    and h: "(ps_state (get_peer st i) = ST_HANDSHAKE_INIT \<or> ps_state (get_peer st i) = ST_HANDSHAKE_RESP) \<longrightarrow>
        io_now st - ps_handshake_start (get_peer st i) \<le> NOX_HANDSHAKE_TIMEOUT_SEC"
      "ps_state (get_peer st i) = ST_TOFU_PENDING \<longrightarrow> io_now st - ps_tofu_start (get_peer st i) \<le> NOX_TOFU_TIMEOUT_SEC"
  shows "(talking ps3 = talking (get_peer st i) \<and> ps_last_active ps3 = ps_last_active (get_peer st i) \<and> ps_recv_buf ps3 = ps_recv_buf (get_peer st i)) \<and>
      (((ps_state ps3 = ST_HANDSHAKE_INIT \<or> ps_state ps3 = ST_HANDSHAKE_RESP) \<longrightarrow> io_now st - ps_handshake_start ps3 \<le> NOX_HANDSHAKE_TIMEOUT_SEC) \<and>
       (ps_state ps3 = ST_TOFU_PENDING \<longrightarrow> io_now st - ps_tofu_start ps3 \<le> NOX_TOFU_TIMEOUT_SEC)) \<and>
      (rx_active (ps_rx_file ps3) \<longrightarrow> io_now st - rx_last_chunk (ps_rx_file ps3) \<le> NOX_FILE_CHUNK_TIMEOUT_SEC) \<and>
      (in_time (io_now st) (get_peer st i) \<longrightarrow> ps3 = (get_peer st i))"
proof -
  let ?ps = "get_peer st i"
  consider (same) "ps3 = ?ps" "rx_active (ps_rx_file ?ps) \<longrightarrow> io_now st - rx_last_chunk (ps_rx_file ?ps) \<le> NOX_FILE_CHUNK_TIMEOUT_SEC"
    | (wiped) s where "ps3 = ?ps\<lparr>ps_rx_file := zero_rx\<lparr>rx_fd := -1\<rparr>, ps_state := s\<rparr>"
      "s = ps_state ?ps \<or> ps_state ?ps = ST_FILE_RX \<and> s = ST_ACTIVE" "rx_active (ps_rx_file ?ps)"
      "io_now st - rx_last_chunk (ps_rx_file ?ps) > NOX_FILE_CHUNK_TIMEOUT_SEC" using file_timeout_slot [OF i, of E, folded ps3] by blast
  then show ?thesis
  proof cases
    case same
    then show ?thesis using h unfolding same(1) by blast
  next
    case wiped
    have "\<not> in_time (io_now st) ?ps" using wiped(3,4) unfolding in_time_def by linarith
    moreover have "\<not> rx_active (ps_rx_file ps3)" unfolding wiped(1) by (simp add: zero_rx_def)
    moreover have "ps_state ps3 = s" "ps_last_active ps3 = ps_last_active ?ps" "ps_recv_buf ps3 = ps_recv_buf ?ps"
      "ps_handshake_start ps3 = ps_handshake_start ?ps" "ps_tofu_start ps3 = ps_tofu_start ?ps" unfolding wiped(1) by simp_all
    ultimately show ?thesis using wiped(2) h by (auto simp: talking_def)
  qed
qed

lemma peer_timeouts_slot:
  assumes i: "i < length (as_peers st)" and idle: "ps_state (get_peer st i) = ST_IDLE \<longrightarrow> \<not> rx_active (ps_rx_file (get_peer st i))"
  shows "in_time (io_now st) (get_peer (peer_timeouts E i st) i) \<and>
    (in_time (io_now st) (get_peer st i) \<longrightarrow> get_peer (peer_timeouts E i st) i = get_peer st i)"
proof (cases "ps_fd (get_peer st i) = -1 \<and> ps_state (get_peer st i) = ST_IDLE")
  case True
  then show ?thesis using idle by (simp add: peer_timeouts_def in_time_def talking_def)
next
  case False
  define s1 where "s1 = handshake_timeout E i st"
  define s2 where "s2 = tofu_timeout E i s1"
  define s3 where "s3 = file_timeout E i s2"
  have eq: "peer_timeouts E i st = idle_timeout E i s3" unfolding peer_timeouts_def s3_def s2_def s1_def using False by auto
  have late: ?thesis if "dropped s2 i" "\<not> in_time (io_now st) (get_peer st i)"
    using that dropped_stages [OF that(1)] dropped_in_time [OF that(1)] by (simp add: eq s3_def)
  show ?thesis
  proof (cases "s2 = st \<and> s1 = st")
    case False
    have "dropped s2 i \<and> \<not> in_time (io_now st) (get_peer st i)"
      using False handshake_timeout_slot [OF i, of E] tofu_timeout_slot [OF i, of E] dropped_stages(1) [of s1 i E]
      unfolding s1_def [symmetric] s2_def [symmetric] in_time_def by (auto simp: s2_def split: if_splits)
    then show ?thesis using late by blast
  next
    case True
    then have h: "(ps_state (get_peer st i) = ST_HANDSHAKE_INIT \<or> ps_state (get_peer st i) = ST_HANDSHAKE_RESP) \<longrightarrow>
        io_now st - ps_handshake_start (get_peer st i) \<le> NOX_HANDSHAKE_TIMEOUT_SEC"
      "ps_state (get_peer st i) = ST_TOFU_PENDING \<longrightarrow> io_now st - ps_tofu_start (get_peer st i) \<le> NOX_TOFU_TIMEOUT_SEC"
      using handshake_timeout_slot [OF i, of E] tofu_timeout_slot [OF i, of E]
      unfolding s1_def [symmetric] by (auto simp: s2_def dropped_def split: if_splits)
    have s3: "s3 = file_timeout E i st" "i < length (as_peers s3)" "io_now s3 = io_now st"
      using True i stages_frame(3) [of i st E] stages_frame(7) [of E i st] by (simp_all add: s3_def keeps_def)
    let ?ps = "get_peer st i" and ?ps3 = "get_peer s3 i"
    note facts = file_timeout_facts [OF i refl h, of E, folded s3(1)]
    note A = facts [THEN conjunct1] and B = facts [THEN conjunct2, THEN conjunct1] and C = facts [THEN conjunct2, THEN conjunct2, THEN conjunct1]
      and D = facts [THEN conjunct2, THEN conjunct2, THEN conjunct2]
    let ?late = "talking ?ps3 \<and> (io_now s3 - ps_last_active ?ps3 > NOX_PEER_IDLE_TIMEOUT_SEC \<or>
      ps_recv_buf ?ps3 \<noteq> [] \<and> length (ps_recv_buf ?ps3) < RECV_BUF_CAPACITY \<and> io_now s3 - ps_last_active ?ps3 > NOX_HALFFRAME_TIMEOUT_SEC)"
    show ?thesis
    proof (cases ?late)
      case True
      then have "dropped (idle_timeout E i s3) i" using idle_timeout_slot [OF s3(2), of E] by simp
      moreover have "\<not> in_time (io_now st) ?ps" using True A s3(3) by (auto simp: in_time_def)
      ultimately show ?thesis using dropped_in_time eq by simp
    next
      case False
      then have "idle_timeout E i s3 = s3" using idle_timeout_slot [OF s3(2), of E] by (simp split: if_splits)
      moreover have "in_time (io_now st) ?ps3" using False B C s3(3) unfolding in_time_def by auto
      ultimately show ?thesis using D eq by simp
    qed
  qed
qed

text \<open>C24. Time limits. After the timeout pass of the event loop no connection is late: no handshake is
  older than 30 seconds, no prompt older than 120, no incoming file silent for more than 60, no
  conversation idle for more than an hour and none holds a partial frame for more than 60 seconds.
  A slot that was within its limits has not been touched. (An idle slot has no running transfer.)\<close>

theorem timeouts_enforced:
  assumes "length (as_peers st) = NOX_MAX_PEERS"
    and "\<forall>i < NOX_MAX_PEERS. ps_state (get_peer st i) = ST_IDLE \<longrightarrow> \<not> rx_active (ps_rx_file (get_peer st i))"
  shows "\<forall>i < NOX_MAX_PEERS. in_time (io_now st) (get_peer (check_timeouts E st) i) \<and>
    (in_time (io_now st) (get_peer st i) \<longrightarrow> get_peer (check_timeouts E st) i = get_peer st i)"
proof (intro allI impI)
  fix i assume i: "i < NOX_MAX_PEERS"
  obtain s where s: "get_peer s i = get_peer st i" "io_now s = io_now st" "length (as_peers s) = length (as_peers st)"
    "get_peer (check_timeouts E st) i = get_peer (peer_timeouts E i s) i"
    using foldl_slots [of "\<lambda>i st. peer_timeouts E i st" st NOX_MAX_PEERS] peer_timeouts_frame i
    unfolding check_timeouts_def by (metis (no_types, lifting))
  show "in_time (io_now st) (get_peer (check_timeouts E st) i) \<and>
    (in_time (io_now st) (get_peer st i) \<longrightarrow> get_peer (check_timeouts E st) i = get_peer st i)"
    using peer_timeouts_slot [of i s E] s i assms by simp
qed

text \<open>A handshake that never went on, and a conversation.\<close>

definition late_sys :: sys where
  "late_sys = upd_peer 1 (\<lambda>_. init_peer\<lparr>ps_state := ST_HANDSHAKE_RESP, ps_fd := 10, ps_handshake_start := 960\<rparr>)
     (upd_peer 0 (ps_last_active_update (\<lambda>_. 990)) talk_sys)"

theorem timeouts_enforced_witness:
  "get_peer (check_timeouts toy_env late_sys) 0 = get_peer late_sys 0 \<and> ps_state (get_peer (check_timeouts toy_env late_sys) 1) = ST_IDLE"
proof -
  have l: "length (as_peers late_sys) = NOX_MAX_PEERS" by code_simp
  have i: "\<forall>i < NOX_MAX_PEERS. ps_state (get_peer late_sys i) = ST_IDLE \<longrightarrow> \<not> rx_active (ps_rx_file (get_peer late_sys i))" by code_simp
  have t: "in_time (io_now late_sys) (get_peer late_sys 0)" by code_simp
  have s: "ps_state (get_peer (check_timeouts toy_env late_sys) 1) = ST_IDLE" by code_simp
  have "0 < NOX_MAX_PEERS" by (simp add: NOX_MAX_PEERS_def)
  with timeouts_enforced [OF l i, of toy_env] t s show ?thesis by blast
qed

section \<open>Incoming connections\<close>

lemma free_slotD:
  assumes "free_slot st = Some i"
  shows "i < NOX_MAX_PEERS" "ps_fd (get_peer st i) = -1" "ps_state (get_peer st i) = ST_IDLE"
  using assms by (auto simp: free_slot_def first_peer_def find_Some_iff)

lemma inbound_window_frame [simp]:
  "as_peers (inbound_window st) = as_peers st" "get_peer (inbound_window st) i = get_peer st i" "io_now (inbound_window st) = io_now st"
  "io_log (inbound_window st) = io_log st" "as_my_static_priv (inbound_window st) = as_my_static_priv st"
  "as_my_static_pub (inbound_window st) = as_my_static_pub st" "io_heap (inbound_window st) = io_heap st"
  by (simp_all add: inbound_window_def get_peer_def)

lemma fire_accepted:
  assumes "ps_state (get_peer st i) = ST_IDLE"
  shows "fire E i EV_PEER_ACCEPTED st = upd_peer i (ps_state_update (\<lambda>_. ST_HANDSHAKE_RESP)) st"
proof -
  have "sm_lookup ST_IDLE EV_PEER_ACCEPTED = Some (ST_HANDSHAKE_RESP, A_accept)" by (simp add: sm_lookup_def transitions_def)
  then show ?thesis using assms by (simp add: fire_def sm_dispatch_def sm_row_def run_action_def)
qed

text \<open>What has become of an incoming connection.\<close>

definition refused :: "int \<Rightarrow> sys \<Rightarrow> sys \<Rightarrow> bool" where
  "refused fd st st' \<longleftrightarrow> as_peers st' = as_peers st \<and> last (io_log st') = E_close fd \<and>
     as_hs_inbound_count st' = as_hs_inbound_count (inbound_window st) \<or> free_slot st = None \<and> st' = emit (E_close fd) st"

definition started :: "int \<Rightarrow> nat \<Rightarrow> sys \<Rightarrow> sys \<Rightarrow> bool" where
  "started fd i st st' \<longleftrightarrow> free_slot st = Some i \<and> keeps i st st' \<and>
     (\<exists>hs t. get_peer st' i = (get_peer st i)\<lparr>ps_fd := fd, ps_hs := Some hs, ps_handshake_start := t, ps_last_active := t,
        ps_state := ST_HANDSHAKE_RESP\<rparr>) \<and> as_my_static_priv st \<noteq> None \<and> as_my_static_pub st \<noteq> None \<and> as_hs_inbound_count (inbound_window st) < 5 \<and>
     as_hs_inbound_count st' = as_hs_inbound_count (inbound_window st) + 1 \<and> E_close fd \<notin> set (drop (length (io_log st)) (io_log st'))"

lemma upd_peer_id: "f (get_peer st i) = get_peer st i \<Longrightarrow> as_peers (upd_peer i f st) = as_peers st"
  by (simp add: upd_peer_def get_peer_def)

lemma reject_restores:
  assumes "as_peers s = (as_peers st)[i := (get_peer st i)\<lparr>ps_fd := fd, ps_hs := h\<rparr>]" "i < length (as_peers st)"
    and "ps_fd (get_peer st i) = -1" "ps_hs (get_peer st i) = None"
  shows "as_peers (reject_fd i fd (no_hs i s)) = as_peers st" "h = None \<Longrightarrow> as_peers (reject_fd i fd s) = as_peers st"
proof -
  have g: "(get_peer st i)\<lparr>ps_fd := -1, ps_hs := None\<rparr> = get_peer st i"
    "(get_peer st i)\<lparr>ps_hs := None, ps_fd := -1\<rparr> = get_peer st i"
    using assms(3,4) by (cases "get_peer st i", simp)+
  show "as_peers (reject_fd i fd (no_hs i s)) = as_peers st"
    using assms(1,2) g by (simp add: reject_fd_def no_hs_def upd_peer_def emit_def get_peer_def)
  show "as_peers (reject_fd i fd s) = as_peers st" if "h = None"
    using assms(1,2) g that by (simp add: reject_fd_def upd_peer_def emit_def get_peer_def)
qed

lemma reject_frame [simp]:
  "io_log (reject_fd i fd s) = io_log s @ [E_close fd]" "io_log (no_hs i s) = io_log s"
  "as_hs_inbound_count (reject_fd i fd s) = as_hs_inbound_count s" "as_hs_inbound_count (no_hs i s) = as_hs_inbound_count s"
  "as_hs_inbound_window_start (reject_fd i fd s) = as_hs_inbound_window_start s"
  "as_hs_inbound_window_start (no_hs i s) = as_hs_inbound_window_start s"
  by (simp_all add: reject_fd_def no_hs_def emit_def)

lemma accept_cases:
  assumes fd: "fd \<ge> 0" and l: "length (as_peers st) = NOX_MAX_PEERS"
    and idle: "\<forall>i < NOX_MAX_PEERS. ps_state (get_peer st i) = ST_IDLE \<longrightarrow> ps_hs (get_peer st i) = None"
  shows "(refused fd st (accept_peer E fd ok st) \<or> (\<exists>i. started fd i st (accept_peer E fd ok st))) \<and>
    as_hs_inbound_window_start (accept_peer E fd ok st) \<in> {as_hs_inbound_window_start st, as_hs_inbound_window_start (inbound_window st)}"
proof (cases "free_slot st")
  case None
  then show ?thesis using fd by (simp add: accept_peer_def refused_def emit_def)
next
  case (Some i)
  note fs = free_slotD [OF Some]
  have i: "i < length (as_peers st)" and h0: "ps_hs (get_peer st i) = None" using fs l idle by simp_all
  define s1 where "s1 = inbound_window st"
  define s2 where "s2 = upd_peer i (ps_fd_update (\<lambda>_. fd)) s1"
  obtain al s3 where m: "sys_malloc (emit (E_epoll_add fd) s2) = (al, s3)" by (rule prod.exhaust)
  have s3: "s3 = (emit (E_epoll_add fd) s2)\<lparr>io_heap := io_heap s3\<rparr>" using m by (auto simp: sys_malloc_def split: prod.splits)
  have p2: "as_peers s2 = (as_peers st)[i := (get_peer st i)\<lparr>ps_fd := fd, ps_hs := None\<rparr>]"
  proof -
    have "(get_peer st i)\<lparr>ps_fd := fd, ps_hs := None\<rparr> = (get_peer st i)\<lparr>ps_fd := fd\<rparr>" using h0 by (cases "get_peer st i") simp
    then show ?thesis by (simp add: s2_def s1_def upd_peer_def get_peer_def)
  qed
  have p3: "as_peers s3 = as_peers s2" "io_log s3 = io_log st @ [E_epoll_add fd]" "as_hs_inbound_count s3 = as_hs_inbound_count s1"
    "as_hs_inbound_window_start s3 = as_hs_inbound_window_start s1" "as_my_static_priv s3 = as_my_static_priv st"
    "as_my_static_pub s3 = as_my_static_pub st"
    by (subst s3, simp add: s2_def s1_def emit_def)+
  note rj = reject_restores [OF p2 i fs(2) h0] and rj3 = reject_restores(1) [OF trans [OF p3(1) p2] i fs(2) h0]
  have ref: ?thesis if "accept_peer E fd ok st \<in> {emit (E_close fd) s1, reject_fd i fd s2, reject_fd i fd (no_hs i s3)}"
  proof -
    have "as_peers (accept_peer E fd ok st) = as_peers st \<and> last (io_log (accept_peer E fd ok st)) = E_close fd \<and>
        as_hs_inbound_count (accept_peer E fd ok st) = as_hs_inbound_count s1 \<and>
        as_hs_inbound_window_start (accept_peer E fd ok st) = as_hs_inbound_window_start s1"
      using that rj(2) rj3 p3 by (auto simp: s1_def s2_def emit_def)
    then show ?thesis by (simp add: refused_def s1_def)
  qed
  show ?thesis
  proof (cases "as_hs_inbound_count s1 < 5 \<and> ok \<and> al \<and> as_my_static_priv st \<noteq> None \<and> as_my_static_pub st \<noteq> None")
    case False
    then have "accept_peer E fd ok st \<in> {emit (E_close fd) s1, reject_fd i fd s2, reject_fd i fd (no_hs i s3)}"
      unfolding accept_peer_def Some option.case Let_def s1_def [symmetric] s2_def [symmetric] m prod.case using fd p3(5,6)
      by (auto split: option.splits)
    then show ?thesis by (rule ref)
  next
    case True
    then obtain priv pub where k: "as_my_static_priv s3 = Some priv" "as_my_static_pub s3 = Some pub" using p3 by auto
    define s4 where "s4 = (upd_peer i (\<lambda>ps. ps\<lparr>ps_hs := Some (handshake_init (ne_sodium E) False priv pub),
        ps_handshake_start := io_now s3, ps_last_active := io_now s3\<rparr>) s3)\<lparr>as_hs_inbound_count := as_hs_inbound_count s3 + 1\<rparr>"
    have i3: "i < length (as_peers s3)" using p3(1) p2 i by simp
    have g3: "get_peer s3 i = (get_peer st i)\<lparr>ps_fd := fd, ps_hs := None\<rparr>" using p3(1) p2 i by (simp add: get_peer_def)
    have i4: "ps_state (get_peer s4 i) = ST_IDLE" "ps_fd (get_peer s4 i) = fd" "i < length (as_peers s4)"
      using i3 g3 fs(3) by (simp_all add: s4_def get_peer_def upd_peer_def)
    have g4: "get_peer s4 i = (get_peer st i)\<lparr>ps_fd := fd, ps_hs := Some (handshake_init (ne_sodium E) False priv pub),
        ps_handshake_start := io_now s3, ps_last_active := io_now s3\<rparr>"
      using i3 g3 by (simp add: s4_def get_peer_def upd_peer_def)
    define s5 where "s5 = upd_peer i (ps_state_update (\<lambda>_. ST_HANDSHAKE_RESP)) s4"
    have eq: "accept_peer E fd ok st = (if as_active_peer_idx s5 < 0 then s5\<lparr>as_active_peer_idx := int i\<rparr> else s5)"
      unfolding accept_peer_def Some option.case Let_def s1_def [symmetric] s2_def [symmetric] m prod.case k s5_def
      using fd True fire_accepted [OF i4(1), of E] by (simp add: s4_def)
    have kp: "keeps i st s3" using p3(1) p2 by (simp add: keeps_def get_peer_def)
    then have k5: "keeps i st s5" by (simp add: s5_def s4_def keeps_upd_peer keeps_def get_peer_def upd_peer_def)
    have g5: "\<exists>hs t. get_peer s5 i = (get_peer st i)\<lparr>ps_fd := fd, ps_hs := Some hs, ps_handshake_start := t, ps_last_active := t,
        ps_state := ST_HANDSHAKE_RESP\<rparr>"
      using g4 i4(3) by (auto simp: s5_def)
    have "started fd i st s5 \<and> as_hs_inbound_window_start s5 = as_hs_inbound_window_start s1"
      unfolding started_def using True Some k5 p3 g5 by (simp add: s5_def s4_def s1_def)
    moreover have "started fd i st (s5\<lparr>as_active_peer_idx := x\<rparr>) = started fd i st s5" for x
      by (simp add: started_def keeps_def get_peer_def)
    ultimately show ?thesis unfolding eq by (auto simp: s1_def)
  qed
qed

text \<open>C25. Incoming connections are limited. A connection that \<open>accept4\<close> returned is either refused,
  its descriptor closed and every slot left as it was, or it starts a handshake in one slot that was
  free, the others untouched; and that only when the static keys are present and fewer than five
  handshakes have started in the current window. The counter never exceeds five, and it starts over
  only when at least 60 seconds have passed since the window began.\<close>

theorem accept_limited:
  assumes "fd \<ge> 0" "length (as_peers st) = NOX_MAX_PEERS" "as_hs_inbound_count st \<le> 5"
    and "\<forall>i < NOX_MAX_PEERS. ps_state (get_peer st i) = ST_IDLE \<longrightarrow> ps_hs (get_peer st i) = None"
  shows "(refused fd st (accept_peer E fd ok st) \<or> (\<exists>i. started fd i st (accept_peer E fd ok st))) \<and>
    as_hs_inbound_count (accept_peer E fd ok st) \<le> 5 \<and>
    (as_hs_inbound_window_start (accept_peer E fd ok st) = as_hs_inbound_window_start st \<or>
     io_now st - as_hs_inbound_window_start st \<ge> 60 \<and> as_hs_inbound_window_start (accept_peer E fd ok st) = io_now st)"
proof -
  note c = accept_cases [OF assms(1,2,4), of E ok]
  have w: "as_hs_inbound_count (inbound_window st) \<le> 5" using assms(3) by (simp add: inbound_window_def)
  have "as_hs_inbound_count (accept_peer E fd ok st) \<le> 5"
    using c w assms(3) by (auto simp: refused_def started_def emit_def)
  moreover have "as_hs_inbound_window_start (inbound_window st) = as_hs_inbound_window_start st \<or>
      io_now st - as_hs_inbound_window_start st \<ge> 60 \<and> as_hs_inbound_window_start (inbound_window st) = io_now st"
    by (simp add: inbound_window_def)
  ultimately show ?thesis using c by auto
qed

theorem accept_limited_witness:
  "started 9 0 toy_sys (accept_peer toy_env 9 True toy_sys) \<and>
   refused 9 (toy_sys\<lparr>as_hs_inbound_count := 5, as_hs_inbound_window_start := 990\<rparr>)
     (accept_peer toy_env 9 True (toy_sys\<lparr>as_hs_inbound_count := 5, as_hs_inbound_window_start := 990\<rparr>))"
proof -
  let ?full = "toy_sys\<lparr>as_hs_inbound_count := 5, as_hs_inbound_window_start := 990\<rparr>"
  have p: "ps_hs (get_peer s i) = None" if "as_peers s = as_peers toy_sys" "i < NOX_MAX_PEERS" for s i
    using that by (simp add: get_peer_def init_peer_def)
  have a: "ps_state (get_peer (accept_peer toy_env 9 True toy_sys) 0) = ST_HANDSHAKE_RESP" by code_simp
  have b: "ps_state (get_peer (accept_peer toy_env 9 True ?full) 0) = ST_IDLE" by code_simp
  have f: "free_slot toy_sys = Some 0" "free_slot ?full = Some 0" by code_simp+
  have "ps_state (get_peer toy_sys 0) = ST_IDLE" by code_simp
  then have na: "\<not> refused 9 toy_sys (accept_peer toy_env 9 True toy_sys)"
    using a f by (auto simp: refused_def get_peer_def)
  have nb: "\<not> started 9 i ?full (accept_peer toy_env 9 True ?full)" for i using b f by (auto simp: started_def)
  have "refused 9 toy_sys (accept_peer toy_env 9 True toy_sys) \<or> (\<exists>i. started 9 i toy_sys (accept_peer toy_env 9 True toy_sys))"
    using accept_limited [of 9 toy_sys toy_env True] p by (simp add: toy_sys_def)
  moreover have "refused 9 ?full (accept_peer toy_env 9 True ?full) \<or> (\<exists>i. started 9 i ?full (accept_peer toy_env 9 True ?full))"
    using accept_limited [of 9 ?full toy_env True] p by (simp add: toy_sys_def)
  ultimately show ?thesis using na nb f(1) by (auto simp: started_def)
qed

end
