(* ===== verification/Nox_Socks.thy ===== *)
theory Nox_Socks
  imports Nox_Peer
begin

text \<open>
  Dialling through Tor, \<open>socks5_connect\<close> of \<^verbatim>\<open>src/network.c\<close>: the SOCKS5 exchange on the Unix socket of
  the local Tor process. The answers of the kernel are a record of sequences; the bytes written and
  the descriptors closed are the effects of the result, next to the bytes that were read. A call that
  is still waiting when the answers end has not returned (\<open>None\<close>).
\<close>

section \<open>The exchange\<close>

definition NOX_VIRTUAL_PORT :: "16 word" where "NOX_VIRTUAL_PORT = 9876"
definition SUN_PATH_LEN :: nat where "SUN_PATH_LEN = 108"

text \<open>Answers of \<open>socket\<close>, \<open>connect\<close>, the writes, the reads, \<open>F_GETFL\<close> and \<open>F_SETFL\<close>.\<close>

record socks_io =
  sk_socket :: int
  sk_connect :: bool
  sk_writes :: "write_ans list"
  sk_reads :: "read_round list"
  sk_getfl :: int
  sk_setfl :: bool

record socks_result =
  so_err :: nox_err_t
  so_fd :: "int option"
  so_log :: "effect list"
  so_read :: bytes

definition socks_fail :: "nox_err_t \<Rightarrow> int \<Rightarrow> effect list \<Rightarrow> bytes \<Rightarrow> socks_result option" where
  "socks_fail err fd log got = Some \<lparr>so_err = err, so_fd = None, so_log = log @ [E_close fd], so_read = got\<rparr>"

definition socks_request :: "bytes \<Rightarrow> 16 word \<Rightarrow> bytes" where
  "socks_request onion_addr port =
     [5, 1, 0, 3, of_nat (length onion_addr)] @ onion_addr @ [ucast (drop_bit 8 port), ucast (port AND 0xFF)]"

text \<open>The rest of the reply is read and dropped, then the socket is made non-blocking.\<close>

definition socks_drain :: "socks_io \<Rightarrow> int \<Rightarrow> nat \<Rightarrow> read_round list \<Rightarrow> effect list \<Rightarrow> bytes \<Rightarrow> socks_result option" where
  "socks_drain io fd drain_len rs log got =
     (case read_full rs drain_len of None \<Rightarrow> None
      | Some (err, drain, rs) \<Rightarrow>
        if err \<noteq> NOX_OK then socks_fail NOX_ERR_NET fd log (got @ drain)
        else if sk_getfl io < 0 then socks_fail NOX_ERR_NET fd log (got @ drain)
        else if \<not> sk_setfl io then socks_fail NOX_ERR_NET fd log (got @ drain)
        else Some \<lparr>so_err = NOX_OK, so_fd = Some fd, so_log = log, so_read = got @ drain\<rparr>)"

definition socks_response :: "socks_io \<Rightarrow> int \<Rightarrow> read_round list \<Rightarrow> effect list \<Rightarrow> bytes \<Rightarrow> socks_result option" where
  "socks_response io fd rs log got =
     (case read_full rs 4 of None \<Rightarrow> None
      | Some (err, sresp, rs) \<Rightarrow>
        let got = got @ sresp in
        if err \<noteq> NOX_OK then socks_fail NOX_ERR_NET fd log got
        else if sresp ! 0 \<noteq> 5 \<or> sresp ! 1 \<noteq> 0 then socks_fail NOX_ERR_NET fd log got
        else if sresp ! 3 = 1 then socks_drain io fd (4 + 2) rs log got
        else if sresp ! 3 = 4 then socks_drain io fd (16 + 2) rs log got
        else if sresp ! 3 = 3
        then (case read_full rs 1 of None \<Rightarrow> None
              | Some (err, dlen, rs) \<Rightarrow>
                if err \<noteq> NOX_OK then socks_fail NOX_ERR_NET fd log (got @ dlen)
                else socks_drain io fd (unat (dlen ! 0) + 2) rs log (got @ dlen))
        else socks_fail NOX_ERR_NET fd log got)"

definition socks5_connect :: "onion_crypto \<Rightarrow> socks_io \<Rightarrow> bytes \<Rightarrow> 16 word \<Rightarrow> bytes \<Rightarrow> socks_result option" where
  "socks5_connect C io onion_addr port socks_path =
     (let fd = sk_socket io in
      if fd < 0 then Some \<lparr>so_err = NOX_ERR_NET, so_fd = None, so_log = [], so_read = []\<rparr>
      else if length socks_path \<ge> SUN_PATH_LEN then socks_fail NOX_ERR_CONFIG fd [] []
      else if \<not> sk_connect io then socks_fail NOX_ERR_NET fd [] []
      else case write_full (sk_writes io) [5, 1, 0] of None \<Rightarrow> None
      | Some (err, out, ws) \<Rightarrow>
        let log = [E_wire fd out] in
        if err \<noteq> NOX_OK then socks_fail NOX_ERR_IO fd log []
        else case read_full (sk_reads io) 2 of None \<Rightarrow> None
        | Some (err, gresp, rs) \<Rightarrow>
          if err \<noteq> NOX_OK \<or> gresp ! 0 \<noteq> 5 \<or> gresp ! 1 \<noteq> 0 then socks_fail NOX_ERR_NET fd log gresp
          else if \<not> validate_onion_address C onion_addr then socks_fail NOX_ERR_NET fd log gresp
          else case write_full ws (socks_request onion_addr port) of None \<Rightarrow> None
          | Some (err, out, ws) \<Rightarrow>
            let log = log @ [E_wire fd out] in
            if err \<noteq> NOX_OK then socks_fail NOX_ERR_IO fd log gresp
            else socks_response io fd rs log gresp)"

section \<open>What it promises\<close>

text \<open>The replies of a SOCKS5 proxy that grant the request: the greeting, then the header with an
  address of the announced kind and a port.\<close>

definition socks_grant :: "bytes \<Rightarrow> bool" where
  "socks_grant bs \<longleftrightarrow> (\<exists>rsv rest. (length rest = 6 \<and> bs = [5, 0, 5, 0, rsv, 1] @ rest) \<or>
     (length rest = 18 \<and> bs = [5, 0, 5, 0, rsv, 4] @ rest) \<or>
     (\<exists>n. length rest = unat n + 2 \<and> bs = [5, 0, 5, 0, rsv, 3, n] @ rest))"

text \<open>A failed call: no descriptor is handed out, the socket (if there was one) is closed once, at the
  end, and what was written before is part of the protocol.\<close>

definition socks_failed :: "socks_io \<Rightarrow> bytes \<Rightarrow> socks_result \<Rightarrow> bool" where
  "socks_failed io sent r \<longleftrightarrow> so_err r \<noteq> NOX_OK \<and> so_fd r = None \<and>
     (if sk_socket io < 0 then so_log r = []
      else \<exists>ws. so_log r = map (E_wire (sk_socket io)) ws @ [E_close (sk_socket io)] \<and> (\<exists>rem. sent = concat ws @ rem))"

definition socks_done :: "socks_io \<Rightarrow> bytes \<Rightarrow> socks_result \<Rightarrow> bool" where
  "socks_done io sent r \<longleftrightarrow> so_err r = NOX_OK \<and> so_fd r = Some (sk_socket io) \<and> sk_socket io \<ge> 0 \<and>
     (\<exists>ws. so_log r = map (E_wire (sk_socket io)) ws \<and> sent = concat ws)"

lemma socks_failI:
  assumes "sk_socket io \<ge> 0" "log = map (E_wire (sk_socket io)) ws" "sent = concat ws @ rem" "err \<noteq> NOX_OK"
    and "socks_fail err (sk_socket io) log got = Some r"
  shows "socks_failed io sent r"
  using assms by (auto simp: socks_fail_def socks_failed_def)

lemma nth_4:
  assumes "length xs = 4"
  shows "xs = [xs ! 0, xs ! 1, xs ! 2, xs ! 3]"
  using assms by (auto simp: numeral_eq_Suc length_Suc_conv)

lemma socks_drain_cases:
  assumes s: "sk_socket io \<ge> 0" and l: "log = map (E_wire (sk_socket io)) ws"
    and r: "socks_drain io (sk_socket io) n rs log got = Some r"
  shows "socks_failed io (concat ws) r \<or> socks_done io (concat ws) r \<and> (\<exists>d. length d = n \<and> so_read r = got @ d)"
proof -
  obtain err d rs' where d: "read_full rs n = Some (err, d, rs')" using r by (auto simp: socks_drain_def split: option.splits)
  have "length d = n" if "err = NOX_OK" using read_full_exact [OF d] that by simp
  then show ?thesis
    using r d socks_failI [OF s l, of "concat ws" "[]"] by (auto simp: socks_drain_def socks_done_def s l split: if_splits)
qed

lemma socks_response_cases:
  assumes s: "sk_socket io \<ge> 0" and l: "log = map (E_wire (sk_socket io)) ws"
    and r: "socks_response io (sk_socket io) rs log [5, 0] = Some r"
  shows "socks_failed io (concat ws) r \<or> socks_done io (concat ws) r \<and> socks_grant (so_read r)"
proof -
  obtain err d rs1 where d: "read_full rs 4 = Some (err, d, rs1)" using r by (auto simp: socks_response_def Let_def split: option.splits)
  note F = socks_failI [OF s l, of "concat ws" "[]" NOX_ERR_NET]
  show ?thesis
  proof (cases "err = NOX_OK \<and> d ! 0 = 5 \<and> d ! 1 = 0 \<and> d ! 3 \<in> {1, 3, 4}")
    case False
    then have "\<exists>got. socks_fail NOX_ERR_NET (sk_socket io) log got = Some r" using r d by (auto simp: socks_response_def Let_def split: if_splits)
    then show ?thesis using F by auto
  next
    case c: True
    obtain rsv kind where d4: "d = [5, 0, rsv, kind]" using nth_4 [of d] read_full_exact [OF d] c by auto
    consider (v4) "kind = 1" | (v6) "kind = 4" | (dom) "kind = 3" using c d4 by auto
    then show ?thesis
    proof cases
      case v4
      then have "socks_drain io (sk_socket io) 6 rs1 log ([5, 0] @ d) = Some r" using r d c d4 by (simp add: socks_response_def Let_def)
      from socks_drain_cases [OF s l this] show ?thesis using d4 v4 by (auto simp: socks_grant_def)
    next
      case v6
      then have "socks_drain io (sk_socket io) 18 rs1 log ([5, 0] @ d) = Some r" using r d c d4 by (simp add: socks_response_def Let_def)
      from socks_drain_cases [OF s l this] show ?thesis using d4 v6 by (auto simp: socks_grant_def)
    next
      case dom
      obtain err2 dl rs2 where dl: "read_full rs1 1 = Some (err2, dl, rs2)"
        using r d dom c d4 by (auto simp: socks_response_def Let_def split: option.splits)
      show ?thesis
      proof (cases "err2 = NOX_OK")
        case False
        then show ?thesis using r d dl dom False F c d4 by (simp add: socks_response_def Let_def)
      next
        case True
        then obtain n where n: "dl = [n]" using read_full_exact [OF dl] by (auto simp: length_Suc_conv)
        have "socks_drain io (sk_socket io) (unat n + 2) rs2 log ([5, 0] @ d @ [n]) = Some r"
          using r d dl n dom True c d4
          by (simp add: socks_response_def Let_def)
        from socks_drain_cases [OF s l this] show ?thesis using d4 dom by (auto simp: socks_grant_def)
      qed
    qed
  qed
qed

text \<open>The call up to the reply of the proxy to the request.\<close>

lemma socks5_connect_cases:
  assumes r: "socks5_connect C io a port path = Some r"
  shows "socks_failed io ([5, 1, 0] @ socks_request a port) r \<or>
    validate_onion_address C a \<and> socks_done io ([5, 1, 0] @ socks_request a port) r \<and> socks_grant (so_read r)"
proof (cases "sk_socket io \<ge> 0 \<and> length path < SUN_PATH_LEN \<and> sk_connect io")
  case False
  show ?thesis
  proof (cases "sk_socket io < 0")
    case True
    then show ?thesis using r by (auto simp: socks5_connect_def socks_failed_def Let_def)
  next
    case s: False
    then have "\<exists>e. e \<noteq> NOX_OK \<and> socks_fail e (sk_socket io) [] [] = Some r"
      using False r by (auto simp: socks5_connect_def Let_def split: if_splits)
    then show ?thesis using s socks_failI [of io "[]" "[]" _ "[5, 1, 0] @ socks_request a port"] by auto
  qed
next
  case True
  then have s: "sk_socket io \<ge> 0" by simp
  note F = socks_failI [OF s, of _ _ "[5, 1, 0] @ socks_request a port"]
  obtain err w ws where w: "write_full (sk_writes io) [5, 1, 0] = Some (err, w, ws)"
    using r True by (auto simp: socks5_connect_def Let_def split: option.splits)
  have pw: "\<exists>x. [5, 1, 0] = w @ x" "err = NOX_OK \<Longrightarrow> w = [5, 1, 0]" using write_full_prefix [OF w] by auto
  show ?thesis
  proof (cases "err = NOX_OK")
    case False
    obtain x where "[5, 1, 0] = w @ x" using pw(1) by blast
    then show ?thesis
      using F [of "[E_wire (sk_socket io) w]" "[w]" "x @ socks_request a port" NOX_ERR_IO "[]" r] r True w False
      by (simp add: socks5_connect_def Let_def)
  next
    case ok: True
    obtain err2 g rs where g: "read_full (sk_reads io) 2 = Some (err2, g, rs)"
      using r True w ok by (auto simp: socks5_connect_def Let_def split: option.splits)
    have fail: ?thesis if "socks_fail e (sk_socket io) [E_wire (sk_socket io) [5, 1, 0]] got = Some r" "e \<noteq> NOX_OK" for e got
      using F [of _ "[[5, 1, 0]]" "socks_request a port" e got r] that by simp
    show ?thesis
    proof (cases "err2 = NOX_OK \<and> g ! 0 = 5 \<and> g ! 1 = 0 \<and> validate_onion_address C a")
      case False
      then have "\<exists>got. socks_fail NOX_ERR_NET (sk_socket io) [E_wire (sk_socket io) [5, 1, 0]] got = Some r"
        using r True w ok g pw(2) by (auto simp: socks5_connect_def Let_def split: if_splits)
      then show ?thesis using fail by blast
    next
      case v: True
      have g2: "g = [5, 0]" using read_full_exact [OF g] v by (auto simp: numeral_eq_Suc length_Suc_conv)
      obtain err3 q ws2 where q: "write_full ws (socks_request a port) = Some (err3, q, ws2)"
        using r True w ok g v by (auto simp: socks5_connect_def Let_def split: option.splits)
      let ?log = "[E_wire (sk_socket io) [5, 1, 0], E_wire (sk_socket io) q]"
      have tail: "(if err3 \<noteq> NOX_OK then socks_fail NOX_ERR_IO (sk_socket io) ?log g
          else socks_response io (sk_socket io) rs ?log g) = Some r"
        using r True w ok g v q pw(2) by (simp add: socks5_connect_def Let_def)
      show ?thesis
      proof (cases "err3 = NOX_OK")
        case False
        obtain x where "socks_request a port = q @ x" using write_full_prefix [OF q] by blast
        then show ?thesis using F [of ?log "[[5, 1, 0], q]" x NOX_ERR_IO g r] tail False by simp
      next
        case True
        then have "q = socks_request a port" using write_full_prefix [OF q] by simp
        then show ?thesis
          using socks_response_cases [OF s, of ?log "[[5, 1, 0], q]" rs r] tail True g2 v by simp
      qed
    qed
  qed
qed

text \<open>C26. Dialling. Whatever the kernel and the proxy answer, a call of \<open>socks5_connect\<close> that returns
  either reports an error, hands out no descriptor, has closed its socket exactly once and has written
  no more than a prefix of the exchange; or it hands out its socket, and then the address was a valid
  v3 onion address, the bytes written are exactly the greeting and the request for that name and
  port, and the bytes read are exactly the grant of the proxy: the next byte on the socket is the
  first one of the peer. And when the proxy grants the request and everything else works, the call
  does return with the socket.\<close>

theorem socks_connect_exact:
  "(\<forall>r. socks5_connect C io a port path = Some r \<longrightarrow>
      socks_failed io ([5, 1, 0] @ socks_request a port) r \<or>
      validate_onion_address C a \<and> socks_done io ([5, 1, 0] @ socks_request a port) r \<and> socks_grant (so_read r)) \<and>
   (validate_onion_address C a \<and> length path < SUN_PATH_LEN \<and> fd \<ge> 0 \<and> fl \<ge> 0 \<and> socks_grant bs \<longrightarrow>
      (\<exists>log. socks5_connect C \<lparr>sk_socket = fd, sk_connect = True, sk_writes = [W_ok 3, W_ok 70],
           sk_reads = drip bs, sk_getfl = fl, sk_setfl = True\<rparr> a port path =
         Some \<lparr>so_err = NOX_OK, so_fd = Some fd, so_log = log, so_read = bs\<rparr>))"
proof -
  let ?io = "\<lparr>sk_socket = fd, sk_connect = True, sk_writes = [W_ok 3, W_ok 70], sk_reads = drip bs, sk_getfl = fl, sk_setfl = True\<rparr>"
  have "\<exists>log. socks5_connect C ?io a port path = Some \<lparr>so_err = NOX_OK, so_fd = Some fd, so_log = log, so_read = bs\<rparr>"
    if a: "validate_onion_address C a" and p: "length path < SUN_PATH_LEN" "fd \<ge> 0" "fl \<ge> 0" and g: "socks_grant bs"
  proof -
    have la: "length a = 62" using a by (auto simp: validate_onion_address_def crypto_onion_pubkey_def NOX_ONION_LEN_def split: if_splits)
    then have w: "write_full [W_ok 70] (socks_request a port) = Some (NOX_OK, socks_request a port, [])"
      by (simp add: socks_request_def)
    have rd: "read_full (drip (xs @ ys)) n = Some (NOX_OK, xs, drip ys)" if "n = length xs" for xs ys n
      using read_full_drip [of n "xs @ ys" "[]"] that by simp
    obtain kind rsv rest where b: "bs = [5, 0] @ [5, 0, rsv, kind] @ rest"
      and k: "kind = 1 \<and> length rest = 6 \<or> kind = 4 \<and> length rest = 18 \<or> kind = 3 \<and> (\<exists>n t. rest = [n] @ t \<and> length t = unat n + 2)"
      using g unfolding socks_grant_def by fastforce
    note steps = socks5_connect_def socks_response_def socks_drain_def Let_def
    have h: "read_full (drip bs) 2 = Some (NOX_OK, [5, 0], drip ([5, 0, rsv, kind] @ rest))"
      "read_full (drip ([5, 0, rsv, kind] @ rest)) 4 = Some (NOX_OK, [5, 0, rsv, kind], drip rest)"
      "read_full (drip rest) (length rest) = Some (NOX_OK, rest, drip [])"
      using rd [of 2 "[5, 0]" "[5, 0, rsv, kind] @ rest"] rd [of 4 "[5, 0, rsv, kind]" rest] rd [of _ rest "[]"] b by simp_all
    consider "kind = 1" "length rest = 6" | "kind = 4" "length rest = 18" | n t where "kind = 3" "rest = [n] @ t" "length t = unat n + 2"
      using k by blast
    then show ?thesis
    proof cases
      case 3
      then have "read_full (drip rest) 1 = Some (NOX_OK, [n], drip t)" "read_full (drip t) (unat n + 2) = Some (NOX_OK, t, drip [])"
        using rd [of 1 "[n]" t] rd [of _ t "[]"] by simp_all
      then show ?thesis using a p w h(1,2) 3 b by (simp add: steps)
    qed (use a p w h b in \<open>simp_all add: steps\<close>)
  qed
  then show ?thesis using socks5_connect_cases by blast
qed

theorem socks_connect_exact_witness:
  "\<exists>log. socks5_connect toy_onion \<lparr>sk_socket = 7, sk_connect = True, sk_writes = [W_ok 3, W_ok 70],
       sk_reads = drip [5, 0, 5, 0, 0, 1, 0, 0, 0, 0, 0, 0], sk_getfl = 0, sk_setfl = True\<rparr> demo_addr NOX_VIRTUAL_PORT [47] =
     Some \<lparr>so_err = NOX_OK, so_fd = Some 7, so_log = log, so_read = [5, 0, 5, 0, 0, 1, 0, 0, 0, 0, 0, 0]\<rparr>"
proof -
  have "socks_grant [5, 0, 5, 0, 0, 1, 0, 0, 0, 0, 0, 0]"
    unfolding socks_grant_def by (intro exI [of _ 0] exI [of _ "[0, 0, 0, 0, 0, 0]"]) simp
  moreover have "validate_onion_address toy_onion demo_addr" by (simp add: validate_onion_address_def demo_addr_pubkey)
  ultimately show ?thesis
    using socks_connect_exact [of toy_onion undefined demo_addr NOX_VIRTUAL_PORT "[47]" 7 0 "[5, 0, 5, 0, 0, 1, 0, 0, 0, 0, 0, 0]"]
    by (simp add: SUN_PATH_LEN_def)
qed

end
