(* ===== verification/Nox_Command.thy ===== *)
theory Nox_Command
  imports Nox_Frames Nox_Event Nox_Socks
begin

text \<open>
  The user's lines, \<open>process_line\<close> of \<^verbatim>\<open>src/stdin_handler.c\<close>: the answer to a TOFU prompt, the slash
  commands and plain messages. A line is a C string: a list of bytes without NUL. Dialling can keep
  the caller waiting, so the result is an option. What is only printed is not modelled.
\<close>

section \<open>Strings\<close>

definition ascii_lower :: "byte \<Rightarrow> byte" where
  "ascii_lower c = (if 65 \<le> c \<and> c \<le> 90 then c + 32 else c)"

definition strcasecmp_eq :: "bytes \<Rightarrow> string \<Rightarrow> bool" where
  "strcasecmp_eq line s \<longleftrightarrow> map ascii_lower line = str_bytes s"

definition starts_with :: "string \<Rightarrow> bytes \<Rightarrow> bool" where
  "starts_with s line \<longleftrightarrow> take (length s) line = str_bytes s"

definition skip_spaces :: "bytes \<Rightarrow> bytes" where
  "skip_spaces s = dropWhile (\<lambda>c. c = 32) s"

definition slash_count :: "bytes \<Rightarrow> nat" where
  "slash_count line = length (takeWhile (\<lambda>c. c = ascii_slash) line)"

text \<open>The argument \<open><onion> <text>\<close> of \<^verbatim>\<open>/add\<close> and \<^verbatim>\<open>/msg\<close>.\<close>

definition onion_and_text :: "bytes \<Rightarrow> (bytes \<times> bytes) option" where
  "onion_and_text arg =
     (let p = skip_spaces arg; onion = takeWhile (\<lambda>c. c \<noteq> 32) p; p = dropWhile (\<lambda>c. c \<noteq> 32) p in
      if length onion \<noteq> NOX_ONION_LEN \<or> p = [] then None
      else if \<not> validate_onion_input onion then None
      else let txt = skip_spaces p in if txt = [] then None else Some (onion, txt))"

section \<open>The world\<close>

text \<open>Answers of the kernel to one line: the dial through the proxy and the path of its socket, the
  clock when it returns, \<open>epoll_add_fd\<close>, and the file of \<^verbatim>\<open>/file\<close>.\<close>

record cmd_io =
  ci_socks :: socks_io
  ci_socks_path :: bytes
  ci_connected_at :: int
  ci_epoll_ok :: bool
  ci_file :: src_file

section \<open>Contacts and messages\<close>

definition cmd_add :: "nox_env \<Rightarrow> bytes \<Rightarrow> sys \<Rightarrow> sys" where
  "cmd_add E arg st =
     (if as_ghost_mode st then st
      else case onion_and_text arg of None \<Rightarrow> st
      | Some (onion, name) \<Rightarrow>
        if length name > NOX_CONTACT_NAME_LEN then st
        else if list_ex (\<lambda>c. c = 10 \<or> c = 13 \<or> c = 27) name then st
        else case next_nonce st of (n, st) \<Rightarrow>
          st\<lparr>io_db := snd (db_add_contact (ne_box E) (ne_sql E) n (io_db st) onion name (zeros NOX_KEY_LEN))\<rparr>)"

definition show_sent :: "bytes \<Rightarrow> nox_err_t \<times> sys \<Rightarrow> sys" where
  "show_sent msg r = (case r of (err, st) \<Rightarrow> if err = NOX_OK then ui_print_outgoing msg st else st)"

definition online :: "sys \<Rightarrow> nat option \<Rightarrow> bool" where
  "online st p \<longleftrightarrow> (case p of None \<Rightarrow> False | Some i \<Rightarrow> ps_session (get_peer st i) \<noteq> None \<and> ps_fd (get_peer st i) \<ge> 0)"

definition cmd_msg :: "nox_env \<Rightarrow> bytes \<Rightarrow> sys \<Rightarrow> sys" where
  "cmd_msg E arg st =
     (case onion_and_text arg of None \<Rightarrow> st
      | Some (onion, msg) \<Rightarrow>
        let target = find_peer_by_name_or_onion E onion st in
        if online st target then show_sent msg (send_segmented_message_to E target msg st)
        else if as_ghost_mode st then st
        else snd (queue_segmented_message E onion msg st))"

section \<open>Dialling\<close>

definition outbound_window :: "sys \<Rightarrow> sys" where
  "outbound_window st =
     (if io_now st - as_hs_window_start st \<ge> 60 then st\<lparr>as_hs_attempt_count := 0, as_hs_window_start := io_now st\<rparr> else st)"

text \<open>The dial is undone: the socket is closed and the slot forgets the target.\<close>

definition undo_dial :: "nat \<Rightarrow> int \<Rightarrow> sys \<Rightarrow> sys" where
  "undo_dial i fd st =
     upd_peer i (\<lambda>ps. ps\<lparr>ps_fd := -1, ps_peer_onion := [], ps_connect_target := []\<rparr>) (emit (E_close fd) st)"

text \<open>The first handshake message.\<close>

definition send_msg0 :: "nox_env \<Rightarrow> nat \<Rightarrow> int \<Rightarrow> bytes \<Rightarrow> noise_handshake \<Rightarrow> sys \<Rightarrow> sys" where
  "send_msg0 E i fd target hs st =
     (case next_key st of (kp, st) \<Rightarrow>
      case handshake_write (ne_sodium E) kp hs None NOISE_MAX_HANDSHAKE_LEN (io_heap st) of (err, hs, out, al) \<Rightarrow>
      let st = upd_peer i (ps_hs_update (\<lambda>_. Some hs)) (st\<lparr>io_heap := al\<rparr>) in
      if err \<noteq> NOX_OK then fire E i EV_HANDSHAKE_ERROR st
      else let wire = frame_bytes NOX_MSG_CTRL (ps_tx_seq (get_peer st i)) out in
      case sys_writev fd wire st of (written, st) \<Rightarrow>
      if written \<noteq> int (length wire) then fire E i EV_HANDSHAKE_ERROR st
      else (upd_peer i (\<lambda>ps. ps\<lparr>ps_tx_seq := ps_tx_seq ps + 1, ps_last_active := io_now st\<rparr>) st)
             \<lparr>as_active_peer_idx := int i, as_active_peer_onion := take NOX_ONION_LEN target\<rparr>)"

definition dialled :: "nox_env \<Rightarrow> cmd_io \<Rightarrow> nat \<Rightarrow> int \<Rightarrow> bytes \<Rightarrow> sys \<Rightarrow> sys" where
  "dialled E io i fd target st =
     (let st = upd_peer i (\<lambda>ps. ps\<lparr>ps_fd := fd, ps_peer_onion := take NOX_ONION_LEN target,
                 ps_connect_target := take NOX_ONION_LEN target\<rparr>) st in
      if \<not> ci_epoll_ok io then undo_dial i fd st
      else case sys_malloc (emit (E_epoll_add fd) st) of (ok, st) \<Rightarrow>
      if \<not> ok then undo_dial i fd (no_hs i st)
      else case (as_my_static_priv st, as_my_static_pub st) of
        (Some priv, Some pub) \<Rightarrow>
          let hs = handshake_init (ne_sodium E) True priv pub;
              st = upd_peer i (\<lambda>ps. ps\<lparr>ps_hs := Some hs, ps_handshake_start := io_now st, ps_last_active := io_now st\<rparr>) st
          in (case sm_dispatch E i EV_CONNECT_CMD st of (err, st) \<Rightarrow>
              if err \<noteq> NOX_OK then undo_dial i fd (no_hs i st) else send_msg0 E i fd target hs st)
      | _ \<Rightarrow> undo_dial i fd (no_hs i st))"

definition cmd_connect :: "nox_env \<Rightarrow> cmd_io \<Rightarrow> bytes \<Rightarrow> sys \<Rightarrow> sys option" where
  "cmd_connect E io arg st =
     (let target = skip_spaces arg in
      if \<not> validate_onion_input target then Some st
      else if target = as_onion_addr st then Some st
      else case free_slot st of None \<Rightarrow> Some st
      | Some i \<Rightarrow>
        if list_ex (\<lambda>j. j \<noteq> i \<and> ps_fd (get_peer st j) \<ge> 0 \<and> ps_peer_onion (get_peer st j) = target) [0..<NOX_MAX_PEERS]
        then Some st
        else let st = outbound_window st in
        if as_hs_attempt_count st \<ge> 5 then Some st
        else let st = st\<lparr>as_hs_attempt_count := as_hs_attempt_count st + 1\<rparr> in
        case socks5_connect (ne_onion E) (ci_socks io) target NOX_VIRTUAL_PORT (ci_socks_path io) of None \<Rightarrow> None
        | Some r \<Rightarrow>
          let st = st\<lparr>io_log := io_log st @ so_log r, io_now := ci_connected_at io\<rparr> in
          case so_fd r of None \<Rightarrow> Some st
          | Some fd \<Rightarrow> Some (if so_err r \<noteq> NOX_OK then st else dialled E io i fd target st))"

section \<open>The other commands\<close>

definition cmd_file :: "nox_env \<Rightarrow> cmd_io \<Rightarrow> bytes \<Rightarrow> sys \<Rightarrow> sys" where
  "cmd_file E io arg st =
     (if online st (ACTIVE_PEER st) then file_transfer_start E (ci_file io) (skip_spaces arg) st else st)"

definition cmd_switch :: "nox_env \<Rightarrow> bytes \<Rightarrow> sys \<Rightarrow> sys" where
  "cmd_switch E arg st =
     (let arg = skip_spaces arg in
      if arg = [] then st
      else case find_peer_by_name_or_onion E arg st of None \<Rightarrow> st
      | Some i \<Rightarrow>
        if \<not> online st (Some i) \<or> ps_state (get_peer st i) \<noteq> ST_ACTIVE then st
        else st\<lparr>as_active_peer_idx := int i, as_active_peer_onion := take NOX_ONION_LEN (ps_peer_onion (get_peer st i))\<rparr>)"

definition cmd_disconnect :: "nox_env \<Rightarrow> sys \<Rightarrow> sys" where
  "cmd_disconnect E st =
     (case ACTIVE_PEER st of None \<Rightarrow> st
      | Some i \<Rightarrow> if ps_fd (get_peer st i) < 0 \<or> ps_state (get_peer st i) = ST_IDLE then st
                  else fire E i EV_PEER_DISCONNECTED st)"

definition send_line :: "nox_env \<Rightarrow> bytes \<Rightarrow> sys \<Rightarrow> sys" where
  "send_line E msg st =
     (if \<not> online st (ACTIVE_PEER st) \<or> msg = [] then st else show_sent msg (send_segmented_message E msg st))"

text \<open>The commands that only print (\<^verbatim>\<open>/help\<close>, \<^verbatim>\<open>/addr\<close>, \<^verbatim>\<open>/list\<close>, \<^verbatim>\<open>/status\<close>, \<^verbatim>\<open>/history\<close> and unknown ones) are
  the last branch.\<close>

definition slash_command :: "nox_env \<Rightarrow> cmd_io \<Rightarrow> bytes \<Rightarrow> sys \<Rightarrow> sys option" where
  "slash_command E io line st =
     (if line = str_bytes ''/quit'' \<or> line = str_bytes ''/exit'' then Some (st\<lparr>as_running := False\<rparr>)
      else if starts_with ''/add '' line then Some (cmd_add E (drop 5 line) st)
      else if starts_with ''/msg '' line then Some (cmd_msg E (drop 5 line) st)
      else if starts_with ''/connect '' line then cmd_connect E io (drop 9 line) st
      else if starts_with ''/file '' line then Some (cmd_file E io (drop 6 line) st)
      else if starts_with ''/switch '' line then Some (cmd_switch E (drop 8 line) st)
      else if line = str_bytes ''/disconnect'' then Some (cmd_disconnect E st)
      else Some st)"

definition process_line :: "nox_env \<Rightarrow> cmd_io \<Rightarrow> bytes \<Rightarrow> sys \<Rightarrow> sys option" where
  "process_line E io line st =
     (let pending = (tofu_pending_slots st \<noteq> []);
          is_yes = (strcasecmp_eq line ''y'' \<or> strcasecmp_eq line ''yes'');
          is_no = (strcasecmp_eq line ''n'' \<or> strcasecmp_eq line ''no'') in
      if pending \<and> (is_yes \<or> is_no) then Some (tofu_user_response E is_yes st)
      else if pending \<and> slash_count line \<noteq> 1 then Some st
      else if slash_count line \<ge> 2 then Some (send_line E (drop 1 line) st)
      else if slash_count line = 1 then slash_command E io line st
      else Some (send_line E line st))"

end
