(* ===== verification/Nox_Invariant.thy ===== *)
theory Nox_Invariant
  imports Nox_Limits_Props Nox_Command
begin

text \<open>
  The invariant of a connection slot, and that every operation of the program keeps it: what the state
  of a slot says about its descriptor, handshake, session and transfers.
\<close>

section \<open>The invariant\<close>

definition no_transfer :: "peer_session \<Rightarrow> bool" where
  "no_transfer ps \<longleftrightarrow> \<not> rx_active (ps_rx_file ps) \<and> \<not> tx_active (ps_tx_file ps)"

definition slot_ok :: "peer_session \<Rightarrow> bool" where
  "slot_ok ps \<longleftrightarrow> (case ps_state ps of
     ST_IDLE \<Rightarrow> ps_fd ps = -1 \<and> ps_hs ps = None \<and> ps_session ps = None \<and> no_transfer ps \<and> ps_recv_buf ps = [] \<and>
       \<not> ps_peer_verified ps
   | ST_HANDSHAKE_INIT \<Rightarrow> ps_fd ps \<ge> 0 \<and> ps_hs ps \<noteq> None \<and> ps_session ps = None \<and> no_transfer ps \<and> \<not> ps_peer_verified ps
   | ST_HANDSHAKE_RESP \<Rightarrow> ps_fd ps \<ge> 0 \<and> ps_hs ps \<noteq> None \<and> ps_session ps = None \<and> no_transfer ps \<and> \<not> ps_peer_verified ps
   | ST_TOFU_PENDING \<Rightarrow> ps_fd ps \<ge> 0 \<and> (\<exists>hs. ps_hs ps = Some hs \<and> 3 \<le> hs_msg_index hs) \<and> ps_session ps = None \<and>
       no_transfer ps \<and> \<not> ps_peer_verified ps
   | ST_ACTIVE \<Rightarrow> ps_fd ps \<ge> 0 \<and> ps_hs ps = None \<and> ps_session ps \<noteq> None \<and> \<not> rx_active (ps_rx_file ps)
   | ST_FILE_RX \<Rightarrow> ps_fd ps \<ge> 0 \<and> ps_hs ps = None \<and> ps_session ps \<noteq> None \<and> rx_active (ps_rx_file ps)
   | _ \<Rightarrow> False)"

lemma no_transfer_fields [simp]:
  "no_transfer (ps\<lparr>ps_tx_seq := a\<rparr>) = no_transfer ps" "no_transfer (ps\<lparr>ps_rx_seq := b\<rparr>) = no_transfer ps"
  "no_transfer (ps\<lparr>ps_last_active := c\<rparr>) = no_transfer ps" "no_transfer (ps\<lparr>ps_queue_flushed := d\<rparr>) = no_transfer ps"
  "no_transfer (ps\<lparr>ps_peer_onion := e\<rparr>) = no_transfer ps" "no_transfer (ps\<lparr>ps_session := f\<rparr>) = no_transfer ps"
  "no_transfer (ps\<lparr>ps_hs := g\<rparr>) = no_transfer ps" "no_transfer (ps\<lparr>ps_state := h\<rparr>) = no_transfer ps"
  "no_transfer (ps\<lparr>ps_fd := k\<rparr>) = no_transfer ps" "no_transfer (ps\<lparr>ps_recv_buf := l\<rparr>) = no_transfer ps"
  "no_transfer (ps\<lparr>ps_peer_verified := m\<rparr>) = no_transfer ps" "no_transfer (ps\<lparr>ps_handshake_start := n\<rparr>) = no_transfer ps"
  "no_transfer (ps\<lparr>ps_connect_target := q\<rparr>) = no_transfer ps" "no_transfer (ps\<lparr>ps_name := r\<rparr>) = no_transfer ps"
  "no_transfer (ps\<lparr>ps_tofu_epoch := s\<rparr>) = no_transfer ps"
  by (simp_all add: no_transfer_def)

lemma slot_ok_fields [simp]:
  "slot_ok (ps\<lparr>ps_tx_seq := a\<rparr>) = slot_ok ps" "slot_ok (ps\<lparr>ps_rx_seq := b\<rparr>) = slot_ok ps"
  "slot_ok (ps\<lparr>ps_last_active := c\<rparr>) = slot_ok ps" "slot_ok (ps\<lparr>ps_queue_flushed := d\<rparr>) = slot_ok ps"
  "slot_ok (ps\<lparr>ps_peer_onion := e\<rparr>) = slot_ok ps" "slot_ok (ps\<lparr>ps_name := r\<rparr>) = slot_ok ps"
  "slot_ok (ps\<lparr>ps_handshake_start := f\<rparr>) = slot_ok ps"
  by (simp_all add: slot_ok_def cong: peer_state_t.case_cong)

text \<open>Slot \<open>i\<close> exists and is in order.\<close>

definition well :: "nat \<Rightarrow> sys \<Rightarrow> bool" where
  "well i st \<longleftrightarrow> i < length (as_peers st) \<and> slot_ok (get_peer st i)"

lemma well_same: "as_peers st' = as_peers st \<Longrightarrow> well i st' = well i st"
  by (simp add: well_def get_peer_def)

lemma well_upd: "well i st \<Longrightarrow> (\<And>ps. slot_ok ps \<Longrightarrow> slot_ok (f ps)) \<Longrightarrow> well i (upd_peer i f st)"
  by (simp add: well_def)

lemma well_fields [simp]:
  "well i (st\<lparr>as_active_peer_idx := x0\<rparr>) = well i st"
  "well i (st\<lparr>as_active_peer_onion := x1\<rparr>) = well i st"
  "well i (st\<lparr>as_tofu_epoch := x2\<rparr>) = well i st"
  "well i (st\<lparr>as_tofu_prompt_epoch := x3\<rparr>) = well i st"
  "well i (st\<lparr>as_tofu_prompt_fp := x4\<rparr>) = well i st"
  "well i (st\<lparr>as_running := x9\<rparr>) = well i st"
  "well i (st\<lparr>io_heap := x16\<rparr>) = well i st"
  "well i (st\<lparr>io_db_heap := x18\<rparr>) = well i st"
  "well i (st\<lparr>io_db := x27\<rparr>) = well i st"
  "well i (st\<lparr>io_log := x28\<rparr>) = well i st"
  by (simp_all add: well_def get_peer_def)

lemma well_effects [simp]:
  "well i (emit e st) = well i st" "well i (close_fd fd st) = well i st" "well i (unlink_partial nm st) = well i st"
  "well i (tofu_save_contact E j st) = well i st" "well i (snd (sys_malloc st)) = well i st"
  "well i (snd (sys_writev fd b st)) = well i st" "well i (snd (next_key st)) = well i st"
  "well i (snd (next_nonce st)) = well i st" "well i (snd (next_hash st)) = well i st"
  "well i (snd (next_sock_write st)) = well i st" "well i (snd (next_file_read st)) = well i st"
  "well i (snd (next_open st)) = well i st" "well i (snd (next_rand st)) = well i st"
  "well i (ui_print_incoming m st) = well i st" "well i (ui_print_outgoing m st) = well i st"
  by (auto intro!: well_same simp: sys_malloc_def sys_writev_def next_key_def next_nonce_def next_hash_def
      next_sock_write_def next_file_read_def next_open_def next_rand_def ui_print_incoming_def ui_print_outgoing_def
      case_prod_beta split: list.splits)

section \<open>Closing events\<close>

lemma closing_rows:
  assumes "ev \<in> {EV_PEER_DISCONNECTED, EV_HANDSHAKE_TIMEOUT, EV_HANDSHAKE_ERROR, EV_SEQ_MISMATCH, EV_ARENA_FAIL, EV_TOR_DIED,
    EV_TOFU_REJECTED, EV_RATE_LIMIT}"
  shows "sm_lookup s ev \<in> {None, Some (ST_IDLE, A_cleanup)}"
  using assms by (cases s) (auto simp: sm_lookup_def transitions_def)

text \<open>A closed slot is in order whatever it held before.\<close>

lemma cleanup_slot_ok:
  assumes "i < length (as_peers st)" "ps_fd (get_peer st i) \<ge> -1"
  shows "slot_ok ((get_peer (snd (action_cleanup i st)) i)\<lparr>ps_state := ST_IDLE\<rparr>)"
proof -
  have "ps_fd (get_peer (snd (action_cleanup i st)) i) = -1" using assms by (simp add: action_cleanup_def Let_def)
  then show ?thesis using action_cleanup_peers(2) [OF assms(1)] by (simp add: slot_ok_def peer_clean_def no_transfer_def)
qed

lemma well_closed:
  assumes "i < length (as_peers st)" "ps_fd (get_peer st i) \<ge> -1" "sm_lookup (ps_state (get_peer st i)) ev = Some (ST_IDLE, A_cleanup)"
  shows "well i (fire E i ev st)" "ps_state (get_peer (fire E i ev st) i) = ST_IDLE"
  using cleanup_slot_ok [OF assms(1,2)] action_cleanup_peers(5) [OF assms(1)] assms(1)
  by (simp_all add: fire_def sm_close [OF assms(1,3)] well_def)

lemma well_fd: "well i st \<Longrightarrow> ps_fd (get_peer st i) \<ge> -1"
  by (auto simp: well_def slot_ok_def split: peer_state_t.splits)

lemma well_closing:
  assumes "well i st" "ev \<in> {EV_PEER_DISCONNECTED, EV_HANDSHAKE_TIMEOUT, EV_HANDSHAKE_ERROR, EV_SEQ_MISMATCH, EV_ARENA_FAIL, EV_TOR_DIED,
    EV_TOFU_REJECTED, EV_RATE_LIMIT}"
  shows "well i (fire E i ev st)"
proof -
  have i: "i < length (as_peers st)" using assms(1) by (simp add: well_def)
  consider "sm_lookup (ps_state (get_peer st i)) ev = None" | "sm_lookup (ps_state (get_peer st i)) ev = Some (ST_IDLE, A_cleanup)"
    using closing_rows [OF assms(2), of "ps_state (get_peer st i)"] by auto
  then show ?thesis
  proof cases
    case 1
    then show ?thesis using assms(1) by (simp add: fire_def sm_dispatch_def sm_row_def)
  next
    case 2
    then show ?thesis using well_closed(1) [OF i well_fd [OF assms(1)]] by blast
  qed
qed

lemma well_disconnected: "well i st \<Longrightarrow> well i (snd (sm_dispatch E i EV_PEER_DISCONNECTED st))"
  using well_closing [of i st EV_PEER_DISCONNECTED E] by (simp add: fire_def)

section \<open>Texts\<close>

lemma slot_session: "slot_ok ps \<Longrightarrow> ps_session ps \<noteq> None \<Longrightarrow> slot_ok (ps\<lparr>ps_session := Some s\<rparr>)"
  by (simp add: slot_ok_def split: peer_state_t.splits)

lemma well_session: "well i st \<Longrightarrow> ps_session (get_peer st i) \<noteq> None \<Longrightarrow> well i (upd_peer i (ps_session_update (\<lambda>_. Some s)) st)"
  by (auto simp: well_def intro: slot_session)

lemma well_encrypt: "well i st \<Longrightarrow> well i (snd (peer_encrypt E i pt st))"
  unfolding peer_encrypt_def by (auto simp: case_prod_beta intro: well_session split: option.splits)

lemma well_decrypt: "well i st \<Longrightarrow> well i (snd (peer_decrypt E i ct st))"
  unfolding peer_decrypt_def by (auto simp: case_prod_beta intro: well_session split: option.splits)

lemma well_send_frame: "well i st \<Longrightarrow> well i (snd (send_text_frame E i t st))"
  unfolding send_text_frame_def Let_def case_prod_beta
  by (auto split: option.splits intro!: well_disconnected well_upd well_encrypt)

lemma well_queued: "well i st \<Longrightarrow> well i (snd (send_queued_callback E i t st))"
  unfolding send_queued_callback_def Let_def case_prod_beta by (auto intro!: well_send_frame)

lemma well_flush: "well i st \<Longrightarrow> well i (flush_queue E i st)"
  unfolding flush_queue_def case_prod_beta
  by (simp add: process_queue_rel [where rel = "\<lambda>_. well i"] well_queued)

text \<open>What every frame keeps, a segmented message keeps.\<close>

lemma send_chunks_keeps:
  assumes frame: "\<And>t s. P s \<Longrightarrow> P (snd (send_text_frame E i t s))"
  shows "P st \<Longrightarrow> P (snd (send_chunks E i msg offset st))"
  using frame
proof (induction E i msg offset st rule: send_chunks.induct)
  case (1 E i msg offset st)
  let ?n = "nox_next_chunk_size msg offset (length msg)"
  obtain err s where s: "send_text_frame E i (take ?n (drop offset msg)) st = (err, s)" by (rule prod.exhaust)
  then have "P s" using "1.prems"(2) [OF "1.prems"(1), of "take ?n (drop offset msg)"] by simp
  then show ?case
    using "1.IH" [OF _ refl s [symmetric]] 1 s by (subst send_chunks.simps) (simp add: Let_def)
qed

lemma send_keeps:
  assumes "\<And>t s. P s \<Longrightarrow> P (snd (send_text_frame E i t s))" "\<And>s. P (snd (sys_malloc s)) = P s" "P st"
  shows "P (snd (send_segmented_message_to E (Some i) msg st))"
  unfolding send_segmented_message_to_def Let_def case_prod_beta
  using send_chunks_keeps [of P E i] assms by auto

lemma well_send: "well i st \<Longrightarrow> well i (snd (send_segmented_message_to E (Some i) msg st))"
  by (rule send_keeps) (simp_all add: well_send_frame)

section \<open>Incoming files\<close>

text \<open>A slot in conversation, whatever its transfer records say.\<close>

definition talk :: "nat \<Rightarrow> sys \<Rightarrow> bool" where
  "talk i st \<longleftrightarrow> i < length (as_peers st) \<and> (ps_state (get_peer st i) = ST_ACTIVE \<or> ps_state (get_peer st i) = ST_FILE_RX) \<and>
     ps_fd (get_peer st i) \<ge> 0 \<and> ps_hs (get_peer st i) = None \<and> ps_session (get_peer st i) \<noteq> None"

lemma talk_well: "talk i st \<Longrightarrow> rx_active (ps_rx_file (get_peer st i)) = (ps_state (get_peer st i) = ST_FILE_RX) \<Longrightarrow> well i st"
  by (auto simp: talk_def well_def slot_ok_def)

lemma well_talk: "well i st \<Longrightarrow> ps_session (get_peer st i) \<noteq> None \<or> rx_active (ps_rx_file (get_peer st i)) \<or>
    tx_active (ps_tx_file (get_peer st i)) \<Longrightarrow> talk i st"
  by (auto simp: talk_def well_def slot_ok_def no_transfer_def split: peer_state_t.splits)

lemma well_rx: "well i st \<Longrightarrow> talk i st \<Longrightarrow> rx_active (ps_rx_file (get_peer st i)) = (ps_state (get_peer st i) = ST_FILE_RX)"
  by (auto simp: talk_def well_def slot_ok_def)

lemma talk_same: "as_peers st' = as_peers st \<Longrightarrow> talk i st' = talk i st"
  by (simp add: talk_def get_peer_def)

lemma talk_rx [simp]: "talk i (upd_peer i (ps_rx_file_update f) st) = talk i st"
  by (simp add: talk_def cong: conj_cong)

lemma talk_effects [simp]:
  "talk i (emit e st) = talk i st" "talk i (close_fd fd st) = talk i st" "talk i (unlink_partial nm st) = talk i st"
  "talk i (snd (next_hash st)) = talk i st" "talk i (snd (write_to_file fd d st)) = talk i st"
  by (auto intro!: talk_same simp: next_hash_def write_to_file_def case_prod_beta)

lemma file_rows:
  "sm_lookup ST_ACTIVE EV_FILE_DONE = None" "sm_lookup ST_FILE_RX EV_FILE_DONE = Some (ST_ACTIVE, A_file_end)"
  "sm_lookup ST_ACTIVE EV_FILE_RX_START = Some (ST_FILE_RX, A_file_begin_rx)"
  by (simp_all add: sm_lookup_def transitions_def)

lemma file_done:
  assumes "talk i st" "\<not> rx_active (ps_rx_file (get_peer st i))"
  shows "well i (snd (sm_dispatch E i EV_FILE_DONE st))"
  using assms by (intro talk_well) (auto simp: sm_dispatch_def sm_row_def run_action_def talk_def file_rows)

lemma well_rx_wipe: "talk i st \<Longrightarrow> well i (rx_wipe E i st)"
  unfolding rx_wipe_def by (rule file_done) (simp_all add: talk_def zero_rx_def)

lemma well_rx_abort: "talk i st \<Longrightarrow> well i (rx_abort E i st)"
  unfolding rx_abort_def Let_def by (rule well_rx_wipe) simp

lemma well_rx_finish: "talk i st \<Longrightarrow> well i (rx_finish E i st)"
  unfolding rx_finish_def Let_def case_prod_beta by (auto intro!: well_rx_wipe)

lemma open_recv_slot:
  assumes "i < length (as_peers st)"
  shows "(\<exists>nm. get_peer (snd (open_recv_file i safe st)) i =
      (get_peer st i)\<lparr>ps_rx_file := (ps_rx_file (get_peer st i))\<lparr>rx_local_name := nm\<rparr>\<rparr>) \<and>
    length (as_peers (snd (open_recv_file i safe st))) = length (as_peers st)"
proof -
  define P where "P s \<longleftrightarrow> (\<exists>nm. get_peer s i = (get_peer st i)\<lparr>ps_rx_file := (ps_rx_file (get_peer st i))\<lparr>rx_local_name := nm\<rparr>\<rparr>) \<and>
    length (as_peers s) = length (as_peers st)" for s
  have n: "as_peers (snd (next_open s)) = as_peers s" "as_peers (snd (next_rand s)) = as_peers s" for s
    by (simp_all add: next_open_def next_rand_def split: list.splits)
  have leaf: "P s" if "as_peers s = as_peers st" for s
    unfolding P_def using that
    by (intro conjI exI [of _ "rx_local_name (ps_rx_file (get_peer st i))"]) (simp_all add: get_peer_def)
  have named: "P (upd_peer i (ps_rx_file_update (rx_local_name_update (\<lambda>_. x))) s)" if "as_peers s = as_peers st" for x s
    unfolding P_def using that assms by (intro conjI exI [of _ x]) (simp_all add: get_peer_def upd_peer_def)
  have "P (snd (open_recv_file i safe st))"
    unfolding open_recv_file_def Let_def case_prod_beta
    by (auto intro!: leaf named simp: n split: open_ans.splits)
  then show ?thesis by (simp add: P_def)
qed

lemma well_rx_begin:
  assumes t: "talk i st" and a: "ps_state (get_peer st i) = ST_ACTIVE"
  shows "well i (rx_begin E i nm sz h st)"
proof -
  define s1 where "s1 = upd_peer i (ps_rx_file_update (\<lambda>_. zero_rx)) st"
  obtain e fd s2 where o: "open_recv_file i nm s1 = ((e, fd), s2)" by (metis prod.exhaust)
  have i: "i < length (as_peers s1)" using t by (simp add: talk_def s1_def)
  obtain nm2 where g: "get_peer s2 i = (get_peer s1 i)\<lparr>ps_rx_file := (ps_rx_file (get_peer s1 i))\<lparr>rx_local_name := nm2\<rparr>\<rparr>"
    using open_recv_slot [OF i, of nm] o by auto
  have l: "length (as_peers s2) = length (as_peers s1)" using open_recv_slot [OF i, of nm] o by simp
  have t2: "talk i s2" "ps_state (get_peer s2 i) = ST_ACTIVE" "\<not> rx_active (ps_rx_file (get_peer s2 i))"
    using t a g l by (simp_all add: talk_def s1_def zero_rx_def)
  define s3 where "s3 = snd (sm_dispatch E i EV_FILE_RX_START (upd_peer i (ps_rx_file_update (\<lambda>rx. rx\<lparr>rx_active := True, rx_fd := fd,
    rx_expected_size := sz, rx_received_bytes := 0, rx_last_chunk := io_now s2, rx_expected_hash := h, rx_filename := take 255 nm\<rparr>)) s2))"
  have t3: "talk i s3" "ps_state (get_peer s3 i) = ST_FILE_RX" "rx_active (ps_rx_file (get_peer s3 i))"
    using t2 by (simp_all add: s3_def talk_def sm_dispatch_def sm_row_def run_action_def file_rows)
  have w3: "well i s3" using t3 by (auto intro: talk_well)
  have up: "well i (upd_peer i (ps_rx_file_update (rx_hash_state_update (\<lambda>_. x))) s)" if "well i s" for x s
    using that by (auto intro!: well_upd simp: slot_ok_def no_transfer_def split: peer_state_t.splits)
  show ?thesis
  proof (cases "e = NOX_OK \<and> fd \<ge> 0")
    case False
    then have "rx_begin E i nm sz h st = s2" using o by (auto simp: rx_begin_def s1_def)
    then show ?thesis using t2 by (auto intro: talk_well)
  next
    case True
    have eq: "rx_begin E i nm sz h st = (case next_hash s3 of (ok, st) \<Rightarrow> if \<not> ok then rx_abort E i st
        else case next_hash st of (ok, st) \<Rightarrow> if \<not> ok then rx_abort E i st
        else upd_peer i (ps_rx_file_update (rx_hash_state_update (\<lambda>_. be_bytes 8 sz))) st)"
      unfolding rx_begin_def s1_def [symmetric] o prod.case Let_def s3_def [symmetric] using True by simp
    show ?thesis unfolding eq case_prod_beta using t3(1) w3 by (auto intro!: well_rx_abort up)
  qed
qed

lemma well_rx_metadata: "talk i st \<Longrightarrow> ps_state (get_peer st i) = ST_ACTIVE \<Longrightarrow> well i st \<Longrightarrow> well i (rx_metadata E i pt st)"
proof -
  assume a: "talk i st" "ps_state (get_peer st i) = ST_ACTIVE" "well i st"
  obtain nm s where s: "sanitize_filename (c_str (take 255 (drop 9 pt))) 256 st = (nm, s)" by (rule prod.exhaust)
  have "as_peers s = as_peers st" using s by (auto simp: sanitize_filename_def next_rand_def Let_def split: if_splits list.splits prod.splits)
  then have b: "talk i s" "ps_state (get_peer s i) = ST_ACTIVE" "well i s"
    using a by (simp_all add: talk_def well_def get_peer_def)
  show ?thesis unfolding rx_metadata_def s prod.case Let_def using b
    by (auto intro: well_rx_begin split: option.splits)
qed

lemma well_rx_chunk:
  assumes t: "talk i st" and a: "ps_state (get_peer st i) = ST_FILE_RX" "rx_active (ps_rx_file (get_peer st i))"
  shows "well i (rx_chunk E i pt st)"
proof -
  let ?rx = "ps_rx_file (get_peer st i)"
  have st: "get_peer (snd (next_hash (snd (write_to_file fd d st)))) i = get_peer st i" for fd d
    by (simp add: next_hash_def write_to_file_def case_prod_beta get_peer_def emit_def)
  have up: "well i (upd_peer i (ps_rx_file_update (\<lambda>_. ?rx\<lparr>rx_hash_state := x, rx_received_bytes := n, rx_last_chunk := k\<rparr>))
      (snd (next_hash (snd (write_to_file fd d st)))))" for x n k fd d
    using t a by (intro talk_well) (auto simp: talk_def st)
  show ?thesis unfolding rx_chunk_def Let_def case_prod_beta using t up by (auto intro!: well_rx_abort well_rx_finish)
qed

lemma well_handle_rx:
  assumes w: "well i st"
  shows "well i (snd (file_transfer_handle_rx E i payload st))"
proof -
  define s where "s = snd (peer_decrypt E i payload (snd (sys_malloc st)))"
  have ws: "well i s" unfolding s_def by (intro well_decrypt) (simp add: w)
  have sess: "ps_session (get_peer s i) \<noteq> None" if "fst (peer_decrypt E i payload (snd (sys_malloc st))) \<noteq> None"
    using that ws by (auto simp: s_def peer_decrypt_def well_def case_prod_beta split: option.splits)
  have active: "ps_state (get_peer s i) = (if rx_active (ps_rx_file (get_peer s i)) then ST_FILE_RX else ST_ACTIVE)" if "talk i s"
    using well_rx [OF ws that] that by (auto simp: talk_def)
  show ?thesis
    unfolding file_transfer_handle_rx_def Let_def case_prod_beta s_def [symmetric]
    using w ws sess active well_talk [OF ws]
    by (auto intro!: well_rx_abort well_rx_metadata well_rx_chunk split: option.splits)
qed

end
