(* ===== verification/Nox_System.thy ===== *)
theory Nox_System
  imports Nox_Invariant
begin

text \<open>
  The program as a whole: the events of the loop as a step relation on its state, and the invariant of
  every slot over all runs.
\<close>

section \<open>Outgoing files\<close>

definition chat :: "nat \<Rightarrow> sys \<Rightarrow> bool" where
  "chat i st \<longleftrightarrow> talk i st \<and> rx_active (ps_rx_file (get_peer st i)) = (ps_state (get_peer st i) = ST_FILE_RX)"

lemma chat_well: "chat i st \<Longrightarrow> well i st"
  by (simp add: chat_def talk_well)

lemma well_chat: "well i st \<Longrightarrow> ps_session (get_peer st i) \<noteq> None \<or> tx_active (ps_tx_file (get_peer st i)) \<Longrightarrow> chat i st"
  using well_talk well_rx by (auto simp: chat_def)

lemma chat_same: "as_peers st' = as_peers st \<Longrightarrow> chat i st' = chat i st"
  by (simp add: chat_def talk_def get_peer_def)

lemma chat_upd:
  assumes "chat i st" "\<And>ps. (ps_state (f ps), ps_fd (f ps), ps_hs (f ps), ps_session (f ps), ps_rx_file (f ps)) =
    (ps_state ps, ps_fd ps, ps_hs ps, ps_session ps, ps_rx_file ps)"
  shows "chat i (upd_peer i f st)"
  using assms by (auto simp: chat_def talk_def)

lemma chat_effects [simp]:
  "chat i (emit e st) = chat i st" "chat i (snd (sys_malloc st)) = chat i st" "chat i (snd (sys_writev fd b st)) = chat i st"
  "chat i (snd (next_hash st)) = chat i st" "chat i (snd (next_sock_write st)) = chat i st"
  "chat i (snd (next_file_read st)) = chat i st"
  by (auto intro!: chat_same simp: sys_malloc_def sys_writev_def next_hash_def next_sock_write_def next_file_read_def
      case_prod_beta split: list.splits)

lemma chat_encrypt: "chat i st \<Longrightarrow> chat i (snd (peer_encrypt E i pt st))"
  by (auto simp: peer_encrypt_def case_prod_beta chat_def talk_def split: option.splits)

lemma chat_tx_drop: "chat i st \<Longrightarrow> chat i (tx_drop i st)"
  unfolding tx_drop_def by (rule chat_upd) simp_all

lemma chat_tx_end: "chat i st \<Longrightarrow> chat i (tx_end i st)"
  by (simp add: tx_end_def chat_tx_drop)

lemma chat_tx_wrote: "chat i st \<Longrightarrow> chat i (tx_wrote i n st)"
  unfolding tx_wrote_def Let_def by (auto intro!: chat_tx_end chat_upd)

lemma chat_cases:
  "chat i a \<Longrightarrow> chat i b \<Longrightarrow> chat i (if c then a else b)"
  "chat i a \<Longrightarrow> chat i b \<Longrightarrow> chat i c' \<Longrightarrow> (\<And>d. chat i (f d)) \<Longrightarrow> chat i (case r of R_data d \<Rightarrow> f d | R_again \<Rightarrow> a | R_eof \<Rightarrow> b | R_err \<Rightarrow> c')"
  "chat i a \<Longrightarrow> (\<And>x. chat i (g x)) \<Longrightarrow> chat i (case m of None \<Rightarrow> a | Some x \<Rightarrow> g x)"
  by (simp_all split: read_ans.splits option.splits)

lemma chat_tx_chunk:
  assumes "chat i st"
  shows "chat i (tx_next_chunk E i st)"
  unfolding tx_next_chunk_def Let_def case_prod_beta
  by (intro chat_cases chat_tx_end chat_upd chat_encrypt) (simp_all add: assms)

lemma chat_handle_tx: "chat i st \<Longrightarrow> chat i (file_transfer_handle_tx E i st)"
  unfolding file_transfer_handle_tx_def Let_def case_prod_beta
  by (auto split: write_ans.splits intro!: chat_tx_end chat_tx_wrote chat_tx_chunk)

lemma chat_metadata: "chat i st \<Longrightarrow> chat i (tx_send_metadata E i st)"
  unfolding tx_send_metadata_def Let_def case_prod_beta
  by (auto split: option.splits intro!: chat_tx_drop chat_upd chat_encrypt)

lemma hash_reads_peers: "as_peers (snd (hash_reads rs acc st)) = as_peers st"
  by (induction rs acc st rule: hash_reads.induct) (auto simp: next_hash_def case_prod_beta split: read_ans.splits)

lemma chat_start:
  assumes "chat i st" "ACTIVE_PEER st = Some i"
  shows "chat i (file_transfer_start E F path st)"
proof -
  have h: "chat i (snd (hash_reads rs acc s)) = chat i s" for rs acc s by (rule chat_same) (rule hash_reads_peers)
  show ?thesis unfolding file_transfer_start_def Let_def case_prod_beta assms(2)
    by (auto split: option.splits intro!: chat_metadata chat_upd simp: h assms(1))
qed

section \<open>Handshakes\<close>

definition shake :: "nat \<Rightarrow> sys \<Rightarrow> bool" where
  "shake i st \<longleftrightarrow> well i st \<and> shaking st i"

lemma shake_same: "as_peers st' = as_peers st \<Longrightarrow> shake i st' = shake i st"
  by (simp add: shake_def well_def shaking_def get_peer_def)

lemma shake_iff: "shake i st \<longleftrightarrow> shaking st i \<and> ps_fd (get_peer st i) \<ge> 0 \<and> ps_hs (get_peer st i) \<noteq> None \<and>
    ps_session (get_peer st i) = None \<and> no_transfer (get_peer st i) \<and> \<not> ps_peer_verified (get_peer st i)"
  by (auto simp: shake_def well_def shaking_def slot_ok_def)

lemma shake_hs: "shake i st \<Longrightarrow> shake i (upd_peer i (ps_hs_update (\<lambda>_. Some hs)) st)"
  by (auto simp: shake_iff shaking_def)

lemma shake_seq: "shake i st \<Longrightarrow> shake i (upd_peer i (\<lambda>ps. ps\<lparr>ps_tx_seq := g ps, ps_last_active := t\<rparr>) st)"
  by (auto simp: shake_iff shaking_def)

lemma shake_effects [simp]:
  "shake i (st\<lparr>io_heap := al\<rparr>) = shake i st" "shake i (snd (next_key st)) = shake i st" "shake i (snd (sys_writev fd b st)) = shake i st"
  "shake i (snd (sys_malloc st)) = shake i st"
  by (auto intro!: shake_same simp: next_key_def sys_writev_def sys_malloc_def case_prod_beta split: list.splits)

lemma shake_error: "shake i st \<Longrightarrow> well i (fire E i EV_HANDSHAKE_ERROR st)"
  by (rule well_closing) (simp_all add: shake_def)

lemma shake_reply:
  assumes "shake i st"
  shows "if fst (hs_reply E i fd hs st) then shake i (snd (hs_reply E i fd hs st)) else well i (snd (hs_reply E i fd hs st))"
  unfolding hs_reply_def Let_def case_prod_beta using assms by (auto intro!: shake_error shake_hs shake_seq)

lemma well_known:
  assumes s: "shake i st"
  shows "well i (known_peer E i hs onion st)"
proof -
  obtain ok s1 where m: "sys_malloc st = (ok, s1)" by (rule prod.exhaust)
  have s1: "shake i s1" using shake_effects(4) [of i st] s m by simp
  obtain e hs' se al where sp: "handshake_split (ne_sodium E) hs fresh_session (io_heap s1) = (e, hs', se, al)" by (metis prod_cases4)
  define s2 where "s2 = upd_peer i (\<lambda>ps. ps\<lparr>ps_hs := Some hs', ps_session := Some se\<rparr>) (s1\<lparr>io_heap := al\<rparr>)"
  define s3 where "s3 = upd_peer i (\<lambda>ps. ps\<lparr>ps_hs := None, ps_tx_seq := 0, ps_rx_seq := 0, ps_queue_flushed := False,
                      ps_peer_verified := True, ps_tofu_was_zero_key := False, ps_last_active := io_now s2\<rparr>) s2"
  have sh: "shaking s2 i" "shaking s3 i" "ps_fd (get_peer s2 i) \<ge> -1" using s1 by (auto simp: s2_def s3_def shaking_def shake_iff)
  consider "\<not> ok" | "ok" "e \<noteq> NOX_OK" | "ok" "e = NOX_OK" by blast
  then show ?thesis
  proof cases
    case 1
    have "well i (upd_peer i (ps_session_update (\<lambda>_. None)) s1)" using s1 by (auto simp: shake_iff shaking_def well_def slot_ok_def)
    then show ?thesis using well_closing [of i _ EV_ARENA_FAIL E] 1 m by (simp add: known_peer_def)
  next
    case 2
    have "sm_lookup (ps_state (get_peer s2 i)) EV_HANDSHAKE_ERROR = Some (ST_IDLE, A_cleanup)" "i < length (as_peers s2)"
      using sh(1) by (auto simp: shaking_def shaking_lookups)
    then show ?thesis using well_closed(1) [OF _ sh(3)] 2 m sp by (simp add: known_peer_def Let_def s2_def)
  next
    case 3
    have k: "known_peer E i hs onion st = (let s = upd_peer i (ps_peer_onion_update (\<lambda>_. take NOX_ONION_LEN onion))
        (upd_peer i (ps_state_update (\<lambda>_. ST_ACTIVE)) s3) in s\<lparr>as_active_peer_onion := take NOX_ONION_LEN (ps_peer_onion (get_peer s i))\<rparr>)"
      using 3 m sp fire_ready [OF sh(2), of E] by (simp add: known_peer_def Let_def s2_def s3_def)
    have "well i (upd_peer i (ps_state_update (\<lambda>_. ST_ACTIVE)) s3)"
      using s1 by (auto simp: s3_def s2_def well_def slot_ok_def shake_iff shaking_def no_transfer_def)
    then show ?thesis unfolding k Let_def by (auto intro!: well_upd)
  qed
qed

lemma well_ask:
  assumes "shake i st" "ps_hs (get_peer st i) = Some hs" "3 \<le> hs_msg_index hs"
  shows "well i (tofu_ask E i fd onion name k z st)"
proof -
  let ?s = "upd_peer i (\<lambda>ps. ps\<lparr>ps_tofu_pending := True, ps_tofu_peer_fd := fd, ps_tofu_was_zero_key := z,
          ps_peer_verified := False, ps_tofu_onion := take NOX_ONION_LEN onion,
          ps_tofu_name := take NOX_CONTACT_NAME_LEN name, ps_tofu_new_key := k, ps_tofu_start := io_now st\<rparr>) st"
  have i: "i < length (as_peers st)" using assms by (simp add: shake_iff shaking_def)
  have "shaking ?s i" using assms(1) by (simp add: shake_iff shaking_def)
  from fire_done [OF this, of E] assms i show ?thesis
    unfolding tofu_ask_def by (auto simp: well_def slot_ok_def shake_iff no_transfer_def)
qed

lemma well_complete:
  assumes "shake i st" "ps_hs (get_peer st i) = Some hs" "3 \<le> hs_msg_index hs"
  shows "well i (hs_complete E i fd hs pl st)"
  unfolding hs_complete_def Let_def case_prod_beta
  using assms by (auto intro!: shake_error well_known well_ask)

lemma well_ctrl:
  assumes "shake i st"
  shows "well i (snd (ctrl_frame E i fd hs payload st))"
proof -
  obtain e hs1 pl al where h: "handshake_read (ne_sodium E) hs payload NOX_HS_PAYLOAD_V1_LEN (io_heap st) = (e, hs1, pl, al)"
    by (metis prod_cases4)
  define s1 where "s1 = upd_peer i (ps_hs_update (\<lambda>_. Some hs1)) (st\<lparr>io_heap := al\<rparr>)"
  have s1: "shake i s1" unfolding s1_def by (rule shake_hs) (simp add: assms)
  obtain go s2 where q: "(if hs_msg_index hs1 < 3 then hs_reply E i fd hs1 s1 else (True, s1)) = (go, s2)" by (rule prod.exhaust)
  have s2: "if go then shake i s2 else well i s2" using shake_reply [OF s1, of E fd hs1] q s1 by (auto split: if_splits)
  have "ctrl_frame E i fd hs payload st = (if e \<noteq> NOX_OK then (False, fire E i EV_HANDSHAKE_ERROR s1) else if \<not> go then (False, s2)
      else case ps_hs (get_peer s2 i) of
        Some hs \<Rightarrow> (True, if hs_msg_index hs \<ge> 3 then hs_complete E i fd hs pl s2 else s2) | None \<Rightarrow> (True, s2))"
    unfolding ctrl_frame_def h prod.case Let_def s1_def [symmetric] q by (rule refl)
  then show ?thesis
    using s2 shake_error [OF s1, of E] well_complete [of i s2] by (auto simp: shake_def split: option.splits)
qed

section \<open>Frames\<close>

lemma well_set_recv: "well i st \<Longrightarrow> b = [] \<or> ps_state (get_peer st i) \<noteq> ST_IDLE \<Longrightarrow> well i (set_recv i b st)"
  by (auto simp: well_def set_recv_def slot_ok_def split: peer_state_t.splits)

lemma well_first_text: "well i st \<Longrightarrow> well i (first_text E i st)"
  unfolding first_text_def Let_def by (auto intro!: well_flush well_upd)

lemma well_count: "well i st \<Longrightarrow> well i (rx_count i st)"
  unfolding rx_count_def by (rule well_upd) simp_all

lemma well_text: "well i st \<Longrightarrow> well i (text_frame E i payload st)"
  unfolding text_frame_def Let_def case_prod_beta
  by (auto split: option.splits intro!: well_count well_first_text well_decrypt)

lemma well_data: "well i st \<Longrightarrow> well i (snd (data_frame E i fh payload st))"
  unfolding data_frame_def Let_def case_prod_beta
  by (auto intro!: well_closing well_text well_count well_handle_rx)

lemma well_frame:
  assumes w: "well i st" and b: "ps_recv_buf (get_peer st i) \<noteq> []"
  shows "well i (snd (frame_step E i fd st))"
proof -
  let ?buf = "ps_recv_buf (get_peer st i)"
  obtain err fh where h: "frame_header_decode (take FRAME_HEADER_WIRE_SIZE ?buf) = (err, fh)" by (rule prod.exhaust)
  define s1 where "s1 = snd (sys_malloc st)"
  define s2 where "s2 = set_recv i (drop (FRAME_HEADER_WIRE_SIZE + unat (fh_len fh)) ?buf) s1"
  have st: "ps_state (get_peer st i) \<noteq> ST_IDLE" using w b by (auto simp: well_def slot_ok_def)
  have g1: "get_peer s1 i = get_peer st i" "well i s1"
    using w sys_malloc_frame [of st "fst (sys_malloc st)" s1] by (simp_all add: s1_def)
  have w2: "well i s2" unfolding s2_def using g1 st by (intro well_set_recv) simp_all
  have hs: "shake i s2" if "ps_hs (get_peer s2 i) = Some hs" "hs_msg_index hs < 3" for hs
    using w2 that by (auto simp: shake_def well_def slot_ok_def shaking_def split: peer_state_t.splits)
  show ?thesis
    unfolding frame_step_def Let_def h prod.case case_prod_beta s1_def [symmetric]
    using w g1 w2 st by (auto intro!: well_set_recv well_data well_ctrl hs [unfolded s2_def] split: option.splits)
qed

lemma well_process: "well i st \<Longrightarrow> well i (process_peer_frames E i fd st)"
proof -
  have "well i st \<longrightarrow> well i (process_peer_frames E i fd st)"
    by (rule process_rel [where rel = "\<lambda>a b. well i a \<longrightarrow> well i b"]) (auto intro: well_frame)
  then show "well i st \<Longrightarrow> well i (process_peer_frames E i fd st)" by simp
qed

section \<open>Events\<close>

lemma well_writable:
  assumes "well i st" "ps_fd (get_peer st i) \<ge> 0"
  shows "well i (peer_writable E i fd st) \<and> ps_state (get_peer (peer_writable E i fd st) i) \<noteq> ST_IDLE"
proof (cases "tx_active (ps_tx_file (get_peer st i))")
  case True
  then have "chat i (file_transfer_handle_tx E i st)" using chat_handle_tx well_chat assms(1) by blast
  then show ?thesis using True chat_well by (auto simp: peer_writable_def chat_def talk_def)
next
  case False
  then show ?thesis using assms by (auto simp: peer_writable_def well_def slot_ok_def)
qed

lemma well_readable:
  assumes "well i st" "ps_state (get_peer st i) \<noteq> ST_IDLE"
  shows "well i (peer_readable E i fd avail r st)"
proof -
  have "well i (upd_peer i (\<lambda>ps. ps\<lparr>ps_recv_buf := ps_recv_buf ps @ d, ps_last_active := t\<rparr>) st)" for d t
    using assms by (auto simp: well_def slot_ok_def split: peer_state_t.splits)
  then show ?thesis
    unfolding peer_readable_def Let_def using assms by (auto intro!: well_closing well_process split: read_ans.splits)
qed

lemma well_timeouts: "well i st \<Longrightarrow> well i (peer_timeouts E i st)"
proof -
  have f: "well i (file_timeout E i st)" if "well i st" for st
  proof (cases "rx_active (ps_rx_file (get_peer st i))")
    case True
    then have t: "talk i st" using well_talk that by blast
    define s1 where "s1 = upd_peer i (ps_rx_file_update (\<lambda>_. zero_rx\<lparr>rx_fd := -1\<rparr>))
      (close_fd (rx_fd (ps_rx_file (get_peer st i))) (unlink_partial (rx_local_name (ps_rx_file (get_peer st i))) st))"
    have "talk i s1" "\<not> rx_active (ps_rx_file (get_peer s1 i))" "ps_state (get_peer s1 i) = ST_FILE_RX"
      using t True well_rx [OF that t] by (simp_all add: s1_def talk_def zero_rx_def)
    then show ?thesis
      unfolding file_timeout_def Let_def s1_def [symmetric] using file_done [of i s1 E] that by (simp add: fire_def)
  qed (use that in \<open>simp add: file_timeout_def\<close>)
  show "well i st \<Longrightarrow> well i (peer_timeouts E i st)"
    unfolding peer_timeouts_def idle_timeout_def tofu_timeout_def handshake_timeout_def Let_def
    by (auto intro!: f well_closing)
qed

end
