(* ===== verification/Nox_Loop.thy ===== *)
theory Nox_Loop
  imports Nox_System
begin

text \<open>
  The loop over the whole program: every event the program reacts to as a step, and what holds in
  every state it can reach.
\<close>

section \<open>The state of the program\<close>

definition sys_ok :: "sys \<Rightarrow> bool" where
  "sys_ok st \<longleftrightarrow> length (as_peers st) = NOX_MAX_PEERS \<and> (\<forall>i < NOX_MAX_PEERS. slot_ok (get_peer st i)) \<and> buffers_ok st"

lemma sys_ok_same: "as_peers st' = as_peers st \<Longrightarrow> sys_ok st' = sys_ok st"
  by (simp add: sys_ok_def buffers_ok_def get_peer_def)

lemma sys_ok_fields [simp]:
  "sys_ok (st\<lparr>as_active_peer_idx := x0\<rparr>) = sys_ok st" "sys_ok (st\<lparr>as_active_peer_onion := x1\<rparr>) = sys_ok st"
  "sys_ok (st\<lparr>as_tofu_prompt_epoch := x3\<rparr>) = sys_ok st" "sys_ok (st\<lparr>as_tofu_prompt_fp := x4\<rparr>) = sys_ok st"
  "sys_ok (st\<lparr>as_hs_attempt_count := x5\<rparr>) = sys_ok st" "sys_ok (st\<lparr>as_hs_window_start := x6\<rparr>) = sys_ok st"
  "sys_ok (st\<lparr>as_running := x9\<rparr>) = sys_ok st" "sys_ok (st\<lparr>as_tor_ctrl_fd := x10\<rparr>) = sys_ok st"
  "sys_ok (st\<lparr>as_tor_pid := x11\<rparr>) = sys_ok st" "sys_ok (st\<lparr>as_my_static_priv := x12\<rparr>) = sys_ok st"
  "sys_ok (st\<lparr>as_my_static_pub := x13\<rparr>) = sys_ok st" "sys_ok (st\<lparr>as_my_onion_seed := x14\<rparr>) = sys_ok st"
  "sys_ok (st\<lparr>io_now := x15\<rparr>) = sys_ok st" "sys_ok (st\<lparr>io_heap := x16\<rparr>) = sys_ok st"
  "sys_ok (st\<lparr>io_db := x27\<rparr>) = sys_ok st" "sys_ok (st\<lparr>io_log := x28\<rparr>) = sys_ok st"
  "sys_ok (emit e st) = sys_ok st" "sys_ok (ui_print_outgoing m st) = sys_ok st" "sys_ok (snd (next_nonce st)) = sys_ok st"
  by (simp_all add: sys_ok_def buffers_ok_def get_peer_def emit_def ui_print_outgoing_def next_nonce_def split: list.splits)

lemma sys_ok_well: "sys_ok st \<Longrightarrow> i < NOX_MAX_PEERS \<Longrightarrow> well i st"
  by (simp add: sys_ok_def well_def)

lemma sys_ok_slot: "sys_ok st \<Longrightarrow> keeps i st st' \<Longrightarrow> buffers_ok st' \<Longrightarrow> well i st' \<Longrightarrow> sys_ok st'"
  unfolding sys_ok_def well_def keeps_def by metis

lemma sys_ok_confined: "sys_ok st \<Longrightarrow> confined i st st' \<Longrightarrow> well i st' \<Longrightarrow> sys_ok st'"
  using sys_ok_slot [of st i st'] confined_buffers [of i st st'] by (simp add: confined_def sys_ok_def)

lemma sys_ok_serves: "sys_ok st \<Longrightarrow> serves i st st' \<Longrightarrow> well i st' \<Longrightarrow> sys_ok st'"
  using sys_ok_confined serves_confined by blast

interpretation sys_ok: kept "\<lambda>a b. sys_ok a \<longrightarrow> sys_ok b"
  by unfold_locales blast+

text \<open>A pass over the slots.\<close>

lemma sys_ok_foldl:
  assumes "\<And>i s. i < NOX_MAX_PEERS \<Longrightarrow> sys_ok s \<Longrightarrow> sys_ok (f s i)" "sys_ok st"
  shows "sys_ok (foldl f st [0..<NOX_MAX_PEERS])"
  using sys_ok.rel_foldl [of "[0..<NOX_MAX_PEERS]" f st] assms by simp

section \<open>Events keep it\<close>

lemma ok_fire: "sys_ok st \<Longrightarrow> well i (fire E i ev st) \<Longrightarrow> sys_ok (fire E i ev st)"
  by (rule sys_ok_serves [OF _ serves_fire])

lemma ok_process: "sys_ok st \<Longrightarrow> i < NOX_MAX_PEERS \<Longrightarrow> sys_ok (process_peer_frames E i fd st)"
  using sys_ok_confined [OF _ process_confined] well_process sys_ok_well by blast

lemma ok_timeouts: "sys_ok st \<Longrightarrow> sys_ok (check_timeouts E st)"
proof -
  have "sys_ok (peer_timeouts E i s)" if "sys_ok s" "i < NOX_MAX_PEERS" for i s
  proof -
    have f: "serves i a (handshake_timeout E i b)" "serves i a (tofu_timeout E i b)" "serves i a (idle_timeout E i b)"
      if "serves i a b" for a b
      unfolding handshake_timeout_def tofu_timeout_def idle_timeout_def Let_def using that
      by (simp_all add: serves_fire_after)
    have g: "serves i a (file_timeout E i b)" if "serves i a b" for a b
      unfolding file_timeout_def Let_def using that by (intro serves_if serves_fire_after serves_upd_after) simp_all
    have "serves i s (peer_timeouts E i s)" unfolding peer_timeouts_def by (intro serves_if f g serves_refl)
    then show ?thesis using that well_timeouts [OF sys_ok_well [OF that]] sys_ok_serves by blast
  qed
  then show "sys_ok st \<Longrightarrow> sys_ok (check_timeouts E st)" unfolding check_timeouts_def by (intro sys_ok_foldl)
qed

lemma ok_drain: "sys_ok st \<Longrightarrow> sys_ok (drain_frames E st)"
  unfolding drain_frames_def by (rule sys_ok_foldl) (auto simp: Let_def ok_process)

lemma ok_tor_died: "sys_ok st \<Longrightarrow> sys_ok (tor_died E st)"
proof -
  assume ok: "sys_ok st"
  have "sys_ok (foldl (\<lambda>st i. if ps_fd (get_peer st i) \<ge> 0 \<or> ps_state (get_peer st i) \<noteq> ST_IDLE
      then fire E i EV_TOR_DIED st else st) st [0..<NOX_MAX_PEERS])"
  proof (rule sys_ok_foldl [OF _ ok])
    fix i s assume "i < NOX_MAX_PEERS" "sys_ok s"
    then have "sys_ok (fire E i EV_TOR_DIED s)" by (intro ok_fire well_closing) (simp_all add: sys_ok_well)
    then show "sys_ok (if ps_fd (get_peer s i) \<ge> 0 \<or> ps_state (get_peer s i) \<noteq> ST_IDLE then fire E i EV_TOR_DIED s else s)"
      using \<open>sys_ok s\<close> by simp
  qed
  then show ?thesis unfolding tor_died_def Let_def using ok by simp
qed

lemma ok_peer_event:
  assumes ok: "sys_ok st" and fd: "fd \<ge> 0"
  shows "sys_ok (peer_event E fd out inn avail r st)"
proof (cases "find_peer_by_fd fd st")
  case None
  then show ?thesis using ok by (simp add: peer_event_def)
next
  case (Some i)
  then have i: "i < NOX_MAX_PEERS" "ps_fd (get_peer st i) = fd"
    by (auto simp: find_peer_by_fd_def first_peer_def find_Some_iff)
  define s1 where "s1 = (if out then peer_writable E i fd st else st)"
  have w: "well i st" by (rule sys_ok_well [OF ok i(1)])
  have s1: "sys_ok s1" "well i s1" "ps_state (get_peer s1 i) \<noteq> ST_IDLE"
    using well_writable [OF w, of E fd] i fd ok w sys_ok_serves [OF ok serves_writable, of i E fd]
    by (auto simp: s1_def well_def slot_ok_def)
  have "keeps i s1 (peer_readable E i fd avail r s1) \<and> buffers_ok (peer_readable E i fd avail r s1)"
    using readable_keeps s1(1) by (simp add: sys_ok_def)
  then have "sys_ok (peer_readable E i fd avail r s1)"
    using sys_ok_slot [OF s1(1)] well_readable [OF s1(2,3)] by blast
  then show ?thesis using s1(1) by (auto simp: peer_event_def Some s1_def Let_def split: if_splits)
qed

lemma ok_accept:
  assumes ok: "sys_ok st"
  shows "sys_ok (accept_peer E fd epoll_ok st)"
proof (cases "fd \<ge> 0")
  case True
  have "\<forall>i < NOX_MAX_PEERS. ps_state (get_peer st i) = ST_IDLE \<longrightarrow> ps_hs (get_peer st i) = None"
    using ok by (auto simp: sys_ok_def slot_ok_def)
  then consider "refused fd st (accept_peer E fd epoll_ok st)" | i where "started fd i st (accept_peer E fd epoll_ok st)"
    using accept_cases [OF True, of st E epoll_ok] ok by (auto simp: sys_ok_def)
  then show ?thesis
  proof cases
    case 1
    then have "as_peers (accept_peer E fd epoll_ok st) = as_peers st" by (auto simp: refused_def)
    then show ?thesis using ok sys_ok_same by blast
  next
    case 2
    let ?st' = "accept_peer E fd epoll_ok st"
    obtain hs t where g: "get_peer ?st' i = (get_peer st i)\<lparr>ps_fd := fd, ps_hs := Some hs, ps_handshake_start := t, ps_last_active := t,
        ps_state := ST_HANDSHAKE_RESP\<rparr>" and k: "keeps i st ?st'" and f: "free_slot st = Some i"
      using 2 by (auto simp: started_def)
    have i: "i < NOX_MAX_PEERS" "ps_state (get_peer st i) = ST_IDLE" using free_slotD [OF f] by simp_all
    then have "slot_ok (get_peer st i)" using ok by (simp add: sys_ok_def)
    moreover have l: "length (as_peers ?st') = NOX_MAX_PEERS" using k ok by (simp add: keeps_def sys_ok_def)
    ultimately have "well i ?st'" using i g True by (simp add: well_def slot_ok_def)
    moreover have "serves i st ?st'" using g k by (simp add: serves_def)
    ultimately show ?thesis using sys_ok_serves ok by blast
  qed
qed (use ok in \<open>simp add: accept_peer_def\<close>)

section \<open>The answer to a prompt\<close>

lemma disconnect_well:
  assumes "i < length (as_peers st)" "ps_fd (get_peer st i) \<ge> -1" "ps_state (get_peer st i) = ST_TOFU_PENDING"
  shows "well i (sm_disconnect i st)"
  using well_closed(1) [OF assms(1,2), of EV_PEER_DISCONNECTED undefined] assms(3)
  by (simp add: sm_lookup_disconnect nested_disconnect [where E = undefined] fire_def)

lemma well_accepted:
  assumes w: "well i st" and s: "ps_state (get_peer st i) = ST_TOFU_PENDING"
  shows "well i (snd (sm_dispatch E i EV_TOFU_ACCEPTED st))"
proof -
  have i: "i < length (as_peers st)" and fd: "ps_fd (get_peer st i) \<ge> 0" using w s by (simp_all add: well_def slot_ok_def)
  have row: "sm_lookup ST_TOFU_PENDING EV_TOFU_ACCEPTED = Some (ST_ACTIVE, A_tofu_accept)" by (simp add: sm_lookup_def transitions_def)
  obtain e st' where a: "action_tofu_accept E sm_disconnect i st = (e, st')" by (rule prod.exhaust)
  have eq: "snd (sm_dispatch E i EV_TOFU_ACCEPTED st) = (if e = NOX_OK then upd_peer i (ps_state_update (\<lambda>_. ST_ACTIVE)) st' else st')"
    by (simp add: sm_dispatch_def sm_row_def s row run_action_def a)
  obtain ok s1 where m: "sys_malloc (tofu_save_contact E i st) = (ok, s1)" by (rule prod.exhaust)
  note f1 = sys_malloc_frame [OF m]
  show ?thesis
  proof (cases "ps_tofu_epoch (get_peer st i) \<noteq> as_tofu_prompt_epoch st \<or> ps_tofu_new_key (get_peer st i) \<noteq> as_tofu_prompt_fp st")
    case True
    then have "e = NOX_ERR_PROTO" "st' = st" using a by (auto simp: action_tofu_accept_def)
    then show ?thesis using eq w by simp
  next
    case False
    obtain hs where hs: "ps_hs (get_peer st i) = Some hs" using w s by (auto simp: well_def slot_ok_def)
    obtain e2 hs2 se al where sp: "handshake_split (ne_sodium E) hs fresh_session (io_heap s1) = (e2, hs2, se, al)" by (metis prod_cases4)
    consider "\<not> ok" | "ok" "e2 \<noteq> NOX_OK" | "ok" "e2 = NOX_OK" by blast
    then show ?thesis
    proof cases
      case 1
      then have "e \<noteq> NOX_OK" "st' = sm_disconnect i s1" using a False hs m by (simp_all add: action_tofu_accept_def)
      then show ?thesis using eq disconnect_well [of i s1] f1 i fd s by simp
    next
      case 2
      then have "e \<noteq> NOX_OK" "st' = sm_disconnect i (upd_peer i (\<lambda>ps. ps\<lparr>ps_hs := Some hs2, ps_session := None\<rparr>) (s1\<lparr>io_heap := al\<rparr>))"
        using a False hs m sp by (simp_all add: action_tofu_accept_def)
      then show ?thesis using eq f1 i fd s by (simp add: disconnect_well)
    next
      case 3
      then have e: "e = NOX_OK" and st': "st' = snd (action_tofu_accept E sm_disconnect i st)"
        using a False hs m sp by (simp_all add: action_tofu_accept_def Let_def)
      have "ps_fd (get_peer st' i) = ps_fd (get_peer st i) \<and> ps_hs (get_peer st' i) = None \<and> ps_session (get_peer st' i) = Some se \<and>
          ps_rx_file (get_peer st' i) = ps_rx_file (get_peer st i) \<and> length (as_peers st') = length (as_peers st)"
        unfolding st' using False hs m sp 3 f1 i by (simp add: action_tofu_accept_def Let_def)
      then show ?thesis using eq e w s i fd by (simp add: well_def slot_ok_def no_transfer_def)
    qed
  qed
qed

lemma ok_dispatch: "sys_ok st \<Longrightarrow> well i (snd (sm_dispatch E i ev st)) \<Longrightarrow> sys_ok (snd (sm_dispatch E i ev st))"
  using ok_fire by (simp add: fire_def)

lemma ok_user_response:
  assumes ok: "sys_ok st"
  shows "sys_ok (tofu_user_response E accept st)"
proof (cases "\<exists>i. tofu_pending_slots st = [i]")
  case False
  then show ?thesis using ok by (auto simp: tofu_user_response_def split: list.splits)
next
  case True
  then obtain i where p: "tofu_pending_slots st = [i]" by blast
  then have "i \<in> set (tofu_pending_slots st)" by simp
  then have i: "i < NOX_MAX_PEERS" "ps_state (get_peer st i) = ST_TOFU_PENDING" by (simp_all add: tofu_pending_slots_def)
  define s1 where "s1 = snd (sm_dispatch E i EV_TOFU_ACCEPTED st)"
  have s1: "sys_ok s1" unfolding s1_def by (rule ok_dispatch [OF ok well_accepted [OF sys_ok_well [OF ok i(1)] i(2)]])
  have c: "sys_ok (snd (sm_dispatch E i ev s))" if "sys_ok s" "ev \<in> {EV_PEER_DISCONNECTED, EV_TOFU_REJECTED}" for ev s
    using ok_fire [OF that(1) well_closing [OF sys_ok_well [OF that(1) i(1)]], of ev E] that(2) by (auto simp: fire_def)
  show ?thesis
    unfolding tofu_user_response_def p list.case Let_def case_prod_beta s1_def [symmetric]
    using ok s1 c [of "s1\<lparr>as_tofu_prompt_epoch := 0\<rparr>"] c [of "st\<lparr>as_tofu_prompt_epoch := 0\<rparr>"] by simp
qed

section \<open>Lines\<close>

lemma online_chat: "sys_ok st \<Longrightarrow> online st (Some i) \<Longrightarrow> i < NOX_MAX_PEERS \<Longrightarrow> chat i st"
  using well_chat sys_ok_well by (auto simp: online_def)

lemma ok_send:
  assumes "sys_ok st" "i < NOX_MAX_PEERS"
  shows "sys_ok (snd (send_segmented_message_to E (Some i) msg st))"
proof -
  have "serves i st (snd (send_segmented_message_to E (Some i) msg st))"
    by (rule send_keeps) (simp_all add: serves_text_frame_sent)
  then show ?thesis using sys_ok_serves [OF assms(1)] well_send [OF sys_ok_well [OF assms]] by blast
qed

lemma ok_show_sent: "sys_ok (snd r) \<Longrightarrow> sys_ok (show_sent msg r)"
  by (simp add: show_sent_def case_prod_beta)

lemma queue_chunks_peers: "as_peers (snd (queue_chunks E onion msg offset k st)) = as_peers st"
proof (induction E onion msg offset k st rule: queue_chunks.induct)
  case (1 E onion msg offset k st)
  let ?n = "nox_next_chunk_size msg offset (length msg)"
  obtain err s where s: "sys_queue_message E onion (take ?n (drop offset msg)) st = (err, s)" by (rule prod.exhaust)
  have "as_peers s = as_peers st"
    using s by (auto simp: sys_queue_message_def next_nonce_def split: list.splits prod.splits)
  then show ?case using "1.IH" [OF _ refl s [symmetric]] s by (subst queue_chunks.simps) (simp add: Let_def)
qed

lemma queue_peers: "as_peers (snd (queue_segmented_message E onion msg st)) = as_peers st"
  by (simp add: queue_segmented_message_def case_prod_beta queue_chunks_peers sys_malloc_def)

lemma find_peer_bound: "find_peer_by_name_or_onion E arg st = Some i \<Longrightarrow> i < NOX_MAX_PEERS"
  by (auto simp: find_peer_by_name_or_onion_def first_peer_def find_Some_iff split: option.splits if_splits)

lemma ACTIVE_PEER_bound: "ACTIVE_PEER st = Some i \<Longrightarrow> i < NOX_MAX_PEERS"
  by (auto simp: ACTIVE_PEER_def split: if_splits)

lemma ok_add: "sys_ok st \<Longrightarrow> sys_ok (cmd_add E arg st)"
  by (simp add: cmd_add_def case_prod_beta split: option.splits)

lemma ok_msg:
  assumes "sys_ok st"
  shows "sys_ok (cmd_msg E arg st)"
proof -
  have q: "sys_ok (snd (queue_segmented_message E onion msg st))" for onion msg
    using assms sys_ok_same [OF queue_peers] by blast
  have s: "sys_ok (show_sent msg (send_segmented_message_to E p msg st))" if on: "online st p" and p: "p = find_peer_by_name_or_onion E onion st" for p msg onion
  proof -
    obtain i where "p = Some i" using on by (auto simp: online_def split: option.splits)
    then show ?thesis using p ok_show_sent ok_send [OF assms find_peer_bound [of E onion st i]] by simp
  qed
  show ?thesis unfolding cmd_msg_def Let_def using assms q s by (auto split: option.splits)
qed

lemma ok_switch: "sys_ok st \<Longrightarrow> sys_ok (cmd_switch E arg st)"
  by (simp add: cmd_switch_def Let_def split: option.splits)

lemma ok_disconnect:
  assumes "sys_ok st"
  shows "sys_ok (cmd_disconnect E st)"
proof -
  have "sys_ok (fire E i EV_PEER_DISCONNECTED st)" if "i < NOX_MAX_PEERS" for i
    by (rule ok_fire [OF assms well_closing [OF sys_ok_well [OF assms that]]]) simp
  then show ?thesis using assms ACTIVE_PEER_bound [of st] by (auto simp: cmd_disconnect_def split: option.splits)
qed

lemma ok_send_line: "sys_ok st \<Longrightarrow> sys_ok (send_line E msg st)"
  unfolding send_line_def send_segmented_message_def
  using ok_show_sent ok_send ACTIVE_PEER_bound by (cases "ACTIVE_PEER st") (auto simp: online_def)

lemma serves_metadata: "serves i st st' \<Longrightarrow> serves i st (tx_send_metadata E i st')"
proof -
  have d: "serves i a (tx_drop i b)" if "serves i a b" for a b unfolding tx_drop_def by (intro serves_upd_after) (simp_all add: that)
  show "serves i st st' \<Longrightarrow> serves i st (tx_send_metadata E i st')"
    unfolding tx_send_metadata_def Let_def case_prod_beta
    by (auto split: option.splits intro!: d serves_upd_after serves_encrypt)
qed

lemma serves_start:
  assumes "ACTIVE_PEER st = Some i"
  shows "serves i st (file_transfer_start E F path st)"
proof -
  have h: "serves i a (snd (hash_reads rs acc s)) = serves i a s" for a rs acc s
    using hash_reads_peers [of rs acc s] by (simp add: serves_def keeps_def get_peer_def)
  show ?thesis unfolding file_transfer_start_def Let_def case_prod_beta assms
    by (auto split: option.splits intro!: serves_metadata serves_upd_after simp: h)
qed

lemma ok_file: "sys_ok st \<Longrightarrow> sys_ok (cmd_file E io arg st)"
proof (cases "online st (ACTIVE_PEER st)")
  case True
  assume ok: "sys_ok st"
  obtain i where a: "ACTIVE_PEER st = Some i" using True by (auto simp: online_def split: option.splits)
  have "chat i st" using online_chat [OF ok _ ACTIVE_PEER_bound [OF a]] True a by simp
  then have "well i (file_transfer_start E (ci_file io) (skip_spaces arg) st)" using chat_start [OF _ a] chat_well by blast
  then show ?thesis using sys_ok_serves [OF ok serves_start [OF a]] True by (simp add: cmd_file_def)
qed (simp add: cmd_file_def)

section \<open>Dialling\<close>

lemma serves_undo: "serves i st st' \<Longrightarrow> serves i st (undo_dial i fd st')"
  unfolding undo_dial_def by (rule serves_upd_after) simp_all

lemma serves_no_hs: "serves i st st' \<Longrightarrow> serves i st (no_hs i st')"
  unfolding no_hs_def by (rule serves_upd_after) simp_all

lemma serves_msg0: "serves i st st' \<Longrightarrow> serves i st (send_msg0 E i fd target hs st')"
  unfolding send_msg0_def Let_def case_prod_beta by (auto intro!: serves_fire_after serves_upd_after)

lemma serves_dialled: "serves i st st' \<Longrightarrow> serves i st (dialled E io i fd target st')"
  unfolding dialled_def Let_def case_prod_beta
  by (auto split: option.splits intro!: serves_undo serves_no_hs serves_msg0 serves_dispatch_after serves_upd_after)

lemma attempts_frame [simp]:
  "as_hs_attempt_count (upd_peer i f st) = as_hs_attempt_count st" "as_hs_attempt_count (emit e st) = as_hs_attempt_count st"
  "as_hs_attempt_count (close_fd fd st) = as_hs_attempt_count st" "as_hs_attempt_count (unlink_partial nm st) = as_hs_attempt_count st"
  "as_hs_attempt_count (snd (sys_malloc st)) = as_hs_attempt_count st" "as_hs_attempt_count (snd (next_key st)) = as_hs_attempt_count st"
  "as_hs_attempt_count (snd (sys_writev fd b st)) = as_hs_attempt_count st"
  "as_hs_attempt_count (snd (action_cleanup i st)) = as_hs_attempt_count st"
  by (simp_all add: upd_peer_def emit_def close_fd_def unlink_partial_def sys_malloc_def next_key_def sys_writev_def
      action_cleanup_def Let_def case_prod_beta split: list.splits)

text \<open>The first message is on its way, or the slot has been closed.\<close>

definition dial_result :: "nat \<Rightarrow> bytes \<Rightarrow> sys \<Rightarrow> bool" where
  "dial_result i target st' \<longleftrightarrow> well i st' \<and> (ps_state (get_peer st' i) = ST_IDLE \<or>
     ps_state (get_peer st' i) = ST_HANDSHAKE_INIT \<and> ps_connect_target (get_peer st' i) = target \<and>
     ps_peer_onion (get_peer st' i) = target \<and> as_active_peer_idx st' = int i)"

lemma dial_error:
  assumes "shake i st"
  shows "dial_result i target (fire E i EV_HANDSHAKE_ERROR st) \<and>
    as_hs_attempt_count (fire E i EV_HANDSHAKE_ERROR st) = as_hs_attempt_count st"
proof -
  have l: "i < length (as_peers st)" "sm_lookup (ps_state (get_peer st i)) EV_HANDSHAKE_ERROR = Some (ST_IDLE, A_cleanup)"
    using assms by (auto simp: shake_iff shaking_def shaking_lookups)
  then show ?thesis
    using well_closed [OF l(1) _ l(2)] assms by (auto simp: dial_result_def shake_iff fire_def sm_close [OF l])
qed

lemma msg0_result:
  assumes s: "shake i st" and g: "ps_state (get_peer st i) = ST_HANDSHAKE_INIT" "ps_connect_target (get_peer st i) = target"
    "ps_peer_onion (get_peer st i) = target"
  shows "dial_result i target (send_msg0 E i fd target hs st) \<and> as_hs_attempt_count (send_msg0 E i fd target hs st) = as_hs_attempt_count st"
proof -
  obtain kp s1 where k: "next_key st = (kp, s1)" by (rule prod.exhaust)
  have k1: "as_peers s1 = as_peers st" "as_hs_attempt_count s1 = as_hs_attempt_count st"
    using k by (auto simp: next_key_def split: list.splits)
  obtain e hs2 out al where w: "handshake_write (ne_sodium E) kp hs None NOISE_MAX_HANDSHAKE_LEN (io_heap s1) = (e, hs2, out, al)"
    by (metis prod_cases4)
  define s2 where "s2 = upd_peer i (ps_hs_update (\<lambda>_. Some hs2)) (s1\<lparr>io_heap := al\<rparr>)"
  define wire where "wire = frame_bytes NOX_MSG_CTRL (ps_tx_seq (get_peer s2 i)) out"
  obtain n s3 where v: "sys_writev fd wire s2 = (n, s3)" by (rule prod.exhaust)
  have s1: "shake i s1" using s shake_same [OF k1(1)] by simp
  have s2: "shake i s2" unfolding s2_def by (rule shake_hs) (simp add: s1)
  have v1: "as_peers s3 = as_peers s2" "as_hs_attempt_count s3 = as_hs_attempt_count s2"
    using sys_writev_effect(1,2) [OF v] attempts_frame(7) [of fd wire s2] unfolding v by (simp_all)
  have s3: "shake i s3" using s2 shake_same [OF v1(1)] by simp
  have c: "as_hs_attempt_count s2 = as_hs_attempt_count st" by (simp add: s2_def k1)
  have i: "i < length (as_peers st)" using s by (simp add: shake_iff shaking_def)
  have g3: "get_peer s3 i = (get_peer st i)\<lparr>ps_hs := Some hs2\<rparr>" "i < length (as_peers s3)"
    using v1(1) k1(1) i by (simp_all add: get_peer_def s2_def upd_peer_def)
  define s4 where "s4 = upd_peer i (\<lambda>ps. ps\<lparr>ps_tx_seq := ps_tx_seq ps + 1, ps_last_active := io_now s3\<rparr>) s3"
  have s4: "well i s4" "get_peer s4 i = (get_peer s3 i)\<lparr>ps_tx_seq := ps_tx_seq (get_peer s3 i) + 1, ps_last_active := io_now s3\<rparr>"
    "as_hs_attempt_count s4 = as_hs_attempt_count st"
    using shake_seq [OF s3] g3(2) c v1 by (simp_all add: s4_def shake_def)
  have eq: "send_msg0 E i fd target hs st = (if e \<noteq> NOX_OK then fire E i EV_HANDSHAKE_ERROR s2
      else if n \<noteq> int (length wire) then fire E i EV_HANDSHAKE_ERROR s3
      else s4\<lparr>as_active_peer_idx := int i, as_active_peer_onion := take NOX_ONION_LEN target\<rparr>)"
    unfolding send_msg0_def k prod.case w Let_def s2_def [symmetric] wire_def [symmetric] v s4_def by (rule refl)
  have "dial_result i target (s4\<lparr>as_active_peer_idx := int i, as_active_peer_onion := take NOX_ONION_LEN target\<rparr>)"
    using s4 g3 g by (simp add: dial_result_def)
  then show ?thesis unfolding eq using dial_error [OF s2, of target E] dial_error [OF s3, of target E] c v1(2) s4(3) by simp
qed

lemma well_undo:
  assumes "i < length (as_peers st)" "slot_ok ((get_peer st i)\<lparr>ps_fd := -1\<rparr>)"
  shows "well i (undo_dial i fd st)" "ps_state (get_peer (undo_dial i fd st) i) = ps_state (get_peer st i)"
    "as_hs_attempt_count (undo_dial i fd st) = as_hs_attempt_count st"
proof -
  have "slot_ok ((get_peer st i)\<lparr>ps_fd := -1, ps_peer_onion := [], ps_connect_target := []\<rparr>)"
    using assms(2) by (simp add: slot_ok_def no_transfer_def cong: peer_state_t.case_cong)
  then show "well i (undo_dial i fd st)" using assms(1) by (simp add: well_def undo_dial_def)
qed (simp_all add: undo_dial_def assms(1))

lemma dialled_result:
  assumes w: "well i st" and s: "ps_state (get_peer st i) = ST_IDLE" and fd: "fd \<ge> 0" and l: "length target = NOX_ONION_LEN"
  shows "dial_result i target (dialled E io i fd target st) \<and> as_hs_attempt_count (dialled E io i fd target st) = as_hs_attempt_count st"
proof -
  have t: "take NOX_ONION_LEN target = target" using l by simp
  define s1 where "s1 = upd_peer i (\<lambda>ps. ps\<lparr>ps_fd := fd, ps_peer_onion := target, ps_connect_target := target\<rparr>) st"
  obtain al s2 where m: "sys_malloc (emit (E_epoll_add fd) s1) = (al, s2)" by (rule prod.exhaust)
  have i: "i < length (as_peers st)" using w by (simp add: well_def)
  have g1: "get_peer s1 i = (get_peer st i)\<lparr>ps_fd := fd, ps_peer_onion := target, ps_connect_target := target\<rparr>" "i < length (as_peers s1)"
    using i by (simp_all add: s1_def)
  have g2: "get_peer s2 i = get_peer s1 i" "as_peers s2 = as_peers s1" using sys_malloc_frame [OF m] by simp_all
  have c: "as_hs_attempt_count s1 = as_hs_attempt_count st" "as_hs_attempt_count s2 = as_hs_attempt_count st"
    using attempts_frame(5) [of "emit (E_epoll_add fd) s1"] unfolding m by (simp_all add: s1_def)
  have k: "slot_ok ((get_peer s1 i)\<lparr>ps_fd := -1\<rparr>)" "slot_ok ((get_peer (no_hs i s2) i)\<lparr>ps_fd := -1\<rparr>)"
    "ps_state (get_peer s1 i) = ST_IDLE" "ps_state (get_peer (no_hs i s2) i) = ST_IDLE" "i < length (as_peers (no_hs i s2))"
    "as_hs_attempt_count (no_hs i s2) = as_hs_attempt_count st"
    using g1 g2 w s c by (simp_all add: no_hs_def well_def slot_ok_def no_transfer_def)
  show ?thesis
  proof (cases "ci_epoll_ok io \<and> al \<and> as_my_static_priv s2 \<noteq> None \<and> as_my_static_pub s2 \<noteq> None")
    case False
    then have "dialled E io i fd target st \<in> {undo_dial i fd s1, undo_dial i fd (no_hs i s2)}"
      unfolding dialled_def Let_def t s1_def [symmetric] m prod.case by (auto split: option.splits)
    then show ?thesis
      using well_undo [OF g1(2) k(1), of fd] well_undo [OF k(5,2), of fd] k c by (auto simp: dial_result_def)
  next
    case True
    then obtain priv pub where kp: "as_my_static_priv s2 = Some priv" "as_my_static_pub s2 = Some pub" by auto
    let ?hs = "handshake_init (ne_sodium E) True priv pub"
    define s3 where "s3 = upd_peer i (\<lambda>ps. ps\<lparr>ps_hs := Some ?hs, ps_handshake_start := io_now s2, ps_last_active := io_now s2\<rparr>) s2"
    have row: "sm_lookup ST_IDLE EV_CONNECT_CMD = Some (ST_HANDSHAKE_INIT, A_connect)" by (simp add: sm_lookup_def transitions_def)
    have s3: "ps_state (get_peer s3 i) = ST_IDLE" using g1 g2 s by (simp add: s3_def)
    define s4 where "s4 = upd_peer i (ps_state_update (\<lambda>_. ST_HANDSHAKE_INIT)) s3"
    have d: "sm_dispatch E i EV_CONNECT_CMD s3 = (NOX_OK, s4)" by (simp add: sm_dispatch_def sm_row_def s3 row run_action_def s4_def)
    have "shake i s4"
      using g1 g2 w s fd by (auto simp: shake_iff shaking_def s4_def s3_def well_def slot_ok_def no_transfer_def)
    moreover have "ps_state (get_peer s4 i) = ST_HANDSHAKE_INIT" "ps_connect_target (get_peer s4 i) = target"
      "ps_peer_onion (get_peer s4 i) = target" "as_hs_attempt_count s4 = as_hs_attempt_count st"
      using g1 g2 c by (simp_all add: s4_def s3_def)
    moreover have "dialled E io i fd target st = send_msg0 E i fd target ?hs s4"
      unfolding dialled_def Let_def t s1_def [symmetric] m prod.case kp option.case s3_def [symmetric] d using True by simp
    ultimately show ?thesis using msg0_result by simp
  qed
qed

lemma valid_onion_length: "validate_onion_address C a \<Longrightarrow> length a = NOX_ONION_LEN"
  by (auto simp: validate_onion_address_def crypto_onion_pubkey_def split: if_splits)

lemma connect_cases:
  assumes r: "cmd_connect E io arg st = Some st'"
  shows "as_peers st' = as_peers st \<and> (as_hs_attempt_count st \<le> 5 \<longrightarrow> as_hs_attempt_count st' \<le> 5) \<or>
    (\<exists>i fd s. free_slot st = Some i \<and> fd \<ge> 0 \<and> validate_onion_address (ne_onion E) (skip_spaces arg) \<and> skip_spaces arg \<noteq> as_onion_addr st \<and>
       (\<forall>j < NOX_MAX_PEERS. j \<noteq> i \<and> ps_fd (get_peer st j) \<ge> 0 \<longrightarrow> ps_peer_onion (get_peer st j) \<noteq> skip_spaces arg) \<and>
       as_hs_attempt_count (outbound_window st) < 5 \<and> as_peers s = as_peers st \<and>
       as_hs_attempt_count s = as_hs_attempt_count (outbound_window st) + 1 \<and> st' = dialled E io i fd (skip_spaces arg) s)"
proof -
  let ?X = "skip_spaces arg"
  consider (no) "as_peers st' = as_peers st" "as_hs_attempt_count st \<le> 5 \<longrightarrow> as_hs_attempt_count st' \<le> 5" | (go) i q where "free_slot st = Some i" "?X \<noteq> as_onion_addr st"
      "\<not> list_ex (\<lambda>j. j \<noteq> i \<and> ps_fd (get_peer st j) \<ge> 0 \<and> ps_peer_onion (get_peer st j) = ?X) [0..<NOX_MAX_PEERS]"
      "as_hs_attempt_count (outbound_window st) < 5"
      "socks5_connect (ne_onion E) (ci_socks io) ?X NOX_VIRTUAL_PORT (ci_socks_path io) = Some q" "so_err q = NOX_OK"
      "st' = (case so_fd q of None \<Rightarrow> st' | Some fd \<Rightarrow> dialled E io i fd ?X ((outbound_window st)\<lparr>as_hs_attempt_count :=
         as_hs_attempt_count (outbound_window st) + 1, io_log := io_log (outbound_window st) @ so_log q, io_now := ci_connected_at io\<rparr>))"
    using r unfolding cmd_connect_def Let_def
    by (auto simp: outbound_window_def split: if_splits option.splits)
  then show ?thesis
  proof cases
    case go
    from socks5_connect_cases [OF go(5)] go(6)
    have f: "so_fd q = Some (sk_socket (ci_socks io))" "sk_socket (ci_socks io) \<ge> 0" "validate_onion_address (ne_onion E) ?X"
      by (auto simp: socks_failed_def socks_done_def)
    define s where "s = (outbound_window st)\<lparr>as_hs_attempt_count := as_hs_attempt_count (outbound_window st) + 1,
      io_log := io_log (outbound_window st) @ so_log q, io_now := ci_connected_at io\<rparr>"
    have "st' = dialled E io i (sk_socket (ci_socks io)) ?X s" using go(7) f(1) by (simp add: s_def)
    moreover have "as_peers s = as_peers st" "as_hs_attempt_count s = as_hs_attempt_count (outbound_window st) + 1"
      by (simp_all add: s_def outbound_window_def)
    moreover have "\<forall>j < NOX_MAX_PEERS. j \<noteq> i \<and> ps_fd (get_peer st j) \<ge> 0 \<longrightarrow> ps_peer_onion (get_peer st j) \<noteq> ?X"
      using go(3) by (auto simp: list_ex_iff)
    ultimately show ?thesis using go(1,2,4) f(2,3) by blast
  qed simp
qed

lemma ok_connect:
  assumes ok: "sys_ok st" and r: "cmd_connect E io arg st = Some st'"
  shows "sys_ok st'"
  using connect_cases [OF r]
proof (elim disjE exE conjE)
  assume "as_peers st' = as_peers st"
  then show ?thesis using ok sys_ok_same by blast
next
  fix i fd s assume a: "free_slot st = Some i" "fd \<ge> 0" "as_peers s = as_peers st" "st' = dialled E io i fd (skip_spaces arg) s"
    and "validate_onion_address (ne_onion E) (skip_spaces arg)"
  then have v: "length (skip_spaces arg) = NOX_ONION_LEN" by (simp add: valid_onion_length)
  have s: "sys_ok s" using ok sys_ok_same [OF a(3)] by blast
  have i: "i < NOX_MAX_PEERS" "ps_state (get_peer s i) = ST_IDLE" using free_slotD [OF a(1)] a(3) by (simp_all add: get_peer_def)
  have "well i st'" using dialled_result [OF sys_ok_well [OF s i(1)] i(2) a(2) v] a(4) by (simp add: dial_result_def)
  then show ?thesis using sys_ok_serves [OF s serves_dialled [OF serves_refl]] a(4) by blast
qed

lemma ok_line:
  assumes ok: "sys_ok st" and r: "process_line E io line st = Some st'"
  shows "sys_ok st'"
proof -
  have s: "sys_ok st'" if "slash_command E io line st = Some st'"
    using that ok ok_connect [OF ok] unfolding slash_command_def
    by (auto simp: ok_add ok_msg ok_file ok_switch ok_disconnect split: if_splits)
  then show ?thesis
    using r ok by (auto simp: process_line_def Let_def ok_user_response ok_send_line split: if_splits)
qed

section \<open>The loop\<close>

text \<open>A step of the program: a line of the user, an event on a peer's socket, an incoming connection,
  the pass over the timeouts, the death of Tor, the drain of waiting frames; and in between the world
  moves on: time passes and the kernel, the allocators and the generator have other answers.\<close>

inductive loop_step :: "nox_env \<Rightarrow> sys \<Rightarrow> sys \<Rightarrow> bool" for E where
  Line: "process_line E io line st = Some st' \<Longrightarrow> loop_step E st st'"
| Socket: "fd \<ge> 0 \<Longrightarrow> loop_step E st (peer_event E fd out inn avail r st)"
| Accept: "loop_step E st (accept_peer E fd epoll_ok st)"
| Timeouts: "loop_step E st (check_timeouts E st)"
| Tor_died: "loop_step E st (tor_died E st)"
| Drain: "loop_step E st (drain_frames E st)"
| World: "loop_step E st (st\<lparr>io_now := t, io_heap := h, io_hash := hh, io_db_heap := dh, io_writev := wv, io_file_write := fw,
    io_sock_write := sw, io_file_read := fr, io_keys := ks, io_nonces := ns, io_rand := rn, io_open := op,
    io_dir_stat := ds, io_disk_avail := da\<rparr>)"

inductive_cases loop_stepE: "loop_step E st st'"

lemma loop_step_ok: "loop_step E st st' \<Longrightarrow> sys_ok st \<Longrightarrow> sys_ok st'"
proof (induction rule: loop_step.induct)
  case (World st t h hh dh wv fw sw fr ks ns rn op ds da)
  then show ?case by (simp add: sys_ok_def buffers_ok_def get_peer_def)
qed (auto intro: ok_line ok_peer_event ok_accept ok_timeouts ok_tor_died ok_drain)

lemma init_peer_ok: "slot_ok init_peer"
  by (simp add: slot_ok_def init_peer_def no_transfer_def zero_rx_def zero_tx_def)

lemma reachable_ok:
  assumes "as_peers st0 = replicate NOX_MAX_PEERS init_peer" "(loop_step E)\<^sup>*\<^sup>* st0 st"
  shows "sys_ok st"
proof -
  have "sys_ok st0" using assms(1) init_peer_ok by (simp add: sys_ok_def buffers_ok_def get_peer_def) (simp add: init_peer_def)
  then show ?thesis using sys_ok.rel_steps [OF assms(2)] loop_step_ok by blast
qed

text \<open>C2. The invariant of the program. From its start, whatever the user types, whatever the peers send,
  whatever the kernel answers and in whatever order, every slot is always in order: an idle slot
  holds no descriptor, no handshake, no session, no received bytes and no transfer; a slot in a
  handshake or waiting for the user holds a handshake and no session; a slot in conversation holds a
  session and no handshake, and is receiving a file exactly when its state says so; no slot is ever
  in one of the states \<open>ST_CONNECTING\<close> and \<open>ST_FILE_TX\<close>; and no receive buffer holds more than its
  capacity.\<close>

theorem program_invariant:
  assumes "as_peers st0 = replicate NOX_MAX_PEERS init_peer" "(loop_step E)\<^sup>*\<^sup>* st0 st"
  shows "length (as_peers st) = NOX_MAX_PEERS \<and>
    (\<forall>i < NOX_MAX_PEERS. slot_ok (get_peer st i) \<and> length (ps_recv_buf (get_peer st i)) \<le> RECV_BUF_CAPACITY)"
  using reachable_ok [OF assms] by (simp add: sys_ok_def buffers_ok_def)


theorem program_invariant_witness:
  "slot_ok (get_peer (accept_peer toy_env 9 True toy_sys) 0) \<and>
   ps_state (get_peer (accept_peer toy_env 9 True toy_sys) 0) = ST_HANDSHAKE_RESP"
proof -
  have "as_peers toy_sys = replicate NOX_MAX_PEERS init_peer" by (simp add: toy_sys_def)
  moreover have "(loop_step toy_env)\<^sup>*\<^sup>* toy_sys (accept_peer toy_env 9 True toy_sys)" by (rule r_into_rtranclp) (rule Accept)
  moreover have "ps_state (get_peer (accept_peer toy_env 9 True toy_sys) 0) = ST_HANDSHAKE_RESP" by code_simp
  ultimately show ?thesis
    using program_invariant [of toy_sys toy_env "accept_peer toy_env 9 True toy_sys"] by (simp add: NOX_MAX_PEERS_def)
qed

section \<open>Dialling a peer\<close>

lemma connect_line: "process_line E io (str_bytes ''/connect '' @ arg) st = cmd_connect E io arg st"
proof -
  let ?l = "str_bytes ''/connect '' @ arg"
  have l: "str_bytes ''/connect '' = [47, 99, 111, 110, 110, 101, 99, 116, 32]" by (simp add: str_bytes_def)
  have n: "slash_count ?l = 1" by (simp add: slash_count_def l ascii_slash_def)
  have y: "\<not> strcasecmp_eq ?l ''y''" "\<not> strcasecmp_eq ?l ''yes''" "\<not> strcasecmp_eq ?l ''n''" "\<not> strcasecmp_eq ?l ''no''"
    by (simp_all add: strcasecmp_eq_def l) (simp_all add: str_bytes_def)
  have "slash_command E io ?l st = cmd_connect E io arg st"
    by (simp add: slash_command_def starts_with_def l) (simp add: str_bytes_def)
  then show ?thesis using n y by (simp add: process_line_def)
qed

text \<open>C5. Dialling binds the slot to the target. A \<^verbatim>\<open>/connect\<close> line either leaves every slot as it was, or it
  takes one free slot and leaves the others alone; and then the target is a valid onion address other
  than the own one, no other connection carries it, fewer than five attempts had been made in the
  window and this one is counted; and the slot is either closed again or in a handshake as initiator
  with exactly this address as the one the peer will have to claim. The counter stays within five.\<close>

theorem dial_bound:
  assumes "length (as_peers st) = NOX_MAX_PEERS" "\<forall>i < NOX_MAX_PEERS. slot_ok (get_peer st i)" "as_hs_attempt_count st \<le> 5"
    and r: "process_line E io (str_bytes ''/connect '' @ arg) st = Some st'"
  shows "as_hs_attempt_count st' \<le> 5 \<and> (as_peers st' = as_peers st \<or>
    (\<exists>i. free_slot st = Some i \<and> keeps i st st' \<and> validate_onion_address (ne_onion E) (skip_spaces arg) \<and> skip_spaces arg \<noteq> as_onion_addr st \<and>
       (\<forall>j < NOX_MAX_PEERS. j \<noteq> i \<and> ps_fd (get_peer st j) \<ge> 0 \<longrightarrow> ps_peer_onion (get_peer st j) \<noteq> skip_spaces arg) \<and>
       as_hs_attempt_count st' = as_hs_attempt_count (outbound_window st) + 1 \<and> dial_result i (skip_spaces arg) st'))"
  using connect_cases [OF r [unfolded connect_line]]
proof (elim disjE exE conjE)
  assume "as_peers st' = as_peers st" "as_hs_attempt_count st \<le> 5 \<longrightarrow> as_hs_attempt_count st' \<le> 5"
  then show ?thesis using assms(3) by simp
next
  fix i fd s assume a: "free_slot st = Some i" "fd \<ge> 0" "as_peers s = as_peers st" "st' = dialled E io i fd (skip_spaces arg) s"
    and v: "validate_onion_address (ne_onion E) (skip_spaces arg)" "skip_spaces arg \<noteq> as_onion_addr st"
      "\<forall>j < NOX_MAX_PEERS. j \<noteq> i \<and> ps_fd (get_peer st j) \<ge> 0 \<longrightarrow> ps_peer_onion (get_peer st j) \<noteq> skip_spaces arg"
    and c: "as_hs_attempt_count (outbound_window st) < 5" "as_hs_attempt_count s = as_hs_attempt_count (outbound_window st) + 1"
  have i: "i < NOX_MAX_PEERS" "ps_state (get_peer s i) = ST_IDLE" using free_slotD [OF a(1)] a(3) by (simp_all add: get_peer_def)
  have "well i s" using assms(1,2) i(1) a(3) by (simp add: well_def get_peer_def)
  note d = dialled_result [OF this i(2) a(2) valid_onion_length [OF v(1)], of E io]
  have "keeps i s st'" using serves_dialled [OF serves_refl, of i s E io fd "skip_spaces arg"] a(4) by (simp add: serves_def)
  then have "keeps i st st'" using a(3) by (simp add: keeps_def get_peer_def)
  then show ?thesis using d a(1,4) v c by simp
qed

definition toy_dial :: cmd_io where
  "toy_dial = \<lparr>ci_socks = \<lparr>sk_socket = 7, sk_connect = True, sk_writes = [W_ok 3, W_ok 70],
       sk_reads = drip [5, 0, 5, 0, 0, 1, 0, 0, 0, 0, 0, 0], sk_getfl = 0, sk_setfl = True\<rparr>,
     ci_socks_path = [47], ci_connected_at = 1010, ci_epoll_ok = True,
     ci_file = \<lparr>sf_fd = -1, sf_stat = None, sf_lock = False, sf_reads = [], sf_seek = False\<rparr>\<rparr>"

theorem dial_bound_witness:
  "\<exists>st'. process_line toy_env toy_dial (str_bytes ''/connect '' @ demo_addr) toy_sys = Some st' \<and> dial_result 0 demo_addr st' \<and>
     ps_state (get_peer st' 0) = ST_HANDSHAKE_INIT"
proof -
  have e: "map_option (\<lambda>s. ps_state (get_peer s 0)) (process_line toy_env toy_dial (str_bytes ''/connect '' @ demo_addr) toy_sys) =
    Some ST_HANDSHAKE_INIT" by code_simp
  then obtain st' where s: "process_line toy_env toy_dial (str_bytes ''/connect '' @ demo_addr) toy_sys = Some st'"
    "ps_state (get_peer st' 0) = ST_HANDSHAKE_INIT" by auto
  have f: "free_slot toy_sys = Some 0" "skip_spaces demo_addr = demo_addr" "as_hs_attempt_count toy_sys = 0"
    "ps_state (get_peer toy_sys 0) = ST_IDLE" by code_simp+
  have ok: "slot_ok (get_peer toy_sys i)" if "i < NOX_MAX_PEERS" for i using that init_peer_ok by (simp add: toy_sys_def get_peer_def)
  have "as_peers st' \<noteq> as_peers toy_sys" using s(2) f(4) by (auto simp: get_peer_def)
  then have "dial_result 0 demo_addr st'"
    using dial_bound [OF _ _ _ s(1)] f ok by (auto simp: toy_sys_def)
  then show ?thesis using s by blast
qed

end
