(* ===== verification/Nox_Terminal.thy ===== *)
theory Nox_Terminal
  imports Nox_Common "HOL-Library.Sublist"
begin

text \<open>
  Text that reaches the terminal and text that comes from it: \<open>ui_strip_ansi\<close> of \<^verbatim>\<open>src/frontend.c\<close>, which
  every message passes before it is printed, and \<open>sanitize_log_newlines\<close> and \<open>validate_pin\<close> of
  \<^verbatim>\<open>src/log.c\<close>. Strings are lists of bytes without the terminating NUL. The writes of
  \<open>ui_strip_ansi\<close> never pass its reads, so the result can be a new list.
\<close>

section \<open>Escape sequences\<close>

definition ESC :: byte where "ESC = 27"
definition BEL :: byte where "BEL = 7"

text \<open>Parameter and intermediate bytes of a control sequence.\<close>

definition csi_param :: "byte \<Rightarrow> bool" where
  "csi_param c \<longleftrightarrow> (48 \<le> c \<and> c \<le> 63) \<or> (32 \<le> c \<and> c \<le> 47)"

text \<open>The string terminator \<^verbatim>\<open>ESC \\<close>.\<close>

definition at_st :: "bytes \<Rightarrow> bool" where
  "at_st s \<longleftrightarrow> take 2 s = [ESC, 92]"

fun osc_scan :: "nat \<Rightarrow> bytes \<Rightarrow> bytes" where
  "osc_scan n [] = []"
| "osc_scan 0 (c # s) = c # s"
| "osc_scan (Suc n) (c # s) = (if c = BEL \<or> at_st (c # s) then c # s else osc_scan n s)"

fun dcs_scan :: "nat \<Rightarrow> bytes \<Rightarrow> bytes" where
  "dcs_scan n [] = []"
| "dcs_scan 0 (c # s) = c # s"
| "dcs_scan (Suc n) (c # s) = (if at_st (c # s) then c # s else dcs_scan n s)"

definition osc_skip :: "bytes \<Rightarrow> bytes" where
  "osc_skip s = (let s = osc_scan 256 s in if take 1 s = [BEL] then drop 1 s else if at_st s then drop 2 s else s)"

definition dcs_skip :: "bytes \<Rightarrow> bytes" where
  "dcs_skip s = (let s = dcs_scan 256 s in if at_st s then drop 2 s else s)"

text \<open>What follows the sequence that starts with the \<^verbatim>\<open>ESC\<close> before \<open>s\<close>.\<close>

definition after_escape :: "bytes \<Rightarrow> bytes" where
  "after_escape s = (case s of [] \<Rightarrow> []
     | c # r \<Rightarrow> if c = 91 then drop 1 (dropWhile csi_param r)
                else if c = 93 then osc_skip r
                else if c = 80 then dcs_skip r
                else r)"

definition dropped_control :: "byte \<Rightarrow> bool" where
  "dropped_control c \<longleftrightarrow> (c < 32 \<and> c \<noteq> 9 \<and> c \<noteq> 10 \<and> c \<noteq> 13) \<or> c = 127"

lemma osc_scan_length: "length (osc_scan n s) \<le> length s"
  by (induction n s rule: osc_scan.induct) auto

lemma dcs_scan_length: "length (dcs_scan n s) \<le> length s"
  by (induction n s rule: dcs_scan.induct) auto

lemma after_escape_length [termination_simp]: "length (after_escape s) \<le> length s"
proof (cases s)
  case (Cons c r)
  have "length (dropWhile csi_param r) \<le> length r" by (rule length_dropWhile_le)
  then show ?thesis
    using Cons osc_scan_length [of 256 r] dcs_scan_length [of 256 r]
    by (auto simp: after_escape_def osc_skip_def dcs_skip_def Let_def)
qed (simp add: after_escape_def)

fun ui_strip_ansi :: "bytes \<Rightarrow> bytes" where
  "ui_strip_ansi [] = []"
| "ui_strip_ansi (c # s) =
     (if c = ESC then ui_strip_ansi (after_escape s)
      else if dropped_control c then ui_strip_ansi s
      else c # ui_strip_ansi s)"

section \<open>Log lines and PINs\<close>

definition sanitize_log_newlines :: "bytes \<Rightarrow> bytes" where
  "sanitize_log_newlines s = map (\<lambda>c. if c = 10 \<or> c = 13 then 32 else c) s"


definition pin_bad :: "byte \<Rightarrow> bool" where
  "pin_bad c \<longleftrightarrow> c = 0 \<or> (c < 32 \<and> c \<noteq> 9) \<or> c = 127"

definition validate_pin :: "bytes option \<Rightarrow> nox_err_t" where
  "validate_pin pin = (case pin of None \<Rightarrow> NOX_ERR_PIN
     | Some p \<Rightarrow> if length p < NOX_PIN_MIN_LEN then NOX_ERR_PIN
                  else if length p > NOX_PIN_MAX_LEN then NOX_ERR_PIN
                  else if list_ex pin_bad p then NOX_ERR_PIN
                  else NOX_OK)"

section \<open>Properties\<close>

lemma osc_scan_suffix: "suffix (osc_scan n s) s"
  by (induction n s rule: osc_scan.induct) (auto intro: suffix_ConsI)

lemma dcs_scan_suffix: "suffix (dcs_scan n s) s"
  by (induction n s rule: dcs_scan.induct) (auto intro: suffix_ConsI)

lemma suffix_drop_of: "suffix t s \<Longrightarrow> suffix (drop n t) s"
  using suffix_drop suffix_order.trans by blast

lemma after_escape_suffix: "suffix (after_escape s) s"
proof (cases s)
  case (Cons c r)
  have "suffix (after_escape s) r"
    using Cons suffix_drop_of [OF osc_scan_suffix] suffix_drop_of [OF dcs_scan_suffix] suffix_drop_of [OF suffix_dropWhile]
      osc_scan_suffix dcs_scan_suffix
    by (auto simp: after_escape_def osc_skip_def dcs_skip_def Let_def)
  then show ?thesis using Cons by (simp add: suffix_ConsI)
qed (simp add: after_escape_def)

lemma strip_subseq: "subseq (ui_strip_ansi s) s"
proof (induction s rule: ui_strip_ansi.induct)
  case (2 c s)
  have "subseq (after_escape s) s" by (intro suffix_imp_subseq after_escape_suffix)
  then show ?case using 2 subseq_order.trans by (auto intro: subseq_Cons')
qed simp

lemma strip_safe: "x \<in> set (ui_strip_ansi s) \<Longrightarrow> \<not> dropped_control x \<and> x \<noteq> ESC"
  by (induction s rule: ui_strip_ansi.induct) (auto split: if_splits)

lemma strip_harmless: "\<forall>x \<in> set s. \<not> dropped_control x \<and> x \<noteq> ESC \<Longrightarrow> ui_strip_ansi s = s"
  by (induction s) auto

lemma osc_scan_data:
  assumes "length d \<le> n" "BEL \<notin> set d" "ESC \<notin> set d"
  shows "osc_scan n (d @ BEL # s) = BEL # s"
  using assms
proof (induction n d rule: osc_scan.induct)
  case (1 n)
  then show ?case by (cases n) simp_all
qed (auto simp: at_st_def)

lemma strip_prefix: "\<forall>x \<in> set a. \<not> dropped_control x \<and> x \<noteq> ESC \<Longrightarrow> ui_strip_ansi (a @ s) = a @ ui_strip_ansi s"
  by (induction a) auto

text \<open>Nothing a peer sends can steer the terminal. Whatever the text, what \<open>ui_strip_ansi\<close> leaves is
  part of it in its order and holds no escape character and no control character but tab, line feed
  and carriage return; a text without such characters is not changed (so stripping twice is stripping
  once); and from a text with a colour or cursor sequence, or with a title sequence of up to 256 bytes,
  exactly that sequence is removed.\<close>

theorem strip_ansi_exact:
  "subseq (ui_strip_ansi s) s \<and>
   list_all (\<lambda>x. 32 \<le> x \<and> x \<noteq> 127 \<or> x = 9 \<or> x = 10 \<or> x = 13) (ui_strip_ansi s) \<and>
   ui_strip_ansi (ui_strip_ansi s) = ui_strip_ansi s \<and>
   (list_all (\<lambda>x. 32 \<le> x \<and> x \<noteq> 127 \<or> x = 9 \<or> x = 10 \<or> x = 13) a \<longrightarrow>
      (list_all csi_param d \<and> \<not> csi_param f \<longrightarrow> ui_strip_ansi (a @ ESC # 91 # d @ f # s) = a @ ui_strip_ansi s) \<and>
      (length d \<le> 256 \<and> BEL \<notin> set d \<and> ESC \<notin> set d \<longrightarrow> ui_strip_ansi (a @ ESC # 93 # d @ BEL # s) = a @ ui_strip_ansi s))"
proof -
  have ok: "\<not> dropped_control x \<and> x \<noteq> ESC \<longleftrightarrow> 32 \<le> x \<and> x \<noteq> 127 \<or> x = 9 \<or> x = 10 \<or> x = 13" for x
    by (auto simp: dropped_control_def ESC_def not_less)
  have 1: "\<forall>x \<in> set (ui_strip_ansi s). \<not> dropped_control x \<and> x \<noteq> ESC" using strip_safe by blast
  then have 2: "ui_strip_ansi (ui_strip_ansi s) = ui_strip_ansi s" by (rule strip_harmless)
  have 3: "ui_strip_ansi (ESC # 91 # d @ f # s) = ui_strip_ansi s" if "\<forall>x \<in> set d. csi_param x" "\<not> csi_param f"
  proof -
    have "dropWhile csi_param (d @ f # s) = f # s" using that by simp
    then show ?thesis by (simp add: after_escape_def)
  qed
  have 4: "ui_strip_ansi (ESC # 93 # d @ BEL # s) = ui_strip_ansi s" if "length d \<le> 256" "BEL \<notin> set d" "ESC \<notin> set d"
    using osc_scan_data [OF that, of s] by (simp add: after_escape_def osc_skip_def)
  show ?thesis using strip_subseq [of s] 1 2 3 4 strip_prefix [of a] unfolding ok list_all_iff by auto
qed

theorem strip_ansi_exact_witness:
  "ui_strip_ansi ([72, 105] @ ESC # 91 # [51, 49] @ 109 # [33]) = [72, 105] @ ui_strip_ansi [33]"
  using strip_ansi_exact [of "[33]" "[72, 105]" "[51, 49]" 109] by (simp add: csi_param_def)

end
