(* ===== verification/Nox_Control.thy ===== *)
theory Nox_Control
  imports Nox_File
begin

text \<open>
  The client of Tor's control port, from \<^verbatim>\<open>src/network.c\<close>: reading lines and replies under a deadline,
  authentication with the cookie, waiting for the bootstrap, creating the onion service; and the key
  of the service from \<^verbatim>\<open>src/crypto.c\<close>. The answers of the kernel are sequences that the calls consume;
  the bytes written to the port and the effects on files are recorded. A call that is still waiting
  when the answers end has not returned (\<open>None\<close>).
\<close>

section \<open>The connection\<close>

text \<open>One round of \<open>ctrl_read_line\<close>: the flag \<open>g_shutdown\<close>, the time left, the answers of \<open>poll\<close> and \<open>read\<close>.\<close>

type_synonym ctrl_round = "bool \<times> int \<times> poll_ans \<times> read_ans"

record ctrl_io =
  ct_writes :: "write_ans list"
  ct_clock :: "int list"
  ct_rounds :: "ctrl_round list"
  ct_sent :: bytes
  ct_log :: "effect list"

definition ctrl_send_command :: "bytes \<Rightarrow> ctrl_io \<Rightarrow> (nox_err_t \<times> ctrl_io) option" where
  "ctrl_send_command cmd io =
     (case write_full (ct_writes io) cmd of None \<Rightarrow> None
      | Some (err, out, ws) \<Rightarrow> Some (err, io\<lparr>ct_writes := ws, ct_sent := ct_sent io @ out\<rparr>))"

fun line_loop :: "ctrl_round list \<Rightarrow> nat \<Rightarrow> bytes \<Rightarrow> (nox_err_t \<times> bytes \<times> ctrl_round list) option" where
  "line_loop rs 0 buf = Some (NOX_ERR_OVERFLOW, buf, rs)"
| "line_loop [] (Suc n) buf = None"
| "line_loop ((shutdown, remaining_ms, ret, r) # rs) (Suc n) buf =
     (if shutdown then Some (NOX_ERR_TOR, buf, rs)
      else if remaining_ms \<le> 0 then Some (NOX_ERR_TOR, buf, rs)
      else case ret of
        Poll_intr \<Rightarrow> line_loop rs (Suc n) buf
      | Poll_err \<Rightarrow> Some (NOX_ERR_IO, buf, rs)
      | Poll_timeout \<Rightarrow> Some (NOX_ERR_TOR, buf, rs)
      | Poll_ready \<Rightarrow>
          (case r of
             R_data (c # _) \<Rightarrow> if c = 10 then Some (NOX_OK, buf @ [c], rs) else line_loop rs n (buf @ [c])
           | _ \<Rightarrow> Some (NOX_ERR_TOR, buf, rs)))"

definition ctrl_read_line :: "nat \<Rightarrow> ctrl_io \<Rightarrow> (nox_err_t \<times> bytes \<times> ctrl_io) option" where
  "ctrl_read_line buf_size io =
     (if buf_size < 2 then Some (NOX_ERR_CONFIG, [], io)
      else map_option (\<lambda>(err, line, rs). (err, line, io\<lparr>ct_rounds := rs\<rparr>)) (line_loop (ct_rounds io) (buf_size - 1) []))"

definition MAX_RESPONSE_LINES :: nat where "MAX_RESPONSE_LINES = 64"

text \<open>The time left is read before every line; \<open>strlen\<close> ends a line at its first NUL.\<close>

fun response_loop :: "int list \<Rightarrow> nat \<Rightarrow> bytes \<Rightarrow> nat \<Rightarrow> ctrl_io \<Rightarrow> (nox_err_t \<times> bytes \<times> ctrl_io) option" where
  "response_loop [] buf_size buf nlines io = None"
| "response_loop (remaining_ms # clock) buf_size buf nlines io =
     (let io = io\<lparr>ct_clock := clock\<rparr> in
      if remaining_ms \<le> 0 then Some (NOX_ERR_TOR, buf, io)
      else case ctrl_read_line 256 io of None \<Rightarrow> None
      | Some (err, line, io) \<Rightarrow>
        if err \<noteq> NOX_OK then Some (err, buf, io)
        else let line = c_str line; nlines = nlines + 1 in
        if nlines > MAX_RESPONSE_LINES then Some (NOX_ERR_OVERFLOW, buf, io)
        else if length buf + length line + 1 \<ge> buf_size then Some (NOX_ERR_OVERFLOW, buf, io)
        else let buf = buf @ line in
        if take 4 line = str_bytes ''250 '' then Some (NOX_OK, buf, io)
        else if length line \<ge> 3 \<and> (line ! 0 = 52 \<or> line ! 0 = 53) then Some (NOX_ERR_TOR, buf, io)
        else response_loop clock buf_size buf nlines io)"

definition ctrl_read_response :: "nat \<Rightarrow> ctrl_io \<Rightarrow> (nox_err_t \<times> bytes \<times> ctrl_io) option" where
  "ctrl_read_response buf_size io = response_loop (ct_clock io) buf_size [] 0 io"

text \<open>A command and its reply, as all three clients below use them.\<close>

definition ctrl_command :: "bytes \<Rightarrow> nat \<Rightarrow> ctrl_io \<Rightarrow> (nox_err_t \<times> bytes \<times> ctrl_io) option" where
  "ctrl_command cmd buf_size io =
     (case ctrl_send_command cmd io of None \<Rightarrow> None
      | Some (err, io) \<Rightarrow> if err \<noteq> NOX_OK then Some (err, [], io) else ctrl_read_response buf_size io)"

section \<open>Authentication\<close>

definition hex_digit :: "byte \<Rightarrow> byte" where
  "hex_digit n = (if n < 10 then 48 + n else 87 + n)"

definition hex_bytes :: "bytes \<Rightarrow> bytes" where
  "hex_bytes b = concat (map (\<lambda>c. [hex_digit (drop_bit 4 c), hex_digit (c AND 15)]) b)"

definition CRLF :: bytes where "CRLF = [13, 10]"

text \<open>The cookie file: the answers of \<open>open\<close>, \<open>fstat\<close> (the size) and the reads; \<open>unlink\<close> is recorded, its
  failure only logged.\<close>

record cookie_file =
  ck_fd :: int
  ck_size :: "int option"
  ck_reads :: "read_round list"

definition tor_authenticate :: "cookie_file \<Rightarrow> bytes \<Rightarrow> ctrl_io \<Rightarrow> (nox_err_t \<times> ctrl_io) option" where
  "tor_authenticate ck data_dir io =
     (let cookie_path = data_dir @ str_bytes ''/control_auth_cookie'' in
      if length cookie_path \<ge> NOX_PATH_MAX then Some (NOX_ERR_CONFIG, io)
      else if ck_fd ck < 0 then Some (NOX_ERR_TOR, io)
      else let closed = io\<lparr>ct_log := ct_log io @ [E_close (ck_fd ck)]\<rparr> in
      if ck_size ck \<noteq> Some 32 then Some (NOX_ERR_TOR, closed)
      else case read_full (ck_reads ck) 32 of None \<Rightarrow> None
      | Some (err, cookie, _) \<Rightarrow>
        if err \<noteq> NOX_OK then Some (NOX_ERR_TOR, closed)
        else let io = closed\<lparr>ct_log := ct_log closed @ [E_unlink cookie_path]\<rparr> in
        case ctrl_command (str_bytes ''AUTHENTICATE '' @ hex_bytes cookie @ CRLF) 256 io of None \<Rightarrow> None
        | Some (err, resp, io) \<Rightarrow> Some (err, io))"

section \<open>Bootstrap\<close>

text \<open>The suffix from the first occurrence on, as \<open>strstr\<close> returns it.\<close>

fun strstr :: "bytes \<Rightarrow> bytes \<Rightarrow> bytes option" where
  "strstr needle [] = (if needle = [] then Some [] else None)"
| "strstr needle (c # s) = (if take (length needle) (c # s) = needle then Some (c # s) else strstr needle s)"

fun bootstrap_loop :: "nat \<Rightarrow> bool list \<Rightarrow> ctrl_io \<Rightarrow> (nox_err_t \<times> ctrl_io) option" where
  "bootstrap_loop 0 sd io = Some (NOX_ERR_TOR, io)"
| "bootstrap_loop (Suc n) sd io =
     (if sd \<noteq> [] \<and> hd sd then Some (NOX_ERR_TOR, io)
      else case ctrl_command (str_bytes ''GETINFO status/bootstrap-phase'' @ CRLF) 512 io of None \<Rightarrow> None
      | Some (err, resp, io) \<Rightarrow>
        if err \<noteq> NOX_OK then Some (err, io)
        else if strstr (str_bytes ''PROGRESS=100'') resp \<noteq> None then Some (NOX_OK, io)
        else bootstrap_loop n (tl sd) io)"

text \<open>A poll every two seconds; \<open>sd\<close> are the values of \<open>g_shutdown\<close> at the polls (false when the list ends).\<close>

definition tor_wait_bootstrap :: "int \<Rightarrow> bool list \<Rightarrow> ctrl_io \<Rightarrow> (nox_err_t \<times> ctrl_io) option" where
  "tor_wait_bootstrap timeout_sec sd io =
     (if timeout_sec \<le> 0 \<or> timeout_sec > 3600 then Some (NOX_ERR_TOR, io)
      else bootstrap_loop (nat ((timeout_sec + 1) div 2)) sd io)"

section \<open>The onion service\<close>

definition parse_service_id :: "onion_crypto \<Rightarrow> bytes \<Rightarrow> nat \<Rightarrow> nox_err_t \<times> bytes" where
  "parse_service_id C resp onion_len =
     (case strstr (str_bytes ''ServiceID='') resp of None \<Rightarrow> (NOX_ERR_TOR, [])
      | Some s \<Rightarrow>
        let sid = drop 10 s in
        if length sid < 56 then (NOX_ERR_TOR, [])
        else if length (takeWhile (\<lambda>c. c \<noteq> 13 \<and> c \<noteq> 10) (take 56 sid)) \<noteq> 56 then (NOX_ERR_TOR, [])
        else if onion_len < 63 then (NOX_ERR_OVERFLOW, [])
        else let candidate = take 56 sid @ str_bytes ''.onion'' in
        if \<not> validate_onion_address C candidate then (NOX_ERR_TOR, []) else (NOX_OK, candidate))"

text \<open>SHA-512, Base64 and the subkeys of libsodium.\<close>

record tor_crypto =
  tc_sha512 :: "bytes \<Rightarrow> bytes"
  tc_b64 :: "bytes \<Rightarrow> bytes option"
  tc_kdf :: "bytes \<Rightarrow> nat \<Rightarrow> bytes option"

definition NOX_SUBKEY_ONION_SEED :: nat where "NOX_SUBKEY_ONION_SEED = 4"

definition crypto_derive_onion_seed :: "tor_crypto \<Rightarrow> bytes \<Rightarrow> nox_err_t \<times> bytes" where
  "crypto_derive_onion_seed T master_key =
     (case tc_kdf T master_key NOX_SUBKEY_ONION_SEED of None \<Rightarrow> (NOX_ERR_CRYPTO, zeros 32) | Some s \<Rightarrow> (NOX_OK, s))"

definition clamp :: "bytes \<Rightarrow> bytes" where
  "clamp h = h[0 := h ! 0 AND 248, 31 := (h ! 31 AND 63) OR 64]"

definition derive_tor_expanded_key :: "onion_crypto \<Rightarrow> tor_crypto \<Rightarrow> bytes \<Rightarrow> nox_err_t \<times> bytes \<times> bytes" where
  "derive_tor_expanded_key C T seed =
     (let h = clamp (tc_sha512 T seed) in
      case oc_seed_keypair C seed of None \<Rightarrow> (NOX_ERR_CRYPTO, zeros 64, zeros 32)
      | Some (pub, _) \<Rightarrow> (NOX_OK, h, pub))"

definition b64_char :: "byte \<Rightarrow> bool" where
  "b64_char c \<longleftrightarrow> 65 \<le> c \<and> c \<le> 90 \<or> 97 \<le> c \<and> c \<le> 122 \<or> 48 \<le> c \<and> c \<le> 57 \<or> c = 43 \<or> c = 47 \<or> c = 61"

definition NOX_ONION_KEY_B64_MAX :: nat where "NOX_ONION_KEY_B64_MAX = 88"

definition add_onion_command :: "bytes \<Rightarrow> bytes \<Rightarrow> bytes" where
  "add_onion_command b64_key listen_path =
     str_bytes ''ADD_ONION ED25519-V3:'' @ b64_key @ str_bytes '' Port=9876,unix:'' @ listen_path @ CRLF"

text \<open>The steps both functions share, from the seed on.\<close>

definition add_onion :: "onion_crypto \<Rightarrow> tor_crypto \<Rightarrow> bytes \<Rightarrow> bytes \<Rightarrow> nat \<Rightarrow> ctrl_io \<Rightarrow> (nox_err_t \<times> bytes \<times> ctrl_io) option" where
  "add_onion C T listen_path seed onion_len io =
     (case derive_tor_expanded_key C T seed of (err, expanded_sk, pub) \<Rightarrow>
      if err \<noteq> NOX_OK then Some (NOX_ERR_CRYPTO, [], io)
      else case tc_b64 T expanded_sk of None \<Rightarrow> Some (NOX_ERR_CRYPTO, [], io)
      | Some b64_key \<Rightarrow>
        if length (takeWhile b64_char b64_key) \<noteq> NOX_ONION_KEY_B64_MAX then Some (NOX_ERR_CRYPTO, [], io)
        else let cmd = add_onion_command b64_key listen_path in
        if length cmd \<ge> 256 then Some (NOX_ERR_OVERFLOW, [], io)
        else case ctrl_command cmd 512 io of None \<Rightarrow> None
        | Some (err, resp, io) \<Rightarrow>
          if err \<noteq> NOX_OK then Some (err, [], io)
          else case parse_service_id C resp onion_len of (err, onion) \<Rightarrow> Some (err, onion, io))"

definition has_crlf :: "bytes \<Rightarrow> bool" where
  "has_crlf s \<longleftrightarrow> 13 \<in> set s \<or> 10 \<in> set s"

text \<open>Ghost mode: a fresh seed, handed out on success only.\<close>

definition tor_create_new_hs ::
    "onion_crypto \<Rightarrow> tor_crypto \<Rightarrow> bytes \<Rightarrow> bytes \<Rightarrow> nat \<Rightarrow> ctrl_io \<Rightarrow> (nox_err_t \<times> bytes option \<times> bytes \<times> ctrl_io) option" where
  "tor_create_new_hs C T onion_seed listen_path onion_len io =
     (if has_crlf listen_path then Some (NOX_ERR_CONFIG, None, [], io)
      else map_option (\<lambda>(err, onion, io). (err, if err = NOX_OK then Some onion_seed else None, onion, io))
             (add_onion C T listen_path onion_seed onion_len io))"

definition tor_create_derived_hs ::
    "onion_crypto \<Rightarrow> tor_crypto \<Rightarrow> bytes \<Rightarrow> bytes \<Rightarrow> nat \<Rightarrow> ctrl_io \<Rightarrow> (nox_err_t \<times> bytes \<times> ctrl_io) option" where
  "tor_create_derived_hs C T master_key listen_path onion_len io =
     (if has_crlf listen_path then Some (NOX_ERR_CONFIG, [], io)
      else case crypto_derive_onion_seed T master_key of (err, seed) \<Rightarrow>
      if err \<noteq> NOX_OK then Some (err, [], io) else add_onion C T listen_path seed onion_len io)"

end
