(* ===== verification/Nox_Control_Props.thy ===== *)
theory Nox_Control_Props
  imports Nox_Control
begin

text \<open>
  Properties of the control-port client: replies stay within their buffers and end with a success line,
  and a service that was created has a valid address and cost exactly one command line.
\<close>

section \<open>Lines and replies\<close>

lemma read_line_frame:
  assumes "ctrl_read_line n io = Some (err, line, io')"
  shows "ct_sent io' = ct_sent io" "ct_log io' = ct_log io" "ct_writes io' = ct_writes io" "ct_clock io' = ct_clock io"
  using assms by (auto simp: ctrl_read_line_def map_option_case split: if_splits option.splits prod.splits)

text \<open>What a reply leaves in its buffer.\<close>

definition reply_ok :: "nat \<Rightarrow> nox_err_t \<Rightarrow> bytes \<Rightarrow> bool" where
  "reply_ok cap err buf \<longleftrightarrow> (buf = [] \<or> length buf + 1 < cap) \<and>
     (err = NOX_OK \<longrightarrow> (\<exists>pre line. buf = pre @ line \<and> take 4 line = str_bytes ''250 ''))"

lemma response_loop_reply:
  "response_loop clock cap buf nlines io = Some (err, out, io') \<Longrightarrow> buf = [] \<or> length buf + 1 < cap \<Longrightarrow>
     reply_ok cap err out \<and> ct_sent io' = ct_sent io \<and> ct_log io' = ct_log io"
proof (induction clock cap buf nlines io rule: response_loop.induct)
  case (2 t clock cap buf nlines io)
  let ?io = "io\<lparr>ct_clock := clock\<rparr>"
  show ?case
  proof (cases "t \<le> 0")
    case True
    then show ?thesis using "2.prems" by (auto simp: reply_ok_def Let_def)
  next
    case False
    then obtain e line io1 where l: "ctrl_read_line 256 ?io = Some (e, line, io1)"
      using "2.prems" by (auto simp: Let_def split: option.splits)
    note fr = read_line_frame [OF l]
    let ?line = "c_str line" and ?buf = "buf @ c_str line"
    show ?thesis
    proof (cases "e = NOX_OK \<and> \<not> nlines + 1 > MAX_RESPONSE_LINES \<and> \<not> length buf + length ?line + 1 \<ge> cap")
      case False
      then have "out = buf" "io' = io1" "err \<noteq> NOX_OK" using "2.prems"(1) \<open>\<not> t \<le> 0\<close> l by (auto simp: Let_def split: if_splits)
      then show ?thesis using "2.prems"(2) fr by (simp add: reply_ok_def)
    next
      case True
      then have b: "length ?buf + 1 < cap" by simp
      have eq: "response_loop (t # clock) cap buf nlines io =
          (if take 4 ?line = str_bytes ''250 '' then Some (NOX_OK, ?buf, io1)
           else if length ?line \<ge> 3 \<and> (?line ! 0 = 52 \<or> ?line ! 0 = 53) then Some (NOX_ERR_TOR, ?buf, io1)
           else response_loop clock cap ?buf (nlines + 1) io1)"
        using \<open>\<not> t \<le> 0\<close> l True by (auto simp: Let_def)
      show ?thesis
      proof (cases "take 4 ?line = str_bytes ''250 '' \<or> length ?line \<ge> 3 \<and> (?line ! 0 = 52 \<or> ?line ! 0 = 53)")
        case True
        then have "out = ?buf" "io' = io1" "err = NOX_OK \<Longrightarrow> take 4 ?line = str_bytes ''250 ''"
          using "2.prems"(1) unfolding eq by (auto split: if_splits)
        then show ?thesis using b fr by (auto simp: reply_ok_def)
      next
        case more: False
        then have "response_loop clock cap ?buf (nlines + 1) io1 = Some (err, out, io')" using "2.prems"(1) unfolding eq by (simp split: if_splits)
        then show ?thesis
          using "2.IH" [OF refl \<open>\<not> t \<le> 0\<close> l refl refl _ refl refl _ _ refl _ _ _] True more b fr by simp
      qed
    qed
  qed
qed simp

text \<open>Replies of the control port are bounded. Whatever bytes arrive and however they are cut, a
  reply that \<open>ctrl_read_response\<close> has read fits into the caller's buffer with its terminating NUL, it is
  reported as a success only when it ends with a line that starts with the success code, and nothing is
  written to the port meanwhile.\<close>

theorem control_reply_bounded:
  assumes "ctrl_read_response cap io = Some (err, buf, io')"
  shows "(buf = [] \<or> length buf + 1 < cap) \<and>
    (err = NOX_OK \<longrightarrow> (\<exists>pre line. buf = pre @ line \<and> take 4 line = str_bytes ''250 '')) \<and> ct_sent io' = ct_sent io"
  using response_loop_reply [OF assms [unfolded ctrl_read_response_def]] by (simp add: reply_ok_def)

definition ready :: "bytes \<Rightarrow> ctrl_round list" where
  "ready bs = map (\<lambda>b. (False, 1, Poll_ready, R_data [b])) bs"

theorem control_reply_bounded_witness:
  "\<exists>buf io'. ctrl_read_response 64 \<lparr>ct_writes = [], ct_clock = [5, 5],
       ct_rounds = ready (str_bytes ''250-a'' @ CRLF @ str_bytes ''250 OK'' @ CRLF), ct_sent = [], ct_log = []\<rparr> = Some (NOX_OK, buf, io') \<and>
     length buf + 1 < 64"
proof -
  let ?io = "\<lparr>ct_writes = [], ct_clock = [5, 5],
       ct_rounds = ready (str_bytes ''250-a'' @ CRLF @ str_bytes ''250 OK'' @ CRLF), ct_sent = [], ct_log = []\<rparr>"
  have "map_option fst (ctrl_read_response 64 ?io) = Some NOX_OK" by code_simp
  then obtain buf io' where r: "ctrl_read_response 64 ?io = Some (NOX_OK, buf, io')" by auto
  have "buf = [] \<or> length buf + 1 < 64" using control_reply_bounded [OF r] by simp
  then show ?thesis using r by auto
qed

section \<open>The onion service\<close>

lemma command_frame:
  assumes "ctrl_command cmd cap io = Some (err, resp, io')"
  shows "\<exists>out rem. cmd = out @ rem \<and> ct_sent io' = ct_sent io @ out \<and> (err = NOX_OK \<longrightarrow> out = cmd)"
proof -
  obtain e out ws where w: "write_full (ct_writes io) cmd = Some (e, out, ws)"
    using assms by (auto simp: ctrl_command_def ctrl_send_command_def split: option.splits)
  obtain rem where rem: "cmd = out @ rem" and ok: "e = NOX_OK \<longleftrightarrow> out = cmd" using write_full_prefix [OF w] by blast
  let ?io = "io\<lparr>ct_writes := ws, ct_sent := ct_sent io @ out\<rparr>"
  have "ct_sent io' = ct_sent ?io \<and> (err = NOX_OK \<longrightarrow> e = NOX_OK)"
  proof (cases "e = NOX_OK")
    case True
    then have "response_loop (ct_clock ?io) cap [] 0 ?io = Some (err, resp, io')"
      using assms w by (simp add: ctrl_command_def ctrl_send_command_def ctrl_read_response_def)
    from response_loop_reply [OF this] show ?thesis using True by simp
  qed (use assms w in \<open>simp add: ctrl_command_def ctrl_send_command_def\<close>)
  then show ?thesis using rem ok by auto
qed

lemma strstr_suffix: "strstr n s = Some r \<Longrightarrow> \<exists>p. s = p @ r \<and> take (length n) r = n"
proof (induction n s rule: strstr.induct)
  case (2 n c s)
  show ?case
  proof (cases "take (length n) (c # s) = n")
    case True
    then show ?thesis using "2.prems" by (intro exI [of _ "[]"]) auto
  next
    case False
    then obtain p where "s = p @ r" "take (length n) r = n" using 2 by auto
    then show ?thesis by (intro exI [of _ "c # p"]) simp
  qed
qed (simp split: if_splits)

lemma parse_service_id_ok:
  assumes "parse_service_id C resp n = (NOX_OK, onion)"
  shows "validate_onion_address C onion \<and> (\<exists>p q. resp = p @ str_bytes ''ServiceID='' @ take 56 onion @ q)"
proof -
  obtain s where s: "strstr (str_bytes ''ServiceID='') resp = Some s" "length (drop 10 s) \<ge> 56"
    "onion = take 56 (drop 10 s) @ str_bytes ''.onion''" "validate_onion_address C onion"
    using assms by (auto simp: parse_service_id_def Let_def split: option.splits if_splits)
  have l: "length (str_bytes ''ServiceID='') = 10" by (simp add: str_bytes_def)
  obtain p where p: "resp = p @ s" "take 10 s = str_bytes ''ServiceID=''" using strstr_suffix [OF s(1)] l by auto
  have o: "take 56 onion = take 56 (drop 10 s)" using s(2,3) by simp
  have "s = take 10 s @ take 56 (drop 10 s) @ drop 56 (drop 10 s)" by (metis append_take_drop_id)
  then have "resp = p @ str_bytes ''ServiceID='' @ take 56 onion @ drop 56 (drop 10 s)" using p o by simp
  then show ?thesis using s(4) by blast
qed

text \<open>A published service: the command is one line for the key of the seed, and the address is a valid
  one from the reply.\<close>

definition one_line :: "bytes \<Rightarrow> bool" where
  "one_line cmd \<longleftrightarrow> (\<exists>l. cmd = l @ CRLF \<and> \<not> has_crlf l)"

definition published :: "onion_crypto \<Rightarrow> tor_crypto \<Rightarrow> bytes \<Rightarrow> bytes \<Rightarrow> bytes \<Rightarrow> ctrl_io \<Rightarrow> ctrl_io \<Rightarrow> bool" where
  "published C T seed path onion io io' \<longleftrightarrow> validate_onion_address C onion \<and>
     (\<exists>b64_key. tc_b64 T (clamp (tc_sha512 T seed)) = Some b64_key \<and>
        ct_sent io' = ct_sent io @ add_onion_command b64_key path \<and> one_line (add_onion_command b64_key path))"

lemma b64_no_crlf: "b64_char c \<Longrightarrow> c \<noteq> 13 \<and> c \<noteq> 10"
  by (auto simp: b64_char_def)

lemma add_onion_published:
  assumes r: "add_onion C T path seed n io = Some (NOX_OK, onion, io')" and p: "\<not> has_crlf path"
    and len: "\<forall>b x. tc_b64 T b = Some x \<longrightarrow> length x \<le> NOX_ONION_KEY_B64_MAX"
  shows "published C T seed path onion io io'"
proof -
  obtain k pub resp io1 b64 where b: "tc_b64 T (clamp (tc_sha512 T seed)) = Some b64" "length (takeWhile b64_char b64) = NOX_ONION_KEY_B64_MAX"
    and c: "ctrl_command (add_onion_command b64 path) 512 io = Some (NOX_OK, resp, io')" "parse_service_id C resp n = (NOX_OK, onion)"
    using r by (auto simp: add_onion_def derive_tor_expanded_key_def Let_def split: option.splits prod.splits if_splits)
  have "length b64 \<le> length (takeWhile b64_char b64)" using len b by simp
  then have "takeWhile b64_char b64 = b64" by (metis length_takeWhile_le le_antisym takeWhile_eq_take take_all_iff)
  then have "\<not> has_crlf b64" using b64_no_crlf by (metis has_crlf_def set_takeWhileD)
  then have "\<not> has_crlf (str_bytes ''ADD_ONION ED25519-V3:'' @ b64 @ str_bytes '' Port=9876,unix:'' @ path)"
    using p by (auto simp: has_crlf_def str_bytes_def)
  then have "one_line (add_onion_command b64 path)"
    unfolding one_line_def add_onion_command_def
    by (intro exI [of _ "str_bytes ''ADD_ONION ED25519-V3:'' @ b64 @ str_bytes '' Port=9876,unix:'' @ path"]) simp
  then show ?thesis
    using b(1) command_frame [OF c(1)] parse_service_id_ok [OF c(2)] by (auto simp: published_def)
qed

text \<open>C27. Creating the onion service, in both modes: when it is reported as created, the control port
  was sent exactly one line, the command for the key of the seed and the path of the listening socket
  (no path can smuggle in a second command), and the address returned is a valid v3 address; a fresh
  seed is handed out only with such a service. (The Base64 encoder fills at most the buffer of 88
  characters it is given.)\<close>

theorem hidden_service_created:
  assumes "\<forall>b x. tc_b64 T b = Some x \<longrightarrow> length x \<le> NOX_ONION_KEY_B64_MAX"
  shows "(tor_create_derived_hs C T master_key path n io = Some (NOX_OK, onion, io') \<longrightarrow>
      (\<exists>seed. tc_kdf T master_key NOX_SUBKEY_ONION_SEED = Some seed \<and> published C T seed path onion io io')) \<and>
    (tor_create_new_hs C T seed path n io = Some (err, s, onion, io') \<longrightarrow>
      (if err = NOX_OK then s = Some seed \<and> published C T seed path onion io io' else s = None))"
proof -
  note pub = add_onion_published [OF _ _ assms]
  have "\<exists>seed. tc_kdf T master_key NOX_SUBKEY_ONION_SEED = Some seed \<and> published C T seed path onion io io'"
    if "tor_create_derived_hs C T master_key path n io = Some (NOX_OK, onion, io')"
    using that pub by (auto simp: tor_create_derived_hs_def crypto_derive_onion_seed_def split: option.splits if_splits prod.splits)
  moreover have "if err = NOX_OK then s = Some seed \<and> published C T seed path onion io io' else s = None"
    if "tor_create_new_hs C T seed path n io = Some (err, s, onion, io')"
    using that pub by (auto simp: tor_create_new_hs_def split: if_splits)
  ultimately show ?thesis by blast
qed

definition toy_tor :: tor_crypto where
  "toy_tor = \<lparr>tc_sha512 = (\<lambda>b. replicate 64 255), tc_b64 = (\<lambda>b. Some (replicate 88 65)), tc_kdf = (\<lambda>k i. Some (zeros 32))\<rparr>"

definition toy_port :: ctrl_io where
  "toy_port = \<lparr>ct_writes = [W_ok 200], ct_clock = [5, 5],
     ct_rounds = ready (str_bytes ''250-ServiceID='' @ take 56 demo_addr @ CRLF @ str_bytes ''250 OK'' @ CRLF), ct_sent = [], ct_log = []\<rparr>"

theorem hidden_service_created_witness:
  "\<exists>io'. tor_create_derived_hs toy_onion toy_tor (zeros 32) [47, 115] 63 toy_port = Some (NOX_OK, demo_addr, io') \<and>
     published toy_onion toy_tor (zeros 32) [47, 115] demo_addr toy_port io'"
proof -
  have "map_option (\<lambda>(e, o', _). (e, o')) (tor_create_derived_hs toy_onion toy_tor (zeros 32) [47, 115] 63 toy_port) = Some (NOX_OK, demo_addr)"
    by code_simp
  then obtain io' where r: "tor_create_derived_hs toy_onion toy_tor (zeros 32) [47, 115] 63 toy_port = Some (NOX_OK, demo_addr, io')" by auto
  moreover have "\<forall>b x. tc_b64 toy_tor b = Some x \<longrightarrow> length x \<le> NOX_ONION_KEY_B64_MAX" by (auto simp: toy_tor_def NOX_ONION_KEY_B64_MAX_def)
  ultimately have "\<exists>seed. tc_kdf toy_tor (zeros 32) NOX_SUBKEY_ONION_SEED = Some seed \<and>
      published toy_onion toy_tor seed [47, 115] demo_addr toy_port io'"
    using hidden_service_created [of toy_tor toy_onion "zeros 32" "[47, 115]" 63 toy_port demo_addr io'] by blast
  then show ?thesis using r by (auto simp: toy_tor_def)
qed

end
