(* ===== verification/Nox_Directory.thy ===== *)
theory Nox_Directory
  imports Nox_Control
begin

text \<open>
  The configuration directory that \<^verbatim>\<open>main.c\<close> pins with a descriptor and on which \<^verbatim>\<open>crypto.c\<close> and the
  wiping of an account work, with the loops \<open>read_exact\<close>, \<open>write_exact\<close>, \<open>fsync_exact\<close> and \<open>fsync_dir\<close>.
  Every system call takes the next outcome of a sequence (done, interrupted, done in part, not
  supported, failed); after the last one calls are done. A file carries a flag that tells whether its
  contents are on the disk, and the directory remembers all its earlier contents, so that a theorem can
  speak of the moment of a crash. No other process writes into the directory.
\<close>

section \<open>Files and system calls\<close>

datatype node = File bytes bool | Link | Dir nat

datatype sys_outcome = Done_all | Done_part nat | Intr | Unsupported | Failed

record config_dir =
  cd_files :: "bytes \<rightharpoonup> node"
  cd_outcomes :: "sys_outcome list"
  cd_open :: int
  cd_past :: "(bytes \<rightharpoonup> node) list"

definition next_outcome :: "config_dir \<Rightarrow> sys_outcome \<times> config_dir" where
  "next_outcome d =
     (case cd_outcomes d of [] \<Rightarrow> (Done_all, d) | f # fs \<Rightarrow> (f, d\<lparr>cd_outcomes := fs\<rparr>))"

definition set_files :: "(bytes \<rightharpoonup> node) \<Rightarrow> config_dir \<Rightarrow> config_dir" where
  "set_files fs d = d\<lparr>cd_files := fs, cd_past := cd_files d # cd_past d\<rparr>"

fun succeeds :: "sys_outcome \<Rightarrow> bool" where
  "succeeds Done_all = True"
| "succeeds (Done_part _) = True"
| "succeeds _ = False"

definition sys_close :: "config_dir \<Rightarrow> config_dir" where
  "sys_close d = d\<lparr>cd_open := cd_open d - 1\<rparr>"

text \<open>\<open>openat\<close> with \<open>O_RDONLY | O_NOFOLLOW\<close> (or \<open>O_WRONLY\<close>, which also refuses a directory); \<open>ENOENT\<close> is
  told apart because the code asks for it.\<close>

datatype open_result = Open_ok | Open_enoent | Open_refused

definition sys_open :: "bool \<Rightarrow> bytes \<Rightarrow> config_dir \<Rightarrow> open_result \<times> config_dir" where
  "sys_open wronly name d =
     (case next_outcome d of (f, d) \<Rightarrow>
      if \<not> succeeds f then (Open_refused, d)
      else case cd_files d name of
        None \<Rightarrow> (Open_enoent, d)
      | Some Link \<Rightarrow> (Open_refused, d)
      | Some (Dir _) \<Rightarrow> if wronly then (Open_refused, d) else (Open_ok, d\<lparr>cd_open := cd_open d + 1\<rparr>)
      | Some (File _ _) \<Rightarrow> (Open_ok, d\<lparr>cd_open := cd_open d + 1\<rparr>))"

text \<open>\<open>openat\<close> with \<open>O_CREAT | O_EXCL\<close>: a name that exists, even as a link, is refused.\<close>

definition sys_create :: "bytes \<Rightarrow> config_dir \<Rightarrow> bool \<times> config_dir" where
  "sys_create name d =
     (case next_outcome d of (f, d) \<Rightarrow>
      if succeeds f \<and> cd_files d name = None
      then (True, set_files ((cd_files d)(name \<mapsto> File [] False)) (d\<lparr>cd_open := cd_open d + 1\<rparr>))
      else (False, d))"

definition sys_fstat :: "bytes \<Rightarrow> config_dir \<Rightarrow> nat option \<times> config_dir" where
  "sys_fstat name d =
     (case next_outcome d of (f, d) \<Rightarrow>
      (if \<not> succeeds f then None
       else case cd_files d name of Some (File c _) \<Rightarrow> Some (length c) | Some (Dir n) \<Rightarrow> Some n | _ \<Rightarrow> None, d))"

datatype rd_ans = Got bytes | Rd_intr | Rd_err

definition sys_read :: "bytes \<Rightarrow> nat \<Rightarrow> nat \<Rightarrow> config_dir \<Rightarrow> rd_ans \<times> config_dir" where
  "sys_read name pos n d =
     (case next_outcome d of (f, d) \<Rightarrow>
      (case f of Intr \<Rightarrow> Rd_intr | Unsupported \<Rightarrow> Rd_err | Failed \<Rightarrow> Rd_err
       | Done_all \<Rightarrow> (case cd_files d name of Some (File c _) \<Rightarrow> Got (take n (drop pos c)) | _ \<Rightarrow> Rd_err)
       | Done_part k \<Rightarrow> (case cd_files d name of Some (File c _) \<Rightarrow> Got (take (min k n) (drop pos c)) | _ \<Rightarrow> Rd_err), d))"

text \<open>\<open>write\<close> at the end of the file: the number of bytes taken, or an error.\<close>

datatype wr_ans = Wrote nat | Wr_intr | Wr_err

definition append_file :: "bytes \<Rightarrow> bytes \<Rightarrow> config_dir \<Rightarrow> config_dir" where
  "append_file name b d =
     (case cd_files d name of Some (File c _) \<Rightarrow> set_files ((cd_files d)(name \<mapsto> File (c @ b) False)) d | _ \<Rightarrow> d)"

definition sys_write :: "bytes \<Rightarrow> bytes \<Rightarrow> config_dir \<Rightarrow> wr_ans \<times> config_dir" where
  "sys_write name b d =
     (case next_outcome d of (f, d) \<Rightarrow>
      (case f of Intr \<Rightarrow> (Wr_intr, d) | Unsupported \<Rightarrow> (Wr_err, d) | Failed \<Rightarrow> (Wr_err, d)
       | Done_all \<Rightarrow> (Wrote (length b), append_file name b d)
       | Done_part k \<Rightarrow> (Wrote (min k (length b)), append_file name (take k b) d)))"

definition sys_unlink :: "bytes \<Rightarrow> config_dir \<Rightarrow> bool \<times> config_dir" where
  "sys_unlink name d =
     (case next_outcome d of (f, d) \<Rightarrow>
      if \<not> succeeds f then (False, d)
      else case cd_files d name of
        None \<Rightarrow> (False, d) | Some (Dir _) \<Rightarrow> (False, d)
      | Some _ \<Rightarrow> (True, set_files ((cd_files d)(name := None)) d))"

text \<open>\<open>renameat\<close> replaces the target at once.\<close>

definition sys_rename :: "bytes \<Rightarrow> bytes \<Rightarrow> config_dir \<Rightarrow> bool \<times> config_dir" where
  "sys_rename from to d =
     (case next_outcome d of (f, d) \<Rightarrow>
      if \<not> succeeds f then (False, d)
      else case cd_files d from of
        Some (File c s) \<Rightarrow>
          (case cd_files d to of Some (Dir _) \<Rightarrow> (False, d)
           | _ \<Rightarrow> (True, set_files ((cd_files d)(from := None, to \<mapsto> File c s)) d))
      | _ \<Rightarrow> (False, d))"

section \<open>Loops\<close>

lemma length_next_outcome [simp]: "length (cd_outcomes (snd (next_outcome d))) = length (cd_outcomes d) - 1"
  by (simp add: next_outcome_def split: list.split)

lemma next_outcome_intr: "next_outcome d = (Intr, d') \<Longrightarrow> length (cd_outcomes d') < length (cd_outcomes d)"
  by (auto simp: next_outcome_def split: list.splits)

lemma outcomes_next_le: "next_outcome d = (f, d') \<Longrightarrow> length (cd_outcomes d') \<le> length (cd_outcomes d)"
  by (auto simp: next_outcome_def split: list.splits)

lemma cd_outcomes_append_file [simp]: "cd_outcomes (append_file name b d) = cd_outcomes d"
  by (simp add: append_file_def set_files_def split: option.split node.split)

lemma sys_read_outcomes:
  "sys_read name pos n d = (Rd_intr, d') \<Longrightarrow> length (cd_outcomes d') < length (cd_outcomes d)"
  "sys_read name pos n d = (a, d') \<Longrightarrow> length (cd_outcomes d') \<le> length (cd_outcomes d)"
  by (auto simp: sys_read_def dest: next_outcome_intr outcomes_next_le
      split: prod.splits sys_outcome.splits option.splits node.splits)

lemma sys_write_outcomes:
  "sys_write name b d = (Wr_intr, d') \<Longrightarrow> length (cd_outcomes d') < length (cd_outcomes d)"
  "sys_write name b d = (a, d') \<Longrightarrow> length (cd_outcomes d') \<le> length (cd_outcomes d)"
  by (auto simp: sys_write_def dest: next_outcome_intr outcomes_next_le split: prod.splits sys_outcome.splits)

text \<open>\<open>read_exact\<close> on a descriptor of \<open>name\<close> at position \<open>pos\<close>: the bytes read and the error code.\<close>

function read_exact :: "bytes \<Rightarrow> nat \<Rightarrow> nat \<Rightarrow> config_dir \<Rightarrow> nox_err_t \<times> bytes \<times> config_dir" where
  "read_exact name pos remaining d =
     (if remaining = 0 then (NOX_OK, [], d)
      else case sys_read name pos remaining d of
        (Rd_intr, d) \<Rightarrow> read_exact name pos remaining d
      | (Rd_err, d) \<Rightarrow> (NOX_ERR_IO, [], d)
      | (Got b, d) \<Rightarrow>
          if b = [] then (NOX_ERR_IO, [], d)
          else case read_exact name (pos + length b) (remaining - length b) d of (e, bs, d) \<Rightarrow> (e, b @ bs, d))"
  by pat_completeness auto
termination
proof (relation "measure (\<lambda>(name, pos, remaining, d). remaining + length (cd_outcomes d))", goal_cases)
  case (2 name pos remaining d x y x1)
  with sys_read_outcomes(2) [of name pos remaining d x y] show ?case by (cases x1) auto
next
  case (3 name pos remaining d x y)
  with sys_read_outcomes(1) [of name pos remaining d y] show ?case by auto
qed simp

function write_exact :: "bytes \<Rightarrow> bytes \<Rightarrow> config_dir \<Rightarrow> nox_err_t \<times> config_dir" where
  "write_exact name b d =
     (if b = [] then (NOX_OK, d)
      else case sys_write name b d of
        (Wr_intr, d) \<Rightarrow> write_exact name b d
      | (Wr_err, d) \<Rightarrow> (NOX_ERR_IO, d)
      | (Wrote n, d) \<Rightarrow> if n = 0 then (NOX_ERR_IO, d) else write_exact name (drop n b) d)"
  by pat_completeness auto
termination
proof (relation "measure (\<lambda>(name, b, d). length b + length (cd_outcomes d))", goal_cases)
  case (2 name b d x y n)
  with sys_write_outcomes(2) [of name b d x y] show ?case by (cases b; cases n) auto
next
  case (3 name b d x y)
  with sys_write_outcomes(1) [of name b d y] show ?case by auto
qed simp

text \<open>\<open>fsync\<close> retried while it is interrupted: the first other outcome.\<close>

fun fsync_retry :: "sys_outcome list \<Rightarrow> sys_outcome \<times> sys_outcome list" where
  "fsync_retry [] = (Done_all, [])"
| "fsync_retry (f # fs) = (if f = Intr then fsync_retry fs else (f, fs))"

definition sync_file :: "bytes \<Rightarrow> config_dir \<Rightarrow> config_dir" where
  "sync_file name d =
     (case cd_files d name of Some (File c _) \<Rightarrow> set_files ((cd_files d)(name \<mapsto> File c True)) d | _ \<Rightarrow> d)"

definition fsync_exact :: "bytes \<Rightarrow> config_dir \<Rightarrow> nox_err_t \<times> config_dir" where
  "fsync_exact name d =
     (case fsync_retry (cd_outcomes d) of (r, fs) \<Rightarrow>
      let d = d\<lparr>cd_outcomes := fs\<rparr> in
      if succeeds r then (NOX_OK, sync_file name d) else (NOX_ERR_IO, d))"

definition fsync_dir :: "config_dir \<Rightarrow> nox_err_t \<times> config_dir" where
  "fsync_dir d =
     (case fsync_retry (cd_outcomes d) of (r, fs) \<Rightarrow>
      let d = d\<lparr>cd_outcomes := fs\<rparr> in
      if succeeds r then (NOX_OK, d)
      else if r = Unsupported then (NOX_OK, d)
      else (NOX_ERR_IO, d))"

declare read_exact.simps [simp del] write_exact.simps [simp del]

end
