(* ===== verification/Nox_Identity.thy ===== *)
theory Nox_Identity
  imports Nox_Directory Nox_Database
begin

text \<open>
  The master key, the salt and the identity file of \<^verbatim>\<open>src/crypto.c\<close>. The primitives of libsodium are
  parameters, random bytes and the process number are arguments, and the configuration directory is the
  one of \<^verbatim>\<open>Nox_Directory\<close>. A pointer that the code compares with NULL is an option.
\<close>

section \<open>Parameters and names\<close>

record key_crypto =
  kc_pwhash :: "bytes \<Rightarrow> bytes \<Rightarrow> bytes option"
  kc_kdf :: "bytes \<Rightarrow> nat \<Rightarrow> bytes option"
  kc_box :: box_crypto
  kc_keypair :: "bytes \<Rightarrow> (bytes \<times> bytes) option"
  kc_sk_to_pk :: "bytes \<Rightarrow> bytes option"
  kc_pk_curve :: "bytes \<Rightarrow> bytes option"
  kc_sk_curve :: "bytes \<Rightarrow> bytes option"

definition NOX_SUBKEY_DB :: nat where "NOX_SUBKEY_DB = 1"
definition NOX_SUBKEY_IDENTITY_UNLOCK :: nat where "NOX_SUBKEY_IDENTITY_UNLOCK = 2"
definition NOX_SUBKEY_SESSION :: nat where "NOX_SUBKEY_SESSION = 3"
definition crypto_sign_SECRETKEYBYTES :: nat where "crypto_sign_SECRETKEYBYTES = 64"
definition IDENTITY_FILE_SIZE :: nat where
  "IDENTITY_FILE_SIZE = NOX_NONCE_LEN + crypto_sign_SECRETKEYBYTES + secretbox_MACBYTES"

lemmas id_consts = NOX_SUBKEY_DB_def NOX_SUBKEY_IDENTITY_UNLOCK_def NOX_SUBKEY_SESSION_def
  crypto_sign_SECRETKEYBYTES_def IDENTITY_FILE_SIZE_def secretbox_MACBYTES_def

text \<open>The conversion \<open>%d\<close> of a process number, and the file names.\<close>

fun dec_bytes :: "nat \<Rightarrow> bytes" where
  "dec_bytes n = (if n < 10 then [of_nat (48 + n)] else dec_bytes (n div 10) @ [of_nat (48 + n mod 10)])"

declare dec_bytes.simps [simp del]

definition SALT_FILE :: bytes where "SALT_FILE = str_bytes ''salt''"
definition IDENTITY_FILE :: bytes where "IDENTITY_FILE = str_bytes ''identity.key''"

definition tmp_name :: "bytes \<Rightarrow> nat \<Rightarrow> bytes \<Rightarrow> bytes" where
  "tmp_name base pid rnd = base @ str_bytes ''.tmp.'' @ dec_bytes pid @ str_bytes ''.'' @ hex_bytes rnd"

text \<open>\<open>sodium_memzero\<close> of the first \<open>n\<close> bytes of a buffer.\<close>

definition wipe :: "nat \<Rightarrow> bytes \<Rightarrow> bytes" where
  "wipe n b = zeros n @ drop n b"

section \<open>Keys\<close>

definition crypto_hash_blake2b :: "(bytes \<Rightarrow> nat \<Rightarrow> bytes option) \<Rightarrow> bytes option \<Rightarrow> nat \<Rightarrow> bytes option \<Rightarrow> nox_err_t \<times> bytes option" where
  "crypto_hash_blake2b H out outlen inp =
     (case (out, inp) of
        (Some b, Some i) \<Rightarrow>
          if outlen = 0 then (NOX_ERR_CRYPTO, out)
          else (case H i outlen of None \<Rightarrow> (NOX_ERR_CRYPTO, out) | Some h \<Rightarrow> (NOX_OK, Some h))
      | _ \<Rightarrow> (NOX_ERR_CRYPTO, out))"

text \<open>The error code, the key buffer and the PIN buffer after the call.\<close>

definition crypto_derive_master_key ::
    "key_crypto \<Rightarrow> bytes option \<Rightarrow> bytes option \<Rightarrow> nat \<Rightarrow> bytes option \<Rightarrow> nox_err_t \<times> bytes option \<times> bytes option" where
  "crypto_derive_master_key K master_key pin pin_len salt =
     (let pin' = map_option (wipe pin_len) pin; key0 = map_option (\<lambda>_. zeros NOX_KEY_LEN) master_key in
      case (master_key, pin, salt) of
        (Some mk, Some p, Some s) \<Rightarrow>
          if pin_len < NOX_PIN_MIN_LEN then (NOX_ERR_PIN, key0, pin')
          else if pin_len > NOX_PIN_MAX_LEN then (NOX_ERR_PIN, key0, pin')
          else (case kc_pwhash K (take pin_len p) s of
             None \<Rightarrow> (NOX_ERR_CRYPTO, key0, pin')
           | Some k \<Rightarrow> (NOX_OK, Some k, pin'))
      | _ \<Rightarrow> (NOX_ERR_PIN, key0, pin'))"

text \<open>Given the three output buffers; a subkey that failed and those before it are wiped.\<close>

definition crypto_derive_subkeys ::
    "key_crypto \<Rightarrow> bytes \<Rightarrow> bytes \<times> bytes \<times> bytes \<Rightarrow> nox_err_t \<times> bytes \<times> bytes \<times> bytes" where
  "crypto_derive_subkeys K master_key bufs =
     (case bufs of (db_buf, identity_unlock_key, session_key) \<Rightarrow>
      case kc_kdf K master_key NOX_SUBKEY_DB of
        None \<Rightarrow> (NOX_ERR_CRYPTO, zeros NOX_KEY_LEN, identity_unlock_key, session_key)
      | Some db \<Rightarrow>
      (case kc_kdf K master_key NOX_SUBKEY_IDENTITY_UNLOCK of
        None \<Rightarrow> (NOX_ERR_CRYPTO, zeros NOX_KEY_LEN, zeros NOX_KEY_LEN, session_key)
      | Some unlock \<Rightarrow>
      (case kc_kdf K master_key NOX_SUBKEY_SESSION of
        None \<Rightarrow> (NOX_ERR_CRYPTO, zeros NOX_KEY_LEN, zeros NOX_KEY_LEN, zeros NOX_KEY_LEN)
      | Some sess \<Rightarrow> (NOX_OK, db, unlock, sess))))"

section \<open>The salt\<close>

text \<open>The second half of \<open>crypto_load_or_create_salt\<close>: write a temporary file, flush it, rename it and
  flush the directory.\<close>

definition salt_create :: "bytes \<Rightarrow> bytes \<Rightarrow> config_dir \<Rightarrow> nox_err_t \<times> config_dir" where
  "salt_create tmp salt d =
     (case sys_create tmp d of (ok, d) \<Rightarrow>
      if \<not> ok then (NOX_ERR_IO, d)
      else case write_exact tmp salt d of (werr, d) \<Rightarrow>
      if werr \<noteq> NOX_OK then (NOX_ERR_IO, snd (sys_unlink tmp (sys_close d)))
      else case fsync_exact tmp d of (e, d) \<Rightarrow>
      let d = sys_close d in
      if e \<noteq> NOX_OK then (NOX_ERR_IO, snd (sys_unlink tmp d))
      else case sys_rename tmp SALT_FILE d of (ok, d) \<Rightarrow>
      if \<not> ok then (NOX_ERR_IO, snd (sys_unlink tmp d))
      else case fsync_dir d of (e, d) \<Rightarrow> if e \<noteq> NOX_OK then (NOX_ERR_IO, d) else (NOX_OK, d))"

text \<open>The random salt and the random bytes of the name are the arguments \<open>fresh\<close> and \<open>rnd\<close>.\<close>

definition crypto_load_or_create_salt ::
    "bytes \<Rightarrow> bytes \<Rightarrow> nat \<Rightarrow> bytes option \<Rightarrow> int \<Rightarrow> config_dir \<Rightarrow> nox_err_t \<times> bytes option \<times> config_dir" where
  "crypto_load_or_create_salt fresh rnd pid salt config_dir_fd d =
     (case salt of None \<Rightarrow> (NOX_ERR_CRYPTO, None, d)
      | Some salt0 \<Rightarrow>
        if config_dir_fd < 0 then (NOX_ERR_CONFIG, salt, d)
        else case sys_open False SALT_FILE d of
          (Open_ok, d) \<Rightarrow>
            (case sys_fstat SALT_FILE d of (st, d) \<Rightarrow>
             if st \<noteq> Some NOX_SALT_LEN then (NOX_ERR_IO, salt, sys_close d)
             else case read_exact SALT_FILE 0 NOX_SALT_LEN d of (err, got, d) \<Rightarrow>
               (err, Some (got @ drop (length got) salt0), sys_close d))
        | (Open_refused, d) \<Rightarrow> (NOX_ERR_IO, salt, d)
        | (Open_enoent, d) \<Rightarrow>
            let tmp = tmp_name SALT_FILE pid rnd in
            if length tmp \<ge> 64 then (NOX_ERR_CONFIG, Some fresh, d)
            else case salt_create tmp fresh d of (err, d) \<Rightarrow> (err, Some fresh, d))"

section \<open>The identity file\<close>

text \<open>The steps after the key pair is sealed, with the code and the descriptor that the clean-up sees.\<close>

definition identity_store :: "bytes \<Rightarrow> bytes \<Rightarrow> bytes \<Rightarrow> config_dir \<Rightarrow> nox_err_t \<times> bool \<times> config_dir" where
  "identity_store tmp nonce ciphertext d =
     (case sys_create tmp d of (ok, d) \<Rightarrow>
      if \<not> ok then (NOX_ERR_IO, False, d)
      else case write_exact tmp nonce d of (e, d) \<Rightarrow>
      if e \<noteq> NOX_OK then (NOX_ERR_IO, True, d)
      else case write_exact tmp ciphertext d of (e, d) \<Rightarrow>
      if e \<noteq> NOX_OK then (NOX_ERR_IO, True, d)
      else case fsync_exact tmp d of (e, d) \<Rightarrow>
      if e \<noteq> NOX_OK then (NOX_ERR_IO, True, d)
      else case sys_rename tmp IDENTITY_FILE (sys_close d) of (ok, d) \<Rightarrow>
      if \<not> ok then (NOX_ERR_IO, False, d)
      else case fsync_dir d of (e, d) \<Rightarrow> if e \<noteq> NOX_OK then (NOX_ERR_IO, False, d) else (NOX_OK, False, d))"

definition identity_cleanup :: "bytes \<Rightarrow> nox_err_t \<Rightarrow> bool \<Rightarrow> config_dir \<Rightarrow> config_dir" where
  "identity_cleanup tmp ret fd_open d =
     (if fd_open then snd (sys_unlink tmp (sys_close d))
      else if ret \<noteq> NOX_OK then snd (sys_unlink tmp d) else d)"

text \<open>\<open>rnd\<close>, \<open>seed\<close> and \<open>nonce\<close> are the random bytes of the name, the key pair and the secretbox.\<close>

definition crypto_generate_identity ::
    "key_crypto \<Rightarrow> heap_answers \<Rightarrow> bytes \<times> bytes \<times> bytes \<Rightarrow> nat \<Rightarrow> int \<Rightarrow> bytes option \<Rightarrow> bytes option \<Rightarrow> config_dir \<Rightarrow>
       nox_err_t \<times> bytes option \<times> config_dir" where
  "crypto_generate_identity K al random pid config_dir_fd unlock_key public_key_out d =
     (case (random, unlock_key, public_key_out) of
        ((rnd, seed, nonce), Some key, Some pk0) \<Rightarrow>
          if config_dir_fd < 0 then (NOX_ERR_CRYPTO, public_key_out, d)
          else let tmp = tmp_name IDENTITY_FILE pid rnd in
          if length tmp \<ge> 64 then (NOX_ERR_CONFIG, public_key_out, d)
          else if \<not> fst (sodium_malloc al) then (NOX_ERR_ALLOC, public_key_out, d)
          else (case kc_keypair K seed of
             None \<Rightarrow> (NOX_ERR_CRYPTO, public_key_out, identity_cleanup tmp NOX_ERR_CRYPTO False d)
           | Some (pk, sk) \<Rightarrow>
             (case bx_seal (kc_box K) sk nonce key of
                None \<Rightarrow> (NOX_ERR_CRYPTO, public_key_out, identity_cleanup tmp NOX_ERR_CRYPTO False d)
              | Some ciphertext \<Rightarrow>
                (case identity_store tmp nonce ciphertext d of (ret, fd_open, d) \<Rightarrow>
                   (ret, if ret = NOX_OK then Some pk else public_key_out, identity_cleanup tmp ret fd_open d))))
      | _ \<Rightarrow> (NOX_ERR_CRYPTO, public_key_out, d))"

text \<open>The buffers for the secret and the public key are wiped whenever the call fails.\<close>

definition crypto_load_identity ::
    "key_crypto \<Rightarrow> heap_answers \<Rightarrow> int \<Rightarrow> bytes option \<Rightarrow> bytes option \<Rightarrow> bytes option \<Rightarrow> config_dir \<Rightarrow>
       nox_err_t \<times> bytes option \<times> bytes option \<times> config_dir" where
  "crypto_load_identity K al config_dir_fd unlock_key secret_key_out public_key_out d =
     (let fail = (\<lambda>e d. (e, map_option (\<lambda>_. zeros crypto_sign_SECRETKEYBYTES) secret_key_out,
                            map_option (\<lambda>_. zeros NOX_KEY_LEN) public_key_out, d)) in
      case (unlock_key, secret_key_out, public_key_out) of
        (Some key, Some _, Some _) \<Rightarrow>
          if config_dir_fd < 0 then fail NOX_ERR_CRYPTO d
          else (case sys_open False IDENTITY_FILE d of (a, d) \<Rightarrow>
            if a \<noteq> Open_ok then fail NOX_ERR_IO d
            else case sys_fstat IDENTITY_FILE d of (st, d) \<Rightarrow>
            if st \<noteq> Some IDENTITY_FILE_SIZE then fail NOX_ERR_IO (sys_close d)
            else if \<not> fst (sodium_malloc al) then fail NOX_ERR_ALLOC (sys_close d)
            else case read_exact IDENTITY_FILE 0 IDENTITY_FILE_SIZE d of (err, file_buf, d) \<Rightarrow>
            let d = sys_close d in
            if err \<noteq> NOX_OK then fail NOX_ERR_IO d
            else let nonce = take NOX_NONCE_LEN file_buf; ciphertext = drop NOX_NONCE_LEN file_buf in
            (case bx_open (kc_box K) ciphertext nonce key of
               None \<Rightarrow> fail NOX_ERR_AUTH d
             | Some sk \<Rightarrow>
               (case kc_sk_to_pk K sk of None \<Rightarrow> fail NOX_ERR_CRYPTO d
                | Some pk \<Rightarrow> (NOX_OK, Some sk, Some pk, d))))
      | _ \<Rightarrow> fail NOX_ERR_CRYPTO d)"

section \<open>Conversion to Curve25519\<close>

text \<open>The error code and the two target buffers, public key first.\<close>

definition crypto_ed25519_to_curve25519 ::
    "key_crypto \<Rightarrow> bytes option \<Rightarrow> bytes option \<Rightarrow> bytes option \<Rightarrow> bytes option \<Rightarrow> nox_err_t \<times> bytes option \<times> bytes option" where
  "crypto_ed25519_to_curve25519 K curve_pk curve_sk ed_pk ed_sk =
     (let zero = map_option (\<lambda>_. zeros NOX_KEY_LEN) in
      if ed_pk = None \<and> ed_sk = None then (NOX_ERR_CRYPTO, curve_pk, curve_sk)
      else if curve_pk = None \<and> curve_sk = None then (NOX_ERR_CRYPTO, curve_pk, curve_sk)
      else if curve_pk \<noteq> None \<and> ed_pk = None then (NOX_ERR_CRYPTO, zero curve_pk, curve_sk)
      else if curve_sk \<noteq> None \<and> ed_sk = None then (NOX_ERR_CRYPTO, curve_pk, zero curve_sk)
      else let pk = (if curve_pk = None then Some None else map_option Some (kc_pk_curve K (the ed_pk))) in
      case pk of None \<Rightarrow> (NOX_ERR_CRYPTO, zero curve_pk, zero curve_sk)
      | Some pk' \<Rightarrow>
        if curve_sk = None then (NOX_OK, pk', curve_sk)
        else (case kc_sk_curve K (the ed_sk) of
                None \<Rightarrow> (NOX_ERR_CRYPTO, zero curve_pk, zero curve_sk)
              | Some sk' \<Rightarrow> (NOX_OK, pk', Some sk')))"

end
