(* ===== verification/Nox_Startup.thy ===== *)
theory Nox_Startup
  imports Nox_Identity Nox_Terminal
begin

text \<open>
  The first half of \<^verbatim>\<open>src/main.c\<close>: reading the PIN, the configuration directory, the choice of the
  transport, the command line, wiping an account, and the steps that turn the PIN into the keys of
  the session. A call that waits for input that does not come has not returned (\<open>None\<close>).
\<close>

section \<open>Reading the PIN\<close>

text \<open>Answers of \<open>read(STDIN_FILENO, &c, 1)\<close>.\<close>

datatype key_ans = Key byte | Key_intr | Key_eof | Key_err

text \<open>The loop with \<open>n\<close> bytes read so far: the result, the buffer and the answers left.\<close>

fun line_secure :: "nat \<Rightarrow> key_ans list \<Rightarrow> nat \<Rightarrow> bytes \<Rightarrow> (int \<times> bytes \<times> key_ans list) option" where
  "line_secure cap [] n buf = (if n + 1 < cap then None else Some (-1, zeros cap, []))"
| "line_secure cap (k # ks) n buf =
     (if n + 1 < cap
      then case k of
        Key_intr \<Rightarrow> line_secure cap ks n buf
      | Key_err \<Rightarrow> Some (-1, wipe n buf, ks)
      | Key_eof \<Rightarrow> if n = 0 then Some (-1, zeros cap, ks) else Some (0, buf[n := 0], ks)
      | Key c \<Rightarrow>
          if c = 10
          then let buf = buf[n := 0] in
               Some (0, if n > 0 \<and> buf ! (n - 1) = 13 then buf[n - 1 := 0] else buf, ks)
          else line_secure cap ks (n + 1) (buf[n := c])
      else Some (-1, zeros cap, k # ks))"

definition read_line_secure :: "bytes \<Rightarrow> nat \<Rightarrow> key_ans list \<Rightarrow> (int \<times> bytes \<times> key_ans list) option" where
  "read_line_secure buf cap ks = line_secure cap ks 0 buf"

text \<open>The modes of the terminal that the program changes; \<open>None\<close> when standard input is no terminal.\<close>

record tty =
  tty_echo :: bool
  tty_canon :: bool
  tty_vquit :: byte

definition setup_terminal :: "tty option \<Rightarrow> tty option" where
  "setup_terminal t = map_option (\<lambda>t. t\<lparr>tty_canon := False, tty_echo := False, tty_vquit := 16\<rparr>) t"

definition PIN_BUF_LEN :: nat where "PIN_BUF_LEN = NOX_PIN_MAX_LEN + 2"

text \<open>The error code, the buffer, the terminal and the answers left. \<open>hidden\<close> is the mode while the user types;
  \<open>fresh\<close> are the contents of the newly allocated buffer for the confirmation.\<close>

definition pin_mode :: "tty option \<Rightarrow> tty option" where
  "pin_mode t = map_option (\<lambda>t. t\<lparr>tty_echo := False, tty_canon := True\<rparr>) t"

definition read_pin ::
    "bytes \<Rightarrow> nat \<Rightarrow> bool \<Rightarrow> bytes \<Rightarrow> heap_answers \<Rightarrow> tty option \<Rightarrow> key_ans list \<Rightarrow>
       (nox_err_t \<times> bytes \<times> tty option \<times> key_ans list) option" where
  "read_pin pin_buf buf_size confirm fresh al old_term ks =
     (let is_terminal = (old_term \<noteq> None);
          hidden = (if is_terminal then pin_mode old_term else old_term);
          restored = (if is_terminal then old_term else hidden) in
      case read_line_secure pin_buf buf_size ks of None \<Rightarrow> None
      | Some (r, pin_buf, ks) \<Rightarrow>
        if r \<noteq> 0 then Some (NOX_ERR_PIN, pin_buf, restored, ks)
        else let pin = c_str pin_buf; err = validate_pin (Some pin) in
        if err \<noteq> NOX_OK then Some (err, zeros buf_size, restored, ks)
        else if \<not> confirm then Some (NOX_OK, pin_buf, restored, ks)
        else if \<not> fst (sodium_malloc al) then Some (NOX_ERR_PIN, zeros buf_size, restored, ks)
        else case read_line_secure fresh PIN_BUF_LEN ks of None \<Rightarrow> None
        | Some (r, confirm_buf, ks) \<Rightarrow>
          if r \<noteq> 0 then Some (NOX_ERR_PIN, zeros buf_size, restored, ks)
          else if pad_to PIN_BUF_LEN pin \<noteq> pad_to PIN_BUF_LEN (c_str confirm_buf)
          then Some (NOX_ERR_PIN, zeros buf_size, restored, ks)
          else Some (NOX_OK, pin_buf, restored, ks))"

section \<open>The configuration directory\<close>

definition PARANOID_CONFIG_DIR :: bytes where "PARANOID_CONFIG_DIR = str_bytes ''.config/paranoidcli''"

record config_paths =
  cp_config_dir :: bytes
  cp_identity :: bytes
  cp_contacts :: bytes
  cp_downloads :: bytes

text \<open>\<open>env_home\<close> is \<open>getenv("HOME")\<close>, \<open>pw_home\<close> the directory of the password entry.\<close>

definition home_dir :: "bytes option \<Rightarrow> bytes option \<Rightarrow> bytes option" where
  "home_dir env_home pw_home =
     (case env_home of None \<Rightarrow> pw_home | Some h \<Rightarrow> if h = [] then pw_home else Some h)"

definition resolve_config_paths ::
    "bytes option \<Rightarrow> bytes option \<Rightarrow> (bytes \<Rightarrow> bytes option) \<Rightarrow> nox_err_t \<times> config_paths option" where
  "resolve_config_paths env_home pw_home realpath =
     (case home_dir env_home pw_home of None \<Rightarrow> (NOX_ERR_CONFIG, None)
      | Some home \<Rightarrow>
        if length (home @ str_bytes ''/'' @ PARANOID_CONFIG_DIR) \<ge> NOX_PATH_MAX then (NOX_ERR_CONFIG, None)
        else case realpath home of None \<Rightarrow> (NOX_ERR_CONFIG, None)
        | Some resolved_home \<Rightarrow>
          let config_dir = resolved_home @ str_bytes ''/'' @ PARANOID_CONFIG_DIR in
          if length config_dir \<ge> NOX_PATH_MAX then (NOX_ERR_CONFIG, None)
          else if length config_dir + 14 \<ge> NOX_PATH_MAX then (NOX_ERR_CONFIG, None)
          else (NOX_OK, Some \<lparr>cp_config_dir = config_dir, cp_identity = config_dir @ str_bytes ''/identity.key'',
                  cp_contacts = config_dir @ str_bytes ''/contacts.db'',
                  cp_downloads = config_dir @ str_bytes ''/downloads''\<rparr>))"

text \<open>The kernel's answers for \<open>ensure_config_dir\<close>: kinds of nodes for \<open>lstat\<close> and \<open>fstatat\<close>, whether a directory
  could be made, and descriptors.\<close>

datatype kind = K_link | K_dir | K_reg | K_other

record dir_answers =
  da_lstat :: "kind option"
  da_mkdir :: bool
  da_mkdir_again :: bool
  da_open :: int
  da_downloads_made :: bool
  da_downloads_exists :: bool
  da_open_downloads :: int
  da_identity :: "kind option"

record dir_state =
  dr_config_fd :: int
  dr_downloads_fd :: int
  dr_first_run :: bool
  dr_closed :: "int list"

definition ensure_config_dir :: "dir_answers \<Rightarrow> config_paths \<Rightarrow> bytes option \<Rightarrow> bytes option \<Rightarrow> dir_state \<Rightarrow> nox_err_t \<times> dir_state" where
  "ensure_config_dir A p env_home pw_home st =
     (let exists = (case da_lstat A of
             Some K_link \<Rightarrow> NOX_ERR_CONFIG
           | Some K_dir \<Rightarrow> NOX_OK
           | Some _ \<Rightarrow> NOX_ERR_CONFIG
           | None \<Rightarrow>
               if da_mkdir A then NOX_OK
               else let home = (case home_dir env_home pw_home of None \<Rightarrow> [] | Some h \<Rightarrow> h) in
                    if length (home @ str_bytes ''/.config'') \<ge> NOX_PATH_MAX then NOX_ERR_CONFIG
                    else if da_mkdir_again A then NOX_OK else NOX_ERR_CONFIG) in
      if exists \<noteq> NOX_OK then (exists, st)
      else let st = st\<lparr>dr_config_fd := da_open A\<rparr>;
               fail = (\<lambda>st. (NOX_ERR_CONFIG, st\<lparr>dr_closed := dr_closed st @ [dr_config_fd st], dr_config_fd := -1\<rparr>)) in
      if da_open A < 0 then (NOX_ERR_CONFIG, st)
      else if \<not> da_downloads_made A \<and> \<not> da_downloads_exists A then fail st
      else if take (length (cp_config_dir p)) (cp_downloads p) \<noteq> cp_config_dir p then fail st
      else let st = st\<lparr>dr_downloads_fd := da_open_downloads A\<rparr> in
      if da_open_downloads A < 0 then fail st
      else (NOX_OK, st\<lparr>dr_first_run := (da_identity A \<noteq> Some K_reg)\<rparr>))"

section \<open>The transport\<close>

datatype tor_transport_type = TRANSPORT_DIRECT | TRANSPORT_SNOWFLAKE | TRANSPORT_OBFS4

text \<open>\<open>fgets\<close> on standard input, of which the bytes up to its end are left: at most \<open>size - 1\<close> bytes and no
  more than one line.\<close>

fun fgets_line :: "nat \<Rightarrow> bytes \<Rightarrow> bytes \<times> bytes" where
  "fgets_line 0 s = ([], s)"
| "fgets_line (Suc n) [] = ([], [])"
| "fgets_line (Suc n) (c # s) = (if c = 10 then ([c], s) else (case fgets_line n s of (l, r) \<Rightarrow> (c # l, r)))"

definition fgets :: "nat \<Rightarrow> bytes \<Rightarrow> bytes option \<times> bytes" where
  "fgets sz s = (if s = [] then (None, s) else (case fgets_line (sz - 1) s of (l, r) \<Rightarrow> (Some l, r)))"

definition is_blank :: "byte \<Rightarrow> bool" where
  "is_blank c \<longleftrightarrow> c = 32 \<or> c = 9 \<or> c = 10 \<or> c = 13"

definition first_choice :: "bytes \<Rightarrow> byte" where
  "first_choice s = (case dropWhile is_blank s of [] \<Rightarrow> 68 | c # _ \<Rightarrow> c)"

definition trim_right :: "bytes \<Rightarrow> bytes" where
  "trim_right s = rev (dropWhile is_blank (rev s))"

definition bridge_bad :: "byte \<Rightarrow> bool" where
  "bridge_bad ch \<longleftrightarrow> ch < 32 \<or> ch > 126"

definition bridge_line :: "bytes option \<Rightarrow> bytes" where
  "bridge_line l =
     (case l of None \<Rightarrow> [] | Some l \<Rightarrow> let b = trim_right (c_str l) in if list_ex bridge_bad b then [] else b)"

text \<open>The chosen transport, the bridge line, the terminal and the input left. The missing helper
  programs only cause a warning.\<close>

definition prompt_transport_selection ::
    "bytes \<Rightarrow> tty option \<Rightarrow> bytes \<Rightarrow> tor_transport_type \<times> bytes \<times> tty option \<times> bytes" where
  "prompt_transport_selection bridge0 term inp =
     (let selecting = map_option (\<lambda>t. t\<lparr>tty_echo := True, tty_canon := True\<rparr>) term in
      case fgets 16 inp of
        (None, inp) \<Rightarrow> (TRANSPORT_DIRECT, bridge0, selecting, inp)
      | (Some choice, inp) \<Rightarrow>
          let c = first_choice (c_str choice) in
          if c = 115 \<or> c = 83 then (TRANSPORT_SNOWFLAKE, bridge0, term, inp)
          else if c = 111 \<or> c = 79
          then (case fgets 512 inp of (l, inp) \<Rightarrow> (TRANSPORT_OBFS4, bridge_line l, term, inp))
          else (TRANSPORT_DIRECT, bridge0, term, inp))"

section \<open>The command line and wiping an account\<close>

text \<open>The arguments after the program name: ghost mode, and running without the file sandbox.\<close>

definition parse_args :: "bytes list \<Rightarrow> bool \<times> bool" where
  "parse_args args =
     (list_ex (\<lambda>a. a = str_bytes ''--ghost'' \<or> a = str_bytes ''-ghost'') args,
      list_ex (\<lambda>a. a = str_bytes ''--allow-unsandboxed-fs'') args)"

definition cleankeys_requested :: "bytes list \<Rightarrow> bool" where
  "cleankeys_requested args \<longleftrightarrow> args \<noteq> [] \<and> hd args = str_bytes ''--full_cleankeys''"

text \<open>A write at a position inside a file.\<close>

definition overwrite_file :: "bytes \<Rightarrow> nat \<Rightarrow> bytes \<Rightarrow> config_dir \<Rightarrow> config_dir" where
  "overwrite_file name pos b d =
     (case cd_files d name of
        Some (File c _) \<Rightarrow> set_files ((cd_files d)(name \<mapsto> File (take pos c @ b @ drop (pos + length b) c) False)) d
      | _ \<Rightarrow> d)"

definition sys_write_at :: "bytes \<Rightarrow> nat \<Rightarrow> bytes \<Rightarrow> config_dir \<Rightarrow> wr_ans \<times> config_dir" where
  "sys_write_at name pos b d =
     (case next_outcome d of (f, d) \<Rightarrow>
      (case f of Intr \<Rightarrow> (Wr_intr, d) | Unsupported \<Rightarrow> (Wr_err, d) | Failed \<Rightarrow> (Wr_err, d)
       | Done_all \<Rightarrow> (Wrote (length b), overwrite_file name pos b d)
       | Done_part k \<Rightarrow> (Wrote (min k (length b)), overwrite_file name pos (take k b) d)))"

text \<open>The loop over the size of the file: the rest shrinks by the whole chunk, whatever was written.\<close>

function wipe_loop :: "bytes \<Rightarrow> nat \<Rightarrow> nat \<Rightarrow> config_dir \<Rightarrow> config_dir" where
  "wipe_loop name pos remaining d =
     (if remaining = 0 then d
      else let chunk = min remaining 256 in
      case sys_write_at name pos (zeros chunk) d of
        (Wrote n, d) \<Rightarrow> if n = 0 then d else wipe_loop name (pos + n) (remaining - chunk) d
      | (_, d) \<Rightarrow> d)"
  by pat_completeness auto
termination by (relation "measure (\<lambda>(name, pos, remaining, d). remaining)") auto

declare wipe_loop.simps [simp del]

definition sys_fsync :: "bytes \<Rightarrow> config_dir \<Rightarrow> config_dir" where
  "sys_fsync name d = (case next_outcome d of (f, d) \<Rightarrow> if succeeds f then sync_file name d else d)"

text \<open>\<open>fstatat\<close> without following links, and \<open>stat\<close> on the path (the size of a link's target does not
  matter, since the link is not opened).\<close>

definition sys_fstatat :: "bytes \<Rightarrow> config_dir \<Rightarrow> (kind \<times> nat) option \<times> config_dir" where
  "sys_fstatat name d =
     (case next_outcome d of (f, d) \<Rightarrow>
      (if \<not> succeeds f then None
       else case cd_files d name of None \<Rightarrow> None | Some (File c _) \<Rightarrow> Some (K_reg, length c)
         | Some Link \<Rightarrow> Some (K_link, 0) | Some (Dir n) \<Rightarrow> Some (K_dir, n), d))"

definition sys_stat :: "bytes \<Rightarrow> config_dir \<Rightarrow> nat option \<times> config_dir" where
  "sys_stat name d =
     (case next_outcome d of (f, d) \<Rightarrow>
      (if \<not> succeeds f then None
       else case cd_files d name of None \<Rightarrow> None | Some (File c _) \<Rightarrow> Some (length c)
         | Some Link \<Rightarrow> Some 0 | Some (Dir n) \<Rightarrow> Some n, d))"

text \<open>The size found, or that the file is skipped.\<close>

definition wipe_size :: "bytes \<Rightarrow> int \<Rightarrow> bytes \<Rightarrow> config_dir \<Rightarrow> nat option \<times> config_dir" where
  "wipe_size config_dir cfg_fd bn d =
     (let by_path = (\<lambda>d. if length (config_dir @ str_bytes ''/'' @ bn) \<ge> NOX_PATH_MAX then (None, d) else sys_stat bn d) in
      if cfg_fd < 0 then by_path d
      else case sys_fstatat bn d of
        (None, d) \<Rightarrow> by_path d
      | (Some (k, n), d) \<Rightarrow> (if k = K_reg then Some n else None, d))"

definition CONTACTS_FILE :: bytes where "CONTACTS_FILE = str_bytes ''contacts.db''"

definition wipe_account_file :: "bytes \<Rightarrow> int \<Rightarrow> bytes \<Rightarrow> config_dir \<Rightarrow> nat \<times> config_dir" where
  "wipe_account_file config_dir cfg_fd bn d =
     (case wipe_size config_dir cfg_fd bn d of
        (None, d) \<Rightarrow> (0, d)
      | (Some st_size, d) \<Rightarrow>
          let d = (if cfg_fd < 0 then d
                   else case sys_open True bn d of
                     (Open_ok, d) \<Rightarrow> sys_close (sys_fsync bn (wipe_loop bn 0 st_size d))
                   | (_, d) \<Rightarrow> d) in
          case (if cfg_fd \<ge> 0 then sys_unlink bn d
                else if length config_dir + 1 + length bn < NOX_PATH_MAX then sys_unlink bn d else (False, d)) of (gone, d) \<Rightarrow>
          let d = (if bn = CONTACTS_FILE \<and> cfg_fd \<ge> 0
                   then snd (sys_unlink (bn @ str_bytes ''-shm'') (snd (sys_unlink (bn @ str_bytes ''-wal'') d))) else d)
          in (if gone then 1 else 0, d))"

definition ACCOUNT_FILES :: "bytes list" where
  "ACCOUNT_FILES = [IDENTITY_FILE, SALT_FILE, CONTACTS_FILE, str_bytes ''onion.key'']"

text \<open>The exit code and the number of files wiped. Removing the directory at the end is left out.\<close>

definition full_cleankeys :: "nox_err_t \<times> config_paths option \<Rightarrow> int \<Rightarrow> config_dir \<Rightarrow> int \<times> nat \<times> config_dir" where
  "full_cleankeys paths cfg_fd d =
     (case paths of
        (NOX_OK, Some p) \<Rightarrow>
          if length (cp_config_dir p) + 14 \<ge> NOX_PATH_MAX then (1, 0, d)
          else (case foldl (\<lambda>(wiped, d) bn. case wipe_account_file (cp_config_dir p) cfg_fd bn d of (w, d) \<Rightarrow> (wiped + w, d))
                       (0, d) ACCOUNT_FILES of (wiped, d) \<Rightarrow> (0, wiped, d))
      | _ \<Rightarrow> (1, 0, d))"

section \<open>From the PIN to the keys\<close>

text \<open>The keys in the arena; \<open>None\<close> is a NULL pointer or memory that was wiped.\<close>

record key_ring =
  kr_master :: "bytes option"
  kr_db :: "bytes option"
  kr_unlock :: "bytes option"
  kr_session :: "bytes option"
  kr_priv :: "bytes option"
  kr_pub :: "bytes option"

definition no_keys :: key_ring where
  "no_keys = \<lparr>kr_master = None, kr_db = None, kr_unlock = None, kr_session = None, kr_priv = None, kr_pub = None\<rparr>"

text \<open>What the steps read: the mode, the directory, random bytes, the answers of the arena and of the heap.\<close>

record key_inputs =
  ki_ghost :: bool
  ki_first_run :: bool
  ki_fd :: int
  ki_pid :: nat
  ki_salt :: bytes
  ki_salt_rnd :: bytes
  ki_identity_rnd :: "bytes \<times> bytes \<times> bytes"
  ki_arena :: heap_answers
  ki_heap :: heap_answers
  ki_salt_buf :: bytes

text \<open>Steps 9 and 9b: the exit code, the master key, the PIN buffer (\<open>None\<close> when freed), the salt buffer, the
  directory and the answers left.\<close>

definition main_master_key ::
    "key_crypto \<Rightarrow> key_inputs \<Rightarrow> bytes \<Rightarrow> config_dir \<Rightarrow>
       int option \<times> bytes option \<times> bytes option \<times> bytes option \<times> config_dir \<times> heap_answers" where
  "main_master_key K I pin_buf d =
     (case crypto_load_or_create_salt (ki_salt I) (ki_salt_rnd I) (ki_pid I) (Some (ki_salt_buf I)) (ki_fd I) d of
        (err, salt, d) \<Rightarrow>
      if err \<noteq> NOX_OK then (Some 1, None, None, salt, d, ki_arena I)
      else case sodium_malloc (ki_arena I) of (ok, ar) \<Rightarrow>
      if \<not> ok then (Some 1, None, None, salt, d, ar)
      else case crypto_derive_master_key K (Some (zeros NOX_KEY_LEN)) (Some pin_buf) (length (c_str pin_buf)) salt of
        (err, master_key, _) \<Rightarrow>
      if err \<noteq> NOX_OK then (Some 1, None, None, Some (zeros NOX_SALT_LEN), d, ar)
      else (None, master_key, None, Some (zeros NOX_SALT_LEN), d, ar))"

text \<open>Step 11: the static keys of the session from the identity file, which a first run creates.\<close>

definition main_identity ::
    "key_crypto \<Rightarrow> key_inputs \<Rightarrow> heap_answers \<Rightarrow> bytes \<Rightarrow> config_dir \<Rightarrow> (bytes \<times> bytes) option \<times> config_dir" where
  "main_identity K I ar unlock d =
     (case sodium_malloc ar of (ok1, ar) \<Rightarrow>
      case sodium_malloc ar of (ok2, ar) \<Rightarrow>
      if \<not> ok1 \<or> \<not> ok2 then (None, d)
      else case sodium_malloc (ki_heap I) of (ok1, al) \<Rightarrow>
      case sodium_malloc al of (ok2, al) \<Rightarrow>
      if \<not> ok1 \<or> \<not> ok2 then (None, d)
      else case (if ki_first_run I
                 then crypto_generate_identity K al (ki_identity_rnd I) (ki_pid I) (ki_fd I) (Some unlock) (Some (zeros 32)) d
                 else (NOX_OK, Some (zeros 32), d)) of (err, ed_pub, d) \<Rightarrow>
      if err \<noteq> NOX_OK then (None, d)
      else case crypto_load_identity K (if ki_first_run I then snd (sodium_malloc al) else al) (ki_fd I) (Some unlock)
                  (Some (zeros 64)) ed_pub d of (err, ed_sk, ed_pub, d) \<Rightarrow>
      if err \<noteq> NOX_OK then (None, d)
      else case crypto_ed25519_to_curve25519 K (Some (zeros NOX_KEY_LEN)) (Some (zeros NOX_KEY_LEN)) ed_pub ed_sk of
        (NOX_OK, Some pub, Some priv) \<Rightarrow> (Some (priv, pub), d)
      | _ \<Rightarrow> (None, d))"

text \<open>Steps 9 to 11: the exit code (\<open>None\<close> when the program goes on), the key ring, the PIN buffer, the salt
  buffer and the directory. A failing step destroys the arena.\<close>

definition main_keys ::
    "key_crypto \<Rightarrow> key_inputs \<Rightarrow> bytes \<Rightarrow> config_dir \<Rightarrow> int option \<times> key_ring \<times> bytes option \<times> bytes option \<times> config_dir" where
  "main_keys K I pin_buf d =
     (case main_master_key K I pin_buf d of (code, master, pin, salt, d, ar) \<Rightarrow>
      case (code, master) of
        (None, Some master_key) \<Rightarrow>
          (case sodium_malloc ar of (ok1, ar) \<Rightarrow>
           case sodium_malloc ar of (ok2, ar) \<Rightarrow>
           case sodium_malloc ar of (ok3, ar) \<Rightarrow>
           if \<not> ok1 \<or> \<not> ok2 \<or> \<not> ok3 then (Some 1, no_keys, pin, salt, d)
           else case crypto_derive_subkeys K master_key (zeros NOX_KEY_LEN, zeros NOX_KEY_LEN, zeros NOX_KEY_LEN) of
             (err, db, unlock, sess) \<Rightarrow>
           if err \<noteq> NOX_OK then (Some 1, no_keys, pin, salt, d)
           else case main_identity K I ar unlock d of
             (None, d) \<Rightarrow> (Some 1, no_keys, pin, salt, d)
           | (Some (priv, pub), d) \<Rightarrow>
               (None, \<lparr>kr_master = (if ki_ghost I then None else Some master_key), kr_db = Some db, kr_unlock = None,
                       kr_session = Some sess, kr_priv = Some priv, kr_pub = Some pub\<rparr>, pin, salt, d))
      | _ \<Rightarrow> (Some 1, no_keys, pin, salt, d))"

end
