(* ===== verification/Nox_Identity_Props.thy ===== *)
theory Nox_Identity_Props
  imports Nox_Identity Nox_Database_Props
begin

text \<open>
  What the key files promise: a salt or an identity is on the disk completely or not at all at every
  moment, a stored one is read back, and buffers are wiped on failure.
\<close>

section \<open>Moments of a directory\<close>

definition moments :: "config_dir \<Rightarrow> (bytes \<rightharpoonup> node) set" where
  "moments d = insert (cd_files d) (set (cd_past d))"

definition always :: "((bytes \<rightharpoonup> node) \<Rightarrow> bool) \<Rightarrow> config_dir \<Rightarrow> bool" where
  "always P d \<longleftrightarrow> Ball (moments d) P"

lemma moments_updates [simp]:
  "moments (d\<lparr>cd_open := n\<rparr>) = moments d" "moments (d\<lparr>cd_outcomes := fs\<rparr>) = moments d"
  "moments (sys_close d) = moments d" "moments (set_files f d) = insert f (moments d)"
  by (simp_all add: moments_def sys_close_def set_files_def insert_commute)

lemma always_updates [simp]:
  "always P (d\<lparr>cd_open := n\<rparr>) = always P d" "always P (d\<lparr>cd_outcomes := fs\<rparr>) = always P d"
  "always P (sys_close d) = always P d" "always P (set_files f d) \<longleftrightarrow> P f \<and> always P d"
  by (simp_all add: always_def)

lemma always_now: "always P d \<Longrightarrow> P (cd_files d)"
  by (simp add: always_def moments_def)

lemma always_start: "cd_past d = [] \<Longrightarrow> always P d \<longleftrightarrow> P (cd_files d)"
  by (simp add: always_def moments_def)

lemma dir_simps [simp]:
  "cd_files (sys_close d) = cd_files d" "cd_outcomes (sys_close d) = cd_outcomes d"
  "cd_open (sys_close d) = cd_open d - 1"
  "cd_files (set_files f d) = f" "cd_open (set_files f d) = cd_open d"
  "cd_outcomes (set_files f d) = cd_outcomes d"
  by (simp_all add: sys_close_def set_files_def)

text \<open>A call that takes an outcome changes nothing else of the directory.\<close>

lemma next_outcomeE:
  assumes "next_outcome d = (f, d')"
  obtains fs where "d' = d\<lparr>cd_outcomes := fs\<rparr>" "set fs \<subseteq> set (cd_outcomes d)" "f = Done_all \<or> f \<in> set (cd_outcomes d)"
  using assms by (cases "cd_outcomes d") (auto simp: next_outcome_def)

lemma next_outcome_fields [simp]:
  "cd_files (snd (next_outcome d)) = cd_files d" "cd_open (snd (next_outcome d)) = cd_open d"
  "always P (snd (next_outcome d)) = always P d"
  by (simp_all add: next_outcome_def split: list.split)

lemma next_outcome_same:
  "next_outcome d = (f, d') \<Longrightarrow> cd_files d' = cd_files d \<and> cd_open d' = cd_open d \<and> always P d' = always P d"
  by (elim next_outcomeE) simp

text \<open>Rules for the two loops: \<open>Q\<close> holds at every call, \<open>R\<close> of the result.\<close>

lemma write_exact_rule:
  assumes "Q b d"
    and "\<And>d. Q [] d \<Longrightarrow> R NOX_OK d"
    and "\<And>b d d'. Q b d \<Longrightarrow> sys_write name b d = (Wr_intr, d') \<Longrightarrow> Q b d'"
    and "\<And>b d d'. Q b d \<Longrightarrow> sys_write name b d = (Wr_err, d') \<Longrightarrow> R NOX_ERR_IO d'"
    and "\<And>b d d'. Q b d \<Longrightarrow> sys_write name b d = (Wrote 0, d') \<Longrightarrow> R NOX_ERR_IO d'"
    and "\<And>b d d' n. Q b d \<Longrightarrow> 0 < n \<Longrightarrow> sys_write name b d = (Wrote n, d') \<Longrightarrow> Q (drop n b) d'"
    and "write_exact name b d = (e, d')"
  shows "R e d'"
  using assms
proof (induction name b d rule: write_exact.induct)
  case (1 name b d)
  show ?case
  proof (cases "b = []")
    case True
    with "1.prems" show ?thesis by (simp add: write_exact.simps)
  next
    case False
    obtain a d1 where w: "sys_write name b d = (a, d1)" by fastforce
    note eq = "1.prems"(7) [unfolded write_exact.simps [of name b d], simplified False w, simplified]
    show ?thesis
    proof (cases a)
      case (Wrote n)
      show ?thesis
      proof (cases "n = 0")
        case True
        with eq Wrote w "1.prems"(1,5) show ?thesis by auto
      next
        case n: False
        with Wrote w "1.prems"(1,6) have "Q (drop n b) d1" by simp
        from "1.IH"(1) [OF False w [symmetric] Wrote n this "1.prems"(2-6)] eq Wrote n show ?thesis by simp
      qed
    next
      case Wr_intr
      with w "1.prems"(1,3) have "Q b d1" by simp
      from "1.IH"(2) [OF False w [symmetric] Wr_intr this "1.prems"(2-6)] eq Wr_intr show ?thesis by simp
    next
      case Wr_err
      with eq w "1.prems"(1,4) show ?thesis by auto
    qed
  qed
qed

text \<open>The interface between a view of the directory and the calls that work on one file: the view does not
  depend on that file, nor on the outcomes and descriptors.\<close>

locale file_view =
  fixes W :: "config_dir \<Rightarrow> bool" and name :: bytes
  assumes outcomes: "W (d\<lparr>cd_outcomes := fs\<rparr>) = W d"
    and opened: "W (d\<lparr>cd_open := n\<rparr>) = W d"
    and changed: "W d \<Longrightarrow> W (set_files ((cd_files d)(name := x)) d)"
begin

lemma view_next: "next_outcome d = (f, d') \<Longrightarrow> W d' = W d"
  by (elim next_outcomeE) (simp add: outcomes)

lemma view_close: "W (sys_close d) = W d"
  by (simp add: sys_close_def opened)

lemma view_create:
  assumes "W d" and "sys_create name d = (ok, d')"
  shows "W d'"
proof -
  obtain f d1 where n: "next_outcome d = (f, d1)" by fastforce
  with assms(1) have "W (d1\<lparr>cd_open := cd_open d1 + 1\<rparr>)" by (simp add: view_next opened)
  from changed [OF this] assms n show ?thesis
    by (auto simp: sys_create_def view_next next_outcome_same [OF n] split: if_splits)
qed

lemma view_append: "W d \<Longrightarrow> W (append_file name b d)"
  by (simp add: append_file_def changed split: option.split node.split)

lemma view_sys_write:
  assumes "W d" and "sys_write name b d = (a, d')"
  shows "W d'"
  using assms by (auto simp: sys_write_def view_next view_append split: prod.splits sys_outcome.splits)

lemma view_write_exact:
  assumes "W d" and "write_exact name b d = (e, d')"
  shows "W d'"
  by (rule write_exact_rule [where Q = "\<lambda>_. W" and R = "\<lambda>_. W", OF assms(1) _ _ _ _ _ assms(2)])
     (auto intro: view_sys_write)

lemma view_fsync:
  assumes "W d" and "fsync_exact name d = (e, d')"
  shows "W d'"
proof -
  have "W (d\<lparr>cd_outcomes := fs\<rparr>)" for fs using assms(1) by (simp add: outcomes)
  from changed [OF this] this assms(2) show ?thesis
    by (auto simp: fsync_exact_def sync_file_def Let_def split: prod.splits if_splits option.splits node.splits)
qed

lemma view_unlink:
  assumes "W d"
  shows "W (snd (sys_unlink name d))"
proof -
  obtain f d1 where n: "next_outcome d = (f, d1)" by fastforce
  with assms have "W d1" by (simp add: view_next)
  with changed [OF this, of None] n show ?thesis by (auto simp: sys_unlink_def split: option.split node.split)
qed

end

section \<open>What the calls do\<close>

lemma cd_open_append [simp]: "cd_open (append_file name b d) = cd_open d" "cd_open (sync_file name d) = cd_open d"
  by (simp_all add: append_file_def sync_file_def split: option.split node.split)

lemma cd_open_sys_write [simp]: "cd_open (snd (sys_write name b d)) = cd_open d"
  by (simp add: sys_write_def next_outcome_same split: prod.split sys_outcome.split)

lemma cd_open_sys_unlink [simp]: "cd_open (snd (sys_unlink name d)) = cd_open d"
  by (simp add: sys_unlink_def next_outcome_same split: prod.split option.split node.split)

lemma cd_open_sys_rename [simp]: "cd_open (snd (sys_rename f t d)) = cd_open d"
  by (simp add: sys_rename_def next_outcome_same split: prod.split option.split node.split)

lemma cd_open_fsync [simp]: "cd_open (snd (fsync_exact name d)) = cd_open d"
  by (simp add: fsync_exact_def Let_def split: prod.split)

lemma cd_open_write_exact: "write_exact name b d = (e, d') \<Longrightarrow> cd_open d' = cd_open d"
  by (rule write_exact_rule [where Q = "\<lambda>_ x. cd_open x = cd_open d" and R = "\<lambda>_ x. cd_open x = cd_open d"])
     (auto dest!: arg_cong [where f = "\<lambda>x. cd_open (snd x)"])

lemma sys_write_content:
  assumes "cd_files d name = Some (File c s)" and "sys_write name b d = (Wrote n, d')"
  shows "\<exists>s'. cd_files d' name = Some (File (c @ take n b) s')" "n \<le> length b"
  using assms
  by (auto simp: sys_write_def append_file_def next_outcome_same min_def split: prod.splits sys_outcome.splits if_splits)

lemma sys_write_nothing: "sys_write name b d = (Wr_intr, d') \<Longrightarrow> cd_files d' = cd_files d"
  by (auto simp: sys_write_def next_outcome_same split: prod.splits sys_outcome.splits)

lemma write_exact_content:
  assumes "cd_files d name = Some (File c s)" and "write_exact name b d = (NOX_OK, d')"
  shows "\<exists>s'. cd_files d' name = Some (File (c @ b) s')"
proof -
  let ?Q = "\<lambda>b' x. \<exists>c' s'. cd_files x name = Some (File c' s') \<and> c' @ b' = c @ b"
  have "NOX_OK = NOX_OK \<longrightarrow> (\<exists>s'. cd_files d' name = Some (File (c @ b) s'))"
  proof (rule write_exact_rule [where Q = ?Q and R = "\<lambda>e x. e = NOX_OK \<longrightarrow> (\<exists>s'. cd_files x name = Some (File (c @ b) s'))",
      OF _ _ _ _ _ _ assms(2)])
    fix b' x x' n assume "?Q b' x" "sys_write name b' x = (Wrote n, x')"
    then obtain c' s' where "cd_files x name = Some (File c' s')" "c' @ b' = c @ b" by blast
    with sys_write_content(1) [OF this(1) \<open>sys_write name b' x = (Wrote n, x')\<close>] show "?Q (drop n b') x'"
      by (metis append.assoc append_take_drop_id)
  qed (use assms(1) in \<open>auto dest: sys_write_nothing\<close>)
  then show ?thesis by simp
qed

lemma fsync_content:
  assumes "cd_files d name = Some (File c s)" and "fsync_exact name d = (NOX_OK, d')"
  shows "cd_files d' name = Some (File c True)"
  using assms by (auto simp: fsync_exact_def sync_file_def Let_def split: prod.splits if_splits)

lemma sys_create_content: "sys_create name d = (True, d') \<Longrightarrow> cd_files d' name = Some (File [] False) \<and> cd_open d' = cd_open d + 1"
  by (auto simp: sys_create_def next_outcome_same split: prod.splits if_splits)

lemma sys_create_refused: "sys_create name d = (False, d') \<Longrightarrow> cd_files d' = cd_files d \<and> cd_open d' = cd_open d"
  by (auto simp: sys_create_def next_outcome_same split: prod.splits if_splits)

lemma sys_open_same:
  "sys_open w name d = (a, d') \<Longrightarrow> cd_files d' = cd_files d \<and> always P d' = always P d \<and>
     cd_open d' = (if a = Open_ok then cd_open d + 1 else cd_open d) \<and> (a = Open_enoent \<longrightarrow> cd_files d name = None)"
  by (auto simp: sys_open_def next_outcome_same [where P = P] split: prod.splits if_splits option.splits node.splits)

lemma sys_fstat_same: "sys_fstat name d = (a, d') \<Longrightarrow> cd_files d' = cd_files d \<and> cd_open d' = cd_open d \<and> always P d' = always P d"
  by (auto simp: sys_fstat_def next_outcome_same [where P = P] split: prod.splits)

lemma fsync_dir_same: "fsync_dir d = (e, d') \<Longrightarrow> cd_files d' = cd_files d \<and> cd_open d' = cd_open d \<and> always P d' = always P d"
  by (auto simp: fsync_dir_def Let_def split: prod.splits if_splits)

lemma sys_read_same:
  "sys_read name pos n d = (a, d') \<Longrightarrow> cd_files d' = cd_files d \<and> cd_open d' = cd_open d \<and> always P d' = always P d"
  by (auto simp: sys_read_def next_outcome_same [where P = P] split: prod.splits)

lemma sys_read_content:
  "sys_read name pos n d = (Got b, d') \<Longrightarrow> \<exists>c s k. cd_files d name = Some (File c s) \<and> b = take k (drop pos c) \<and> k \<le> n"
  by (auto simp: sys_read_def next_outcome_same split: prod.splits sys_outcome.splits option.splits node.splits)

lemma read_exact_same:
  "read_exact name pos n d = (e, b, d') \<Longrightarrow> cd_files d' = cd_files d \<and> cd_open d' = cd_open d \<and> always P d' = always P d"
proof (induction name pos n d arbitrary: e b d' rule: read_exact.induct)
  case (1 name pos n d)
  show ?case
  proof (cases "n = 0")
    case True
    with "1.prems" show ?thesis by (simp add: read_exact.simps)
  next
    case False
    obtain a d1 where r: "sys_read name pos n d = (a, d1)" by fastforce
    note IH = "1.IH" [OF False r [symmetric]]
    note eq = "1.prems" [unfolded read_exact.simps [of name pos n d] if_not_P [OF False] r prod.case]
    show ?thesis
    proof (cases a)
      case (Got b1)
      show ?thesis
      proof (cases "b1 = []")
        case True
        with eq Got sys_read_same [OF r, of P] show ?thesis by simp
      next
        case ne: False
        obtain e2 b2 d2 where r2: "read_exact name (pos + length b1) (n - length b1) d1 = (e2, b2, d2)"
          by (metis prod_cases3)
        from IH(1) [OF Got ne r2] eq Got ne r2 sys_read_same [OF r, of P] show ?thesis by simp
      qed
    next
      case Rd_intr
      with eq IH(2) [OF Rd_intr, of e b d'] sys_read_same [OF r, of P] show ?thesis by simp
    next
      case Rd_err
      with eq sys_read_same [OF r, of P] show ?thesis by simp
    qed
  qed
qed

lemma read_exact_content:
  "read_exact name pos n d = (NOX_OK, b, d') \<Longrightarrow> 0 < n \<Longrightarrow>
     \<exists>c s. cd_files d name = Some (File c s) \<and> b = take n (drop pos c) \<and> length b = n"
proof (induction name pos n d arbitrary: b d' rule: read_exact.induct)
  case (1 name pos n d)
  obtain a d1 where r: "sys_read name pos n d = (a, d1)" by fastforce
  note nz = less_imp_neq [OF "1.prems"(2), symmetric]
  note eq = "1.prems"(1) [unfolded read_exact.simps [of name pos n d]]
  show ?case
  proof (cases a)
    case (Got b1)
    then obtain c s k where b1: "cd_files d name = Some (File c s)" "b1 = take k (drop pos c)" "k \<le> n"
      using sys_read_content [of name pos n d b1 d1] r by blast
    from eq Got r nz obtain b2 where b2: "b1 \<noteq> []" "b = b1 @ b2"
      "read_exact name (pos + length b1) (n - length b1) d1 = (NOX_OK, b2, d')"
      by (auto split: prod.splits if_splits)
    show ?thesis
    proof (cases "n - length b1 = 0")
      case True
      with b2(3) have "b2 = []" by (simp add: read_exact.simps)
      moreover have "length b1 = n" "length b1 = min k (length c - pos)" using True b1 by simp_all
      ultimately show ?thesis using b1 b2 by (auto simp: min_def split: if_splits)
    next
      case False
      from "1.IH"(1) [OF nz r [symmetric] Got b2(1) b2(3)] False sys_read_same [OF r]
      have "b2 = take (n - length b1) (drop (pos + length b1) c)" "length b2 = n - length b1"
        using b1(1) by auto
      moreover have "b1 = take (length b1) (drop pos c)" by (subst (1) b1(2)) (simp add: b1(2) min_def)
      moreover have "length b1 \<le> n" using False by simp
      ultimately show ?thesis
        using b1(1) b2(2) take_add [of "length b1" "n - length b1" "drop pos c"] by (auto simp: add.commute)
    qed
  next
    case Rd_intr
    from "1.IH"(2) [OF nz r [symmetric] Rd_intr _ "1.prems"(2)] eq Rd_intr r nz sys_read_same [OF r] show ?thesis by simp
  next
    case Rd_err
    with eq r nz show ?thesis by simp
  qed
qed

section \<open>Files appear at once\<close>

text \<open>At a moment of a call that stores \<open>content\<close> under the name \<open>base\<close> through a temporary file, the file
  is what it was or complete and on the disk, and no other file but the temporary one has changed.\<close>

definition stored_or_not :: "bytes \<Rightarrow> bytes \<Rightarrow> (bytes \<rightharpoonup> node) \<Rightarrow> bytes \<Rightarrow> (bytes \<rightharpoonup> node) \<Rightarrow> bool" where
  "stored_or_not base tmp before content fs \<longleftrightarrow>
     (fs base = before base \<or> fs base = Some (File content True)) \<and>
     (\<forall>n. n \<noteq> base \<longrightarrow> n \<noteq> tmp \<longrightarrow> fs n = before n)"

lemma tmp_name_ne [simp]: "tmp_name base pid rnd \<noteq> base" "base \<noteq> tmp_name base pid rnd"
  by (auto simp: tmp_name_def str_bytes_def)

interpretation store: file_view "always (stored_or_not base (tmp_name base pid rnd) before content)" "tmp_name base pid rnd"
  for base pid rnd before content
  by unfold_locales (auto dest: always_now simp: stored_or_not_def)

lemma stored_or_not_self [simp]: "stored_or_not base tmp fs content fs"
  by (simp add: stored_or_not_def)

lemma rename_stored:
  assumes "always (stored_or_not base tmp before content) d"
    and "cd_files d tmp = Some (File content True)" and "tmp \<noteq> base" and "sys_rename tmp base d = (ok, d')"
  shows "always (stored_or_not base tmp before content) d'" "ok \<Longrightarrow> cd_files d' base = Some (File content True)"
  using assms always_now [OF assms(1)]
  by (auto simp: sys_rename_def next_outcome_same stored_or_not_def split: prod.splits if_splits option.splits node.splits)

text \<open>What the two functions share: a created temporary file, written and flushed, is complete.\<close>

lemma tmp_complete:
  assumes "sys_create tmp d = (True, d1)" and "write_exact tmp b d1 = (NOX_OK, d2)" and "fsync_exact tmp d2 = (NOX_OK, d3)"
  shows "cd_files d3 tmp = Some (File b True)"
proof -
  have "cd_files d1 tmp = Some (File [] False)" using sys_create_content [OF assms(1)] by simp
  from write_exact_content [OF this assms(2)] obtain s where "cd_files d2 tmp = Some (File b s)" by auto
  from fsync_content [OF this assms(3)] show ?thesis .
qed

lemma cd_open_snd:
  "fsync_exact name d = (e, d') \<Longrightarrow> cd_open d' = cd_open d" "sys_rename f t d = (ok, d') \<Longrightarrow> cd_open d' = cd_open d"
  using cd_open_sys_rename [of f t d] cd_open_fsync [of name d] by simp_all

lemma salt_create_spec:
  fixes pid :: nat and rnd :: bytes
  defines "tmp \<equiv> tmp_name SALT_FILE pid rnd"
  assumes "always (stored_or_not SALT_FILE tmp before salt) d" and "salt_create tmp salt d = (e, d')"
  shows "always (stored_or_not SALT_FILE tmp before salt) d' \<and> cd_open d' = cd_open d \<and>
    (e = NOX_OK \<longrightarrow> cd_files d' SALT_FILE = Some (File salt True))"
proof -
  let ?P = "stored_or_not SALT_FILE tmp before salt"
  note keep = store.view_create [of SALT_FILE pid rnd before salt, folded tmp_def]
    store.view_write_exact [of SALT_FILE pid rnd before salt, folded tmp_def]
    store.view_fsync [of SALT_FILE pid rnd before salt, folded tmp_def]
    store.view_unlink [of SALT_FILE pid rnd before salt, folded tmp_def]
  obtain ok d1 where 1: "sys_create tmp d = (ok, d1)" by fastforce
  obtain we d2 where 2: "write_exact tmp salt d1 = (we, d2)" by fastforce
  obtain fe d3 where 3: "fsync_exact tmp d2 = (fe, d3)" by fastforce
  obtain rok d4 where 4: "sys_rename tmp SALT_FILE (sys_close d3) = (rok, d4)" by fastforce
  obtain de d5 where 5: "fsync_dir d4 = (de, d5)" by fastforce
  note eq = assms(3) [unfolded salt_create_def 1 prod.case Let_def 2 3 4 5]
  have P1: "always ?P d1" by (rule keep(1) [OF assms(2) 1])
  have P2: "always ?P d2" by (rule keep(2) [OF P1 2])
  have P3: "always ?P d3" by (rule keep(3) [OF P2 3])
  have o: "cd_open d2 = cd_open d1" "cd_open d3 = cd_open d2" "cd_open d4 = cd_open d3 - 1"
    using cd_open_write_exact [OF 2] cd_open_snd(1) [OF 3] cd_open_snd(2) [OF 4] by simp_all
  show ?thesis
  proof (cases ok)
    case False
    with eq P1 sys_create_refused [of tmp d d1] 1 show ?thesis by auto
  next
    case True
    then have o1: "cd_open d1 = cd_open d + 1" using sys_create_content [of tmp d d1] 1 by simp
    show ?thesis
    proof (cases "we = NOX_OK \<and> fe = NOX_OK")
      case False
      with eq True have "e = NOX_ERR_IO" "d' = snd (sys_unlink tmp (sys_close (if we = NOX_OK then d3 else d2)))"
        by (simp_all split: if_splits)
      with o o1 P2 P3 keep(4) [of "sys_close (if we = NOX_OK then d3 else d2)"] show ?thesis by simp
    next
      case flushed: True
      have c: "cd_files (sys_close d3) tmp = Some (File salt True)"
        using tmp_complete [of tmp d d1 salt d2 d3] 1 2 3 True flushed by simp
      have P4: "always ?P d4" "rok \<Longrightarrow> cd_files d4 SALT_FILE = Some (File salt True)"
        using rename_stored [OF _ c _ 4, of before] P3 by (simp_all add: tmp_def)
      show ?thesis
      proof (cases rok)
        case False
        with eq True flushed have "e = NOX_ERR_IO" "d' = snd (sys_unlink tmp d4)" by simp_all
        with keep(4) [OF P4(1)] o o1 show ?thesis by simp
      next
        case renamed: True
        with eq True flushed have "d' = d5" by (simp split: if_splits)
        with P4 renamed o o1 fsync_dir_same [OF 5, of ?P] show ?thesis by simp
      qed
    qed
  qed
qed

lemma identity_store_spec:
  fixes pid :: nat and rnd :: bytes
  defines "tmp \<equiv> tmp_name IDENTITY_FILE pid rnd"
  assumes "always (stored_or_not IDENTITY_FILE tmp before (nonce @ ct)) d" and "identity_store tmp nonce ct d = (e, fo, d')"
  shows "always (stored_or_not IDENTITY_FILE tmp before (nonce @ ct)) d' \<and>
    cd_open d' = cd_open d + (if fo then 1 else 0) \<and>
    (e = NOX_OK \<longrightarrow> \<not> fo \<and> cd_files d' IDENTITY_FILE = Some (File (nonce @ ct) True))"
proof -
  let ?P = "stored_or_not IDENTITY_FILE tmp before (nonce @ ct)"
  note keep = store.view_create [of IDENTITY_FILE pid rnd before "nonce @ ct", folded tmp_def]
    store.view_write_exact [of IDENTITY_FILE pid rnd before "nonce @ ct", folded tmp_def]
    store.view_fsync [of IDENTITY_FILE pid rnd before "nonce @ ct", folded tmp_def]
  obtain ok d1 where 1: "sys_create tmp d = (ok, d1)" by fastforce
  obtain ne d2 where 2: "write_exact tmp nonce d1 = (ne, d2)" by fastforce
  obtain ce d3 where 3: "write_exact tmp ct d2 = (ce, d3)" by fastforce
  obtain fe d4 where 4: "fsync_exact tmp d3 = (fe, d4)" by fastforce
  obtain rok d5 where 5: "sys_rename tmp IDENTITY_FILE (sys_close d4) = (rok, d5)" by fastforce
  obtain de d6 where 6: "fsync_dir d5 = (de, d6)" by fastforce
  note eq = assms(3) [unfolded identity_store_def 1 prod.case 2 3 4 5 6]
  have P1: "always ?P d1" by (rule keep(1) [OF assms(2) 1])
  have P2: "always ?P d2" by (rule keep(2) [OF P1 2])
  have P3: "always ?P d3" by (rule keep(2) [OF P2 3])
  have P4: "always ?P d4" by (rule keep(3) [OF P3 4])
  have o: "cd_open d2 = cd_open d1" "cd_open d3 = cd_open d2" "cd_open d4 = cd_open d3" "cd_open d5 = cd_open d4 - 1"
    using cd_open_write_exact [OF 2] cd_open_write_exact [OF 3] cd_open_snd(1) [OF 4] cd_open_snd(2) [OF 5] by simp_all
  show ?thesis
  proof (cases ok)
    case False
    with eq P1 sys_create_refused [of tmp d d1] 1 show ?thesis by auto
  next
    case True
    with 1 have n: "cd_files d1 tmp = Some (File [] False)" "cd_open d1 = cd_open d + 1"
      using sys_create_content [of tmp d d1] by simp_all
    show ?thesis
    proof (cases "ne = NOX_OK \<and> ce = NOX_OK \<and> fe = NOX_OK")
      case False
      with eq True have "e = NOX_ERR_IO" "fo" "d' = (if ne \<noteq> NOX_OK then d2 else if ce \<noteq> NOX_OK then d3 else d4)"
        by (simp_all split: if_splits)
      with P2 P3 P4 o n(2) show ?thesis by simp
    next
      case flushed: True
      from write_exact_content [OF n(1)] 2 flushed obtain s where "cd_files d2 tmp = Some (File nonce s)" by auto
      from write_exact_content [OF this] 3 flushed obtain s where "cd_files d3 tmp = Some (File (nonce @ ct) s)" by auto
      from fsync_content [OF this] 4 flushed have c: "cd_files (sys_close d4) tmp = Some (File (nonce @ ct) True)" by simp
      have P5: "always ?P d5" "rok \<Longrightarrow> cd_files d5 IDENTITY_FILE = Some (File (nonce @ ct) True)"
        using rename_stored [OF _ c _ 5, of before] P4 by (simp_all add: tmp_def)
      show ?thesis
      proof (cases rok)
        case False
        with eq True flushed P5 o n(2) show ?thesis by simp
      next
        case renamed: True
        with eq True flushed have "d' = d6" "\<not> fo" by (simp_all split: if_splits)
        with P5 renamed o n(2) fsync_dir_same [OF 6, of ?P] show ?thesis by simp
      qed
    qed
  qed
qed

lemma identity_cleanup_spec:
  fixes pid :: nat and rnd :: bytes
  defines "tmp \<equiv> tmp_name IDENTITY_FILE pid rnd"
  assumes "always (stored_or_not IDENTITY_FILE tmp before content) d"
  shows "always (stored_or_not IDENTITY_FILE tmp before content) (identity_cleanup tmp ret fo d)"
    "cd_open (identity_cleanup tmp ret fo d) = cd_open d - (if fo then 1 else 0)"
  using assms store.view_unlink [of IDENTITY_FILE pid rnd before content, folded tmp_def]
  by (simp_all add: identity_cleanup_def)

lemma identity_cleanup_ok: "identity_cleanup tmp NOX_OK False d = d"
  by (simp add: identity_cleanup_def)

text \<open>A successful call went through every step.\<close>

lemma generate_okE:
  assumes "crypto_generate_identity K al (rnd, seed, nonce) pid fd (Some key) (Some pk0) d = (NOX_OK, pub, d')"
  obtains pk sk ct where "kc_keypair K seed = Some (pk, sk)" "bx_seal (kc_box K) sk nonce key = Some ct"
    "pub = Some pk" "identity_store (tmp_name IDENTITY_FILE pid rnd) nonce ct d = (NOX_OK, False, d')"
proof -
  have fo: "identity_store tmp nonce ct d = (NOX_OK, fo, d') \<Longrightarrow> \<not> fo" for tmp ct fo d'
    by (auto simp: identity_store_def split: prod.splits if_splits)
  from assms obtain pk sk ct fo d1 where s: "kc_keypair K seed = Some (pk, sk)" "bx_seal (kc_box K) sk nonce key = Some ct"
      "pub = Some pk" "identity_store (tmp_name IDENTITY_FILE pid rnd) nonce ct d = (NOX_OK, fo, d1)"
      "d' = identity_cleanup (tmp_name IDENTITY_FILE pid rnd) NOX_OK fo d1"
    by (auto simp: crypto_generate_identity_def Let_def split: if_splits option.splits prod.splits)
  with fo [OF s(4)] identity_cleanup_ok show ?thesis by (intro that [of pk sk ct]) simp_all
qed

section \<open>Reading back\<close>

text \<open>A kernel that completes every call, if in parts.\<close>

definition quiet :: "config_dir \<Rightarrow> bool" where
  "quiet d \<longleftrightarrow> list_all (\<lambda>f. succeeds f \<and> f \<noteq> Done_part 0) (cd_outcomes d)"

lemma quiet_next: "quiet d \<Longrightarrow> next_outcome d = (f, d') \<Longrightarrow> succeeds f \<and> f \<noteq> Done_part 0 \<and> quiet d'"
  by (auto simp: quiet_def next_outcome_def split: list.splits)

lemma quiet_updates [simp]: "quiet (d\<lparr>cd_open := n\<rparr>) = quiet d" "quiet (sys_close d) = quiet d" "quiet (set_files f d) = quiet d"
  by (simp_all add: quiet_def)

lemma quiet_open:
  assumes "quiet d" and "cd_files d name = Some (File c s)"
  shows "\<exists>d'. sys_open w name d = (Open_ok, d') \<and> quiet d' \<and> cd_files d' = cd_files d"
proof -
  obtain f d1 where n: "next_outcome d = (f, d1)" by fastforce
  with quiet_next [OF assms(1) n] next_outcome_same [OF n] assms(2) show ?thesis by (simp add: sys_open_def)
qed

lemma quiet_open_absent:
  assumes "quiet d" and "cd_files d name = None"
  shows "\<exists>d'. sys_open w name d = (Open_enoent, d') \<and> quiet d' \<and> cd_files d' = cd_files d"
proof -
  obtain f d1 where n: "next_outcome d = (f, d1)" by fastforce
  with quiet_next [OF assms(1) n] next_outcome_same [OF n] assms(2) show ?thesis by (simp add: sys_open_def)
qed

lemma quiet_fstat:
  assumes "quiet d" and "cd_files d name = Some (File c s)"
  shows "\<exists>d'. sys_fstat name d = (Some (length c), d') \<and> quiet d' \<and> cd_files d' = cd_files d"
proof -
  obtain f d1 where n: "next_outcome d = (f, d1)" by fastforce
  with quiet_next [OF assms(1) n] next_outcome_same [OF n] assms(2) show ?thesis by (simp add: sys_fstat_def)
qed

lemma quiet_read:
  assumes "quiet d" and "cd_files d name = Some (File c s)"
  obtains k d' where "sys_read name pos n d = (Got (take k (drop pos c)), d')" "quiet d'" "cd_files d' = cd_files d"
    "0 < n \<Longrightarrow> 0 < k" "k \<le> n"
proof -
  obtain f d1 where n: "next_outcome d = (f, d1)" by fastforce
  note q = quiet_next [OF assms(1) n] next_outcome_same [OF n]
  from q(1) consider "f = Done_all" | k where "f = Done_part k" "0 < k" by (cases f) auto
  then show thesis
  proof cases
    case 1
    with n q assms(2) show thesis by (intro that [of n d1]) (simp_all add: sys_read_def)
  next
    case (2 k)
    with n q assms(2) show thesis by (intro that [of "min k n" d1]) (simp_all add: sys_read_def)
  qed
qed

lemma read_exact_quiet:
  assumes "quiet d" and "cd_files d name = Some (File c s)" and "pos + n \<le> length c"
  shows "\<exists>d'. read_exact name pos n d = (NOX_OK, take n (drop pos c), d') \<and> quiet d' \<and> cd_files d' = cd_files d"
  using assms
proof (induction n arbitrary: pos d rule: less_induct)
  case (less n)
  show ?case
  proof (cases "n = 0")
    case True
    with less.prems show ?thesis by (simp add: read_exact.simps)
  next
    case False
    obtain k d1 where r: "sys_read name pos n d = (Got (take k (drop pos c)), d1)" "quiet d1" "cd_files d1 = cd_files d"
      and k: "0 < k" "k \<le> n"
      using quiet_read [OF less.prems(1,2), of pos n] False by (metis neq0_conv)
    have l: "length (take k (drop pos c)) = k" using k less.prems(3) by simp
    then have ne: "take k (drop pos c) \<noteq> []" using k by auto
    obtain d2 where "read_exact name (pos + k) (n - k) d1 = (NOX_OK, take (n - k) (drop (pos + k) c), d2)"
        "quiet d2" "cd_files d2 = cd_files d1"
      using less.IH [of "n - k" d1 "pos + k"] k r less.prems by auto
    moreover have "take k (drop pos c) @ take (n - k) (drop (pos + k) c) = take n (drop pos c)"
      using take_add [of k "n - k" "drop pos c"] k by (simp add: add.commute)
    ultimately show ?thesis
      using False r l ne by (subst read_exact.simps) (simp del: take_eq_Nil)
  qed
qed

lemma load_identity_eq:
  assumes "quiet d" and "heap_ok al" and "cd_files d IDENTITY_FILE = Some (File (nonce @ ct) s)"
    and "length nonce = NOX_NONCE_LEN" and "length ct = crypto_sign_SECRETKEYBYTES + secretbox_MACBYTES" and "0 \<le> fd"
  shows "\<exists>d'. cd_files d' = cd_files d \<and> quiet d' \<and> crypto_load_identity K al fd (Some key) (Some a) (Some b) d =
    (case bx_open (kc_box K) ct nonce key of
       None \<Rightarrow> (NOX_ERR_AUTH, Some (zeros crypto_sign_SECRETKEYBYTES), Some (zeros NOX_KEY_LEN), d')
     | Some sk \<Rightarrow>
       (case kc_sk_to_pk K sk of
          None \<Rightarrow> (NOX_ERR_CRYPTO, Some (zeros crypto_sign_SECRETKEYBYTES), Some (zeros NOX_KEY_LEN), d')
        | Some pk \<Rightarrow> (NOX_OK, Some sk, Some pk, d')))"
proof -
  have len: "length (nonce @ ct) = IDENTITY_FILE_SIZE" using assms(4,5) by (simp add: IDENTITY_FILE_SIZE_def)
  obtain d1 where 1: "sys_open False IDENTITY_FILE d = (Open_ok, d1)" "quiet d1" "cd_files d1 = cd_files d"
    using quiet_open [OF assms(1,3)] by blast
  obtain d2 where 2: "sys_fstat IDENTITY_FILE d1 = (Some IDENTITY_FILE_SIZE, d2)" "quiet d2" "cd_files d2 = cd_files d"
    using quiet_fstat [OF 1(2), of IDENTITY_FILE] 1(3) assms(3) len by metis
  obtain d3 where 3: "read_exact IDENTITY_FILE 0 IDENTITY_FILE_SIZE d2 = (NOX_OK, nonce @ ct, d3)" "quiet d3" "cd_files d3 = cd_files d"
    using read_exact_quiet [OF 2(2), of IDENTITY_FILE "nonce @ ct" s 0 IDENTITY_FILE_SIZE] 2(3) assms(3) len by auto
  show ?thesis
    by (rule exI [of _ "sys_close d3"])
       (use 1 2 3 assms(2,4,6) in \<open>simp add: crypto_load_identity_def Let_def split: option.split\<close>)
qed

lemma load_salt_eq:
  assumes "quiet d" and "cd_files d SALT_FILE = Some (File salt s)" and "length salt = NOX_SALT_LEN" and "0 \<le> fd"
    and "length buf = NOX_SALT_LEN"
  shows "\<exists>d'. cd_files d' = cd_files d \<and> quiet d' \<and>
    crypto_load_or_create_salt fresh rnd pid (Some buf) fd d = (NOX_OK, Some salt, d')"
proof -
  obtain d1 where 1: "sys_open False SALT_FILE d = (Open_ok, d1)" "quiet d1" "cd_files d1 = cd_files d"
    using quiet_open [OF assms(1,2)] by blast
  obtain d2 where 2: "sys_fstat SALT_FILE d1 = (Some NOX_SALT_LEN, d2)" "quiet d2" "cd_files d2 = cd_files d"
    using quiet_fstat [OF 1(2), of SALT_FILE] 1(3) assms(2,3) by metis
  obtain d3 where 3: "read_exact SALT_FILE 0 NOX_SALT_LEN d2 = (NOX_OK, salt, d3)" "quiet d3" "cd_files d3 = cd_files d"
    using read_exact_quiet [OF 2(2), of SALT_FILE salt s 0 NOX_SALT_LEN] 2(3) assms(2,3) by auto
  show ?thesis
    by (rule exI [of _ "sys_close d3"])
       (use 1 2 3 assms(3-5) in \<open>simp add: crypto_load_or_create_salt_def\<close>)
qed

section \<open>Key files appear at once\<close>

lemma ball_moments: "(\<forall>fs \<in> moments d. P fs) \<longleftrightarrow> always P d"
  by (simp add: always_def)

lemma salt_open_file:
  assumes "sys_open False SALT_FILE d = (Open_ok, d1)" and "sys_fstat SALT_FILE d1 = (Some NOX_SALT_LEN, d2)"
    and "read_exact SALT_FILE 0 NOX_SALT_LEN d2 = (NOX_OK, got, d3)"
  shows "length got = NOX_SALT_LEN \<and> (\<exists>b. cd_files d SALT_FILE = Some (File got b))"
proof -
  from read_exact_content [OF assms(3)] obtain c s where c: "cd_files d2 SALT_FILE = Some (File c s)"
      "got = take NOX_SALT_LEN c" "length got = NOX_SALT_LEN"
    by (auto simp: NOX_SALT_LEN_def)
  have same: "cd_files d2 = cd_files d1" "cd_files d1 = cd_files d"
    using sys_open_same [OF assms(1)] sys_fstat_same [OF assms(2)] by simp_all
  have "length c = NOX_SALT_LEN" using assms(2) c(1) same
    by (auto simp: sys_fstat_def next_outcome_same split: prod.splits if_splits)
  with c same show ?thesis by simp
qed

lemma salt_atomic:
  assumes "cd_past d = []" and "length buf = NOX_SALT_LEN"
    and "crypto_load_or_create_salt fresh rnd pid (Some buf) fd d = (e, salt, d')"
  shows "cd_open d' = cd_open d" "always (stored_or_not SALT_FILE (tmp_name SALT_FILE pid rnd) (cd_files d) fresh) d'"
    "cd_files d SALT_FILE \<noteq> None \<Longrightarrow> always (\<lambda>fs. fs = cd_files d) d'"
    "e = NOX_OK \<Longrightarrow> \<exists>s b. salt = Some s \<and> cd_files d' SALT_FILE = Some (File s b)"
proof -
  let ?tmp = "tmp_name SALT_FILE pid rnd"
  let ?P = "stored_or_not SALT_FILE ?tmp (cd_files d) fresh"
  have start: "always ?P d" "always (\<lambda>fs. fs = cd_files d) d" by (simp_all add: always_start [OF assms(1)])
  obtain a d1 where 1: "sys_open False SALT_FILE d = (a, d1)" by fastforce
  note same1 = sys_open_same [OF 1]
  have "cd_open d' = cd_open d \<and> always ?P d' \<and> (cd_files d SALT_FILE \<noteq> None \<longrightarrow> always (\<lambda>fs. fs = cd_files d) d') \<and>
    (e = NOX_OK \<longrightarrow> (\<exists>s b. salt = Some s \<and> cd_files d' SALT_FILE = Some (File s b)))"
  proof (cases "fd < 0")
    case True
    with assms(3) start show ?thesis by (auto simp: crypto_load_or_create_salt_def)
  next
    case fd: False
    note eq = assms(3) [unfolded crypto_load_or_create_salt_def option.case if_not_P [OF fd] 1 prod.case]
    show ?thesis
    proof (cases a)
      case Open_ok
      obtain st d2 where 2: "sys_fstat SALT_FILE d1 = (st, d2)" by fastforce
      obtain re got d3 where 3: "read_exact SALT_FILE 0 NOX_SALT_LEN d2 = (re, got, d3)" by (metis prod_cases3)
      note same = same1 sys_fstat_same [OF 2] read_exact_same [OF 3]
      from eq Open_ok 2 3 have "d' = sys_close (if st = Some NOX_SALT_LEN then d3 else d2)"
        "e = NOX_OK \<Longrightarrow> st = Some NOX_SALT_LEN \<and> re = NOX_OK \<and> salt = Some (got @ drop (length got) buf)"
        by (simp_all split: if_splits)
      with same start Open_ok salt_open_file [of d d1 d2 got d3] 1 2 3 assms(2) show ?thesis by auto
    next
      case Open_enoent
      then have none: "cd_files d SALT_FILE = None" using same1 by simp
      show ?thesis
      proof (cases "length ?tmp \<ge> 64")
        case True
        with eq Open_enoent same1 start none show ?thesis by (auto simp: Let_def)
      next
        case False
        obtain ce d2 where 2: "salt_create ?tmp fresh d1 = (ce, d2)" by fastforce
        have "always ?P d1" using same1 start by simp
        from salt_create_spec [OF this 2] eq Open_enoent 2 False none same1 show ?thesis by (auto simp: Let_def)
      qed
    next
      case Open_refused
      with eq same1 start show ?thesis by auto
    qed
  qed
  then show "cd_open d' = cd_open d" "always ?P d'" "cd_files d SALT_FILE \<noteq> None \<Longrightarrow> always (\<lambda>fs. fs = cd_files d) d'"
    "e = NOX_OK \<Longrightarrow> \<exists>s b. salt = Some s \<and> cd_files d' SALT_FILE = Some (File s b)" by simp_all
qed

text \<open>The contents of the identity file for a seed and a nonce, where the primitives succeed.\<close>

definition sealed_identity :: "key_crypto \<Rightarrow> bytes \<Rightarrow> bytes \<Rightarrow> bytes \<Rightarrow> bytes option" where
  "sealed_identity K key seed nonce =
     (case kc_keypair K seed of None \<Rightarrow> None
      | Some (pk, sk) \<Rightarrow> map_option (\<lambda>ct. nonce @ ct) (bx_seal (kc_box K) sk nonce key))"

definition only_tmp :: "bytes \<Rightarrow> (bytes \<rightharpoonup> node) \<Rightarrow> (bytes \<rightharpoonup> node) \<Rightarrow> bool" where
  "only_tmp tmp before fs \<longleftrightarrow> (\<forall>n. n \<noteq> tmp \<longrightarrow> fs n = before n)"

interpretation only: file_view "always (only_tmp tmp before)" tmp for tmp before
  by unfold_locales (auto dest: always_now simp: only_tmp_def)

lemma always_mono: "always P d \<Longrightarrow> (\<And>fs. P fs \<Longrightarrow> Q fs) \<Longrightarrow> always Q d"
  by (auto simp: always_def)

lemma identity_atomic:
  fixes pid :: nat and rnd :: bytes
  defines "tmp \<equiv> tmp_name IDENTITY_FILE pid rnd"
  assumes "cd_past d = []"
    and "crypto_generate_identity K al (rnd, seed, nonce) pid fd (Some key) (Some out) d = (e, pub, d')"
  shows "cd_open d' = cd_open d"
    "case sealed_identity K key seed nonce of None \<Rightarrow> always (only_tmp tmp (cd_files d)) d'
     | Some c \<Rightarrow> always (stored_or_not IDENTITY_FILE tmp (cd_files d) c) d'"
    "e = NOX_OK \<Longrightarrow> \<exists>c. sealed_identity K key seed nonce = Some c \<and> cd_files d' IDENTITY_FILE = Some (File c True)"
proof -
  have only: "always (only_tmp tmp (cd_files d)) d" by (simp add: always_start [OF assms(2)] only_tmp_def)
  have un: "always (only_tmp tmp (cd_files d)) (identity_cleanup tmp ret False d)" "cd_open (identity_cleanup tmp ret False d) = cd_open d" for ret
    using only.view_unlink [OF only] only by (simp_all add: identity_cleanup_def)
  have weaken: "always (only_tmp tmp (cd_files d)) x \<Longrightarrow> always (stored_or_not IDENTITY_FILE tmp (cd_files d) c) x" for x c
    by (erule always_mono) (auto simp: only_tmp_def stored_or_not_def tmp_def)
  note eq = assms(3) [unfolded crypto_generate_identity_def prod.case option.case, folded tmp_def]
  have early: "cd_open d' = cd_open d \<and> always (only_tmp tmp (cd_files d)) d' \<and> e \<noteq> NOX_OK"
    if "fd < 0 \<or> length tmp \<ge> 64 \<or> \<not> fst (sodium_malloc al) \<or> sealed_identity K key seed nonce = None"
    using that eq only un
    by (auto simp: Let_def sealed_identity_def split: if_splits option.splits prod.splits)
  have late: "cd_open d' = cd_open d \<and> always (stored_or_not IDENTITY_FILE tmp (cd_files d) c) d' \<and>
      (e = NOX_OK \<longrightarrow> cd_files d' IDENTITY_FILE = Some (File c True))"
    if c: "sealed_identity K key seed nonce = Some c"
      and "\<not> (fd < 0 \<or> length tmp \<ge> 64 \<or> \<not> fst (sodium_malloc al))" for c
  proof -
    from c obtain pk sk ct where k: "kc_keypair K seed = Some (pk, sk)" "bx_seal (kc_box K) sk nonce key = Some ct" "c = nonce @ ct"
      by (auto simp: sealed_identity_def split: option.splits prod.splits)
    obtain ret fo d1 where s: "identity_store tmp nonce ct d = (ret, fo, d1)" by (metis prod_cases3)
    have start: "always (stored_or_not IDENTITY_FILE tmp (cd_files d) c) d" by (simp add: always_start [OF assms(2)])
    note store = identity_store_spec [of pid rnd, folded tmp_def, OF start [unfolded k(3)] s, folded k(3)]
    from eq that(2) k s have "e = ret" "d' = identity_cleanup tmp ret fo d1" by (auto simp: Let_def)
    with store identity_cleanup_spec [of pid rnd, folded tmp_def, OF conjunct1 [OF store], of ret fo] identity_cleanup_ok
    show ?thesis by auto
  qed
  show "cd_open d' = cd_open d" using early late by (cases "sealed_identity K key seed nonce") auto
  show "case sealed_identity K key seed nonce of None \<Rightarrow> always (only_tmp tmp (cd_files d)) d'
     | Some c \<Rightarrow> always (stored_or_not IDENTITY_FILE tmp (cd_files d) c) d'"
    using early late weaken by (auto split: option.split)
  show "e = NOX_OK \<Longrightarrow> \<exists>c. sealed_identity K key seed nonce = Some c \<and> cd_files d' IDENTITY_FILE = Some (File c True)"
    using early late by (cases "sealed_identity K key seed nonce") auto
qed

text \<open>The files other than the temporary one and the target, whatever the past of the directory.\<close>

interpretation frame: file_view "\<lambda>d. only_tmp tmp before (cd_files d)" tmp for tmp before
  by unfold_locales (auto simp: only_tmp_def)

lemma frame_rename:
  assumes "only_tmp tmp before (cd_files d)" and "sys_rename tmp base d = (ok, d')" and "n \<noteq> tmp" and "n \<noteq> base"
  shows "cd_files d' n = before n"
  using assms by (auto simp: sys_rename_def only_tmp_def next_outcome_same split: prod.splits if_splits option.splits node.splits)

lemma generate_frame:
  assumes "identity_store tmp nonce ct d = (NOX_OK, False, d')" and "n \<noteq> tmp" and "n \<noteq> IDENTITY_FILE"
  shows "cd_files d' n = cd_files d n"
proof -
  let ?W = "\<lambda>x. only_tmp tmp (cd_files d) (cd_files x)"
  from assms(1) obtain d1 d2 d3 d4 d5 where
    s: "sys_create tmp d = (True, d1)" "write_exact tmp nonce d1 = (NOX_OK, d2)" "write_exact tmp ct d2 = (NOX_OK, d3)"
      "fsync_exact tmp d3 = (NOX_OK, d4)" "sys_rename tmp IDENTITY_FILE (sys_close d4) = (True, d5)" "fsync_dir d5 = (NOX_OK, d')"
    by (auto simp: identity_store_def split: prod.splits if_splits)
  have "?W d" by (simp add: only_tmp_def)
  from frame.view_create [OF this s(1)] have "?W d1" .
  from frame.view_write_exact [OF this s(2)] have "?W d2" .
  from frame.view_write_exact [OF this s(3)] have "?W d3" .
  from frame.view_fsync [OF this s(4)] have "?W (sys_close d4)" by simp
  from frame_rename [OF this s(5) assms(2,3)] fsync_dir_same [OF s(6)] show ?thesis by simp
qed

lemma identity_store_file:
  assumes "identity_store (tmp_name IDENTITY_FILE pid rnd) nonce ct d = (NOX_OK, False, d')"
  shows "cd_files d' IDENTITY_FILE = Some (File (nonce @ ct) True)"
proof -
  let ?tmp = "tmp_name IDENTITY_FILE pid rnd"
  from assms obtain d1 d2 d3 d4 d5 where
    s: "sys_create ?tmp d = (True, d1)" "write_exact ?tmp nonce d1 = (NOX_OK, d2)" "write_exact ?tmp ct d2 = (NOX_OK, d3)"
      "fsync_exact ?tmp d3 = (NOX_OK, d4)" "sys_rename ?tmp IDENTITY_FILE (sys_close d4) = (True, d5)" "fsync_dir d5 = (NOX_OK, d')"
    by (auto simp: identity_store_def split: prod.splits if_splits)
  have "cd_files d1 ?tmp = Some (File [] False)" using sys_create_content [OF s(1)] by simp
  from write_exact_content [OF this s(2)] obtain b where "cd_files d2 ?tmp = Some (File nonce b)" by auto
  from write_exact_content [OF this s(3)] obtain b where "cd_files d3 ?tmp = Some (File (nonce @ ct) b)" by auto
  from fsync_content [OF this s(4)] have "cd_files (sys_close d4) ?tmp = Some (File (nonce @ ct) True)" by simp
  with s(5) fsync_dir_same [OF s(6)] show ?thesis
    by (auto simp: sys_rename_def next_outcome_same split: prod.splits if_splits option.splits node.splits)
qed

text \<open>C9. Whatever the kernel answers, the key files are all or nothing at every moment of their creation. While
  the salt is loaded or created, an existing salt file is never touched, a new one appears complete and already
  flushed to the disk, and no file but the temporary one changes; on success the buffer holds what the file holds.
  While an identity is generated, the identity file is what it was or the complete sealed key, flushed to the disk,
  and again only the temporary file is touched besides; success means that the new file is there. Both calls leave
  no descriptor open.\<close>

theorem key_files_atomic:
  assumes "cd_past d = []" and "length buf = NOX_SALT_LEN"
  shows "(case crypto_load_or_create_salt fresh rnd pid (Some buf) fd d of (e, salt, d') \<Rightarrow>
      cd_open d' = cd_open d \<and>
      (\<forall>fs \<in> moments d'.
         (fs SALT_FILE = cd_files d SALT_FILE \<or> cd_files d SALT_FILE = None \<and> fs SALT_FILE = Some (File fresh True)) \<and>
         (\<forall>n. n \<noteq> SALT_FILE \<longrightarrow> n \<noteq> tmp_name SALT_FILE pid rnd \<longrightarrow> fs n = cd_files d n)) \<and>
      (e = NOX_OK \<longrightarrow> (\<exists>s b. salt = Some s \<and> cd_files d' SALT_FILE = Some (File s b)))) \<and>
    (case crypto_generate_identity K al (rnd, seed, nonce) pid fd (Some key) (Some out) d of (e, pub, d') \<Rightarrow>
      cd_open d' = cd_open d \<and>
      (\<forall>fs \<in> moments d'.
         (fs IDENTITY_FILE = cd_files d IDENTITY_FILE \<or>
          (\<exists>c. sealed_identity K key seed nonce = Some c \<and> fs IDENTITY_FILE = Some (File c True))) \<and>
         (\<forall>n. n \<noteq> IDENTITY_FILE \<longrightarrow> n \<noteq> tmp_name IDENTITY_FILE pid rnd \<longrightarrow> fs n = cd_files d n)) \<and>
      (e = NOX_OK \<longrightarrow> (\<exists>c. sealed_identity K key seed nonce = Some c \<and> cd_files d' IDENTITY_FILE = Some (File c True))))"
proof -
  obtain e salt d' where s: "crypto_load_or_create_salt fresh rnd pid (Some buf) fd d = (e, salt, d')" by (metis prod_cases3)
  obtain e2 pub d2 where g: "crypto_generate_identity K al (rnd, seed, nonce) pid fd (Some key) (Some out) d = (e2, pub, d2)"
    by (metis prod_cases3)
  note S = salt_atomic [OF assms s] and G = identity_atomic [OF assms(1) g]
  have "always (\<lambda>fs. (fs SALT_FILE = cd_files d SALT_FILE \<or> cd_files d SALT_FILE = None \<and> fs SALT_FILE = Some (File fresh True)) \<and>
      (\<forall>n. n \<noteq> SALT_FILE \<longrightarrow> n \<noteq> tmp_name SALT_FILE pid rnd \<longrightarrow> fs n = cd_files d n)) d'"
    by (cases "cd_files d SALT_FILE = None")
       (rule always_mono [OF S(2)], auto simp: stored_or_not_def intro: always_mono [OF S(3)])
  moreover have "always (\<lambda>fs. (fs IDENTITY_FILE = cd_files d IDENTITY_FILE \<or>
        (\<exists>c. sealed_identity K key seed nonce = Some c \<and> fs IDENTITY_FILE = Some (File c True))) \<and>
      (\<forall>n. n \<noteq> IDENTITY_FILE \<longrightarrow> n \<noteq> tmp_name IDENTITY_FILE pid rnd \<longrightarrow> fs n = cd_files d n)) d2"
    using G(2) by (auto split: option.splits simp: only_tmp_def stored_or_not_def elim!: always_mono)
  ultimately show ?thesis using S(1,4) G(1,3) s g by (simp add: ball_moments)
qed

text \<open>Simple functions that keep the laws of the primitives, and an empty directory.\<close>

definition toy_keys :: key_crypto where
  "toy_keys = \<lparr>kc_pwhash = (\<lambda>p s. Some (pad_to 32 p)), kc_kdf = (\<lambda>k i. Some (map (\<lambda>x. x + of_nat i) k)),
     kc_box = \<lparr>bx_hash = (\<lambda>m k. Some m), bx_seal = (\<lambda>p n k. Some (p @ pad_to 16 k)),
       bx_open = (\<lambda>c n k. if length c < 16 \<or> drop (length c - 16) c \<noteq> pad_to 16 k then None else Some (take (length c - 16) c))\<rparr>,
     kc_keypair = (\<lambda>s. Some (pad_to 32 s, pad_to 32 s @ pad_to 32 s)), kc_sk_to_pk = (\<lambda>s. Some (take 32 s)),
     kc_pk_curve = Some, kc_sk_curve = (\<lambda>s. Some (take 32 s))\<rparr>"

definition empty_dir :: "sys_outcome list \<Rightarrow> config_dir" where
  "empty_dir fs = \<lparr>cd_files = Map.empty, cd_outcomes = fs, cd_open = 1, cd_past = []\<rparr>"

theorem key_files_atomic_witness:
  "cd_past (empty_dir [Done_all, Done_all, Done_part 5, Intr, Failed]) = [] \<and> length (zeros 16) = NOX_SALT_LEN \<and>
   cd_open (snd (snd (crypto_load_or_create_salt (zeros 16) (zeros 4) 77 (Some (zeros 16)) 3
     (empty_dir [Done_all, Done_all, Done_part 5, Intr, Failed])))) = 1"
  using key_files_atomic [of "empty_dir [Done_all, Done_all, Done_part 5, Intr, Failed]" "zeros 16" "zeros 16" 77 "zeros 4" 3
    toy_keys "zeros 32" "zeros 32" "zeros 24" "[]" "zeros 32"]
  by (simp add: empty_dir_def NOX_SALT_LEN_def case_prod_beta)

end
