(* ===== verification/Nox_Startup_Props.thy ===== *)
theory Nox_Startup_Props
  imports Nox_Startup Nox_Identity_Props
begin

text \<open>
  What the start of the program promises: the identity survives a restart with the right PIN and only with
  it, the PIN is read exactly and leaves no trace when it is refused, wiping an account, and the paths.
\<close>

section \<open>The identity survives a restart\<close>

lemma salt_create_file:
  assumes "salt_create (tmp_name SALT_FILE pid rnd) salt d = (NOX_OK, d')"
  shows "cd_files d' SALT_FILE = Some (File salt True)"
proof -
  let ?tmp = "tmp_name SALT_FILE pid rnd"
  from assms obtain d1 d2 d3 d4 where
    s: "sys_create ?tmp d = (True, d1)" "write_exact ?tmp salt d1 = (NOX_OK, d2)" "fsync_exact ?tmp d2 = (NOX_OK, d3)"
      "sys_rename ?tmp SALT_FILE (sys_close d3) = (True, d4)" "fsync_dir d4 = (NOX_OK, d')"
    by (auto simp: salt_create_def Let_def split: prod.splits if_splits)
  from tmp_complete [OF s(1-3)] have "cd_files (sys_close d3) ?tmp = Some (File salt True)" by simp
  with s(4) fsync_dir_same [OF s(5)] show ?thesis
    by (auto simp: sys_rename_def next_outcome_same split: prod.splits if_splits option.splits node.splits)
qed

lemma salt_ok_file:
  assumes "crypto_load_or_create_salt fresh rnd pid (Some buf) fd d = (NOX_OK, salt, d')"
    and "length fresh = NOX_SALT_LEN" and "length buf = NOX_SALT_LEN"
  obtains s b where "salt = Some s" "length s = NOX_SALT_LEN" "cd_files d' SALT_FILE = Some (File s b)"
proof -
  obtain a d1 where 1: "sys_open False SALT_FILE d = (a, d1)" by fastforce
  from assms(1) have fd: "\<not> fd < 0" by (auto simp: crypto_load_or_create_salt_def split: if_splits)
  note eq = assms(1) [unfolded crypto_load_or_create_salt_def option.case if_not_P [OF fd] 1 prod.case]
  show thesis
  proof (cases a)
    case Open_ok
    obtain st d2 where 2: "sys_fstat SALT_FILE d1 = (st, d2)" by fastforce
    obtain re got d3 where 3: "read_exact SALT_FILE 0 NOX_SALT_LEN d2 = (re, got, d3)" by (metis prod_cases3)
    from eq Open_ok 2 3 have r: "st = Some NOX_SALT_LEN" "re = NOX_OK" "salt = Some (got @ drop (length got) buf)" "d' = sys_close d3"
      by (auto split: if_splits)
    from salt_open_file [of d d1 d2 got d3] 1 2 3 Open_ok r obtain b where
      "length got = NOX_SALT_LEN" "cd_files d SALT_FILE = Some (File got b)" by auto
    with r assms(3) sys_open_same [OF 1] sys_fstat_same [OF 2] read_exact_same [OF 3] show thesis
      by (intro that [of got b]) auto
  next
    case Open_enoent
    with eq obtain "salt = Some fresh" "salt_create (tmp_name SALT_FILE pid rnd) fresh d1 = (NOX_OK, d')"
      by (auto simp: Let_def split: if_splits prod.splits)
    with salt_create_file [of pid rnd fresh d1 d'] assms(2) show thesis by (intro that [of fresh True]) auto
  next
    case Open_refused
    with eq show thesis by simp
  qed
qed

lemma load_okE:
  assumes "crypto_load_identity K al fd (Some key) (Some a) (Some b) d = (NOX_OK, sk, pk, d')"
  obtains c s sk' pk' where "cd_files d IDENTITY_FILE = Some (File c s)" "length c = IDENTITY_FILE_SIZE"
    "bx_open (kc_box K) (drop NOX_NONCE_LEN c) (take NOX_NONCE_LEN c) key = Some sk'" "kc_sk_to_pk K sk' = Some pk'"
    "sk = Some sk'" "pk = Some pk'" "cd_files d' = cd_files d"
proof -
  obtain o1 d1 where 1: "sys_open False IDENTITY_FILE d = (o1, d1)" by fastforce
  obtain st d2 where 2: "sys_fstat IDENTITY_FILE d1 = (st, d2)" by fastforce
  obtain re c d3 where 3: "read_exact IDENTITY_FILE 0 IDENTITY_FILE_SIZE d2 = (re, c, d3)" by (metis prod_cases3)
  from assms 1 2 3 have ok: "o1 = Open_ok" "st = Some IDENTITY_FILE_SIZE" "re = NOX_OK"
    "\<exists>sk' pk'. bx_open (kc_box K) (drop NOX_NONCE_LEN c) (take NOX_NONCE_LEN c) key = Some sk' \<and> kc_sk_to_pk K sk' = Some pk' \<and>
      sk = Some sk' \<and> pk = Some pk' \<and> d' = sys_close d3"
    by (auto simp: crypto_load_identity_def Let_def split: if_splits option.splits) metis
  note same = sys_open_same [OF 1] sys_fstat_same [OF 2] read_exact_same [OF 3]
  from read_exact_content [OF 3 [unfolded ok(3)]] obtain c0 s where
    c: "cd_files d2 IDENTITY_FILE = Some (File c0 s)" "c = take IDENTITY_FILE_SIZE c0" "length c = IDENTITY_FILE_SIZE"
    by (auto simp: id_consts nox_consts)
  from 2 ok(2) c(1) same have "length c0 = IDENTITY_FILE_SIZE"
    by (auto simp: sys_fstat_def next_outcome_same split: prod.splits if_splits)
  with c same ok(4) show thesis by (auto intro: that [of c s])
qed

text \<open>What a successful run of steps 9 to 11 computed.\<close>

definition keys_of :: "key_crypto \<Rightarrow> bytes \<Rightarrow> bytes \<Rightarrow> (bytes \<times> bytes \<times> bytes \<times> bytes) option" where
  "keys_of K pin salt =
     (case kc_pwhash K pin salt of None \<Rightarrow> None | Some mk \<Rightarrow>
      (case (kc_kdf K mk NOX_SUBKEY_DB, kc_kdf K mk NOX_SUBKEY_IDENTITY_UNLOCK, kc_kdf K mk NOX_SUBKEY_SESSION) of
         (Some db, Some un, Some se) \<Rightarrow> Some (mk, db, un, se) | _ \<Rightarrow> None))"

lemma derive_subkeys_ok:
  "crypto_derive_subkeys K mk bufs = (NOX_OK, db, un, se) \<longleftrightarrow>
     kc_kdf K mk NOX_SUBKEY_DB = Some db \<and> kc_kdf K mk NOX_SUBKEY_IDENTITY_UNLOCK = Some un \<and> kc_kdf K mk NOX_SUBKEY_SESSION = Some se"
  by (auto simp: crypto_derive_subkeys_def split: prod.splits option.splits)

lemma take_c_str [simp]: "take (length (c_str b)) b = c_str b"
  by (metis c_str_def takeWhile_eq_take)

lemma derive_master_ok:
  "crypto_derive_master_key K (Some m) (Some p) (length (c_str p)) (Some s) = (NOX_OK, mk, p') \<longleftrightarrow>
     NOX_PIN_MIN_LEN \<le> length (c_str p) \<and> length (c_str p) \<le> NOX_PIN_MAX_LEN \<and>
     (\<exists>k. kc_pwhash K (c_str p) s = Some k \<and> mk = Some k) \<and> p' = Some (wipe (length (c_str p)) p)"
  by (auto simp: crypto_derive_master_key_def Let_def split: option.splits)

lemma curve_ok:
  "crypto_ed25519_to_curve25519 K (Some a) (Some b) (Some pk) (Some sk) = (NOX_OK, Some pub, Some priv) \<longleftrightarrow>
     kc_pk_curve K pk = Some pub \<and> kc_sk_curve K sk = Some priv"
  by (auto simp: crypto_ed25519_to_curve25519_def Let_def split: option.splits)

lemma main_keys_okE:
  assumes "main_keys K I pin d = (None, ring, p, s, d')" and "length (ki_salt I) = NOX_SALT_LEN" and "length (ki_salt_buf I) = NOX_SALT_LEN"
  obtains salt b d1 ar mk db un se priv pub where
    "length salt = NOX_SALT_LEN" "cd_files d1 SALT_FILE = Some (File salt b)"
    "NOX_PIN_MIN_LEN \<le> length (c_str pin)" "length (c_str pin) \<le> NOX_PIN_MAX_LEN"
    "keys_of K (c_str pin) salt = Some (mk, db, un, se)" "main_identity K I ar un d1 = (Some (priv, pub), d')"
    "kr_db ring = Some db" "kr_session ring = Some se" "kr_priv ring = Some priv" "kr_pub ring = Some pub"
proof -
  obtain code m p1 s1 d1 ar where M: "main_master_key K I pin d = (code, m, p1, s1, d1, ar)" by (metis prod_cases6)
  from assms(1) M obtain mk where m: "code = None" "m = Some mk"
    by (auto simp: main_keys_def split: prod.splits option.splits)
  obtain err salt where S: "crypto_load_or_create_salt (ki_salt I) (ki_salt_rnd I) (ki_pid I) (Some (ki_salt_buf I)) (ki_fd I) d = (err, salt, d1)"
    using M m by (auto simp: main_master_key_def split: prod.splits if_splits)
  with M m have "err = NOX_OK" by (auto simp: main_master_key_def split: prod.splits if_splits)
  from salt_ok_file [OF S [unfolded this] assms(2,3)] obtain s0 b where
    s0: "salt = Some s0" "length s0 = NOX_SALT_LEN" "cd_files d1 SALT_FILE = Some (File s0 b)" by blast
  from M m S s0(1) \<open>err = NOX_OK\<close> have mk: "NOX_PIN_MIN_LEN \<le> length (c_str pin)" "length (c_str pin) \<le> NOX_PIN_MAX_LEN"
      "kc_pwhash K (c_str pin) s0 = Some mk"
    by (auto simp: main_master_key_def derive_master_ok split: prod.splits if_splits)
  obtain ar1 ar2 ar3 o1 o2 o3 where A: "sodium_malloc ar = (o1, ar1)" "sodium_malloc ar1 = (o2, ar2)" "sodium_malloc ar2 = (o3, ar3)"
    by (metis surj_pair)
  obtain e db un se where D: "crypto_derive_subkeys K mk (zeros NOX_KEY_LEN, zeros NOX_KEY_LEN, zeros NOX_KEY_LEN) = (e, db, un, se)"
    by (metis prod_cases4)
  from assms(1) M m A D obtain priv pub where
    r: "e = NOX_OK" "main_identity K I ar3 un d1 = (Some (priv, pub), d')" "kr_db ring = Some db" "kr_session ring = Some se"
      "kr_priv ring = Some priv" "kr_pub ring = Some pub"
    by (auto simp: main_keys_def split: if_splits prod.splits option.splits)
  have "keys_of K (c_str pin) s0 = Some (mk, db, un, se)"
    using mk(3) D r(1) by (simp add: keys_of_def derive_subkeys_ok)
  with s0 mk r show thesis by (intro that) auto
qed

lemma main_identity_firstE:
  assumes "main_identity K I ar un d = (Some (priv, pub), d')" and "ki_first_run I" and "ki_identity_rnd I = (rnd, seed, nonce)"
    and "box_ok (kc_box K)" and "\<forall>s pk sk. kc_keypair K s = Some (pk, sk) \<longrightarrow> length sk = crypto_sign_SECRETKEYBYTES \<and> kc_sk_to_pk K sk = Some pk"
    and "length nonce = NOX_NONCE_LEN"
  obtains sk pk ct b where "cd_files d' IDENTITY_FILE = Some (File (nonce @ ct) b)"
    "length ct = crypto_sign_SECRETKEYBYTES + secretbox_MACBYTES" "bx_open (kc_box K) ct nonce un = Some sk"
    "kc_sk_to_pk K sk = Some pk" "kc_pk_curve K pk = Some pub" "kc_sk_curve K sk = Some priv"
    "cd_files d' SALT_FILE = cd_files d SALT_FILE"
proof -
  from assms(1-3) obtain al al2 e1 ep d1 where
    g: "crypto_generate_identity K al (rnd, seed, nonce) (ki_pid I) (ki_fd I) (Some un) (Some (zeros 32)) d = (NOX_OK, ep, d1)"
    and l: "\<exists>es ep2. crypto_load_identity K al2 (ki_fd I) (Some un) (Some (zeros 64)) ep d1 = (NOX_OK, es, ep2, d') \<and>
       crypto_ed25519_to_curve25519 K (Some (zeros NOX_KEY_LEN)) (Some (zeros NOX_KEY_LEN)) ep2 es = (NOX_OK, Some pub, Some priv)"
    by (auto simp: main_identity_def split: prod.splits if_splits nox_err_t.splits option.splits) blast
  from generate_okE [OF g] obtain pk sk ct where k: "kc_keypair K seed = Some (pk, sk)" "bx_seal (kc_box K) sk nonce un = Some ct"
    "ep = Some pk" "identity_store (tmp_name IDENTITY_FILE (ki_pid I) rnd) nonce ct d = (NOX_OK, False, d1)" by blast
  have law: "length sk = crypto_sign_SECRETKEYBYTES" "kc_sk_to_pk K sk = Some pk" using assms(5) k(1) by blast+
  obtain ct' where "bx_seal (kc_box K) sk nonce un = Some ct'" "length ct' = length sk + secretbox_MACBYTES"
      "bx_open (kc_box K) ct' nonce un = Some sk" using box_okE [OF assms(4)] by metis
  with k(2) law have ct: "length ct = crypto_sign_SECRETKEYBYTES + secretbox_MACBYTES" "bx_open (kc_box K) ct nonce un = Some sk" by auto
  have stored: "cd_files d1 IDENTITY_FILE = Some (File (nonce @ ct) True)" by (rule identity_store_file [OF k(4)])
  have salt: "cd_files d1 SALT_FILE = cd_files d SALT_FILE"
    by (rule generate_frame [OF k(4)]) (auto simp: tmp_name_def SALT_FILE_def IDENTITY_FILE_def str_bytes_def)
  from l k(3) obtain es ep2 where l2: "crypto_load_identity K al2 (ki_fd I) (Some un) (Some (zeros 64)) (Some pk) d1 = (NOX_OK, es, ep2, d')"
    and c: "crypto_ed25519_to_curve25519 K (Some (zeros NOX_KEY_LEN)) (Some (zeros NOX_KEY_LEN)) ep2 es = (NOX_OK, Some pub, Some priv)" by auto
  from l2 obtain c0 s sk' pk' where o: "cd_files d1 IDENTITY_FILE = Some (File c0 s)"
      "bx_open (kc_box K) (drop NOX_NONCE_LEN c0) (take NOX_NONCE_LEN c0) un = Some sk'" "kc_sk_to_pk K sk' = Some pk'"
      "es = Some sk'" "ep2 = Some pk'" "cd_files d' = cd_files d1"
    by (rule load_okE)
  from o(1) stored have "c0 = nonce @ ct" by simp
  with o ct(2) law(2) assms(6) have "es = Some sk" "ep2 = Some pk" "cd_files d' = cd_files d1" by simp_all
  with c stored ct law(2) salt show thesis by (intro that [of ct True sk pk]) (auto simp: curve_ok)
qed

lemma heap_ok_malloc: "heap_ok al \<Longrightarrow> \<exists>al'. sodium_malloc al = (True, al') \<and> heap_ok al'"
  by (metis prod.collapse sodium_malloc_ok(1,2))

text \<open>A later start on a directory with the same key files.\<close>

lemma later_master:
  assumes "quiet d" and "cd_files d SALT_FILE = Some (File salt b)" and "length salt = NOX_SALT_LEN" and "0 \<le> ki_fd J"
    and "length (ki_salt_buf J) = NOX_SALT_LEN" and "heap_ok (ki_arena J)"
    and "NOX_PIN_MIN_LEN \<le> length (c_str pin)" and "length (c_str pin) \<le> NOX_PIN_MAX_LEN"
  shows "\<exists>d1. quiet d1 \<and> cd_files d1 = cd_files d \<and>
    main_master_key K J pin d =
      (case kc_pwhash K (c_str pin) salt of
         None \<Rightarrow> (Some 1, None, None, Some (zeros NOX_SALT_LEN), d1, snd (sodium_malloc (ki_arena J)))
       | Some mk \<Rightarrow> (None, Some mk, None, Some (zeros NOX_SALT_LEN), d1, snd (sodium_malloc (ki_arena J))))"
proof -
  obtain d1 where d1: "cd_files d1 = cd_files d" "quiet d1"
    "crypto_load_or_create_salt (ki_salt J) (ki_salt_rnd J) (ki_pid J) (Some (ki_salt_buf J)) (ki_fd J) d = (NOX_OK, Some salt, d1)"
    using load_salt_eq [OF assms(1-5)] by blast
  show ?thesis
    by (rule exI [of _ d1])
       (use d1 assms(6-8) in \<open>auto simp: main_master_key_def crypto_derive_master_key_def case_prod_beta Let_def split: option.split\<close>)
qed

text \<open>The static keys that a sealed identity holds for an unlock key.\<close>

definition static_keys :: "key_crypto \<Rightarrow> bytes \<Rightarrow> bytes \<Rightarrow> bytes \<Rightarrow> (bytes \<times> bytes) option" where
  "static_keys K nonce ct un =
     (case bx_open (kc_box K) ct nonce un of None \<Rightarrow> None
      | Some sk \<Rightarrow> (case kc_sk_to_pk K sk of None \<Rightarrow> None
        | Some pk \<Rightarrow> (case (kc_pk_curve K pk, kc_sk_curve K sk) of (Some pub, Some priv) \<Rightarrow> Some (priv, pub) | _ \<Rightarrow> None)))"

lemma later_identity:
  assumes "quiet d" and "cd_files d IDENTITY_FILE = Some (File (nonce @ ct) b)" and "length nonce = NOX_NONCE_LEN"
    and "length ct = crypto_sign_SECRETKEYBYTES + secretbox_MACBYTES" and "0 \<le> ki_fd J" and "heap_ok (ki_heap J)"
    and "heap_ok ar" and "\<not> ki_first_run J"
  shows "\<exists>d1. cd_files d1 = cd_files d \<and> main_identity K J ar un d = (static_keys K nonce ct un, d1)"
proof -
  obtain a1 a2 where m1: "sodium_malloc ar = (True, a1)" "sodium_malloc a1 = (True, a2)"
    using heap_ok_malloc assms(7) by metis
  obtain h1 al where m2: "sodium_malloc (ki_heap J) = (True, h1)" "sodium_malloc h1 = (True, al)" and al: "heap_ok al"
    using heap_ok_malloc assms(6) by metis
  obtain d1 where d1: "cd_files d1 = cd_files d"
    "crypto_load_identity K al (ki_fd J) (Some un) (Some (zeros 64)) (Some (zeros 32)) d =
      (case bx_open (kc_box K) ct nonce un of
         None \<Rightarrow> (NOX_ERR_AUTH, Some (zeros crypto_sign_SECRETKEYBYTES), Some (zeros NOX_KEY_LEN), d1)
       | Some sk \<Rightarrow>
         (case kc_sk_to_pk K sk of
            None \<Rightarrow> (NOX_ERR_CRYPTO, Some (zeros crypto_sign_SECRETKEYBYTES), Some (zeros NOX_KEY_LEN), d1)
          | Some pk \<Rightarrow> (NOX_OK, Some sk, Some pk, d1)))"
    using load_identity_eq [OF assms(1) al assms(2-5), of K un "zeros 64" "zeros 32"] by blast
  show ?thesis
    by (rule exI [of _ d1])
       (simp add: main_identity_def static_keys_def m1 m2 d1 assms(8) crypto_ed25519_to_curve25519_def Let_def split: option.split)
qed

lemma later_keys:
  assumes "quiet d" and "cd_files d SALT_FILE = Some (File salt b)" and "length salt = NOX_SALT_LEN"
    and "cd_files d IDENTITY_FILE = Some (File (nonce @ ct) b2)" and "length nonce = NOX_NONCE_LEN"
    and "length ct = crypto_sign_SECRETKEYBYTES + secretbox_MACBYTES"
    and J: "0 \<le> ki_fd J" "length (ki_salt_buf J) = NOX_SALT_LEN" "heap_ok (ki_arena J)" "heap_ok (ki_heap J)" "\<not> ki_first_run J"
    and pin: "NOX_PIN_MIN_LEN \<le> length (c_str pin)" "length (c_str pin) \<le> NOX_PIN_MAX_LEN"
  shows "\<exists>d1. cd_files d1 = cd_files d \<and>
    main_keys K J pin d =
      (case keys_of K (c_str pin) salt of None \<Rightarrow> (Some 1, no_keys, None, Some (zeros NOX_SALT_LEN), d1)
       | Some (mk, db, un, se) \<Rightarrow>
         (case static_keys K nonce ct un of None \<Rightarrow> (Some 1, no_keys, None, Some (zeros NOX_SALT_LEN), d1)
          | Some (priv, pub) \<Rightarrow>
              (None, \<lparr>kr_master = (if ki_ghost J then None else Some mk), kr_db = Some db, kr_unlock = None,
                      kr_session = Some se, kr_priv = Some priv, kr_pub = Some pub\<rparr>, None, Some (zeros NOX_SALT_LEN), d1)))"
proof -
  define ar where "ar = snd (sodium_malloc (ki_arena J))"
  have "heap_ok ar" using J(3) by (simp add: ar_def)
  then obtain ar1 ar2 ar3 where A: "sodium_malloc ar = (True, ar1)" "sodium_malloc ar1 = (True, ar2)" "sodium_malloc ar2 = (True, ar3)"
      and h: "heap_ok ar3"
    using heap_ok_malloc by metis
  obtain d1 where d1: "quiet d1" "cd_files d1 = cd_files d" and M: "main_master_key K J pin d =
      (case kc_pwhash K (c_str pin) salt of None \<Rightarrow> (Some 1, None, None, Some (zeros NOX_SALT_LEN), d1, ar)
       | Some mk \<Rightarrow> (None, Some mk, None, Some (zeros NOX_SALT_LEN), d1, ar))"
    using later_master [OF assms(1-3) J(1-3) pin, of K] ar_def by metis
  show ?thesis
  proof (cases "keys_of K (c_str pin) salt")
    case None
    have fail: "crypto_derive_subkeys K mk bufs \<noteq> (NOX_OK, x)" if "kc_pwhash K (c_str pin) salt = Some mk" for mk bufs x
      using None that by (cases x) (auto simp: keys_of_def derive_subkeys_ok)
    show ?thesis
      by (rule exI [of _ d1]) (use None fail d1(2) in \<open>auto simp: main_keys_def M A split: option.split prod.split\<close>)
  next
    case (Some ks)
    then obtain mk db un se where ks: "keys_of K (c_str pin) salt = Some (mk, db, un, se)" by (cases ks) auto
    then have k: "kc_pwhash K (c_str pin) salt = Some mk"
      "crypto_derive_subkeys K mk (zeros NOX_KEY_LEN, zeros NOX_KEY_LEN, zeros NOX_KEY_LEN) = (NOX_OK, db, un, se)"
      by (auto simp: keys_of_def derive_subkeys_ok split: option.splits)
    obtain d2 where d2: "cd_files d2 = cd_files d1" "main_identity K J ar3 un d1 = (static_keys K nonce ct un, d2)"
      using later_identity [OF d1(1) _ assms(5,6) J(1,4) h J(5)] d1(2) assms(4) by metis
    show ?thesis
      by (rule exI [of _ d2]) (use d1(2) in \<open>simp add: main_keys_def M A k ks d2 split: option.split\<close>)
  qed
qed

text \<open>C8. The identity survives a restart, and only with the PIN. When a first run has completed the steps
  from the PIN to the keys, then any later start on a directory with the same salt and identity files, whose
  kernel completes its calls (in parts, if it likes), ends with the same static keys, database key and
  session key if the PIN is the same, with the PIN freed and the salt wiped; and if the key derived from
  another PIN does not open the sealed identity, the start ends with exit code 1, every key wiped and no
  file changed.\<close>

theorem identity_survives_restart:
  assumes "box_ok (kc_box K)"
    and "\<forall>s pk sk. kc_keypair K s = Some (pk, sk) \<longrightarrow> length sk = crypto_sign_SECRETKEYBYTES \<and> kc_sk_to_pk K sk = Some pk"
    and "main_keys K I pin d = (None, ring, p, s, d1)" and "ki_first_run I"
    and "ki_identity_rnd I = (rnd, seed, nonce)" and "length nonce = NOX_NONCE_LEN"
    and "length (ki_salt I) = NOX_SALT_LEN" and "length (ki_salt_buf I) = NOX_SALT_LEN"
    and "quiet d2" and "cd_files d2 SALT_FILE = cd_files d1 SALT_FILE" and "cd_files d2 IDENTITY_FILE = cd_files d1 IDENTITY_FILE"
    and "0 \<le> ki_fd J" and "length (ki_salt_buf J) = NOX_SALT_LEN" and "heap_ok (ki_arena J)" and "heap_ok (ki_heap J)" and "\<not> ki_first_run J"
  shows "(c_str pin2 = c_str pin \<longrightarrow>
      (\<exists>ring2 d3. main_keys K J pin2 d2 = (None, ring2, None, Some (zeros NOX_SALT_LEN), d3) \<and> kr_priv ring2 = kr_priv ring \<and>
         kr_pub ring2 = kr_pub ring \<and> kr_db ring2 = kr_db ring \<and> kr_session ring2 = kr_session ring \<and> kr_unlock ring2 = None \<and>
         cd_files d3 = cd_files d2)) \<and>
    (NOX_PIN_MIN_LEN \<le> length (c_str pin2) \<and> length (c_str pin2) \<le> NOX_PIN_MAX_LEN \<and>
      (\<forall>salt b c b2 mk db un se. cd_files d1 SALT_FILE = Some (File salt b) \<and> cd_files d1 IDENTITY_FILE = Some (File c b2) \<and>
         keys_of K (c_str pin2) salt = Some (mk, db, un, se) \<longrightarrow>
         bx_open (kc_box K) (drop NOX_NONCE_LEN c) (take NOX_NONCE_LEN c) un = None) \<longrightarrow>
      (\<exists>d3. main_keys K J pin2 d2 = (Some 1, no_keys, None, Some (zeros NOX_SALT_LEN), d3) \<and> cd_files d3 = cd_files d2))"
proof -
  from assms(3,7,8) obtain salt b d0 ar mk db un se priv pub where
    salt: "length salt = NOX_SALT_LEN" "cd_files d0 SALT_FILE = Some (File salt b)"
    and pin: "NOX_PIN_MIN_LEN \<le> length (c_str pin)" "length (c_str pin) \<le> NOX_PIN_MAX_LEN"
    and keys: "keys_of K (c_str pin) salt = Some (mk, db, un, se)" and ident: "main_identity K I ar un d0 = (Some (priv, pub), d1)"
    and ring: "kr_db ring = Some db" "kr_session ring = Some se" "kr_priv ring = Some priv" "kr_pub ring = Some pub"
    by (rule main_keys_okE)
  from ident assms(4,5,1,2,6) obtain sk pk ct b2 where
    ct: "cd_files d1 IDENTITY_FILE = Some (File (nonce @ ct) b2)" "length ct = crypto_sign_SECRETKEYBYTES + secretbox_MACBYTES"
      "bx_open (kc_box K) ct nonce un = Some sk" "kc_sk_to_pk K sk = Some pk" "kc_pk_curve K pk = Some pub" "kc_sk_curve K sk = Some priv"
      "cd_files d1 SALT_FILE = cd_files d0 SALT_FILE"
    by (rule main_identity_firstE)
  have st: "static_keys K nonce ct un = Some (priv, pub)" by (simp add: static_keys_def ct)
  have f: "cd_files d2 SALT_FILE = Some (File salt b)" "cd_files d2 IDENTITY_FILE = Some (File (nonce @ ct) b2)"
    using assms(10,11) ct(1,7) salt(2) by simp_all
  note later = later_keys [where K = K, OF assms(9) f(1) salt(1) f(2) assms(6) ct(2) assms(12-16)]
  have right: "\<exists>ring2 d3. main_keys K J pin2 d2 = (None, ring2, None, Some (zeros NOX_SALT_LEN), d3) \<and> kr_priv ring2 = kr_priv ring \<and>
         kr_pub ring2 = kr_pub ring \<and> kr_db ring2 = kr_db ring \<and> kr_session ring2 = kr_session ring \<and> kr_unlock ring2 = None \<and>
         cd_files d3 = cd_files d2" if "c_str pin2 = c_str pin"
    using later [of pin2] pin keys st ring unfolding that by auto
  have wrong: "\<exists>d3. main_keys K J pin2 d2 = (Some 1, no_keys, None, Some (zeros NOX_SALT_LEN), d3) \<and> cd_files d3 = cd_files d2"
    if v: "NOX_PIN_MIN_LEN \<le> length (c_str pin2)" "length (c_str pin2) \<le> NOX_PIN_MAX_LEN"
      and w: "\<forall>salt b c b2 mk db un se. cd_files d1 SALT_FILE = Some (File salt b) \<and> cd_files d1 IDENTITY_FILE = Some (File c b2) \<and>
         keys_of K (c_str pin2) salt = Some (mk, db, un, se) \<longrightarrow>
         bx_open (kc_box K) (drop NOX_NONCE_LEN c) (take NOX_NONCE_LEN c) un = None"
  proof (cases "keys_of K (c_str pin2) salt")
    case None
    with later [OF v] show ?thesis by auto
  next
    case (Some ks)
    then obtain mk' db' un' se' where ks: "keys_of K (c_str pin2) salt = Some (mk', db', un', se')" by (cases ks) auto
    with w ct(1,7) salt(2) assms(6) have "bx_open (kc_box K) ct nonce un' = None" by fastforce
    then have "static_keys K nonce ct un' = None" by (simp add: static_keys_def)
    with later [OF v] ks show ?thesis by auto
  qed
  show ?thesis using right wrong by blast
qed

definition toy_inputs :: "bool \<Rightarrow> key_inputs" where
  "toy_inputs first = \<lparr>ki_ghost = False, ki_first_run = first, ki_fd = 3, ki_pid = 42, ki_salt = zeros 16, ki_salt_rnd = [1, 2, 3, 4],
     ki_identity_rnd = ([5, 6, 7, 8], [9], zeros 24), ki_arena = [], ki_heap = [], ki_salt_buf = zeros 16\<rparr>"

definition toy_pin :: bytes where
  "toy_pin = [49, 50, 51, 52, 53, 54, 55, 56, 0]"

lemma box_ok_toy: "box_ok (kc_box toy_keys)"
  by (simp add: box_ok_def toy_keys_def secretbox_MACBYTES_def)

lemma keypair_toy:
  "\<forall>s pk sk. kc_keypair toy_keys s = Some (pk, sk) \<longrightarrow> length sk = crypto_sign_SECRETKEYBYTES \<and> kc_sk_to_pk toy_keys sk = Some pk"
  by (simp add: toy_keys_def id_consts)

theorem identity_survives_restart_witness:
  "fst (main_keys toy_keys (toy_inputs True) toy_pin (empty_dir [])) = None \<and>
   kr_priv (fst (snd (main_keys toy_keys (toy_inputs False) toy_pin
     (snd (snd (snd (snd (main_keys toy_keys (toy_inputs True) toy_pin (empty_dir [])))))\<lparr>cd_outcomes := [Done_part 7]\<rparr>)))) =
   kr_priv (fst (snd (main_keys toy_keys (toy_inputs True) toy_pin (empty_dir []))))"
proof -
  have first: "fst (main_keys toy_keys (toy_inputs True) toy_pin (empty_dir [])) = None" by code_simp
  then obtain ring p s d1 where r: "main_keys toy_keys (toy_inputs True) toy_pin (empty_dir []) = (None, ring, p, s, d1)"
    by (metis prod.collapse)
  have "\<exists>ring2 d3. main_keys toy_keys (toy_inputs False) toy_pin (d1\<lparr>cd_outcomes := [Done_part 7]\<rparr>) =
      (None, ring2, None, Some (zeros NOX_SALT_LEN), d3) \<and> kr_priv ring2 = kr_priv ring"
    using identity_survives_restart [OF box_ok_toy keypair_toy r, of "[5, 6, 7, 8]" "[9]" "zeros 24" "d1\<lparr>cd_outcomes := [Done_part 7]\<rparr>" "toy_inputs False" toy_pin]
    by (auto simp: toy_inputs_def NOX_NONCE_LEN_def NOX_SALT_LEN_def quiet_def)
  with first r show ?thesis by auto
qed

section \<open>The PIN\<close>

lemma line_secure_wiped:
  assumes "line_secure cap ks n buf = Some (r, buf', ks')" and "length buf = cap" and "n < cap"
  shows "length buf' = cap \<and> (r \<noteq> 0 \<longrightarrow> (\<forall>i < cap. buf' ! i = 0 \<or> n \<le> i \<and> buf' ! i = buf ! i))"
  using assms
proof (induction ks arbitrary: n buf)
  case Nil
  then show ?case by (auto simp: zeros_def split: if_splits)
next
  case (Cons k ks)
  show ?case
  proof (cases "n + 1 < cap")
    case False
    with Cons.prems show ?thesis by (auto simp: zeros_def)
  next
    case more: True
    show ?thesis
    proof (cases k)
      case (Key c)
      show ?thesis
      proof (cases "c = 10")
        case True
        with Key more Cons.prems show ?thesis by (auto simp: Let_def)
      next
        case False
        with Key more Cons.prems have "line_secure cap ks (n + 1) (buf[n := c]) = Some (r, buf', ks')" by simp
        from Cons.IH [OF this] more Cons.prems(2) show ?thesis by (auto simp: nth_list_update)
      qed
    next
      case Key_err
      with more Cons.prems show ?thesis by (auto simp: wipe_def zeros_def nth_append split: if_splits)
    qed (use more Cons in \<open>auto simp: zeros_def split: if_splits\<close>)
  qed
qed

text \<open>Interruptions do not matter.\<close>

definition typed :: "key_ans list \<Rightarrow> key_ans list" where
  "typed ks = filter (\<lambda>k. k \<noteq> Key_intr) ks"

lemma line_secure_full: "\<not> n + 1 < cap \<Longrightarrow> line_secure cap ks n buf = Some (-1, zeros cap, ks)"
  by (cases ks) simp_all

lemma line_secure_typed:
  "map_option (\<lambda>(r, b, ks). (r, b, typed ks)) (line_secure cap ks n buf) = line_secure cap (typed ks) n buf"
proof (induction ks arbitrary: n buf)
  case (Cons k ks)
  show ?case
  proof (cases "n + 1 < cap")
    case False
    then show ?thesis by (simp add: line_secure_full del: line_secure.simps)
  next
    case True
    with Cons show ?thesis by (cases k) (simp_all add: typed_def Let_def)
  qed
qed (simp add: typed_def)

lemma line_secure_line:
  assumes "length buf = cap" and "n + length l + 1 < cap" and "10 \<notin> set l"
  shows "\<exists>buf'. line_secure cap (map Key l @ Key 10 # rest) n buf = Some (0, buf', rest) \<and> length buf' = cap \<and>
     (let s = take n buf @ l in
      take (length s + 1) buf' = (if s \<noteq> [] \<and> last s = 13 then butlast s @ [0, 0] else s @ [0]))"
  using assms
proof (induction l arbitrary: n buf)
  case Nil
  have "take (Suc n) (buf[n := 0]) = take n buf @ [0]" using Nil by (simp add: take_Suc_conv_app_nth)
  moreover have "take (Suc n) (buf[n := 0, n - 1 := 0]) = butlast (take n buf) @ [0, 0]" if pos: "0 < n"
  proof -
    obtain m where m: "n = Suc m" using pos by (cases n) auto
    with Nil show ?thesis by (simp add: take_Suc_conv_app_nth take_update_swap list_update_append butlast_append)
  qed
  moreover have "last (take n buf) = buf ! (n - 1)" if "0 < n" using that Nil
    by (cases n) (simp_all add: take_Suc_conv_app_nth)
  ultimately show ?case using Nil by (auto simp: Let_def)
next
  case (Cons c l)
  have "take (n + 1) (buf[n := c]) = take n buf @ [c]" using Cons.prems by (simp add: take_Suc_conv_app_nth)
  then have s: "take (n + 1) (buf[n := c]) @ l = take n buf @ c # l" by simp
  have step: "line_secure cap (map Key (c # l) @ Key 10 # rest) n buf = line_secure cap (map Key l @ Key 10 # rest) (n + 1) (buf[n := c])"
    using Cons.prems by simp
  have "length (buf[n := c]) = cap" "n + 1 + length l + 1 < cap" "10 \<notin> set l" using Cons.prems by simp_all
  from Cons.IH [OF this, unfolded s] show ?case unfolding step .
qed

definition strip_cr :: "bytes \<Rightarrow> bytes" where
  "strip_cr l = (if l \<noteq> [] \<and> last l = 13 then butlast l else l)"

lemma c_str_prefix: "take (length s + 1) b = s @ [0] \<Longrightarrow> 0 \<notin> set s \<Longrightarrow> c_str b = s"
proof -
  assume a: "take (length s + 1) b = s @ [0]" "0 \<notin> set s"
  then have "b = s @ 0 # drop (length s + 1) b" by (metis append.assoc append_Cons append_Nil append_take_drop_id)
  then have "c_str b = c_str (s @ 0 # drop (length s + 1) b)" by simp
  also have "\<dots> = s" using a(2) by (auto simp: c_str_def takeWhile_append2 takeWhile_append)
  finally show ?thesis .
qed

lemma read_line_secure_exact:
  assumes "length buf = cap" and "typed ks = map Key l @ Key 10 # rest" and "10 \<notin> set l" and "0 \<notin> set l"
  shows "if length l + 1 < cap
    then \<exists>buf' ks'. read_line_secure buf cap ks = Some (0, buf', ks') \<and> typed ks' = rest \<and> length buf' = cap \<and> c_str buf' = strip_cr l
    else \<exists>ks'. read_line_secure buf cap ks = Some (-1, zeros cap, ks')"
proof (cases "length l + 1 < cap")
  case True
  have "0 + length l + 1 < cap" using True by simp
  from line_secure_line [OF assms(1) this assms(3), of rest] line_secure_typed [of cap ks 0 buf] assms(2)
  obtain buf' ks' where b: "line_secure cap ks 0 buf = Some (0, buf', ks')" "typed ks' = rest" "length buf' = cap"
      "take (length l + 1) buf' = (if l \<noteq> [] \<and> last l = 13 then butlast l @ [0, 0] else l @ [0])"
    by (auto simp: Let_def)
  have "take (length (strip_cr l) + 1) buf' = strip_cr l @ [0]"
  proof (cases "l \<noteq> [] \<and> last l = 13")
    case True
    then obtain l' where l': "l = l' @ [13]" by (metis append_butlast_last_id)
    with b(4) have "take (length l' + 1) (take (length l' + 2) buf') = l' @ [0]" by simp
    with l' show ?thesis by (simp add: strip_cr_def min_def)
  qed (use b(4) in \<open>auto simp: strip_cr_def\<close>)
  moreover have "0 \<notin> set (strip_cr l)" using assms(4) by (auto simp: strip_cr_def dest: in_set_butlastD)
  ultimately have "c_str buf' = strip_cr l" by (rule c_str_prefix)
  with True b show ?thesis by (auto simp: read_line_secure_def)
next
  case False
  have long: "\<exists>ks'. line_secure cap (map Key l @ xs) n b = Some (-1, zeros cap, ks')"
    if "\<not> n + length l + 1 < cap" "10 \<notin> set l" for l n b xs
    using that by (induction l arbitrary: n b) (simp_all add: line_secure_full)
  from long [of 0 l "Key 10 # rest" buf] False assms(3) line_secure_typed [of cap ks 0 buf] assms(2) show ?thesis
    by (auto simp: read_line_secure_def)
qed

lemma pad_to_inj: "length a \<le> n \<Longrightarrow> length b \<le> n \<Longrightarrow> 0 \<notin> set a \<Longrightarrow> 0 \<notin> set b \<Longrightarrow> pad_to n a = pad_to n b \<longleftrightarrow> a = b"
proof
  assume a: "length a \<le> n" "length b \<le> n" "0 \<notin> set a" "0 \<notin> set b" "pad_to n a = pad_to n b"
  have c: "c_str (x @ zeros k) = x" if "0 \<notin> set x" for x k
    using that by (induction x) (auto simp: c_str_def zeros_def takeWhile_eq_Nil_iff hd_replicate)
  from a(5) have "c_str (a @ zeros (n - length a)) = c_str (b @ zeros (n - length b))" using a(1,2) by (simp add: pad_to_def)
  with c a(3,4) show "a = b" by simp
qed simp

lemma c_str_no_nul: "0 \<notin> set (c_str b)"
  by (auto simp: c_str_def dest: set_takeWhileD)

lemma length_strip_cr: "length (strip_cr l) \<le> length l"
  by (simp add: strip_cr_def)

lemma no_nul_strip_cr: "0 \<notin> set l \<Longrightarrow> 0 \<notin> set (strip_cr l)"
  by (auto simp: strip_cr_def dest: in_set_butlastD)

lemma read_pin_wiped:
  assumes "read_pin pin_buf cap confirm fresh al term ks = Some (e, pb, t, ks')" and "length pin_buf = cap" and "0 < cap"
  shows "t = term" "e \<noteq> NOX_OK \<Longrightarrow> i < cap \<Longrightarrow> pb ! i = 0 \<or> pb ! i = pin_buf ! i"
proof -
  from assms(1) obtain r b k1 where l: "read_line_secure pin_buf cap ks = Some (r, b, k1)"
    by (auto simp: read_pin_def Let_def split: option.splits)
  note w = line_secure_wiped [OF l [unfolded read_line_secure_def] assms(2,3)]
  have "t = term \<and> (e \<noteq> NOX_OK \<longrightarrow> pb = zeros cap \<or> r \<noteq> 0 \<and> pb = b)"
    using assms(1) l by (auto simp: read_pin_def Let_def split: option.splits if_splits prod.splits)
  with w show "t = term" "e \<noteq> NOX_OK \<Longrightarrow> i < cap \<Longrightarrow> pb ! i = 0 \<or> pb ! i = pin_buf ! i"
    by (auto simp: zeros_def)
qed

text \<open>Entering the PIN is exact and leaves nothing behind. Whatever is typed, \<open>read_pin\<close> returns with the modes of
  the terminal as they were, and when it fails no typed byte is left in the buffer. When the user types a line
  (and at the first run a second one), interrupted or not, then the PIN is accepted exactly if the line, with its
  carriage return, has at most 128 bytes, the PIN is valid, and the confirmation is the same text; and then the
  buffer holds the line without its carriage return.\<close>

theorem pin_entry_exact:
  assumes "length pin_buf = PIN_BUF_LEN" and "length fresh = PIN_BUF_LEN" and "heap_ok al"
    and "typed ks = map Key l @ Key 10 # map Key l2 @ Key 10 # rest" and "10 \<notin> set (l @ l2)" and "0 \<notin> set (l @ l2)"
  shows "(\<exists>e pb ks'. read_pin pin_buf PIN_BUF_LEN confirm fresh al term ks = Some (e, pb, term, ks') \<and>
      (e = NOX_OK \<longleftrightarrow> length l \<le> NOX_PIN_MAX_LEN \<and> validate_pin (Some (strip_cr l)) = NOX_OK \<and>
         (confirm \<longrightarrow> length l2 \<le> NOX_PIN_MAX_LEN \<and> strip_cr l2 = strip_cr l)) \<and>
      (e = NOX_OK \<longrightarrow> c_str pb = strip_cr l)) \<and>
    (\<forall>xs e pb t ks' i. read_pin pin_buf PIN_BUF_LEN confirm fresh al term xs = Some (e, pb, t, ks') \<longrightarrow>
       t = term \<and> (e \<noteq> NOX_OK \<and> i < PIN_BUF_LEN \<longrightarrow> pb ! i = 0 \<or> pb ! i = pin_buf ! i))"
proof -
  have cap: "length x + 1 < PIN_BUF_LEN \<longleftrightarrow> length x \<le> NOX_PIN_MAX_LEN" for x :: bytes by (auto simp: PIN_BUF_LEN_def)
  have nl: "10 \<notin> set l" "0 \<notin> set l" "10 \<notin> set l2" "0 \<notin> set l2" using assms(5,6) by auto
  note first = read_line_secure_exact [OF assms(1,4) nl(1,2), unfolded cap]
  have "\<exists>e pb ks'. read_pin pin_buf PIN_BUF_LEN confirm fresh al term ks = Some (e, pb, term, ks') \<and>
      (e = NOX_OK \<longleftrightarrow> length l \<le> NOX_PIN_MAX_LEN \<and> validate_pin (Some (strip_cr l)) = NOX_OK \<and>
         (confirm \<longrightarrow> length l2 \<le> NOX_PIN_MAX_LEN \<and> strip_cr l2 = strip_cr l)) \<and>
      (e = NOX_OK \<longrightarrow> c_str pb = strip_cr l)"
  proof (cases "length l \<le> NOX_PIN_MAX_LEN")
    case False
    with first show ?thesis by (auto simp: read_pin_def Let_def)
  next
    case True
    with first obtain b k1 where b: "read_line_secure pin_buf PIN_BUF_LEN ks = Some (0, b, k1)"
      "typed k1 = map Key l2 @ Key 10 # rest" "c_str b = strip_cr l" by auto
    note second = read_line_secure_exact [OF assms(2) b(2) nl(3,4), unfolded cap]
    show ?thesis
    proof (cases "confirm \<and> validate_pin (Some (strip_cr l)) = NOX_OK")
      case False
      with True b show ?thesis by (auto simp: read_pin_def Let_def)
    next
      case c: True
      show ?thesis
      proof (cases "length l2 \<le> NOX_PIN_MAX_LEN")
        case False
        with second c b assms(3) show ?thesis by (auto simp: read_pin_def Let_def)
      next
        case l2: True
        with second obtain b2 k2 where b2: "read_line_secure fresh PIN_BUF_LEN k1 = Some (0, b2, k2)" "c_str b2 = strip_cr l2" by auto
        have "pad_to PIN_BUF_LEN (strip_cr l) = pad_to PIN_BUF_LEN (strip_cr l2) \<longleftrightarrow> strip_cr l = strip_cr l2"
          using True l2 length_strip_cr [of l] length_strip_cr [of l2] nl
          by (intro pad_to_inj no_nul_strip_cr) (simp_all add: PIN_BUF_LEN_def)
        with True l2 c b b2 assms(3) show ?thesis by (auto simp: read_pin_def Let_def)
      qed
    qed
  qed
  moreover have "0 < PIN_BUF_LEN" by (simp add: PIN_BUF_LEN_def)
  ultimately show ?thesis using read_pin_wiped [OF _ assms(1)] by blast
qed

theorem pin_entry_exact_witness:
  "\<exists>e pb ks'. read_pin (zeros 130) PIN_BUF_LEN True (zeros 130) [] None
      (map Key [49, 50, 51, 52, 53, 54, 55, 56] @ Key_intr # Key 10 # map Key [49, 50, 51, 52, 53, 54, 55, 56, 13] @ [Key 10]) =
      Some (e, pb, None, ks') \<and> e = NOX_OK \<and> c_str pb = [49, 50, 51, 52, 53, 54, 55, 56]"
  using pin_entry_exact [of "zeros 130" "zeros 130" "[]"
      "map Key [49, 50, 51, 52, 53, 54, 55, 56] @ Key_intr # Key 10 # map Key [49, 50, 51, 52, 53, 54, 55, 56, 13] @ [Key 10]"
      "[49, 50, 51, 52, 53, 54, 55, 56]" "[49, 50, 51, 52, 53, 54, 55, 56, 13]" "[]" True None]
  by (auto simp: PIN_BUF_LEN_def NOX_PIN_MAX_LEN_def NOX_PIN_MIN_LEN_def typed_def strip_cr_def validate_pin_def pin_bad_def)

end
