(* ===== verification/Nox_Account_Props.thy ===== *)
theory Nox_Account_Props
  imports Nox_Startup Nox_Identity_Props
begin

text \<open>
  Wiping an account with \<^verbatim>\<open>--full_cleankeys\<close>: on a kernel that completes its calls every key file is
  overwritten, flushed and removed; a write that is done in part leaves key bytes on the disk.
\<close>

section \<open>A kernel that completes every call\<close>

lemma next_outcome_done [simp]: "cd_outcomes d = [] \<Longrightarrow> next_outcome d = (Done_all, d)"
  by (simp add: next_outcome_def)

lemma wipe_loop_done:
  assumes "cd_outcomes d = []" and "cd_files d name = Some (File c s)" and "pos + remaining \<le> length c"
  shows "cd_outcomes (wipe_loop name pos remaining d) = [] \<and> moments d \<subseteq> moments (wipe_loop name pos remaining d) \<and>
    (\<exists>s'. cd_files (wipe_loop name pos remaining d) =
      (cd_files d)(name \<mapsto> File (take pos c @ zeros remaining @ drop (pos + remaining) c) s'))"
  using assms
proof (induction remaining arbitrary: pos d c s rule: less_induct)
  case (less remaining)
  show ?case
  proof (cases "remaining = 0")
    case True
    moreover have "cd_files d = (cd_files d)(name \<mapsto> File c s)" using less.prems(2) by (simp add: fun_upd_idem)
    moreover have "wipe_loop name pos 0 d = d" by (simp add: wipe_loop.simps)
    ultimately show ?thesis using less.prems(1) by (auto simp del: fun_upd_apply intro!: exI [of _ s])
  next
    case False
    define n where "n = min remaining 256"
    define c1 where "c1 = take pos c @ zeros n @ drop (pos + n) c"
    define d1 where "d1 = set_files ((cd_files d)(name \<mapsto> File c1 False)) d"
    have n: "0 < n" "n \<le> remaining" using False by (simp_all add: n_def)
    have w: "sys_write_at name pos (zeros n) d = (Wrote n, d1)"
      using less.prems by (simp add: sys_write_at_def overwrite_file_def d1_def c1_def)
    have l: "wipe_loop name pos remaining d = wipe_loop name (pos + n) (remaining - n) d1"
      using False w n by (subst wipe_loop.simps) (simp add: n_def [symmetric])
    have d1: "cd_outcomes d1 = []" "cd_files d1 name = Some (File c1 False)" "moments d \<subseteq> moments d1"
      using less.prems by (auto simp: d1_def)
    have len: "pos + n + (remaining - n) \<le> length c1" using less.prems(3) n by (simp add: c1_def)
    have "take (pos + n) c1 = take pos c @ zeros n" "drop (pos + n + (remaining - n)) c1 = drop (pos + remaining) c"
      using less.prems(3) n by (simp_all add: c1_def add.commute)
    moreover have "zeros n @ zeros (remaining - n) = zeros remaining" using n by (simp add: zeros_def replicate_add [symmetric])
    ultimately have c: "take (pos + n) c1 @ zeros (remaining - n) @ drop (pos + n + (remaining - n)) c1 =
        take pos c @ zeros remaining @ drop (pos + remaining) c"
      by (metis append.assoc)
    have "remaining - n < remaining" using n by simp
    note IH = less.IH [OF this d1(1,2) len, unfolded c]
    have "(cd_files d1)(name \<mapsto> X) = (cd_files d)(name \<mapsto> X)" for X by (simp add: d1_def)
    with IH d1(3) show ?thesis unfolding l by auto
  qed
qed

text \<open>One file: what is not touched stays, and a regular file is overwritten on the disk before it goes.\<close>

lemma unlink_done:
  assumes "cd_outcomes d = []"
  shows "cd_outcomes (snd (sys_unlink x d)) = []" "moments d \<subseteq> moments (snd (sys_unlink x d))"
    "m \<noteq> x \<Longrightarrow> cd_files (snd (sys_unlink x d)) m = cd_files d m"
    "cd_files d x = None \<Longrightarrow> cd_files (snd (sys_unlink x d)) m = cd_files d m"
  using assms by (auto simp: sys_unlink_def split: option.split node.split)

definition side_files :: "bytes \<Rightarrow> bytes set" where
  "side_files bn = (if bn = CONTACTS_FILE then {bn @ str_bytes ''-wal'', bn @ str_bytes ''-shm''} else {})"

lemma side_files_ne: "bn \<notin> side_files bn"
  by (auto simp: side_files_def str_bytes_def)

lemma side_unlinks:
  fixes p :: bool and bn :: bytes
  assumes "cd_outcomes d = []"
  defines "d' \<equiv> (if p then snd (sys_unlink (bn @ str_bytes ''-shm'') (snd (sys_unlink (bn @ str_bytes ''-wal'') d))) else d)"
  assumes "p \<Longrightarrow> bn = CONTACTS_FILE"
  shows "cd_outcomes d' = []" "moments d \<subseteq> moments d'" "m \<notin> side_files bn \<Longrightarrow> cd_files d' m = cd_files d m"
proof -
  note u = unlink_done(1-3) [OF assms(1), where x = "bn @ str_bytes ''-wal''"]
  note v = unlink_done(1-3) [OF u(1), where x = "bn @ str_bytes ''-shm''"]
  show "cd_outcomes d' = []" using v(1) assms(1) by (simp add: d'_def)
  show "moments d \<subseteq> moments d'" using u(2) v(2) by (auto simp: d'_def)
  show "m \<notin> side_files bn \<Longrightarrow> cd_files d' m = cd_files d m" using u(3) [of m] v(3) [of m] assms(3) by (auto simp: d'_def side_files_def split: if_splits)
qed

lemma wipe_file_done:
  assumes "cd_outcomes d = []" and "0 \<le> fd" and "wipe_account_file dir fd bn d = (w, d')"
  shows "cd_outcomes d' = []" "moments d \<subseteq> moments d'"
    "m \<noteq> bn \<Longrightarrow> m \<notin> side_files bn \<Longrightarrow> cd_files d' m = cd_files d m"
    "cd_files d bn = Some (File c s) \<Longrightarrow> cd_files d' bn = None \<and> (\<exists>fs \<in> moments d'. fs bn = Some (File (zeros (length c)) True))"
proof -
  have "cd_outcomes d' = [] \<and> moments d \<subseteq> moments d' \<and> (\<forall>m. m \<noteq> bn \<longrightarrow> m \<notin> side_files bn \<longrightarrow> cd_files d' m = cd_files d m) \<and>
    (\<forall>c s. cd_files d bn = Some (File c s) \<longrightarrow> cd_files d' bn = None \<and> (\<exists>fs \<in> moments d'. fs bn = Some (File (zeros (length c)) True)))"
  proof (cases "\<exists>c s. cd_files d bn = Some (File c s)")
    case False
    then have "cd_files d bn \<in> {None, Some Link} \<or> (\<exists>n. cd_files d bn = Some (Dir n))"
      by (cases "cd_files d bn") (auto, metis node.exhaust)
    then have "fst (wipe_size dir fd bn d) = None" "snd (wipe_size dir fd bn d) = d"
      using assms(1,2) by (auto simp: wipe_size_def sys_fstatat_def sys_stat_def Let_def)
    then have "wipe_size dir fd bn d = (None, d)" by (metis prod.collapse)
    with assms(1,3) False show ?thesis by (auto simp: wipe_account_file_def)
  next
    case True
    then obtain c s where f: "cd_files d bn = Some (File c s)" by blast
    define d0 where "d0 = d\<lparr>cd_open := cd_open d + 1\<rparr>"
    define d1 where "d1 = wipe_loop bn 0 (length c) d0"
    have "cd_outcomes d0 = []" "cd_files d0 bn = Some (File c s)" using assms(1) f by (simp_all add: d0_def)
    from wipe_loop_done [OF this, of 0 "length c"] obtain s' where d1: "cd_outcomes d1 = []" "moments d \<subseteq> moments d1"
        "cd_files d1 = (cd_files d)(bn \<mapsto> File (zeros (length c)) s')"
      by (auto simp: d1_def d0_def)
    define d2 where "d2 = sys_close (sys_fsync bn d1)"
    have d2: "cd_outcomes d2 = []" "moments d1 \<subseteq> moments d2" "cd_files d2 = (cd_files d)(bn \<mapsto> File (zeros (length c)) True)"
      using d1 by (auto simp: d2_def sys_fsync_def sync_file_def)
    define d3 where "d3 = set_files ((cd_files d)(bn := None)) d2"
    have "sys_unlink bn d2 = (True, d3)" using d2 by (simp add: sys_unlink_def d3_def)
    moreover have "sys_open True bn d = (Open_ok, d0)" using assms(1) f by (simp add: sys_open_def d0_def)
    moreover have "wipe_size dir fd bn d = (Some (length c), d)"
      using assms(1,2) f by (simp add: wipe_size_def sys_fstatat_def Let_def)
    ultimately have d': "d' = (if bn = CONTACTS_FILE \<and> fd \<ge> 0
        then snd (sys_unlink (bn @ str_bytes ''-shm'') (snd (sys_unlink (bn @ str_bytes ''-wal'') d3))) else d3)"
      using assms(2,3) by (simp add: wipe_account_file_def Let_def d1_def [symmetric] d2_def [symmetric])
    have d3: "cd_outcomes d3 = []" "moments d2 \<subseteq> moments d3" "cd_files d3 = (cd_files d)(bn := None)"
      using d2(1) by (auto simp: d3_def)
    note side = side_unlinks [OF d3(1), where p = "bn = CONTACTS_FILE \<and> fd \<ge> 0" and bn = bn, folded d', OF conjunct1]
    have "cd_files d2 \<in> moments d2" by (simp add: moments_def)
    then have "cd_files d2 \<in> moments d'" using d3(2) side(2) by blast
    moreover have "cd_files d2 bn = Some (File (zeros (length c)) True)" using d2(3) by simp
    ultimately have "\<exists>fs \<in> moments d'. fs bn = Some (File (zeros (length c)) True)" by blast
    moreover have "moments d \<subseteq> moments d'" using d1(2) d2(2) d3(2) side(2) by blast
    ultimately show ?thesis using side(1,3) d3(3) side_files_ne [of bn] f by auto
  qed
  then show "cd_outcomes d' = []" "moments d \<subseteq> moments d'"
    "m \<noteq> bn \<Longrightarrow> m \<notin> side_files bn \<Longrightarrow> cd_files d' m = cd_files d m"
    "cd_files d bn = Some (File c s) \<Longrightarrow> cd_files d' bn = None \<and> (\<exists>fs \<in> moments d'. fs bn = Some (File (zeros (length c)) True))"
    by blast+
qed

text \<open>All files, one after the other.\<close>

lemma wipe_files_done:
  assumes "cd_outcomes d = []" and "0 \<le> fd" and "distinct bns" and "\<forall>a \<in> set bns. \<forall>b \<in> set bns. a \<notin> side_files b"
    and "foldl (\<lambda>(wiped, d) bn. case wipe_account_file dir fd bn d of (w, d) \<Rightarrow> (wiped + w, d)) (k, d) bns = (k', d')"
  shows "moments d \<subseteq> moments d' \<and> (\<forall>m. m \<notin> set bns \<longrightarrow> (\<forall>b \<in> set bns. m \<notin> side_files b) \<longrightarrow> cd_files d' m = cd_files d m) \<and>
    (\<forall>bn \<in> set bns. \<forall>c s. cd_files d bn = Some (File c s) \<longrightarrow>
       cd_files d' bn = None \<and> (\<exists>fs \<in> moments d'. fs bn = Some (File (zeros (length c)) True)))"
  using assms
proof (induction bns arbitrary: d k)
  case (Cons bn bns)
  obtain w d1 where w: "wipe_account_file dir fd bn d = (w, d1)" by fastforce
  note D = wipe_file_done [OF Cons.prems(1,2) w]
  from Cons.prems w have f: "foldl (\<lambda>(wiped, d) bn. case wipe_account_file dir fd bn d of (w, d) \<Rightarrow> (wiped + w, d)) (k + w, d1) bns = (k', d')"
    by simp
  have dist: "distinct bns" "\<forall>a \<in> set bns. \<forall>b \<in> set bns. a \<notin> side_files b" "bn \<notin> set bns" "\<forall>b \<in> set bns. bn \<notin> side_files b" "\<forall>b \<in> set bns. b \<notin> side_files bn"
    using Cons.prems(3,4) by auto
  note IH = Cons.IH [OF D(1) Cons.prems(2) dist(1,2) f]
  have "moments d \<subseteq> moments d'" using D(2) IH by blast
  moreover have "cd_files d' m = cd_files d m" if "m \<notin> set (bn # bns)" "\<forall>b \<in> set (bn # bns). m \<notin> side_files b" for m
    using that IH D(3) [of m] by auto
  moreover have "cd_files d' bn = None \<and> (\<exists>fs \<in> moments d'. fs bn = Some (File (zeros (length c)) True))"
      if "cd_files d bn = Some (File c s)" for c s
    using D(4) [OF that] IH dist(3,4) by auto
  moreover have "cd_files d' b = None \<and> (\<exists>fs \<in> moments d'. fs b = Some (File (zeros (length c)) True))"
      if "b \<in> set bns" "cd_files d b = Some (File c s)" for b c s
  proof -
    have "b \<noteq> bn" "b \<notin> side_files bn" using that(1) dist by auto
    with D(3) [of b] that(2) have "cd_files d1 b = Some (File c s)" by simp
    with IH that(1) show ?thesis by blast
  qed
  ultimately show ?case by auto
qed simp

lemma account_files_distinct: "distinct ACCOUNT_FILES" "\<forall>a \<in> set ACCOUNT_FILES. \<forall>b \<in> set ACCOUNT_FILES. a \<notin> side_files b"
  by (simp_all add: ACCOUNT_FILES_def side_files_def IDENTITY_FILE_def SALT_FILE_def CONTACTS_FILE_def str_bytes_def)

text \<open>C30. Wiping an account destroys its keys. With a directory that could be opened and a kernel that completes every
  call, \<^verbatim>\<open>--full_cleankeys\<close> ends with exit code 0; every key file that was there (identity, salt, contacts, onion
  key) is gone, and before it went its contents were overwritten with zeros from the first to the last byte and flushed
  to the disk; no other file is touched but the two side files of the database.\<close>

theorem account_wiped:
  assumes "cd_outcomes d = []" and "0 \<le> cfg_fd" and "paths = (NOX_OK, Some p)" and "length (cp_config_dir p) + 14 < NOX_PATH_MAX"
    and "full_cleankeys paths cfg_fd d = (code, wiped, d')"
  shows "code = 0 \<and>
    (\<forall>bn \<in> set ACCOUNT_FILES. \<forall>c s. cd_files d bn = Some (File c s) \<longrightarrow>
       cd_files d' bn = None \<and> (\<exists>fs \<in> moments d'. fs bn = Some (File (zeros (length c)) True))) \<and>
    (\<forall>m. m \<notin> set ACCOUNT_FILES \<longrightarrow> m \<noteq> str_bytes ''contacts.db-wal'' \<longrightarrow> m \<noteq> str_bytes ''contacts.db-shm'' \<longrightarrow> cd_files d' m = cd_files d m)"
proof -
  obtain k d1 where f: "foldl (\<lambda>(wiped, d) bn. case wipe_account_file (cp_config_dir p) cfg_fd bn d of (w, d) \<Rightarrow> (wiped + w, d)) (0, d) ACCOUNT_FILES = (k, d1)"
    by fastforce
  have e: "code = 0" "d' = d1" using assms(3-5) f by (simp_all add: full_cleankeys_def)
  have "\<Union> (side_files ` set ACCOUNT_FILES) = {str_bytes ''contacts.db-wal'', str_bytes ''contacts.db-shm''}"
    by (simp add: ACCOUNT_FILES_def side_files_def IDENTITY_FILE_def SALT_FILE_def CONTACTS_FILE_def str_bytes_def)
  then have side: "m \<noteq> str_bytes ''contacts.db-wal'' \<and> m \<noteq> str_bytes ''contacts.db-shm'' \<longleftrightarrow> (\<forall>b \<in> set ACCOUNT_FILES. m \<notin> side_files b)" for m
    by blast
  note W = wipe_files_done [OF assms(1,2) account_files_distinct f, folded e(2), folded side]
  show ?thesis
  proof (intro conjI)
    show "code = 0" by (rule e(1))
  qed (use W in \<open>simp_all\<close>)
qed

definition toy_paths :: config_paths where
  "toy_paths = \<lparr>cp_config_dir = [47, 99], cp_identity = [], cp_contacts = [], cp_downloads = []\<rparr>"

definition account_dir :: "sys_outcome list \<Rightarrow> config_dir" where
  "account_dir fs = (empty_dir fs)\<lparr>cd_files := [IDENTITY_FILE \<mapsto> File (replicate 104 7) True]\<rparr>"

theorem account_wiped_witness:
  "cd_files (snd (snd (full_cleankeys (NOX_OK, Some toy_paths) 3 (account_dir [])))) IDENTITY_FILE = None"
proof -
  obtain code wiped d' where r: "full_cleankeys (NOX_OK, Some toy_paths) 3 (account_dir []) = (code, wiped, d')" by (metis prod_cases3)
  have "IDENTITY_FILE \<in> set ACCOUNT_FILES" by (simp add: ACCOUNT_FILES_def)
  have f: "cd_files (account_dir []) IDENTITY_FILE = Some (File (replicate 104 7) True)" by (simp add: account_dir_def)
  have "cd_outcomes (account_dir []) = []" "length (cp_config_dir toy_paths) + 14 < NOX_PATH_MAX"
    by (simp_all add: account_dir_def empty_dir_def toy_paths_def NOX_PATH_MAX_def)
  from account_wiped [OF this(1) _ refl this(2) r] f \<open>IDENTITY_FILE \<in> set ACCOUNT_FILES\<close> have "cd_files d' IDENTITY_FILE = None"
    by (auto dest!: bspec [of _ _ IDENTITY_FILE])
  with r show ?thesis by simp
qed

text \<open>A write that is done in part: the loop counts the whole chunk as written, so the end of the file survives
  at every moment although the file is reported as wiped.\<close>

lemma short_write_leaks:
  assumes "cd_past d = []" and "cd_outcomes d = [Done_all, Done_all, Done_part k]" and "0 < k" and "k < 104"
    and "cd_files d IDENTITY_FILE = Some (File c s)" and "length c = 104" and "0 \<le> fd"
  shows "fst (wipe_account_file dir fd IDENTITY_FILE d) = 1"
    "\<forall>fs \<in> moments (snd (wipe_account_file dir fd IDENTITY_FILE d)).
       fs IDENTITY_FILE = None \<or> (\<exists>c' s'. fs IDENTITY_FILE = Some (File c' s') \<and> drop k c' = drop k c)"
proof -
  have ne: "IDENTITY_FILE \<noteq> CONTACTS_FILE" by (simp add: IDENTITY_FILE_def CONTACTS_FILE_def str_bytes_def)
  define d0 where "d0 = d\<lparr>cd_open := cd_open d + 1, cd_outcomes := []\<rparr>"
  define c1 where "c1 = zeros k @ drop k c"
  define d1 where "d1 = set_files ((cd_files d)(IDENTITY_FILE \<mapsto> File c1 False)) d0"
  have o1: "next_outcome d = (Done_all, d\<lparr>cd_outcomes := [Done_all, Done_part k]\<rparr>)"
    "next_outcome (d\<lparr>cd_outcomes := [Done_all, Done_part k]\<rparr>) = (Done_all, d\<lparr>cd_outcomes := [Done_part k]\<rparr>)"
    using assms(2) by (simp_all add: next_outcome_def)
  have sz: "wipe_size dir fd IDENTITY_FILE d = (Some 104, d\<lparr>cd_outcomes := [Done_all, Done_part k]\<rparr>)"
    using assms(5-7) o1(1) by (simp add: wipe_size_def sys_fstatat_def Let_def)
  have op: "sys_open True IDENTITY_FILE (d\<lparr>cd_outcomes := [Done_all, Done_part k]\<rparr>) = (Open_ok, d0\<lparr>cd_outcomes := [Done_part k]\<rparr>)"
    using assms(5) o1(2) by (simp add: sys_open_def d0_def)
  have "sys_write_at IDENTITY_FILE 0 (zeros 104) (d0\<lparr>cd_outcomes := [Done_part k]\<rparr>) = (Wrote k, d1)"
    using assms(4,5) by (simp add: sys_write_at_def next_outcome_def overwrite_file_def d0_def d1_def c1_def set_files_def zeros_def min_def)
  then have lp: "wipe_loop IDENTITY_FILE 0 104 (d0\<lparr>cd_outcomes := [Done_part k]\<rparr>) = d1"
    using assms(3) by (subst wipe_loop.simps) (simp add: wipe_loop.simps)
  have d1: "cd_outcomes d1 = []" "cd_files d1 IDENTITY_FILE = Some (File c1 False)" "moments d1 = {cd_files d1, cd_files d}"
    using assms(1) by (auto simp: d1_def d0_def moments_def set_files_def)
  define d2 where "d2 = sys_close (sys_fsync IDENTITY_FILE d1)"
  have d2: "cd_outcomes d2 = []" "cd_files d2 IDENTITY_FILE = Some (File c1 True)" "moments d2 = insert (cd_files d2) (moments d1)"
    using d1 by (auto simp: d2_def sys_fsync_def sync_file_def)
  have r: "wipe_account_file dir fd IDENTITY_FILE d = (1, set_files ((cd_files d2)(IDENTITY_FILE := None)) d2)"
    using assms(7) ne d2(1,2) by (simp add: wipe_account_file_def sz op lp Let_def d2_def [symmetric] sys_unlink_def)
  show "fst (wipe_account_file dir fd IDENTITY_FILE d) = 1" by (simp add: r)
  have "drop k c1 = drop k c" by (simp add: c1_def)
  then show "\<forall>fs \<in> moments (snd (wipe_account_file dir fd IDENTITY_FILE d)).
       fs IDENTITY_FILE = None \<or> (\<exists>c' s'. fs IDENTITY_FILE = Some (File c' s') \<and> drop k c' = drop k c)"
    using assms(5) d1(2,3) d2(2,3) by (auto simp: r)
qed

end
