(* ===== verification/Nox_Tor.thy ===== *)
theory Nox_Tor
  imports Nox_Startup Nox_Socks
begin

text \<open>
  The Tor process of \<^verbatim>\<open>src/network.c\<close>: stale directories of earlier runs, the configuration file \<^verbatim>\<open>torrc\<close>,
  starting the process and verifying who listens on its control socket, shutting it down, the listening
  socket and the epoll set. The answers of the kernel are arguments; signals, files and descriptors are
  recorded as effects.
\<close>

datatype proc_effect =
    P_term int | P_kill int | P_reaped int | P_close int | P_unlink bytes | P_rm_rf bytes | P_unlinkat bytes
  | P_send int bytes | P_write int bytes | P_socket int

section \<open>Stale directories\<close>

definition is_safe_filename :: "bytes \<Rightarrow> bool" where
  "is_safe_filename name \<longleftrightarrow> name \<noteq> [] \<and> 47 \<notin> set name \<and> name \<noteq> str_bytes ''.'' \<and> name \<noteq> str_bytes ''..''"

text \<open>A directory tree; \<open>Leaf\<close> is anything that is no directory, a link included.\<close>

datatype ftree = Leaf | Sub "(bytes \<times> ftree) list"

text \<open>What \<open>rm_rf\<close> leaves of a tree when every call succeeds (\<open>None\<close> when nothing is left): a subdirectory whose
  path does not fit the buffer stays.\<close>

fun rm_rf :: "bytes \<Rightarrow> ftree \<Rightarrow> ftree option"
  and rm_entries :: "bytes \<Rightarrow> (bytes \<times> ftree) list \<Rightarrow> (bytes \<times> ftree) list" where
  "rm_rf path Leaf = None"
| "rm_rf path (Sub es) = (case rm_entries path es of [] \<Rightarrow> None | es' \<Rightarrow> Some (Sub es'))"
| "rm_entries path [] = []"
| "rm_entries path ((name, t) # es) =
     (if \<not> is_safe_filename name then (name, t) # rm_entries path es
      else case t of
        Leaf \<Rightarrow> rm_entries path es
      | Sub _ \<Rightarrow>
          let subpath = path @ str_bytes ''/'' @ name in
          if length subpath < NOX_PATH_MAX
          then (case rm_rf subpath t of None \<Rightarrow> rm_entries path es | Some t' \<Rightarrow> (name, t') # rm_entries path es)
          else (name, t) # rm_entries path es)"

definition is_space :: "byte \<Rightarrow> bool" where
  "is_space c \<longleftrightarrow> c = 32 \<or> 9 \<le> c \<and> c \<le> 13"

definition is_digit :: "byte \<Rightarrow> bool" where
  "is_digit c \<longleftrightarrow> 48 \<le> c \<and> c \<le> 57"

definition digits_value :: "bytes \<Rightarrow> nat" where
  "digits_value ds = foldl (\<lambda>v c. 10 * v + unat (c - 48)) 0 ds"

definition INT_MAX :: int where "INT_MAX = 2147483647"

text \<open>\<open>strtol\<close> skips blanks, takes a sign and then digits; without digits it stops where it began. A value
  that does not fit a long is above \<open>INT_MAX\<close> as well.\<close>

definition safe_parse_pid :: "bytes \<Rightarrow> int" where
  "safe_parse_pid str =
     (let s = dropWhile is_space str;
          neg = (s \<noteq> [] \<and> hd s = 45);
          s = (if s \<noteq> [] \<and> (hd s = 45 \<or> hd s = 43) then tl s else s);
          ds = takeWhile is_digit s; rest = dropWhile is_digit s;
          pid = (if ds = [] then 0 else if neg then - int (digits_value ds) else int (digits_value ds));
          endptr = (if ds = [] then str else rest) in
      if endptr \<noteq> [] \<or> pid \<le> 0 \<or> pid > INT_MAX then -1 else pid)"

text \<open>Answers for one entry: the owner (\<open>lstat\<close>), two calls of \<open>kill\<close> with signal 0 and the first line of
  \<^verbatim>\<open>/proc/<pid>/comm\<close>.\<close>

datatype kill_ans = Alive | No_process | Kill_err

record stale_answers =
  sa_uid :: "int option"
  sa_kill :: kill_ans
  sa_comm :: "bytes option"
  sa_kill_again :: kill_ans

definition is_our_stale_entry :: "int \<Rightarrow> stale_answers \<Rightarrow> bool" where
  "is_our_stale_entry uid a =
     (case sa_uid a of None \<Rightarrow> False
      | Some u \<Rightarrow>
        if u \<noteq> uid then False
        else case sa_kill a of
          Alive \<Rightarrow>
            if sa_comm a \<noteq> None \<and> takeWhile (\<lambda>c. c \<noteq> 10) (the (sa_comm a)) = str_bytes ''tor'' then False
            else if sa_kill_again a = Alive then False else True
        | Kill_err \<Rightarrow> False
        | No_process \<Rightarrow> True)"

definition TOR_DATA :: bytes where "TOR_DATA = str_bytes ''tor_data_''"
definition TORRC :: bytes where "TORRC = str_bytes ''torrc_''"

definition path_under_dir :: "bytes \<Rightarrow> bytes \<Rightarrow> bool" where
  "path_under_dir path dir \<longleftrightarrow>
     take (length dir) path = dir \<and> (length path = length dir \<or> path ! length dir = 47)"

text \<open>What is removed for one directory entry.\<close>

definition stale_entry :: "bytes \<Rightarrow> int \<Rightarrow> bytes \<times> stale_answers \<Rightarrow> proc_effect list" where
  "stale_entry config_dir uid e =
     (case e of (name, a) \<Rightarrow>
      if \<not> is_safe_filename name then []
      else let is_data_dir = (take 9 name = TOR_DATA);
               pid = (if is_data_dir then safe_parse_pid (drop 9 name)
                      else if take 6 name = TORRC then safe_parse_pid (drop 6 name) else -1);
               path = config_dir @ str_bytes ''/'' @ name in
      if pid \<le> 0 then []
      else if length path \<ge> NOX_PATH_MAX then []
      else if \<not> path_under_dir path config_dir then []
      else if \<not> is_our_stale_entry uid a then []
      else [if is_data_dir then P_rm_rf path else P_unlink path])"

definition cleanup_stale_tor_dirs :: "bytes \<Rightarrow> int \<Rightarrow> (bytes \<times> stale_answers) list option \<Rightarrow> proc_effect list" where
  "cleanup_stale_tor_dirs config_dir uid entries =
     (case entries of None \<Rightarrow> [] | Some es \<Rightarrow> concat (map (stale_entry config_dir uid) es))"

section \<open>torrc\<close>

text \<open>What \<open>snprintf\<close> leaves of a path in a buffer of \<open>NOX_PATH_MAX\<close> bytes.\<close>

definition snprintf_path :: "bytes \<Rightarrow> bytes" where
  "snprintf_path p = take (NOX_PATH_MAX - 1) p"

definition nl :: bytes where "nl = [10]"

definition torrc_head :: "bool \<Rightarrow> bytes \<Rightarrow> bytes" where
  "torrc_head release dir =
     str_bytes ''SocksPort unix:'' @ dir @ str_bytes ''/socks.sock'' @ nl @
     str_bytes ''ControlSocket '' @ dir @ str_bytes ''/control.sock'' @ nl @
     str_bytes ''CookieAuthentication 1'' @ nl @
     str_bytes ''DataDirectory '' @ dir @ nl @
     (if release then str_bytes ''Log notice file /dev/null'' else str_bytes ''Log notice file '' @ dir @ str_bytes ''/tor.log'') @ nl"

definition SNOWFLAKE_BRIDGE :: bytes where
  "SNOWFLAKE_BRIDGE = str_bytes ''Bridge snowflake 192.0.2.3:80 2B280B2313E81E262C97C20B2F2B4B2F5714EAB1 fingerprint=2B280B2313E81E262C97C20B2F2B4B2F5714EAB1 url=https://snowflake-broker.torproject.net/ front=cdn.sstatic.net ice=stun:stun.l.google.com:19302 utls-imitation=hellorandomizedalpn''"

text \<open>\<open>local\<close>: the helper program is executable under \<^verbatim>\<open>/usr/local/bin\<close>.\<close>

definition torrc_content :: "bool \<Rightarrow> bool \<Rightarrow> tor_transport_type \<Rightarrow> bytes \<Rightarrow> bytes \<Rightarrow> bytes" where
  "torrc_content release local transport bridge dir =
     (case transport of
        TRANSPORT_SNOWFLAKE \<Rightarrow>
          torrc_head release dir @ str_bytes ''UseBridges 1'' @ nl @ str_bytes ''UpdateBridgesFromAuthority 1'' @ nl @
          str_bytes ''ClientTransportPlugin snowflake exec '' @
          (if local then str_bytes ''/usr/local/bin/snowflake-client'' else str_bytes ''/usr/bin/snowflake-client'') @ nl @
          SNOWFLAKE_BRIDGE @ nl
      | TRANSPORT_OBFS4 \<Rightarrow>
          let obfs4_path = (if local then str_bytes ''/usr/local/bin/obfs4proxy'' else str_bytes ''/usr/bin/obfs4proxy'') in
          if bridge \<noteq> []
          then torrc_head release dir @ str_bytes ''UseBridges 1'' @ nl @ str_bytes ''Bridge '' @ bridge @ nl @
               str_bytes ''ClientTransportPlugin obfs4 exec '' @ obfs4_path @ nl
          else torrc_head release dir @ str_bytes ''UseBridges 1'' @ nl @ str_bytes ''UpdateBridgesFromAuthority 1'' @ nl @
               str_bytes ''ClientTransportPlugin obfs4 exec '' @ obfs4_path @ nl
      | TRANSPORT_DIRECT \<Rightarrow> torrc_head release dir)"

definition TORRC_MAX :: nat where "TORRC_MAX = NOX_PATH_MAX * 4 + 1024"

record torrc_answers =
  ta_release :: bool
  ta_local :: bool
  ta_pid :: nat
  ta_uid :: int
  ta_euid :: int
  ta_entries :: "(bytes \<times> stale_answers) list option"
  ta_config_fd :: int
  ta_mkdir :: bool
  ta_dd :: int
  ta_dd_stat :: "(bool \<times> int) option"
  ta_fchmod :: bool
  ta_fd :: int
  ta_reg :: "bool option"
  ta_writes :: "write_ans list"

text \<open>The error code, the data directory, the path of the file and the effects; \<open>None\<close> while a write waits.
  \<open>ta_mkdir\<close> is false only for errors other than \<open>EEXIST\<close>.\<close>

definition generate_torrc ::
    "torrc_answers \<Rightarrow> bytes \<Rightarrow> tor_transport_type \<Rightarrow> bytes \<Rightarrow> (nox_err_t \<times> bytes \<times> bytes \<times> proc_effect list) option" where
  "generate_torrc A config_dir transport bridge =
     (let fx = cleanup_stale_tor_dirs config_dir (ta_uid A) (ta_entries A);
          data_bn = TOR_DATA @ dec_bytes (ta_pid A); torrc_bn = TORRC @ dec_bytes (ta_pid A);
          dir = config_dir @ str_bytes ''/'' @ data_bn; path = config_dir @ str_bytes ''/'' @ torrc_bn;
          drop_torrc = (if ta_config_fd A \<ge> 0 then P_unlinkat torrc_bn else P_unlink path) in
      if length dir \<ge> NOX_PATH_MAX then Some (NOX_ERR_CONFIG, snprintf_path dir, [], fx)
      else if length path \<ge> NOX_PATH_MAX then Some (NOX_ERR_CONFIG, dir, snprintf_path path, fx)
      else if length data_bn \<ge> 64 then Some (NOX_ERR_CONFIG, dir, path, fx)
      else if \<not> ta_mkdir A then Some (NOX_ERR_TOR, dir, path, fx)
      else if ta_dd A < 0 then Some (NOX_ERR_TOR, dir, path, fx)
      else let fx = fx @ [P_close (ta_dd A)] in
      case ta_dd_stat A of None \<Rightarrow> Some (NOX_ERR_TOR, dir, path, fx)
      | Some (isdir, owner) \<Rightarrow>
      if \<not> isdir then Some (NOX_ERR_TOR, dir, path, fx)
      else if owner \<noteq> ta_euid A then Some (NOX_ERR_TOR, dir, path, fx)
      else if \<not> ta_fchmod A then Some (NOX_ERR_TOR, dir, path, fx)
      else if length torrc_bn \<ge> 64 then Some (NOX_ERR_CONFIG, dir, path, fx)
      else if ta_fd A < 0 then Some (NOX_ERR_TOR, dir, path, fx)
      else if ta_reg A = Some False then Some (NOX_ERR_TOR, dir, path, fx @ [P_close (ta_fd A), drop_torrc])
      else if transport = TRANSPORT_OBFS4 \<and> bridge \<noteq> [] \<and> has_crlf bridge
      then Some (NOX_ERR_CONFIG, dir, path, fx @ [P_close (ta_fd A), drop_torrc])
      else let content = torrc_content (ta_release A) (ta_local A) transport bridge dir in
      if length content \<ge> TORRC_MAX then Some (NOX_ERR_CONFIG, dir, path, fx @ [P_close (ta_fd A), drop_torrc])
      else case write_full (ta_writes A) content of None \<Rightarrow> None
      | Some (err, out, _) \<Rightarrow> Some (err, dir, path, fx @ [P_write (ta_fd A) out, P_close (ta_fd A)]))"

section \<open>The process\<close>

text \<open>Answers of \<open>waitpid\<close>: the child was reaped, is still running, was reaped by the signal handler
  (\<open>ECHILD\<close>), or another error. When the answers end the child is still running.\<close>

datatype wait_ans = W_reaped | W_running | W_echild | W_failed

fun reap_polls :: "nat \<Rightarrow> wait_ans list \<Rightarrow> bool \<times> wait_ans list" where
  "reap_polls 0 ws = (False, ws)"
| "reap_polls (Suc n) [] = (False, [])"
| "reap_polls (Suc n) (w # ws) = (if w = W_reaped \<or> w = W_echild then (True, ws) else reap_polls n ws)"

text \<open>The last \<open>waitpid\<close> blocks until the killed child is reaped, unless it fails; a failure is only logged.\<close>

definition final_wait :: "int \<Rightarrow> wait_ans list \<Rightarrow> proc_effect list" where
  "final_wait pid ws = (case ws of W_failed # _ \<Rightarrow> [] | _ \<Rightarrow> [P_reaped pid])"

definition terminate_and_reap :: "int \<Rightarrow> wait_ans list \<Rightarrow> bool \<times> proc_effect list" where
  "terminate_and_reap pid ws =
     (if pid \<le> 0 then (False, [])
      else case reap_polls 50 ws of
        (True, _) \<Rightarrow> (True, [P_term pid, P_reaped pid])
      | (False, ws) \<Rightarrow> (False, [P_term pid, P_kill pid] @ final_wait pid ws))"

definition tor_child_cleanup :: "int \<Rightarrow> wait_ans list \<Rightarrow> proc_effect list" where
  "tor_child_cleanup pid ws = (if pid \<le> 0 then [] else snd (terminate_and_reap pid ws))"

text \<open>The answer of \<open>getsockopt(SO_PEERCRED)\<close>: whether the length is right, the process and the user at the other end.\<close>

record peer_cred =
  pc_len_ok :: bool
  pc_pid :: int
  pc_uid :: int

definition tor_verify_peer :: "int \<Rightarrow> int \<Rightarrow> peer_cred option \<Rightarrow> nox_err_t" where
  "tor_verify_peer uid expected_pid cred =
     (case cred of None \<Rightarrow> NOX_ERR_NET
      | Some c \<Rightarrow>
        if \<not> pc_len_ok c then NOX_ERR_NET
        else if pc_pid c \<noteq> expected_pid then NOX_ERR_TOR
        else if pc_uid c \<noteq> uid then NOX_ERR_TOR
        else NOX_OK)"

text \<open>One round of the wait for the control socket.\<close>

record probe_round =
  pr_shutdown :: bool
  pr_died :: bool
  pr_wait :: wait_ans
  pr_socket :: int
  pr_connect :: bool
  pr_cred :: "peer_cred option"


fun wait_for_control_socket ::
    "nat \<Rightarrow> int \<Rightarrow> int \<Rightarrow> bytes \<Rightarrow> probe_round list \<Rightarrow> (nox_err_t \<times> proc_effect list) option" where
  "wait_for_control_socket 0 uid tor_pid socket_path rs = Some (NOX_ERR_TOR, [])"
| "wait_for_control_socket (Suc n) uid tor_pid socket_path [] = None"
| "wait_for_control_socket (Suc n) uid tor_pid socket_path (r # rs) =
     (if pr_shutdown r then Some (NOX_ERR_TOR, [])
      else if pr_died r then Some (NOX_ERR_TOR, [])
      else if pr_wait r = W_reaped then Some (NOX_ERR_TOR, [])
      else if pr_wait r = W_echild then Some (NOX_ERR_TOR, [])
      else if pr_socket r < 0 then wait_for_control_socket n uid tor_pid socket_path rs
      else if length socket_path \<ge> SUN_PATH_LEN then Some (NOX_ERR_CONFIG, [P_socket (pr_socket r), P_close (pr_socket r)])
      else if pr_connect r then Some (tor_verify_peer uid tor_pid (pr_cred r), [P_socket (pr_socket r), P_close (pr_socket r)])
      else map_option (\<lambda>(e, fx). (e, P_socket (pr_socket r) # P_close (pr_socket r) # fx)) (wait_for_control_socket n uid tor_pid socket_path rs))"

definition NOX_CTRL_SOCK_WAIT_SEC :: nat where "NOX_CTRL_SOCK_WAIT_SEC = 30"
definition NOX_CTRL_CONNECT_RETRIES :: nat where "NOX_CTRL_CONNECT_RETRIES = 10"

text \<open>The tries to connect the control channel; each has the shutdown flag and the answer of \<open>connect\<close>. \<open>None\<close> means
  that the shutdown flag was seen.\<close>

fun connect_tries :: "nat \<Rightarrow> (bool \<times> bool) list \<Rightarrow> bool option" where
  "connect_tries 0 cs = Some False"
| "connect_tries (Suc n) [] = Some False"
| "connect_tries (Suc n) ((shutdown, ok) # cs) =
     (if shutdown then None else if ok then Some True else connect_tries n cs)"

record spawn_answers =
  sp_torrc :: torrc_answers
  sp_fork :: int
  sp_probes :: "probe_round list"
  sp_ctrl_fd :: int
  sp_connects :: "(bool \<times> bool) list"
  sp_cred :: "peer_cred option"
  sp_waits :: "wait_ans list"

record tor_state =
  ts_pid :: int
  ts_ctrl_fd :: int
  ts_data_dir :: bytes
  ts_torrc_path :: bytes
  ts_socks_path :: bytes
  ts_listen_path :: bytes
  ts_listen_fd :: int

text \<open>The parent's side of \<open>tor_spawn\<close>; the child executes Tor or exits.\<close>

definition tor_spawn ::
    "spawn_answers \<Rightarrow> bytes \<Rightarrow> tor_transport_type \<Rightarrow> bytes \<Rightarrow> tor_state \<Rightarrow> (nox_err_t \<times> tor_state \<times> proc_effect list) option" where
  "tor_spawn A config_dir transport bridge st =
     (case generate_torrc (sp_torrc A) config_dir transport bridge of None \<Rightarrow> None
      | Some (err, dir, path, fx) \<Rightarrow>
      let st = st\<lparr>ts_data_dir := dir, ts_torrc_path := path\<rparr>;
          socket_path = dir @ str_bytes ''/control.sock''; socks_path = dir @ str_bytes ''/socks.sock'';
          uid = ta_uid (sp_torrc A); pid = sp_fork A; fd = sp_ctrl_fd A;
          reap = tor_child_cleanup pid (sp_waits A) in
      if err \<noteq> NOX_OK then Some (err, st, fx)
      else if length socket_path \<ge> NOX_PATH_MAX then Some (NOX_ERR_CONFIG, st, fx)
      else if length socket_path \<ge> SUN_PATH_LEN then Some (NOX_ERR_CONFIG, st, fx)
      else let st = st\<lparr>ts_socks_path := snprintf_path socks_path\<rparr> in
      if length socks_path \<ge> NOX_PATH_MAX then Some (NOX_ERR_CONFIG, st, fx)
      else if length socks_path \<ge> SUN_PATH_LEN then Some (NOX_ERR_CONFIG, st, fx)
      else let fx = fx @ [P_unlink socket_path] in
      if pid < 0 then Some (NOX_ERR_TOR, st, fx)
      else case wait_for_control_socket (NOX_CTRL_SOCK_WAIT_SEC * 10) uid pid socket_path (sp_probes A) of None \<Rightarrow> None
      | Some (err, wfx) \<Rightarrow>
      let fx = fx @ wfx in
      if err \<noteq> NOX_OK then Some (NOX_ERR_TOR, st, fx @ reap)
      else if fd < 0 then Some (NOX_ERR_NET, st, fx @ reap)
      else let fx = fx @ [P_socket fd] in
      if connect_tries NOX_CTRL_CONNECT_RETRIES (sp_connects A) \<noteq> Some True
      then Some (NOX_ERR_TOR, st, fx @ [P_close fd] @ reap)
      else let err = tor_verify_peer uid pid (sp_cred A) in
      if err \<noteq> NOX_OK then Some (err, st, fx @ [P_close fd] @ reap)
      else Some (NOX_OK, st\<lparr>ts_pid := pid, ts_ctrl_fd := fd\<rparr>, fx))"

text \<open>The part of a path after the last slash.\<close>

definition base_name :: "bytes \<Rightarrow> bytes" where
  "base_name path = rev (takeWhile (\<lambda>c. c \<noteq> 47) (rev path))"

text \<open>\<open>sent\<close> is what the control channel took of the command; its failure does not matter.\<close>

definition tor_shutdown :: "bytes \<Rightarrow> wait_ans list \<Rightarrow> bytes \<Rightarrow> int \<Rightarrow> tor_state \<Rightarrow> tor_state \<times> proc_effect list" where
  "tor_shutdown sent ws config_dir config_fd st =
     (let fx = (if ts_ctrl_fd st \<ge> 0 then [P_send (ts_ctrl_fd st) sent, P_close (ts_ctrl_fd st)] else []);
          st = (if ts_ctrl_fd st \<ge> 0 then st\<lparr>ts_ctrl_fd := -1\<rparr> else st);
          fx = fx @ (if ts_pid st > 0 then snd (terminate_and_reap (ts_pid st) ws) else []);
          st = (if ts_pid st > 0 then st\<lparr>ts_pid := 0\<rparr> else st);
          fx = fx @ (if ts_torrc_path st \<noteq> [] \<and> path_under_dir (ts_torrc_path st) config_dir
                     then [if config_fd \<ge> 0 then P_unlinkat (base_name (ts_torrc_path st)) else P_unlink (ts_torrc_path st)] else []);
          fx = fx @ (if ts_data_dir st \<noteq> [] \<and> path_under_dir (ts_data_dir st) config_dir then [P_rm_rf (ts_data_dir st)] else [])
      in (st\<lparr>ts_torrc_path := [], ts_data_dir := []\<rparr>, fx))"

section \<open>The listening socket and epoll\<close>

record listen_answers =
  la_socket :: int
  la_bind :: bool
  la_listen :: bool

definition listener_create :: "listen_answers \<Rightarrow> tor_state \<Rightarrow> nox_err_t \<times> tor_state \<times> proc_effect list" where
  "listener_create A st =
     (let path = ts_data_dir st @ str_bytes ''/listen.sock''; fd = la_socket A; st = st\<lparr>ts_listen_path := snprintf_path path\<rparr> in
      if length path \<ge> NOX_PATH_MAX then (NOX_ERR_CONFIG, st, [])
      else if fd < 0 then (NOX_ERR_NET, st, [])
      else if length path \<ge> SUN_PATH_LEN then (NOX_ERR_CONFIG, st, [P_unlink path, P_close fd, P_unlink path])
      else if \<not> la_bind A then (NOX_ERR_NET, st, [P_unlink path, P_close fd])
      else if \<not> la_listen A then (NOX_ERR_NET, st, [P_unlink path, P_close fd, P_unlink path])
      else (NOX_OK, st\<lparr>ts_listen_fd := fd\<rparr>, [P_unlink path]))"

text \<open>\<open>epoll_ctl\<close> answers: done, \<open>ENOENT\<close>, or another error. The set is the list of descriptors watched.\<close>

datatype epoll_ans = Ep_ok | Ep_enoent | Ep_err

definition epoll_add_fd :: "epoll_ans \<Rightarrow> int \<Rightarrow> int list \<Rightarrow> nox_err_t \<times> int list" where
  "epoll_add_fd a fd watched = (if a = Ep_ok then (NOX_OK, watched @ [fd]) else (NOX_ERR_NET, watched))"

definition epoll_remove_fd :: "epoll_ans \<Rightarrow> int \<Rightarrow> int list \<Rightarrow> nox_err_t \<times> int list" where
  "epoll_remove_fd a fd watched =
     (if a = Ep_ok then (NOX_OK, removeAll fd watched) else if a = Ep_enoent then (NOX_OK, watched) else (NOX_ERR_NET, watched))"

text \<open>The descriptor kept in the state, the set and the effects. Making standard input non-blocking may fail with a warning.\<close>

definition epoll_setup :: "int \<Rightarrow> epoll_ans \<Rightarrow> epoll_ans \<Rightarrow> int \<Rightarrow> nox_err_t \<times> int \<times> int list \<times> proc_effect list" where
  "epoll_setup efd a_stdin a_listen listen_fd =
     (if efd < 0 then (NOX_ERR_NET, -1, [], [])
      else case epoll_add_fd a_stdin 0 [] of (err, watched) \<Rightarrow>
      if err \<noteq> NOX_OK then (err, -1, [], [P_close efd])
      else if listen_fd \<ge> 0
      then (case epoll_add_fd a_listen listen_fd watched of (err, watched) \<Rightarrow>
            if err \<noteq> NOX_OK then (err, -1, [], [P_close efd]) else (NOX_OK, efd, watched, []))
      else (NOX_OK, efd, watched, []))"

end
