(* ===== verification/Nox_Database_Init.thy ===== *)
theory Nox_Database_Init
  imports Nox_Database_Props Nox_File
begin

text \<open>
  Opening the database (\<^verbatim>\<open>db_init\<close>) and the list of contacts with the last message of each
  (\<^verbatim>\<open>db_list_contacts_with_summary\<close>) of \<^verbatim>\<open>src/database.c\<close>. The file is checked through the descriptor of its
  directory before SQLite opens it; the kernel's and SQLite's answers are arguments.
\<close>

section \<open>Opening\<close>

text \<open>The statements run at the start.\<close>

datatype init_sql = Sql_pragmas | Sql_create_contacts | Sql_create_queue | Sql_create_messages | Sql_create_index

text \<open>What \<open>fstat\<close> says of the file: a regular file, its owner, and whether others have any access.\<close>

record db_stat =
  dst_regular :: bool
  dst_uid :: int
  dst_open_to_others :: bool

datatype create_ans = Created | Create_exists | Create_failed

text \<open>The answer of \<open>openat\<close> for \<^verbatim>\<open>contacts.db\<close>.\<close>

datatype pre_open = Pre_opened "db_stat option" | Pre_absent create_ans | Pre_refused

record init_answers =
  ia_pre :: pre_open
  ia_uid :: int
  ia_fchmod :: bool
  ia_open :: bool
  ia_handle :: bool
  ia_exec :: "init_sql \<Rightarrow> bool"

text \<open>What was done to the file, in order; a descriptor that is opened for a check is closed again.\<close>

datatype db_effect =
  F_check | F_check_done | F_made | F_restrict | F_sqlite_open bytes | F_sqlite_failed bytes | F_sqlite_close | F_chmod bytes | F_exec init_sql

definition db_exec_sql :: "init_answers \<Rightarrow> init_sql \<Rightarrow> nox_err_t" where
  "db_exec_sql A s = (if ia_exec A s then NOX_OK else NOX_ERR_DB)"

text \<open>The check through the directory's descriptor.\<close>

definition db_precheck :: "init_answers \<Rightarrow> nox_err_t \<times> db_effect list" where
  "db_precheck A =
     (case ia_pre A of
        Pre_opened st \<Rightarrow>
          (case st of None \<Rightarrow> (NOX_ERR_DB, [F_check, F_check_done])
           | Some vst \<Rightarrow>
             if \<not> dst_regular vst then (NOX_ERR_DB, [F_check, F_check_done])
             else if dst_uid vst \<noteq> ia_uid A then (NOX_ERR_DB, [F_check, F_check_done])
             else (NOX_OK, F_check # (if dst_open_to_others vst \<and> ia_fchmod A then [F_restrict] else []) @ [F_check_done]))
      | Pre_refused \<Rightarrow> (NOX_ERR_DB, [])
      | Pre_absent Created \<Rightarrow> (NOX_OK, [F_check, F_made, F_check_done])
      | Pre_absent Create_exists \<Rightarrow> (NOX_OK, [])
      | Pre_absent Create_failed \<Rightarrow> (NOX_ERR_DB, []))"

text \<open>The four statements that must succeed, in order; the first failure ends the run.\<close>

fun db_exec_all :: "init_answers \<Rightarrow> init_sql list \<Rightarrow> nox_err_t \<times> db_effect list" where
  "db_exec_all A [] = (NOX_OK, [])"
| "db_exec_all A (s # ss) =
     (if db_exec_sql A s \<noteq> NOX_OK then (db_exec_sql A s, [F_exec s])
      else case db_exec_all A ss of (err, fx) \<Rightarrow> (err, F_exec s # fx))"

definition db_init ::
    "init_answers \<Rightarrow> bytes option \<Rightarrow> int \<Rightarrow> bytes option \<Rightarrow> nox_db \<Rightarrow> nox_err_t \<times> nox_db \<times> db_effect list" where
  "db_init A config_dir config_dir_fd db_key_arg d =
     (case (config_dir, db_key_arg) of
        (Some dir, Some key) \<Rightarrow>
          if db_ready d then (NOX_ERR_STATE, d, [])
          else let d = d\<lparr>db_key := Some key\<rparr>; fail = d\<lparr>db_key := None\<rparr>;
                   db_path = dir @ str_bytes ''/contacts.db'' in
          if length db_path \<ge> NOX_PATH_MAX then (NOX_ERR_CONFIG, fail, [])
          else case (if config_dir_fd \<ge> 0 then db_precheck A else (NOX_OK, [])) of (err, fx) \<Rightarrow>
          if err \<noteq> NOX_OK then (err, fail, fx)
          else if \<not> ia_open A then (NOX_ERR_DB, fail, 
            fx @ (if ia_handle A then [F_sqlite_open db_path, F_sqlite_close] else [F_sqlite_failed db_path]))
          else let fx = fx @ [F_sqlite_open db_path, F_chmod db_path] in
          case db_exec_all A [Sql_pragmas, Sql_create_contacts, Sql_create_queue, Sql_create_messages] of (db_err, ex) \<Rightarrow>
          if db_err \<noteq> NOX_OK then (db_err, fail, fx @ ex @ [F_sqlite_close])
          else (NOX_OK, d\<lparr>db_ready := True\<rparr>, fx @ ex @ [F_exec Sql_create_index])
      | _ \<Rightarrow> (NOX_ERR_CONFIG, d, []))"

section \<open>Contacts with their last message\<close>

text \<open>The two statements of \<open>db_list_contacts_with_summary\<close>: the rows of all contacts with their hashes (\<open>None\<close> when
  the statement cannot be prepared), whether the second statement can be prepared, and its answer for
  a hash.\<close>

record hash_row = sql_row +
  row_hash :: bytes

record summary_engine =
  se_contacts :: "db_tables \<Rightarrow> hash_row list option"
  se_prepare :: "db_tables \<Rightarrow> bool"
  se_last :: "db_tables \<Rightarrow> bytes \<Rightarrow> sql_answer"

text \<open>The text (\<open>None\<close> when there is none or it cannot be decrypted), the direction and the time of the last message.\<close>

definition last_message ::
    "box_crypto \<Rightarrow> nox_db \<Rightarrow> sql_answer \<Rightarrow> heap_answers \<Rightarrow> (bytes option \<times> bool \<times> int) \<times> heap_answers" where
  "last_message B d a al =
     (case a of
        Done (m # _) \<Rightarrow>
          if length (row_nonce m) = NOX_NONCE_LEN \<and> length (row_cipher m) > secretbox_MACBYTES
          then (case sodium_malloc al of (ok, al) \<Rightarrow>
            if \<not> ok then ((None, row_out m, row_time m), al)
            else case decrypt_payload B d (row_cipher m) (row_nonce m) (length (row_cipher m) - secretbox_MACBYTES) of
              (err, p) \<Rightarrow> ((if err = NOX_OK then Some (c_str p) else None, row_out m, row_time m), al))
          else ((None, row_out m, row_time m), al)
      | _ \<Rightarrow> ((None, False, 0), al))"

fun summary_visit ::
    "box_crypto \<Rightarrow> summary_engine \<Rightarrow> nox_db \<Rightarrow> hash_row list \<Rightarrow> heap_answers \<Rightarrow>
       ((bytes \<times> bytes \<times> bytes) \<times> bytes option \<times> bool \<times> int) list \<times> heap_answers" where
  "summary_visit B E d [] al = ([], al)"
| "summary_visit B E d (r # rs) al =
     (if length (row_nonce r) \<noteq> NOX_NONCE_LEN \<or> row_cipher r = [] then summary_visit B E d rs al
      else case decrypt_payload B d (row_cipher r) (row_nonce r) CONTACT_PAYLOAD_LEN of (err, p) \<Rightarrow>
      if err \<noteq> NOX_OK then summary_visit B E d rs al
      else case se_last E (db_data d) (row_hash r) of
        Bind_failed \<Rightarrow> summary_visit B E d rs al
      | a \<Rightarrow>
        (case last_message B d a al of (m, al) \<Rightarrow>
         case summary_visit B E d rs al of (vs, al) \<Rightarrow> ((contact_fields p, m) # vs, al)))"

definition db_list_contacts_with_summary ::
    "box_crypto \<Rightarrow> summary_engine \<Rightarrow> heap_answers \<Rightarrow> nox_db \<Rightarrow>
       nox_err_t \<times> ((bytes \<times> bytes \<times> bytes) \<times> bytes option \<times> bool \<times> int) list \<times> heap_answers" where
  "db_list_contacts_with_summary B E al d =
     (if \<not> db_ready d then (NOX_ERR_STATE, [], al)
      else case se_contacts E (db_data d) of None \<Rightarrow> (NOX_ERR_DB, [], al)
      | Some rows \<Rightarrow>
          if \<not> se_prepare E (db_data d) then (NOX_ERR_DB, [], al)
          else case summary_visit B E d rows al of (vs, al) \<Rightarrow> (NOX_OK, vs, al))"

section \<open>The summary is the listing with the newest entry of each history\<close>

text \<open>What the statements mean on the tables. The inner statement of the history with limit 1 is the same
  query as that for the last message.\<close>

definition summary_sound :: "summary_engine \<Rightarrow> bool" where
  "summary_sound E \<longleftrightarrow> (\<forall>t. se_prepare E t \<and>
     se_contacts E t = Some (map (\<lambda>(h, n, c). sql_row.extend (q_row (0, h, n, c)) \<lparr>row_hash = h\<rparr>) (tb_contacts t)) \<and>
     (\<forall>h. se_last E t h = Done (fst (sql_exec t (Sql_select_history h 1)))))"

text \<open>Each stored hash is that of the address in the record it stands by; \<open>db_add_contact\<close> keeps this.\<close>

definition contacts_keyed :: "box_crypto \<Rightarrow> nox_db \<Rightarrow> bool" where
  "contacts_keyed B d \<longleftrightarrow> (\<forall>(h, n, c) \<in> set (tb_contacts (db_data d)). \<forall>p.
     db_decrypt_row B d (q_row (0, h, n, c)) CONTACT_PAYLOAD_LEN = (NOX_OK, p) \<longrightarrow>
     hash_onion B d (fst (contact_fields p)) = (NOX_OK, h))"

lemma contact_fields_payload:
  assumes "length onion = NOX_ONION_LEN" "0 \<notin> set onion"
  shows "fst (contact_fields (contact_payload onion nm key)) = onion"
  using assms c_str_pad [of onion 63]
  by (simp add: contact_fields_def Let_def cp_onion_def contact_payload_def pad_to_def nox_consts CONTACT_PAYLOAD_LEN_def)

lemma add_contact_keyed:
  assumes Q: "sqlite_sound Q" and nb: "\<forall>t s. fst (Q t s) \<noteq> Bind_failed" and B: "box_ok B"
    and add: "db_add_contact B Q nonce d onion nm key = (NOX_OK, d')" and o: "0 \<notin> set onion" and k: "contacts_keyed B d"
  shows "contacts_keyed B d'"
proof -
  from Q nb add obtain k h cipher where a: "db_key d = Some k" "length onion = NOX_ONION_LEN" "bx_hash B onion k = Some h"
    "bx_seal B (contact_payload onion nm key) nonce k = Some cipher"
    and d': "d' = d\<lparr>db_data := (db_data d)\<lparr>tb_contacts :=
       filter (\<lambda>(h', _). h' \<noteq> h) (tb_contacts (db_data d)) @ [(h, nonce, cipher)]\<rparr>\<rparr>"
    by (rule db_add_contact_OK)
  have "bx_open B cipher nonce k = Some (contact_payload onion nm key)"
    using box_okE [OF B, of "contact_payload onion nm key" nonce k] a(4) by fastforce
  then have "p = contact_payload onion nm key"
    if "db_decrypt_row B d' (q_row (0, h, nonce, cipher)) CONTACT_PAYLOAD_LEN = (NOX_OK, p)" for p
    using that a(1) by (auto simp: d' db_decrypt_row_def decrypt_payload_def split: if_splits)
  moreover have "db_decrypt_row B d' = db_decrypt_row B d" "hash_onion B d' = hash_onion B d"
    by (intro ext, simp add: d' db_decrypt_row_def decrypt_payload_def hash_onion_def)+
  ultimately show ?thesis
    using k contact_fields_payload [OF a(2) o] a(1-3) by (auto simp: contacts_keyed_def hash_onion_def d')
qed

text \<open>The newest entry that a history of one entry shows.\<close>

definition newest :: "box_crypto \<Rightarrow> sqlite \<Rightarrow> nox_db \<Rightarrow> bytes \<Rightarrow> (bytes \<times> bool \<times> int) option" where
  "newest B Q d onion = (case fst (snd (db_get_history B Q [] d onion 1)) of [] \<Rightarrow> None | v # _ \<Rightarrow> Some v)"

lemma history_one:
  "\<exists>ms. fst (sql_exec t (Sql_select_history h 1)) = ms \<and> length ms \<le> 1"
  by (simp add: last_n_def)

lemma last_message_newest:
  assumes "db_ready d" "sqlite_total Q" "hash_onion B d onion = (NOX_OK, h)" "heap_ok al"
  obtains msg out ts al' where
    "last_message B d (Done (fst (sql_exec (db_data d) (Sql_select_history h 1)))) al = ((msg, out, ts), al')" "heap_ok al'"
    "newest B Q d onion = map_option (\<lambda>t. (t, out, ts)) msg"
proof -
  obtain ms where ms: "fst (sql_exec (db_data d) (Sql_select_history h 1)) = ms" "length ms \<le> 1" using history_one by blast
  have g: "db_get_history B Q [] d onion 1 = history_visit B d ms []"
    using assms(1,3) ms(1) sqlite_totalD [OF assms(2)] by (simp add: db_get_history_def Let_def del: sql_exec.simps)
  show thesis
  proof (cases ms)
    case Nil
    with g ms assms(4) show thesis by (intro that [of None False 0 al]) (simp_all add: last_message_def newest_def)
  next
    case (Cons m rest)
    with ms(2) have "ms = [m]" by simp
    with g ms(1) assms(4) show thesis
      by (intro that [of "fst (fst (last_message B d (Done [m]) al))" "row_out m" "row_time m" "snd (last_message B d (Done [m]) al)"])
         (auto simp: last_message_def newest_def db_decrypt_row_def case_prod_beta secretbox_MACBYTES_def)
  qed
qed

definition listed :: "box_crypto \<Rightarrow> nox_db \<Rightarrow> (bytes \<times> bytes \<times> bytes) list \<Rightarrow> (bytes \<times> bytes \<times> bytes) list" where
  "listed B d cs = [contact_fields p. (h, n, c) \<leftarrow> cs,
     (err, p) \<leftarrow> [db_decrypt_row B d (q_row (0, h, n, c)) CONTACT_PAYLOAD_LEN], err = NOX_OK]"

lemma listed_Nil [simp]: "listed B d [] = []"
  by (simp add: listed_def)

lemma listed_Cons:
  "listed B d ((h, n, c) # cs) =
     (case db_decrypt_row B d (q_row (0, h, n, c)) CONTACT_PAYLOAD_LEN of (err, p) \<Rightarrow> if err = NOX_OK then [contact_fields p] else []) @ listed B d cs"
  by (simp add: listed_def split: prod.split)

definition summary_row :: "bytes \<times> bytes \<times> bytes \<Rightarrow> hash_row" where
  "summary_row r = (case r of (h, n, c) \<Rightarrow> sql_row.extend (q_row (0, h, n, c)) \<lparr>row_hash = h\<rparr>)"

lemma summary_row_simps [simp]:
  "row_hash (summary_row (h, n, c)) = h" "row_nonce (summary_row (h, n, c)) = n" "row_cipher (summary_row (h, n, c)) = c"
  by (simp_all add: summary_row_def sql_row.extend_def)

definition shows_newest :: "box_crypto \<Rightarrow> sqlite \<Rightarrow> nox_db \<Rightarrow> (bytes \<times> bytes \<times> bytes) \<times> bytes option \<times> bool \<times> int \<Rightarrow> bool" where
  "shows_newest B Q d v = (case v of ((onion, rest), msg, out, ts) \<Rightarrow> newest B Q d onion = map_option (\<lambda>t. (t, out, ts)) msg)"

lemma summary_visit_listed:
  assumes "db_ready d" "sqlite_total Q" "summary_sound E" "heap_ok al"
    and "\<forall>(h, n, c) \<in> set cs. \<forall>p. db_decrypt_row B d (q_row (0, h, n, c)) CONTACT_PAYLOAD_LEN = (NOX_OK, p) \<longrightarrow>
       hash_onion B d (fst (contact_fields p)) = (NOX_OK, h)"
  shows "\<exists>vs al'. summary_visit B E d (map summary_row cs) al = (vs, al') \<and> map fst vs = listed B d cs \<and>
    list_all (shows_newest B Q d) vs"
  using assms(4,5)
proof (induction cs arbitrary: al)
  case Nil
  then show ?case by simp
next
  case (Cons x cs)
  obtain h n c where x: "x = (h, n, c)" by (metis prod_cases3)
  obtain err p where dec: "db_decrypt_row B d (q_row (0, h, n, c)) CONTACT_PAYLOAD_LEN = (err, p)" by fastforce
  show ?case
  proof (cases "err = NOX_OK")
    case False
    with dec have "summary_visit B E d (map summary_row (x # cs)) al = summary_visit B E d (map summary_row cs) al"
      by (auto simp: x db_decrypt_row_def)
    with Cons.IH [OF Cons.prems(1)] Cons.prems(2) dec False show ?thesis by (auto simp: x listed_Cons)
  next
    case True
    obtain onion rest where f: "contact_fields p = (onion, rest)" by (metis prod.collapse)
    with Cons.prems(2) x dec True have "hash_onion B d onion = (NOX_OK, h)" by auto
    from assms(1,2) this Cons.prems(1) obtain msg out ts al1 where
      m: "last_message B d (Done (fst (sql_exec (db_data d) (Sql_select_history h 1)))) al = ((msg, out, ts), al1)" "heap_ok al1"
        "newest B Q d onion = map_option (\<lambda>t. (t, out, ts)) msg" by (rule last_message_newest)
    from Cons.IH [OF m(2)] Cons.prems(2) obtain vs al2 where
      v: "summary_visit B E d (map summary_row cs) al1 = (vs, al2)" "map fst vs = listed B d cs"
        "list_all (shows_newest B Q d) vs" by auto
    have eq: "summary_visit B E d (map summary_row (x # cs)) al = ((contact_fields p, msg, out, ts) # vs, al2)"
      using dec True m(1) v(1) assms(3) by (auto simp: x db_decrypt_row_def summary_sound_def simp del: sql_exec.simps split: if_splits)
    show ?thesis by (intro exI conjI, rule eq) (use v m(3) dec True f in \<open>simp_all add: x listed_Cons shows_newest_def [of _ _ _ "((a, b), c, e)" for a b c e]\<close>)
  qed
qed

text \<open>The contact list with summaries is the plain contact list with the newest entry of each history. On
  a ready database whose records carry the hash of their own address (which \<open>db_add_contact\<close> keeps), with
  SQLite and the heap working, the visitor is called for exactly the contacts that \<open>db_list_contacts\<close> shows,
  in the same order, and with each the text, direction and time that \<open>db_get_history\<close> with limit 1 reports
  for the address, or no text when that history shows none.\<close>

theorem summary_exact:
  assumes "db_ready d" "sqlite_total Q" "summary_sound E" "heap_ok al" "contacts_keyed B d"
  shows "\<exists>vs al'. db_list_contacts_with_summary B E al d = (NOX_OK, vs, al') \<and>
    map fst vs = snd (db_list_contacts B Q d) \<and>
    list_all (\<lambda>((onion, rest), msg, out, ts). newest B Q d onion = map_option (\<lambda>t. (t, out, ts)) msg) vs"
proof -
  let ?cs = "tb_contacts (db_data d)"
  from summary_visit_listed [OF assms(1-4), of ?cs B] assms(5) obtain vs al' where
    v: "summary_visit B E d (map summary_row ?cs) al = (vs, al')" "map fst vs = listed B d ?cs"
      "list_all (shows_newest B Q d) vs"
    by (auto simp: contacts_keyed_def)
  have "listed B d cs = concat (map (\<lambda>r. concat (map (\<lambda>(err, p). if err = NOX_OK then [contact_fields p] else [])
      [db_decrypt_row B d r CONTACT_PAYLOAD_LEN])) (map (\<lambda>(h, n, c). q_row (0, h, n, c)) cs))" for cs
    by (induction cs) (auto simp: listed_Cons split: prod.splits)
  then have "snd (db_list_contacts B Q d) = listed B d ?cs"
    using assms(1) sqlite_totalD [OF assms(2)] by (simp add: db_list_contacts_def)
  moreover have "se_contacts E (db_data d) = Some (map summary_row ?cs)" "se_prepare E (db_data d)"
    using assms(3) by (auto simp: summary_sound_def summary_row_def)
  ultimately show ?thesis using v assms(1) by (simp add: db_list_contacts_with_summary_def shows_newest_def list_all_iff case_prod_beta)
qed

definition toy_engine :: summary_engine where
  "toy_engine = \<lparr>se_contacts = (\<lambda>t. Some (map summary_row (tb_contacts t))), se_prepare = (\<lambda>_. True),
     se_last = (\<lambda>t h. Done (fst (sql_exec t (Sql_select_history h 1))))\<rparr>"

definition toy_talk :: nox_db where
  "toy_talk = fst (snd (db_save_message toy_box toy_sqlite (zeros 24) []
     (snd (db_add_contact toy_box toy_sqlite (zeros 24) toy_db toy_onion_name [65] (replicate 32 7))) toy_onion_name [72, 105] True 9))"

lemma toy_talk_rows:
  "db_key toy_talk = Some (zeros 32) \<and> db_ready toy_talk \<and>
   tb_contacts (db_data toy_talk) = [(toy_onion_name, zeros 24, contact_payload toy_onion_name [65] (replicate 32 7) @ zeros 16)]"
  by code_simp

lemma toy_talk_keyed: "contacts_keyed toy_box toy_talk"
proof -
  have f: "fst (contact_fields (contact_payload toy_onion_name [65] (replicate 32 7))) = toy_onion_name"
    by (rule contact_fields_payload) (simp_all add: toy_onion_name_def nox_consts)
  have l: "length toy_onion_name = NOX_ONION_LEN" by (simp add: toy_onion_name_def nox_consts)
  show ?thesis
    by (auto simp: contacts_keyed_def toy_talk_rows db_decrypt_row_def decrypt_payload_def hash_onion_def toy_box_def f l split: if_splits)
qed

theorem summary_exact_witness:
  "fst (snd (db_list_contacts_with_summary toy_box toy_engine [] toy_talk)) =
     [((toy_onion_name, [65], replicate 32 7), Some [72, 105], True, 9)] \<and>
   map fst (fst (snd (db_list_contacts_with_summary toy_box toy_engine [] toy_talk))) = snd (db_list_contacts toy_box toy_sqlite toy_talk)"
proof -
  have "fst (snd (db_list_contacts_with_summary toy_box toy_engine [] toy_talk)) =
     [((toy_onion_name, [65], replicate 32 7), Some [72, 105], True, 9)]" by code_simp
  moreover have "summary_sound toy_engine" by (simp add: summary_sound_def toy_engine_def summary_row_def [abs_def])
  ultimately show ?thesis
    using summary_exact [OF _ toy_sqlite_total _ heap_ok_Nil toy_talk_keyed, of toy_engine] toy_talk_rows by auto
qed

section \<open>What opening promises\<close>

text \<open>The parts of \<open>db_init\<close> that decide its outcome.\<close>

definition file_acceptable :: "init_answers \<Rightarrow> bool" where
  "file_acceptable A \<longleftrightarrow> (case ia_pre A of Pre_opened (Some st) \<Rightarrow> dst_regular st \<and> dst_uid st = ia_uid A
     | Pre_opened None \<Rightarrow> False | Pre_absent a \<Rightarrow> a \<noteq> Create_failed | Pre_refused \<Rightarrow> False)"

definition schema_ok :: "init_answers \<Rightarrow> bool" where
  "schema_ok A \<longleftrightarrow> list_all (ia_exec A) [Sql_pragmas, Sql_create_contacts, Sql_create_queue, Sql_create_messages]"

text \<open>Whether the SQLite handle is left open by a sequence of effects.\<close>

fun handle_open :: "bool \<Rightarrow> db_effect list \<Rightarrow> bool" where
  "handle_open h [] = h"
| "handle_open h (F_sqlite_open p # fx) = handle_open True fx"
| "handle_open h (F_sqlite_close # fx) = handle_open False fx"
| "handle_open h (f # fx) = handle_open h fx"

lemma handle_open_append: "handle_open h (fx @ gx) = handle_open (handle_open h fx) gx"
  by (induction h fx rule: handle_open.induct) auto

lemma db_precheck_cases:
  "fst (db_precheck A) = (if file_acceptable A then NOX_OK else NOX_ERR_DB)"
  "handle_open h (snd (db_precheck A)) = h"
  "count_list (snd (db_precheck A)) F_check = count_list (snd (db_precheck A)) F_check_done"
  "F_sqlite_open p \<notin> set (snd (db_precheck A))" "F_sqlite_failed p \<notin> set (snd (db_precheck A))"
  by (auto simp: db_precheck_def file_acceptable_def split: pre_open.splits option.splits create_ans.splits)

lemma db_exec_all_cases:
  "fst (db_exec_all A ss) = (if list_all (ia_exec A) ss then NOX_OK else NOX_ERR_DB)"
  "handle_open h (snd (db_exec_all A ss)) = h"
  "F_check \<notin> set (snd (db_exec_all A ss))" "F_check_done \<notin> set (snd (db_exec_all A ss))" "F_sqlite_open p \<notin> set (snd (db_exec_all A ss))"
  "F_sqlite_failed p \<notin> set (snd (db_exec_all A ss))"
  by (induction ss) (auto simp: db_exec_sql_def split: prod.splits)

text \<open>Opening the database is all or nothing. On a database that is not open, \<open>db_init\<close> succeeds exactly when the
  path fits, the file (checked through the directory's descriptor, when there is one) is a regular file of
  the user or could be created, SQLite opens it and the four statements run; then the key is set and the
  database is ready, and the SQLite handle is open. In every other case the key pointer is cleared again,
  the database is not ready and no SQLite handle is left open. Every descriptor
  opened for the check is closed, and the stored data are not touched. SQLite never opens a file that the
  check refused, and a database that is open is left as it is.\<close>

theorem db_init_exact:
  fixes dir key :: bytes
  defines "path \<equiv> dir @ str_bytes ''/contacts.db''"
  assumes "db_init A (Some dir) fd (Some key) d = (err, d', fx)"
  shows "if db_ready d then err = NOX_ERR_STATE \<and> d' = d \<and> fx = []
    else (err = NOX_OK \<longleftrightarrow> length path < NOX_PATH_MAX \<and> (0 \<le> fd \<longrightarrow> file_acceptable A) \<and> ia_open A \<and> schema_ok A) \<and>
       d' = (if err = NOX_OK then d\<lparr>db_key := Some key, db_ready := True\<rparr> else d\<lparr>db_key := None\<rparr>) \<and>
       handle_open False fx = (err = NOX_OK) \<and> count_list fx F_check = count_list fx F_check_done \<and>
       (\<forall>p. F_sqlite_open p \<in> set fx \<or> F_sqlite_failed p \<in> set fx \<longrightarrow> p = path \<and> (0 \<le> fd \<longrightarrow> file_acceptable A))"
proof -
  define pre where "pre = (if 0 \<le> fd then db_precheck A else (NOX_OK, []))"
  have p: "fst pre = (if 0 \<le> fd \<and> \<not> file_acceptable A then NOX_ERR_DB else NOX_OK)" "handle_open h (snd pre) = h"
    "count_list (snd pre) F_check = count_list (snd pre) F_check_done" "F_sqlite_open q \<notin> set (snd pre)" "F_sqlite_failed q \<notin> set (snd pre)" for h q
    by (simp_all add: pre_def db_precheck_cases)
  define ex where "ex = db_exec_all A [Sql_pragmas, Sql_create_contacts, Sql_create_queue, Sql_create_messages]"
  have e: "fst ex = (if schema_ok A then NOX_OK else NOX_ERR_DB)" "handle_open h (snd ex) = h" "count_list (snd ex) F_check = 0"
    "count_list (snd ex) F_check_done = 0" "F_sqlite_open q \<notin> set (snd ex)" "F_sqlite_failed q \<notin> set (snd ex)" for h q
    unfolding ex_def by (simp_all only: db_exec_all_cases schema_ok_def count_notin not_False_eq_True)
  show ?thesis
  proof (cases "db_ready d")
    case True
    with assms(2) show ?thesis by (simp add: db_init_def)
  next
    case False
    note eq = assms(2) [unfolded db_init_def, folded pre_def ex_def, unfolded prod.case option.case Let_def if_not_P [OF False] case_prod_beta]
    from False show ?thesis
      using eq p e by (auto simp: path_def handle_open_append count_list_append split: if_splits)
  qed
qed

definition toy_open :: init_answers where
  "toy_open = \<lparr>ia_pre = Pre_opened (Some \<lparr>dst_regular = True, dst_uid = 1000, dst_open_to_others = True\<rparr>), ia_uid = 1000, ia_fchmod = True,
     ia_open = True, ia_handle = True, ia_exec = (\<lambda>_. True)\<rparr>"

theorem db_init_exact_witness:
  "db_init toy_open (Some [47]) 3 (Some (zeros 32)) (db_close toy_db) =
   (NOX_OK, toy_db, [F_check, F_restrict, F_check_done, F_sqlite_open (str_bytes ''//contacts.db''), F_chmod (str_bytes ''//contacts.db''),
     F_exec Sql_pragmas, F_exec Sql_create_contacts, F_exec Sql_create_queue, F_exec Sql_create_messages, F_exec Sql_create_index])"
proof -
  obtain err d' fx where r: "db_init toy_open (Some [47]) 3 (Some (zeros 32)) (db_close toy_db) = (err, d', fx)" by (metis prod_cases3)
  from db_init_exact [OF r] have "err = NOX_OK" "d' = toy_db"
    by (auto simp: toy_open_def db_close_def toy_db_def file_acceptable_def schema_ok_def NOX_PATH_MAX_def str_bytes_def)
  with r show ?thesis by (auto simp: toy_open_def db_init_def db_close_def db_precheck_def db_exec_sql_def Let_def NOX_PATH_MAX_def str_bytes_def)
qed



end
