(* ===== verification/Nox_Seccomp.thy ===== *)
theory Nox_Seccomp
  imports Nox_Common
begin

text \<open>
  The system call filters of \<^verbatim>\<open>src/seccomp.c\<close> in their three stages, and what they do to a call. What libseccomp
  and the kernel answer are arguments; system calls are named by their names. The numbers of families and options
  are those of the Linux headers.
\<close>

section \<open>Filter rules\<close>

datatype scmp_act = SCMP_ACT_KILL_PROCESS | SCMP_ACT_ERRNO nat

text \<open>\<open>SCMP_An\<close>: a test of the \<open>n\<close>-th argument.\<close>

datatype scmp_cmp = SCMP_CMP_EQ nat u64 | SCMP_CMP_MASKED_EQ nat u64 u64

record scmp_rule =
  sr_act :: scmp_act
  sr_sys :: string
  sr_args :: "scmp_cmp list"

definition kill_rule :: "string \<Rightarrow> scmp_cmp list \<Rightarrow> scmp_rule" where
  "kill_rule s cs = \<lparr>sr_act = SCMP_ACT_KILL_PROCESS, sr_sys = s, sr_args = cs\<rparr>"

definition ENOSYS :: nat where "ENOSYS = 38"
definition EDOM :: int where "EDOM = 33"

text \<open>A rule is in the filter when it was added with code 0; \<open>-EDOM\<close> (no such system call on this architecture) is
  accepted where the code accepts it, any other code ends the load. \<open>rc\<close> are the answers of \<open>seccomp_rule_add\<close>.\<close>

definition add_rule :: "(scmp_rule \<Rightarrow> int) \<Rightarrow> bool \<Rightarrow> scmp_rule \<Rightarrow> scmp_rule list \<Rightarrow> scmp_rule list option" where
  "add_rule rc edom_ok r ctx =
     (if rc r = 0 then Some (ctx @ [r]) else if edom_ok \<and> rc r = - EDOM then Some ctx else None)"

fun add_rules :: "(scmp_rule \<Rightarrow> int) \<Rightarrow> (bool \<times> scmp_rule) list \<Rightarrow> scmp_rule list \<Rightarrow> scmp_rule list option" where
  "add_rules rc [] ctx = Some ctx"
| "add_rules rc ((edom_ok, r) # rs) ctx = (case add_rule rc edom_ok r ctx of None \<Rightarrow> None | Some ctx \<Rightarrow> add_rules rc rs ctx)"

text \<open>What depends on the build: release or debug, and the headers it was built with.\<close>

record seccomp_build =
  bd_ndebug :: bool
  bd_open_tree_attr :: bool
  bd_file_setattr :: bool
  bd_statmount :: bool
  bd_listmount :: bool
  bd_shstk :: bool

section \<open>The policy\<close>

definition blacklist :: "seccomp_build \<Rightarrow> (string \<times> nat) list" where
  "blacklist B =
     [(''process_vm_readv'', 1), (''process_vm_writev'', 1)] @
     (if bd_ndebug B then [(''ptrace'', 1)] else []) @
     [(''io_uring_setup'', 1), (''io_uring_enter'', 1), (''io_uring_register'', 1), (''userfaultfd'', 1),
      (''perf_event_open'', 1), (''bpf'', 1), (''kexec_file_load'', 1), (''finit_module'', 1), (''personality'', 1),
      (''execve'', 2), (''execveat'', 2), (''uselib'', 2), (''fork'', 2), (''vfork'', 2), (''acct'', 2), (''pidfd_open'', 2),
      (''process_madvise'', 2), (''kcmp'', 2), (''io_setup'', 2), (''io_destroy'', 2), (''io_submit'', 2), (''io_cancel'', 2),
      (''io_getevents'', 2), (''io_pgetevents'', 2), (''mount'', 2), (''umount2'', 2), (''fsopen'', 2), (''fsconfig'', 2),
      (''fsmount'', 2), (''fspick'', 2), (''move_mount'', 2), (''open_tree'', 2), (''umount'', 2), (''pivot_root'', 2),
      (''open_by_handle_at'', 2), (''reboot'', 2), (''sethostname'', 2), (''setdomainname'', 2), (''kexec_load'', 2),
      (''init_module'', 2), (''delete_module'', 2), (''unshare'', 2), (''setns'', 2), (''swapon'', 2), (''swapoff'', 2),
      (''request_key'', 2), (''add_key'', 2), (''keyctl'', 2), (''nfsservctl'', 2), (''quotactl'', 2), (''symlink'', 3),
      (''symlinkat'', 3), (''link'', 3), (''linkat'', 3), (''chmod'', 3), (''fchmod'', 3), (''fchmodat'', 3), (''chown'', 3),
      (''fchown'', 3), (''fchownat'', 3), (''sendto'', 3), (''mknod'', 3), (''mknodat'', 3), (''modify_ldt'', 3),
      (''iopl'', 3), (''ioperm'', 3), (''syslog'', 3), (''pkey_mprotect'', 2), (''pkey_alloc'', 2), (''pkey_free'', 2),
      (''fchmodat2'', 3), (''name_to_handle_at'', 3), (''pidfd_getfd'', 3), (''memfd_secret'', 3), (''vmsplice'', 3),
      (''mount_setattr'', 3)] @
     (if bd_open_tree_attr B then [(''open_tree_attr'', 3)] else []) @
     (if bd_file_setattr B then [(''file_setattr'', 3)] else []) @
     [(''splice'', 3), (''shmget'', 2), (''shmat'', 2), (''shmctl'', 2), (''msgget'', 3), (''msgsnd'', 3), (''msgrcv'', 3),
      (''sendmsg'', 3), (''recvmsg'', 3), (''sendmmsg'', 3), (''recvmmsg'', 3), (''msgctl'', 3), (''memfd_create'', 3)] @
     (if bd_statmount B then [(''statmount'', 3)] else []) @
     (if bd_listmount B then [(''listmount'', 3)] else [])"

definition AF_INET :: u64 where "AF_INET = 2"
definition AF_UNIX :: u64 where "AF_UNIX = 1"
definition AF_IPX :: u64 where "AF_IPX = 4"
definition AF_APPLETALK :: u64 where "AF_APPLETALK = 5"
definition AF_INET6 :: u64 where "AF_INET6 = 10"
definition AF_KEY :: u64 where "AF_KEY = 15"
definition AF_NETLINK :: u64 where "AF_NETLINK = 16"
definition AF_PACKET :: u64 where "AF_PACKET = 17"
definition AF_RDS :: u64 where "AF_RDS = 21"
definition AF_CAN :: u64 where "AF_CAN = 29"
definition AF_TIPC :: u64 where "AF_TIPC = 30"
definition AF_BLUETOOTH :: u64 where "AF_BLUETOOTH = 31"
definition AF_ALG :: u64 where "AF_ALG = 38"
definition AF_NFC :: u64 where "AF_NFC = 39"
definition AF_VSOCK :: u64 where "AF_VSOCK = 40"
definition AF_QIPCRTR :: u64 where "AF_QIPCRTR = 42"
definition AF_SMC :: u64 where "AF_SMC = 43"
definition AF_XDP :: u64 where "AF_XDP = 44"

definition socket_rule :: "u64 \<Rightarrow> scmp_rule" where
  "socket_rule domain = kill_rule ''socket'' [SCMP_CMP_EQ 0 domain]"

text \<open>The code (0: added, 1: not on this architecture, -1: failure) and the filter.\<close>

definition add_socket_domain_rule :: "(scmp_rule \<Rightarrow> int) \<Rightarrow> u64 \<Rightarrow> scmp_rule list \<Rightarrow> int \<times> scmp_rule list" where
  "add_socket_domain_rule rc domain ctx =
     (let c = rc (socket_rule domain) in
      if c = 0 \<or> c = - EDOM then (if c = 0 then (0, ctx @ [socket_rule domain]) else (1, ctx)) else (- 1, ctx))"

fun add_domains :: "(scmp_rule \<Rightarrow> int) \<Rightarrow> u64 list \<Rightarrow> scmp_rule list \<Rightarrow> scmp_rule list option" where
  "add_domains rc [] ctx = Some ctx"
| "add_domains rc (d # ds) ctx =
     (case add_socket_domain_rule rc d ctx of (c, ctx) \<Rightarrow> if c < 0 then None else add_domains rc ds ctx)"

definition CLONE_THREAD :: u64 where "CLONE_THREAD = 0x10000"
definition ARCH_SHSTK_DISABLE :: u64 where "ARCH_SHSTK_DISABLE = 0x5002"
definition ARCH_SHSTK_UNLOCK :: u64 where "ARCH_SHSTK_UNLOCK = 0x5004"
definition PROT_EXEC :: u64 where "PROT_EXEC = 4"

text \<open>\<open>PR_SET_DUMPABLE\<close>, \<open>PR_SET_PTRACER\<close>, \<open>PR_SET_TIMING\<close>, \<open>PR_SET_MM\<close>, \<open>PR_SET_TSC\<close>, \<open>PR_SET_SECUREBITS\<close>,
  \<open>PR_SET_SYSCALL_USER_DISPATCH\<close>, \<open>PR_SET_MDWE\<close>.\<close>

definition prctl_blocked :: "u64 list" where
  "prctl_blocked = [4, 0x59616d61, 14, 35, 26, 28, 59, 65]"

text \<open>The rules of stage 2 before and after the socket families.\<close>

definition stage2_process_rules :: "seccomp_build \<Rightarrow> (bool \<times> scmp_rule) list" where
  "stage2_process_rules B =
     [(False, kill_rule ''clone'' [SCMP_CMP_MASKED_EQ 0 CLONE_THREAD 0]),
      (True, \<lparr>sr_act = SCMP_ACT_ERRNO ENOSYS, sr_sys = ''clone3'', sr_args = []\<rparr>)] @
     (if bd_shstk B
      then [(True, kill_rule ''arch_prctl'' [SCMP_CMP_EQ 0 ARCH_SHSTK_DISABLE]),
            (True, kill_rule ''arch_prctl'' [SCMP_CMP_EQ 0 ARCH_SHSTK_UNLOCK])]
      else []) @
     map (\<lambda>opt. (True, kill_rule ''prctl'' [SCMP_CMP_EQ 0 opt])) prctl_blocked"

definition stage2_domains :: "u64 list" where
  "stage2_domains = [AF_PACKET, AF_INET, AF_INET6, AF_NETLINK, AF_CAN, AF_KEY, AF_NFC, AF_APPLETALK, AF_IPX]"

definition stage2_exec_rules :: "(bool \<times> scmp_rule) list" where
  "stage2_exec_rules = map (\<lambda>s. (True, kill_rule s [SCMP_CMP_MASKED_EQ 2 PROT_EXEC PROT_EXEC])) [''mprotect'', ''mmap'']"

definition stage3_rules :: "(bool \<times> scmp_rule) list" where
  "stage3_rules =
     (True, kill_rule ''clone'' []) #
     map (\<lambda>d. (True, socket_rule d)) [AF_XDP, AF_ALG, AF_VSOCK, AF_BLUETOOTH, AF_SMC, AF_RDS, AF_QIPCRTR]"

text \<open>The answers of libseccomp.\<close>

record scmp_answers =
  sa_init :: bool
  sa_badarch :: int
  sa_tsync :: int
  sa_rc :: "scmp_rule \<Rightarrow> int"
  sa_load :: int

text \<open>The filter that is now in force besides the earlier ones, if the load succeeded. It kills calls of another
  architecture (\<open>SCMP_FLTATR_ACT_BADARCH\<close>) and allows what no rule matches.\<close>

definition seccomp_policy_load :: "seccomp_build \<Rightarrow> scmp_answers \<Rightarrow> nat \<Rightarrow> nox_err_t \<times> scmp_rule list option" where
  "seccomp_policy_load B A stage =
     (if \<not> sa_init A \<or> sa_badarch A < 0 \<or> sa_tsync A < 0 then (NOX_ERR_CRYPTO, None)
      else let rc = sa_rc A;
               listed = map (\<lambda>(s, _). (True, kill_rule s [])) (filter (\<lambda>(_, k). k \<le> stage) (blacklist B)) in
      case add_rules rc listed [] of None \<Rightarrow> (NOX_ERR_CRYPTO, None)
      | Some ctx \<Rightarrow>
        case (if stage \<ge> 2
              then (case add_rules rc (stage2_process_rules B) ctx of None \<Rightarrow> None
                    | Some ctx \<Rightarrow>
                      case add_domains rc stage2_domains ctx of None \<Rightarrow> None
                      | Some ctx \<Rightarrow> add_rules rc stage2_exec_rules ctx)
              else Some ctx) of None \<Rightarrow> (NOX_ERR_CRYPTO, None)
        | Some ctx \<Rightarrow>
          case (if stage \<ge> 3 then add_rules rc stage3_rules ctx else Some ctx) of None \<Rightarrow> (NOX_ERR_CRYPTO, None)
          | Some ctx \<Rightarrow> if sa_load A < 0 then (NOX_ERR_CRYPTO, None) else (NOX_OK, Some ctx))"

section \<open>What the filters do to a call\<close>

text \<open>A system call: whether it uses the native calling convention, its name and its argument registers.\<close>

record syscall =
  sc_native :: bool
  sc_name :: string
  sc_args :: "u64 list"

datatype verdict = V_allow | V_errno nat | V_kill

definition sc_arg :: "syscall \<Rightarrow> nat \<Rightarrow> u64" where
  "sc_arg c i = (if i < length (sc_args c) then sc_args c ! i else 0)"

fun cmp_holds :: "scmp_cmp \<Rightarrow> syscall \<Rightarrow> bool" where
  "cmp_holds (SCMP_CMP_EQ i v) c \<longleftrightarrow> sc_arg c i = v"
| "cmp_holds (SCMP_CMP_MASKED_EQ i m v) c \<longleftrightarrow> (sc_arg c i AND m) = v"

definition rule_matches :: "scmp_rule \<Rightarrow> syscall \<Rightarrow> bool" where
  "rule_matches r c \<longleftrightarrow> sr_sys r = sc_name c \<and> list_all (\<lambda>t. cmp_holds t c) (sr_args r)"

definition rule_verdict :: "scmp_rule \<Rightarrow> verdict" where
  "rule_verdict r = (case sr_act r of SCMP_ACT_KILL_PROCESS \<Rightarrow> V_kill | SCMP_ACT_ERRNO e \<Rightarrow> V_errno e)"

text \<open>Of all filters in force the strictest verdict counts.\<close>

definition stricter :: "verdict \<Rightarrow> verdict \<Rightarrow> verdict" where
  "stricter v w = (if v = V_kill \<or> w = V_kill then V_kill else if v = V_allow then w else v)"

definition filter_verdict :: "scmp_rule list \<Rightarrow> syscall \<Rightarrow> verdict" where
  "filter_verdict rs c =
     (if \<not> sc_native c then V_kill
      else fold (\<lambda>r v. if rule_matches r c then stricter v (rule_verdict r) else v) rs V_allow)"

definition verdict_of :: "scmp_rule list list \<Rightarrow> syscall \<Rightarrow> verdict" where
  "verdict_of fs c = fold (\<lambda>rs v. stricter v (filter_verdict rs c)) fs V_allow"

end
