(* ===== verification/Nox_Sandbox.thy ===== *)
theory Nox_Sandbox
  imports Nox_Seccomp Nox_Control
begin

text \<open>
  The other layers of the sandbox: the file access rules of \<^verbatim>\<open>src/landlock_sandbox.c\<close>, the shadow stack test of
  \<^verbatim>\<open>src/cet_shstk.c\<close>, and the entry of the event loop (\<^verbatim>\<open>src/event_loop.c\<close>), which puts the file access rules and
  the last filter in force. The answers of the kernel are arguments.
\<close>

section \<open>File access rights\<close>

definition LL_EXECUTE :: u64 where "LL_EXECUTE = 0x1"
definition LL_WRITE_FILE :: u64 where "LL_WRITE_FILE = 0x2"
definition LL_READ_FILE :: u64 where "LL_READ_FILE = 0x4"
definition LL_READ_DIR :: u64 where "LL_READ_DIR = 0x8"
definition LL_REMOVE_DIR :: u64 where "LL_REMOVE_DIR = 0x10"
definition LL_REMOVE_FILE :: u64 where "LL_REMOVE_FILE = 0x20"
definition LL_MAKE_CHAR :: u64 where "LL_MAKE_CHAR = 0x40"
definition LL_MAKE_DIR :: u64 where "LL_MAKE_DIR = 0x80"
definition LL_MAKE_REG :: u64 where "LL_MAKE_REG = 0x100"
definition LL_MAKE_SOCK :: u64 where "LL_MAKE_SOCK = 0x200"
definition LL_MAKE_FIFO :: u64 where "LL_MAKE_FIFO = 0x400"
definition LL_MAKE_BLOCK :: u64 where "LL_MAKE_BLOCK = 0x800"
definition LL_MAKE_SYM :: u64 where "LL_MAKE_SYM = 0x1000"
definition LL_REFER :: u64 where "LL_REFER = 0x2000"
definition LL_TRUNCATE :: u64 where "LL_TRUNCATE = 0x4000"
definition LL_IOCTL_DEV :: u64 where "LL_IOCTL_DEV = 0x8000"

lemmas ll_rights = LL_EXECUTE_def LL_WRITE_FILE_def LL_READ_FILE_def LL_READ_DIR_def LL_REMOVE_DIR_def LL_REMOVE_FILE_def
  LL_MAKE_CHAR_def LL_MAKE_DIR_def LL_MAKE_REG_def LL_MAKE_SOCK_def LL_MAKE_FIFO_def LL_MAKE_BLOCK_def LL_MAKE_SYM_def
  LL_REFER_def LL_TRUNCATE_def LL_IOCTL_DEV_def

definition NOX_LL_BASE_RIGHTS :: u64 where
  "NOX_LL_BASE_RIGHTS =
     LL_EXECUTE OR LL_WRITE_FILE OR LL_READ_FILE OR LL_READ_DIR OR LL_REMOVE_DIR OR LL_REMOVE_FILE OR LL_MAKE_CHAR OR
     LL_MAKE_DIR OR LL_MAKE_REG OR LL_MAKE_SOCK OR LL_MAKE_FIFO OR LL_MAKE_BLOCK OR LL_MAKE_SYM"

definition nox_ll_compute_rule_rights :: "u64 \<Rightarrow> u64 \<Rightarrow> u64" where
  "nox_ll_compute_rule_rights wanted handled = wanted AND handled"

section \<open>Restricting file access\<close>

text \<open>A restriction in force: the rights it handles and what it grants beneath a directory (by its descriptor).\<close>

record ll_domain =
  ld_handled :: u64
  ld_scoped :: bool
  ld_rules :: "(int \<times> u64) list"

record ll_state =
  ll_active :: bool
  ll_domains :: "ll_domain list"
  ll_closed :: "int list"

datatype ll_ruleset = LL_fd int | LL_eopnotsupp | LL_failed

record ll_answers =
  la_abi :: int
  la_ioctl_dev :: bool
  la_scope :: bool
  la_ruleset :: ll_ruleset
  la_add_downloads :: bool
  la_add_config :: bool
  la_no_new_privs :: bool
  la_restrict :: bool

definition landlock_abi_version :: "ll_answers \<Rightarrow> int" where
  "landlock_abi_version A = la_abi A"

text \<open>\<open>handled\<close>: the rights the kernel of this ABI knows (\<open>la_ioctl_dev\<close> and \<open>la_scope\<close>: the headers have the constants).\<close>

definition ll_handled :: "ll_answers \<Rightarrow> int \<Rightarrow> u64" where
  "ll_handled A abi =
     (let handled = NOX_LL_BASE_RIGHTS;
          handled = (if abi \<ge> 2 then handled OR LL_REFER else handled);
          handled = (if abi \<ge> 3 then handled OR LL_TRUNCATE else handled) in
      if la_ioctl_dev A \<and> abi \<ge> 5 then handled OR LL_IOCTL_DEV else handled)"

definition ll_wanted :: u64 where
  "ll_wanted = LL_READ_FILE OR LL_WRITE_FILE OR LL_READ_DIR OR LL_REMOVE_FILE OR LL_MAKE_REG OR LL_TRUNCATE"

definition ll_config_rights :: u64 where
  "ll_config_rights = LL_READ_FILE OR LL_READ_DIR OR LL_REMOVE_FILE"

definition landlock_sandbox_init :: "ll_answers \<Rightarrow> int \<Rightarrow> int \<Rightarrow> ll_state \<Rightarrow> nox_err_t \<times> ll_state" where
  "landlock_sandbox_init A config_dir_fd downloads_dir_fd s =
     (if config_dir_fd < 0 \<or> downloads_dir_fd < 0 then (NOX_ERR_CONFIG, s)
      else let abi = landlock_abi_version A in
      if abi < 0 then (NOX_ERR_CONFIG, s)
      else if abi < 1 then (NOX_ERR_CONFIG, s)
      else let handled = ll_handled A abi in
      case la_ruleset A of
        LL_eopnotsupp \<Rightarrow> (NOX_ERR_LANDLOCK_UNSUPPORTED, s)
      | LL_failed \<Rightarrow> (NOX_ERR_CONFIG, s)
      | LL_fd ruleset_fd \<Rightarrow>
        let closed = s\<lparr>ll_closed := ll_closed s @ [ruleset_fd]\<rparr> in
        if \<not> la_add_downloads A then (NOX_ERR_CONFIG, closed)
        else if \<not> la_add_config A then (NOX_ERR_CONFIG, closed)
        else if \<not> la_no_new_privs A then (NOX_ERR_CONFIG, closed)
        else if \<not> la_restrict A then (NOX_ERR_CONFIG, closed)
        else (NOX_OK, closed\<lparr>ll_active := True, ll_domains := ll_domains s @
               [\<lparr>ld_handled = handled, ld_scoped = (la_scope A \<and> abi \<ge> 6),
                 ld_rules = [(downloads_dir_fd, nox_ll_compute_rule_rights ll_wanted handled), (config_dir_fd, ll_config_rights)]\<rparr>]\<rparr>))"

definition landlock_is_available :: "ll_answers \<Rightarrow> bool" where
  "landlock_is_available A \<longleftrightarrow> landlock_abi_version A \<ge> 1"

definition landlock_is_active :: "ll_state \<Rightarrow> bool" where
  "landlock_is_active s \<longleftrightarrow> ll_active s"

text \<open>Whether an access that needs the rights \<open>need\<close>, to a file beneath the directories \<open>dirs\<close>, passes: every restriction
  must grant what it handles of them, through the rules of those directories together.\<close>

definition ll_granted :: "(int \<times> u64) list \<Rightarrow> int set \<Rightarrow> u64" where
  "ll_granted rs dirs = fold (\<lambda>(d, a) g. if d \<in> dirs then g OR a else g) rs 0"

definition ll_permits :: "ll_state \<Rightarrow> int set \<Rightarrow> u64 \<Rightarrow> bool" where
  "ll_permits s dirs need \<longleftrightarrow>
     list_all (\<lambda>d. need AND ld_handled d AND NOT (ll_granted (ld_rules d) dirs) = 0) (ll_domains s)"

section \<open>The shadow stack\<close>

datatype cet_ss_state = CET_SS_UNSUPPORTED | CET_SS_ENFORCED | CET_SS_NOT_ENFORCED | CET_SS_BROKEN

text \<open>A return: the address on the stack, compared with the one on the shadow stack where there is one. \<open>None\<close>: a
  control protection fault.\<close>

fun ret_insn :: "u64 list \<Rightarrow> u64 list option \<Rightarrow> (u64 \<times> u64 list \<times> u64 list option) option" where
  "ret_insn (a # st) None = Some (a, st, None)"
| "ret_insn (a # st) (Some (b # sh)) = (if a = b then Some (a, st, Some sh) else None)"
| "ret_insn _ _ = None"

text \<open>The trigger, called with its return address on the stack: it replaces that address by \<open>.Lfake\<close> and returns; from
  \<open>.Lfake\<close> it pushes the saved address and returns again.\<close>

definition nox_cet_trigger :: "u64 \<Rightarrow> u64 list \<Rightarrow> u64 list option \<Rightarrow> (u64 \<times> u64 list \<times> u64 list option) option" where
  "nox_cet_trigger Lfake st shadow =
     (let rdx = hd st in
      case ret_insn (Lfake # tl st) shadow of None \<Rightarrow> None
      | Some (_, st, shadow) \<Rightarrow> ret_insn (rdx # st) shadow)"

definition SEGV_CPERR :: int where "SEGV_CPERR = 10"

definition cet_segv_handler :: "int \<Rightarrow> nat" where
  "cet_segv_handler si_code = (if si_code = SEGV_CPERR then 101 else 102)"

text \<open>The child: whether \<open>sigaction\<close> worked, the shadow stack it has, and the code of a fault that comes instead of the
  trigger's own effect.\<close>

record cet_child =
  cc_sigaction :: bool
  cc_shadow :: "u64 list option"
  cc_fault :: "int option"

definition cet_child_exit :: "u64 \<Rightarrow> u64 \<Rightarrow> cet_child \<Rightarrow> nat" where
  "cet_child_exit Lfake caller ch =
     (if \<not> cc_sigaction ch then 104
      else case cc_fault ch of Some code \<Rightarrow> cet_segv_handler code
      | None \<Rightarrow>
        (case nox_cet_trigger Lfake [caller] (map_option (\<lambda>sh. caller # sh) (cc_shadow ch)) of
           None \<Rightarrow> cet_segv_handler SEGV_CPERR
         | Some _ \<Rightarrow> 100))"

text \<open>The two lines of \<^verbatim>\<open>/proc/self/status\<close>, from the pieces \<open>fgets\<close> returned (\<open>None\<close>: it cannot be opened).\<close>

definition proc_ss_lines :: "bytes list option \<Rightarrow> (bool \<times> bool) option" where
  "proc_ss_lines status =
     map_option (\<lambda>ls. fold (\<lambda>line (active_seen, locked_seen).
       if take 20 line = str_bytes ''x86_Thread_features:''
       then (active_seen \<or> strstr (str_bytes ''shstk'') line \<noteq> None, locked_seen)
       else if take 27 line = str_bytes ''x86_Thread_features_locked:''
       then (active_seen, locked_seen \<or> strstr (str_bytes ''shstk'') line \<noteq> None)
       else (active_seen, locked_seen)) ls (False, False)) status"

text \<open>Answers of \<open>waitpid\<close>: interrupted, failed, or a process and whether a signal killed it.\<close>

datatype cet_wait = CW_eintr | CW_failed | CW_reaped int bool

fun cet_reap :: "cet_wait list \<Rightarrow> cet_wait option" where
  "cet_reap [] = None"
| "cet_reap (CW_eintr # ws) = cet_reap ws"
| "cet_reap (w # ws) = Some w"

definition ARCH_SHSTK_SHSTK :: u64 where "ARCH_SHSTK_SHSTK = 1"
definition EPERM :: int where "EPERM = 1"

record cet_answers =
  ca_cpu :: bool
  ca_status :: "u64 option"
  ca_lock :: int
  ca_proc :: "bytes list option"
  ca_block :: bool
  ca_fork :: int
  ca_lfake :: u64
  ca_caller :: u64
  ca_child :: cet_child
  ca_waits :: "cet_wait list"
  ca_unblock :: bool

text \<open>The fork test (steps 4 and 5); \<open>None\<close>: the child has not ended.\<close>

definition cet_self_test :: "cet_answers \<Rightarrow> bool \<Rightarrow> cet_ss_state option" where
  "cet_self_test A active =
     (if \<not> ca_block A \<or> ca_fork A < 0 then Some CET_SS_BROKEN
      else case cet_reap (ca_waits A) of None \<Rightarrow> None
      | Some w \<Rightarrow>
        if \<not> ca_unblock A then Some CET_SS_BROKEN
        else Some (case w of
            CW_reaped r signalled \<Rightarrow>
              if r \<noteq> ca_fork A \<or> signalled then CET_SS_BROKEN
              else let code = cet_child_exit (ca_lfake A) (ca_caller A) (ca_child A) in
              if code = 101 then (if active then CET_SS_ENFORCED else CET_SS_BROKEN)
              else if code = 100 then (if active then CET_SS_BROKEN else CET_SS_NOT_ENFORCED)
              else CET_SS_BROKEN
          | _ \<Rightarrow> CET_SS_BROKEN))"

definition cet_ss_lock_and_verify :: "cet_answers \<Rightarrow> cet_ss_state option" where
  "cet_ss_lock_and_verify A =
     (if \<not> ca_cpu A then Some CET_SS_UNSUPPORTED
      else case ca_status A of None \<Rightarrow> Some CET_SS_UNSUPPORTED
      | Some st \<Rightarrow>
        let active = (st AND ARCH_SHSTK_SHSTK \<noteq> 0) in
        if active \<and> (ca_lock A \<noteq> 0 \<and> ca_lock A \<noteq> EPERM \<or>
             (case proc_ss_lines (ca_proc A) of None \<Rightarrow> True
              | Some (active_seen, locked_seen) \<Rightarrow> \<not> active_seen \<or> \<not> locked_seen))
        then Some CET_SS_BROKEN
        else cet_self_test A active)"

section \<open>Entering the event loop\<close>

text \<open>Whether the loop runs, the file access state and the filter of stage 3.\<close>

definition event_loop_entry ::
    "seccomp_build \<Rightarrow> ll_answers \<Rightarrow> scmp_answers \<Rightarrow> int \<Rightarrow> int \<Rightarrow> bool \<Rightarrow> ll_state \<Rightarrow> bool \<times> ll_state \<times> scmp_rule list option" where
  "event_loop_entry B L S config_dir_fd downloads_dir_fd allow_unsandboxed_fs s =
     (case (if config_dir_fd \<ge> 0 \<and> downloads_dir_fd \<ge> 0
            then (case landlock_sandbox_init L config_dir_fd downloads_dir_fd s of (ll_err, s) \<Rightarrow>
                  if ll_err = NOX_ERR_LANDLOCK_UNSUPPORTED then (allow_unsandboxed_fs, s)
                  else (ll_err = NOX_OK, s))
            else (True, s)) of (go, s) \<Rightarrow>
      if \<not> go then (False, s, None)
      else case seccomp_policy_load B S 3 of (err, f) \<Rightarrow> (err = NOX_OK, s, f))"

end
