(* ===== verification/Nox_Main.thy ===== *)
theory Nox_Main
  imports Nox_Arena Nox_Tor Nox_Loop Nox_Database_Init Nox_Sandbox
begin

text \<open>
  The program as \<^verbatim>\<open>src/main.c\<close> puts it together: the start up to the PIN, the steps after the keys up to
  the event loop (database, Tor, sandbox, listener, onion service), the signal handlers and
  \<^verbatim>\<open>cleanup\<close>. The state of the whole program joins that of the event loop with the keys, the Tor process and
  the descriptors. A step that waits for an answer that does not come has not returned (\<open>None\<close>).
\<close>

section \<open>Signals\<close>

text \<open>\<open>g_tor_died\<close> after the handler has reaped the children in \<open>ps\<close> (the answers of \<open>waitpid\<close>).\<close>

fun sigchld_handler :: "int \<Rightarrow> int list \<Rightarrow> bool \<Rightarrow> bool" where
  "sigchld_handler g_tor_pid [] g_tor_died = g_tor_died"
| "sigchld_handler g_tor_pid (p # ps) g_tor_died =
     (if p > 0 then sigchld_handler g_tor_pid ps (if p = g_tor_pid then True else g_tor_died) else g_tor_died)"

section \<open>The state of the program\<close>

text \<open>\<open>pg_lost\<close> counts the sessions and handshakes whose only pointer was overwritten; it is no part of the
  program. The process and the control descriptor of Tor are those of \<open>pg_sys\<close>.\<close>

record prog =
  pg_sys :: sys
  pg_keys :: key_ring
  pg_tor :: tor_state
  pg_epoll_fd :: int
  pg_watched :: "int list"
  pg_config_fd :: int
  pg_config_dir :: bytes
  pg_stdin :: "bytes option"
  pg_stage2 :: "scmp_rule list option"
  pg_fx :: "proc_effect list"
  pg_lost :: nat

section \<open>Cleanup\<close>

text \<open>A slot after \<open>sodium_memzero\<close> and \<open>fd = -1\<close>.\<close>

definition zero_peer :: peer_session where
  "zero_peer = init_peer\<lparr>ps_tofu_peer_fd := 0\<rparr>"

definition held :: "peer_session \<Rightarrow> nat" where
  "held ps = (if ps_session ps \<noteq> None then 1 else 0) + (if ps_hs ps \<noteq> None then 1 else 0)"

definition cleanup_peer :: "nox_env \<Rightarrow> sys \<times> nat \<Rightarrow> nat \<Rightarrow> sys \<times> nat" where
  "cleanup_peer E s i =
     (case s of (st, lost) \<Rightarrow>
      let ps = get_peer st i;
          st = (if ps_fd ps \<ge> 0 \<or> ps_session ps \<noteq> None \<or> ps_hs ps \<noteq> None then fire E i EV_PEER_DISCONNECTED st else st);
          ps = get_peer st i;
          st = (if ps_fd ps \<ge> 0 then emit (E_close (ps_fd ps)) (emit (E_epoll_del (ps_fd ps)) st) else st)
      in (upd_peer i (\<lambda>_. zero_peer) st, lost + held ps))"

definition p_close :: "int \<Rightarrow> proc_effect list" where
  "p_close fd = (if fd \<ge> 0 then [P_close fd] else [])"

definition p_unlink :: "bytes \<Rightarrow> proc_effect list" where
  "p_unlink path = (if path \<noteq> [] then [P_unlink path] else [])"

text \<open>\<open>sent\<close> and \<open>ws\<close> are the answers for \<open>tor_shutdown\<close>. Destroying the arena wipes every key in it. The terminal
  and the screen are not part of the state.\<close>

definition cleanup :: "nox_env \<Rightarrow> bytes \<Rightarrow> wait_ans list \<Rightarrow> prog \<Rightarrow> prog" where
  "cleanup E sent ws pg =
     (let st = pg_sys pg;
          st = (if as_ghost_mode st then st else st\<lparr>io_db := db_close (io_db st)\<rparr>);
          st = st\<lparr>as_my_onion_seed := None\<rparr>;
          st = file_transfer_cleanup st in
      case foldl (cleanup_peer E) (st, pg_lost pg) [0..<NOX_MAX_PEERS] of (st, lost) \<Rightarrow>
      let st = st\<lparr>as_my_static_priv := None, as_my_static_pub := None\<rparr> in
      case tor_shutdown sent ws (pg_config_dir pg) (pg_config_fd pg)
             ((pg_tor pg)\<lparr>ts_pid := as_tor_pid st, ts_ctrl_fd := as_tor_ctrl_fd st\<rparr>) of (t, fx) \<Rightarrow>
      let fx = fx @ p_close (ts_listen_fd t) @ p_unlink (ts_listen_path t) @ p_unlink (ts_socks_path t) @
                 p_close (pg_epoll_fd pg) @ p_close (as_downloads_dir_fd st) @ p_close (pg_config_fd pg) in
      pg\<lparr>pg_sys := st\<lparr>as_tor_pid := ts_pid t, as_tor_ctrl_fd := ts_ctrl_fd t, as_downloads_dir_fd := -1\<rparr>,
         pg_keys := no_keys, pg_tor := t\<lparr>ts_listen_fd := -1, ts_listen_path := [], ts_socks_path := []\<rparr>,
         pg_epoll_fd := -1, pg_config_fd := -1, pg_stdin := None, pg_fx := pg_fx pg @ fx, pg_lost := lost\<rparr>)"

section \<open>From the command line to the PIN\<close>

definition NOX_ARENA_DEFAULT_SIZE :: nat where "NOX_ARENA_DEFAULT_SIZE = 64 * 1024"
definition NOX_SODIUM_LOCKED_BUDGET :: nat where "NOX_SODIUM_LOCKED_BUDGET = 96 * 1024"

record start_inputs =
  si_args :: "bytes list"
  si_env_home :: "bytes option"
  si_pw_home :: "bytes option"
  si_realpath :: "bytes \<Rightarrow> bytes option"
  si_clean_fd :: int
  si_sodium_init :: bool
  si_cet :: cet_answers
  si_dir_answers :: dir_answers
  si_heap :: heap_answers
  si_pin_buf :: bytes
  si_confirm_buf :: bytes
  si_tty :: "tty option"
  si_keys :: "key_ans list"
  si_memlock :: "nat option"
  si_arena_env :: arena_env
  si_arena :: secure_arena
  si_image :: process_image

record start_state =
  ss_ghost :: bool
  ss_unsandboxed :: bool
  ss_paths :: config_paths
  ss_dirs :: dir_state
  ss_pin :: bytes
  ss_tty :: "tty option"
  ss_arena :: secure_arena
  ss_image :: process_image

text \<open>Steps 0 to 8 of the release build: an exit code, or the state with which the program goes on to the keys.
  Reporting on the processor and dropping a capability change nothing here.\<close>

definition main_start :: "start_inputs \<Rightarrow> config_dir \<Rightarrow> ((int + start_state) \<times> config_dir) option" where
  "main_start I d =
     (let paths = resolve_config_paths (si_env_home I) (si_pw_home I) (si_realpath I) in
      if cleankeys_requested (si_args I)
      then (case full_cleankeys paths (si_clean_fd I) d of (code, _, d) \<Rightarrow> Some (Inl code, d))
      else if \<not> si_sodium_init I then Some (Inl 1, d)
      else case cet_ss_lock_and_verify (si_cet I) of None \<Rightarrow> None
      | Some cet \<Rightarrow>
        if cet = CET_SS_BROKEN then Some (Inl 1, d)
        else case paths of
        (NOX_OK, Some p) \<Rightarrow>
          (case ensure_config_dir (si_dir_answers I) p (si_env_home I) (si_pw_home I)
                  \<lparr>dr_config_fd = -1, dr_downloads_fd = -1, dr_first_run = False, dr_closed = []\<rparr> of (err, dirs) \<Rightarrow>
           if err \<noteq> NOX_OK then Some (Inl 1, d)
           else case sodium_malloc (si_heap I) of (ok, al) \<Rightarrow>
           if \<not> ok then Some (Inl 1, d)
           else case read_pin (si_pin_buf I) PIN_BUF_LEN (dr_first_run dirs) (si_confirm_buf I) al
                       (setup_terminal (si_tty I)) (si_keys I) of None \<Rightarrow> None
           | Some (err, pin_buf, t, _) \<Rightarrow>
             if err \<noteq> NOX_OK then Some (Inl 1, d)
             else if (case si_memlock I of None \<Rightarrow> False | Some cur \<Rightarrow> cur < NOX_ARENA_DEFAULT_SIZE + NOX_SODIUM_LOCKED_BUDGET)
             then Some (Inl (- 6), d)
             else case arena_init (si_arena_env I) (si_arena I) (of_nat NOX_ARENA_DEFAULT_SIZE) (si_image I) of (err, a, m) \<Rightarrow>
             if err \<noteq> NOX_OK then Some (Inl 1, d)
             else Some (Inr \<lparr>ss_ghost = fst (parse_args (si_args I)), ss_unsandboxed = snd (parse_args (si_args I)),
                      ss_paths = p, ss_dirs = dirs, ss_pin = pin_buf, ss_tty = t, ss_arena = a, ss_image = m\<rparr>, d))
      | _ \<Rightarrow> Some (Inl 1, d))"

section \<open>From the keys to the event loop\<close>

text \<open>What the steps read. \<open>ni_down\<close> is \<open>g_shutdown\<close> at its checks, numbered in the order of the source; \<open>ni_sent\<close> and
  \<open>ni_waits\<close> are the answers for \<open>cleanup\<close>.\<close>

record net_inputs =
  ni_down :: "nat \<Rightarrow> bool"
  ni_tty :: "tty option"
  ni_input :: bytes
  ni_db :: init_answers
  ni_spawn :: spawn_answers
  ni_build :: seccomp_build
  ni_stage2 :: scmp_answers
  ni_cookie :: cookie_file
  ni_ctrl :: ctrl_io
  ni_boot :: "bool list"
  ni_listen :: listen_answers
  ni_heap :: heap_answers
  ni_seed :: bytes
  ni_efd :: int
  ni_ep_stdin :: epoll_ans
  ni_ep_listen :: epoll_ans
  ni_sent :: bytes
  ni_waits :: "wait_ans list"

text \<open>The process that \<open>tor_spawn\<close> and \<open>listener_create\<close> left.\<close>

definition with_tor :: "tor_state \<Rightarrow> proc_effect list \<Rightarrow> prog \<Rightarrow> prog" where
  "with_tor t fx pg =
     pg\<lparr>pg_tor := t, pg_sys := (pg_sys pg)\<lparr>as_tor_pid := ts_pid t, as_tor_ctrl_fd := ts_ctrl_fd t\<rparr>, pg_fx := pg_fx pg @ fx\<rparr>"

text \<open>Leaving through \<open>cleanup\<close>; an error at a check where the flag is set is an ordinary shutdown.\<close>

definition leave :: "nox_env \<Rightarrow> net_inputs \<Rightarrow> int \<Rightarrow> prog \<Rightarrow> (int option \<times> prog) option" where
  "leave E I code pg = Some (Some code, cleanup E (ni_sent I) (ni_waits I) pg)"

definition leave_failed :: "nox_env \<Rightarrow> net_inputs \<Rightarrow> nat \<Rightarrow> prog \<Rightarrow> (int option \<times> prog) option" where
  "leave_failed E I k pg = leave E I (if ni_down I k then 0 else 1) pg"

text \<open>The onion service of step 15: the number of the check after which it failed, if it did.\<close>

definition main_onion :: "onion_crypto \<Rightarrow> tor_crypto \<Rightarrow> net_inputs \<Rightarrow> ctrl_io \<Rightarrow> prog \<Rightarrow> (nat option \<times> prog) option" where
  "main_onion C T I io pg =
     (let listen_path = ts_listen_path (pg_tor pg);
          seeded = (\<lambda>seed pg. pg\<lparr>pg_sys := (pg_sys pg)\<lparr>as_my_onion_seed := Some seed\<rparr>\<rparr>);
          addressed = (\<lambda>onion pg. pg\<lparr>pg_sys := (pg_sys pg)\<lparr>as_onion_addr := onion\<rparr>\<rparr>);
          pg = seeded (zeros 32) pg in
      if as_ghost_mode (pg_sys pg)
      then (case tor_create_new_hs C T (ni_seed I) listen_path (NOX_ONION_LEN + 1) io of None \<Rightarrow> None
            | Some (err, seed, onion, _) \<Rightarrow>
              (case (err, seed) of (NOX_OK, Some s) \<Rightarrow> Some (None, addressed onion (seeded s pg)) | _ \<Rightarrow> Some (Some 9, pg)))
      else case kr_master (pg_keys pg) of None \<Rightarrow> Some (Some 10, pg)
      | Some master_key \<Rightarrow>
        (case crypto_derive_onion_seed T master_key of (err, seed) \<Rightarrow>
         let pg = seeded seed pg in
         if err \<noteq> NOX_OK then Some (Some 10, pg)
         else case tor_create_derived_hs C T master_key listen_path (NOX_ONION_LEN + 1) io of None \<Rightarrow> None
         | Some (err, onion, _) \<Rightarrow>
           let pg = pg\<lparr>pg_keys := (pg_keys pg)\<lparr>kr_master := None\<rparr>\<rparr> in
           if err \<noteq> NOX_OK then Some (Some 11, pg) else Some (None, addressed onion pg)))"

text \<open>The check that the seed and the address belong together.\<close>

definition seed_matches :: "onion_crypto \<Rightarrow> tor_crypto \<Rightarrow> bytes \<Rightarrow> bytes \<Rightarrow> bool" where
  "seed_matches C T seed onion_addr =
     (case derive_tor_expanded_key C T seed of (c_err, _, seed_pub) \<Rightarrow>
      c_err = NOX_OK \<and>
      (case crypto_onion_pubkey C onion_addr of (c_err, addr_pub) \<Rightarrow> c_err = NOX_OK \<and> seed_pub = addr_pub))"

text \<open>Steps 15 and 16.\<close>

definition main_service :: "nox_env \<Rightarrow> tor_crypto \<Rightarrow> net_inputs \<Rightarrow> ctrl_io \<Rightarrow> prog \<Rightarrow> (int option \<times> prog) option" where
  "main_service E T I io pg =
     (case listener_create (ni_listen I) (pg_tor pg) of (err, t, fx) \<Rightarrow>
      let pg = with_tor t fx pg in
      if err \<noteq> NOX_OK then leave_failed E I 8 pg
      else if \<not> fst (sodium_malloc (ni_heap I)) then leave E I 1 pg
      else case main_onion (ne_onion E) T I io pg of None \<Rightarrow> None
      | Some (Some k, pg) \<Rightarrow> leave_failed E I k pg
      | Some (None, pg) \<Rightarrow>
        if \<not> (case as_my_onion_seed (pg_sys pg) of None \<Rightarrow> False
               | Some seed \<Rightarrow> seed_matches (ne_onion E) T seed (as_onion_addr (pg_sys pg)))
        then leave E I 1 pg
        else case epoll_setup (ni_efd I) (ni_ep_stdin I) (ni_ep_listen I) (ts_listen_fd (pg_tor pg)) of (err, efd, watched, fx) \<Rightarrow>
        let pg = pg\<lparr>pg_epoll_fd := efd, pg_watched := watched, pg_fx := pg_fx pg @ fx\<rparr> in
        if err \<noteq> NOX_OK then leave_failed E I 12 pg
        else if ni_down I 13 then leave E I 0 pg
        else Some (None, pg))"

text \<open>Steps 12 to 16: the exit code (\<open>None\<close> when the event loop is entered) and the state. When the database cannot be
  opened the program only destroys the arena and returns.\<close>

definition main_network :: "nox_env \<Rightarrow> tor_crypto \<Rightarrow> net_inputs \<Rightarrow> prog \<Rightarrow> (int option \<times> prog) option" where
  "main_network E T I pg =
     (case prompt_transport_selection [] (ni_tty I) (ni_input I) of (transport, bridge, _) \<Rightarrow>
      if ni_down I 0 then leave E I 0 pg
      else case (if as_ghost_mode (pg_sys pg) then (NOX_OK, io_db (pg_sys pg), [])
                 else db_init (ni_db I) (Some (pg_config_dir pg)) (pg_config_fd pg) (kr_db (pg_keys pg)) (io_db (pg_sys pg)))
        of (err, db, _) \<Rightarrow>
      let pg = pg\<lparr>pg_sys := (pg_sys pg)\<lparr>io_db := db\<rparr>\<rparr> in
      if err \<noteq> NOX_OK
      then Some (Some 1, pg\<lparr>pg_sys := (pg_sys pg)\<lparr>as_my_static_priv := None, as_my_static_pub := None\<rparr>, pg_keys := no_keys\<rparr>)
      else case tor_spawn (ni_spawn I) (pg_config_dir pg) transport bridge (pg_tor pg) of None \<Rightarrow> None
      | Some (err, t, fx) \<Rightarrow>
        let pg = with_tor t fx pg in
        if err \<noteq> NOX_OK then leave_failed E I 1 pg
        else if ni_down I 2 then leave E I 0 pg
        else if fst (seccomp_policy_load (ni_build I) (ni_stage2 I) 2) \<noteq> NOX_OK then leave E I 1 pg
        else let pg = pg\<lparr>pg_stage2 := snd (seccomp_policy_load (ni_build I) (ni_stage2 I) 2)\<rparr> in
        if ni_down I 3 then leave E I 0 pg
        else case tor_authenticate (ni_cookie I) (ts_data_dir t) (ni_ctrl I) of None \<Rightarrow> None
        | Some (err, io) \<Rightarrow>
          if err \<noteq> NOX_OK then leave_failed E I 4 pg
          else if ni_down I 5 then leave E I 0 pg
          else case tor_wait_bootstrap 120 (ni_boot I) io of None \<Rightarrow> None
          | Some (err, io) \<Rightarrow>
            if err \<noteq> NOX_OK then leave_failed E I 6 pg
            else if ni_down I 7 then leave E I 0 pg
            else main_service E T I io pg)"

end
