(* ===== verification/Nox_Tor_Props.thy ===== *)
theory Nox_Tor_Props
  imports Nox_Tor
begin

text \<open>
  What the handling of the Tor process promises: the configuration file has exactly the intended lines, only
  stale entries of dead processes are removed, a started process is never orphaned and the control channel
  ends in that process.
\<close>

section \<open>Process numbers\<close>

lemma dec_bytes_digits: "\<forall>c \<in> set (dec_bytes n). is_digit c"
proof (induction n rule: dec_bytes.induct)
  case (1 n)
  have d: "is_digit (of_nat (48 + k))" if "k < 10" for k
  proof -
    have "unat (of_nat (48 + k) :: byte) = 48 + k" using that by (simp add: unat_of_nat del: of_nat_add)
    with that show ?thesis by (simp add: is_digit_def word_le_nat_alt del: of_nat_add)
  qed
  show ?case
  proof (cases "n < 10")
    case True
    with d show ?thesis by (subst dec_bytes.simps) simp
  next
    case False
    with 1 d [of "n mod 10"] show ?thesis by (subst dec_bytes.simps) simp
  qed
qed

lemma dec_bytes_value: "digits_value (dec_bytes n) = n"
proof (induction n rule: dec_bytes.induct)
  case (1 n)
  have d: "unat (of_nat (48 + k) - (48 :: byte)) = k" if "k < 10" for k
  proof -
    have "of_nat (48 + k) - (48 :: byte) = of_nat k" by simp
    moreover have "unat (of_nat k :: byte) = k" using that by (simp add: unat_of_nat)
    ultimately show ?thesis by simp
  qed
  show ?case
  proof (cases "n < 10")
    case True
    with d [of n] show ?thesis by (subst dec_bytes.simps) (simp add: digits_value_def)
  next
    case False
    with 1 d [of "n mod 10"] show ?thesis by (subst dec_bytes.simps) (simp add: digits_value_def)
  qed
qed

lemma length_dec_bytes: "n < 10 ^ Suc k \<Longrightarrow> length (dec_bytes n) \<le> Suc k"
proof (induction k arbitrary: n)
  case (Suc k)
  then have "n div 10 < 10 ^ Suc k" by (simp add: less_mult_imp_div_less mult.commute)
  with Suc.IH [of "n div 10"] show ?case by (subst dec_bytes.simps) simp
qed (subst dec_bytes.simps, simp)

lemma dec_bytes_ne [simp]: "dec_bytes n \<noteq> []"
  by (subst dec_bytes.simps) simp

lemma digit_facts: "is_digit c \<Longrightarrow> \<not> is_space c \<and> c \<noteq> 45 \<and> c \<noteq> 43 \<and> c \<noteq> 10 \<and> c \<noteq> 13 \<and> c \<noteq> 47 \<and> c \<noteq> 46"
  by (auto simp: is_digit_def is_space_def word_le_nat_alt)

lemma parse_dec_bytes:
  assumes "0 < n" and "int n \<le> INT_MAX"
  shows "safe_parse_pid (dec_bytes n) = int n"
proof -
  obtain c cs where c: "dec_bytes n = c # cs" by (cases "dec_bytes n") auto
  have dig: "is_digit c" using dec_bytes_digits [of n] c by simp
  have "dropWhile is_space (dec_bytes n) = dec_bytes n" using digit_facts [OF dig] c by simp
  moreover have "takeWhile is_digit (dec_bytes n) = dec_bytes n" "dropWhile is_digit (dec_bytes n) = []"
    using dec_bytes_digits [of n] by simp_all
  ultimately show ?thesis
    using assms digit_facts [OF dig] c dec_bytes_value [of n] by (simp add: safe_parse_pid_def Let_def)
qed

section \<open>Stale entries\<close>

lemma length_names [simp]: "length TOR_DATA = 9" "length TORRC = 6"
  by (simp_all add: TOR_DATA_def TORRC_def str_bytes_def)

lemma path_under_entry: "path_under_dir (dir @ str_bytes ''/'' @ name) dir"
  by (simp add: path_under_dir_def str_bytes_def nth_append)

definition dead :: "stale_answers \<Rightarrow> bool" where
  "dead a \<longleftrightarrow> sa_kill a = No_process \<or> sa_kill a = Alive \<and> sa_kill_again a \<noteq> Alive"

text \<open>Cleaning up after earlier runs is safe and sufficient. Everything removed lies directly in the configuration
  directory, is called \<^verbatim>\<open>tor_data_\<close> or \<^verbatim>\<open>torrc_\<close> with a process number, belongs to the user, and its process did not
  answer when it was asked (an unclear answer counts as alive); and the two names that a process used are
  recognised and removed once it is gone.\<close>

theorem stale_cleanup_exact:
  "(\<forall>fx \<in> set (cleanup_stale_tor_dirs config_dir uid (Some es)).
      \<exists>name a base. (name, a) \<in> set es \<and> is_safe_filename name \<and> sa_uid a = Some uid \<and> dead a \<and>
        (fx = P_rm_rf (config_dir @ str_bytes ''/'' @ name) \<and> base = TOR_DATA \<or> fx = P_unlink (config_dir @ str_bytes ''/'' @ name) \<and> base = TORRC) \<and>
        take (length base) name = base \<and> 0 < safe_parse_pid (drop (length base) name)) \<and>
   (0 < pid \<and> int pid \<le> INT_MAX \<and> length config_dir + 20 < NOX_PATH_MAX \<and> sa_uid a = Some uid \<and> sa_kill a = No_process \<longrightarrow>
      stale_entry config_dir uid (TOR_DATA @ dec_bytes pid, a) = [P_rm_rf (config_dir @ str_bytes ''/'' @ TOR_DATA @ dec_bytes pid)] \<and>
      stale_entry config_dir uid (TORRC @ dec_bytes pid, a) = [P_unlink (config_dir @ str_bytes ''/'' @ TORRC @ dec_bytes pid)])"
proof -
  have one: "\<exists>base. is_safe_filename name \<and> sa_uid a = Some uid \<and> dead a \<and>
        (fx = P_rm_rf (config_dir @ str_bytes ''/'' @ name) \<and> base = TOR_DATA \<or> fx = P_unlink (config_dir @ str_bytes ''/'' @ name) \<and> base = TORRC) \<and>
        take (length base) name = base \<and> 0 < safe_parse_pid (drop (length base) name)"
    if "fx \<in> set (stale_entry config_dir uid (name, a))" for name a fx
  proof -
    have "dead a" "sa_uid a = Some uid" if "is_our_stale_entry uid a"
      using that by (auto simp: is_our_stale_entry_def dead_def split: option.splits kill_ans.splits if_splits)
    with that show ?thesis
      by (auto simp: stale_entry_def Let_def not_le split: if_splits)
  qed
  have two: "stale_entry config_dir uid (TOR_DATA @ dec_bytes pid, a) = [P_rm_rf (config_dir @ str_bytes ''/'' @ TOR_DATA @ dec_bytes pid)]"
     "stale_entry config_dir uid (TORRC @ dec_bytes pid, a) = [P_unlink (config_dir @ str_bytes ''/'' @ TORRC @ dec_bytes pid)]"
    if "0 < pid" "int pid \<le> INT_MAX" "length config_dir + 20 < NOX_PATH_MAX" "sa_uid a = Some uid" "sa_kill a = No_process"
  proof -
    have "pid < 10 ^ Suc 9" using that(2) by (simp add: INT_MAX_def)
    from length_dec_bytes [OF this] have len: "length (dec_bytes pid) \<le> 10" by simp
    have "47 \<notin> set (dec_bytes pid)" using dec_bytes_digits [of pid] digit_facts by blast
    then have safe: "is_safe_filename (TOR_DATA @ dec_bytes pid)" "is_safe_filename (TORRC @ dec_bytes pid)"
      by (simp_all add: is_safe_filename_def TOR_DATA_def TORRC_def str_bytes_def)
    have old: "is_our_stale_entry uid a" using that(4,5) by (simp add: is_our_stale_entry_def)
    note facts = safe old path_under_entry parse_dec_bytes [OF that(1,2)] that len
    show "stale_entry config_dir uid (TOR_DATA @ dec_bytes pid, a) = [P_rm_rf (config_dir @ str_bytes ''/'' @ TOR_DATA @ dec_bytes pid)]"
      using facts by (simp add: stale_entry_def Let_def TOR_DATA_def str_bytes_def)
    show "stale_entry config_dir uid (TORRC @ dec_bytes pid, a) = [P_unlink (config_dir @ str_bytes ''/'' @ TORRC @ dec_bytes pid)]"
      using facts by (simp add: stale_entry_def Let_def TOR_DATA_def TORRC_def str_bytes_def)
  qed
  show ?thesis
    using two by (auto simp: cleanup_stale_tor_dirs_def dest!: one)
qed

theorem stale_cleanup_exact_witness:
  "stale_entry [47, 99] 1000 (TORRC @ dec_bytes 77, \<lparr>sa_uid = Some 1000, sa_kill = No_process, sa_comm = None, sa_kill_again = No_process\<rparr>) =
    [P_unlink ([47, 99] @ str_bytes ''/'' @ TORRC @ dec_bytes 77)]"
  using stale_cleanup_exact [of "[47, 99]" 1000 "[]" 77 "\<lparr>sa_uid = Some 1000, sa_kill = No_process, sa_comm = None, sa_kill_again = No_process\<rparr>"]
  by (simp add: INT_MAX_def NOX_PATH_MAX_def)

section \<open>The configuration file\<close>

text \<open>The intended lines.\<close>

definition torrc_directives :: "bool \<Rightarrow> bool \<Rightarrow> tor_transport_type \<Rightarrow> bytes \<Rightarrow> bytes \<Rightarrow> bytes list" where
  "torrc_directives release local transport bridge dir =
     [str_bytes ''SocksPort unix:'' @ dir @ str_bytes ''/socks.sock'', str_bytes ''ControlSocket '' @ dir @ str_bytes ''/control.sock'',
      str_bytes ''CookieAuthentication 1'', str_bytes ''DataDirectory '' @ dir,
      if release then str_bytes ''Log notice file /dev/null'' else str_bytes ''Log notice file '' @ dir @ str_bytes ''/tor.log''] @
     (let prog = (\<lambda>p. str_bytes (if local then ''/usr/local/bin/'' else ''/usr/bin/'') @ str_bytes p) in
      case transport of
        TRANSPORT_DIRECT \<Rightarrow> []
      | TRANSPORT_SNOWFLAKE \<Rightarrow>
          [str_bytes ''UseBridges 1'', str_bytes ''UpdateBridgesFromAuthority 1'',
           str_bytes ''ClientTransportPlugin snowflake exec '' @ prog ''snowflake-client'', SNOWFLAKE_BRIDGE]
      | TRANSPORT_OBFS4 \<Rightarrow>
          [str_bytes ''UseBridges 1'', if bridge = [] then str_bytes ''UpdateBridgesFromAuthority 1'' else str_bytes ''Bridge '' @ bridge,
           str_bytes ''ClientTransportPlugin obfs4 exec '' @ prog ''obfs4proxy''])"

definition unlines :: "bytes list \<Rightarrow> bytes" where
  "unlines ls = concat (map (\<lambda>l. l @ [10]) ls)"

text \<open>A text in which every line ends with a newline has one way to be cut into lines.\<close>

lemma unlines_inj:
  "unlines ls = unlines ls' \<Longrightarrow> \<forall>l \<in> set ls \<union> set ls'. 10 \<notin> set l \<Longrightarrow> ls = ls'"
proof (induction ls arbitrary: ls')
  case Nil
  then show ?case by (cases ls') (auto simp: unlines_def)
next
  case (Cons l ls)
  then obtain m ms where m: "ls' = m # ms" by (cases ls') (auto simp: unlines_def)
  have "l @ 10 # unlines ls = m @ 10 # unlines ms" using Cons.prems(1) m by (simp add: unlines_def)
  moreover have "takeWhile (\<lambda>c. c \<noteq> 10) (l @ 10 # x) = l" if "10 \<notin> set l" for l x :: bytes
    using that by (induction l) auto
  ultimately have "l = m" using Cons.prems(2) m by (metis UnI1 UnI2 list.set_intros(1))
  with \<open>l @ 10 # unlines ls = m @ 10 # unlines ms\<close> Cons m show ?case by simp
qed

lemma torrc_content_unlines: "torrc_content release local transport bridge dir = unlines (torrc_directives release local transport bridge dir)"
  by (cases transport) (simp_all add: torrc_content_def torrc_directives_def torrc_head_def unlines_def nl_def Let_def str_bytes_def)

lemma torrc_directives_lines:
  assumes "10 \<notin> set dir" and "10 \<notin> set bridge"
  shows "\<forall>l \<in> set (torrc_directives release local transport bridge dir). 10 \<notin> set l"
  using assms by (cases transport) (auto simp: torrc_directives_def SNOWFLAKE_BRIDGE_def Let_def str_bytes_def)

lemma prompt_bridge:
  assumes "prompt_transport_selection [] term inp = (transport, bridge, t, rest)"
  shows "\<forall>c \<in> set bridge. 32 \<le> c \<and> c \<le> 126" "length bridge \<le> 511"
proof -
  have line: "length (fst (fgets_line n s)) \<le> n" for n s
    by (induction n s rule: fgets_line.induct) (auto split: prod.splits)
  have b: "length (bridge_line l) \<le> n" "\<forall>c \<in> set (bridge_line l). 32 \<le> c \<and> c \<le> 126"
    if "\<forall>x. l = Some x \<longrightarrow> length x \<le> n" for l n
  proof -
    have "length (trim_right (c_str x)) \<le> length x" for x
      using length_takeWhile_le [of "\<lambda>c. c \<noteq> 0" x] length_dropWhile_le [of is_blank "rev (c_str x)"]
      by (simp add: trim_right_def c_str_def)
    with that show "length (bridge_line l) \<le> n"
      by (auto simp: bridge_line_def Let_def split: option.split) (meson le_trans)
    show "\<forall>c \<in> set (bridge_line l). 32 \<le> c \<and> c \<le> 126"
      by (auto simp: bridge_line_def Let_def list_ex_iff bridge_bad_def not_less split: option.split)
  qed
  have "bridge = [] \<or> (\<exists>s. bridge = bridge_line (fst (fgets 512 s)))"
    using assms by (auto simp: prompt_transport_selection_def Let_def split: prod.splits option.splits if_splits) (metis fst_conv)+
  moreover have "length x \<le> 511" if "fst (fgets 512 s) = Some x" for s x
    using that line [of 511 s] by (auto simp: fgets_def split: if_splits prod.splits)
  ultimately show "\<forall>c \<in> set bridge. 32 \<le> c \<and> c \<le> 126" "length bridge \<le> 511"
    using b [where n = 511] by (metis empty_iff list.set(1), metis le0 list.size(3))
qed

text \<open>The effects before the file is written are none of the file's.\<close>

lemma cleanup_no_write: "P_write fd out \<notin> set (cleanup_stale_tor_dirs config_dir uid es)"
  by (auto simp: cleanup_stale_tor_dirs_def stale_entry_def Let_def split: option.splits if_splits)

lemma generate_torrc_write:
  assumes "generate_torrc A config_dir transport bridge = Some (err, dir, path, fx)"
  shows "P_write fd out \<in> set fx \<Longrightarrow> fd = ta_fd A \<and> dir = config_dir @ str_bytes ''/'' @ TOR_DATA @ dec_bytes (ta_pid A) \<and>
      (\<exists>rest. torrc_content (ta_release A) (ta_local A) transport bridge dir = out @ rest)"
    "err = NOX_OK \<Longrightarrow> dir = config_dir @ str_bytes ''/'' @ TOR_DATA @ dec_bytes (ta_pid A) \<and>
      P_write (ta_fd A) (torrc_content (ta_release A) (ta_local A) transport bridge dir) \<in> set fx \<and>
      ta_dd_stat A = Some (True, ta_euid A) \<and> 0 \<le> ta_fd A"
  using assms cleanup_no_write
  by (auto simp: generate_torrc_def Let_def split: if_splits option.splits prod.splits dest!: write_full_prefix)

text \<open>Tor is configured with exactly the intended lines. Whatever the user types at the question for the transport,
  a bridge line that is taken over consists of at most 511 printable characters, and when the configuration file has
  been written it is the list of the intended directives, one per line and each without a newline, so that
  nothing typed becomes a directive of its own; a file that could be written in part only holds a beginning of that text.
  It is written only after the data directory turned out to be a directory of the user.\<close>

theorem torrc_exact:
  assumes "prompt_transport_selection [] term inp = (transport, bridge, t, rest)" and "10 \<notin> set config_dir"
    and "generate_torrc A config_dir transport bridge = Some (err, dir, path, fx)"
  defines "ds \<equiv> torrc_directives (ta_release A) (ta_local A) transport bridge dir"
  shows "(\<forall>c \<in> set bridge. 32 \<le> c \<and> c \<le> 126) \<and> length bridge \<le> 511 \<and>
    (err = NOX_OK \<longrightarrow> P_write (ta_fd A) (unlines ds) \<in> set fx \<and> (\<forall>l \<in> set ds. 10 \<notin> set l) \<and>
       (\<forall>ls. unlines ls = unlines ds \<and> (\<forall>l \<in> set ls. 10 \<notin> set l) \<longrightarrow> ls = ds) \<and> ta_dd_stat A = Some (True, ta_euid A)) \<and>
    (\<forall>fd out. P_write fd out \<in> set fx \<longrightarrow> fd = ta_fd A \<and> (\<exists>r. unlines ds = out @ r))"
proof -
  note b = prompt_bridge [OF assms(1)] and w = generate_torrc_write [OF assms(3)]
  have "10 \<notin> set bridge" using b(1) by auto
  moreover have "10 \<notin> set dir" if "err = NOX_OK"
    using w(2) [OF that] assms(2) dec_bytes_digits [of "ta_pid A"] digit_facts by (auto simp: TOR_DATA_def str_bytes_def)
  ultimately have lines: "err = NOX_OK \<Longrightarrow> \<forall>l \<in> set ds. 10 \<notin> set l"
    unfolding ds_def by (intro torrc_directives_lines)
  have u: "unlines ls = unlines ds \<and> (\<forall>l \<in> set ls. 10 \<notin> set l) \<longrightarrow> ls = ds" if "err = NOX_OK" for ls
    using unlines_inj [of ls ds] lines [OF that] by blast
  show ?thesis using b w lines u unfolding ds_def torrc_content_unlines by blast
qed

definition toy_torrc :: torrc_answers where
  "toy_torrc = \<lparr>ta_release = True, ta_local = False, ta_pid = 77, ta_uid = 1000, ta_euid = 1000, ta_entries = None, ta_config_fd = 3,
     ta_mkdir = True, ta_dd = 4, ta_dd_stat = Some (True, 1000), ta_fchmod = True, ta_fd = 5, ta_reg = Some True,
     ta_writes = [W_ok 4000]\<rparr>"

lemma toy_torrc_ok:
  obtains path fx where "generate_torrc toy_torrc [47, 99] TRANSPORT_OBFS4 [120, 121] =
    Some (NOX_OK, [47, 99] @ str_bytes ''/'' @ TOR_DATA @ [55, 55], path, fx)"
proof -
  have d: "dec_bytes 77 = [55, 55]" by code_simp
  have "length (torrc_content True False TRANSPORT_OBFS4 [120, 121] ([47, 99] @ str_bytes ''/'' @ TOR_DATA @ [55, 55])) < TORRC_MAX"
    by (simp add: torrc_content_def torrc_head_def nl_def str_bytes_def TORRC_MAX_def NOX_PATH_MAX_def)
  moreover have "write_full [W_ok 4000] c = Some (NOX_OK, c, if c = [] then [W_ok 4000] else [])" if "length c < TORRC_MAX" for c
    using that by (cases c) (simp_all add: TORRC_MAX_def NOX_PATH_MAX_def)
  ultimately show thesis
    using that by (auto simp: generate_torrc_def toy_torrc_def cleanup_stale_tor_dirs_def Let_def d str_bytes_def NOX_PATH_MAX_def has_crlf_def not_le)
qed

theorem torrc_exact_witness:
  "\<exists>dir path fx. generate_torrc toy_torrc [47, 99] TRANSPORT_OBFS4 [120, 121] = Some (NOX_OK, dir, path, fx) \<and>
     P_write 5 (unlines (torrc_directives True False TRANSPORT_OBFS4 [120, 121] dir)) \<in> set fx"
proof -
  have p: "prompt_transport_selection [] None [111, 10, 120, 121, 10] = (TRANSPORT_OBFS4, [120, 121], None, [])" by code_simp
  obtain dir path fx where g: "generate_torrc toy_torrc [47, 99] TRANSPORT_OBFS4 [120, 121] = Some (NOX_OK, dir, path, fx)"
    using toy_torrc_ok by blast
  from torrc_exact [OF p _ g] g show ?thesis by (auto simp: toy_torrc_def)
qed

section \<open>The process\<close>

lemma reap_polls_true: "fst (reap_polls n ws) \<longleftrightarrow> (\<exists>w \<in> set (take n ws). w = W_reaped \<or> w = W_echild)"
  by (induction n ws rule: reap_polls.induct) auto

text \<open>How the process is ended: told to terminate, and reaped when one of the next fifty polls sees its end (also when the signal
  handler has reaped it); otherwise killed and waited for, and then it is reaped unless this last \<open>waitpid\<close> fails.\<close>

definition ending :: "int \<Rightarrow> wait_ans list \<Rightarrow> proc_effect list" where
  "ending pid ws =
     (if list_ex (\<lambda>w. w = W_reaped \<or> w = W_echild) (take 50 ws) then [P_term pid, P_reaped pid]
      else [P_term pid, P_kill pid] @ (if take 1 (drop 50 ws) = [W_failed] then [] else [P_reaped pid]))"

lemma reap_polls_exact:
  "reap_polls n ws = (if list_ex (\<lambda>w. w = W_reaped \<or> w = W_echild) (take n ws)
     then (True, snd (reap_polls n ws)) else (False, drop n ws))"
  by (induction n ws rule: reap_polls.induct) auto

lemma child_cleanup_ending:
  assumes "0 < pid"
  shows "tor_child_cleanup pid ws = ending pid ws"
proof -
  have w: "final_wait pid rs = (if take 1 rs = [W_failed] then [] else [P_reaped pid])" for rs
    by (cases rs; cases "hd rs") (simp_all add: final_wait_def)
  show ?thesis
  proof (cases "list_ex (\<lambda>w. w = W_reaped \<or> w = W_echild) (take 50 ws)")
    case True
    then obtain rs where "reap_polls 50 ws = (True, rs)" using reap_polls_exact [of 50 ws] by simp
    then show ?thesis using assms True by (simp add: tor_child_cleanup_def terminate_and_reap_def ending_def)
  next
    case False
    then have "reap_polls 50 ws = (False, drop 50 ws)" by (subst reap_polls_exact) simp
    then show ?thesis using assms False w by (simp add: tor_child_cleanup_def terminate_and_reap_def ending_def)
  qed
qed

text \<open>The sockets that are open after a sequence of effects.\<close>

definition still_open :: "proc_effect list \<Rightarrow> int list \<Rightarrow> int list" where
  "still_open fx os = fold (\<lambda>e os. case e of P_socket fd \<Rightarrow> fd # os | P_close fd \<Rightarrow> remove1 fd os | _ \<Rightarrow> os) fx os"

lemma still_open_simps [simp]:
  "still_open [] os = os" "still_open (fx @ gx) os = still_open gx (still_open fx os)"
  "still_open (P_socket fd # fx) os = still_open fx (fd # os)" "still_open (P_close fd # fx) os = still_open fx (remove1 fd os)"
  "still_open (P_unlink p # fx) os = still_open fx os" "still_open (P_term pid # fx) os = still_open fx os"
  "still_open (P_kill pid # fx) os = still_open fx os" "still_open (P_reaped pid # fx) os = still_open fx os"
  by (simp_all add: still_open_def)

lemma still_open_none: "(\<And>fd. P_socket fd \<notin> set fx) \<Longrightarrow> still_open fx [] = []"
  by (induction fx) (auto simp: still_open_def split: proc_effect.split)

lemma still_open_cleanup: "still_open (tor_child_cleanup pid ws) os = os"
  by (auto simp: tor_child_cleanup_def terminate_and_reap_def final_wait_def
      split: prod.split bool.split list.split wait_ans.split)

lemma generate_torrc_no_socket:
  assumes "generate_torrc A config_dir transport bridge = Some (err, dir, path, fx)"
  shows "P_socket fd \<notin> set fx"
proof -
  have "P_socket fd \<notin> set (cleanup_stale_tor_dirs config_dir (ta_uid A) (ta_entries A))"
    by (auto simp: cleanup_stale_tor_dirs_def stale_entry_def Let_def split: option.splits if_splits prod.splits)
  then show ?thesis using assms by (auto simp: generate_torrc_def Let_def split: if_splits option.splits prod.splits)
qed

lemma probes_closed: "wait_for_control_socket n uid pid path rs = Some (e, fx) \<Longrightarrow> still_open fx os = os"
  by (induction n uid pid path rs arbitrary: fx rule: wait_for_control_socket.induct) (auto split: if_splits)

definition socket_fits :: "bytes \<Rightarrow> bool" where
  "socket_fits dir \<longleftrightarrow> length (dir @ str_bytes ''/control.sock'') < SUN_PATH_LEN"

text \<open>C29. The control channel ends in the Tor process that was started, and neither is left behind. A start that
  succeeds has its channel connected to a socket whose other end the kernel reports as the started process of the same
  user, and of all sockets it opened only this channel is still open. A start that fails leaves no process number and no channel in
  the state, and every socket it opened, the channel included, has been closed; if a process had been started, the last
  things done are to tell it to terminate and, when fifty polls do not see its end, to kill it, and it has been reaped unless the final \<open>waitpid\<close> failed.\<close>

theorem tor_spawn_verified:
  assumes "tor_spawn A config_dir transport bridge st = Some (err, st', fx)" and "ts_pid st = 0" and "ts_ctrl_fd st = -1"
  shows "(err = NOX_OK \<longrightarrow> ts_pid st' = sp_fork A \<and> ts_ctrl_fd st' = sp_ctrl_fd A \<and> 0 \<le> sp_ctrl_fd A \<and>
      (\<exists>c. sp_cred A = Some c \<and> pc_pid c = sp_fork A \<and> pc_uid c = ta_uid (sp_torrc A)) \<and> still_open fx [] = [sp_ctrl_fd A]) \<and>
    (err \<noteq> NOX_OK \<longrightarrow> ts_pid st' = 0 \<and> ts_ctrl_fd st' = -1 \<and> still_open fx [] = [] \<and>
      (\<forall>dir path gx. generate_torrc (sp_torrc A) config_dir transport bridge = Some (NOX_OK, dir, path, gx) \<and> socket_fits dir \<and> 0 < sp_fork A \<longrightarrow>
         (\<exists>before. fx = before @ ending (sp_fork A) (sp_waits A))))"
proof -
  obtain gerr dir path gx where g: "generate_torrc (sp_torrc A) config_dir transport bridge = Some (gerr, dir, path, gx)"
    using assms(1) by (auto simp: tor_spawn_def split: option.splits)
  have gx: "still_open gx [] = []" using generate_torrc_no_socket [OF g] by (rule still_open_none)
  have peer: "tor_verify_peer uid pid cred = NOX_OK \<longleftrightarrow> (\<exists>c. cred = Some c \<and> pc_len_ok c \<and> pc_pid c = pid \<and> pc_uid c = uid)" for uid pid cred
    by (auto simp: tor_verify_peer_def split: option.split)
  have sz: "length (dir @ str_bytes ''/socks.sock'') < length (dir @ str_bytes ''/control.sock'')" "SUN_PATH_LEN < NOX_PATH_MAX"
    by (simp_all add: str_bytes_def SUN_PATH_LEN_def NOX_PATH_MAX_def)
  show ?thesis
    using assms g gx sz child_cleanup_ending [of "sp_fork A" "sp_waits A"]
    by (auto simp: tor_spawn_def Let_def peer socket_fits_def still_open_cleanup probes_closed split: option.splits prod.splits if_splits)
qed

text \<open>The probe reaches the started process, but the channel another one; the process does not react to the signal.\<close>

definition toy_spawn :: spawn_answers where
  "toy_spawn = \<lparr>sp_torrc = toy_torrc, sp_fork = 99,
     sp_probes = [\<lparr>pr_shutdown = False, pr_died = False, pr_wait = W_running, pr_socket = 6, pr_connect = True,
       pr_cred = Some \<lparr>pc_len_ok = True, pc_pid = 99, pc_uid = 1000\<rparr>\<rparr>],
     sp_ctrl_fd = 6, sp_connects = [(False, True)], sp_cred = Some \<lparr>pc_len_ok = True, pc_pid = 98, pc_uid = 1000\<rparr>, sp_waits = []\<rparr>"

definition tor_idle :: tor_state where
  "tor_idle = \<lparr>ts_pid = 0, ts_ctrl_fd = -1, ts_data_dir = [], ts_torrc_path = [], ts_socks_path = [], ts_listen_path = [], ts_listen_fd = -1\<rparr>"

theorem tor_spawn_verified_witness:
  "\<exists>st' fx before. tor_spawn toy_spawn [47, 99] TRANSPORT_OBFS4 [120, 121] tor_idle = Some (NOX_ERR_TOR, st', fx) \<and>
     P_socket 6 \<in> set fx \<and> still_open fx [] = [] \<and> fx = before @ [P_term 99, P_kill 99, P_reaped 99]"
proof -
  let ?dir = "[47, 99] @ str_bytes ''/'' @ TOR_DATA @ [55, 55]"
  obtain path gx where g: "generate_torrc toy_torrc [47, 99] TRANSPORT_OBFS4 [120, 121] = Some (NOX_OK, ?dir, path, gx)"
    by (rule toy_torrc_ok)
  have fits: "socket_fits ?dir" by (simp add: socket_fits_def str_bytes_def SUN_PATH_LEN_def)
  have "\<exists>st' fx. tor_spawn toy_spawn [47, 99] TRANSPORT_OBFS4 [120, 121] tor_idle = Some (NOX_ERR_TOR, st', fx) \<and> P_socket 6 \<in> set fx"
    using g by (simp add: tor_spawn_def toy_spawn_def Let_def str_bytes_def NOX_PATH_MAX_def SUN_PATH_LEN_def NOX_CTRL_SOCK_WAIT_SEC_def
        NOX_CTRL_CONNECT_RETRIES_def numeral_eq_Suc tor_verify_peer_def toy_torrc_def)
  then obtain st' fx where s: "tor_spawn toy_spawn [47, 99] TRANSPORT_OBFS4 [120, 121] tor_idle = Some (NOX_ERR_TOR, st', fx)" "P_socket 6 \<in> set fx" by blast
  have e: "ending 99 [] = [P_term 99, P_kill 99, P_reaped 99]" by (simp add: ending_def)
  have t: "sp_torrc toy_spawn = toy_torrc" "sp_fork toy_spawn = 99" "sp_waits toy_spawn = []" "ts_pid tor_idle = 0" "ts_ctrl_fd tor_idle = -1"
    by (simp_all add: toy_spawn_def tor_idle_def)
  from tor_spawn_verified [OF s(1) t(4,5)] g fits s(2) obtain before where "fx = before @ ending 99 []" "still_open fx [] = []"
    unfolding t by auto
  with s e show ?thesis by metis
qed

end
