(* ===== verification/Nox_Landlock_Props.thy ===== *)
theory Nox_Landlock_Props
  imports Nox_Sandbox_Props
begin

text \<open>
  What the entry of the event loop and the shadow stack test promise: the files the running loop can reach, and
  what was seen before the shadow stack is reported as enforced.
\<close>

section \<open>File access in the loop\<close>

lemma ll_permits_or: "ll_permits s dirs (a OR b) \<longleftrightarrow> ll_permits s dirs a \<and> ll_permits s dirs b"
proof -
  have "(a OR b) AND w = 0 \<longleftrightarrow> a AND w = 0 \<and> b AND w = 0" for w :: u64
    by (auto simp: bit_eq_iff [where 'a = "64 word"] bit_simps)
  then show ?thesis unfolding ll_permits_def list_all_iff and.assoc by blast
qed

lemma handled_cases: "ll_handled A abi \<in> {0x1FFF, 0x3FFF, 0x7FFF, 0xFFFF}" "abi < 2 \<Longrightarrow> ll_handled A abi = 0x1FFF"
    "abi = 2 \<Longrightarrow> ll_handled A abi = 0x3FFF" "3 \<le> abi \<Longrightarrow> ll_handled A abi \<in> {0x7FFF, 0xFFFF}"
proof -
  have b: "NOX_LL_BASE_RIGHTS = 0x1FFF" by (simp add: NOX_LL_BASE_RIGHTS_def ll_rights)
  show "ll_handled A abi \<in> {0x1FFF, 0x3FFF, 0x7FFF, 0xFFFF}" "abi < 2 \<Longrightarrow> ll_handled A abi = 0x1FFF"
    "abi = 2 \<Longrightarrow> ll_handled A abi = 0x3FFF" "3 \<le> abi \<Longrightarrow> ll_handled A abi \<in> {0x7FFF, 0xFFFF}"
    by (auto simp: ll_handled_def Let_def b LL_REFER_def LL_TRUNCATE_def LL_IOCTL_DEV_def)
qed

lemma init_ok:
  assumes "landlock_sandbox_init A cfg dl s = (NOX_OK, s')"
  shows "\<exists>fd. la_ruleset A = LL_fd fd \<and> 1 \<le> la_abi A \<and> s' = s\<lparr>ll_closed := ll_closed s @ [fd], ll_active := True, ll_domains := ll_domains s @
    [\<lparr>ld_handled = ll_handled A (la_abi A), ld_scoped = (la_scope A \<and> la_abi A \<ge> 6),
      ld_rules = [(dl, ll_wanted AND ll_handled A (la_abi A)), (cfg, ll_config_rights)]\<rparr>]\<rparr>"
  using assms by (auto simp: landlock_sandbox_init_def Let_def landlock_abi_version_def nox_ll_compute_rule_rights_def
    split: if_splits ll_ruleset.splits)

text \<open>The rights granted beneath a directory never exceed those handled: the kernel cannot refuse a rule for that.\<close>

lemma rule_rights_handled:
  "nox_ll_compute_rule_rights ll_wanted (ll_handled A abi) AND ll_handled A abi = nox_ll_compute_rule_rights ll_wanted (ll_handled A abi)"
  "ll_config_rights AND ll_handled A abi = ll_config_rights"
  using handled_cases(1) [of A abi]
  by (auto simp: nox_ll_compute_rule_rights_def ll_config_rights_def ll_wanted_def ll_rights)

text \<open>Rights of one restriction, beneath the directories \<open>dirs\<close>.\<close>

definition confines :: "ll_state \<Rightarrow> int \<Rightarrow> int \<Rightarrow> int \<Rightarrow> bool" where
  "confines s cfg dl abi \<longleftrightarrow> (\<forall>dirs.
     (\<forall>a \<in> {LL_READ_FILE, LL_READ_DIR, LL_REMOVE_FILE}. ll_permits s dirs a \<longleftrightarrow> dl \<in> dirs \<or> cfg \<in> dirs) \<and>
     (\<forall>a \<in> {LL_WRITE_FILE, LL_MAKE_REG}. ll_permits s dirs a \<longleftrightarrow> dl \<in> dirs) \<and>
     (ll_permits s dirs LL_TRUNCATE \<longleftrightarrow> dl \<in> dirs \<or> abi < 3) \<and>
     (\<forall>a \<in> {LL_EXECUTE, LL_REMOVE_DIR, LL_MAKE_CHAR, LL_MAKE_DIR, LL_MAKE_SOCK, LL_MAKE_FIFO, LL_MAKE_BLOCK, LL_MAKE_SYM}.
        \<not> ll_permits s dirs a))"

lemma granted_rules:
  "ll_granted [(dl, a), (cfg, b)] dirs = (if dl \<in> dirs then a else 0) OR (if cfg \<in> dirs then b else 0)"
  by (simp add: ll_granted_def or.commute)

lemma init_confines:
  assumes "ll_domains s = [\<lparr>ld_handled = ll_handled A abi, ld_scoped = sc,
      ld_rules = [(dl, ll_wanted AND ll_handled A abi), (cfg, ll_config_rights)]\<rparr>]"
  shows "confines s cfg dl abi"
proof -
  have p: "ll_permits s dirs a \<longleftrightarrow> a AND ll_handled A abi AND
      NOT ((if dl \<in> dirs then ll_wanted AND ll_handled A abi else 0) OR (if cfg \<in> dirs then ll_config_rights else 0)) = 0" for dirs a
    by (simp add: ll_permits_def assms granted_rules)
  have c: "ll_handled A abi = 0x1FFF \<and> abi < 3 \<or> ll_handled A abi = 0x3FFF \<and> abi < 3 \<or>
      ll_handled A abi = 0x7FFF \<and> \<not> abi < 3 \<or> ll_handled A abi = 0xFFFF \<and> \<not> abi < 3"
  proof -
    consider "abi < 2" | "abi = 2" | "3 \<le> abi" by linarith
    then show ?thesis using handled_cases(2-4) [of abi A] by cases auto
  qed
  show ?thesis
    unfolding confines_def p using c
    by (elim disjE conjE) (auto simp: ll_wanted_def ll_config_rights_def ll_rights)
qed

text \<open>C12. The event loop runs only with the filter of stage 3 in force, and, both directories being open, with file
  access confined: reading, listing and deleting only beneath the download and the configuration directory, writing
  and creating files only beneath the download directory (truncating too, where the kernel can control it), no
  execution and no directories, links or device files anywhere; the descriptor of the rules is closed. The one
  exception is a kernel that knows the interface but has it switched off, when the user allowed it; a kernel that
  does not know it is refused even then.\<close>
theorem loop_files_confined:
  assumes "event_loop_entry B L S cfg dl allow s = (True, s', f)" "0 \<le> cfg" "0 \<le> dl" "ll_domains s = []"
  shows "seccomp_policy_load B S 3 = (NOX_OK, f) \<and> 1 \<le> la_abi L \<and>
    (if la_ruleset L = LL_eopnotsupp then allow \<and> s' = s
     else landlock_is_active s' \<and> confines s' cfg dl (la_abi L) \<and> (\<exists>fd. la_ruleset L = LL_fd fd \<and> ll_closed s' = ll_closed s @ [fd]))"
proof -
  obtain err t where i: "landlock_sandbox_init L cfg dl s = (err, t)" by fastforce
  note e = assms(1) [unfolded event_loop_entry_def i, simplified assms(2,3), simplified]
  have s: "seccomp_policy_load B S 3 = (NOX_OK, f)" "s' = t" "err = NOX_OK \<or> err = NOX_ERR_LANDLOCK_UNSUPPORTED \<and> allow"
    using e by (auto split: if_splits prod.splits)
  show ?thesis
  proof (cases "err = NOX_OK")
    case True
    then obtain fd where "la_ruleset L = LL_fd fd" "1 \<le> la_abi L" "t = s\<lparr>ll_closed := ll_closed s @ [fd], ll_active := True, ll_domains := ll_domains s @
      [\<lparr>ld_handled = ll_handled L (la_abi L), ld_scoped = (la_scope L \<and> la_abi L \<ge> 6),
        ld_rules = [(dl, ll_wanted AND ll_handled L (la_abi L)), (cfg, ll_config_rights)]\<rparr>]\<rparr>" using init_ok i by blast
    moreover from this(3) have "confines t cfg dl (la_abi L)" by (intro init_confines) (simp add: assms(4))
    ultimately show ?thesis using s(1,2) by (simp add: landlock_is_active_def)
  next
    case False
    with s(3) i have "la_ruleset L = LL_eopnotsupp" "1 \<le> la_abi L" "t = s" allow
      by (auto simp: landlock_sandbox_init_def Let_def landlock_abi_version_def split: if_splits ll_ruleset.splits)
    with s show ?thesis by simp
  qed
qed

definition toy_landlock :: ll_answers where
  "toy_landlock = \<lparr>la_abi = 4, la_ioctl_dev = True, la_scope = True, la_ruleset = LL_fd 9, la_add_downloads = True, la_add_config = True,
     la_no_new_privs = True, la_restrict = True\<rparr>"

definition no_landlock :: ll_state where
  "no_landlock = \<lparr>ll_active = False, ll_domains = [], ll_closed = []\<rparr>"

theorem loop_files_confined_witness:
  "\<exists>s' f. event_loop_entry toy_build toy_landlock toy_scmp 3 4 False no_landlock = (True, s', f) \<and> ll_permits s' {4} LL_MAKE_REG \<and>
     \<not> ll_permits s' {3} LL_WRITE_FILE"
proof -
  obtain s' where e: "event_loop_entry toy_build toy_landlock toy_scmp 3 4 False no_landlock = (True, s', Some (toy_filter 3))"
    by (simp add: event_loop_entry_def toy_stage landlock_sandbox_init_def toy_landlock_def Let_def landlock_abi_version_def)
  have "confines s' 3 4 4" using loop_files_confined [OF e] by (simp add: no_landlock_def toy_landlock_def)
  with e show ?thesis by (auto simp: confines_def)
qed

section \<open>The shadow stack\<close>

lemma trigger_enforced: "Lfake \<noteq> caller \<Longrightarrow> nox_cet_trigger Lfake (caller # st) (Some (caller # sh)) = None"
  by (simp add: nox_cet_trigger_def)

lemma trigger_clean: "nox_cet_trigger Lfake (caller # st) None = Some (caller, st, None)"
  by (simp add: nox_cet_trigger_def)

lemma child_exit:
  assumes "Lfake \<noteq> caller"
  shows "cet_child_exit Lfake caller ch = (if \<not> cc_sigaction ch then 104
    else case cc_fault ch of Some code \<Rightarrow> if code = SEGV_CPERR then 101 else 102 | None \<Rightarrow> if cc_shadow ch = None then 100 else 101)"
  using assms trigger_clean [of Lfake caller "[]"] trigger_enforced [OF assms, of "[]"]
  by (auto simp: cet_child_exit_def cet_segv_handler_def split: option.splits)

definition status_lines :: "bytes list \<Rightarrow> bool \<times> bool" where
  "status_lines ls = ((\<exists>l \<in> set ls. take 20 l = str_bytes ''x86_Thread_features:'' \<and> strstr (str_bytes ''shstk'') l \<noteq> None),
     (\<exists>l \<in> set ls. take 27 l = str_bytes ''x86_Thread_features_locked:'' \<and> strstr (str_bytes ''shstk'') l \<noteq> None))"

lemma prefixes_differ: "take 27 l = str_bytes ''x86_Thread_features_locked:'' \<Longrightarrow> take 20 l \<noteq> str_bytes ''x86_Thread_features:''"
proof
  assume a: "take 27 l = str_bytes ''x86_Thread_features_locked:''" "take 20 l = str_bytes ''x86_Thread_features:''"
  moreover have "take 20 l = take 20 (take 27 l)" by simp
  ultimately have "take 20 (str_bytes ''x86_Thread_features_locked:'') = str_bytes ''x86_Thread_features:''" by simp
  then show False by (simp add: str_bytes_def)
qed

lemma proc_lines_fold:
  "fold (\<lambda>line (active_seen, locked_seen).
       if take 20 line = str_bytes ''x86_Thread_features:''
       then (active_seen \<or> strstr (str_bytes ''shstk'') line \<noteq> None, locked_seen)
       else if take 27 line = str_bytes ''x86_Thread_features_locked:''
       then (active_seen, locked_seen \<or> strstr (str_bytes ''shstk'') line \<noteq> None)
       else (active_seen, locked_seen)) ls (a, b) = (a \<or> fst (status_lines ls), b \<or> snd (status_lines ls))"
  by (induction ls arbitrary: a b) (use prefixes_differ in \<open>fastforce simp: status_lines_def\<close>)+

lemma proc_ss_lines_exact: "proc_ss_lines status = map_option status_lines status"
  unfolding proc_ss_lines_def by (simp add: proc_lines_fold)

text \<open>The child that took the trigger was stopped by a control protection fault, or returned from it.\<close>

definition child_stopped :: "cet_child \<Rightarrow> bool" where
  "child_stopped ch \<longleftrightarrow> cc_sigaction ch \<and> (cc_fault ch = Some SEGV_CPERR \<or> cc_fault ch = None \<and> cc_shadow ch \<noteq> None)"

definition child_returned :: "cet_child \<Rightarrow> bool" where
  "child_returned ch \<longleftrightarrow> cc_sigaction ch \<and> cc_fault ch = None \<and> cc_shadow ch = None"

definition child_reaped :: "cet_answers \<Rightarrow> bool" where
  "child_reaped A \<longleftrightarrow> ca_block A \<and> 0 \<le> ca_fork A \<and> ca_unblock A \<and> cet_reap (ca_waits A) = Some (CW_reaped (ca_fork A) False)"

lemma self_test_exact:
  assumes "ca_lfake A \<noteq> ca_caller A"
  shows "cet_self_test A active = Some CET_SS_ENFORCED \<longleftrightarrow> active \<and> child_reaped A \<and> child_stopped (ca_child A)"
    "cet_self_test A active = Some CET_SS_NOT_ENFORCED \<longleftrightarrow> \<not> active \<and> child_reaped A \<and> child_returned (ca_child A)"
    "cet_self_test A active \<noteq> Some CET_SS_UNSUPPORTED"
  by (auto simp: cet_self_test_def child_exit [OF assms] child_reaped_def child_stopped_def child_returned_def Let_def
      split: option.splits cet_wait.splits if_splits)

text \<open>The shadow stack is reported as enforced exactly when the processor has it, the kernel reports it active, it is
  locked (now or already) and listed as active and as locked, and a child that forged a return address was stopped by
  the fault of the processor; it is reported as passive exactly when the kernel reports it inactive and such a child
  returned unharmed; and as unsupported exactly when the processor or the kernel has none.\<close>
theorem cet_verdict_exact:
  assumes "ca_lfake A \<noteq> ca_caller A"
  shows "(cet_ss_lock_and_verify A = Some CET_SS_ENFORCED \<longleftrightarrow>
      ca_cpu A \<and> (\<exists>st. ca_status A = Some st \<and> bit st 0) \<and> ca_lock A \<in> {0, EPERM} \<and>
      (\<exists>ls. ca_proc A = Some ls \<and> status_lines ls = (True, True)) \<and> child_reaped A \<and> child_stopped (ca_child A)) \<and>
    (cet_ss_lock_and_verify A = Some CET_SS_NOT_ENFORCED \<longleftrightarrow>
      ca_cpu A \<and> (\<exists>st. ca_status A = Some st \<and> \<not> bit st 0) \<and> child_reaped A \<and> child_returned (ca_child A)) \<and>
    (cet_ss_lock_and_verify A = Some CET_SS_UNSUPPORTED \<longleftrightarrow> \<not> ca_cpu A \<or> ca_status A = None)"
proof -
  have b: "st AND ARCH_SHSTK_SHSTK \<noteq> 0 \<longleftrightarrow> bit st 0" for st
    using and_exp_eq_0_iff_not_bit [of st 0] by (simp add: ARCH_SHSTK_SHSTK_def)
  show ?thesis
    unfolding cet_ss_lock_and_verify_def Let_def b proc_ss_lines_exact
    by (cases "ca_cpu A"; cases "ca_status A"; cases "ca_proc A"; cases "status_lines (the (ca_proc A))")
       (auto simp: self_test_exact [OF assms])
qed

definition toy_cet :: "cet_child \<Rightarrow> cet_answers" where
  "toy_cet ch = \<lparr>ca_cpu = True, ca_status = Some 1, ca_lock = 0,
     ca_proc = Some [str_bytes ''x86_Thread_features: shstk '', str_bytes ''x86_Thread_features_locked: shstk wrss ''],
     ca_block = True, ca_fork = 77, ca_lfake = 0x1000, ca_caller = 0x2000, ca_child = ch, ca_waits = [CW_eintr, CW_reaped 77 False], ca_unblock = True\<rparr>"

theorem cet_verdict_exact_witness:
  "cet_ss_lock_and_verify (toy_cet \<lparr>cc_sigaction = True, cc_shadow = Some [], cc_fault = None\<rparr>) = Some CET_SS_ENFORCED"
proof -
  let ?A = "toy_cet \<lparr>cc_sigaction = True, cc_shadow = Some [], cc_fault = None\<rparr>"
  have s: "status_lines [str_bytes ''x86_Thread_features: shstk '', str_bytes ''x86_Thread_features_locked: shstk wrss ''] = (True, True)"
    by code_simp
  have n: "ca_lfake ?A \<noteq> ca_caller ?A" by (simp add: toy_cet_def)
  show ?thesis using cet_verdict_exact [OF n] s
    by (simp add: toy_cet_def child_reaped_def child_stopped_def)
qed

end
