(* ===== verification/Nox_Main_Props.thy ===== *)
theory Nox_Main_Props
  imports Nox_Main Nox_Peer_Props Nox_Tor_Props Nox_Control_Props Nox_Landlock_Props
begin

text \<open>
  What the program promises as a whole: the event loop is entered only with a verified Tor and a service
  that matches the own key, every other way out wipes the keys, and \<^verbatim>\<open>cleanup\<close> closes exactly what is open
  and loses no session.
\<close>

section \<open>A pass over the slots\<close>

lemma foldl_slot_pass:
  assumes "\<And>s i. i \<in> set xs \<Longrightarrow> I s \<Longrightarrow> I (f s i) \<and> lg (f s i) = lg s @ g (pr s i) \<and> pr (f s i) i = h (pr s i) \<and>
      (\<forall>j. j \<noteq> i \<longrightarrow> pr (f s i) j = pr s j)"
    and "I s" and "distinct xs"
  shows "I (foldl f s xs) \<and> lg (foldl f s xs) = lg s @ concat (map (\<lambda>i. g (pr s i)) xs) \<and>
    (\<forall>j. pr (foldl f s xs) j = (if j \<in> set xs then h (pr s j) else pr s j))"
  using assms
proof (induction xs arbitrary: s)
  case Nil
  then show ?case by simp
next
  case (Cons i xs)
  have s: "I (f s i)" "lg (f s i) = lg s @ g (pr s i)" "pr (f s i) i = h (pr s i)" "\<And>j. j \<noteq> i \<Longrightarrow> pr (f s i) j = pr s j"
    using Cons.prems(1) [of i s] Cons.prems(2) by auto
  have e: "pr (f s i) j = pr s j" if "j \<in> set xs" for j by (rule s(4)) (use Cons.prems(3) that in auto)
  then have m: "map (\<lambda>j. g (pr (f s i) j)) xs = map (\<lambda>j. g (pr s j)) xs" by simp
  have "I (foldl f (f s i) xs) \<and> lg (foldl f (f s i) xs) = lg (f s i) @ concat (map (\<lambda>j. g (pr (f s i) j)) xs) \<and>
      (\<forall>j. pr (foldl f (f s i) xs) j = (if j \<in> set xs then h (pr (f s i) j) else pr (f s i) j))"
    by (rule Cons.IH) (use Cons.prems s(1) in auto)
  then show ?case unfolding m using s(2-4) e Cons.prems(3) by simp
qed

text \<open>What no step of the pass touches.\<close>

definition frame :: "sys \<Rightarrow> int \<times> int \<times> int \<times> bool \<times> nox_db \<times> bytes option" where
  "frame st = (as_downloads_dir_fd st, as_tor_pid st, as_tor_ctrl_fd st, as_ghost_mode st, io_db st, as_my_onion_seed st)"

lemma frame_simps [simp]:
  "frame (upd_peer i f st) = frame st" "frame (emit e st) = frame st" "frame (close_fd fd st) = frame st"
  "frame (unlink_partial nm st) = frame st" "frame (st\<lparr>as_active_peer_idx := x, as_active_peer_onion := y\<rparr>) = frame st"
  by (simp_all add: frame_def upd_peer_def emit_def close_fd_def unlink_partial_def)

lemma frame_eqD:
  assumes "frame s = frame st"
  shows "as_downloads_dir_fd s = as_downloads_dir_fd st" "as_tor_pid s = as_tor_pid st" "as_tor_ctrl_fd s = as_tor_ctrl_fd st"
    "as_ghost_mode s = as_ghost_mode st" "io_db s = io_db st" "as_my_onion_seed s = as_my_onion_seed st"
  using assms by (simp_all add: frame_def)

text \<open>The files of a slot: the descriptors and the partly received file.\<close>

definition file_log :: "int \<Rightarrow> peer_session \<Rightarrow> effect list" where
  "file_log downloads ps =
     (if tx_active (ps_tx_file ps) \<and> tx_fd (ps_tx_file ps) \<ge> 0 then [E_close (tx_fd (ps_tx_file ps))] else []) @
     (if rx_active (ps_rx_file ps) \<and> rx_fd (ps_rx_file ps) \<ge> 0 then [E_close (rx_fd (ps_rx_file ps))] else []) @
     (if rx_active (ps_rx_file ps) \<and> downloads \<ge> 0 \<and> rx_local_name (ps_rx_file ps) \<noteq> []
      then [E_unlink (rx_local_name (ps_rx_file ps))] else [])"

definition no_files :: "peer_session \<Rightarrow> peer_session" where
  "no_files ps = ps\<lparr>ps_tx_file := (if tx_active (ps_tx_file ps) then zero_tx\<lparr>tx_fd := -1\<rparr> else ps_tx_file ps),
     ps_rx_file := (if rx_active (ps_rx_file ps) then zero_rx\<lparr>rx_fd := -1\<rparr> else ps_rx_file ps)\<rparr>"

lemma no_files_simps [simp]:
  "ps_fd (no_files ps) = ps_fd ps" "ps_state (no_files ps) = ps_state ps" "ps_hs (no_files ps) = ps_hs ps"
  "ps_session (no_files ps) = ps_session ps" "\<not> tx_active (ps_tx_file (no_files ps))" "\<not> rx_active (ps_rx_file (no_files ps))"
  by (simp_all add: no_files_def zero_tx_def zero_rx_def)

lemma cleanup_slot_step:
  assumes "i < length (as_peers s)"
  shows "frame (cleanup_slot i s) = frame s" "length (as_peers (cleanup_slot i s)) = length (as_peers s)"
    "io_log (cleanup_slot i s) = io_log s @ file_log (as_downloads_dir_fd s) (get_peer s i)"
    "get_peer (cleanup_slot i s) i = no_files (get_peer s i)" "j \<noteq> i \<Longrightarrow> get_peer (cleanup_slot i s) j = get_peer s j"
  using assms by (simp_all add: cleanup_slot_def Let_def file_log_def no_files_def)

lemma files_cleanup:
  assumes "length (as_peers st) = NOX_MAX_PEERS"
  shows "(length (as_peers (file_transfer_cleanup st)) = NOX_MAX_PEERS \<and> frame (file_transfer_cleanup st) = frame st) \<and>
    io_log (file_transfer_cleanup st) = io_log st @ concat (map (\<lambda>i. file_log (as_downloads_dir_fd st) (get_peer st i)) [0..<NOX_MAX_PEERS]) \<and>
    (\<forall>i. get_peer (file_transfer_cleanup st) i = (if i \<in> set [0..<NOX_MAX_PEERS] then no_files (get_peer st i) else get_peer st i))"
  unfolding file_transfer_cleanup_def
proof (rule foldl_slot_pass)
  fix s i assume i: "i \<in> set [0..<NOX_MAX_PEERS]" and s: "length (as_peers s) = NOX_MAX_PEERS \<and> frame s = frame st"
  then have "i < length (as_peers s)" "as_downloads_dir_fd s = as_downloads_dir_fd st" using frame_eqD(1) [of s st] by simp_all
  with s show "(length (as_peers (cleanup_slot i s)) = NOX_MAX_PEERS \<and> frame (cleanup_slot i s) = frame st) \<and>
      io_log (cleanup_slot i s) = io_log s @ file_log (as_downloads_dir_fd st) (get_peer s i) \<and>
      get_peer (cleanup_slot i s) i = no_files (get_peer s i) \<and> (\<forall>j. j \<noteq> i \<longrightarrow> get_peer (cleanup_slot i s) j = get_peer s j)"
    by (simp add: cleanup_slot_step)
qed (use assms in simp_all)

section \<open>Closing the slots\<close>

definition closable :: "peer_session \<Rightarrow> bool" where
  "closable ps \<longleftrightarrow> \<not> tx_active (ps_tx_file ps) \<and> \<not> rx_active (ps_rx_file ps) \<and>
     (ps_state ps = ST_IDLE \<longrightarrow> ps_fd ps < 0 \<and> ps_hs ps = None \<and> ps_session ps = None)"

definition socket_log :: "peer_session \<Rightarrow> effect list" where
  "socket_log ps = (if ps_fd ps \<ge> 0 then [E_epoll_del (ps_fd ps), E_close (ps_fd ps)] else [])"

lemma zero_peer_closable [simp]: "closable zero_peer"
  by (simp add: closable_def zero_peer_def init_peer_def zero_rx_def zero_tx_def)

lemma fire_frame:
  assumes "i < length (as_peers s)" "ps_state (get_peer s i) \<noteq> ST_IDLE"
  shows "frame (fire E i EV_PEER_DISCONNECTED s) = frame s"
  using assms by (simp add: fire_def sm_close [OF assms(1) sm_lookup_disconnect [OF assms(2)]] action_cleanup_def Let_def)

lemma cleanup_peer_step:
  assumes "i < length (as_peers s)" "closable (get_peer s i)"
  shows "\<exists>s'. cleanup_peer E (s, n) i = (s', n) \<and> length (as_peers s') = length (as_peers s) \<and> frame s' = frame s \<and>
    io_log s' = io_log s @ socket_log (get_peer s i) \<and> get_peer s' i = zero_peer \<and> (\<forall>j. j \<noteq> i \<longrightarrow> get_peer s' j = get_peer s j)"
proof (cases "ps_fd (get_peer s i) \<ge> 0 \<or> ps_session (get_peer s i) \<noteq> None \<or> ps_hs (get_peer s i) \<noteq> None")
  case False
  with assms(1) show ?thesis by (auto simp: cleanup_peer_def Let_def held_def socket_log_def)
next
  case True
  with assms(2) have ni: "ps_state (get_peer s i) \<noteq> ST_IDLE" by (auto simp: closable_def)
  let ?s = "fire E i EV_PEER_DISCONNECTED s"
  note c = sm_close_peers [OF assms(1) sm_lookup_disconnect [OF ni], where E = E, folded fire_def]
  have "io_log ?s = io_log s @ socket_log (get_peer s i)"
    using assms cleanup_log [of i s] by (simp add: fire_def sm_close [OF assms(1) sm_lookup_disconnect [OF ni]] socket_log_def closable_def)
  with True c(2,4,5) fire_frame [OF assms(1) ni, of E] assms(1) show ?thesis
    by (simp add: cleanup_peer_def Let_def held_def peer_clean_def)
qed

lemma slots_cleanup:
  assumes "length (as_peers st) = NOX_MAX_PEERS" "\<forall>i < NOX_MAX_PEERS. closable (get_peer st i)"
  shows "(length (as_peers (fst (foldl (cleanup_peer E) (st, n) [0..<NOX_MAX_PEERS]))) = NOX_MAX_PEERS \<and>
      frame (fst (foldl (cleanup_peer E) (st, n) [0..<NOX_MAX_PEERS])) = frame st \<and>
      snd (foldl (cleanup_peer E) (st, n) [0..<NOX_MAX_PEERS]) = n \<and>
      (\<forall>i < NOX_MAX_PEERS. closable (get_peer (fst (foldl (cleanup_peer E) (st, n) [0..<NOX_MAX_PEERS])) i))) \<and>
    io_log (fst (foldl (cleanup_peer E) (st, n) [0..<NOX_MAX_PEERS])) =
      io_log (fst (st, n)) @ concat (map (\<lambda>i. socket_log (get_peer (fst (st, n)) i)) [0..<NOX_MAX_PEERS]) \<and>
    (\<forall>i. get_peer (fst (foldl (cleanup_peer E) (st, n) [0..<NOX_MAX_PEERS])) i =
       (if i \<in> set [0..<NOX_MAX_PEERS] then zero_peer else get_peer (fst (st, n)) i))"
proof (rule foldl_slot_pass)
  fix s i
  assume i: "i \<in> set [0..<NOX_MAX_PEERS]" and I: "length (as_peers (fst s)) = NOX_MAX_PEERS \<and> frame (fst s) = frame st \<and> snd s = n \<and>
    (\<forall>i < NOX_MAX_PEERS. closable (get_peer (fst s) i))"
  obtain s' where "cleanup_peer E s i = (s', n)" "length (as_peers s') = length (as_peers (fst s))" "frame s' = frame (fst s)"
    "io_log s' = io_log (fst s) @ socket_log (get_peer (fst s) i)" "get_peer s' i = zero_peer" "\<And>j. j \<noteq> i \<Longrightarrow> get_peer s' j = get_peer (fst s) j"
    using cleanup_peer_step [of i "fst s" E n] i I by (metis (no_types, lifting) atLeastLessThan_iff prod.collapse set_upt)
  with I show "(length (as_peers (fst (cleanup_peer E s i))) = NOX_MAX_PEERS \<and> frame (fst (cleanup_peer E s i)) = frame st \<and>
      snd (cleanup_peer E s i) = n \<and> (\<forall>j < NOX_MAX_PEERS. closable (get_peer (fst (cleanup_peer E s i)) j))) \<and>
    io_log (fst (cleanup_peer E s i)) = io_log (fst s) @ socket_log (get_peer (fst s) i) \<and>
    get_peer (fst (cleanup_peer E s i)) i = zero_peer \<and> (\<forall>j. j \<noteq> i \<longrightarrow> get_peer (fst (cleanup_peer E s i)) j = get_peer (fst s) j)"
    by (metis fst_conv snd_conv zero_peer_closable)
qed (use assms in simp_all)

section \<open>Cleanup as a whole\<close>

definition p_closed :: "proc_effect list \<Rightarrow> int list" where
  "p_closed fx = concat (map (\<lambda>e. case e of P_close fd \<Rightarrow> [fd] | _ \<Rightarrow> []) fx)"

lemma p_closed_simps [simp]:
  "p_closed [] = []" "p_closed (fx @ gx) = p_closed fx @ p_closed gx" "p_closed (p_close fd) = filter (\<lambda>fd. fd \<ge> 0) [fd]"
  "p_closed (p_unlink p) = []" "p_closed (P_close fd # fx) = fd # p_closed fx" "p_closed (P_send fd b # fx) = p_closed fx"
  "p_closed (P_term pid # fx) = p_closed fx" "p_closed (P_kill pid # fx) = p_closed fx" "p_closed (P_reaped pid # fx) = p_closed fx"
  "p_closed (P_unlink p # fx) = p_closed fx" "p_closed (P_unlinkat p # fx) = p_closed fx" "p_closed (P_rm_rf p # fx) = p_closed fx"
  by (simp_all add: p_closed_def p_close_def p_unlink_def)

lemma terminate_effects:
  "p_closed (snd (terminate_and_reap pid ws)) = []"
  "pid > 0 \<Longrightarrow> P_term pid \<in> set (snd (terminate_and_reap pid ws)) \<and>
     (P_reaped pid \<in> set (snd (terminate_and_reap pid ws)) \<or> P_kill pid \<in> set (snd (terminate_and_reap pid ws)))"
  by (cases "reap_polls 50 ws"; cases "fst (reap_polls 50 ws)";
      simp add: terminate_and_reap_def final_wait_def split: list.split wait_ans.split)+

lemma tor_shutdown_effects:
  assumes "tor_shutdown sent ws dir fd t = (t', fx)"
  shows "p_closed fx = filter (\<lambda>fd. fd \<ge> 0) [ts_ctrl_fd t]" "ts_pid t' = (if ts_pid t > 0 then 0 else ts_pid t)" "ts_ctrl_fd t' < 0"
    "ts_listen_fd t' = ts_listen_fd t" "ts_listen_path t' = ts_listen_path t" "ts_socks_path t' = ts_socks_path t"
    "ts_pid t > 0 \<Longrightarrow> P_term (ts_pid t) \<in> set fx \<and> (P_reaped (ts_pid t) \<in> set fx \<or> P_kill (ts_pid t) \<in> set fx)"
    "ts_data_dir t \<noteq> [] \<Longrightarrow> path_under_dir (ts_data_dir t) dir \<Longrightarrow> P_rm_rf (ts_data_dir t) \<in> set fx"
proof -
  note eq = assms [unfolded tor_shutdown_def Let_def, simplified prod.inject, THEN conjunct1, symmetric]
    assms [unfolded tor_shutdown_def Let_def, simplified prod.inject, THEN conjunct2, symmetric]
  show "ts_pid t' = (if ts_pid t > 0 then 0 else ts_pid t)" "ts_ctrl_fd t' < 0"
    "ts_listen_fd t' = ts_listen_fd t" "ts_listen_path t' = ts_listen_path t" "ts_socks_path t' = ts_socks_path t"
    by (simp_all add: eq(1))
  show "p_closed fx = filter (\<lambda>fd. fd \<ge> 0) [ts_ctrl_fd t]" by (simp add: eq(2) terminate_effects)
  show "P_term (ts_pid t) \<in> set fx \<and> (P_reaped (ts_pid t) \<in> set fx \<or> P_kill (ts_pid t) \<in> set fx)" if "ts_pid t > 0"
    using terminate_effects(2) [OF that, of ws] that by (auto simp: eq(2))
  show "P_rm_rf (ts_data_dir t) \<in> set fx" if "ts_data_dir t \<noteq> []" "path_under_dir (ts_data_dir t) dir"
    using that by (auto simp: eq(2))
qed

lemma slot_ok_closable: "slot_ok ps \<Longrightarrow> closable (no_files ps)"
  by (auto simp: closable_def slot_ok_def)

lemma cleanup_effects:
  fixes pg :: prog
  defines "st \<equiv> pg_sys pg"
  assumes ok: "sys_ok st" and "cleanup E sent ws pg = pg'"
  shows "pg_lost pg' = pg_lost pg \<and> as_peers (pg_sys pg') = replicate NOX_MAX_PEERS zero_peer \<and>
    io_log (pg_sys pg') = io_log st @ concat (map (\<lambda>i. file_log (as_downloads_dir_fd st) (get_peer st i)) [0..<NOX_MAX_PEERS]) @
      concat (map (\<lambda>i. socket_log (get_peer st i)) [0..<NOX_MAX_PEERS]) \<and>
    (\<exists>fx. pg_fx pg' = pg_fx pg @ fx \<and>
      p_closed fx = filter (\<lambda>fd. fd \<ge> 0) [as_tor_ctrl_fd st, ts_listen_fd (pg_tor pg), pg_epoll_fd pg, as_downloads_dir_fd st, pg_config_fd pg] \<and>
      (as_tor_pid st > 0 \<longrightarrow> P_term (as_tor_pid st) \<in> set fx \<and> (P_reaped (as_tor_pid st) \<in> set fx \<or> P_kill (as_tor_pid st) \<in> set fx)) \<and>
      (ts_data_dir (pg_tor pg) \<noteq> [] \<and> path_under_dir (ts_data_dir (pg_tor pg)) (pg_config_dir pg) \<longrightarrow>
        P_rm_rf (ts_data_dir (pg_tor pg)) \<in> set fx)) \<and>
    as_tor_pid (pg_sys pg') \<le> 0 \<and> as_tor_ctrl_fd (pg_sys pg') < 0 \<and> ts_listen_fd (pg_tor pg') = -1 \<and> pg_epoll_fd pg' = -1 \<and>
    as_downloads_dir_fd (pg_sys pg') = -1 \<and> pg_config_fd pg' = -1 \<and> pg_keys pg' = no_keys \<and> pg_stdin pg' = None \<and>
    as_my_static_priv (pg_sys pg') = None \<and> as_my_static_pub (pg_sys pg') = None \<and> as_my_onion_seed (pg_sys pg') = None \<and>
    io_db (pg_sys pg') = (if as_ghost_mode st then io_db st else db_close (io_db st))"
proof -
  define s0 where "s0 = (if as_ghost_mode st then st else st\<lparr>io_db := db_close (io_db st)\<rparr>)\<lparr>as_my_onion_seed := None\<rparr>"
  have s0: "length (as_peers s0) = NOX_MAX_PEERS" "get_peer s0 = get_peer st" "io_log s0 = io_log st"
    "as_downloads_dir_fd s0 = as_downloads_dir_fd st" "as_tor_pid s0 = as_tor_pid st" "as_tor_ctrl_fd s0 = as_tor_ctrl_fd st"
    "as_my_onion_seed s0 = None" "io_db s0 = (if as_ghost_mode st then io_db st else db_close (io_db st))"
    using ok by (auto simp: s0_def sys_ok_def get_peer_def [abs_def])
  define s1 where "s1 = file_transfer_cleanup s0"
  note f1 = files_cleanup [OF s0(1), folded s1_def]
  have "\<forall>i < NOX_MAX_PEERS. closable (get_peer s1 i)"
    using f1 ok s0(2) slot_ok_closable by (auto simp: sys_ok_def)
  note f2 = slots_cleanup [OF conjunct1 [OF conjunct1 [OF f1]] this, of E "pg_lost pg"]
  obtain s2 lost where r: "foldl (cleanup_peer E) (s1, pg_lost pg) [0..<NOX_MAX_PEERS] = (s2, lost)" by fastforce
  have s2: "length (as_peers s2) = NOX_MAX_PEERS" "frame s2 = frame s0" "lost = pg_lost pg" "\<And>i. i < NOX_MAX_PEERS \<Longrightarrow> get_peer s2 i = zero_peer"
    "io_log s2 = io_log s1 @ concat (map (\<lambda>i. socket_log (get_peer s1 i)) [0..<NOX_MAX_PEERS])"
    using f1 f2 r by simp_all
  have m: "map (\<lambda>i. socket_log (get_peer s1 i)) [0..<NOX_MAX_PEERS] = map (\<lambda>i. socket_log (get_peer st i)) [0..<NOX_MAX_PEERS]"
    using f1 s0(2) by (auto simp: socket_log_def)
  have lg: "io_log s2 = io_log st @ concat (map (\<lambda>i. file_log (as_downloads_dir_fd st) (get_peer st i)) [0..<NOX_MAX_PEERS]) @
      concat (map (\<lambda>i. socket_log (get_peer st i)) [0..<NOX_MAX_PEERS])"
    unfolding s2(5) m using f1 s0(2-4) by simp
  have pe: "as_peers s2 = replicate NOX_MAX_PEERS zero_peer"
    using s2(1,4) by (auto simp: get_peer_def intro!: nth_equalityI)
  note fr = frame_eqD [OF s2(2), unfolded s0(4-8)]
  obtain t' fx where t: "tor_shutdown sent ws (pg_config_dir pg) (pg_config_fd pg)
      ((pg_tor pg)\<lparr>ts_pid := as_tor_pid st, ts_ctrl_fd := as_tor_ctrl_fd st\<rparr>) = (t', fx)" by fastforce
  note te = tor_shutdown_effects [OF t]
  have eq: "pg' = pg\<lparr>pg_sys := s2\<lparr>as_my_static_priv := None, as_my_static_pub := None, as_tor_pid := ts_pid t', as_tor_ctrl_fd := ts_ctrl_fd t',
        as_downloads_dir_fd := -1\<rparr>, pg_keys := no_keys, pg_tor := t'\<lparr>ts_listen_fd := -1, ts_listen_path := [], ts_socks_path := []\<rparr>,
      pg_epoll_fd := -1, pg_config_fd := -1, pg_stdin := None, pg_fx := pg_fx pg @ fx @ p_close (ts_listen_fd t') @ p_unlink (ts_listen_path t') @
        p_unlink (ts_socks_path t') @ p_close (pg_epoll_fd pg) @ p_close (as_downloads_dir_fd st) @ p_close (pg_config_fd pg), pg_lost := lost\<rparr>"
    using assms(3) r t fr unfolding cleanup_def by (simp add: Let_def s0_def [symmetric] s1_def [symmetric] st_def [symmetric])
  show ?thesis unfolding eq using s2(3) lg pe te fr by auto
qed

text \<open>C7. Shutting down closes exactly what is open and loses nothing. From any state the running program can
  reach, \<open>cleanup\<close> first closes the files of every transfer and removes each partly received file, then
  closes and unregisters the socket of every slot that has one, each exactly once; no slot's session or
  handshake pointer is overwritten while it still holds one, so all of them have been wiped; every slot is
  zeroed; the control channel, the listener, epoll, the downloads and the configuration directory are closed
  once each if they were open; the Tor process has been told to end and reaped or killed, and its data
  directory removed; and no key, seed or input buffer is left.\<close>

theorem cleanup_complete:
  fixes pg :: prog
  defines "st \<equiv> pg_sys pg"
  assumes "as_peers st0 = replicate NOX_MAX_PEERS init_peer" "(loop_step E)\<^sup>*\<^sup>* st0 st" "cleanup E sent ws pg = pg'"
  shows "pg_lost pg' = pg_lost pg \<and> as_peers (pg_sys pg') = replicate NOX_MAX_PEERS zero_peer \<and>
    io_log (pg_sys pg') = io_log st @ concat (map (\<lambda>i. file_log (as_downloads_dir_fd st) (get_peer st i)) [0..<NOX_MAX_PEERS]) @
      concat (map (\<lambda>i. socket_log (get_peer st i)) [0..<NOX_MAX_PEERS]) \<and>
    (\<exists>fx. pg_fx pg' = pg_fx pg @ fx \<and>
      p_closed fx = filter (\<lambda>fd. fd \<ge> 0) [as_tor_ctrl_fd st, ts_listen_fd (pg_tor pg), pg_epoll_fd pg, as_downloads_dir_fd st, pg_config_fd pg] \<and>
      (as_tor_pid st > 0 \<longrightarrow> P_term (as_tor_pid st) \<in> set fx \<and> (P_reaped (as_tor_pid st) \<in> set fx \<or> P_kill (as_tor_pid st) \<in> set fx)) \<and>
      (ts_data_dir (pg_tor pg) \<noteq> [] \<and> path_under_dir (ts_data_dir (pg_tor pg)) (pg_config_dir pg) \<longrightarrow>
        P_rm_rf (ts_data_dir (pg_tor pg)) \<in> set fx)) \<and>
    as_tor_pid (pg_sys pg') \<le> 0 \<and> as_tor_ctrl_fd (pg_sys pg') < 0 \<and> ts_listen_fd (pg_tor pg') = -1 \<and> pg_epoll_fd pg' = -1 \<and>
    as_downloads_dir_fd (pg_sys pg') = -1 \<and> pg_config_fd pg' = -1 \<and> pg_keys pg' = no_keys \<and> pg_stdin pg' = None \<and>
    as_my_static_priv (pg_sys pg') = None \<and> as_my_static_pub (pg_sys pg') = None \<and> as_my_onion_seed (pg_sys pg') = None \<and>
    (\<not> as_ghost_mode st \<longrightarrow> db_key (io_db (pg_sys pg')) = None \<and> \<not> db_ready (io_db (pg_sys pg')))"
proof -
  have "sys_ok (pg_sys pg)" using reachable_ok [OF assms(2,3)] by (simp add: st_def)
  from cleanup_effects [OF this assms(4)] show ?thesis unfolding st_def by (elim conjE) (simp add: db_close_def)
qed

definition open_tor :: tor_state where
  "open_tor = \<lparr>ts_pid = 0, ts_ctrl_fd = -1, ts_data_dir = [], ts_torrc_path = [], ts_socks_path = [], ts_listen_path = [], ts_listen_fd = 8\<rparr>"

definition toy_prog :: "sys \<Rightarrow> prog" where
  "toy_prog st = \<lparr>pg_sys = st, pg_keys = no_keys\<lparr>kr_master := Some (zeros 32), kr_db := Some (zeros 32)\<rparr>, pg_tor = open_tor,
     pg_epoll_fd = 5, pg_watched = [0, 8], pg_config_fd = 3, pg_config_dir = [47], pg_stdin = Some [97], pg_stage2 = Some [], pg_fx = [], pg_lost = 0\<rparr>"

theorem cleanup_complete_witness:
  "socket_log (get_peer (accept_peer toy_env 9 True toy_sys) 0) = [E_epoll_del 9, E_close 9] \<and>
   pg_lost (cleanup toy_env [] [] (toy_prog (accept_peer toy_env 9 True toy_sys))) = 0 \<and>
   as_peers (pg_sys (cleanup toy_env [] [] (toy_prog (accept_peer toy_env 9 True toy_sys)))) = replicate 16 zero_peer \<and>
   io_log (pg_sys (cleanup toy_env [] [] (toy_prog (accept_peer toy_env 9 True toy_sys)))) =
     io_log (accept_peer toy_env 9 True toy_sys) @ [E_epoll_del 9, E_close 9]"
proof -
  let ?st = "accept_peer toy_env 9 True toy_sys"
  have p: "as_peers toy_sys = replicate NOX_MAX_PEERS init_peer" by (simp add: toy_sys_def)
  have s: "(loop_step toy_env)\<^sup>*\<^sup>* toy_sys (pg_sys (toy_prog ?st))" unfolding toy_prog_def by (simp add: r_into_rtranclp Accept)
  have "socket_log (get_peer ?st 0) = [E_epoll_del 9, E_close 9]"
    "concat (map (\<lambda>i. file_log (as_downloads_dir_fd ?st) (get_peer ?st i)) [0..<NOX_MAX_PEERS]) = []"
    "concat (map (\<lambda>i. socket_log (get_peer ?st i)) [0..<NOX_MAX_PEERS]) = [E_epoll_del 9, E_close 9]" by code_simp+
  moreover have "pg_sys (toy_prog ?st) = ?st" "pg_lost (toy_prog ?st) = 0" by (simp_all add: toy_prog_def)
  ultimately show ?thesis
    using cleanup_complete [OF p s refl, of "[]" "[]"] by (simp add: NOX_MAX_PEERS_def del: upt.simps upt_Suc)
qed

section \<open>Entering the event loop\<close>

lemma leave_not_loop [simp]: "leave E I c pg \<noteq> Some (None, pg')" "leave_failed E I k pg \<noteq> Some (None, pg')"
  by (simp_all add: leave_def leave_failed_def)

lemma tor_spawn_ok:
  assumes "tor_spawn A dir transport bridge t = Some (NOX_OK, t', fx)"
  shows "ts_pid t' = sp_fork A" "ts_ctrl_fd t' = sp_ctrl_fd A" "tor_verify_peer (ta_uid (sp_torrc A)) (sp_fork A) (sp_cred A) = NOX_OK"
    "0 \<le> sp_ctrl_fd A" "ts_listen_fd t' = ts_listen_fd t"
  using assms by (auto simp: tor_spawn_def Let_def split: option.splits prod.splits if_splits)

lemma main_onion_ok:
  assumes "main_onion C T I io pg = Some (None, pg')" and "as_ghost_mode (pg_sys pg) \<longrightarrow> kr_master (pg_keys pg) = None"
  shows "pg_tor pg' = pg_tor pg" "pg_stage2 pg' = pg_stage2 pg" "kr_master (pg_keys pg') = None" "kr_db (pg_keys pg') = kr_db (pg_keys pg)"
    "as_peers (pg_sys pg') = as_peers (pg_sys pg)" "io_db (pg_sys pg') = io_db (pg_sys pg)" "as_tor_pid (pg_sys pg') = as_tor_pid (pg_sys pg)"
    "as_tor_ctrl_fd (pg_sys pg') = as_tor_ctrl_fd (pg_sys pg)" "pg_fx pg' = pg_fx pg"
  using assms by (auto simp: main_onion_def Let_def split: if_splits option.splits prod.splits nox_err_t.splits)

lemma listener_ok:
  assumes "listener_create A t = (NOX_OK, t', fx)"
  shows "ts_pid t' = ts_pid t" "ts_ctrl_fd t' = ts_ctrl_fd t" "0 \<le> ts_listen_fd t'"
  using assms by (auto simp: listener_create_def Let_def split: if_splits)

lemma epoll_ok:
  assumes "epoll_setup efd a b fd = (NOX_OK, e, watched, fx)" "0 \<le> fd"
  shows "e = efd" "0 \<le> efd" "watched = [0, fd]" "fx = []"
  using assms by (auto simp: epoll_setup_def epoll_add_fd_def split: if_splits)

lemma main_service_ok:
  assumes "main_service E T I io pg = Some (None, pg')" and g: "as_ghost_mode (pg_sys pg) \<longrightarrow> kr_master (pg_keys pg) = None"
  obtains seed where "as_my_onion_seed (pg_sys pg') = Some seed" "seed_matches (ne_onion E) T seed (as_onion_addr (pg_sys pg'))"
    "kr_master (pg_keys pg') = None" "kr_db (pg_keys pg') = kr_db (pg_keys pg)" "pg_stage2 pg' = pg_stage2 pg"
    "as_peers (pg_sys pg') = as_peers (pg_sys pg)" "io_db (pg_sys pg') = io_db (pg_sys pg)" "as_tor_pid (pg_sys pg') = ts_pid (pg_tor pg)"
    "as_tor_ctrl_fd (pg_sys pg') = ts_ctrl_fd (pg_tor pg)" "0 \<le> pg_epoll_fd pg'" "0 \<le> ts_listen_fd (pg_tor pg')"
    "pg_watched pg' = [0, ts_listen_fd (pg_tor pg')]" "\<not> ni_down I 13"
proof -
  obtain err t fx where l: "listener_create (ni_listen I) (pg_tor pg) = (err, t, fx)" by (metis prod_cases3)
  define pg1 where "pg1 = with_tor t fx pg"
  from assms(1) l have l': "err = NOX_OK" by (auto simp: main_service_def Let_def split: if_splits)
  from assms(1) l obtain pg2 where o: "main_onion (ne_onion E) T I io pg1 = Some (None, pg2)"
    by (auto simp: main_service_def Let_def pg1_def [symmetric] split: if_splits option.splits prod.splits)
  obtain err2 efd watched gx where e: "epoll_setup (ni_efd I) (ni_ep_stdin I) (ni_ep_listen I) (ts_listen_fd (pg_tor pg2)) = (err2, efd, watched, gx)"
    by (metis prod_cases4)
  from assms(1) l o e obtain seed where r: "as_my_onion_seed (pg_sys pg2) = Some seed" "seed_matches (ne_onion E) T seed (as_onion_addr (pg_sys pg2))"
      "err2 = NOX_OK" "\<not> ni_down I 13" "pg' = pg2\<lparr>pg_epoll_fd := efd, pg_watched := watched, pg_fx := pg_fx pg2 @ gx\<rparr>"
    by (auto simp: main_service_def Let_def pg1_def [symmetric] split: if_splits option.splits)
  have "as_ghost_mode (pg_sys pg1) \<longrightarrow> kr_master (pg_keys pg1) = None" using g by (simp add: pg1_def with_tor_def)
  note m = main_onion_ok [OF o this]
  note li = listener_ok [OF l [unfolded l']]
  have "0 \<le> ts_listen_fd (pg_tor pg2)" using m(1) li by (simp add: pg1_def with_tor_def)
  note ep = epoll_ok [OF e [unfolded r(3)] this]
  show thesis
    by (rule that [of seed]) (use r m li ep \<open>0 \<le> ts_listen_fd (pg_tor pg2)\<close> in \<open>simp_all add: pg1_def with_tor_def\<close>)
qed

text \<open>C6. The event loop is entered only with a verified service. When the steps after the keys end in the event
  loop, no shutdown was requested at any check on the way; the control channel is connected to the started
  Tor process of the same user; the second system-call filter is loaded; the public key of the own seed is
  the key in the own onion address, which is well formed, so the claims the program signs can be verified;
  the master key has been wiped; the database is open under the database key (or was never touched, in ghost
  mode); standard input and the listening socket are watched; and the slots are those of the start, from
  which the invariant of the loop holds.\<close>

theorem loop_entered_verified:
  assumes "main_network E T I pg = Some (None, pg')"
    and "as_ghost_mode (pg_sys pg) \<longrightarrow> kr_master (pg_keys pg) = None"
  shows "(\<exists>seed pub sk. as_my_onion_seed (pg_sys pg') = Some seed \<and> oc_seed_keypair (ne_onion E) seed = Some (pub, sk) \<and>
      crypto_onion_pubkey (ne_onion E) (as_onion_addr (pg_sys pg')) = (NOX_OK, pub)) \<and>
    kr_master (pg_keys pg') = None \<and>
    seccomp_policy_load (ni_build I) (ni_stage2 I) 2 = (NOX_OK, pg_stage2 pg') \<and>
    (\<exists>c. sp_cred (ni_spawn I) = Some c \<and> pc_pid c = as_tor_pid (pg_sys pg') \<and> pc_uid c = ta_uid (sp_torrc (ni_spawn I))) \<and>
    0 \<le> as_tor_ctrl_fd (pg_sys pg') \<and> as_tor_ctrl_fd (pg_sys pg') = sp_ctrl_fd (ni_spawn I) \<and>
    0 \<le> pg_epoll_fd pg' \<and> 0 \<le> ts_listen_fd (pg_tor pg') \<and> pg_watched pg' = [0, ts_listen_fd (pg_tor pg')] \<and>
    as_peers (pg_sys pg') = as_peers (pg_sys pg) \<and>
    (if as_ghost_mode (pg_sys pg) then io_db (pg_sys pg') = io_db (pg_sys pg)
     else \<exists>key. kr_db (pg_keys pg) = Some key \<and> io_db (pg_sys pg') = (io_db (pg_sys pg))\<lparr>db_key := Some key, db_ready := True\<rparr>) \<and>
    (\<forall>k \<in> {0, 2, 3, 5, 7, 13}. \<not> ni_down I k)"
proof -
  obtain tr br rest where tr: "prompt_transport_selection [] (ni_tty I) (ni_input I) = (tr, br, rest)" by (metis prod_cases3)
  obtain err db fx where db: "(if as_ghost_mode (pg_sys pg) then (NOX_OK, io_db (pg_sys pg), [])
      else db_init (ni_db I) (Some (pg_config_dir pg)) (pg_config_fd pg) (kr_db (pg_keys pg)) (io_db (pg_sys pg))) = (err, db, fx)"
    by (metis prod_cases3)
  define pg1 where "pg1 = pg\<lparr>pg_sys := (pg_sys pg)\<lparr>io_db := db\<rparr>\<rparr>"
  note eq = assms(1) [unfolded main_network_def tr db prod.case Let_def, folded pg1_def]
  from eq have d0: "\<not> ni_down I 0" "err = NOX_OK" by (auto split: if_splits)
  from eq d0 obtain t gx where sp: "tor_spawn (ni_spawn I) (pg_config_dir pg) tr br (pg_tor pg) = Some (NOX_OK, t, gx)"
    by (auto simp: pg1_def split: if_splits option.splits)
  define pg2 where "pg2 = (with_tor t gx pg1)\<lparr>pg_stage2 := snd (seccomp_policy_load (ni_build I) (ni_stage2 I) 2)\<rparr>"
  from eq d0 sp obtain io where s: "main_service E T I io pg2 = Some (None, pg')"
      and d: "\<not> ni_down I 2" "\<not> ni_down I 3" "\<not> ni_down I 5" "\<not> ni_down I 7"
      and f2: "fst (seccomp_policy_load (ni_build I) (ni_stage2 I) 2) = NOX_OK"
    by (auto simp: pg1_def pg2_def with_tor_def split: if_splits option.splits)
  have "as_ghost_mode (pg_sys pg2) \<longrightarrow> kr_master (pg_keys pg2) = None" using assms(2) by (simp add: pg2_def pg1_def with_tor_def)
  from s this obtain seed where m: "as_my_onion_seed (pg_sys pg') = Some seed" "seed_matches (ne_onion E) T seed (as_onion_addr (pg_sys pg'))"
    "kr_master (pg_keys pg') = None" "kr_db (pg_keys pg') = kr_db (pg_keys pg2)" "pg_stage2 pg' = pg_stage2 pg2"
    "as_peers (pg_sys pg') = as_peers (pg_sys pg2)" "io_db (pg_sys pg') = io_db (pg_sys pg2)" "as_tor_pid (pg_sys pg') = ts_pid (pg_tor pg2)"
    "as_tor_ctrl_fd (pg_sys pg') = ts_ctrl_fd (pg_tor pg2)" "0 \<le> pg_epoll_fd pg'" "0 \<le> ts_listen_fd (pg_tor pg')"
    "pg_watched pg' = [0, ts_listen_fd (pg_tor pg')]" "\<not> ni_down I 13" by (rule main_service_ok)
  from m(2) obtain pub sk where k: "oc_seed_keypair (ne_onion E) seed = Some (pub, sk)"
      "crypto_onion_pubkey (ne_onion E) (as_onion_addr (pg_sys pg')) = (NOX_OK, pub)"
    by (auto simp: seed_matches_def derive_tor_expanded_key_def Let_def split: option.splits prod.splits)
  note ts = tor_spawn_ok [OF sp]
  from ts(3) obtain c where c: "sp_cred (ni_spawn I) = Some c" "pc_pid c = sp_fork (ni_spawn I)" "pc_uid c = ta_uid (sp_torrc (ni_spawn I))"
    by (auto simp: tor_verify_peer_def split: option.splits if_splits)
  have "if as_ghost_mode (pg_sys pg) then db = io_db (pg_sys pg)
      else \<exists>key. kr_db (pg_keys pg) = Some key \<and> db = (io_db (pg_sys pg))\<lparr>db_key := Some key, db_ready := True\<rparr>"
    using db d0(2) by (auto simp: db_init_def Let_def split: if_splits option.splits prod.splits)
  with m k c ts d d0(1) f2 show ?thesis by (auto simp: pg2_def pg1_def with_tor_def prod_eq_iff)
qed

definition toy_good_spawn :: spawn_answers where
  "toy_good_spawn = (let c = Some \<lparr>pc_len_ok = True, pc_pid = 99, pc_uid = 1000\<rparr> in
     \<lparr>sp_torrc = toy_torrc, sp_fork = 99,
      sp_probes = [\<lparr>pr_shutdown = False, pr_died = False, pr_wait = W_running, pr_socket = 6, pr_connect = True, pr_cred = c\<rparr>],
      sp_ctrl_fd = 6, sp_connects = [(False, False), (False, True)], sp_cred = c, sp_waits = []\<rparr>)"

lemma toy_stage2: "fst (seccomp_policy_load toy_build toy_scmp 2) = NOX_OK"
  by (simp add: toy_stage)

definition toy_net :: "(nat \<Rightarrow> bool) \<Rightarrow> net_inputs" where
  "toy_net down = \<lparr>ni_down = down, ni_tty = None, ni_input = [79, 10, 120, 121, 10], ni_db = toy_open, ni_spawn = toy_good_spawn, ni_build = toy_build, ni_stage2 = toy_scmp,
     ni_cookie = \<lparr>ck_fd = 7, ck_size = Some 32, ck_reads = [(5, Poll_ready, R_data (zeros 32))]\<rparr>,
     ni_ctrl = \<lparr>ct_writes = [W_ok 200, W_ok 200, W_ok 200], ct_clock = [5, 5, 5, 5, 5],
       ct_rounds = ready (str_bytes ''250 OK'' @ CRLF @ str_bytes ''250-PROGRESS=100'' @ CRLF @ str_bytes ''250 OK'' @ CRLF @
         str_bytes ''250-ServiceID='' @ take 56 demo_addr @ CRLF @ str_bytes ''250 OK'' @ CRLF), ct_sent = [], ct_log = []\<rparr>,
     ni_boot = [], ni_listen = \<lparr>la_socket = 8, la_bind = True, la_listen = True\<rparr>, ni_heap = [], ni_seed = [], ni_efd = 9,
     ni_ep_stdin = Ep_ok, ni_ep_listen = Ep_ok, ni_sent = [], ni_waits = []\<rparr>"

definition toy_begin :: prog where
  "toy_begin = \<lparr>pg_sys = toy_sys\<lparr>as_my_onion_seed := None, as_tor_pid := 0, as_tor_ctrl_fd := -1, io_db := db_close toy_db\<rparr>,
     pg_keys = no_keys\<lparr>kr_master := Some (zeros 32), kr_db := Some (zeros 32)\<rparr>, pg_tor = tor_idle, pg_epoll_fd = -1, pg_watched = [],
     pg_config_fd = 3, pg_config_dir = [47, 99], pg_stdin = None, pg_stage2 = None, pg_fx = [], pg_lost = 0\<rparr>"

definition toy_dir :: bytes where
  "toy_dir = [47, 99] @ str_bytes ''/'' @ TOR_DATA @ [55, 55]"

definition toy_running :: "bytes \<Rightarrow> tor_state" where
  "toy_running path = tor_idle\<lparr>ts_pid := 99, ts_ctrl_fd := 6, ts_data_dir := toy_dir, ts_torrc_path := path,
     ts_socks_path := toy_dir @ str_bytes ''/socks.sock''\<rparr>"

lemma toy_good_spawn_ok:
  obtains path fx where "tor_spawn toy_good_spawn [47, 99] TRANSPORT_OBFS4 [120, 121] tor_idle = Some (NOX_OK, toy_running path, fx)"
proof -
  obtain path gx where g: "generate_torrc toy_torrc [47, 99] TRANSPORT_OBFS4 [120, 121] = Some (NOX_OK, toy_dir, path, gx)"
    unfolding toy_dir_def by (rule toy_torrc_ok)
  have l: "length toy_dir = 14" by (simp add: toy_dir_def str_bytes_def TOR_DATA_def)
  have u: "ta_uid toy_torrc = 1000" by (simp add: toy_torrc_def)
  show thesis
    by (rule that [of path "gx @ [P_unlink (toy_dir @ str_bytes ''/control.sock'')] @ [P_socket 6, P_close 6] @ [P_socket 6]"])
       (simp add: tor_spawn_def toy_good_spawn_def Let_def g l u toy_running_def tor_idle_def str_bytes_def NOX_PATH_MAX_def SUN_PATH_LEN_def
          snprintf_path_def tor_verify_peer_def NOX_CTRL_SOCK_WAIT_SEC_def NOX_CTRL_CONNECT_RETRIES_def numeral_eq_Suc)
qed

text \<open>The control channel after the answers to the first and to the first two commands.\<close>

definition toy_auth :: ctrl_io where
  "toy_auth = the (map_option snd (tor_authenticate (ni_cookie (toy_net (\<lambda>_. False))) toy_dir (ni_ctrl (toy_net (\<lambda>_. False)))))"

definition toy_boot :: ctrl_io where
  "toy_boot = the (map_option snd (tor_wait_bootstrap 120 [] toy_auth))"

lemma map_option_pair: "map_option fst m = Some a \<Longrightarrow> m = Some (a, the (map_option snd m))"
  by (cases m) auto

lemma toy_control:
  "tor_authenticate (ni_cookie (toy_net down)) toy_dir (ni_ctrl (toy_net down)) = Some (NOX_OK, toy_auth)"
  "tor_wait_bootstrap 120 [] toy_auth = Some (NOX_OK, toy_boot)"
proof -
  have "map_option fst (tor_authenticate (ni_cookie (toy_net (\<lambda>_. False))) toy_dir (ni_ctrl (toy_net (\<lambda>_. False)))) = Some NOX_OK" by code_simp
  from map_option_pair [OF this]
  show "tor_authenticate (ni_cookie (toy_net down)) toy_dir (ni_ctrl (toy_net down)) = Some (NOX_OK, toy_auth)"
    unfolding toy_auth_def by (simp add: toy_net_def)
  have "map_option fst (tor_wait_bootstrap 120 [] toy_auth) = Some NOX_OK" by code_simp
  from map_option_pair [OF this] show "tor_wait_bootstrap 120 [] toy_auth = Some (NOX_OK, toy_boot)" by (simp add: toy_boot_def)
qed

lemma toy_onion_up:
  "map_option (\<lambda>(e, a, _). (e, a)) (tor_create_derived_hs toy_onion toy_tor (zeros 32) (toy_dir @ str_bytes ''/listen.sock'') 63 toy_boot) =
     Some (NOX_OK, demo_addr)"
  by code_simp

lemma toy_reaches:
  assumes "\<not> down 0" "\<not> down 2" "\<not> down 3" "\<not> down 5"
  shows "\<exists>path fx. main_network toy_env toy_tor (toy_net down) toy_begin =
    (let pg = (with_tor (toy_running path) fx (toy_begin\<lparr>pg_sys := (pg_sys toy_begin)\<lparr>io_db := toy_db\<rparr>\<rparr>))\<lparr>pg_stage2 := snd (seccomp_policy_load toy_build toy_scmp 2)\<rparr> in
     if down 7 then leave toy_env (toy_net down) 0 pg else main_service toy_env toy_tor (toy_net down) toy_boot pg)"
proof -
  obtain path fx where sp: "tor_spawn toy_good_spawn [47, 99] TRANSPORT_OBFS4 [120, 121] tor_idle = Some (NOX_OK, toy_running path, fx)"
    by (rule toy_good_spawn_ok)
  have p: "prompt_transport_selection [] None [79, 10, 120, 121, 10] = (TRANSPORT_OBFS4, [120, 121], None, [])" by code_simp
  have "map_prod id fst (db_init toy_open (Some [47, 99]) 3 (Some (zeros 32)) (db_close toy_db)) = (NOX_OK, toy_db)" by code_simp
  then obtain gx where d: "db_init toy_open (Some [47, 99]) 3 (Some (zeros 32)) (db_close toy_db) = (NOX_OK, toy_db, gx)"
    by (cases "db_init toy_open (Some [47, 99]) 3 (Some (zeros 32)) (db_close toy_db)") auto
  have c: "tor_authenticate (ni_cookie (toy_net down)) toy_dir (ni_ctrl (toy_net down)) = Some (NOX_OK, toy_auth)" by (rule toy_control)
  have n: "ni_tty (toy_net down) = None" "ni_input (toy_net down) = [79, 10, 120, 121, 10]" "ni_db (toy_net down) = toy_open"
    "ni_spawn (toy_net down) = toy_good_spawn" "ni_build (toy_net down) = toy_build" "ni_stage2 (toy_net down) = toy_scmp" "ni_boot (toy_net down) = []" "ni_down (toy_net down) = down"
    by (simp_all add: toy_net_def)
  have b: "as_ghost_mode (pg_sys toy_begin) = False" "pg_config_dir toy_begin = [47, 99]" "pg_config_fd toy_begin = 3"
    "kr_db (pg_keys toy_begin) = Some (zeros 32)" "io_db (pg_sys toy_begin) = db_close toy_db" "pg_tor toy_begin = tor_idle"
    by (simp_all add: toy_begin_def toy_sys_def)
  have r: "ts_data_dir (toy_running path) = toy_dir" by (simp add: toy_running_def)
  show ?thesis
    by (rule exI [of _ path], rule exI [of _ fx])
       (simp add: main_network_def n p b d sp r c toy_control(2) toy_stage2 assms Let_def)
qed

theorem loop_entered_verified_witness:
  "\<exists>pg'. main_network toy_env toy_tor (toy_net (\<lambda>_. False)) toy_begin = Some (None, pg') \<and>
     crypto_onion_pubkey toy_onion (as_onion_addr (pg_sys pg')) = (NOX_OK, zeros 32) \<and> kr_master (pg_keys pg') = None \<and> pg_watched pg' = [0, 8]"
proof -
  let ?I = "toy_net (\<lambda>_. False)"
  obtain path fx where m: "main_network toy_env toy_tor ?I toy_begin = main_service toy_env toy_tor ?I toy_boot
      ((with_tor (toy_running path) fx (toy_begin\<lparr>pg_sys := (pg_sys toy_begin)\<lparr>io_db := toy_db\<rparr>\<rparr>))\<lparr>pg_stage2 := snd (seccomp_policy_load toy_build toy_scmp 2)\<rparr>)"
    using toy_reaches [of "\<lambda>_. False"] by (auto simp: Let_def)
  obtain io where o: "tor_create_derived_hs toy_onion toy_tor (zeros 32) (toy_dir @ str_bytes ''/listen.sock'') 63 toy_boot = Some (NOX_OK, demo_addr, io)"
    using toy_onion_up by auto
  have s: "seed_matches toy_onion toy_tor (zeros 32) demo_addr" by code_simp
  have l: "length toy_dir = 14" by (simp add: toy_dir_def str_bytes_def TOR_DATA_def)
  have k: "crypto_derive_onion_seed toy_tor (zeros 32) = (NOX_OK, zeros 32)" by code_simp
  have "\<exists>pg'. main_network toy_env toy_tor ?I toy_begin = Some (None, pg') \<and> as_my_onion_seed (pg_sys pg') = Some (zeros 32) \<and> ts_listen_fd (pg_tor pg') = 8"
    unfolding m
    by (simp add: main_service_def toy_net_def listener_create_def Let_def with_tor_def toy_running_def l str_bytes_def NOX_PATH_MAX_def SUN_PATH_LEN_def
        snprintf_path_def main_onion_def toy_begin_def toy_sys_def toy_env_def no_keys_def k o [unfolded str_bytes_def, simplified] NOX_ONION_LEN_def s
        epoll_setup_def epoll_add_fd_def)
  then obtain pg' where r: "main_network toy_env toy_tor ?I toy_begin = Some (None, pg')" "as_my_onion_seed (pg_sys pg') = Some (zeros 32)"
    "ts_listen_fd (pg_tor pg') = 8" by blast
  with loop_entered_verified [OF r(1)] show ?thesis by (auto simp: toy_begin_def toy_sys_def toy_env_def toy_onion_def)
qed

section \<open>Every other way out\<close>

definition gone :: "prog \<Rightarrow> bool" where
  "gone pg \<longleftrightarrow> pg_keys pg = no_keys \<and> as_my_static_priv (pg_sys pg) = None \<and> as_my_static_pub (pg_sys pg) = None \<and>
     as_my_onion_seed (pg_sys pg) = None \<and> db_key (io_db (pg_sys pg)) = None \<and> \<not> db_ready (io_db (pg_sys pg))"

text \<open>A program before its event loop.\<close>

definition starting :: "prog \<Rightarrow> bool" where
  "starting pg \<longleftrightarrow> as_peers (pg_sys pg) = replicate NOX_MAX_PEERS init_peer \<and>
     (as_ghost_mode (pg_sys pg) \<longrightarrow> db_key (io_db (pg_sys pg)) = None \<and> \<not> db_ready (io_db (pg_sys pg)))"

definition exits_wiped :: "net_inputs \<Rightarrow> nat \<Rightarrow> (int option \<times> prog) option \<Rightarrow> bool" where
  "exits_wiped I n r \<longleftrightarrow> (\<forall>code pg'. r = Some (Some code, pg') \<longrightarrow> gone pg' \<and> pg_lost pg' = n \<and>
     (code = 0 \<and> (\<exists>k. ni_down I k) \<or> code = 1))"

lemma exits_wiped_simps [simp]: "exits_wiped I n None" "exits_wiped I n (Some (None, pg))"
  by (simp_all add: exits_wiped_def)

lemma starting_updates [simp]:
  "starting (with_tor t fx pg) = starting pg" "starting (pg\<lparr>pg_stage2 := b\<rparr>) = starting pg"
  "starting (pg\<lparr>pg_epoll_fd := e, pg_watched := w, pg_fx := fx\<rparr>) = starting pg"
  "pg_lost (with_tor t fx pg) = pg_lost pg"
  by (simp_all add: starting_def with_tor_def)

lemma leave_wiped:
  assumes "starting pg" "code = 0 \<and> (\<exists>k. ni_down I k) \<or> code = 1"
  shows "exits_wiped I (pg_lost pg) (leave E I code pg)"
proof -
  have "sys_ok (pg_sys pg)" using reachable_ok [of "pg_sys pg" undefined] assms(1) by (simp add: starting_def)
  from cleanup_effects [OF this refl, of E "ni_sent I" "ni_waits I"] assms show ?thesis
    by (simp add: exits_wiped_def leave_def gone_def starting_def db_close_def)
qed

lemma leave_failed_wiped: "starting pg \<Longrightarrow> exits_wiped I (pg_lost pg) (leave_failed E I k pg)"
  unfolding leave_failed_def by (rule leave_wiped) auto

lemma exits_leaving:
  assumes "starting q" "pg_lost q = n"
  shows "exits_wiped I n (leave_failed E I k q)" "exits_wiped I n (leave E I 1 q)" "ni_down I k \<Longrightarrow> exits_wiped I n (leave E I 0 q)"
  using leave_failed_wiped [OF assms(1), of I E k] leave_wiped [OF assms(1), of _ I E] assms(2) by auto

lemma exits_split:
  "(c \<Longrightarrow> exits_wiped I n a) \<Longrightarrow> (\<not> c \<Longrightarrow> exits_wiped I n b) \<Longrightarrow> exits_wiped I n (if c then a else b)"
  "(\<And>x. m = Some x \<Longrightarrow> exits_wiped I n (f x)) \<Longrightarrow> exits_wiped I n (case m of None \<Rightarrow> None | Some x \<Rightarrow> f x)"
  "(\<And>x y. p = (x, y) \<Longrightarrow> exits_wiped I n (g x y)) \<Longrightarrow> exits_wiped I n (case p of (x, y) \<Rightarrow> g x y)"
  by (simp_all split: option.split prod.split)

lemma main_onion_starting:
  assumes "main_onion C T I io pg = Some (k, pg')" "starting pg"
  shows "starting pg'" "pg_lost pg' = pg_lost pg"
  using assms by (auto simp: main_onion_def Let_def starting_def split: if_splits option.splits prod.splits nox_err_t.splits)

lemma main_service_wiped:
  assumes "starting pg"
  shows "exits_wiped I (pg_lost pg) (main_service E T I io pg)"
proof -
  obtain err t fx where l: "listener_create (ni_listen I) (pg_tor pg) = (err, t, fx)" by (metis prod_cases3)
  define pg1 where "pg1 = with_tor t fx pg"
  have pg1: "starting pg1" "pg_lost pg1 = pg_lost pg" using assms by (simp_all add: pg1_def)
  show ?thesis
  proof (cases "main_onion (ne_onion E) T I io pg1")
    case None
    then show ?thesis
      unfolding main_service_def l prod.case Let_def pg1_def [symmetric]
      by (auto intro!: exits_split exits_leaving simp: pg1)
  next
    case (Some r)
    obtain k pg2 where r: "r = (k, pg2)" by fastforce
    have pg2: "starting pg2" "pg_lost pg2 = pg_lost pg" using main_onion_starting [of "ne_onion E" T I io pg1 k pg2] Some r pg1 by auto
    obtain err2 efd w gx where e: "epoll_setup (ni_efd I) (ni_ep_stdin I) (ni_ep_listen I) (ts_listen_fd (pg_tor pg2)) = (err2, efd, w, gx)"
      by (metis prod_cases4)
    define pg3 where "pg3 = pg2\<lparr>pg_epoll_fd := efd, pg_watched := w, pg_fx := pg_fx pg2 @ gx\<rparr>"
    have pg3: "starting pg3" "pg_lost pg3 = pg_lost pg" using pg2 by (simp_all add: pg3_def)
    show ?thesis
      unfolding main_service_def l prod.case Let_def pg1_def [symmetric] Some r option.case e pg3_def [symmetric]
      by (cases k) (auto intro!: exits_split exits_leaving simp: pg1 pg2 pg3)
  qed
qed

text \<open>C10. Every other way out of the start wipes the keys. If the steps after the keys do not reach the event loop,
  the program ends with code 1, or with code 0 when a shutdown was requested; and then every key of the arena,
  the static keys, the onion seed and the database key are gone, the database is closed, and no session or
  handshake was lost unwiped.\<close>

theorem failed_start_wiped:
  assumes "main_network E T I pg = Some (Some code, pg')" and "starting pg"
    and "as_my_onion_seed (pg_sys pg) = None" "\<not> db_ready (io_db (pg_sys pg))" "kr_db (pg_keys pg) \<noteq> None"
  shows "gone pg' \<and> pg_lost pg' = pg_lost pg \<and> (code = 0 \<and> (\<exists>k. ni_down I k) \<or> code = 1)"
proof -
  obtain tr br rest where tr: "prompt_transport_selection [] (ni_tty I) (ni_input I) = (tr, br, rest)" by (metis prod_cases3)
  obtain err db fx where db: "(if as_ghost_mode (pg_sys pg) then (NOX_OK, io_db (pg_sys pg), [])
      else db_init (ni_db I) (Some (pg_config_dir pg)) (pg_config_fd pg) (kr_db (pg_keys pg)) (io_db (pg_sys pg))) = (err, db, fx)"
    by (metis prod_cases3)
  define pg1 where "pg1 = pg\<lparr>pg_sys := (pg_sys pg)\<lparr>io_db := db\<rparr>\<rparr>"
  have g: "as_ghost_mode (pg_sys pg) \<Longrightarrow> db = io_db (pg_sys pg)" using db by simp
  then have pg1: "starting pg1" "pg_lost pg1 = pg_lost pg" "as_ghost_mode (pg_sys pg1) = as_ghost_mode (pg_sys pg)"
    using assms(2) by (auto simp: pg1_def starting_def)
  note eq = assms(1) [unfolded main_network_def tr db prod.case Let_def, folded pg1_def]
  have "err \<noteq> NOX_OK \<Longrightarrow> db_key db = None \<and> \<not> db_ready db"
    using db assms(4,5) by (auto simp: db_init_def Let_def split: if_splits option.splits prod.splits)
  then have early: "exits_wiped I (pg_lost pg)
      (Some (Some 1, pg1\<lparr>pg_sys := (pg_sys pg1)\<lparr>as_my_static_priv := None, as_my_static_pub := None\<rparr>, pg_keys := no_keys\<rparr>))" if "err \<noteq> NOX_OK"
    using assms(3) that by (simp add: exits_wiped_def gone_def pg1_def)
  have "exits_wiped I (pg_lost pg) (main_network E T I pg)"
    unfolding main_network_def tr db prod.case Let_def pg1_def [symmetric]
    by (intro exits_split exits_leaving early main_service_wiped [where pg = "(with_tor t gx pg1)\<lparr>pg_stage2 := b\<rparr>" for t gx b, simplified, unfolded pg1])
       (simp_all add: assms(2) pg1)
  with assms(1) show ?thesis by (simp add: exits_wiped_def)
qed

theorem failed_start_wiped_witness:
  "\<exists>pg'. main_network toy_env toy_tor (toy_net (\<lambda>k. k = 7)) toy_begin = Some (Some 0, pg') \<and> gone pg' \<and> pg_lost pg' = 0"
proof -
  obtain pg' where r: "main_network toy_env toy_tor (toy_net (\<lambda>k. k = 7)) toy_begin = Some (Some 0, pg')"
    using toy_reaches [of "\<lambda>k. k = 7"] by (auto simp: Let_def leave_def)
  have "starting toy_begin" by (simp add: starting_def toy_begin_def db_close_def)
  with failed_start_wiped [OF r] r show ?thesis by (auto simp: toy_begin_def db_close_def no_keys_def)
qed

end
