(* ===== verification/Nox_Launch_Props.thy ===== *)
theory Nox_Launch_Props
  imports Nox_Main_Props Nox_Startup_Props Nox_Arena_Props
begin

text \<open>
  What holds when the program goes on from its first steps to the keys, and what this means for the entry of the
  event loop.
\<close>

lemma ensure_config_ok:
  assumes "ensure_config_dir A p e w st = (NOX_OK, st')"
  shows "0 \<le> dr_config_fd st'" "0 \<le> dr_downloads_fd st'" "dr_closed st' = dr_closed st"
    "take (length (cp_config_dir p)) (cp_downloads p) = cp_config_dir p"
  using assms by (auto simp: ensure_config_dir_def Let_def split: if_splits option.splits kind.splits)

lemma read_pin_valid:
  assumes "read_pin pin_buf cap confirm fresh al term ks = Some (NOX_OK, pb, t, ks')"
  shows "validate_pin (Some (c_str pb)) = NOX_OK" "t = term"
  using assms by (auto simp: read_pin_def Let_def split: option.splits if_splits prod.splits)

lemma main_start_steps:
  assumes "main_start I d = Some (Inr ss, d')"
  obtains p cet t ks where "resolve_config_paths (si_env_home I) (si_pw_home I) (si_realpath I) = (NOX_OK, Some p)"
    "\<not> cleankeys_requested (si_args I)" "cet_ss_lock_and_verify (si_cet I) = Some cet" "cet \<noteq> CET_SS_BROKEN"
    "ensure_config_dir (si_dir_answers I) p (si_env_home I) (si_pw_home I)
       \<lparr>dr_config_fd = -1, dr_downloads_fd = -1, dr_first_run = False, dr_closed = []\<rparr> = (NOX_OK, ss_dirs ss)"
    "read_pin (si_pin_buf I) PIN_BUF_LEN (dr_first_run (ss_dirs ss)) (si_confirm_buf I) (snd (sodium_malloc (si_heap I)))
       (setup_terminal (si_tty I)) (si_keys I) = Some (NOX_OK, ss_pin ss, ss_tty ss, ks)"
    "arena_init (si_arena_env I) (si_arena I) (of_nat NOX_ARENA_DEFAULT_SIZE) (si_image I) = (NOX_OK, ss_arena ss, ss_image ss)"
    "d' = d" "ss_paths ss = p" "ss_ghost ss = fst (parse_args (si_args I))" "ss_unsandboxed ss = snd (parse_args (si_args I))"
    "case si_memlock I of None \<Rightarrow> True | Some cur \<Rightarrow> NOX_ARENA_DEFAULT_SIZE + NOX_SODIUM_LOCKED_BUDGET \<le> cur"
  using assms unfolding main_start_def Let_def
  by (auto split: if_splits option.splits prod.splits nox_err_t.splits)

lemma validate_pin_ok:
  assumes "validate_pin (Some p) = NOX_OK"
  shows "8 \<le> length p" "length p \<le> 128" "list_all (\<lambda>c. (32 \<le> c \<or> c = 9) \<and> c \<noteq> 127) p"
  using assms
  by (auto simp: validate_pin_def pin_bad_def NOX_PIN_MIN_LEN_def NOX_PIN_MAX_LEN_def list_all_iff list_ex_iff not_less split: if_splits)

text \<open>C13. The program goes on from its first steps to the keys only with a usable start: no key file was touched, the
  shadow stack was not found broken, the configuration directory and the download directory beneath it are open,
  the PIN has 8 to 128 bytes, none of them a control byte other than a tab, the terminal is in its own mode, and the arena has an intact canary, its guards, locked memory and the
  room asked for. So whenever such a start reaches the event loop, the file access rules are in force, unless the
  kernel has them switched off and the user asked for it on the command line.\<close>
theorem start_checked:
  assumes "main_start I d = Some (Inr ss, d')" and "kernel_ok (si_arena_env I) (of_nat NOX_ARENA_DEFAULT_SIZE) (si_image I)"
  shows "d' = d \<and> (\<exists>cet. cet_ss_lock_and_verify (si_cet I) = Some cet \<and> cet \<noteq> CET_SS_BROKEN) \<and>
    0 \<le> dr_config_fd (ss_dirs ss) \<and> 0 \<le> dr_downloads_fd (ss_dirs ss) \<and> dr_closed (ss_dirs ss) = [] \<and>
    (\<exists>q. cp_downloads (ss_paths ss) = cp_config_dir (ss_paths ss) @ q) \<and>
    8 \<le> length (c_str (ss_pin ss)) \<and> length (c_str (ss_pin ss)) \<le> 128 \<and>
    list_all (\<lambda>c. (32 \<le> c \<or> c = 9) \<and> c \<noteq> 127) (c_str (ss_pin ss)) \<and> ss_tty ss = setup_terminal (si_tty I) \<and>
    arena_check_canary (ss_arena ss) (ss_image ss) = Ret () \<and> arena_is_valid (ss_arena ss) \<and> ar_locked (ss_arena ss) \<and>
    NOX_ARENA_DEFAULT_SIZE \<le> unat (arena_bytes_free (ss_arena ss)) \<and>
    (\<forall>B L S s s' f. event_loop_entry B L S (dr_config_fd (ss_dirs ss)) (dr_downloads_fd (ss_dirs ss)) (ss_unsandboxed ss) s = (True, s', f) \<longrightarrow>
       landlock_is_active s' \<or> la_ruleset L = LL_eopnotsupp \<and> str_bytes ''--allow-unsandboxed-fs'' \<in> set (si_args I))"
proof (rule main_start_steps [OF assms(1)])
  fix p cet ks
  assume cet: "cet_ss_lock_and_verify (si_cet I) = Some cet" "cet \<noteq> CET_SS_BROKEN" and d: "d' = d" and p: "ss_paths ss = p"
    and u: "ss_unsandboxed ss = snd (parse_args (si_args I))"
    and e: "ensure_config_dir (si_dir_answers I) p (si_env_home I) (si_pw_home I)
       \<lparr>dr_config_fd = -1, dr_downloads_fd = -1, dr_first_run = False, dr_closed = []\<rparr> = (NOX_OK, ss_dirs ss)"
    and r: "read_pin (si_pin_buf I) PIN_BUF_LEN (dr_first_run (ss_dirs ss)) (si_confirm_buf I) (snd (sodium_malloc (si_heap I)))
       (setup_terminal (si_tty I)) (si_keys I) = Some (NOX_OK, ss_pin ss, ss_tty ss, ks)"
    and a: "arena_init (si_arena_env I) (si_arena I) (of_nat NOX_ARENA_DEFAULT_SIZE) (si_image I) = (NOX_OK, ss_arena ss, ss_image ss)"
  note dirs = ensure_config_ok [OF e] and arena = arena_init_ok [OF a assms(2)]
  note pin = validate_pin_ok [OF read_pin_valid(1) [OF r]]
  have q: "\<exists>q. cp_downloads p = cp_config_dir p @ q" using dirs(4) by (metis append_take_drop_id)
  have sz: "unat (of_nat NOX_ARENA_DEFAULT_SIZE :: size_t) = NOX_ARENA_DEFAULT_SIZE" by (simp add: NOX_ARENA_DEFAULT_SIZE_def)
  have "landlock_is_active s' \<or> la_ruleset L = LL_eopnotsupp \<and> str_bytes ''--allow-unsandboxed-fs'' \<in> set (si_args I)"
    if "event_loop_entry B L S (dr_config_fd (ss_dirs ss)) (dr_downloads_fd (ss_dirs ss)) (ss_unsandboxed ss) s = (True, s', f)" for B L S s s' f
  proof -
    have "fst (landlock_sandbox_init L (dr_config_fd (ss_dirs ss)) (dr_downloads_fd (ss_dirs ss)) s) = NOX_OK \<and>
        s' = snd (landlock_sandbox_init L (dr_config_fd (ss_dirs ss)) (dr_downloads_fd (ss_dirs ss)) s) \<or>
      fst (landlock_sandbox_init L (dr_config_fd (ss_dirs ss)) (dr_downloads_fd (ss_dirs ss)) s) = NOX_ERR_LANDLOCK_UNSUPPORTED \<and> ss_unsandboxed ss"
      using that dirs(1,2) by (auto simp: event_loop_entry_def split: prod.splits if_splits)
    then show ?thesis using u
      by (auto simp: landlock_sandbox_init_def Let_def landlock_is_active_def parse_args_def list_ex_iff split: if_splits ll_ruleset.splits)
  qed
  with cet d p dirs q pin read_pin_valid(2) [OF r] arena sz arena_check_canary_ok arena_is_valid_layout [of "ss_arena ss"] show ?thesis
    by (auto simp: arena_ok_def arena_layout_def)
qed

definition toy_start :: start_inputs where
  "toy_start = \<lparr>si_args = [], si_env_home = Some [47, 104], si_pw_home = None, si_realpath = Some, si_clean_fd = -1, si_sodium_init = True,
     si_cet = toy_cet \<lparr>cc_sigaction = True, cc_shadow = Some [], cc_fault = None\<rparr>,
     si_dir_answers = \<lparr>da_lstat = Some K_dir, da_mkdir = False, da_mkdir_again = False, da_open = 3, da_downloads_made = True,
       da_downloads_exists = True, da_open_downloads = 4, da_identity = Some K_reg\<rparr>,
     si_heap = [], si_pin_buf = zeros 130, si_confirm_buf = [], si_tty = None,
     si_keys = map Key [49, 50, 51, 52, 53, 54, 55, 56, 10], si_memlock = None, si_arena_env = demo_env, si_arena = zero_arena, si_image = demo_image\<rparr>"

lemma demo_default: "kernel_ok demo_env 65536 demo_image" "fst (arena_init demo_env zero_arena 65536 demo_image) = NOX_OK"
proof -
  have a: "page_align 65552 4096 = 69632" by (simp add: page_align_def Nox_Arena.SIZE_MAX_def)
  show "kernel_ok demo_env 65536 demo_image"
    by (simp add: kernel_ok_def demo_env_def demo_image_def mmap_request_def demo_page_size a CANARY_def NOX_CANARY_LEN_def)
  show "fst (arena_init demo_env zero_arena 65536 demo_image) = NOX_OK"
    by (simp add: arena_init_def demo_env_def demo_page_size a CANARY_def Nox_Arena.SIZE_MAX_def)
qed

definition toy_empty_dir :: config_dir where
  "toy_empty_dir = \<lparr>cd_files = Map.empty, cd_outcomes = [], cd_open = -1, cd_past = []\<rparr>"

theorem start_checked_witness:
  "\<exists>ss. main_start toy_start toy_empty_dir = Some (Inr ss, toy_empty_dir) \<and> 0 \<le> dr_downloads_fd (ss_dirs ss) \<and> arena_is_valid (ss_arena ss)"
proof -
  have c: "cet_ss_lock_and_verify (toy_cet \<lparr>cc_sigaction = True, cc_shadow = Some [], cc_fault = None\<rparr>) = Some CET_SS_ENFORCED" by code_simp
  have "map_option (\<lambda>(e, pb, _). e) (read_pin (zeros 130) PIN_BUF_LEN False [] [] None (map Key [49, 50, 51, 52, 53, 54, 55, 56, 10])) = Some NOX_OK"
    by code_simp
  then obtain pb t ks where r: "read_pin (zeros 130) PIN_BUF_LEN False [] [] None (map Key [49, 50, 51, 52, 53, 54, 55, 56, 10]) = Some (NOX_OK, pb, t, ks)"
    by auto
  obtain a m where i: "arena_init demo_env zero_arena 65536 demo_image = (NOX_OK, a, m)" using demo_default(2) by (metis prod.collapse)
  have f: "fst (sodium_malloc []) = True" "snd (sodium_malloc []) = []" by simp_all
  obtain ss where s: "main_start toy_start toy_empty_dir = Some (Inr ss, toy_empty_dir)"
    using r by (simp add: main_start_def toy_start_def Let_def resolve_config_paths_def home_dir_def PARANOID_CONFIG_DIR_def str_bytes_def NOX_PATH_MAX_def
      cleankeys_requested_def c ensure_config_dir_def setup_terminal_def NOX_ARENA_DEFAULT_SIZE_def i)
  have "kernel_ok (si_arena_env toy_start) (of_nat NOX_ARENA_DEFAULT_SIZE) (si_image toy_start)"
    using demo_default(1) by (simp add: toy_start_def NOX_ARENA_DEFAULT_SIZE_def)
  from start_checked [OF s this] s show ?thesis by blast
qed

end
