(* ===== verification/Nox_Stdin.thy ===== *)
theory Nox_Stdin
  imports Nox_Identity Nox_Terminal Nox_Command
begin

text \<open>
  Standard input, from \<^verbatim>\<open>src/stdin_handler.c\<close>: the buffer that cuts piped input into lines, and the events of
  the line editor when standard input is a terminal. The handler of a line is an argument \<open>H\<close> of the loops
  (\<open>None\<close>: it has not returned) that \<open>handle_line\<close> instantiates with \<open>process_line\<close>; the answers of \<open>read\<close>, of the
  allocator and of the line editor are arguments.
\<close>

section \<open>The pipe\<close>

definition STDIN_BUF_MAX :: nat where "STDIN_BUF_MAX = 64 * 1024"
definition STDIN_BUF_INIT :: nat where "STDIN_BUF_INIT = 512"

text \<open>Answers of \<open>read\<close>: data that is there (the call takes what fits), \<open>EAGAIN\<close>, \<open>EINTR\<close>, the end, another error. When the
  list ends nothing more is there for now.\<close>

datatype pipe_ans = Pipe_data bytes | Pipe_again | Pipe_intr | Pipe_eof | Pipe_err

text \<open>The buffer: its first \<open>stdin_len\<close> bytes and its capacity (0 when there is none).\<close>

record stdin_state =
  sb_buf :: bytes
  sb_cap :: nat
  sb_closed :: bool
  sb_heap :: heap_answers

text \<open>A carriage return at the end of a line is removed.\<close>

definition chop_cr :: "bytes \<Rightarrow> bytes" where
  "chop_cr line = (if line \<noteq> [] \<and> last line = 13 then butlast line else line)"

text \<open>The loop over the complete lines of the buffer: the rest, the allocator and the state of the handler.\<close>

function cut_lines :: "(bytes \<Rightarrow> 's \<Rightarrow> 's option) \<Rightarrow> bytes \<Rightarrow> heap_answers \<Rightarrow> 's \<Rightarrow> (bytes \<times> heap_answers \<times> 's) option" where
  "cut_lines H buf al s =
     (if 10 \<notin> set buf then Some (buf, al, s)
      else let line = takeWhile (\<lambda>c. c \<noteq> 10) buf; rest = drop (length line + 1) buf in
      case sodium_malloc al of (ok, al) \<Rightarrow>
      if \<not> ok then cut_lines H rest al s
      else if 0 \<in> set line then cut_lines H rest al s
      else case H (chop_cr line) s of None \<Rightarrow> None | Some s \<Rightarrow> cut_lines H rest al s)"
  by pat_completeness auto
termination
  by (relation "measure (\<lambda>(H, buf, al, s). length buf)") (auto intro!: diff_less length_pos_if_in_set)

declare cut_lines.simps [simp del]

text \<open>The echo removes a byte from the end of the buffer for every backspace it meets.\<close>

function echo_loop :: "bytes \<Rightarrow> nat \<Rightarrow> bytes" where
  "echo_loop buf i =
     (if i < length buf then echo_loop (if buf ! i = 127 \<or> buf ! i = 8 then butlast buf else buf) (i + 1) else buf)"
  by pat_completeness auto
termination by (relation "measure (\<lambda>(buf, i). length buf - i)") auto

declare echo_loop.simps [simp del]

text \<open>The buffer grows before a read when less than 512 bytes would be left; \<open>None\<close>: the call returns.\<close>

definition grow :: "stdin_state \<Rightarrow> stdin_state option \<times> stdin_state" where
  "grow b =
     (if length (sb_buf b) + 512 \<ge> sb_cap b
      then if sb_cap b > STDIN_BUF_MAX div 2 \<and> sb_cap b \<ge> STDIN_BUF_MAX
           then (None, b\<lparr>sb_buf := []\<rparr>)
           else let new_cap = min (if sb_cap b = 0 then STDIN_BUF_INIT else sb_cap b * 2) STDIN_BUF_MAX in
                case sodium_malloc (sb_heap b) of (ok, al) \<Rightarrow>
                if \<not> ok then (None, b\<lparr>sb_heap := al\<rparr>)
                else (Some (b\<lparr>sb_cap := new_cap, sb_heap := al\<rparr>), b)
      else (Some b, b))"

text \<open>What is done with the bytes of one read: stripping (up to the first NUL), the echo, the lines.\<close>

definition absorb :: "(bytes \<Rightarrow> 's \<Rightarrow> 's option) \<Rightarrow> bytes \<Rightarrow> stdin_state \<Rightarrow> 's \<Rightarrow> (stdin_state \<times> 's) option" where
  "absorb H got b s =
     (let old_len = length (sb_buf b);
          buf = ui_strip_ansi (c_str (sb_buf b @ got));
          buf = echo_loop buf (if length buf > old_len then old_len else length buf) in
      if buf = [] \<or> last buf = 0 then Some (b\<lparr>sb_buf := buf\<rparr>, s)
      else map_option (\<lambda>(rest, al, s). (b\<lparr>sb_buf := rest, sb_heap := al\<rparr>, s)) (cut_lines H buf (sb_heap b) s))"

text \<open>The end of the input.\<close>

definition finish_input :: "(bytes \<Rightarrow> 's \<Rightarrow> 's option) \<Rightarrow> stdin_state \<Rightarrow> 's \<Rightarrow> (stdin_state \<times> 's) option" where
  "finish_input H b s =
     (if sb_buf b \<noteq> []
      then map_option (\<lambda>s. (b\<lparr>sb_buf := [], sb_closed := True\<rparr>, s)) (H (c_str (sb_buf b)) s)
      else Some (b\<lparr>sb_closed := True\<rparr>, s))"

text \<open>The loop of \<open>process_stdin_events\<close> for a pipe: the buffer, the state of the handler and the answers left.\<close>

function pipe_loop ::
    "(bytes \<Rightarrow> 's \<Rightarrow> 's option) \<Rightarrow> pipe_ans list \<Rightarrow> stdin_state \<Rightarrow> 's \<Rightarrow> (stdin_state \<times> 's \<times> pipe_ans list) option" where
  "pipe_loop H as b s =
     (case grow b of
        (None, b) \<Rightarrow> Some (b, s, as)
      | (Some b, _) \<Rightarrow>
        let n = sb_cap b - length (sb_buf b) - 1 in
        case as of
          [] \<Rightarrow> Some (b, s, [])
        | Pipe_again # as \<Rightarrow> Some (b, s, as)
        | Pipe_intr # as \<Rightarrow> pipe_loop H as b s
        | Pipe_err # as \<Rightarrow> Some (b, s, as)
        | Pipe_eof # as \<Rightarrow> map_option (\<lambda>(b, s). (b, s, as)) (finish_input H b s)
        | Pipe_data d # as \<Rightarrow>
            if n = 0 \<or> d = [] then map_option (\<lambda>(b, s). (b, s, as)) (finish_input H b s)
            else case absorb H (take n d) b s of None \<Rightarrow> None
            | Some (b, s) \<Rightarrow> pipe_loop H (if length d \<le> n then as else Pipe_data (drop n d) # as) b s)"
  by pat_completeness auto
termination
  by (relation "measure (\<lambda>(H, as, b, s). sum_list (map (\<lambda>a. case a of Pipe_data d \<Rightarrow> length d + 1 | _ \<Rightarrow> 1) as))")
     (auto split: if_splits)

declare pipe_loop.simps [simp del]

section \<open>Lines of the program\<close>

text \<open>The \<open>k\<close>-th line has its own answers \<open>ios k\<close>.\<close>

definition handle_line :: "nox_env \<Rightarrow> (nat \<Rightarrow> cmd_io) \<Rightarrow> bytes \<Rightarrow> sys \<times> nat \<Rightarrow> (sys \<times> nat) option" where
  "handle_line E ios line s = (case s of (st, k) \<Rightarrow> map_option (\<lambda>st. (st, Suc k)) (process_line E (ios k) line st))"

definition process_stdin_pipe ::
    "nox_env \<Rightarrow> (nat \<Rightarrow> cmd_io) \<Rightarrow> pipe_ans list \<Rightarrow> stdin_state \<Rightarrow> sys \<Rightarrow> (stdin_state \<times> (sys \<times> nat) \<times> pipe_ans list) option" where
  "process_stdin_pipe E ios as b st = pipe_loop (handle_line E ios) as b (st, 0)"

section \<open>The line editor\<close>

text \<open>The buffer of the editor (\<open>None\<close> when there is none) and whether it is active.\<close>

record ln_edit =
  ln_active :: bool
  ln_buf :: "bytes option"
  ln_suspend_depth :: nat

definition NOX_EDIT_CAP :: nat where "NOX_EDIT_CAP = NOX_MAX_MSG_LEN"

text \<open>\<open>fresh\<close> are the bytes of the new buffer, \<open>start_ok\<close> the answer of \<open>linenoiseEditStart\<close>.\<close>

definition ln_edit_init :: "bool \<Rightarrow> bool \<Rightarrow> heap_answers \<Rightarrow> bytes \<Rightarrow> bool \<Rightarrow> ln_edit \<Rightarrow> ln_edit \<times> heap_answers" where
  "ln_edit_init tui tty al fresh start_ok e =
     (let e = e\<lparr>ln_active := False, ln_buf := None\<rparr> in
      if tui \<or> \<not> tty then (e, al)
      else case sodium_malloc al of (ok, al) \<Rightarrow>
      if \<not> ok then (e, al)
      else let e = e\<lparr>ln_suspend_depth := 0\<rparr> in
      if \<not> start_ok then (e, al) else (e\<lparr>ln_active := True, ln_buf := Some fresh\<rparr>, al))"

definition ln_edit_deinit :: "ln_edit \<Rightarrow> ln_edit" where
  "ln_edit_deinit e = e\<lparr>ln_active := False, ln_suspend_depth := 0, ln_buf := None\<rparr>"

text \<open>What \<open>linenoiseEditFeed\<close> returned: more input is needed, a line, a cancelled line (Ctrl-C), or an empty end of input.\<close>

datatype feed_ans = Feed_more | Feed_line bytes | Feed_cancelled | Feed_end

definition ln_event ::
    "(bytes \<Rightarrow> 's \<Rightarrow> 's option) \<Rightarrow> ('s \<Rightarrow> bool) \<Rightarrow> feed_ans \<Rightarrow> bool \<Rightarrow> ln_edit \<Rightarrow> 's \<Rightarrow> (ln_edit \<times> 's) option" where
  "ln_event H running a restart_ok e s =
     (if a = Feed_more then Some (e, s)
      else case (case a of Feed_line line \<Rightarrow> H line s | Feed_cancelled \<Rightarrow> H (str_bytes ''/quit'') s | _ \<Rightarrow> Some s) of None \<Rightarrow> None
      | Some s \<Rightarrow>
        let e = e\<lparr>ln_buf := map_option (wipe NOX_EDIT_CAP) (ln_buf e)\<rparr> in
        Some (if running s \<and> \<not> restart_ok then ln_edit_deinit e else e, s))"

end
