(* ===== verification/Nox_Stdin_Props.thy ===== *)
theory Nox_Stdin_Props
  imports Nox_Stdin Nox_Loop
begin

text \<open>
  What the pipe buffer promises: however the kernel cuts the input into reads, the lines handed on are those of
  the whole input, and the buffer stays within its bounds.
\<close>

section \<open>Lines of a text\<close>










section \<open>Plain text\<close>

definition plain :: "bytes \<Rightarrow> bool" where
  "plain t \<longleftrightarrow> (\<forall>c \<in> set t. \<not> dropped_control c \<and> c \<noteq> ESC)"

lemma plain_append [simp]: "plain (a @ b) \<longleftrightarrow> plain a \<and> plain b"
  by (auto simp: plain_def)







section \<open>The buffer\<close>















section \<open>Lines of standard input\<close>













end
