(* ===== verification/Nox_Utf8.thy ===== *)
theory Nox_Utf8
  imports Nox_Common
begin

text \<open>
  UTF-8 in the line editor, from \<^verbatim>\<open>src/linenoise.c\<close>: decoding, the extent of the character (grapheme cluster) before
  and after a position, and display widths. A buffer is a list of bytes; a pointer and a length are a
  part of it.
\<close>

section \<open>Decoding\<close>

definition utf8ByteLen :: "byte \<Rightarrow> nat" where
  "utf8ByteLen c =
     (if c AND 0x80 = 0 then 1 else if c AND 0xE0 = 0xC0 then 2 else if c AND 0xF0 = 0xE0 then 3
      else if c AND 0xF8 = 0xF0 then 4 else 1)"

text \<open>The code point at the beginning of \<open>s\<close> and its length; a truncated or invalid sequence is one byte.\<close>

definition utf8DecodeChar :: "bytes \<Rightarrow> u32 \<times> nat" where
  "utf8DecodeChar s =
     (case s of [] \<Rightarrow> (0, 0)
      | p # _ \<Rightarrow>
        let part = (\<lambda>i. ucast (s ! i AND 0x3F) :: u32) in
        if p AND 0x80 = 0 then (ucast p, 1)
        else if p AND 0xE0 = 0xC0 then
          if length s < 2 then (ucast p, 1) else (push_bit 6 (ucast (p AND 0x1F)) OR part 1, 2)
        else if p AND 0xF0 = 0xE0 then
          if length s < 3 then (ucast p, 1) else (push_bit 12 (ucast (p AND 0x0F)) OR push_bit 6 (part 1) OR part 2, 3)
        else if p AND 0xF8 = 0xF0 then
          if length s < 4 then (ucast p, 1)
          else (push_bit 18 (ucast (p AND 0x07)) OR push_bit 12 (part 1) OR push_bit 6 (part 2) OR part 3, 4)
        else (ucast p, 1))"

lemma decode_len: "s \<noteq> [] \<Longrightarrow> 0 < snd (utf8DecodeChar s) \<and> snd (utf8DecodeChar s) \<le> length s"
  by (cases s) (auto simp: utf8DecodeChar_def Let_def Suc_le_eq)

lemma decode_pos: "(cp, n) = utf8DecodeChar s \<Longrightarrow> s \<noteq> [] \<Longrightarrow> 0 < n \<and> n \<le> length s"
  using decode_len [of s] by (metis snd_conv)

section \<open>Kinds of code points\<close>

definition isVariationSelector :: "u32 \<Rightarrow> bool" where "isVariationSelector cp \<longleftrightarrow> cp = 0xFE0E \<or> cp = 0xFE0F"
definition isSkinToneModifier :: "u32 \<Rightarrow> bool" where "isSkinToneModifier cp \<longleftrightarrow> cp \<ge> 0x1F3FB \<and> cp \<le> 0x1F3FF"
definition isZWJ :: "u32 \<Rightarrow> bool" where "isZWJ cp \<longleftrightarrow> cp = 0x200D"
definition isRegionalIndicator :: "u32 \<Rightarrow> bool" where "isRegionalIndicator cp \<longleftrightarrow> cp \<ge> 0x1F1E6 \<and> cp \<le> 0x1F1FF"

definition isCombiningMark :: "u32 \<Rightarrow> bool" where
  "isCombiningMark cp \<longleftrightarrow> cp \<ge> 0x0300 \<and> cp \<le> 0x036F \<or> cp \<ge> 0x1AB0 \<and> cp \<le> 0x1AFF \<or> cp \<ge> 0x1DC0 \<and> cp \<le> 0x1DFF \<or>
     cp \<ge> 0x20D0 \<and> cp \<le> 0x20FF \<or> cp \<ge> 0xFE20 \<and> cp \<le> 0xFE2F"

definition isGraphemeExtend :: "u32 \<Rightarrow> bool" where
  "isGraphemeExtend cp \<longleftrightarrow> isVariationSelector cp \<or> isSkinToneModifier cp \<or> isZWJ cp \<or> isCombiningMark cp"

section \<open>The character before a position\<close>

fun start_byte :: "bytes \<Rightarrow> nat \<Rightarrow> nat \<Rightarrow> nat" where
  "start_byte buf pos 0 = 0"
| "start_byte buf pos (Suc i) =
     (if pos - Suc i < 4 \<and> buf ! Suc i AND 0xC0 = 0x80 then start_byte buf pos i else Suc i)"

definition utf8DecodePrev :: "bytes \<Rightarrow> nat \<Rightarrow> u32 \<times> nat" where
  "utf8DecodePrev buf pos =
     (if pos = 0 then (0, 0)
      else let i = start_byte buf pos (pos - 1) in (fst (utf8DecodeChar (take (pos - i) (drop i buf))), pos - i))"

lemma start_byte_le: "start_byte buf pos i \<le> i"
  by (induction buf pos i rule: start_byte.induct) auto

lemma decode_prev_len: "0 < pos \<Longrightarrow> 0 < snd (utf8DecodePrev buf pos) \<and> snd (utf8DecodePrev buf pos) \<le> pos"
  using start_byte_le [of buf pos "pos - 1"] by (auto simp: utf8DecodePrev_def Let_def)

function prev_cluster :: "bytes \<Rightarrow> u32 \<Rightarrow> nat \<Rightarrow> nat \<Rightarrow> nat" where
  "prev_cluster buf cp curpos tot =
     (if curpos = 0 then tot
      else case utf8DecodePrev buf curpos of (prevcp, prevlen) \<Rightarrow>
        if prevlen = 0 then tot
        else if isZWJ prevcp then
          (case utf8DecodePrev buf (curpos - prevlen) of (cp2, len2) \<Rightarrow>
             if len2 = 0 then tot + prevlen
             else prev_cluster buf cp2 (curpos - prevlen - len2) (tot + prevlen + len2))
        else if isGraphemeExtend cp then prev_cluster buf prevcp (curpos - prevlen) (tot + prevlen)
        else if isRegionalIndicator cp \<and> isRegionalIndicator prevcp then tot + prevlen
        else tot)"
  by pat_completeness auto
termination by (relation "measure (\<lambda>(buf, cp, curpos, tot). curpos)") auto

declare prev_cluster.simps [simp del]

definition utf8PrevCharLen :: "bytes \<Rightarrow> nat \<Rightarrow> nat" where
  "utf8PrevCharLen buf pos =
     (if pos = 0 then 0
      else case utf8DecodePrev buf pos of (cp, cplen) \<Rightarrow> if cplen = 0 then 0 else prev_cluster buf cp (pos - cplen) cplen)"

section \<open>The character after a position\<close>

function next_cluster :: "bytes \<Rightarrow> bool \<Rightarrow> nat \<Rightarrow> nat \<Rightarrow> nat" where
  "next_cluster buf isRI curpos tot =
     (if \<not> curpos < length buf then tot
      else case utf8DecodeChar (drop curpos buf) of (nextcp, nextlen) \<Rightarrow>
        if isZWJ nextcp \<and> curpos + nextlen < length buf then
          (case utf8DecodeChar (drop (curpos + nextlen) buf) of (_, len2) \<Rightarrow>
             next_cluster buf isRI (curpos + nextlen + len2) (tot + nextlen + len2))
        else if isGraphemeExtend nextcp then next_cluster buf isRI (curpos + nextlen) (tot + nextlen)
        else if isRI \<and> isRegionalIndicator nextcp then next_cluster buf False (curpos + nextlen) (tot + nextlen)
        else tot)"
  by pat_completeness auto
termination
proof (relation "measure (\<lambda>(buf, isRI, curpos, tot). length buf - curpos)", goal_cases)
  case (2 buf isRI curpos tot nextcp nextlen cp2 len2)
  then have "0 < nextlen" using decode_pos [of nextcp nextlen "drop curpos buf"] by simp
  with 2 show ?case by auto
next
  case (3 buf isRI curpos tot nextcp nextlen)
  then have "0 < nextlen" using decode_pos [of nextcp nextlen "drop curpos buf"] by simp
  with 3 show ?case by auto
next
  case (4 buf isRI curpos tot nextcp nextlen)
  then have "0 < nextlen" using decode_pos [of nextcp nextlen "drop curpos buf"] by simp
  with 4 show ?case by auto
qed simp

declare next_cluster.simps [simp del]

text \<open>\<open>buf\<close> are the first \<open>len\<close> bytes.\<close>

definition utf8NextCharLen :: "bytes \<Rightarrow> nat \<Rightarrow> nat" where
  "utf8NextCharLen buf pos =
     (if pos \<ge> length buf then 0
      else case utf8DecodeChar (drop pos buf) of (cp, cplen) \<Rightarrow>
        next_cluster buf (isRegionalIndicator cp) (pos + cplen) cplen)"

section \<open>Widths\<close>

definition utf8CharWidth :: "u32 \<Rightarrow> nat" where
  "utf8CharWidth cp =
     (if cp < 32 \<or> cp \<ge> 0x7F \<and> cp < 0xA0 then 0
      else if isCombiningMark cp then 0
      else if isVariationSelector cp then 0
      else if isSkinToneModifier cp then 0
      else if isZWJ cp then 0
      else if cp \<ge> 0x1100 \<and>
        (cp \<le> 0x115F \<or> cp = 0x2329 \<or> cp = 0x232A \<or> cp \<ge> 0x231A \<and> cp \<le> 0x231B \<or> cp \<ge> 0x23E9 \<and> cp \<le> 0x23F3 \<or>
         cp \<ge> 0x23F8 \<and> cp \<le> 0x23FA \<or> cp \<ge> 0x25AA \<and> cp \<le> 0x25AB \<or> cp \<ge> 0x25B6 \<and> cp \<le> 0x25C0 \<or>
         cp \<ge> 0x25FB \<and> cp \<le> 0x25FE \<or> cp \<ge> 0x2600 \<and> cp \<le> 0x26FF \<or> cp \<ge> 0x2700 \<and> cp \<le> 0x27BF \<or>
         cp \<ge> 0x2934 \<and> cp \<le> 0x2935 \<or> cp \<ge> 0x2B05 \<and> cp \<le> 0x2B07 \<or> cp \<ge> 0x2B1B \<and> cp \<le> 0x2B1C \<or>
         cp = 0x2B50 \<or> cp = 0x2B55 \<or> cp \<ge> 0x2E80 \<and> cp \<le> 0xA4CF \<and> cp \<noteq> 0x303F \<or> cp \<ge> 0xAC00 \<and> cp \<le> 0xD7A3 \<or>
         cp \<ge> 0xF900 \<and> cp \<le> 0xFAFF \<or> cp \<ge> 0xFE10 \<and> cp \<le> 0xFE1F \<or> cp \<ge> 0xFE30 \<and> cp \<le> 0xFE6F \<or>
         cp \<ge> 0xFF00 \<and> cp \<le> 0xFF60 \<or> cp \<ge> 0xFFE0 \<and> cp \<le> 0xFFE6 \<or> cp \<ge> 0x1F1E6 \<and> cp \<le> 0x1F1FF \<or>
         cp \<ge> 0x1F300 \<and> cp \<le> 0x1F64F \<or> cp \<ge> 0x1F680 \<and> cp \<le> 0x1F6FF \<or> cp \<ge> 0x1F900 \<and> cp \<le> 0x1F9FF \<or>
         cp \<ge> 0x1FA00 \<and> cp \<le> 0x1FAFF \<or> cp \<ge> 0x20000 \<and> cp \<le> 0x2FFFF) then 2
      else 1)"

definition ansiEscapeLen :: "bytes \<Rightarrow> nat" where
  "ansiEscapeLen s =
     (if length s < 2 \<or> s ! 1 \<noteq> 91 then 0
      else let params = takeWhile (\<lambda>c. c \<ge> 0x30 \<and> c \<le> 0x3f) (drop 2 s);
               rest = drop (2 + length params) s;
               inters = takeWhile (\<lambda>c. c \<ge> 0x20 \<and> c \<le> 0x2f) rest;
               i = 2 + length params + length inters in
      if i \<ge> length s \<or> s ! i < 0x40 \<or> s ! i > 0x7e then 0 else i + 1)"

function str_width :: "bytes \<Rightarrow> bool \<Rightarrow> nat \<Rightarrow> nat" where
  "str_width s after_zwj width =
     (if s = [] then width
      else case utf8DecodeChar s of (cp, clen) \<Rightarrow>
        if cp = 0x1b \<and> ansiEscapeLen s > 0 then str_width (drop (ansiEscapeLen s) s) after_zwj width
        else str_width (drop clen s) (isZWJ cp) (if after_zwj then width else width + utf8CharWidth cp))"
  by pat_completeness auto
termination
proof (relation "measure (\<lambda>(s, after_zwj, width). length s)", goal_cases)
  case (3 s after_zwj width cp clen)
  then have "0 < clen" using decode_pos [of cp clen s] by simp
  with 3 show ?case by (auto intro: diff_less)
qed auto

declare str_width.simps [simp del]

definition utf8StrWidth :: "bytes \<Rightarrow> nat" where
  "utf8StrWidth s = str_width s False 0"

definition utf8SingleCharWidth :: "bytes \<Rightarrow> nat" where
  "utf8SingleCharWidth s = (if s = [] then 0 else utf8CharWidth (fst (utf8DecodeChar s)))"

section \<open>Extents stay within the buffer\<close>

lemma prev_cluster_le: "tot \<le> prev_cluster buf cp curpos tot \<and> prev_cluster buf cp curpos tot \<le> tot + curpos"
proof (induction buf cp curpos tot rule: prev_cluster.induct)
  case (1 buf cp curpos tot)
  show ?case
  proof (cases "curpos = 0")
    case True
    then show ?thesis by (simp add: prev_cluster.simps)
  next
    case False
    obtain p n where d: "utf8DecodePrev buf curpos = (p, n)" by fastforce
    obtain q m where e: "utf8DecodePrev buf (curpos - n) = (q, m)" by fastforce
    have n: "0 < n" "n \<le> curpos" using decode_prev_len [of curpos buf] False d by auto
    have m: "m \<le> curpos - n" using decode_prev_len [of "curpos - n" buf] e by (cases "curpos - n = 0") (auto simp: utf8DecodePrev_def)
    show ?thesis
      using 1(1) [OF False d [symmetric] _ _ e [symmetric]] 1(2) [OF False d [symmetric]] n m False
      by (subst (1 2) prev_cluster.simps) (auto simp: d e)
  qed
qed

lemma prev_char_len: "0 < pos \<Longrightarrow> 0 < utf8PrevCharLen buf pos \<and> utf8PrevCharLen buf pos \<le> pos"
  using decode_prev_len [of pos buf] prev_cluster_le [of "snd (utf8DecodePrev buf pos)" buf "fst (utf8DecodePrev buf pos)" "pos - snd (utf8DecodePrev buf pos)"]
  by (auto simp: utf8PrevCharLen_def split: prod.splits)

lemma next_cluster_le:
  "curpos \<le> length buf \<Longrightarrow> tot \<le> next_cluster buf ri curpos tot \<and> next_cluster buf ri curpos tot \<le> tot + (length buf - curpos)"
proof (induction buf ri curpos tot rule: next_cluster.induct)
  case (1 buf ri curpos tot)
  show ?case
  proof (cases "curpos < length buf")
    case False
    then show ?thesis by (simp add: next_cluster.simps)
  next
    case True
    obtain p n where d: "utf8DecodeChar (drop curpos buf) = (p, n)" by fastforce
    obtain q m where e: "utf8DecodeChar (drop (curpos + n) buf) = (q, m)" by fastforce
    have n: "0 < n" "curpos + n \<le> length buf" using decode_len [of "drop curpos buf"] True d by auto
    have m: "curpos + n < length buf \<Longrightarrow> curpos + n + m \<le> length buf" using decode_len [of "drop (curpos + n) buf"] e by auto
    show ?thesis
      using 1(1) [OF _ d [symmetric] _ e [symmetric]] 1(2) [OF _ d [symmetric]] 1(3) [OF _ d [symmetric]] n m True
      by (subst (1 2) next_cluster.simps) (auto simp: d e)
  qed
qed

lemma next_char_len: "pos < length buf \<Longrightarrow> 0 < utf8NextCharLen buf pos \<and> pos + utf8NextCharLen buf pos \<le> length buf"
proof -
  assume p: "pos < length buf"
  obtain cp n where d: "utf8DecodeChar (drop pos buf) = (cp, n)" by fastforce
  have n: "0 < n" "pos + n \<le> length buf" using decode_len [of "drop pos buf"] d p by auto
  have "n \<le> next_cluster buf (isRegionalIndicator cp) (pos + n) n \<and>
      next_cluster buf (isRegionalIndicator cp) (pos + n) n \<le> n + (length buf - (pos + n))" using n(2) by (rule next_cluster_le)
  with n p d show ?thesis by (simp add: utf8NextCharLen_def) linarith
qed

end
