(* ===== verification/Nox_Editor.thy ===== *)
theory Nox_Editor
  imports Nox_Utf8 Nox_Stdin "HOL-Library.Monad_Syntax"
begin

text \<open>
  The line editor, from the project's copy of \<^verbatim>\<open>src/linenoise.c\<close>, as the program uses it: the multiplexed interface
  with a fixed buffer (\<open>buflen_max\<close> is 0), single line mode, no mask, no completions and no hints. The buffer is the
  memory block with its capacity; every copy into it is checked, and an access outside the block is \<open>None\<close>. What
  is drawn does not change the edited line and is modelled apart; the bytes the terminal sends and the answers of the
  allocator are arguments.
\<close>

section \<open>Memory\<close>

definition mem_copy :: "bytes \<Rightarrow> nat \<Rightarrow> bytes \<Rightarrow> bytes option" where
  "mem_copy mem dst s = (if dst + length s \<le> length mem then Some (take dst mem @ s @ drop (dst + length s) mem) else None)"

definition mem_move :: "bytes \<Rightarrow> nat \<Rightarrow> nat \<Rightarrow> nat \<Rightarrow> bytes option" where
  "mem_move mem dst src n = (if src + n \<le> length mem then mem_copy mem dst (take n (drop src mem)) else None)"

section \<open>State\<close>

definition LINENOISE_MAX_FOLDS :: nat where "LINENOISE_MAX_FOLDS = 16"
definition PASTE_FOLD_THRESHOLD :: nat where "PASTE_FOLD_THRESHOLD = 200"
definition PASTE_MAX_BYTES :: nat where "PASTE_MAX_BYTES = 1024 * 1024"

text \<open>\<open>ed_mem\<close> is the block \<open>buf\<close> points to; the folds are the first \<open>fold_count\<close> entries of the two arrays.\<close>

record linenoiseState =
  ed_mem :: bytes
  ed_buflen :: nat
  ed_prompt :: bytes
  ed_pos :: nat
  ed_len :: nat
  ed_cols :: nat
  ed_folds :: "(nat \<times> nat) list"
  ed_drawn :: bool

text \<open>The edited text.\<close>

definition ed_text :: "linenoiseState \<Rightarrow> bytes" where
  "ed_text l = take (ed_len l) (ed_mem l)"

text \<open>Starting, with a block of \<open>buflen\<close> bytes; \<open>raw_ok\<close> and \<open>write_ok\<close> are the answers of the terminal.\<close>

definition linenoiseEditStart :: "bytes \<Rightarrow> nat \<Rightarrow> bytes \<Rightarrow> nat \<Rightarrow> bool \<Rightarrow> bool \<Rightarrow> linenoiseState option" where
  "linenoiseEditStart buf buflen prompt columns raw_ok write_ok =
     (if buflen < 2 \<or> \<not> raw_ok \<or> \<not> write_ok then None
      else Some \<lparr>ed_mem = buf[0 := 0], ed_buflen = buflen - 1, ed_prompt = prompt, ed_pos = 0, ed_len = 0,
             ed_cols = (if columns < 2 then 80 else columns), ed_folds = [], ed_drawn = True\<rparr>)"

section \<open>Folds\<close>

text \<open>The folds that are drawn.\<close>

definition linenoiseGetRenderFolds :: "linenoiseState \<Rightarrow> (nat \<times> nat) list" where
  "linenoiseGetRenderFolds l = (if ed_len l = 0 then [] else filter (\<lambda>(s, e). s < e \<and> e \<le> ed_len l) (ed_folds l))"

definition linenoiseEditNextLen :: "linenoiseState \<Rightarrow> nat \<Rightarrow> nat" where
  "linenoiseEditNextLen l pos =
     (case find (\<lambda>(s, e). pos = s) (linenoiseGetRenderFolds l) of Some (s, e) \<Rightarrow> e - s | None \<Rightarrow> utf8NextCharLen (ed_text l) pos)"

definition linenoiseEditPrevLen :: "linenoiseState \<Rightarrow> nat \<Rightarrow> nat" where
  "linenoiseEditPrevLen l pos =
     (case find (\<lambda>(s, e). pos = e) (linenoiseGetRenderFolds l) of Some (s, e) \<Rightarrow> e - s | None \<Rightarrow> utf8PrevCharLen (ed_text l) pos)"

definition linenoiseFoldAdd :: "nat \<Rightarrow> nat \<Rightarrow> (nat \<times> nat) list \<Rightarrow> (nat \<times> nat) list" where
  "linenoiseFoldAdd start end fs =
     (if start \<ge> end \<or> length fs = LINENOISE_MAX_FOLDS then fs
      else let later = (\<lambda>(s, _). start < s) in
           rev (dropWhile later (rev fs)) @ [(start, end)] @ rev (takeWhile later (rev fs)))"

definition linenoiseRangeOverlapsFold :: "(nat \<times> nat) list \<Rightarrow> nat \<Rightarrow> nat \<Rightarrow> bool" where
  "linenoiseRangeOverlapsFold fs pos len = list_ex (\<lambda>(s, e). pos + len > s \<and> pos < e) fs"

fun linenoiseAdjustFoldsAfterInsert :: "nat \<Rightarrow> nat \<Rightarrow> (nat \<times> nat) list \<Rightarrow> (nat \<times> nat) list" where
  "linenoiseAdjustFoldsAfterInsert pos len [] = []"
| "linenoiseAdjustFoldsAfterInsert pos len ((s, e) # fs) =
     (if pos \<le> s then (s + len, e + len) # linenoiseAdjustFoldsAfterInsert pos len fs
      else if pos < e then linenoiseAdjustFoldsAfterInsert pos len fs
      else (s, e) # linenoiseAdjustFoldsAfterInsert pos len fs)"

fun linenoiseAdjustFoldsAfterDelete :: "nat \<Rightarrow> nat \<Rightarrow> (nat \<times> nat) list \<Rightarrow> (nat \<times> nat) list" where
  "linenoiseAdjustFoldsAfterDelete pos len [] = []"
| "linenoiseAdjustFoldsAfterDelete pos len ((s, e) # fs) =
     (if pos + len \<le> s then (s - len, e - len) # linenoiseAdjustFoldsAfterDelete pos len fs
      else if pos \<ge> e then (s, e) # linenoiseAdjustFoldsAfterDelete pos len fs
      else linenoiseAdjustFoldsAfterDelete pos len fs)"

section \<open>Editing\<close>

text \<open>With \<open>buflen_max\<close> 0 the buffer never grows: there is room or there is not.\<close>

definition linenoiseEditGrow :: "linenoiseState \<Rightarrow> nat \<Rightarrow> bool" where
  "linenoiseEditGrow l needed \<longleftrightarrow> needed \<le> ed_buflen l"

text \<open>Whether it was inserted, and the state.\<close>

definition linenoiseEditInsertNoRefresh :: "linenoiseState \<Rightarrow> bytes \<Rightarrow> (bool \<times> linenoiseState) option" where
  "linenoiseEditInsertNoRefresh l c =
     (if \<not> linenoiseEditGrow l (ed_len l + length c) then Some (False, l)
      else do {
        m \<leftarrow> (if ed_len l = ed_pos l then Some (ed_mem l)
               else mem_move (ed_mem l) (ed_pos l + length c) (ed_pos l) (ed_len l - ed_pos l));
        m \<leftarrow> mem_copy m (ed_pos l) c;
        m \<leftarrow> mem_copy m (ed_len l + length c) [0];
        Some (True, l\<lparr>ed_mem := m, ed_pos := ed_pos l + length c, ed_len := ed_len l + length c,
          ed_folds := linenoiseAdjustFoldsAfterInsert (ed_pos l) (length c) (ed_folds l)\<rparr>)
      })"

text \<open>The insertion of typed text; the code is -1 only when the text is written through to the terminal and that
  write fails (\<open>write_ok\<close>).\<close>

definition linenoiseEditInsert :: "bool \<Rightarrow> linenoiseState \<Rightarrow> bytes \<Rightarrow> (int \<times> linenoiseState) option" where
  "linenoiseEditInsert write_ok l c =
     (case linenoiseEditInsertNoRefresh l c of None \<Rightarrow> None
      | Some (ok, l') \<Rightarrow>
        if \<not> ok then Some (0, l')
        else if ed_len l = ed_pos l \<and> \<not> (10 \<in> set c \<or> 13 \<in> set c) \<and> ed_folds l' = [] \<and>
             utf8StrWidth (ed_prompt l') + utf8StrWidth (ed_text l') < ed_cols l' \<and> \<not> write_ok
        then Some (- 1, l') else Some (0, l'))"

definition linenoiseEditMoveLeft :: "linenoiseState \<Rightarrow> linenoiseState" where
  "linenoiseEditMoveLeft l = (if ed_pos l > 0 then l\<lparr>ed_pos := ed_pos l - linenoiseEditPrevLen l (ed_pos l)\<rparr> else l)"

definition linenoiseEditMoveRight :: "linenoiseState \<Rightarrow> linenoiseState" where
  "linenoiseEditMoveRight l = (if ed_pos l \<noteq> ed_len l then l\<lparr>ed_pos := ed_pos l + linenoiseEditNextLen l (ed_pos l)\<rparr> else l)"

definition linenoiseEditMoveHome :: "linenoiseState \<Rightarrow> linenoiseState" where
  "linenoiseEditMoveHome l = (if ed_pos l \<noteq> 0 then l\<lparr>ed_pos := 0\<rparr> else l)"

definition linenoiseEditMoveEnd :: "linenoiseState \<Rightarrow> linenoiseState" where
  "linenoiseEditMoveEnd l = (if ed_pos l \<noteq> ed_len l then l\<lparr>ed_pos := ed_len l\<rparr> else l)"

definition linenoiseEditDelete :: "linenoiseState \<Rightarrow> linenoiseState option" where
  "linenoiseEditDelete l =
     (if ed_len l > 0 \<and> ed_pos l < ed_len l
      then let clen = linenoiseEditNextLen l (ed_pos l) in do {
        m \<leftarrow> mem_move (ed_mem l) (ed_pos l) (ed_pos l + clen) (ed_len l - ed_pos l - clen);
        m \<leftarrow> mem_copy m (ed_len l - clen) [0];
        Some (l\<lparr>ed_mem := m, ed_len := ed_len l - clen, ed_folds := linenoiseAdjustFoldsAfterDelete (ed_pos l) clen (ed_folds l)\<rparr>)
      } else Some l)"

definition linenoiseEditBackspace :: "linenoiseState \<Rightarrow> linenoiseState option" where
  "linenoiseEditBackspace l =
     (if ed_pos l > 0 \<and> ed_len l > 0
      then let clen = linenoiseEditPrevLen l (ed_pos l) in do {
        m \<leftarrow> mem_move (ed_mem l) (ed_pos l - clen) (ed_pos l) (ed_len l - ed_pos l);
        m \<leftarrow> mem_copy m (ed_len l - clen) [0];
        Some (l\<lparr>ed_mem := m, ed_pos := ed_pos l - clen, ed_len := ed_len l - clen,
          ed_folds := linenoiseAdjustFoldsAfterDelete (ed_pos l - clen) clen (ed_folds l)\<rparr>)
      } else Some l)"

text \<open>The two loops of \<open>linenoiseEditDeletePrevWord\<close>: back over spaces, back over the word.\<close>

definition step_left :: "linenoiseState \<Rightarrow> nat \<Rightarrow> nat" where
  "step_left l pos = pos - linenoiseEditPrevLen l pos"

text \<open>A step of at least one byte: a fold that is drawn is not empty, and a character has a byte.\<close>

lemma prev_len_pos: "0 < pos \<Longrightarrow> 0 < linenoiseEditPrevLen l pos"
proof -
  assume p: "0 < pos"
  show ?thesis
  proof (cases "find (\<lambda>(s, e). pos = e) (linenoiseGetRenderFolds l)")
    case None
    then show ?thesis using prev_char_len [OF p] by (simp add: linenoiseEditPrevLen_def)
  next
    case (Some f)
    then have "f \<in> set (linenoiseGetRenderFolds l)" unfolding find_Some_iff by (metis nth_mem)
    with Some show ?thesis by (auto simp: linenoiseEditPrevLen_def linenoiseGetRenderFolds_def split: if_splits)
  qed
qed

function back_while :: "linenoiseState \<Rightarrow> (byte \<Rightarrow> bool) \<Rightarrow> nat \<Rightarrow> nat" where
  "back_while l P pos = (if pos > 0 \<and> P (ed_mem l ! (pos - 1)) then back_while l P (step_left l pos) else pos)"
  by pat_completeness auto
termination
  by (relation "measure (\<lambda>(l, P, pos). pos)") (auto simp: step_left_def prev_len_pos intro!: diff_less)

declare back_while.simps [simp del]

definition linenoiseEditDeletePrevWord :: "linenoiseState \<Rightarrow> linenoiseState option" where
  "linenoiseEditDeletePrevWord l =
     (let pos = back_while l (\<lambda>c. c \<noteq> 32) (back_while l (\<lambda>c. c = 32) (ed_pos l));
          diff = ed_pos l - pos in do {
        m \<leftarrow> mem_move (ed_mem l) pos (ed_pos l) (ed_len l - ed_pos l + 1);
        Some (l\<lparr>ed_mem := m, ed_pos := pos, ed_len := ed_len l - diff,
          ed_folds := linenoiseAdjustFoldsAfterDelete pos diff (ed_folds l)\<rparr>)
      })"

text \<open>Ctrl-T: the characters on both sides of the cursor are exchanged, through a buffer of 32 bytes.\<close>

definition swap_chars :: "linenoiseState \<Rightarrow> linenoiseState option" where
  "swap_chars l =
     (if ed_pos l > 0 \<and> ed_pos l < ed_len l
      then let prevlen = linenoiseEditPrevLen l (ed_pos l); currlen = linenoiseEditNextLen l (ed_pos l); prevstart = ed_pos l - prevlen in
        if prevlen > 32 \<or> currlen > 32 then Some l
        else if linenoiseRangeOverlapsFold (ed_folds l) prevstart (prevlen + currlen) then Some l
        else if ed_pos l + currlen > length (ed_mem l) then None
        else let tmp = take currlen (drop (ed_pos l) (ed_mem l)) in do {
          m \<leftarrow> mem_move (ed_mem l) (prevstart + currlen) prevstart prevlen;
          m \<leftarrow> mem_copy m prevstart tmp;
          Some (l\<lparr>ed_mem := m, ed_pos := (if ed_pos l + currlen \<le> ed_len l then ed_pos l + currlen else ed_pos l)\<rparr>)
        }
      else Some l)"

text \<open>Ctrl-U and Ctrl-K.\<close>

definition delete_line :: "linenoiseState \<Rightarrow> linenoiseState option" where
  "delete_line l = map_option (\<lambda>m. l\<lparr>ed_mem := m, ed_pos := 0, ed_len := 0, ed_folds := []\<rparr>) (mem_copy (ed_mem l) 0 [0])"

definition delete_to_end :: "linenoiseState \<Rightarrow> linenoiseState option" where
  "delete_to_end l =
     map_option (\<lambda>m. l\<lparr>ed_mem := m, ed_len := ed_pos l,
       ed_folds := linenoiseAdjustFoldsAfterDelete (ed_pos l) (ed_len l - ed_pos l) (ed_folds l)\<rparr>) (mem_copy (ed_mem l) (ed_pos l) [0])"

section \<open>Reading bytes\<close>

text \<open>Answers of \<open>read\<close> for one byte; nothing there is followed by the answer of \<open>poll\<close> (ready, or the 250 ms are
  over). When the list ends nothing more comes.\<close>

datatype ed_in = In_byte byte | In_eof | In_intr | In_again bool | In_err

fun linenoiseReadByte :: "ed_in list \<Rightarrow> int \<times> byte \<times> ed_in list" where
  "linenoiseReadByte [] = (- 1, 0, [])"
| "linenoiseReadByte (In_byte c # is) = (1, c, is)"
| "linenoiseReadByte (In_eof # is) = (0, 0, is)"
| "linenoiseReadByte (In_intr # is) = linenoiseReadByte is"
| "linenoiseReadByte (In_again ready # is) = (if ready then linenoiseReadByte is else (- 1, 0, is))"
| "linenoiseReadByte (In_err # is) = (- 1, 0, is)"

lemma read_byte_shorter: "is \<noteq> [] \<Longrightarrow> length (snd (snd (linenoiseReadByte is))) < length is"
proof (induction "is" rule: linenoiseReadByte.induct)
  case (4 "is")
  then show ?case by (cases "is") auto
next
  case (5 ready "is")
  then show ?case by (cases "is") auto
qed auto

lemma read_byte_got: "(1, y) = linenoiseReadByte is \<Longrightarrow> (c, rest) = y \<Longrightarrow> length rest < length is"
  using read_byte_shorter [of "is"] by (cases "is = []") (auto dest: arg_cong [of _ _ "\<lambda>x. length (snd (snd x))"])

section \<open>Pasting\<close>

function paste_want :: "nat \<Rightarrow> nat \<Rightarrow> nat" where
  "paste_want needed want =
     (if want < needed \<and> 0 < want
      then if want * 2 > PASTE_MAX_BYTES then PASTE_MAX_BYTES else paste_want needed (want * 2)
      else want)"
  by pat_completeness auto
termination by (relation "measure (\<lambda>(needed, want). needed - want)") auto

declare paste_want.simps [simp del]

text \<open>Whether the paste buffer of capacity \<open>cap\<close> can take the bytes, its new capacity and the allocator.\<close>

definition pasteBufferReserve :: "nat \<Rightarrow> nat \<Rightarrow> nat \<Rightarrow> heap_answers \<Rightarrow> bool \<times> nat \<times> heap_answers" where
  "pasteBufferReserve cap len need al =
     (if cap \<ge> len + need then (True, cap, al)
      else let want = paste_want (len + need) (if cap = 0 then 64 else cap) in
      if want < len + need then (False, cap, al)
      else case sodium_malloc al of (ok, al) \<Rightarrow> if \<not> ok then (False, cap, al) else (True, want, al))"

definition pasteBufferAppend ::
    "linenoiseState \<Rightarrow> bytes \<Rightarrow> nat \<Rightarrow> heap_answers \<Rightarrow> bytes \<Rightarrow> nat \<Rightarrow> bool \<times> bytes \<times> nat \<times> heap_answers" where
  "pasteBufferAppend l buf cap al s maxlen =
     (if length buf > maxlen \<or> length s > maxlen - length buf then (False, buf, cap, al)
      else if \<not> linenoiseEditGrow l (ed_len l + (length buf + length s)) then (False, buf, cap, al)
      else case pasteBufferReserve cap (length buf) (length s) al of (ok, cap, al) \<Rightarrow>
      if \<not> ok then (False, buf, cap, al) else (True, buf @ s, cap, al))"

definition paste_end :: bytes where "paste_end = [27, 91, 50, 48, 49, 126]"

text \<open>The loop up to the end marker: whether it overflowed, the bytes, the capacity (0 when nothing was allocated), the
  allocator and the input left.\<close>

function paste_loop ::
    "linenoiseState \<Rightarrow> nat \<Rightarrow> ed_in list \<Rightarrow> nat \<Rightarrow> bool \<Rightarrow> bytes \<Rightarrow> nat \<Rightarrow> heap_answers \<Rightarrow> bool \<times> bytes \<times> nat \<times> heap_answers \<times> ed_in list" where
  "paste_loop l maxlen is match over buf cap al =
     (case linenoiseReadByte is of (r, c, rest) \<Rightarrow>
      if r \<noteq> 1 then (over, buf, cap, al, rest)
      else if c = paste_end ! match
      then if match + 1 = length paste_end then (over, buf, cap, al, rest) else paste_loop l maxlen rest (match + 1) over buf cap al
      else case (if match > 0 \<and> \<not> over
                 then (case pasteBufferAppend l buf cap al (take match paste_end) maxlen of (ok, buf, cap, al) \<Rightarrow> (\<not> ok, buf, cap, al))
                 else (over, buf, cap, al)) of (over, buf, cap, al) \<Rightarrow>
      if match > 0 \<and> c = 27 then paste_loop l maxlen rest 1 over buf cap al
      else case (if \<not> over
                 then (case pasteBufferAppend l buf cap al [c] maxlen of (ok, buf, cap, al) \<Rightarrow> (\<not> ok, buf, cap, al))
                 else (over, buf, cap, al)) of (over, buf, cap, al) \<Rightarrow>
      paste_loop l maxlen rest 0 over buf cap al)"
  by pat_completeness auto
termination
  by (relation "measure (\<lambda>(l, maxlen, is, match, over, buf, cap, al). length is)") (simp_all, (metis read_byte_got)+)

declare paste_loop.simps [simp del]

fun paste_norm :: "bytes \<Rightarrow> bytes" where
  "paste_norm [] = []"
| "paste_norm (c # t) =
     (if c = 13 then (case t of [] \<Rightarrow> [10] | d # u \<Rightarrow> if d = 10 then 10 # paste_norm u else 10 # paste_norm (d # u)) else c # paste_norm t)"

definition shouldFoldText :: "bytes \<Rightarrow> bool" where
  "shouldFoldText buf \<longleftrightarrow> 10 \<in> set buf \<or> length buf \<ge> PASTE_FOLD_THRESHOLD"

definition linenoiseEditPaste ::
    "bool \<Rightarrow> heap_answers \<Rightarrow> ed_in list \<Rightarrow> linenoiseState \<Rightarrow> (linenoiseState \<times> heap_answers \<times> ed_in list) option" where
  "linenoiseEditPaste write_ok al is l =
     (let maxlen = min (ed_buflen l - ed_len l) PASTE_MAX_BYTES;
          maxlen = (if length (ed_folds l) = LINENOISE_MAX_FOLDS then 0 else maxlen) in
      case paste_loop l maxlen is 0 False [] 0 al of (over, buf, cap, al, is) \<Rightarrow>
      if over \<or> cap = 0 then Some (l, al, is)
      else let buf = paste_norm buf in
      if shouldFoldText buf
      then (case linenoiseEditInsertNoRefresh l buf of None \<Rightarrow> None
            | Some (ok, l') \<Rightarrow>
              Some (if \<not> ok then l' else l'\<lparr>ed_folds := linenoiseFoldAdd (ed_pos l) (ed_pos l + length buf) (ed_folds l')\<rparr>, al, is))
      else map_option (\<lambda>(_, l). (l, al, is)) (linenoiseEditInsert write_ok l buf))"

section \<open>A key\<close>

text \<open>The digits of a parameter (at most 8 bytes) and the final byte, 0 if there is none.\<close>

fun read_param :: "nat \<Rightarrow> bytes \<Rightarrow> ed_in list \<Rightarrow> bytes \<times> byte \<times> ed_in list" where
  "read_param 0 param is = (param, 0, is)"
| "read_param (Suc n) param is =
     (case linenoiseReadByte is of (r, p, rest) \<Rightarrow>
      if r \<noteq> 1 then (param, 0, rest)
      else if 48 \<le> p \<and> p \<le> 57 then read_param n (param @ [p]) rest
      else (param, p, rest))"

text \<open>What the keys that arrive as escape sequences do.\<close>

definition escape_key ::
    "bool \<Rightarrow> heap_answers \<Rightarrow> ed_in list \<Rightarrow> linenoiseState \<Rightarrow> (linenoiseState \<times> heap_answers \<times> ed_in list) option" where
  "escape_key write_ok al is l =
     (case linenoiseReadByte is of (r, s0, is) \<Rightarrow>
      if r \<noteq> 1 then Some (l, al, is)
      else case linenoiseReadByte is of (r, s1, is) \<Rightarrow>
      if r \<noteq> 1 then Some (l, al, is)
      else if s0 = 91 then
        if 48 \<le> s1 \<and> s1 \<le> 57 then
          (case read_param 7 [s1] is of (param, final, is) \<Rightarrow>
           if final = 126 \<and> param = [51] then map_option (\<lambda>l. (l, al, is)) (linenoiseEditDelete l)
           else if final = 126 \<and> param = [50, 48, 48] then linenoiseEditPaste write_ok al is l
           else Some (l, al, is))
        else Some (if s1 = 67 then linenoiseEditMoveRight l else if s1 = 68 then linenoiseEditMoveLeft l
                   else if s1 = 72 then linenoiseEditMoveHome l else if s1 = 70 then linenoiseEditMoveEnd l else l, al, is)
      else if s0 = 79 then
        Some (if s1 = 72 then linenoiseEditMoveHome l else if s1 = 70 then linenoiseEditMoveEnd l else l, al, is)
      else Some (l, al, is))"

text \<open>The remaining bytes of a multi-byte character: what is inserted (nothing after an error).\<close>

fun read_utf8 :: "nat \<Rightarrow> bytes \<Rightarrow> ed_in list \<Rightarrow> bytes \<times> ed_in list" where
  "read_utf8 0 got is = (got, is)"
| "read_utf8 (Suc n) got is =
     (case linenoiseReadByte is of (r, c, rest) \<Rightarrow>
      if r = 1 then read_utf8 n (got @ [c]) rest else if r = 0 then (got, rest) else ([], rest))"

definition typed_key ::
    "bool \<Rightarrow> heap_answers \<Rightarrow> byte \<Rightarrow> ed_in list \<Rightarrow> linenoiseState \<Rightarrow> (feed_ans \<times> linenoiseState \<times> heap_answers \<times> ed_in list) option" where
  "typed_key write_ok al c is l =
     (if c = 0 \<or> c < 32 \<and> c \<noteq> 9 then Some (Feed_more, l, al, is)
      else case read_utf8 (utf8ByteLen c - 1) [c] is of (s, is) \<Rightarrow>
      if s = [] then Some (Feed_more, l, al, is)
      else map_option (\<lambda>(rc, l). (if rc \<noteq> 0 then Feed_end else Feed_more, l, al, is)) (linenoiseEditInsert write_ok l s))"

text \<open>One call of \<open>linenoiseEditFeed\<close>: what it returns, the state, the allocator and the input left. \<open>Feed_end\<close> stands for
  every \<open>NULL\<close> that is not a cancelled line.\<close>

definition linenoiseEditFeed ::
    "bool \<Rightarrow> heap_answers \<Rightarrow> ed_in list \<Rightarrow> linenoiseState \<Rightarrow> (feed_ans \<times> linenoiseState \<times> heap_answers \<times> ed_in list) option" where
  "linenoiseEditFeed write_ok al is l =
     (let more = (\<lambda>is. map_option (\<lambda>l. (Feed_more, l, al, is))); undrawn = l\<lparr>ed_drawn := False\<rparr> in
      case is of
        [] \<Rightarrow> Some (Feed_more, l, al, [])
      | In_again _ # is \<Rightarrow> Some (Feed_more, l, al, is)
      | In_byte c # is \<Rightarrow>
          if c = 13 then
            (case sodium_malloc al of (ok, al) \<Rightarrow> Some (if ok then Feed_line (c_str (ed_mem l)) else Feed_end, undrawn, al, is))
          else if c = 3 \<or> c = 16 then Some (Feed_cancelled, undrawn, al, is)
          else if c = 127 \<or> c = 8 then more is (linenoiseEditBackspace l)
          else if c = 4 then if ed_len l > 0 then more is (linenoiseEditDelete l) else Some (Feed_end, undrawn, al, is)
          else if c = 20 then more is (swap_chars l)
          else if c = 2 then Some (Feed_more, linenoiseEditMoveLeft l, al, is)
          else if c = 6 then Some (Feed_more, linenoiseEditMoveRight l, al, is)
          else if c = 27 then map_option (\<lambda>(l, al, is). (Feed_more, l, al, is)) (escape_key write_ok al is l)
          else if c = 21 then more is (delete_line l)
          else if c = 11 then more is (delete_to_end l)
          else if c = 1 then Some (Feed_more, linenoiseEditMoveHome l, al, is)
          else if c = 5 then Some (Feed_more, linenoiseEditMoveEnd l, al, is)
          else if c = 12 then Some (Feed_more, l, al, is)
          else if c = 23 then more is (linenoiseEditDeletePrevWord l)
          else typed_key write_ok al c is l
      | _ # is \<Rightarrow> Some (Feed_end, l, al, is))"

section \<open>Drawing\<close>

text \<open>The text shown for a fold.\<close>

definition foldCountLines :: "bytes \<Rightarrow> nat" where
  "foldCountLines s = 1 + length (filter (\<lambda>c. c = 10) s)"

definition foldSetRenderedText :: "bytes \<Rightarrow> bytes" where
  "foldSetRenderedText hidden =
     (if foldCountLines hidden > 1
      then str_bytes ''[... '' @ dec_bytes (foldCountLines hidden) @ str_bytes '' pasted lines ...]''
      else str_bytes ''[... '' @ dec_bytes (length hidden) @ str_bytes '' pasted chars ...]'')"

text \<open>The loop of \<open>linenoiseRenderBuffer\<close>: the block that is filled, how far the source and the block are read and
  written, and the translated cursor once it is known.\<close>

fun render_folds ::
    "bytes \<Rightarrow> nat \<Rightarrow> (nat \<times> nat) list \<Rightarrow> bytes \<times> nat \<times> nat \<times> nat option \<Rightarrow> (bytes \<times> nat \<times> nat \<times> nat option) option" where
  "render_folds buf p [] st = Some st"
| "render_folds buf p ((start, end) # fs) (r, src, dst, outpos) =
     (let display = foldSetRenderedText (take (end - start) (drop start buf));
          gap = start - src;
          outpos = (if outpos = None \<and> p \<le> start then Some (dst + (p - src)) else outpos) in do {
        r \<leftarrow> mem_copy r dst (take gap (drop src buf));
        let dst = dst + gap;
        let outpos = (if outpos = None \<and> p < end then Some (dst + length display) else outpos);
        r \<leftarrow> mem_copy r dst display;
        let dst = dst + length display;
        let outpos = (if outpos = None \<and> p = end then Some dst else outpos);
        render_folds buf p fs (r, end, dst, outpos)
      })"

text \<open>The text that is drawn and the cursor in it; \<open>fresh n\<close> is a new block of \<open>n\<close> bytes.\<close>

definition linenoiseRenderBuffer :: "(nat \<Rightarrow> bytes) \<Rightarrow> linenoiseState \<Rightarrow> (bytes \<times> nat) option" where
  "linenoiseRenderBuffer fresh l =
     (let fs = linenoiseGetRenderFolds l; buf = ed_text l in
      if fs = [] then Some (buf, ed_pos l)
      else let shown = (\<lambda>(s, e). length (foldSetRenderedText (take (e - s) (drop s buf))));
               len = fold (\<lambda>f n. n - (snd f - fst f) + shown f) fs (ed_len l) in do {
        (r, src, dst, outpos) \<leftarrow> render_folds buf (ed_pos l) fs (fresh (len + 1), 0, 0, None);
        let pos = (case outpos of None \<Rightarrow> dst + (ed_pos l - src) | Some q \<Rightarrow> q);
        r \<leftarrow> mem_copy r dst (drop src buf);
        r \<leftarrow> mem_copy r len [0];
        Some (take len r, pos)
      })"

text \<open>The two trimming loops of \<open>refreshSingleLine\<close>, with a bound on their rounds; \<open>None\<close>: not finished. The first removes
  characters on the left while the cursor is beyond the right edge, the second on the right.\<close>

fun scroll_left :: "nat \<Rightarrow> nat \<Rightarrow> nat \<Rightarrow> bytes \<Rightarrow> nat \<Rightarrow> size_t \<Rightarrow> (bytes \<times> nat \<times> size_t) option" where
  "scroll_left 0 pwidth cols buf poscol lencol = None"
| "scroll_left (Suc n) pwidth cols buf poscol lencol =
     (if pwidth + poscol \<ge> cols
      then let clen = utf8NextCharLen buf 0; cwidth = utf8SingleCharWidth (take clen buf) in
        if poscol < cwidth then Some (buf, poscol, lencol)
        else scroll_left n pwidth cols (drop clen buf) (poscol - cwidth) (lencol - of_nat cwidth)
      else Some (buf, poscol, lencol))"

fun trim_end :: "nat \<Rightarrow> nat \<Rightarrow> nat \<Rightarrow> bytes \<Rightarrow> size_t \<Rightarrow> bytes option" where
  "trim_end 0 pwidth cols buf lencol = None"
| "trim_end (Suc n) pwidth cols buf lencol =
     (if unat (of_nat pwidth + lencol) > cols
      then let clen = utf8PrevCharLen buf (length buf); cwidth = utf8SingleCharWidth (drop (length buf - clen) buf) in
        if lencol < of_nat cwidth then Some buf
        else trim_end n pwidth cols (take (length buf - clen) buf) (lencol - of_nat cwidth)
      else Some buf)"

text \<open>What \<open>refreshSingleLine\<close> writes (with \<open>REFRESH_ALL\<close>).\<close>

definition refreshSingleLine :: "nat \<Rightarrow> (nat \<Rightarrow> bytes) \<Rightarrow> linenoiseState \<Rightarrow> bytes option" where
  "refreshSingleLine rounds fresh l = do {
     (buf, pos) \<leftarrow> linenoiseRenderBuffer fresh l;
     let pwidth = utf8StrWidth (ed_prompt l);
     (buf, poscol, lencol) \<leftarrow> scroll_left rounds pwidth (ed_cols l) buf (utf8StrWidth (take pos buf)) (of_nat (utf8StrWidth buf));
     buf \<leftarrow> trim_end rounds pwidth (ed_cols l) buf lencol;
     Some ([13] @ ed_prompt l @ buf @ [27, 91, 48, 75] @ [13, 27, 91] @ dec_bytes (poscol + pwidth) @ [67])
   }"

end
