(* ===== verification/Nox_Editor_Props.thy ===== *)
theory Nox_Editor_Props
  imports Nox_Editor
begin

text \<open>
  What the line editor promises: whatever bytes arrive, its state stays well formed and no copy leaves the buffer;
  on plain text every key does to the text and the cursor what a text editor does.
\<close>

section \<open>Copies in the block\<close>

lemma mem_insert:
  assumes "len + length c < length mem" "p \<le> len"
  shows "(if len = p then Some mem else mem_move mem (p + length c) p (len - p)) \<bind>
      (\<lambda>m. mem_copy m p c \<bind> (\<lambda>m. mem_copy m (len + length c) [0])) =
    Some (take p mem @ c @ take (len - p) (drop p mem) @ [0] @ drop (Suc (len + length c)) mem)"
  using assms by (auto simp: mem_move_def mem_copy_def take_append drop_append min_def not_le add.commute)

lemma bind_then: "x \<bind> g = Some y \<Longrightarrow> x \<bind> (\<lambda>m. g m \<bind> f) = f y"
  by (cases x) auto

lemma mem_delete:
  assumes "len < length mem" "p + n \<le> len"
  shows "mem_move mem p (p + n) (len - p - n) \<bind> (\<lambda>m. mem_copy m (len - n) [0]) =
    Some (take p mem @ take (len - p - n) (drop (p + n) mem) @ [0] @ drop (Suc (len - n)) mem)"
proof -
  obtain k where k: "len = p + n + k" using assms(2) le_Suc_ex by blast
  show ?thesis using assms(1) by (simp add: k mem_move_def mem_copy_def take_append drop_append)
qed

lemma mem_swap:
  assumes "q + a + b \<le> length mem"
  shows "mem_move mem (q + b) q a \<bind> (\<lambda>m. mem_copy m q (take b (drop (q + a) mem))) =
    Some (take q mem @ take b (drop (q + a) mem) @ take a (drop q mem) @ drop (q + a + b) mem)"
proof -
  obtain X Y Z W where m: "mem = X @ Y @ Z @ W" "length X = q" "length Y = a" "length Z = b"
  proof
    show "mem = take q mem @ take a (drop q mem) @ take b (drop (q + a) mem) @ drop (q + a + b) mem"
      by (metis append_take_drop_id add.commute drop_drop)
  qed (use assms in auto)
  show ?thesis by (simp add: m mem_move_def mem_copy_def flip: m(2-4))
qed

section \<open>Well formed states\<close>

text \<open>Folds are in order, disjoint, not empty and within the text: from \<open>lo\<close> to \<open>n\<close>.\<close>

fun folds_within :: "nat \<Rightarrow> nat \<Rightarrow> (nat \<times> nat) list \<Rightarrow> bool" where
  "folds_within lo n [] \<longleftrightarrow> lo \<le> n"
| "folds_within lo n ((s, e) # fs) \<longleftrightarrow> lo \<le> s \<and> s < e \<and> folds_within e n fs"

definition ed_wf :: "linenoiseState \<Rightarrow> bool" where
  "ed_wf l \<longleftrightarrow> length (ed_mem l) = ed_buflen l + 1 \<and> ed_len l \<le> ed_buflen l \<and> ed_pos l \<le> ed_len l \<and> ed_mem l ! ed_len l = 0 \<and>
     folds_within 0 (ed_len l) (ed_folds l) \<and> length (ed_folds l) \<le> LINENOISE_MAX_FOLDS \<and> 2 \<le> ed_cols l"

lemma folds_within_le: "folds_within lo n fs \<Longrightarrow> lo \<le> n"
  by (induction lo n fs rule: folds_within.induct) auto

lemma folds_within_mem: "folds_within lo n fs \<Longrightarrow> (s, e) \<in> set fs \<Longrightarrow> lo \<le> s \<and> s < e \<and> e \<le> n"
proof (induction lo n fs rule: folds_within.induct)
  case (2 lo n a b fs)
  then show ?case using folds_within_le [of b n fs] by auto
qed simp

lemma folds_within_weaken: "folds_within lo n fs \<Longrightarrow> lo' \<le> lo \<Longrightarrow> n \<le> n' \<Longrightarrow> folds_within lo' n' fs"
  by (induction lo n fs arbitrary: lo' rule: folds_within.induct) auto

lemma folds_within_append: "folds_within lo n (fs @ gs) \<longleftrightarrow> (\<exists>m. folds_within lo m fs \<and> folds_within m n gs)"
proof (induction lo n fs rule: folds_within.induct)
  case (1 lo n)
  show ?case using folds_within_weaken [of _ n gs lo n] by auto
qed auto

lemma after_insert_shift: "folds_within lo n fs \<Longrightarrow> pos \<le> lo \<Longrightarrow>
    folds_within (lo + k) (n + k) (linenoiseAdjustFoldsAfterInsert pos k fs)"
  by (induction lo n fs rule: folds_within.induct) auto

lemma after_insert_within: "folds_within lo n fs \<Longrightarrow> folds_within lo (n + k) (linenoiseAdjustFoldsAfterInsert pos k fs)"
proof (induction lo n fs rule: folds_within.induct)
  case (2 lo n s e fs)
  consider "pos \<le> s" | "s < pos" "pos < e" | "e \<le> pos" by linarith
  then show ?case
  proof cases
    case 1
    with 2 have "folds_within (e + k) (n + k) (linenoiseAdjustFoldsAfterInsert pos k fs)" by (intro after_insert_shift) auto
    with 1 2 show ?thesis by simp
  next
    case inside: 2
    from 2 have "folds_within e (n + k) (linenoiseAdjustFoldsAfterInsert pos k fs)" by simp
    with inside 2 show ?thesis by (auto intro: folds_within_weaken)
  qed (use 2 in auto)
qed simp

lemma after_delete_shift: "folds_within lo n fs \<Longrightarrow> pos + k \<le> lo \<Longrightarrow>
    folds_within (lo - k) (n - k) (linenoiseAdjustFoldsAfterDelete pos k fs)"
  by (induction lo n fs rule: folds_within.induct) auto

lemma after_delete_within:
  "folds_within lo n fs \<Longrightarrow> pos + k \<le> n \<Longrightarrow> folds_within (min lo pos) (n - k) (linenoiseAdjustFoldsAfterDelete pos k fs)"
proof (induction lo n fs rule: folds_within.induct)
  case (2 lo n s e fs)
  consider "pos + k \<le> s" | "\<not> pos + k \<le> s" "e \<le> pos" | "s < pos + k" "pos < e" by linarith
  then show ?case
  proof cases
    case 1
    with 2 have "folds_within (e - k) (n - k) (linenoiseAdjustFoldsAfterDelete pos k fs)" by (intro after_delete_shift) auto
    with 1 2 show ?thesis by auto
  next
    case inside: 3
    from 2 have "folds_within (min e pos) (n - k) (linenoiseAdjustFoldsAfterDelete pos k fs)" by simp
    with inside show ?thesis by (auto intro: folds_within_weaken)
  qed (use 2 in \<open>auto simp: min_def split: if_splits\<close>)
qed auto

lemma length_after:
  "length (linenoiseAdjustFoldsAfterInsert pos k fs) \<le> length fs" "length (linenoiseAdjustFoldsAfterDelete pos k fs) \<le> length fs"
  by (induction pos k fs rule: linenoiseAdjustFoldsAfterInsert.induct, auto) (metis le_SucI)

text \<open>No fold covers the place of an insertion once it is made.\<close>

definition folds_clear :: "nat \<Rightarrow> nat \<Rightarrow> (nat \<times> nat) list \<Rightarrow> bool" where
  "folds_clear a b fs \<longleftrightarrow> (\<forall>(s, e) \<in> set fs. e \<le> a \<or> b \<le> s)"

lemma after_insert_clear: "folds_clear pos (pos + k) (linenoiseAdjustFoldsAfterInsert pos k fs)"
  by (induction pos k fs rule: linenoiseAdjustFoldsAfterInsert.induct) (auto simp: folds_clear_def)

lemma fold_add_within:
  assumes w: "folds_within 0 n fs" and c: "folds_clear a b fs" and n: "b \<le> n"
  shows "folds_within 0 n (linenoiseFoldAdd a b fs)"
proof -
  define before where "before = rev (dropWhile (\<lambda>(s, _). a < s) (rev fs))"
  define after where "after = rev (takeWhile (\<lambda>(s, _). a < s) (rev fs))"
  have fs: "fs = before @ after" unfolding before_def after_def by (metis rev_append rev_rev_ident takeWhile_dropWhile_id)
  have la: "\<forall>(s, e) \<in> set after. a < s" unfolding after_def by (auto dest: set_takeWhileD)
  show ?thesis
  proof (cases "a \<ge> b \<or> length fs = LINENOISE_MAX_FOLDS")
    case True
    with w show ?thesis by (simp add: linenoiseFoldAdd_def)
  next
    case False
    obtain m where m: "folds_within 0 m before" "folds_within m n after" using w fs folds_within_append by blast
    have "folds_within b n after"
    proof (cases after)
      case Nil
      with n show ?thesis by simp
    next
      case (Cons f gs)
      obtain s e where "f = (s, e)" by fastforce
      with Cons m(2) la c fs False show ?thesis by (auto simp: folds_clear_def)
    qed
    moreover have "folds_within 0 a before"
    proof (cases before rule: rev_cases)
      case (snoc gs f)
      obtain s e where f: "f = (s, e)" by fastforce
      have "\<not> a < s" using snoc f unfolding before_def by (metis (mono_tags, lifting) case_prod_conv hd_dropWhile list.sel(1) list.distinct(1) rev.simps(2) rev_append rev_rev_ident append_Cons append_Nil rev_is_Nil_conv)
      with c fs snoc f False have "e \<le> a" by (auto simp: folds_clear_def)
      with m(1) snoc f show ?thesis by (auto simp: folds_within_append)
    qed simp
    ultimately show ?thesis using False unfolding linenoiseFoldAdd_def Let_def before_def after_def
      by (auto simp: folds_within_append)
  qed
qed

lemma fold_add_length: "length fs \<le> LINENOISE_MAX_FOLDS \<Longrightarrow> length (linenoiseFoldAdd a b fs) \<le> LINENOISE_MAX_FOLDS"
proof -
  assume "length fs \<le> LINENOISE_MAX_FOLDS"
  moreover have "length (takeWhile P (rev fs)) + length (dropWhile P (rev fs)) = length fs" for P
    by (metis length_append length_rev takeWhile_dropWhile_id)
  ultimately show ?thesis by (auto simp: linenoiseFoldAdd_def Let_def add.commute)
qed

section \<open>Extents\<close>

lemma text_length [simp]: "ed_wf l \<Longrightarrow> length (ed_text l) = ed_len l"
  by (simp add: ed_wf_def ed_text_def)

lemma render_fold_mem: "find P (linenoiseGetRenderFolds l) = Some (s, e) \<Longrightarrow> P (s, e) \<and> s < e \<and> e \<le> ed_len l"
  by (auto simp: linenoiseGetRenderFolds_def find_Some_iff dest!: nth_mem split: if_splits)

lemma next_len: "ed_wf l \<Longrightarrow> pos < ed_len l \<Longrightarrow> 0 < linenoiseEditNextLen l pos \<and> pos + linenoiseEditNextLen l pos \<le> ed_len l"
  using next_char_len [of pos "ed_text l"]
  by (auto simp: linenoiseEditNextLen_def split: option.splits dest!: render_fold_mem)

lemma prev_len: "0 < pos \<Longrightarrow> 0 < linenoiseEditPrevLen l pos \<and> linenoiseEditPrevLen l pos \<le> pos"
  using prev_char_len [of pos "ed_text l"]
  by (auto simp: linenoiseEditPrevLen_def split: option.splits dest!: render_fold_mem)

lemma back_while_le: "back_while l P pos \<le> pos"
proof (induction l P pos rule: back_while.induct)
  case (1 l P pos)
  then show ?case by (subst back_while.simps) (auto simp: step_left_def intro: order_trans)
qed

section \<open>The operations keep the state well formed\<close>

text \<open>What no operation changes.\<close>

definition ed_frame :: "linenoiseState \<Rightarrow> linenoiseState \<Rightarrow> bool" where
  "ed_frame l l' \<longleftrightarrow> ed_wf l' \<and> ed_buflen l' = ed_buflen l \<and> ed_prompt l' = ed_prompt l \<and> ed_cols l' = ed_cols l"

lemma ed_frame_refl: "ed_wf l \<Longrightarrow> ed_frame l l"
  by (simp add: ed_frame_def)

lemma ed_frame_trans: "ed_frame l l' \<Longrightarrow> ed_frame l' l'' \<Longrightarrow> ed_frame l l''"
  by (simp add: ed_frame_def)

lemma insert_exact:
  assumes wf: "ed_wf l" and room: "ed_len l + length c \<le> ed_buflen l"
  obtains l' where "linenoiseEditInsertNoRefresh l c = Some (True, l')" "ed_frame l l'"
    "ed_text l' = take (ed_pos l) (ed_text l) @ c @ drop (ed_pos l) (ed_text l)" "ed_pos l' = ed_pos l + length c"
    "ed_len l' = ed_len l + length c" "ed_folds l' = linenoiseAdjustFoldsAfterInsert (ed_pos l) (length c) (ed_folds l)"
proof
  let ?m = "take (ed_pos l) (ed_mem l) @ c @ take (ed_len l - ed_pos l) (drop (ed_pos l) (ed_mem l)) @ [0] @ drop (Suc (ed_len l + length c)) (ed_mem l)"
  let ?l = "l\<lparr>ed_mem := ?m, ed_pos := ed_pos l + length c, ed_len := ed_len l + length c,
          ed_folds := linenoiseAdjustFoldsAfterInsert (ed_pos l) (length c) (ed_folds l)\<rparr>"
  have w: "length (ed_mem l) = ed_buflen l + 1" "ed_pos l \<le> ed_len l" "folds_within 0 (ed_len l) (ed_folds l)" using wf by (auto simp: ed_wf_def)
  have "ed_len l + length c < length (ed_mem l)" using room w by simp
  note mem_insert [OF this w(2)]
  then show "linenoiseEditInsertNoRefresh l c = Some (True, ?l)"
    using room by (auto simp: linenoiseEditInsertNoRefresh_def linenoiseEditGrow_def Option.bind_eq_Some_conv split: bind_splits if_splits)
  have len: "length ?m = ed_buflen l + 1" using w room by simp
  obtain j where j: "ed_len l = ed_pos l + j" using w(2) le_Suc_ex by blast
  show "ed_text ?l = take (ed_pos l) (ed_text l) @ c @ drop (ed_pos l) (ed_text l)"
    using w room by (auto simp: j ed_text_def take_append drop_take min_def)
  have "?m ! (ed_len l + length c) = 0" using w room by (auto simp: j nth_append min_def)
  with wf len after_insert_within [OF w(3)] order_trans [OF length_after(1)] show "ed_frame l ?l"
    using room by (auto simp: ed_wf_def ed_frame_def)
qed simp_all

text \<open>The \<open>n\<close> bytes at \<open>p\<close> are gone and the cursor is there.\<close>

definition ed_cut :: "linenoiseState \<Rightarrow> nat \<Rightarrow> nat \<Rightarrow> linenoiseState \<Rightarrow> bool" where
  "ed_cut l p n l' \<longleftrightarrow> ed_frame l l' \<and> ed_text l' = take p (ed_text l) @ drop (p + n) (ed_text l) \<and> ed_pos l' = p \<and>
     ed_len l' = ed_len l - n \<and> ed_folds l' = linenoiseAdjustFoldsAfterDelete p n (ed_folds l)"

lemma cut_exact:
  assumes wf: "ed_wf l" and p: "p + n \<le> ed_len l"
    and m: "m = take p (ed_mem l) @ take (ed_len l - p - n) (drop (p + n) (ed_mem l)) @ [0] @ drop (Suc (ed_len l - n)) (ed_mem l)"
    and l': "l' = l\<lparr>ed_mem := m, ed_pos := p, ed_len := ed_len l - n, ed_folds := linenoiseAdjustFoldsAfterDelete p n (ed_folds l)\<rparr>"
  shows "ed_cut l p n l'"
proof -
  have w: "length (ed_mem l) = ed_buflen l + 1" "ed_len l \<le> ed_buflen l" "folds_within 0 (ed_len l) (ed_folds l)" using wf by (auto simp: ed_wf_def)
  obtain k where k: "ed_len l = p + n + k" using p le_Suc_ex by blast
  have "length m = ed_buflen l + 1" "m ! (ed_len l - n) = 0" using w p by (auto simp: m k nth_append min_def)
  moreover have "folds_within 0 (ed_len l - n) (linenoiseAdjustFoldsAfterDelete p n (ed_folds l))"
    using after_delete_within [OF w(3) p] by simp
  ultimately have "ed_frame l l'"
    using wf p order_trans [OF length_after(2)] by (auto simp: l' ed_wf_def ed_frame_def)
  moreover have "take (ed_len l - n) m = take p (ed_text l) @ drop (p + n) (ed_text l)"
    using w p by (auto simp: m k ed_text_def take_append drop_take min_def)
  ultimately show ?thesis by (simp add: ed_cut_def l' ed_text_def)
qed

lemma mem_zero: "ed_wf l \<Longrightarrow> drop (ed_len l) (ed_mem l) = 0 # drop (Suc (ed_len l)) (ed_mem l)"
  using Cons_nth_drop_Suc [of "ed_len l" "ed_mem l"] by (simp add: ed_wf_def)

lemma delete_cut:
  assumes wf: "ed_wf l" and p: "ed_pos l < ed_len l"
  obtains l' where "linenoiseEditDelete l = Some l'" "ed_cut l (ed_pos l) (linenoiseEditNextLen l (ed_pos l)) l'"
proof -
  define n where "n = linenoiseEditNextLen l (ed_pos l)"
  have n: "ed_pos l + n \<le> ed_len l" using next_len [OF wf p] by (simp add: n_def)
  have "ed_len l < length (ed_mem l)" using wf by (simp add: ed_wf_def)
  note d = mem_delete [OF this n]
  let ?m = "take (ed_pos l) (ed_mem l) @ take (ed_len l - ed_pos l - n) (drop (ed_pos l + n) (ed_mem l)) @ [0] @ drop (Suc (ed_len l - n)) (ed_mem l)"
  show thesis
  proof
    show "linenoiseEditDelete l = Some (l\<lparr>ed_mem := ?m, ed_len := ed_len l - n, ed_folds := linenoiseAdjustFoldsAfterDelete (ed_pos l) n (ed_folds l)\<rparr>)"
      using p bind_then [OF d] by (simp add: linenoiseEditDelete_def n_def [symmetric])
    show "ed_cut l (ed_pos l) (linenoiseEditNextLen l (ed_pos l)) (l\<lparr>ed_mem := ?m, ed_len := ed_len l - n, ed_folds := linenoiseAdjustFoldsAfterDelete (ed_pos l) n (ed_folds l)\<rparr>)"
      unfolding n_def [symmetric] by (rule cut_exact [OF wf n refl]) simp
  qed
qed

lemma backspace_cut:
  assumes wf: "ed_wf l" and p: "0 < ed_pos l"
  obtains l' where "linenoiseEditBackspace l = Some l'"
    "ed_cut l (ed_pos l - linenoiseEditPrevLen l (ed_pos l)) (linenoiseEditPrevLen l (ed_pos l)) l'"
proof -
  define n where "n = linenoiseEditPrevLen l (ed_pos l)"
  have n: "n \<le> ed_pos l" using prev_len [OF p] by (simp add: n_def)
  have le: "ed_pos l \<le> ed_len l" "ed_len l < length (ed_mem l)" using wf by (auto simp: ed_wf_def)
  then have n': "ed_pos l - n + n \<le> ed_len l" using n by simp
    let ?m = "take (ed_pos l - n) (ed_mem l) @ take (ed_len l - (ed_pos l - n) - n) (drop (ed_pos l - n + n) (ed_mem l)) @ [0] @ drop (Suc (ed_len l - n)) (ed_mem l)"
  let ?l = "l\<lparr>ed_mem := ?m, ed_pos := ed_pos l - n, ed_len := ed_len l - n, ed_folds := linenoiseAdjustFoldsAfterDelete (ed_pos l - n) n (ed_folds l)\<rparr>"
  show thesis
  proof
    show "linenoiseEditBackspace l = Some ?l"
      using p le n bind_then [OF mem_delete [OF le(2) n']] by (simp add: linenoiseEditBackspace_def n_def [symmetric])
    show "ed_cut l (ed_pos l - linenoiseEditPrevLen l (ed_pos l)) (linenoiseEditPrevLen l (ed_pos l)) ?l"
      unfolding n_def [symmetric] by (rule cut_exact [OF wf n' refl]) simp
  qed
qed

lemma prev_word_cut:
  assumes wf: "ed_wf l"
  obtains l' where "linenoiseEditDeletePrevWord l = Some l'"
    "ed_cut l (back_while l (\<lambda>c. c \<noteq> 32) (back_while l (\<lambda>c. c = 32) (ed_pos l)))
       (ed_pos l - back_while l (\<lambda>c. c \<noteq> 32) (back_while l (\<lambda>c. c = 32) (ed_pos l))) l'"
proof -
  define q where "q = back_while l (\<lambda>c. c \<noteq> 32) (back_while l (\<lambda>c. c = 32) (ed_pos l))"
  define n where "n = ed_pos l - q"
  have q: "q \<le> ed_pos l" unfolding q_def using back_while_le order_trans by blast
  have le: "ed_pos l \<le> ed_len l" "ed_len l < length (ed_mem l)" using wf by (auto simp: ed_wf_def)
  then have n: "q + n = ed_pos l" "q + n \<le> ed_len l" using q by (auto simp: n_def)
  obtain k where k: "ed_len l = q + n + k" using n(2) le_Suc_ex by blast
  let ?m = "take q (ed_mem l) @ take (ed_len l - q - n) (drop (q + n) (ed_mem l)) @ [0] @ drop (Suc (ed_len l - n)) (ed_mem l)"
  let ?l = "l\<lparr>ed_mem := ?m, ed_pos := q, ed_len := ed_len l - n, ed_folds := linenoiseAdjustFoldsAfterDelete q n (ed_folds l)\<rparr>"
  have "take (Suc k) (drop (q + n) (ed_mem l)) = take k (drop (q + n) (ed_mem l)) @ [0]"
    using mem_zero [OF wf] le by (simp add: k take_add [of k 1, simplified] ac_simps)
  then have "mem_move (ed_mem l) q (ed_pos l) (ed_len l - ed_pos l + 1) = Some ?m"
    using le by (simp add: mem_move_def mem_copy_def k n(1) [symmetric])
  then show thesis
    using that [of ?l] cut_exact [OF wf n(2) refl refl]
    by (simp add: linenoiseEditDeletePrevWord_def q_def [symmetric] n_def [symmetric])
qed

lemma delete_line_cut:
  assumes wf: "ed_wf l"
  obtains l' where "delete_line l = Some l'" "ed_cut l 0 (ed_len l) l'"
proof -
  have f: "folds_within 0 (ed_len l) (ed_folds l)" and m: "0 < length (ed_mem l)" using wf by (auto simp: ed_wf_def)
  have none: "linenoiseAdjustFoldsAfterDelete 0 n fs = []" if "\<forall>(s, e) \<in> set fs. s < e \<and> s < n" for n fs
    using that by (induction fs) auto
  have "linenoiseAdjustFoldsAfterDelete 0 (ed_len l) (ed_folds l) = []" using folds_within_mem [OF f] by (intro none) fastforce
  moreover have "mem_copy (ed_mem l) 0 [0] = Some (0 # drop 1 (ed_mem l))" using m by (simp add: mem_copy_def Suc_le_eq)
  ultimately show thesis using that cut_exact [OF wf, of 0 "ed_len l"] by (simp add: delete_line_def)
qed

lemma delete_to_end_cut:
  assumes wf: "ed_wf l"
  obtains l' where "delete_to_end l = Some l'" "ed_cut l (ed_pos l) (ed_len l - ed_pos l) l'"
proof -
  have w: "ed_pos l \<le> ed_len l" "ed_len l < length (ed_mem l)" using wf by (auto simp: ed_wf_def)
  have "mem_copy (ed_mem l) (ed_pos l) [0] = Some (take (ed_pos l) (ed_mem l) @ 0 # drop (Suc (ed_pos l)) (ed_mem l))"
    using w by (simp add: mem_copy_def)
  then show thesis using that cut_exact [OF wf, of "ed_pos l" "ed_len l - ed_pos l"] w by (simp add: delete_to_end_def)
qed

lemma swap_exact:
  assumes wf: "ed_wf l"
  obtains l' where "swap_chars l = Some l'" "ed_frame l l'" "ed_len l' = ed_len l" "ed_folds l' = ed_folds l"
    "\<lbrakk>0 < ed_pos l; ed_pos l < ed_len l; a = linenoiseEditPrevLen l (ed_pos l); b = linenoiseEditNextLen l (ed_pos l); a \<le> 32; b \<le> 32;
      \<not> linenoiseRangeOverlapsFold (ed_folds l) (ed_pos l - a) (a + b)\<rbrakk> \<Longrightarrow>
     ed_pos l' = ed_pos l + b \<and> ed_text l' = take (ed_pos l - a) (ed_text l) @ take b (drop (ed_pos l) (ed_text l)) @
       take a (drop (ed_pos l - a) (ed_text l)) @ drop (ed_pos l + b) (ed_text l)"
    "\<not> (0 < ed_pos l \<and> ed_pos l < ed_len l) \<Longrightarrow> l' = l"
proof (cases "0 < ed_pos l \<and> ed_pos l < ed_len l \<and> linenoiseEditPrevLen l (ed_pos l) \<le> 32 \<and> linenoiseEditNextLen l (ed_pos l) \<le> 32 \<and>
    \<not> linenoiseRangeOverlapsFold (ed_folds l) (ed_pos l - linenoiseEditPrevLen l (ed_pos l)) (linenoiseEditPrevLen l (ed_pos l) + linenoiseEditNextLen l (ed_pos l))")
  case False
  then have "swap_chars l = Some l" by (auto simp: swap_chars_def Let_def not_le)
  with False that [of l] ed_frame_refl [OF wf] show thesis by auto
next
  case True
  define x where "x = linenoiseEditPrevLen l (ed_pos l)"
  define y where "y = linenoiseEditNextLen l (ed_pos l)"
  define q where "q = ed_pos l - x"
  have x: "0 < x" "ed_pos l = q + x" using prev_len [of "ed_pos l" l] True by (auto simp: q_def x_def)
  have y: "q + x + y \<le> ed_len l" using next_len [OF wf, of "ed_pos l"] True by (simp add: y_def flip: x(2))
  have w: "length (ed_mem l) = ed_buflen l + 1" "ed_len l \<le> ed_buflen l" "ed_mem l ! ed_len l = 0" using wf by (auto simp: ed_wf_def)
  note xyq = x_def [symmetric] y_def [symmetric] q_def [symmetric]
  let ?m = "take q (ed_mem l) @ take y (drop (ed_pos l) (ed_mem l)) @ take x (drop q (ed_mem l)) @ drop (ed_pos l + y) (ed_mem l)"
  let ?l = "l\<lparr>ed_mem := ?m, ed_pos := ed_pos l + y\<rparr>"
  have "q + x + y \<le> length (ed_mem l)" using y w by simp
  note mv = bind_then [OF mem_swap [OF this, folded x(2)]]
  have "\<not> length (ed_mem l) < ed_pos l + y" "ed_pos l + y \<le> ed_len l" using y w by (auto simp: x(2))
  then have s: "swap_chars l = Some ?l"
    using True mv by (simp add: swap_chars_def Let_def xyq)
  obtain k where k: "ed_len l = q + x + y + k" using y le_Suc_ex by blast
  have t: "ed_text ?l = take q (ed_text l) @ take y (drop (ed_pos l) (ed_text l)) @ take x (drop q (ed_text l)) @ drop (ed_pos l + y) (ed_text l)"
    using w by (auto simp: ed_text_def k x(2) take_append drop_take min_def ac_simps)
  have f: "ed_frame l ?l" using wf y w by (auto simp: ed_frame_def ed_wf_def k x(2) nth_append min_def ac_simps)
  show thesis
  proof (rule that [OF s f])
    assume "a = linenoiseEditPrevLen l (ed_pos l)" "b = linenoiseEditNextLen l (ed_pos l)"
    then show "ed_pos ?l = ed_pos l + b \<and> ed_text ?l = take (ed_pos l - a) (ed_text l) @ take b (drop (ed_pos l) (ed_text l)) @
       take a (drop (ed_pos l - a) (ed_text l)) @ drop (ed_pos l + b) (ed_text l)"
      by (simp add: xyq t)
  qed (use True in simp_all)
qed

lemma move_frame: "ed_wf l \<Longrightarrow> q \<le> ed_len l \<Longrightarrow> ed_frame l (l\<lparr>ed_pos := q\<rparr>)"
  by (simp add: ed_frame_def ed_wf_def)

lemma moves_frame:
  assumes "ed_wf l"
  shows "ed_frame l (linenoiseEditMoveLeft l)" "ed_frame l (linenoiseEditMoveRight l)"
    "ed_frame l (linenoiseEditMoveHome l)" "ed_frame l (linenoiseEditMoveEnd l)"
proof -
  have "ed_pos l \<le> ed_len l" using assms by (simp add: ed_wf_def)
  with next_len [OF assms, of "ed_pos l"] move_frame [OF assms] ed_frame_refl [OF assms]
  show "ed_frame l (linenoiseEditMoveLeft l)" "ed_frame l (linenoiseEditMoveRight l)"
    "ed_frame l (linenoiseEditMoveHome l)" "ed_frame l (linenoiseEditMoveEnd l)"
    by (auto simp: linenoiseEditMoveLeft_def linenoiseEditMoveRight_def linenoiseEditMoveHome_def linenoiseEditMoveEnd_def)
qed

lemma insert_frame:
  assumes "ed_wf l"
  obtains ok l' where "linenoiseEditInsertNoRefresh l c = Some (ok, l')" "ed_frame l l'"
    "ok \<Longrightarrow> folds_clear (ed_pos l) (ed_pos l + length c) (ed_folds l') \<and> ed_len l' = ed_len l + length c"
proof (cases "ed_len l + length c \<le> ed_buflen l")
  case True
  from insert_exact [OF assms True] that after_insert_clear show thesis by metis
next
  case False
  then have "linenoiseEditInsertNoRefresh l c = Some (False, l)" by (simp add: linenoiseEditInsertNoRefresh_def linenoiseEditGrow_def)
  with that ed_frame_refl [OF assms] show thesis by blast
qed

lemma edit_insert_frame:
  assumes "ed_wf l"
  obtains rc l' where "linenoiseEditInsert w l c = Some (rc, l')" "ed_frame l l'"
proof -
  obtain ok l' where "linenoiseEditInsertNoRefresh l c = Some (ok, l')" "ed_frame l l'" using insert_frame [OF assms] by metis
  moreover from this have "\<exists>rc. linenoiseEditInsert w l c = Some (rc, l')" by (simp add: linenoiseEditInsert_def)
  ultimately show thesis using that by blast
qed

lemma paste_frame:
  assumes wf: "ed_wf l"
  obtains l' al' is' where "linenoiseEditPaste w al is l = Some (l', al', is')" "ed_frame l l'"
proof -
  obtain over buf cap al' is' where p: "paste_loop l (if length (ed_folds l) = LINENOISE_MAX_FOLDS then 0 else min (ed_buflen l - ed_len l) PASTE_MAX_BYTES)
      is 0 False [] 0 al = (over, buf, cap, al', is')" by (metis prod_cases5)
  let ?b = "paste_norm buf"
  obtain ok li where i: "linenoiseEditInsertNoRefresh l ?b = Some (ok, li)" "ed_frame l li"
    and c: "ok \<Longrightarrow> folds_clear (ed_pos l) (ed_pos l + length ?b) (ed_folds li) \<and> ed_len li = ed_len l + length ?b"
    using insert_frame [OF wf] by metis
  obtain rc lj where j: "linenoiseEditInsert w l ?b = Some (rc, lj)" "ed_frame l lj" using edit_insert_frame [OF wf] by metis
  have "ed_frame l (li\<lparr>ed_folds := linenoiseFoldAdd (ed_pos l) (ed_pos l + length ?b) (ed_folds li)\<rparr>)" if ok
    using i(2) c [OF that] fold_add_within [of "ed_len li" "ed_folds li"] fold_add_length [of "ed_folds li"] wf
    by (simp add: ed_frame_def ed_wf_def)
  then have "\<exists>l'. linenoiseEditPaste w al is l = Some (l', al', is') \<and> ed_frame l l'"
    using i j ed_frame_refl [OF wf] by (auto simp: linenoiseEditPaste_def Let_def p)
  with that show thesis by blast
qed

lemma delete_frame:
  assumes "ed_wf l"
  obtains l' where "linenoiseEditDelete l = Some l'" "ed_frame l l'"
proof (cases "ed_pos l < ed_len l")
  case True
  from delete_cut [OF assms True] that show thesis unfolding ed_cut_def by metis
next
  case False
  then show thesis using that [of l] ed_frame_refl [OF assms] by (simp add: linenoiseEditDelete_def)
qed

lemma backspace_frame:
  assumes "ed_wf l"
  obtains l' where "linenoiseEditBackspace l = Some l'" "ed_frame l l'"
proof (cases "0 < ed_pos l")
  case True
  from backspace_cut [OF assms True] that show thesis unfolding ed_cut_def by metis
next
  case False
  then show thesis using that [of l] ed_frame_refl [OF assms] by (simp add: linenoiseEditBackspace_def)
qed

lemma escape_frame:
  assumes wf: "ed_wf l"
  obtains l' al' is' where "escape_key w al is l = Some (l', al', is')" "ed_frame l l'"
proof -
  obtain ld where "linenoiseEditDelete l = Some ld" "ed_frame l ld" using delete_frame [OF wf] .
  moreover have "\<exists>l' al' is'. linenoiseEditPaste w al is1 l = Some (l', al', is') \<and> ed_frame l l'" for is1 using paste_frame [OF wf] by metis
  ultimately show thesis
    using that moves_frame [OF wf] ed_frame_refl [OF wf]
    by (fastforce simp: escape_key_def split: prod.splits if_splits)
qed

text \<open>A call of \<open>linenoiseEditFeed\<close>: no access leaves the block, and a line that is returned is the one edited.\<close>

definition feed_ok :: "linenoiseState \<Rightarrow> (feed_ans \<times> linenoiseState \<times> heap_answers \<times> ed_in list) option \<Rightarrow> bool" where
  "feed_ok l x \<longleftrightarrow> (\<exists>a l' al is. x = Some (a, l', al, is) \<and> ed_frame l l' \<and> (\<forall>s. a = Feed_line s \<longrightarrow> s = c_str (ed_mem l)))"

lemma feed_ok_if: "(b \<Longrightarrow> feed_ok l x) \<Longrightarrow> (\<not> b \<Longrightarrow> feed_ok l y) \<Longrightarrow> feed_ok l (if b then x else y)"
  by simp

lemma feed_ok_more: "x = Some l' \<Longrightarrow> ed_frame l l' \<Longrightarrow> feed_ok l (map_option (\<lambda>l. (Feed_more, l, al, is)) x)"
  by (simp add: feed_ok_def)

lemma feed_ok_stay: "ed_frame l l' \<Longrightarrow> feed_ok l (Some (Feed_more, l', al, is))" "ed_frame l l' \<Longrightarrow> feed_ok l (Some (Feed_end, l', al, is))"
  "ed_frame l l' \<Longrightarrow> feed_ok l (Some (Feed_cancelled, l', al, is))"
  by (simp_all add: feed_ok_def)

lemma typed_ok:
  assumes wf: "ed_wf l"
  shows "feed_ok l (typed_key w al c is l)"
proof -
  obtain s is' where s: "read_utf8 (utf8ByteLen c - 1) [c] is = (s, is')" by fastforce
  obtain rc l' where "linenoiseEditInsert w l s = Some (rc, l')" "ed_frame l l'" using edit_insert_frame [OF wf] .
  then show ?thesis using ed_frame_refl [OF wf] s unfolding typed_key_def by (simp add: feed_ok_def)
qed

lemma escape_ok:
  assumes wf: "ed_wf l"
  shows "feed_ok l (map_option (\<lambda>(l, al, is). (Feed_more, l, al, is)) (escape_key w al is l))"
  using escape_frame [OF wf, of w al "is"] by (fastforce simp: feed_ok_def)

lemma feed_frame:
  assumes wf: "ed_wf l"
  shows "feed_ok l (linenoiseEditFeed w al is l)"
proof -
  obtain bs where bs: "linenoiseEditBackspace l = Some bs" "ed_frame l bs" using backspace_frame [OF wf] .
  obtain ld where ld: "linenoiseEditDelete l = Some ld" "ed_frame l ld" using delete_frame [OF wf] .
  obtain sw where sw: "swap_chars l = Some sw" "ed_frame l sw" using swap_exact [OF wf] by metis
  obtain dl where dl: "delete_line l = Some dl" "ed_frame l dl" using delete_line_cut [OF wf] unfolding ed_cut_def by metis
  obtain de where de: "delete_to_end l = Some de" "ed_frame l de" using delete_to_end_cut [OF wf] unfolding ed_cut_def by metis
  obtain dw where dw: "linenoiseEditDeletePrevWord l = Some dw" "ed_frame l dw" using prev_word_cut [OF wf] unfolding ed_cut_def by metis
  have u: "ed_frame l (l\<lparr>ed_drawn := False\<rparr>)" using wf by (simp add: ed_frame_def ed_wf_def)
  then have enter: "feed_ok l (case sodium_malloc al of (ok, al) \<Rightarrow> Some (if ok then Feed_line (c_str (ed_mem l)) else Feed_end, l\<lparr>ed_drawn := False\<rparr>, al, is1))" for is1
    by (simp add: feed_ok_def split: prod.split)
  note ops = feed_ok_more [OF bs] feed_ok_more [OF ld] feed_ok_more [OF sw] feed_ok_more [OF dl] feed_ok_more [OF de] feed_ok_more [OF dw]
    typed_ok [OF wf] escape_ok [OF wf] enter
  note stay = feed_ok_stay [OF u] feed_ok_stay [OF ed_frame_refl [OF wf]] moves_frame [OF wf, THEN feed_ok_stay(1)]
  show ?thesis
  proof (cases "is")
    case Nil
    then show ?thesis using stay by (simp add: linenoiseEditFeed_def)
  next
    case (Cons x is')
    then show ?thesis
      by (cases x) (simp_all only: linenoiseEditFeed_def Let_def list.simps ed_in.simps stay, intro feed_ok_if ops stay)
  qed
qed

section \<open>The drawn text fits its block\<close>

text \<open>The text with every fold replaced by its marker, from \<open>lo\<close> on.\<close>

fun shown_text :: "bytes \<Rightarrow> nat \<Rightarrow> (nat \<times> nat) list \<Rightarrow> bytes" where
  "shown_text buf lo [] = drop lo buf"
| "shown_text buf lo ((s, e) # fs) =
     take (s - lo) (drop lo buf) @ foldSetRenderedText (take (e - s) (drop s buf)) @ shown_text buf e fs"

lemma shown_length:
  "folds_within lo (length buf) fs \<Longrightarrow>
   fold (\<lambda>f n. n - (snd f - fst f) + (case f of (s, e) \<Rightarrow> length (foldSetRenderedText (take (e - s) (drop s buf))))) fs (a + (length buf - lo)) =
   a + length (shown_text buf lo fs)"
proof (induction fs arbitrary: a lo)
  case (Cons f fs)
  obtain s e where f: "f = (s, e)" by fastforce
  let ?d = "length (foldSetRenderedText (take (e - s) (drop s buf)))"
  have w: "lo \<le> s" "s < e" "e \<le> length buf" "folds_within e (length buf) fs" using Cons.prems f folds_within_le by auto
  have "a + (length buf - lo) - (e - s) + ?d = (a + (s - lo) + ?d) + (length buf - e)" using w by linarith
  with Cons.IH [OF w(4), of "a + (s - lo) + ?d"] w show ?case by (auto simp: f min_def add.assoc)
qed simp

lemma mem_copy_at: "dst + length s \<le> length r \<Longrightarrow>
    \<exists>r'. mem_copy r dst s = Some r' \<and> length r' = length r \<and> take (dst + length s) r' = take dst r @ s"
  by (simp add: mem_copy_def)

lemma render_exact_from:
  assumes "folds_within src (length buf) fs" "dst + length (shown_text buf src fs) < length r" "p \<le> length buf"
    and "outpos = None \<Longrightarrow> src \<le> p" "\<And>q. outpos = Some q \<Longrightarrow> q \<le> dst"
  shows "\<exists>r' src' dst' outpos'. render_folds buf p fs (r, src, dst, outpos) = Some (r', src', dst', outpos') \<and> length r' = length r \<and>
    take dst' r' @ drop src' buf = take dst r @ shown_text buf src fs \<and> dst' + (length buf - src') = dst + length (shown_text buf src fs) \<and>
    src' \<le> length buf \<and> (outpos' = None \<longrightarrow> src' \<le> p) \<and> (\<forall>q. outpos' = Some q \<longrightarrow> q \<le> dst')"
  using assms
proof (induction fs arbitrary: r src dst outpos)
  case Nil
  then show ?case by auto
next
  case (Cons f fs)
  obtain s e where f: "f = (s, e)" by fastforce
  let ?g = "take (s - src) (drop src buf)" and ?d = "foldSetRenderedText (take (e - s) (drop s buf))"
  have w: "src \<le> s" "s < e" "e \<le> length buf" "folds_within e (length buf) fs" using Cons.prems(1) f folds_within_le by auto
  have room: "dst + length ?g + length ?d + length (shown_text buf e fs) < length r" using Cons.prems(2) by (simp add: f)
  obtain r1 where r1: "mem_copy r dst ?g = Some r1" "length r1 = length r" "take (dst + length ?g) r1 = take dst r @ ?g"
    using mem_copy_at [of dst ?g r] room by auto
  obtain r2 where r2: "mem_copy r1 (dst + length ?g) ?d = Some r2" "length r2 = length r1"
      "take (dst + length ?g + length ?d) r2 = take (dst + length ?g) r1 @ ?d"
    using mem_copy_at [of "dst + length ?g" ?d r1] room r1(2) by auto
  have g: "length ?g = s - src" using w by simp
  let ?o1 = "if outpos = None \<and> p \<le> s then Some (dst + (p - src)) else outpos"
  let ?o2 = "if ?o1 = None \<and> p < e then Some (dst + length ?g + length ?d) else ?o1"
  let ?o3 = "if ?o2 = None \<and> p = e then Some (dst + length ?g + length ?d) else ?o2"
  have o: "?o3 = None \<Longrightarrow> e \<le> p" "\<And>q. ?o3 = Some q \<Longrightarrow> q \<le> dst + length ?g + length ?d"
    using Cons.prems(4,5) w g by (auto split: if_splits)
  have step: "render_folds buf p (f # fs) (r, src, dst, outpos) = render_folds buf p fs (r2, e, dst + length ?g + length ?d, ?o3)"
    using r1(1) r2(1) unfolding f g by (simp add: Let_def)
  have "dst + length ?g + length ?d + length (shown_text buf e fs) < length r2" using room r1(2) r2(2) by simp
  from Cons.IH [OF w(4) this Cons.prems(3) o] obtain r' src' dst' outpos' where
    r': "render_folds buf p fs (r2, e, dst + length ?g + length ?d, ?o3) = Some (r', src', dst', outpos')" "length r' = length r2"
      "take dst' r' @ drop src' buf = take (dst + length ?g + length ?d) r2 @ shown_text buf e fs"
      "dst' + (length buf - src') = dst + length ?g + length ?d + length (shown_text buf e fs)"
      "src' \<le> length buf" "outpos' = None \<longrightarrow> src' \<le> p" "\<forall>q. outpos' = Some q \<longrightarrow> q \<le> dst'" by blast
  have "length r' = length r" using r'(2) r1(2) r2(2) by simp
  moreover have "take dst' r' @ drop src' buf = take dst r @ shown_text buf src (f # fs)" using r'(3) r1(3) r2(3) by (simp add: f)
  moreover have "dst' + (length buf - src') = dst + length (shown_text buf src (f # fs))" using r'(4) by (simp add: f)
  ultimately show ?case using r'(1,5-7) unfolding step by blast
qed

lemma render_ok:
  assumes wf: "ed_wf l" and fresh: "\<And>n. length (fresh n) = n"
  shows "\<exists>pos. linenoiseRenderBuffer fresh l = Some (shown_text (ed_text l) 0 (ed_folds l), pos) \<and> pos \<le> length (shown_text (ed_text l) 0 (ed_folds l))"
proof -
  have w: "folds_within 0 (length (ed_text l)) (ed_folds l)" "ed_pos l \<le> ed_len l" "length (ed_text l) = ed_len l"
    using wf by (auto simp: ed_wf_def ed_text_def)
  have "\<forall>(s, e) \<in> set (ed_folds l). s < e \<and> e \<le> ed_len l \<and> ed_len l \<noteq> 0" using folds_within_mem [OF w(1)] w(3) by fastforce
  then have fs: "linenoiseGetRenderFolds l = ed_folds l" by (cases "ed_folds l") (auto simp: linenoiseGetRenderFolds_def filter_id_conv)
  show ?thesis
  proof (cases "ed_folds l = []")
    case True
    then show ?thesis using fs w by (simp add: linenoiseRenderBuffer_def)
  next
    case False
    let ?n = "length (shown_text (ed_text l) 0 (ed_folds l))"
    obtain r src dst outpos where r: "render_folds (ed_text l) (ed_pos l) (ed_folds l) (fresh (?n + 1), 0, 0, None) = Some (r, src, dst, outpos)"
      "length r = ?n + 1" "take dst r @ drop src (ed_text l) = shown_text (ed_text l) 0 (ed_folds l)" "dst + (length (ed_text l) - src) = ?n"
      "src \<le> length (ed_text l)" "outpos = None \<longrightarrow> src \<le> ed_pos l" "\<forall>q. outpos = Some q \<longrightarrow> q \<le> dst"
      using render_exact_from [OF w(1), of 0 "fresh (?n + 1)" "ed_pos l" None] w(2,3) fresh by auto
    have "mem_copy r dst (drop src (ed_text l)) = Some (take dst r @ drop src (ed_text l) @ drop ?n r)"
      using r(2,4) by (simp add: mem_copy_def)
    moreover have "mem_copy (take dst r @ drop src (ed_text l) @ drop ?n r) ?n [0] = Some (shown_text (ed_text l) 0 (ed_folds l) @ [0])"
      using r(2,3) by (simp add: mem_copy_def flip: append_assoc)
    moreover have "(case outpos of None \<Rightarrow> dst + (ed_pos l - src) | Some q \<Rightarrow> q) \<le> ?n" using r(4-7) w(2,3) by (auto split: option.splits)
    moreover have "fold (\<lambda>f n. n - (snd f - fst f) + (case f of (s, e) \<Rightarrow> length (foldSetRenderedText (take (e - s) (drop s (ed_text l)))))) (ed_folds l) (ed_len l) = ?n"
      using shown_length [OF w(1), of 0] w(3) by simp
    ultimately show ?thesis using False r(1) by (simp add: linenoiseRenderBuffer_def fs Let_def)
  qed
qed

section \<open>A session\<close>

text \<open>Calls of \<open>linenoiseEditFeed\<close> one after the other, each with its own answers of the terminal and the allocator.\<close>

fun ed_session :: "(bool \<times> heap_answers \<times> ed_in list) list \<Rightarrow> linenoiseState \<Rightarrow> (feed_ans list \<times> linenoiseState) option" where
  "ed_session [] l = Some ([], l)"
| "ed_session ((w, al, is) # calls) l =
     (case linenoiseEditFeed w al is l of None \<Rightarrow> None
      | Some (a, l, _) \<Rightarrow> map_option (\<lambda>(as, l). (a # as, l)) (ed_session calls l))"

lemma c_str_text:
  assumes "ed_wf l"
  shows "c_str (ed_mem l) = c_str (ed_text l)"
proof -
  have "ed_mem l = ed_text l @ 0 # drop (Suc (ed_len l)) (ed_mem l)"
    using mem_zero [OF assms] by (metis append_take_drop_id ed_text_def)
  then have "c_str (ed_mem l) = c_str (ed_text l @ 0 # drop (Suc (ed_len l)) (ed_mem l))" by simp
  then show ?thesis unfolding c_str_def by (simp add: takeWhile_append takeWhile_eq_all_conv [symmetric] del: takeWhile_eq_all_conv)
qed

lemma c_str_bound: "ed_wf l \<Longrightarrow> length (c_str (ed_mem l)) \<le> ed_len l"
  using length_takeWhile_le [of _ "ed_text l"] by (simp add: c_str_text) (simp add: c_str_def)

lemma c_str_no_zero: "0 \<notin> set (c_str s)"
  by (auto simp: c_str_def dest: set_takeWhileD)

lemma start_wf:
  assumes "linenoiseEditStart buf (length buf) prompt columns True True = Some l"
  shows "ed_wf l" "ed_buflen l = length buf - 1" "2 \<le> length buf"
proof -
  show b: "2 \<le> length buf" using assms by (auto simp: linenoiseEditStart_def split: if_splits)
  then have "buf[0 := 0] ! 0 = 0" by (cases buf) auto
  then show "ed_wf l" "ed_buflen l = length buf - 1"
    using assms b by (auto simp: linenoiseEditStart_def ed_wf_def split: if_splits)
qed

lemma session_typed:
  assumes "ed_wf l" "ed_buflen l = n - 1" "2 \<le> n"
  shows "\<exists>as l'. ed_session calls l = Some (as, l') \<and> length as = length calls \<and> ed_wf l' \<and> ed_buflen l' = n - 1 \<and>
    (\<forall>s. Feed_line s \<in> set as \<longrightarrow> length s < n \<and> 0 \<notin> set s)"
  using assms
proof (induction calls arbitrary: l)
  case (Cons c calls)
  obtain w al "is" where c: "c = (w, al, is)" by (cases c)
  obtain a l1 al1 is1 where f: "linenoiseEditFeed w al is l = Some (a, l1, al1, is1)" "ed_frame l l1" "\<forall>s. a = Feed_line s \<longrightarrow> s = c_str (ed_mem l)"
    using feed_frame [OF Cons.prems(1), of w al "is"] by (auto simp: feed_ok_def)
  then have "ed_wf l1" "ed_buflen l1 = n - 1" using Cons.prems by (auto simp: ed_frame_def)
  then obtain as l' where "ed_session calls l1 = Some (as, l')" "length as = length calls" "ed_wf l'" "ed_buflen l' = n - 1"
    "\<forall>s. Feed_line s \<in> set as \<longrightarrow> length s < n \<and> 0 \<notin> set s" using Cons.IH Cons.prems(3) by blast
  moreover have "length (c_str (ed_mem l)) < n"
    using c_str_bound [OF Cons.prems(1)] Cons.prems by (auto simp: ed_wf_def)
  ultimately show ?case using f c c_str_no_zero by auto
qed simp

text \<open>C33. Typing discipline of the line editor: whatever bytes the terminal sends, in whatever portions, with whatever answers of
  the allocator and of the writes, every call made after a start on a block of at least two bytes returns (no copy
  leaves the block), the state stays well formed (cursor within the text, text within the capacity and closed by a zero byte, folds
  in order, disjoint, not empty and within the text), a line that is returned has no zero byte and fits the capacity, and the text that is
  drawn, the edited text with every fold replaced by its marker, fills its block exactly, with the cursor within it.\<close>

theorem editor_typed:
  assumes "linenoiseEditStart buf (length buf) prompt columns True True = Some l" and "\<And>n. length (fresh n) = n"
  shows "\<exists>as l' pos. ed_session calls l = Some (as, l') \<and> length as = length calls \<and> ed_wf l' \<and> ed_buflen l' = length buf - 1 \<and>
    (\<forall>s. Feed_line s \<in> set as \<longrightarrow> length s < length buf \<and> 0 \<notin> set s) \<and>
    linenoiseRenderBuffer fresh l' = Some (shown_text (ed_text l') 0 (ed_folds l'), pos) \<and> pos \<le> length (shown_text (ed_text l') 0 (ed_folds l'))"
  using session_typed [OF start_wf [OF assms(1)], of calls] render_ok [OF _ assms(2)] by blast

theorem editor_typed_witness:
  "\<exists>as l' pos. ed_session [(True, [], map In_byte [195, 169]), (False, [], [In_byte 27, In_byte 91, In_byte 68]), (True, [True], [In_byte 13])]
      (the (linenoiseEditStart [7, 7, 7, 7] 4 [62, 32] 80 True True)) = Some (as, l') \<and> length as = 3 \<and> ed_wf l' \<and> ed_buflen l' = 3 \<and>
    (\<forall>s. Feed_line s \<in> set as \<longrightarrow> length s < 4 \<and> 0 \<notin> set s) \<and>
    linenoiseRenderBuffer (\<lambda>n. replicate n 0) l' = Some (shown_text (ed_text l') 0 (ed_folds l'), pos) \<and> pos \<le> length (shown_text (ed_text l') 0 (ed_folds l'))"
proof -
  have s: "linenoiseEditStart [7, 7, 7, 7] (length [7, 7, 7, 7 :: byte]) [62, 32] 80 True True =
    Some (the (linenoiseEditStart [7, 7, 7, 7] 4 [62, 32] 80 True True))" by (simp add: linenoiseEditStart_def)
  have "\<And>n. length (replicate n (0 :: byte)) = n" by simp
  from editor_typed [OF s this, of "[(True, [], map In_byte [195, 169]), (False, [], [In_byte 27, In_byte 91, In_byte 68]), (True, [True], [In_byte 13])]"]
  show ?thesis by (simp add: numeral_eq_Suc del: ed_session.simps)
qed

end
