(* ===== verification/Nox_Keys_Props.thy ===== *)
theory Nox_Keys_Props
  imports Nox_Editor_Props
begin

text \<open>
  The line editor as an editor of plain text: an abstract editor whose state is the text before and after the cursor, and the
  proof that on seven-bit text every key, in each of its codes, does to the buffer what the abstract editor does.
\<close>

section \<open>Seven-bit text\<close>

definition plain_byte :: "byte \<Rightarrow> bool" where
  "plain_byte c \<longleftrightarrow> c AND 0x80 = 0 \<and> c \<noteq> 0"

lemma plain_not_continuation: "plain_byte c \<Longrightarrow> c AND 0xC0 \<noteq> 0x80"
proof
  assume "plain_byte c" "c AND 0xC0 = 0x80"
  then have "c AND (0xC0 AND 0x80) = 0x80" by (metis and.assoc and.idem)
  with \<open>plain_byte c\<close> show False by (simp add: plain_byte_def)
qed

lemma small_code_point: "(ucast (c :: byte) :: u32) < 0x100"
proof -
  have "unat (ucast c :: u32) < 256" by (simp add: unsigned_ucast_eq take_bit_eq_mod) (use unsigned_less [where 'a = nat and w = c] in simp)
  then show ?thesis by (simp add: word_less_nat_alt)
qed

lemma small_kinds: "\<not> isZWJ (ucast (c :: byte))" "\<not> isGraphemeExtend (ucast (c :: byte))" "\<not> isRegionalIndicator (ucast (c :: byte))"
proof -
  have big: "k \<le> ucast c \<Longrightarrow> k < 0x100" for k :: u32 using small_code_point [of c] le_less_trans [of k] by blast
  have "ucast c \<noteq> (0x200D :: u32)" "ucast c \<noteq> (0xFE0E :: u32)" "ucast c \<noteq> (0xFE0F :: u32)" using small_code_point [of c] by auto
  then show "\<not> isZWJ (ucast c)" "\<not> isGraphemeExtend (ucast c)" "\<not> isRegionalIndicator (ucast c)"
    using big [of "0x1F3FB"] big [of "0x1F1E6"] big [of "0x300"] big [of "0x1AB0"] big [of "0x1DC0"] big [of "0x20D0"] big [of "0xFE20"]
    by (auto simp: isGraphemeExtend_def isZWJ_def isVariationSelector_def isSkinToneModifier_def isCombiningMark_def isRegionalIndicator_def)
qed

lemma decode_plain: "plain_byte c \<Longrightarrow> utf8DecodeChar (c # s) = (ucast c, 1)"
  by (simp add: plain_byte_def utf8DecodeChar_def)

lemma next_plain:
  assumes "list_all plain_byte buf" "pos < length buf"
  shows "utf8NextCharLen buf pos = 1"
proof -
  have d: "utf8DecodeChar (drop i buf) = (ucast (buf ! i), 1)" if "i < length buf" for i
    using assms(1) that by (metis Cons_nth_drop_Suc decode_plain list_all_length)
  then show ?thesis using assms(2) by (simp add: utf8NextCharLen_def next_cluster.simps small_kinds)
qed

lemma decode_prev_plain:
  assumes "list_all plain_byte buf" "0 < pos" "pos \<le> length buf"
  shows "utf8DecodePrev buf pos = (ucast (buf ! (pos - 1)), 1)"
proof -
  obtain i where i: "pos = Suc i" using assms(2) by (cases pos) auto
  have "plain_byte (buf ! i)" using assms i by (simp add: list_all_length)
  then have "start_byte buf pos i = i" "take 1 (drop i buf) = [buf ! i]"
    using assms(3) i plain_not_continuation by (cases i, auto simp: take_Suc_conv_app_nth hd_drop_conv_nth take_Suc)
  with i \<open>plain_byte (buf ! i)\<close> show ?thesis by (simp add: utf8DecodePrev_def decode_plain)
qed

lemma prev_plain:
  assumes "list_all plain_byte buf" "0 < pos" "pos \<le> length buf"
  shows "utf8PrevCharLen buf pos = 1"
proof (cases "pos - 1 = 0")
  case True
  with assms show ?thesis by (simp add: utf8PrevCharLen_def decode_prev_plain prev_cluster.simps)
next
  case False
  then have "utf8DecodePrev buf (pos - 1) = (ucast (buf ! (pos - 1 - 1)), 1)" using assms by (intro decode_prev_plain) auto
  with assms False show ?thesis by (simp add: utf8PrevCharLen_def decode_prev_plain prev_cluster.simps small_kinds)
qed

section \<open>The abstract editor\<close>

datatype ed_key = Key_char byte | Key_left | Key_right | Key_home | Key_end | Key_backspace | Key_delete | Key_clear | Key_cut | Key_swap | Key_word

text \<open>The codes a terminal sends for a key.\<close>

fun key_codes :: "ed_key \<Rightarrow> bytes list" where
  "key_codes (Key_char c) = [[c]]"
| "key_codes Key_left = [[2], [27, 91, 68]]"
| "key_codes Key_right = [[6], [27, 91, 67]]"
| "key_codes Key_home = [[1], [27, 91, 72], [27, 79, 72]]"
| "key_codes Key_end = [[5], [27, 91, 70], [27, 79, 70]]"
| "key_codes Key_backspace = [[127], [8]]"
| "key_codes Key_delete = [[27, 91, 51, 126]]"
| "key_codes Key_clear = [[21]]"
| "key_codes Key_cut = [[11]]"
| "key_codes Key_swap = [[20]]"
| "key_codes Key_word = [[23]]"

fun key_ok :: "ed_key \<Rightarrow> bool" where
  "key_ok (Key_char c) \<longleftrightarrow> c = 9 \<or> 32 \<le> c \<and> c \<noteq> 127 \<and> c AND 0x80 = 0"
| "key_ok _ \<longleftrightarrow> True"

text \<open>What a key does to the text before and after the cursor, with room for \<open>cap\<close> bytes.\<close>

fun edit_key :: "nat \<Rightarrow> ed_key \<Rightarrow> bytes \<times> bytes \<Rightarrow> bytes \<times> bytes" where
  "edit_key cap (Key_char c) (b, a) = (if length b + length a < cap then (b @ [c], a) else (b, a))"
| "edit_key cap Key_left (b, a) = (if b = [] then (b, a) else (butlast b, last b # a))"
| "edit_key cap Key_right (b, a) = (if a = [] then (b, a) else (b @ [hd a], tl a))"
| "edit_key cap Key_home (b, a) = ([], b @ a)"
| "edit_key cap Key_end (b, a) = (b @ a, [])"
| "edit_key cap Key_backspace (b, a) = (butlast b, a)"
| "edit_key cap Key_delete (b, a) = (b, tl a)"
| "edit_key cap Key_clear (b, a) = ([], [])"
| "edit_key cap Key_cut (b, a) = (b, [])"
| "edit_key cap Key_swap (b, a) = (if b = [] \<or> a = [] then (b, a) else (butlast b @ [hd a, last b], tl a))"
| "edit_key cap Key_word (b, a) = (rev (dropWhile (\<lambda>c. c \<noteq> 32) (dropWhile (\<lambda>c. c = 32) (rev b))), a)"

section \<open>The buffer implements it\<close>

definition ed_abs :: "linenoiseState \<Rightarrow> bytes \<times> bytes" where
  "ed_abs l = (take (ed_pos l) (ed_text l), drop (ed_pos l) (ed_text l))"

definition ed_plain :: "linenoiseState \<Rightarrow> bool" where
  "ed_plain l \<longleftrightarrow> ed_wf l \<and> ed_folds l = [] \<and> list_all plain_byte (ed_text l)"

lemma plain_facts:
  assumes "ed_plain l"
  shows "ed_wf l" "length (ed_text l) = ed_len l" "ed_pos l \<le> ed_len l" "list_all plain_byte (ed_text l)" "ed_folds l = []"
  using assms by (auto simp: ed_plain_def ed_wf_def)

lemma plain_next: "ed_plain l \<Longrightarrow> pos < ed_len l \<Longrightarrow> linenoiseEditNextLen l pos = 1"
  using next_plain [of "ed_text l" pos] by (simp add: linenoiseEditNextLen_def linenoiseGetRenderFolds_def plain_facts)

lemma plain_prev: "ed_plain l \<Longrightarrow> 0 < pos \<Longrightarrow> pos \<le> ed_len l \<Longrightarrow> linenoiseEditPrevLen l pos = 1"
  using prev_plain [of "ed_text l" pos] by (simp add: linenoiseEditPrevLen_def linenoiseGetRenderFolds_def plain_facts)

text \<open>The bytes at \<open>p\<close> are cut out.\<close>

lemma cut_plain:
  assumes "ed_plain l" "ed_cut l p n l'" "p + n \<le> ed_len l"
  shows "ed_plain l' \<and> ed_buflen l' = ed_buflen l \<and> ed_abs l' = (take p (ed_text l), drop (p + n) (ed_text l))"
proof -
  have "list_all plain_byte (ed_text l)" "length (ed_text l) = ed_len l" using plain_facts [OF assms(1)] by auto
  with assms show ?thesis
    by (auto simp: ed_plain_def ed_cut_def ed_frame_def ed_abs_def list_all_iff dest: in_set_takeD in_set_dropD)
qed

lemma back_while_plain:
  assumes "ed_plain l"
  shows "pos \<le> ed_len l \<Longrightarrow> take (back_while l P pos) (ed_text l) = rev (dropWhile P (rev (take pos (ed_text l))))"
proof (induction pos)
  case 0
  then show ?case by (simp add: back_while.simps)
next
  case (Suc i)
  have t: "take (Suc i) (ed_text l) = take i (ed_text l) @ [ed_mem l ! i]"
    using Suc.prems plain_facts(2) [OF assms] by (simp add: take_Suc_conv_app_nth ed_text_def)
  have "back_while l P (Suc i) = (if P (ed_mem l ! i) then back_while l P i else Suc i)"
    using plain_prev [OF assms, of "Suc i"] Suc.prems by (subst back_while.simps) (simp add: step_left_def)
  with Suc t show ?case by simp
qed

text \<open>\<open>l'\<close> is \<open>l\<close> after the key.\<close>

definition key_done :: "linenoiseState \<Rightarrow> ed_key \<Rightarrow> linenoiseState \<Rightarrow> bool" where
  "key_done l k l' \<longleftrightarrow> ed_plain l' \<and> ed_buflen l' = ed_buflen l \<and> ed_abs l' = edit_key (ed_buflen l) k (ed_abs l)"

lemma key_codes_ok: "key_ok (Key_char c) \<Longrightarrow> plain_byte c \<and> utf8ByteLen c = 1"
  by (auto simp: plain_byte_def utf8ByteLen_def)

lemma char_done:
  assumes p: "ed_plain l" and k: "key_ok (Key_char c)"
  shows "\<exists>l'. linenoiseEditInsert True l [c] = Some (0, l') \<and> key_done l (Key_char c) l'"
proof (cases "ed_len l + length [c] \<le> ed_buflen l")
  case True
  obtain l' where i: "linenoiseEditInsertNoRefresh l [c] = Some (True, l')" "ed_frame l l'"
    "ed_text l' = take (ed_pos l) (ed_text l) @ [c] @ drop (ed_pos l) (ed_text l)" "ed_pos l' = ed_pos l + length [c]"
    "ed_folds l' = linenoiseAdjustFoldsAfterInsert (ed_pos l) (length [c]) (ed_folds l)"
    using insert_exact [OF plain_facts(1) [OF p] True] by metis
  have "list_all plain_byte (ed_text l')" using plain_facts(4) [OF p] key_codes_ok [OF k] i(3)
    by (auto simp: list_all_iff dest: in_set_takeD in_set_dropD)
  with i True plain_facts [OF p] show ?thesis
    by (auto simp: linenoiseEditInsert_def key_done_def ed_plain_def ed_frame_def ed_abs_def)
next
  case False
  with p plain_facts(2,3) [OF p] show ?thesis
    by (auto simp: linenoiseEditInsert_def linenoiseEditInsertNoRefresh_def linenoiseEditGrow_def key_done_def ed_abs_def)
qed

lemma at_pos:
  assumes "ed_plain l" "i < ed_len l"
  shows "take (Suc i) (ed_text l) = take i (ed_text l) @ [ed_text l ! i]" "drop i (ed_text l) = ed_text l ! i # drop (Suc i) (ed_text l)"
  using plain_facts(2) [OF assms(1)] assms(2) by (simp_all add: take_Suc_conv_app_nth Cons_nth_drop_Suc)

lemma move_plain: "ed_plain l \<Longrightarrow> q \<le> ed_len l \<Longrightarrow> ed_plain (l\<lparr>ed_pos := q\<rparr>)"
  by (auto simp: ed_plain_def ed_wf_def ed_text_def)

lemma text_move [simp]: "ed_text (l\<lparr>ed_pos := q\<rparr>) = ed_text l"
  by (simp add: ed_text_def)

lemma moves_done:
  assumes p: "ed_plain l"
  shows "key_done l Key_left (linenoiseEditMoveLeft l)" "key_done l Key_right (linenoiseEditMoveRight l)"
    "key_done l Key_home (linenoiseEditMoveHome l)" "key_done l Key_end (linenoiseEditMoveEnd l)"
proof -
  note f = plain_facts [OF p]
  show "key_done l Key_home (linenoiseEditMoveHome l)" "key_done l Key_end (linenoiseEditMoveEnd l)"
    using p f move_plain [OF p] by (auto simp: linenoiseEditMoveHome_def linenoiseEditMoveEnd_def key_done_def ed_abs_def)
  show "key_done l Key_right (linenoiseEditMoveRight l)"
  proof (cases "ed_pos l = ed_len l")
    case False
    with f have lt: "ed_pos l < ed_len l" by simp
    with p f at_pos [OF p lt] plain_next [OF p lt] move_plain [OF p, of "Suc (ed_pos l)"] show ?thesis
      by (simp add: linenoiseEditMoveRight_def key_done_def ed_abs_def)
  qed (use p f in \<open>simp add: linenoiseEditMoveRight_def key_done_def ed_abs_def\<close>)
  show "key_done l Key_left (linenoiseEditMoveLeft l)"
  proof (cases "ed_pos l")
    case (Suc i)
    with f have lt: "i < ed_len l" by simp
    with p f Suc at_pos [OF p lt] plain_prev [OF p, of "Suc i"] move_plain [OF p, of i] show ?thesis
      by (simp add: linenoiseEditMoveLeft_def key_done_def ed_abs_def)
  qed (use p f in \<open>simp add: linenoiseEditMoveLeft_def key_done_def ed_abs_def\<close>)
qed

lemma backspace_done:
  assumes p: "ed_plain l"
  shows "\<exists>l'. linenoiseEditBackspace l = Some l' \<and> key_done l Key_backspace l'"
proof (cases "ed_pos l")
  case 0
  with p show ?thesis by (simp add: linenoiseEditBackspace_def key_done_def ed_abs_def)
next
  case (Suc i)
  note f = plain_facts [OF p]
  have n: "linenoiseEditPrevLen l (ed_pos l) = 1" using plain_prev [OF p, of "ed_pos l"] f Suc by simp
  obtain l' where l': "linenoiseEditBackspace l = Some l'" "ed_cut l (ed_pos l - 1) 1 l'"
    using backspace_cut [OF f(1)] n Suc by (metis zero_less_Suc)
  with cut_plain [OF p l'(2)] f Suc at_pos(1) [OF p, of i] show ?thesis by (simp add: key_done_def ed_abs_def)
qed

lemma delete_done:
  assumes p: "ed_plain l"
  shows "\<exists>l'. linenoiseEditDelete l = Some l' \<and> key_done l Key_delete l'"
proof (cases "ed_pos l < ed_len l")
  case False
  with p plain_facts [OF p] show ?thesis by (simp add: linenoiseEditDelete_def key_done_def ed_abs_def)
next
  case True
  note f = plain_facts [OF p]
  obtain l' where l': "linenoiseEditDelete l = Some l'" "ed_cut l (ed_pos l) 1 l'"
    using delete_cut [OF f(1) True] plain_next [OF p True] by metis
  with cut_plain [OF p l'(2)] f True at_pos(2) [OF p True] show ?thesis by (simp add: key_done_def ed_abs_def)
qed

lemma clear_done:
  assumes p: "ed_plain l"
  shows "\<exists>l'. delete_line l = Some l' \<and> key_done l Key_clear l'"
proof -
  obtain l' where l': "delete_line l = Some l'" "ed_cut l 0 (ed_len l) l'" using delete_line_cut [OF plain_facts(1) [OF p]] .
  with cut_plain [OF p l'(2)] plain_facts [OF p] show ?thesis by (simp add: key_done_def ed_abs_def)
qed

lemma cut_done:
  assumes p: "ed_plain l"
  shows "\<exists>l'. delete_to_end l = Some l' \<and> key_done l Key_cut l'"
proof -
  obtain l' where l': "delete_to_end l = Some l'" "ed_cut l (ed_pos l) (ed_len l - ed_pos l) l'" using delete_to_end_cut [OF plain_facts(1) [OF p]] .
  with cut_plain [OF p l'(2)] plain_facts [OF p] show ?thesis by (simp add: key_done_def ed_abs_def)
qed

lemma word_done:
  assumes p: "ed_plain l"
  shows "\<exists>l'. linenoiseEditDeletePrevWord l = Some l' \<and> key_done l Key_word l'"
proof -
  note f = plain_facts [OF p]
  let ?q = "back_while l (\<lambda>c. c = 32) (ed_pos l)"
  let ?r = "back_while l (\<lambda>c. c \<noteq> 32) ?q"
  have q: "?q \<le> ed_pos l" "?r \<le> ?q" by (rule back_while_le)+
  obtain l' where l': "linenoiseEditDeletePrevWord l = Some l'" "ed_cut l ?r (ed_pos l - ?r) l'" using prev_word_cut [OF f(1)] .
  have "take ?r (ed_text l) = rev (dropWhile (\<lambda>c. c \<noteq> 32) (dropWhile (\<lambda>c. c = 32) (rev (take (ed_pos l) (ed_text l)))))"
    using q f back_while_plain [OF p, of ?q "\<lambda>c. c \<noteq> 32"] back_while_plain [OF p, of "ed_pos l" "\<lambda>c. c = 32"] by simp
  with cut_plain [OF p l'(2)] l' f q show ?thesis by (simp add: key_done_def ed_abs_def)
qed

lemma swap_done:
  assumes p: "ed_plain l"
  shows "\<exists>l'. swap_chars l = Some l' \<and> key_done l Key_swap l'"
proof -
  note f = plain_facts [OF p]
  obtain l' where s: "swap_chars l = Some l'" "ed_frame l l'" "ed_folds l' = ed_folds l"
    and sw: "\<lbrakk>0 < ed_pos l; ed_pos l < ed_len l; 1 = linenoiseEditPrevLen l (ed_pos l); 1 = linenoiseEditNextLen l (ed_pos l); (1::nat) \<le> 32; (1::nat) \<le> 32;
      \<not> linenoiseRangeOverlapsFold (ed_folds l) (ed_pos l - 1) (1 + 1)\<rbrakk> \<Longrightarrow>
     ed_pos l' = ed_pos l + 1 \<and> ed_text l' = take (ed_pos l - 1) (ed_text l) @ take 1 (drop (ed_pos l) (ed_text l)) @
       take 1 (drop (ed_pos l - 1) (ed_text l)) @ drop (ed_pos l + 1) (ed_text l)"
    and no: "\<not> (0 < ed_pos l \<and> ed_pos l < ed_len l) \<Longrightarrow> l' = l"
    using swap_exact [OF f(1), of 1 1] by metis
  show ?thesis
  proof (cases "0 < ed_pos l \<and> ed_pos l < ed_len l")
    case False
    with s no p f show ?thesis by (auto simp: key_done_def ed_abs_def)
  next
    case True
    then obtain i where i: "ed_pos l = Suc i" by (cases "ed_pos l") auto
    have t: "ed_pos l' = Suc (Suc i)" "ed_text l' = take i (ed_text l) @ [ed_text l ! Suc i, ed_text l ! i] @ drop (Suc (Suc i)) (ed_text l)"
      using sw True f plain_next [OF p] plain_prev [OF p] at_pos(2) [OF p, of i] at_pos(2) [OF p, of "Suc i"]
      by (auto simp: i linenoiseRangeOverlapsFold_def)
    have "list_all plain_byte (ed_text l')" using f True i by (auto simp: t list_all_iff dest: in_set_takeD in_set_dropD)
    with s t f True at_pos [OF p, of i] at_pos [OF p, of "Suc i"] show ?thesis
      by (auto simp: i key_done_def ed_abs_def ed_plain_def ed_frame_def)
  qed
qed

section \<open>Keys and lines\<close>

lemma char_feed:
  assumes p: "ed_plain l" and k: "key_ok (Key_char c)"
  shows "\<exists>l'. linenoiseEditFeed True al (In_byte c # is) l = Some (Feed_more, l', al, is) \<and> key_done l (Key_char c) l'"
proof -
  obtain l' where l': "linenoiseEditInsert True l [c] = Some (0, l')" "key_done l (Key_char c) l'" using char_done [OF p k] by blast
  have "\<not> c \<in> {0, 1, 2, 3, 4, 5, 6, 8, 11, 12, 13, 16, 20, 21, 23, 27, 127}" "\<not> (c < 32 \<and> c \<noteq> 9)" using k by (auto simp: not_less word_le_nat_alt)
  then show ?thesis using l' key_codes_ok [OF k] by (auto simp: linenoiseEditFeed_def typed_key_def)
qed

lemma read_param_byte: "read_param 7 ps (In_byte c # is) = (if 48 \<le> c \<and> c \<le> 57 then read_param 6 (ps @ [c]) is else (ps, c, is))"
  using read_param.simps(2) [of 6 ps "In_byte c # is"] by simp

text \<open>A key, by any of its codes.\<close>

lemma key_feed:
  assumes p: "ed_plain l" and k: "key_ok k" "code \<in> set (key_codes k)"
  shows "\<exists>l'. linenoiseEditFeed True al (map In_byte code @ is) l = Some (Feed_more, l', al, is) \<and> key_done l k l'"
proof (cases k)
  case (Key_char c)
  with char_feed [OF p] k show ?thesis by simp
next
  case Key_backspace
  with backspace_done [OF p] k show ?thesis by (auto simp: linenoiseEditFeed_def)
next
  case Key_delete
  with delete_done [OF p] k show ?thesis by (auto simp: linenoiseEditFeed_def escape_key_def read_param_byte)
next
  case Key_clear
  with clear_done [OF p] k show ?thesis by (auto simp: linenoiseEditFeed_def)
next
  case Key_cut
  with cut_done [OF p] k show ?thesis by (auto simp: linenoiseEditFeed_def)
next
  case Key_swap
  with swap_done [OF p] k show ?thesis by (auto simp: linenoiseEditFeed_def)
next
  case Key_word
  with word_done [OF p] k show ?thesis by (auto simp: linenoiseEditFeed_def)
qed (use k moves_done [OF p] in \<open>auto simp: linenoiseEditFeed_def escape_key_def\<close>)

lemma enter_feed:
  assumes "ed_plain l"
  shows "\<exists>l'. linenoiseEditFeed w [] [In_byte 13] l = Some (Feed_line (fst (ed_abs l) @ snd (ed_abs l)), l', [], [])"
proof -
  have "c_str (ed_mem l) = ed_text l"
    using assms c_str_text [of l] by (auto simp: ed_plain_def c_str_def takeWhile_eq_all_conv list_all_iff plain_byte_def)
  then show ?thesis by (simp add: linenoiseEditFeed_def ed_abs_def)
qed

lemma start_plain:
  assumes "linenoiseEditStart buf (length buf) prompt columns True True = Some l"
  shows "ed_plain l" "ed_buflen l = length buf - 1" "ed_abs l = ([], [])"
proof -
  show "ed_plain l" "ed_buflen l = length buf - 1" "ed_abs l = ([], [])"
    using assms start_wf [OF assms] by (auto simp: linenoiseEditStart_def ed_plain_def ed_abs_def ed_text_def split: if_splits)
qed

lemma keys_session:
  assumes "ed_plain l" "list_all (\<lambda>(k, code). key_ok k \<and> code \<in> set (key_codes k)) ks"
  shows "\<exists>l'. ed_session (map (\<lambda>(k, code). (True, [], map In_byte code)) ks @ [(w, [], [In_byte 13])]) l =
    Some (replicate (length ks) Feed_more @
      [Feed_line (case fold (edit_key (ed_buflen l)) (map fst ks) (ed_abs l) of (b, a) \<Rightarrow> b @ a)], l')"
  using assms
proof (induction ks arbitrary: l)
  case Nil
  then show ?case using enter_feed [of l w] by (auto simp: ed_abs_def)
next
  case (Cons kc ks)
  obtain k code where kc: "kc = (k, code)" by fastforce
  obtain l1 where f: "linenoiseEditFeed True [] (map In_byte code) l = Some (Feed_more, l1, [], [])" "key_done l k l1"
    using key_feed [OF Cons.prems(1), of k code "[]" "[]"] Cons.prems(2) kc by auto
  then show ?case using Cons.IH [of l1] Cons.prems(2) kc by (auto simp: key_done_def)
qed

text \<open>C34. On plain text the line editor is the text editor its keys describe: after a start, for every sequence of keys (printable
  characters and tabs, the cursor keys, Home, End, Backspace, Delete, Ctrl-U, Ctrl-K, Ctrl-T, Ctrl-W, each in any of the codes a
  terminal sends for it), every call keeps the line open, and Enter returns exactly the text that the abstract editor, with room for one
  byte less than the block, has after the same keys.\<close>

theorem editor_refines:
  assumes "linenoiseEditStart buf (length buf) prompt columns True True = Some l"
    and "list_all (\<lambda>(k, code). key_ok k \<and> code \<in> set (key_codes k)) ks"
  shows "\<exists>l'. ed_session (map (\<lambda>(k, code). (True, [], map In_byte code)) ks @ [(w, [], [In_byte 13])]) l =
    Some (replicate (length ks) Feed_more @
      [Feed_line (case fold (edit_key (length buf - 1)) (map fst ks) ([], []) of (b, a) \<Rightarrow> b @ a)], l')"
  using keys_session [OF start_plain(1) [OF assms(1)] assms(2), of w] by (simp add: start_plain [OF assms(1)])

text \<open>\<open>ab\<close>, left, \<open>c\<close>, Ctrl-T in a block of eight bytes: the line is \<open>abc\<close>.\<close>

theorem editor_refines_witness:
  "\<exists>l'. ed_session [(True, [], [In_byte 97]), (True, [], [In_byte 98]), (True, [], [In_byte 27, In_byte 91, In_byte 68]),
      (True, [], [In_byte 99]), (True, [], [In_byte 20]), (True, [], [In_byte 13])] (the (linenoiseEditStart (replicate 8 7) 8 [62, 32] 80 True True)) =
    Some ([Feed_more, Feed_more, Feed_more, Feed_more, Feed_more, Feed_line [97, 98, 99]], l')"
proof -
  let ?ks = "[(Key_char 97, [97]), (Key_char 98, [98]), (Key_left, [27, 91, 68]), (Key_char 99, [99]), (Key_swap, [20])] :: (ed_key \<times> bytes) list"
  have s: "linenoiseEditStart (replicate 8 7) (length (replicate 8 (7 :: byte))) [62, 32] 80 True True =
    Some (the (linenoiseEditStart (replicate 8 7) 8 [62, 32] 80 True True))" by (simp add: linenoiseEditStart_def)
  have "list_all (\<lambda>(k, code). key_ok k \<and> code \<in> set (key_codes k)) ?ks" by simp
  from editor_refines [OF s this, of True] show ?thesis by (simp add: eval_nat_numeral del: ed_session.simps)
qed

end
