(* ===== verification/Nox_Refresh_Props.thy ===== *)
theory Nox_Refresh_Props
  imports Nox_Keys_Props
begin

text \<open>
  Drawing the line: for printable text the window that is shown and the column of the cursor, with the number of rounds the two trimming
  loops need; the text for which they never end; and the bytes that reach the buffer although the typed path means to keep them out.
\<close>

section \<open>Widths of printable text\<close>

definition printable :: "byte \<Rightarrow> bool" where
  "printable c \<longleftrightarrow> 32 \<le> c \<and> c < 127"

lemma seven_bits:
  assumes "c < (128 :: byte)"
  shows "c AND 0x80 = 0"
proof -
  have "unat (take_bit 7 c) = unat c" 
    unfolding unsigned_take_bit_eq using assms by (intro take_bit_nat_eq_self) (simp add: word_less_nat_alt)
  then have "take_bit 7 c = c" by (rule unsigned_word_eqI)
  then have "c AND 0x80 = c AND (mask 7 AND 0x80)" by (metis and.assoc take_bit_eq_mask)
  then show ?thesis by (simp add: mask_eq_exp_minus_1)
qed

lemma printable_facts:
  assumes "printable c"
  shows "plain_byte c" "ucast c \<noteq> (0x1b :: u32)" "utf8CharWidth (ucast c) = 1"
proof -
  have c: "32 \<le> unat c" "unat c < 127" using assms by (auto simp: printable_def word_le_nat_alt word_less_nat_alt)
  then have "c < 128" by (simp add: word_less_nat_alt)
  with seven_bits c show "plain_byte c" by (auto simp: plain_byte_def)
  have u: "unat (ucast c :: u32) = unat c" using c by (simp add: unsigned_ucast_eq take_bit_eq_mod)
  then show "ucast c \<noteq> (0x1b :: u32)" using c by auto
  have "\<not> isCombiningMark (ucast c)" "\<not> isVariationSelector (ucast c)" "\<not> isSkinToneModifier (ucast c)" "\<not> isZWJ (ucast c)"
    using small_kinds [of c] by (auto simp: isGraphemeExtend_def)
  with u c show "utf8CharWidth (ucast c) = 1" by (simp add: utf8CharWidth_def word_le_nat_alt word_less_nat_alt)
qed

lemma width_printable: "list_all printable s \<Longrightarrow> utf8StrWidth s = length s"
proof -
  have "list_all printable s \<Longrightarrow> str_width s False w = w + length s" for w
  proof (induction s arbitrary: w)
    case (Cons c s)
    then show ?case using printable_facts [of c] small_kinds [of c] by (subst str_width.simps) (simp add: decode_plain)
  qed (simp add: str_width.simps)
  then show "list_all printable s \<Longrightarrow> ?thesis" by (simp add: utf8StrWidth_def)
qed

lemma single_width: "printable c \<Longrightarrow> utf8SingleCharWidth (c # s) = 1"
  using printable_facts [of c] by (simp add: utf8SingleCharWidth_def decode_plain)

lemma all_plain: "list_all printable s \<Longrightarrow> list_all plain_byte s"
  by (auto simp: list_all_iff intro: printable_facts)

section \<open>The trimming loops on printable text\<close>

lemma scroll_printable:
  assumes "list_all printable t" "q \<le> length t" "pw < cols" "Suc (pw + q) - cols < n"
  shows "scroll_left n pw cols t q (of_nat (length t)) =
    Some (drop (Suc (pw + q) - cols) t, q - (Suc (pw + q) - cols), of_nat (length t - (Suc (pw + q) - cols)))"
  using assms
proof (induction n arbitrary: t q)
  case (Suc n)
  show ?case
  proof (cases "pw + q \<ge> cols")
    case True
    then obtain c u r where t: "t = c # u" and r: "q = Suc r" using Suc.prems by (cases t; cases q) auto
    have s: "Suc (pw + q) - cols = Suc (Suc (pw + r) - cols)" using True r by simp
    have "scroll_left n pw cols u r (of_nat (length u)) = Some (drop (Suc (pw + r) - cols) u, r - (Suc (pw + r) - cols), of_nat (length u - (Suc (pw + r) - cols)))"
      using Suc.prems s t r by (intro Suc.IH) auto
    moreover have "utf8NextCharLen t 0 = 1" "utf8SingleCharWidth [c] = 1"
      using Suc.prems t next_plain [of t 0, OF all_plain] single_width by auto
    ultimately show ?thesis using True Suc.prems s unfolding t r by simp
  qed simp
qed simp

lemma trim_printable:
  assumes "list_all printable t" "pw + length t < 2 ^ 64" "pw \<le> cols" "length t < n"
  shows "trim_end n pw cols t (of_nat (length t)) = Some (take (cols - pw) t)"
  using assms
proof (induction n arbitrary: t)
  case (Suc n)
  have u: "unat (of_nat pw + of_nat (length t) :: size_t) = pw + length t" 
    using Suc.prems by (simp add: unsigned_of_nat take_bit_nat_eq_self flip: of_nat_add)
  show ?case
  proof (cases "pw + length t > cols")
    case True
    then obtain b c where t: "t = b @ [c]" using Suc.prems by (cases t rule: rev_cases) auto
    have "trim_end n pw cols b (of_nat (length b)) = Some (take (cols - pw) b)" using Suc.prems t by (intro Suc.IH) auto
    moreover have "utf8PrevCharLen t (length t) = 1" using Suc.prems t prev_plain [of t "length t", OF all_plain] by auto
    moreover have "utf8SingleCharWidth [c] = 1" using Suc.prems t single_width by auto
    moreover have "unat (of_nat (length t) :: size_t) = length t" using Suc.prems by (simp add: unsigned_of_nat take_bit_nat_eq_self)
    then have "\<not> (of_nat (length t) :: size_t) < 1" using t by (auto simp: word_less_nat_alt)
    ultimately show ?thesis using True u unfolding t by simp
  qed (use u in simp)
qed simp

section \<open>What is shown\<close>

text \<open>C35. Drawing a printable line ends and shows the right part of it: when the prompt leaves at least one column and the width fits a
  machine word, \<open>refreshSingleLine\<close> finishes within one round more than there are bytes; it writes the prompt and the longest part
  of the line that fits after it, shifted by the least amount that keeps the cursor on the screen, and puts the cursor on the
  column of its character.\<close>

theorem refresh_exact:
  assumes "ed_wf l" and "ed_folds l = []" and "list_all printable (ed_text l)" and "utf8StrWidth (ed_prompt l) < ed_cols l"
    and "utf8StrWidth (ed_prompt l) + ed_len l < 2 ^ 64" and "ed_len l + 1 < rounds"
  shows "refreshSingleLine rounds fresh l =
    (let pw = utf8StrWidth (ed_prompt l); shift = pw + ed_pos l + 1 - ed_cols l in
     Some ([13] @ ed_prompt l @ take (ed_cols l - pw) (drop shift (ed_text l)) @ [27, 91, 48, 75] @
       [13, 27, 91] @ dec_bytes (pw + ed_pos l - shift) @ [67])) \<and>
    utf8StrWidth (ed_prompt l) + ed_pos l - (utf8StrWidth (ed_prompt l) + ed_pos l + 1 - ed_cols l) < ed_cols l"
proof -
  let ?pw = "utf8StrWidth (ed_prompt l)" and ?t = "ed_text l"
  define s where "s = Suc (?pw + ed_pos l) - ed_cols l"
  have p: "length ?t = ed_len l" "ed_pos l \<le> ed_len l" using assms(1) by (simp, simp add: ed_wf_def)
  have s: "s \<le> ed_pos l" "s < rounds" using assms(4,6) p by (auto simp: s_def)
  have "list_all printable (take (ed_pos l) ?t)" "list_all printable (drop s ?t)"
    using assms(3) by (auto simp: list_all_iff dest: in_set_takeD in_set_dropD)
  moreover from this have "trim_end rounds ?pw (ed_cols l) (drop s ?t) (of_nat (length (drop s ?t))) = Some (take (ed_cols l - ?pw) (drop s ?t))"
    using assms p by (intro trim_printable) auto
  moreover have "scroll_left rounds ?pw (ed_cols l) ?t (ed_pos l) (of_nat (length ?t)) = Some (drop s ?t, ed_pos l - s, of_nat (length ?t - s))"
    using scroll_printable [OF assms(3), of "ed_pos l" ?pw "ed_cols l" rounds] assms p s by (simp add: s_def)
  ultimately have "refreshSingleLine rounds fresh l =
      Some ([13] @ ed_prompt l @ take (ed_cols l - ?pw) (drop s ?t) @ [27, 91, 48, 75] @ [13, 27, 91] @ dec_bytes (ed_pos l - s + ?pw) @ [67])"
    using assms(2,3) p by (simp add: refreshSingleLine_def linenoiseRenderBuffer_def linenoiseGetRenderFolds_def width_printable Let_def)
  moreover have "ed_pos l - s + ?pw = ?pw + ed_pos l - s" "?pw + ed_pos l - s < ed_cols l" using s assms(4) by (auto simp: s_def)
  ultimately show ?thesis by (simp add: s_def Let_def add.commute)
qed

text \<open>\<open>abcdef\<close> behind a prompt of two columns on a terminal of six, the cursor at the end: \<open>def\<close> is shown.\<close>

theorem refresh_exact_witness:
  "refreshSingleLine 10 (\<lambda>n. replicate n 0)
     \<lparr>ed_mem = [97, 98, 99, 100, 101, 102, 0, 0], ed_buflen = 7, ed_prompt = [62, 32], ed_pos = 6, ed_len = 6, ed_cols = 6, ed_folds = [], ed_drawn = True\<rparr> =
   Some [13, 62, 32, 100, 101, 102, 27, 91, 48, 75, 13, 27, 91, 53, 67]"
proof -
  let ?l = "\<lparr>ed_mem = [97, 98, 99, 100, 101, 102, 0, 0], ed_buflen = 7, ed_prompt = [62, 32], ed_pos = 6, ed_len = 6, ed_cols = 6, ed_folds = [], ed_drawn = True\<rparr>"
  have w: "utf8StrWidth [62, 32] = 2" using width_printable [of "[62, 32]"] by (simp add: printable_def)
  have wf: "ed_wf ?l" by (simp add: ed_wf_def LINENOISE_MAX_FOLDS_def)
  show ?thesis using refresh_exact [of ?l 10 "\<lambda>n. replicate n 0", OF wf]
    by (simp add: w ed_text_def printable_def dec_bytes.simps)
qed

section \<open>A line that is never drawn\<close>

text \<open>A flag: two regional indicators, four bytes each.\<close>

definition flag :: bytes where
  "flag = [0xF0, 0x9F, 0x87, 0xB9, 0xF0, 0x9F, 0x87, 0xB7]"

fun flags :: "nat \<Rightarrow> bytes" where
  "flags 0 = []"
| "flags (Suc k) = flag @ flags k"

lemma flags_length [simp]: "length (flags k) = 8 * k"
  by (induction k) (auto simp: flag_def)

lemma decode_flag:
  "utf8DecodeChar (0xF0 # 0x9F # 0x87 # 0xB9 # s) = (0x1F1F9, 4)" "utf8DecodeChar (0xF0 # 0x9F # 0x87 # 0xB7 # s) = (0x1F1F7, 4)"
  by (simp_all add: utf8DecodeChar_def)

lemma flag_kinds:
  "isRegionalIndicator 0x1F1F9" "isRegionalIndicator 0x1F1F7" "\<not> isZWJ 0x1F1F9" "\<not> isZWJ 0x1F1F7" "\<not> isGraphemeExtend 0x1F1F9" "\<not> isGraphemeExtend 0x1F1F7"
  "utf8CharWidth 0x1F1F9 = 2" "utf8CharWidth 0x1F1F7 = 2"
  by (simp_all add: isRegionalIndicator_def isZWJ_def isGraphemeExtend_def isVariationSelector_def isSkinToneModifier_def isCombiningMark_def utf8CharWidth_def)

lemma indicator_width:
  "str_width (0xF0 # 0x9F # 0x87 # 0xB9 # s) False w = str_width s False (w + 2)" "str_width (0xF0 # 0x9F # 0x87 # 0xB7 # s) False w = str_width s False (w + 2)"
  by (subst str_width.simps, simp add: decode_flag flag_kinds)+

lemma flags_width: "utf8StrWidth (flags k) = 4 * k"
proof -
  have "str_width (flags k) False w = w + 4 * k" for w
  proof (induction k arbitrary: w)
    case (Suc k)
    then show ?case by (simp add: flag_def indicator_width)
  qed (simp add: str_width.simps)
  then show ?thesis by (simp add: utf8StrWidth_def)
qed

text \<open>The cluster is the pair, but its width is taken from the first indicator alone.\<close>

lemma flags_next: "utf8NextCharLen (flags (Suc k)) 0 = 8" "utf8SingleCharWidth (take 8 (flags (Suc k))) = 2"
proof -
  show "utf8SingleCharWidth (take 8 (flags (Suc k))) = 2"
    by (simp add: flag_def utf8SingleCharWidth_def decode_flag flag_kinds)
  have "next_cluster (flags (Suc k)) False 8 8 = 8"
    by (cases k) (simp_all add: next_cluster.simps flag_def decode_flag flag_kinds)
  then have "next_cluster (flags (Suc k)) True 4 4 = 8"
    by (subst next_cluster.simps) (simp add: flag_def decode_flag flag_kinds)
  then show "utf8NextCharLen (flags (Suc k)) 0 = 8"
    by (simp add: utf8NextCharLen_def) (simp add: flag_def decode_flag flag_kinds)
qed

lemma scroll_hangs: "cols \<le> pw + p \<Longrightarrow> scroll_left n pw cols (flags k) (p + 2 * k) lencol = None"
proof (induction n arbitrary: k lencol)
  case (Suc n)
  show ?case
  proof (cases k)
    case 0
    then show ?thesis using Suc.IH [of 0] Suc.prems by (simp add: utf8NextCharLen_def utf8SingleCharWidth_def)
  next
    case (Suc j)
    have "scroll_left n pw cols (flags j) (p + 2 * j) (lencol - 2) = None" using Suc.IH Suc.prems by blast
    moreover have "drop 8 (flags (Suc j)) = flags j" by (simp add: flag_def)
    ultimately show ?thesis using Suc.prems flags_next [of j] unfolding Suc by (simp del: flags.simps)
  qed
qed simp

lemma read_utf8_all: "read_utf8 (length r) got (map In_byte r @ is) = (got @ r, is)"
  by (induction r arbitrary: got) auto

text \<open>A lead byte and as many bytes as it announces are inserted as they are.\<close>

lemma multibyte_feed:
  assumes wf: "ed_wf l" and c: "0xC0 \<le> c" "utf8ByteLen c = Suc (length r)" and room: "ed_len l + Suc (length r) \<le> ed_buflen l"
  obtains l' where "linenoiseEditFeed True al (map In_byte (c # r) @ is) l = Some (Feed_more, l', al, is)" "ed_frame l l'"
    "ed_text l' = take (ed_pos l) (ed_text l) @ (c # r) @ drop (ed_pos l) (ed_text l)" "ed_pos l' = ed_pos l + Suc (length r)"
    "ed_len l' = ed_len l + Suc (length r)" "ed_folds l' = linenoiseAdjustFoldsAfterInsert (ed_pos l) (Suc (length r)) (ed_folds l)"
proof -
  have "ed_len l + length (c # r) \<le> ed_buflen l" using room by simp
  from insert_exact [OF wf this] obtain l' where i: "linenoiseEditInsertNoRefresh l (c # r) = Some (True, l')" "ed_frame l l'"
    "ed_text l' = take (ed_pos l) (ed_text l) @ (c # r) @ drop (ed_pos l) (ed_text l)" "ed_pos l' = ed_pos l + length (c # r)"
    "ed_len l' = ed_len l + length (c # r)" "ed_folds l' = linenoiseAdjustFoldsAfterInsert (ed_pos l) (length (c # r)) (ed_folds l)" .
  have "\<not> c \<in> {0, 1, 2, 3, 4, 5, 6, 8, 11, 12, 13, 16, 20, 21, 23, 27, 127}" "\<not> c < 32" using c(1) by (auto simp: word_le_nat_alt word_less_nat_alt)
  then have "linenoiseEditFeed True al (map In_byte (c # r) @ is) l = Some (Feed_more, l', al, is)"
    using i(1) c(2) read_utf8_all [of r "[c]" "is"] by (auto simp: linenoiseEditFeed_def typed_key_def linenoiseEditInsert_def)
  then show thesis using that i(2-) by simp
qed

definition typed_flags :: "nat \<Rightarrow> (bool \<times> heap_answers \<times> ed_in list) list" where
  "typed_flags k = concat (replicate k [(True, [], map In_byte (take 4 flag)), (True, [], map In_byte (drop 4 flag))])"

lemma indicator_feed:
  assumes "ed_wf l" "ed_folds l = []" "ed_pos l = ed_len l" "ed_len l + 4 \<le> ed_buflen l"
  obtains l' where "linenoiseEditFeed True [] (map In_byte [0xF0, 0x9F, 0x87, b]) l = Some (Feed_more, l', [], [])" "ed_frame l l'"
    "ed_text l' = ed_text l @ [0xF0, 0x9F, 0x87, b]" "ed_folds l' = []" "ed_pos l' = ed_len l'" "ed_len l' = ed_len l + 4"
proof -
  have "utf8ByteLen 0xF0 = Suc (length [0x9F, 0x87, b])" by (simp add: utf8ByteLen_def)
  moreover have "ed_len l + Suc (length [0x9F, 0x87, b]) \<le> ed_buflen l" "(0xC0 :: byte) \<le> 0xF0" using assms(4) by simp_all
  ultimately obtain l' where i: "linenoiseEditFeed True [] (map In_byte [0xF0, 0x9F, 0x87, b] @ []) l = Some (Feed_more, l', [], [])" "ed_frame l l'"
    "ed_text l' = take (ed_pos l) (ed_text l) @ [0xF0, 0x9F, 0x87, b] @ drop (ed_pos l) (ed_text l)" "ed_pos l' = ed_pos l + Suc (length [0x9F, 0x87, b])"
    "ed_len l' = ed_len l + Suc (length [0x9F, 0x87, b])" "ed_folds l' = linenoiseAdjustFoldsAfterInsert (ed_pos l) (Suc (length [0x9F, 0x87, b])) (ed_folds l)"
    using multibyte_feed [OF assms(1)] by metis
  show thesis by (rule that [of l']) (use i assms in simp_all)
qed

lemma flags_session:
  assumes "ed_wf l" "ed_folds l = []" "ed_pos l = ed_len l" "ed_len l + 8 * k \<le> ed_buflen l"
  shows "\<exists>as l'. ed_session (typed_flags k) l = Some (as, l') \<and> ed_frame l l' \<and> ed_text l' = ed_text l @ flags k \<and> ed_folds l' = [] \<and> ed_pos l' = ed_len l'"
  using assms
proof (induction k arbitrary: l)
  case 0
  then show ?case by (simp add: typed_flags_def ed_frame_refl)
next
  case (Suc k)
  obtain l1 where l1: "linenoiseEditFeed True [] (map In_byte [0xF0, 0x9F, 0x87, 0xB9]) l = Some (Feed_more, l1, [], [])" "ed_frame l l1"
    "ed_text l1 = ed_text l @ [0xF0, 0x9F, 0x87, 0xB9]" "ed_folds l1 = []" "ed_pos l1 = ed_len l1" "ed_len l1 = ed_len l + 4"
    using indicator_feed [OF Suc.prems(1-3), of "0xB9"] Suc.prems(4) by auto
  obtain l2 where l2: "linenoiseEditFeed True [] (map In_byte [0xF0, 0x9F, 0x87, 0xB7]) l1 = Some (Feed_more, l2, [], [])" "ed_frame l1 l2"
    "ed_text l2 = ed_text l1 @ [0xF0, 0x9F, 0x87, 0xB7]" "ed_folds l2 = []" "ed_pos l2 = ed_len l2" "ed_len l2 = ed_len l1 + 4"
    using indicator_feed [OF _ l1(4,5), of "0xB7"] l1 Suc.prems(4) by (auto simp: ed_frame_def)
  have f: "ed_frame l l2" using l1(2) l2(2) by (rule ed_frame_trans)
  then obtain as l' where r: "ed_session (typed_flags k) l2 = Some (as, l')" "ed_frame l2 l'" "ed_text l' = ed_text l2 @ flags k" "ed_folds l' = []" "ed_pos l' = ed_len l'"
    using Suc.IH [of l2] l1 l2 Suc.prems(4) by (auto simp: ed_frame_def)
  have "typed_flags (Suc k) = (True, [], map In_byte [0xF0, 0x9F, 0x87, 0xB9]) # (True, [], map In_byte [0xF0, 0x9F, 0x87, 0xB7]) # typed_flags k"
    by (simp add: typed_flags_def flag_def)
  then have "ed_session (typed_flags (Suc k)) l = Some (Feed_more # Feed_more # as, l')" using l1(1) l2(1) r(1) by simp
  moreover have "ed_frame l l'" using f r(2) by (rule ed_frame_trans)
  moreover have "ed_text l' = ed_text l @ flags (Suc k)" using r(3) l1(3) l2(3) by (simp add: flag_def)
  ultimately show ?case using r(4,5) by blast
qed

text \<open>C36. Drawing does not always end: flags (pairs of regional indicators) count four columns when the width of the line is measured but
  only two when one is cut off on the left, so after typing \<open>k\<close> flags on a terminal whose columns are no more than the prompt and
  \<open>2 * k\<close> together, the first trimming loop of \<open>refreshSingleLine\<close> runs out of text and goes on for ever: no number of
  rounds is enough.\<close>

theorem refresh_hangs:
  assumes "linenoiseEditStart buf (length buf) prompt columns True True = Some l" and "8 * k < length buf"
    and "ed_cols l \<le> utf8StrWidth prompt + 2 * k"
  shows "\<exists>as l'. ed_session (typed_flags k) l = Some (as, l') \<and> ed_text l' = flags k \<and> (\<forall>rounds fresh. refreshSingleLine rounds fresh l' = None)"
proof -
  note s = start_plain [OF assms(1)]
  have p: "ed_wf l" "ed_folds l = []" "ed_text l = []" "ed_pos l = ed_len l" "ed_prompt l = prompt" "ed_len l = 0"
    using assms(1) s plain_facts [OF s(1)] by (auto simp: linenoiseEditStart_def ed_text_def split: if_splits)
  moreover have "ed_len l + 8 * k \<le> ed_buflen l" using p s(2) assms(2) by simp
  ultimately obtain as l' where r: "ed_session (typed_flags k) l = Some (as, l')" "ed_frame l l'" "ed_text l' = flags k" "ed_folds l' = []" "ed_pos l' = ed_len l'"
    using flags_session [of l k] by auto
  then have "ed_len l' = 8 * k" "ed_prompt l' = prompt" "ed_cols l' = ed_cols l" using p text_length [of l'] by (auto simp: ed_frame_def)
  with r assms(3) have "refreshSingleLine rounds fresh l' = None" for rounds fresh
    using scroll_hangs [of "ed_cols l" "utf8StrWidth prompt" "2 * k" rounds k]
    by (simp add: refreshSingleLine_def linenoiseRenderBuffer_def linenoiseGetRenderFolds_def flags_width)
  with r show ?thesis by blast
qed

theorem refresh_hangs_witness:
  "\<exists>as l'. ed_session (typed_flags 39) (the (linenoiseEditStart (replicate 4096 0) 4096 [62, 32] 80 True True)) = Some (as, l') \<and>
    ed_text l' = flags 39 \<and> (\<forall>rounds fresh. refreshSingleLine rounds fresh l' = None)"
proof -
  have s: "linenoiseEditStart (replicate 4096 0) (length (replicate 4096 (0 :: byte))) [62, 32] 80 True True =
    Some (the (linenoiseEditStart (replicate 4096 0) 4096 [62, 32] 80 True True))" by (simp add: linenoiseEditStart_def)
  have "utf8StrWidth [62, 32] = 2" using width_printable [of "[62, 32]"] by (simp add: printable_def)
  moreover have "ed_cols (the (linenoiseEditStart (replicate 4096 0) 4096 [62, 32] 80 True True)) = 80" by (simp add: linenoiseEditStart_def)
  ultimately show ?thesis using refresh_hangs [OF s, of 39] by simp
qed

section \<open>Control bytes\<close>

lemma read_param_more:
  "read_param 6 ps (In_byte c # is) = (if 48 \<le> c \<and> c \<le> 57 then read_param 5 (ps @ [c]) is else (ps, c, is))"
  "read_param 5 ps (In_byte c # is) = (if 48 \<le> c \<and> c \<le> 57 then read_param 4 (ps @ [c]) is else (ps, c, is))"
  using read_param.simps(2) [of 5 ps "In_byte c # is"] read_param.simps(2) [of 4 ps "In_byte c # is"] by simp_all

lemma paste_one:
  assumes "d \<noteq> 27" "ed_len l + 1 \<le> ed_buflen l" "0 < maxlen"
  shows "paste_loop l maxlen (map In_byte (d # paste_end)) 0 False [] 0 [] = (False, [d], 64, [], [])"
proof -
  have "paste_loop l maxlen (map In_byte paste_end) 0 False [d] 64 [] = (False, [d], 64, [], [])"
    by (simp add: paste_end_def paste_loop.simps)
  moreover have "pasteBufferAppend l [] 0 [] [d] maxlen = (True, [d], 64, [])"
    using assms by (simp add: pasteBufferAppend_def pasteBufferReserve_def linenoiseEditGrow_def paste_want.simps Suc_le_eq)
  ultimately show ?thesis using assms(1) by (subst paste_loop.simps) (simp add: paste_end_def)
qed

lemma paste_one_insert:
  assumes wf: "ed_wf l" and room: "ed_len l + 1 \<le> ed_buflen l" and f: "length (ed_folds l) < LINENOISE_MAX_FOLDS" and d: "d \<noteq> 27" "d \<noteq> 13"
  shows "\<exists>l'. linenoiseEditPaste True [] (map In_byte (d # paste_end)) l = Some (l', [], []) \<and>
    ed_text l' = take (ed_pos l) (ed_text l) @ [d] @ drop (ed_pos l) (ed_text l)"
proof -
  have "ed_len l + length [d] \<le> ed_buflen l" using room by simp
  from insert_exact [OF wf this] obtain l' where i: "linenoiseEditInsertNoRefresh l [d] = Some (True, l')"
    "ed_text l' = take (ed_pos l) (ed_text l) @ [d] @ drop (ed_pos l) (ed_text l)" by metis
  have "linenoiseEditInsert True l [d] = Some (0, l')" using i(1) by (simp add: linenoiseEditInsert_def)
  moreover have "ed_text (l'\<lparr>ed_folds := fs\<rparr>) = ed_text l'" for fs by (simp add: ed_text_def)
  moreover have "0 < min (ed_buflen l - ed_len l) PASTE_MAX_BYTES" using room by (simp add: PASTE_MAX_BYTES_def)
  ultimately show ?thesis using i f d paste_one [OF d(1) room] by (simp add: linenoiseEditPaste_def Let_def)
qed

text \<open>The typed path beeps at a zero byte and at the other control bytes, and the comments there say that none of them ever reaches the
  buffer; they do. Any byte \<open>d\<close> whatever is inserted when it follows a lead byte such as 0xC3, since the bytes that complete a
  character are not looked at, and any byte but 13 and 27 (which are treated apart) is inserted by a bracketed paste.\<close>

theorem control_bytes_inserted:
  assumes "ed_wf l" and "ed_len l + 2 \<le> ed_buflen l" and "length (ed_folds l) < LINENOISE_MAX_FOLDS"
  shows "(\<exists>l'. linenoiseEditFeed True [] (map In_byte [0xC3, d]) l = Some (Feed_more, l', [], []) \<and>
      ed_text l' = take (ed_pos l) (ed_text l) @ [0xC3, d] @ drop (ed_pos l) (ed_text l)) \<and>
    (d \<noteq> 13 \<and> d \<noteq> 27 \<longrightarrow>
      (\<exists>l'. linenoiseEditFeed True [] (map In_byte ([27, 91, 50, 48, 48, 126] @ [d] @ paste_end)) l = Some (Feed_more, l', [], []) \<and>
        ed_text l' = take (ed_pos l) (ed_text l) @ [d] @ drop (ed_pos l) (ed_text l)))"
proof (intro conjI impI)
  have "(0xC0 :: byte) \<le> 0xC3" "utf8ByteLen 0xC3 = Suc (length [d])" "ed_len l + Suc (length [d]) \<le> ed_buflen l" using assms(2) by (simp_all add: utf8ByteLen_def)
  from multibyte_feed [OF assms(1) this, of "[]" "[]"]
  show "\<exists>l'. linenoiseEditFeed True [] (map In_byte [0xC3, d]) l = Some (Feed_more, l', [], []) \<and>
      ed_text l' = take (ed_pos l) (ed_text l) @ [0xC3, d] @ drop (ed_pos l) (ed_text l)" by (metis append_Nil2)
next
  assume "d \<noteq> 13 \<and> d \<noteq> 27"
  then obtain l' where "linenoiseEditPaste True [] (map In_byte (d # paste_end)) l = Some (l', [], [])"
    "ed_text l' = take (ed_pos l) (ed_text l) @ [d] @ drop (ed_pos l) (ed_text l)" using paste_one_insert [OF assms(1) _ assms(3)] assms(2) by fastforce
  then show "\<exists>l'. linenoiseEditFeed True [] (map In_byte ([27, 91, 50, 48, 48, 126] @ [d] @ paste_end)) l = Some (Feed_more, l', [], []) \<and>
        ed_text l' = take (ed_pos l) (ed_text l) @ [d] @ drop (ed_pos l) (ed_text l)"
    by (simp add: linenoiseEditFeed_def escape_key_def read_param_byte read_param_more)
qed

text \<open>A zero byte behind 0xC3, and a bell that is pasted, in an empty line.\<close>

theorem control_bytes_inserted_witness:
  "(\<exists>l'. linenoiseEditFeed True [] (map In_byte [0xC3, 0]) (the (linenoiseEditStart (replicate 8 0) 8 [62] 80 True True)) = Some (Feed_more, l', [], []) \<and>
     ed_text l' = [0xC3, 0]) \<and>
   (\<exists>l'. linenoiseEditFeed True [] (map In_byte ([27, 91, 50, 48, 48, 126] @ [7] @ paste_end)) (the (linenoiseEditStart (replicate 8 0) 8 [62] 80 True True)) =
       Some (Feed_more, l', [], []) \<and> ed_text l' = [7])"
proof -
  let ?l = "the (linenoiseEditStart (replicate 8 0) 8 [62] 80 True True)"
  have l: "ed_wf ?l" "ed_len ?l = 0" "ed_buflen ?l = 7" "ed_folds ?l = []" "ed_text ?l = []" "ed_pos ?l = 0"
    by (auto simp: linenoiseEditStart_def ed_wf_def ed_text_def LINENOISE_MAX_FOLDS_def eval_nat_numeral)
  then show ?thesis using control_bytes_inserted [OF l(1), of 0] control_bytes_inserted [OF l(1), of 7]
    by (simp add: LINENOISE_MAX_FOLDS_def)
qed

end
