(* ===== verification/Nox_Frontend.thy ===== *)
theory Nox_Frontend
  imports Nox_Terminal Nox_Stdin Nox_Frames
begin

text \<open>
  The common front end layer and its line based back end, from \<^verbatim>\<open>src/frontend.c\<close> and \<^verbatim>\<open>src/fe_ansi.c\<close>: the events that
  \<open>ui_print_*\<close> build and the bytes that the back end writes to the terminal for them. A function that prints
  returns the bytes; the clock, the width of the terminal and the allocator are arguments.
\<close>

section \<open>Events\<close>

datatype fe_event_type = FE_MSG_IN | FE_MSG_OUT | FE_SYSTEM | FE_ERROR | FE_PROGRESS

text \<open>Hours, minutes and seconds of the event; the fields of a progress event follow.\<close>

record fe_event =
  ev_type :: fe_event_type
  ev_text :: bytes
  ev_tm :: "nat \<times> nat \<times> nat"
  ev_filename :: bytes
  ev_done :: u64
  ev_total :: u64
  ev_upload :: bool

text \<open>The time of an event; a clock or calendar that fails gives the epoch and 00:00:00.\<close>

definition fe_now_tm :: "bool \<Rightarrow> int \<Rightarrow> (int \<Rightarrow> (nat \<times> nat \<times> nat) option) \<Rightarrow> int \<times> nat \<times> nat \<times> nat" where
  "fe_now_tm clock_ok now localtime =
     (let ts = (if clock_ok then now else 0) in (ts, case localtime ts of None \<Rightarrow> (0, 0, 0) | Some tm \<Rightarrow> tm))"

definition fe_fill_event :: "fe_event_type \<Rightarrow> bytes \<Rightarrow> nat \<times> nat \<times> nat \<Rightarrow> fe_event" where
  "fe_fill_event ty msg tm =
     \<lparr>ev_type = ty, ev_text = msg, ev_tm = tm, ev_filename = [], ev_done = 0, ev_total = 0, ev_upload = False\<rparr>"

text \<open>What the wrappers hand to the back end; \<open>text\<close> of a system or error line is the formatted line, cut to its buffer of 4096.\<close>

definition incoming_event :: "bytes \<Rightarrow> nat \<times> nat \<times> nat \<Rightarrow> fe_event option" where
  "incoming_event msg tm = (if list_all (\<lambda>c. c = 32 \<or> c = 9) msg then None else Some (fe_fill_event FE_MSG_IN msg tm))"

definition outgoing_event :: "bytes \<Rightarrow> nat \<times> nat \<times> nat \<Rightarrow> fe_event" where
  "outgoing_event msg tm = fe_fill_event FE_MSG_OUT msg tm"

definition ui_print_system :: "bytes \<Rightarrow> nat \<times> nat \<times> nat \<Rightarrow> fe_event" where
  "ui_print_system msg tm = fe_fill_event FE_SYSTEM (take 4095 msg) tm"

definition ui_print_error :: "bytes \<Rightarrow> nat \<times> nat \<times> nat \<Rightarrow> fe_event" where
  "ui_print_error msg tm = fe_fill_event FE_ERROR (take 4095 msg) tm"

definition ui_print_progress :: "bytes \<Rightarrow> u64 \<Rightarrow> u64 \<Rightarrow> bool \<Rightarrow> nat \<times> nat \<times> nat \<Rightarrow> fe_event" where
  "ui_print_progress filename done total_size is_upload tm =
     (fe_fill_event FE_PROGRESS [] tm)\<lparr>ev_filename := filename, ev_done := done, ev_total := total_size, ev_upload := is_upload\<rparr>"

section \<open>The state of the back end\<close>

datatype ui_label = UI_LABEL_NONE | UI_LABEL_SELF | UI_LABEL_PEER | UI_LABEL_ERROR

record nox_theme =
  clr_self :: bytes
  clr_peer :: bytes
  clr_system :: bytes
  clr_error :: bytes
  clr_prompt :: bytes
  clr_timestamp :: bytes
  clr_progress :: bytes
  clr_reset :: bytes

definition nox_theme_default :: nox_theme where
  "nox_theme_default = \<lparr>clr_self = ESC # str_bytes ''[38;2;38;162;105m'', clr_peer = ESC # str_bytes ''[38;2;133;60;153m'',
     clr_system = ESC # str_bytes ''[38;2;202;151;15m'', clr_error = ESC # str_bytes ''[1;38;2;210;24;38m'',
     clr_prompt = ESC # str_bytes ''[38;2;34;105;121m'', clr_timestamp = ESC # str_bytes ''[38;2;31;65;117m'',
     clr_progress = ESC # str_bytes ''[38;2;34;105;121m'', clr_reset = ESC # str_bytes ''[0m''\<rparr>"

text \<open>\<open>g_ansi\<close> with the fields of the application state that belong to the terminal; the columns are what the terminal
  answers (0: no answer).\<close>

record ansi_state =
  an_theme :: nox_theme
  an_last :: ui_label
  an_ln_active :: bool
  an_tui :: bool
  an_prompt_len :: nat
  an_stdin :: bytes
  an_cols :: nat

definition ui_init :: "nox_theme option \<Rightarrow> ansi_state \<Rightarrow> ansi_state" where
  "ui_init theme a = a\<lparr>an_theme := (case theme of None \<Rightarrow> nox_theme_default | Some th \<Rightarrow> th)\<rparr>"

definition ui_reset_sender :: "ansi_state \<Rightarrow> ansi_state" where
  "ui_reset_sender a = a\<lparr>an_last := UI_LABEL_NONE\<rparr>"

definition get_terminal_cols :: "ansi_state \<Rightarrow> nat" where
  "get_terminal_cols a = (if an_cols a > 0 then an_cols a else 80)"

section \<open>The prompt\<close>

definition onion_suffix :: bytes where "onion_suffix = str_bytes ''.onion''"

definition hash_len :: "bytes \<Rightarrow> nat" where
  "hash_len onion = (if length onion > 6 \<and> drop (length onion - 6) onion = onion_suffix then length onion - 6 else length onion)"

text \<open>The shortened address.\<close>

definition short_id :: "bytes \<Rightarrow> bytes" where
  "short_id onion =
     (if length onion > 10
      then if hash_len onion \<ge> 8 then take 4 onion @ [46, 46] @ take 4 (drop (hash_len onion - 4) onion) else take (hash_len onion) onion
      else take 11 onion)"

definition transfer_shown :: "peer_session \<Rightarrow> bool" where
  "transfer_shown ps \<longleftrightarrow> tx_active (ps_tx_file ps) \<and> tx_total_size (ps_tx_file ps) > 0 \<or> rx_active (ps_rx_file ps) \<and> rx_expected_size (ps_rx_file ps) > 0"

text \<open>The length that is kept for counting lines.\<close>

definition calc_prompt_display_len :: "sys \<Rightarrow> nat" where
  "calc_prompt_display_len st =
     (case ACTIVE_PEER st of None \<Rightarrow> 5
      | Some i \<Rightarrow>
        let onion = as_active_peer_onion st; olen = length onion in
        if onion = [] then 5
        else let id_len = (if olen > 10 then if hash_len onion \<ge> 8 then 10 else hash_len onion else olen) in
          1 + id_len + 1 + 3 + (if transfer_shown (as_peers st ! i) then 7 else 0))"

definition percent :: "u64 \<Rightarrow> u64 \<Rightarrow> nat" where
  "percent n total_size = (let p = (ucast ((n * 100) div total_size) :: u32) in if p > 100 then 100 else unat p)"

definition arrow_up :: bytes where "arrow_up = [0xE2, 0xAC, 0x86]"
definition arrow_down :: bytes where "arrow_down = [0xE2, 0xAC, 0x87]"

text \<open>The text of the prompt without its colours.\<close>

definition prompt_text :: "sys \<Rightarrow> bytes" where
  "prompt_text st =
     (case ACTIVE_PEER st of None \<Rightarrow> str_bytes ''nox> ''
      | Some i \<Rightarrow>
        let onion = as_active_peer_onion st; ps = as_peers st ! i; tx = ps_tx_file ps; rx = ps_rx_file ps in
        if onion = [] then str_bytes ''nox> ''
        else [91] @ short_id onion @
          (if tx_active tx \<and> tx_total_size tx > 0 then [32] @ arrow_up @ dec_bytes (percent (tx_sent_bytes tx) (tx_total_size tx)) @ [37]
           else if rx_active rx \<and> rx_expected_size rx > 0 then [32] @ arrow_down @ dec_bytes (percent (rx_received_bytes rx) (rx_expected_size rx)) @ [37]
           else []) @ [93] @ str_bytes '' > '')"

definition ui_print_prompt :: "sys \<Rightarrow> ansi_state \<Rightarrow> bytes \<times> ansi_state" where
  "ui_print_prompt st a =
     (if an_tui a then ([], a)
      else (clr_prompt (an_theme a) @ prompt_text st @ clr_reset (an_theme a), a\<lparr>an_prompt_len := calc_prompt_display_len st\<rparr>))"

text \<open>How many screen lines the prompt and the input take.\<close>

definition calc_current_input_lines :: "ansi_state \<Rightarrow> nat" where
  "calc_current_input_lines a =
     (let n = an_prompt_len a + length (an_stdin a); cols = get_terminal_cols a in if n = 0 then 1 else (n + cols - 1) div cols)"

definition clear_prompt_area_lines :: "ansi_state \<Rightarrow> nat \<Rightarrow> bytes" where
  "clear_prompt_area_lines a lines =
     (if an_tui a then []
      else let lines = max 1 lines in
        (if lines > 1 then [ESC, 91] @ dec_bytes (lines - 1) @ [65] else []) @ [ESC, 91, 49, 71, ESC, 91, 74])"

definition tofu_waits :: "sys \<Rightarrow> bool" where
  "tofu_waits st \<longleftrightarrow> (case ACTIVE_PEER st of None \<Rightarrow> False | Some i \<Rightarrow> ps_tofu_pending (as_peers st ! i))"

definition clear_prompt_area :: "sys \<Rightarrow> ansi_state \<Rightarrow> bytes" where
  "clear_prompt_area st a =
     (if an_tui a \<or> tofu_waits st \<or> an_ln_active a then []
      else [ESC, 91] @ dec_bytes (max 1 (calc_current_input_lines a)) @ [65, ESC, 91, 74])"

definition redraw_input :: "sys \<Rightarrow> ansi_state \<Rightarrow> bytes \<times> ansi_state" where
  "redraw_input st a =
     (if an_tui a \<or> tofu_waits st then ([], a)
      else case ui_print_prompt st a of (out, a) \<Rightarrow> ([ESC, 91, 74] @ out @ an_stdin a, a))"

section \<open>Messages\<close>

definition print_label :: "nox_theme \<Rightarrow> ui_label \<Rightarrow> bytes" where
  "print_label th label =
     (case label of UI_LABEL_SELF \<Rightarrow> clr_self th @ str_bytes ''Sen:'' @ clr_reset th
      | UI_LABEL_PEER \<Rightarrow> clr_peer th @ str_bytes ''Peer:'' @ clr_reset th
      | UI_LABEL_ERROR \<Rightarrow> clr_error th @ str_bytes ''!:'' @ clr_reset th
      | UI_LABEL_NONE \<Rightarrow> [])"

definition dec2 :: "nat \<Rightarrow> bytes" where
  "dec2 n = (if n < 10 then [48] else []) @ dec_bytes n"

definition clock_text :: "nat \<times> nat \<times> nat \<Rightarrow> bytes" where
  "clock_text = (\<lambda>(h, m, s). [91] @ dec2 h @ [58] @ dec2 m @ [58] @ dec2 s @ [93])"

definition print_timestamp_short :: "nox_theme \<Rightarrow> nat \<times> nat \<times> nat \<Rightarrow> bytes" where
  "print_timestamp_short th tm = clr_timestamp th @ clock_text tm @ clr_reset th @ [32]"

definition hide_cursor :: bytes where "hide_cursor = [ESC, 91, 63, 50, 53, 108]"
definition show_cursor :: bytes where "show_cursor = [ESC, 91, 63, 50, 53, 104]"

text \<open>A text of the peer or of the user; without memory for the cleaned copy nothing is shown.\<close>

definition atomic_message :: "bool \<Rightarrow> sys \<Rightarrow> ui_label \<Rightarrow> bytes \<Rightarrow> nat \<times> nat \<times> nat \<Rightarrow> ansi_state \<Rightarrow> bytes \<times> ansi_state" where
  "atomic_message malloc_ok st label msg tm a =
     (if \<not> malloc_ok then ([], a)
      else let th = an_theme a;
               body = (if an_last a \<noteq> UI_LABEL_NONE \<and> an_last a \<noteq> label then [10] else []) @
                 print_timestamp_short th tm @ print_label th label @ [32] @ ui_strip_ansi msg @ [10] in
      if an_ln_active a then (body, a\<lparr>an_last := label\<rparr>)
      else case redraw_input st (a\<lparr>an_last := label\<rparr>) of (out, a') \<Rightarrow>
        (hide_cursor @ clear_prompt_area_lines a (calc_current_input_lines a) @ body @ out @ show_cursor, a'))"

definition block_message :: "sys \<Rightarrow> nat \<times> nat \<times> nat \<Rightarrow> bytes \<Rightarrow> bytes \<Rightarrow> bytes \<Rightarrow> ansi_state \<Rightarrow> bytes \<times> ansi_state" where
  "block_message st tm color tag msg a =
     (let th = an_theme a; body = print_timestamp_short th tm @ [32, 32] @ color @ tag @ msg @ clr_reset th @ [10] in
      if an_ln_active a then (body, a)
      else case redraw_input st a of (out, a') \<Rightarrow>
        (hide_cursor @ clear_prompt_area_lines a (calc_current_input_lines a) @ body @ out @ show_cursor, a'))"

section \<open>Progress\<close>

definition PROGRESS_BAR_WIDTH :: nat where "PROGRESS_BAR_WIDTH = 16"

text \<open>The conversion \<open>%.1f\<close> of \<open>n / 2 ^ k\<close> (a tie goes to the even digit), for sizes below \<open>2 ^ 53\<close>, which a double holds exactly.\<close>

definition tenths :: "nat \<Rightarrow> nat \<Rightarrow> nat" where
  "tenths n k =
     (let q = n * 10 div 2 ^ k; r = n * 10 mod 2 ^ k in
      if 2 * r > 2 ^ k \<or> 2 * r = 2 ^ k \<and> odd q then q + 1 else q)"

definition one_decimal :: "nat \<Rightarrow> nat \<Rightarrow> bytes" where
  "one_decimal n k = dec_bytes (tenths n k div 10) @ [46] @ dec_bytes (tenths n k mod 10)"

definition format_size :: "u64 \<Rightarrow> bytes" where
  "format_size bytes =
     (if bytes \<ge> 1073741824 then one_decimal (unat bytes) 30 @ str_bytes '' GB''
      else if bytes \<ge> 1048576 then one_decimal (unat bytes) 20 @ str_bytes '' MB''
      else if bytes \<ge> 1024 then one_decimal (unat bytes) 10 @ str_bytes '' KB''
      else dec_bytes (unat bytes) @ str_bytes '' B'')"

definition progress_bar :: "nat \<Rightarrow> bytes" where
  "progress_bar pct = map (\<lambda>i. if i < pct * PROGRESS_BAR_WIDTH div 100 then 61 else 45) [0..<PROGRESS_BAR_WIDTH]"

definition render_progress :: "bool \<Rightarrow> bytes \<Rightarrow> u64 \<Rightarrow> u64 \<Rightarrow> bool \<Rightarrow> bytes \<Rightarrow> ansi_state \<Rightarrow> bytes" where
  "render_progress malloc_ok filename done total_size is_upload clr a =
     (if total_size = 0 \<or> \<not> malloc_ok then []
      else let pct = percent done total_size in
        [13, ESC, 91, 75, 32, 32] @ clr @ (if is_upload then arrow_up else arrow_down) @ [32] @ ui_strip_ansi filename @ str_bytes '' ['' @
        progress_bar pct @ str_bytes ''] '' @ dec_bytes pct @ [37, 32] @ format_size done @ [47] @ format_size total_size @ clr_reset (an_theme a))"

section \<open>Dispatch\<close>

definition fe_ansi_emit :: "bool \<Rightarrow> sys \<Rightarrow> fe_event \<Rightarrow> ansi_state \<Rightarrow> bytes \<times> ansi_state" where
  "fe_ansi_emit malloc_ok st ev a =
     (let th = an_theme a in
      case ev_type ev of
        FE_MSG_IN \<Rightarrow> atomic_message malloc_ok st UI_LABEL_PEER (ev_text ev) (ev_tm ev) a
      | FE_MSG_OUT \<Rightarrow> atomic_message malloc_ok st UI_LABEL_SELF (ev_text ev) (ev_tm ev) a
      | FE_SYSTEM \<Rightarrow> block_message st (ev_tm ev) (clr_system th) [] (ev_text ev) a
      | FE_ERROR \<Rightarrow> block_message st (ev_tm ev) (clr_error th) (str_bytes ''[!] '') (ev_text ev) a
      | FE_PROGRESS \<Rightarrow> (render_progress malloc_ok (ev_filename ev) (ev_done ev) (ev_total ev) (ev_upload ev) (clr_progress th) a, a))"

section \<open>Who owns the line\<close>

text \<open>The nesting of \<open>ui_line_suspend\<close> and \<open>ui_line_resume\<close>: the counter and whether the edited line is hidden or shown by the call.\<close>

datatype line_act = Line_hide | Line_show

definition ui_line_suspend :: "ln_edit \<Rightarrow> ln_edit \<times> line_act list" where
  "ui_line_suspend e =
     (if \<not> ln_active e then (e, [])
      else (e\<lparr>ln_suspend_depth := ln_suspend_depth e + 1\<rparr>, if ln_suspend_depth e = 0 then [Line_hide] else []))"

definition ui_line_resume :: "ln_edit \<Rightarrow> ln_edit \<times> line_act list" where
  "ui_line_resume e =
     (if \<not> ln_active e \<or> ln_suspend_depth e = 0 then (e, [])
      else (e\<lparr>ln_suspend_depth := ln_suspend_depth e - 1\<rparr>, if ln_suspend_depth e - 1 = 0 then [Line_show] else []))"

definition ui_line_force_resume :: "ln_edit \<Rightarrow> ln_edit \<times> line_act list" where
  "ui_line_force_resume e =
     (if ln_active e \<and> ln_suspend_depth e > 0 then (e\<lparr>ln_suspend_depth := 0\<rparr>, [Line_show]) else (e, []))"

end
