(* ===== verification/Nox_Frontend_Props.thy ===== *)
theory Nox_Frontend_Props
  imports Nox_Frontend Nox_Machine_Props
begin

text \<open>
  What the line based front end promises: a text of the peer cannot steer the terminal, the prompt is as long as it is said to be,
  and hiding and showing the edited line is balanced.
\<close>

section \<open>Text of the peer\<close>

lemma atomic_shape: "\<exists>pre post a'. \<forall>msg. atomic_message True st label msg tm a = (pre @ ui_strip_ansi msg @ post, a')"
proof -
  let ?head = "(if an_last a \<noteq> UI_LABEL_NONE \<and> an_last a \<noteq> label then [10] else []) @ print_timestamp_short (an_theme a) tm @ print_label (an_theme a) label @ [32]"
  obtain out a' where r: "redraw_input st (a\<lparr>an_last := label\<rparr>) = (out, a')" by fastforce
  show ?thesis
  proof (cases "an_ln_active a")
    case True
    then have "\<forall>msg. atomic_message True st label msg tm a = (?head @ ui_strip_ansi msg @ [10], a\<lparr>an_last := label\<rparr>)"
      by (simp add: atomic_message_def Let_def)
    then show ?thesis by blast
  next
    case False
    then have "\<forall>msg. atomic_message True st label msg tm a =
        ((hide_cursor @ clear_prompt_area_lines a (calc_current_input_lines a) @ ?head) @ ui_strip_ansi msg @ ([10] @ out @ show_cursor), a')"
      by (simp add: atomic_message_def Let_def r)
    then show ?thesis by blast
  qed
qed

lemma progress_shape: "\<exists>p q. \<forall>name. render_progress True name d n up clr a = (if n = 0 then [] else p @ ui_strip_ansi name @ q)"
proof -
  let ?p = "[13, ESC, 91, 75, 32, 32] @ clr @ (if up then arrow_up else arrow_down) @ [32]"
  let ?q = "str_bytes '' ['' @ progress_bar (percent d n) @ str_bytes ''] '' @ dec_bytes (percent d n) @ [37, 32] @ format_size d @ [47] @ format_size n @ clr_reset (an_theme a)"
  have "\<forall>name. render_progress True name d n up clr a = (if n = 0 then [] else ?p @ ui_strip_ansi name @ ?q)"
    by (simp add: render_progress_def Let_def)
  then show ?thesis by blast
qed

text \<open>What may be shown of a text, written without the code that cleans it: bytes of the text in their order, none of them a control
  byte (below 32, or 127) but tab, line feed and carriage return, so no escape byte; and all of them when the text has no other.\<close>

definition harmless :: "byte \<Rightarrow> bool" where
  "harmless c \<longleftrightarrow> 32 \<le> c \<and> c \<noteq> 127 \<or> c = 9 \<or> c = 10 \<or> c = 13"

definition shown_of :: "bytes \<Rightarrow> bytes \<Rightarrow> bool" where
  "shown_of msg t \<longleftrightarrow> subseq t msg \<and> list_all harmless t \<and> (list_all harmless msg \<longrightarrow> t = msg)"

lemma strip_shown: "shown_of msg (ui_strip_ansi msg)"
proof -
  have h: "harmless c \<longleftrightarrow> \<not> dropped_control c \<and> c \<noteq> ESC" for c
    by (auto simp: harmless_def dropped_control_def ESC_def not_less)
  show ?thesis unfolding shown_of_def h using strip_subseq strip_safe strip_harmless [of msg] by (auto simp: list_all_iff)
qed

lemma strip_csi:
  assumes "list_all harmless x" "list_all (\<lambda>c. 32 \<le> c \<and> c \<le> 63) d" "\<not> (32 \<le> f \<and> f \<le> 63)"
  shows "ui_strip_ansi (x @ 27 # 91 # d @ f # s) = ui_strip_ansi (x @ s)"
proof -
  have c: "csi_param c \<longleftrightarrow> 32 \<le> c \<and> c \<le> 63" for c
    unfolding csi_param_def word_le_nat_alt by auto
  have "\<forall>c \<in> set x. \<not> dropped_control c \<and> c \<noteq> ESC"
    using assms(1) by (auto simp: list_all_iff harmless_def dropped_control_def ESC_def not_less)
  then have p: "ui_strip_ansi (x @ r) = x @ ui_strip_ansi r" for r by (rule strip_prefix)
  have "dropWhile csi_param (d @ f # s) = f # s" using assms(2,3) by (auto simp: list_all_iff c)
  then show ?thesis unfolding p by (simp add: ESC_def after_escape_def)
qed

text \<open>C37. In the line based front end a text of the peer cannot steer the terminal. Whatever the state of the front end, what is
  written for an incoming text is, between two pieces that do not depend on the text, a part of the text in its order without any control
  byte (tab, line feed and carriage return apart), and the whole text when it has no such byte; the state of the front end afterwards
  does not depend on the text. A control sequence in the text (\<^verbatim>\<open>ESC [\<close>, parameters, one final byte) is taken out as a whole: the rest is shown
  as if it had not been there. The same holds for the name of a file in the progress line. Without memory for the cleaned copy nothing is written.\<close>

theorem peer_text_contained:
  "(\<exists>pre post a'. \<forall>msg. \<exists>t. fe_ansi_emit True st (fe_fill_event FE_MSG_IN msg tm) a = (pre @ t @ post, a') \<and> shown_of msg t) \<and>
   (\<exists>p q. \<forall>name. \<exists>t. fe_ansi_emit True st (ui_print_progress name k n up tm) a = (if n = 0 then [] else p @ t @ q, a) \<and> shown_of name t) \<and>
   (\<forall>x d f s. list_all harmless x \<and> list_all (\<lambda>c. 32 \<le> c \<and> c \<le> 63) d \<and> \<not> (32 \<le> f \<and> f \<le> 63) \<longrightarrow>
      fe_ansi_emit True st (fe_fill_event FE_MSG_IN (x @ 27 # 91 # d @ f # s) tm) a = fe_ansi_emit True st (fe_fill_event FE_MSG_IN (x @ s) tm) a \<and>
      fe_ansi_emit True st (ui_print_progress (x @ 27 # 91 # d @ f # s) k n up tm) a = fe_ansi_emit True st (ui_print_progress (x @ s) k n up tm) a) \<and>
   (\<forall>msg. fe_ansi_emit False st (fe_fill_event FE_MSG_IN msg tm) a = ([], a) \<and> fe_ansi_emit False st (ui_print_progress msg k n up tm) a = ([], a))"
proof -
  obtain pre post a' where m: "\<forall>msg. fe_ansi_emit True st (fe_fill_event FE_MSG_IN msg tm) a = (pre @ ui_strip_ansi msg @ post, a')"
    using atomic_shape [of st UI_LABEL_PEER tm a] by (auto simp: fe_ansi_emit_def fe_fill_event_def)
  obtain p q where r: "\<forall>name. fe_ansi_emit True st (ui_print_progress name k n up tm) a = (if n = 0 then [] else p @ ui_strip_ansi name @ q, a)"
    using progress_shape [of k n up "clr_progress (an_theme a)" a] by (auto simp: fe_ansi_emit_def ui_print_progress_def fe_fill_event_def)
  have none: "fe_ansi_emit False st (fe_fill_event FE_MSG_IN msg tm) a = ([], a)" "fe_ansi_emit False st (ui_print_progress msg k n up tm) a = ([], a)" for msg
    by (simp_all add: fe_ansi_emit_def fe_fill_event_def ui_print_progress_def atomic_message_def render_progress_def)
  show ?thesis
  proof (intro conjI allI impI; (elim conjE)?)
    show "\<exists>pre post a'. \<forall>msg. \<exists>t. fe_ansi_emit True st (fe_fill_event FE_MSG_IN msg tm) a = (pre @ t @ post, a') \<and> shown_of msg t"
      using m strip_shown by blast
    show "\<exists>p q. \<forall>name. \<exists>t. fe_ansi_emit True st (ui_print_progress name k n up tm) a = (if n = 0 then [] else p @ t @ q, a) \<and> shown_of name t"
      using r strip_shown by blast
  qed (use m r none strip_csi in simp_all)
qed

definition toy_ansi :: ansi_state where
  "toy_ansi = \<lparr>an_theme = nox_theme_default, an_last = UI_LABEL_NONE, an_ln_active = True, an_tui = False, an_prompt_len = 0, an_stdin = [], an_cols = 80\<rparr>"

text \<open>A text that would clear the screen.\<close>

theorem peer_text_contained_witness:
  "fe_ansi_emit True toy_sys (fe_fill_event FE_MSG_IN ([72] @ 27 # 91 # [50] @ 74 # [105]) (1, 2, 3)) toy_ansi =
   fe_ansi_emit True toy_sys (fe_fill_event FE_MSG_IN [72, 105] (1, 2, 3)) toy_ansi \<and>
   list_all harmless [72] \<and> fst (fe_ansi_emit False toy_sys (fe_fill_event FE_MSG_IN [72] (1, 2, 3)) toy_ansi) = []"
proof -
  note c = peer_text_contained [of toy_sys "(1, 2, 3)" toy_ansi 0 1 True]
  have h: "list_all harmless [72]" "list_all (\<lambda>c. 32 \<le> c \<and> c \<le> 63) [50 :: byte]" "\<not> (32 \<le> (74 :: byte) \<and> 74 \<le> (63 :: byte))"
    by (simp_all add: harmless_def)
  have "fe_ansi_emit True toy_sys (fe_fill_event FE_MSG_IN ([72] @ 27 # 91 # [50] @ 74 # [105]) (1, 2, 3)) toy_ansi =
      fe_ansi_emit True toy_sys (fe_fill_event FE_MSG_IN ([72] @ [105]) (1, 2, 3)) toy_ansi" using c h by blast
  moreover have "fe_ansi_emit False toy_sys (fe_fill_event FE_MSG_IN [72] (1, 2, 3)) toy_ansi = ([], toy_ansi)" using c by blast
  ultimately show ?thesis using h(1) by simp
qed

section \<open>The prompt and the edited line\<close>

text \<open>Without a transfer the length that is kept is the length of the prompt.\<close>

theorem prompt_len_exact:
  assumes "\<And>i. ACTIVE_PEER st = Some i \<Longrightarrow> \<not> transfer_shown (as_peers st ! i)"
  shows "calc_prompt_display_len st = length (prompt_text st)"
proof (cases "ACTIVE_PEER st")
  case None
  then show ?thesis by (simp add: calc_prompt_display_len_def prompt_text_def str_bytes_def)
next
  case (Some i)
  have "hash_len (as_active_peer_onion st) \<le> length (as_active_peer_onion st)" by (simp add: hash_len_def)
  then have "length (short_id (as_active_peer_onion st)) =
      (let olen = length (as_active_peer_onion st) in if olen > 10 then if hash_len (as_active_peer_onion st) \<ge> 8 then 10 else hash_len (as_active_peer_onion st) else olen)"
    by (auto simp: short_id_def Let_def)
  with Some assms [OF Some] show ?thesis
    by (auto simp: calc_prompt_display_len_def prompt_text_def transfer_shown_def str_bytes_def Let_def)
qed

text \<open>A resume takes back a suspend, and the edited line is shown again exactly when it was hidden.\<close>

lemma suspend_resume:
  assumes "ui_line_suspend e = (e', acts)"
  shows "ui_line_resume e' = (e, if acts = [Line_hide] then [Line_show] else [])"
  using assms by (auto simp: ui_line_suspend_def ui_line_resume_def split: if_splits)

end
