(* ===== verification/Nox_Tui.thy ===== *)
theory Nox_Tui
  imports Nox_Editor Nox_Frontend
begin

text \<open>
  The full-screen front end, from \<^verbatim>\<open>src/tui.c\<close> and the event loop of \<^verbatim>\<open>src/stdin_handler.c\<close> that drives it: the state
  \<open>g_tui\<close>, the input line with its keys, the scrollback with its line breaking, the list of contacts and what is visible. The cells
  that the terminal library is told to set are lists of positions and characters; the library itself is not
  modelled. \<^verbatim>\<open>src/fe_tui.c\<close> turns events into lines. The input line is a block with checked copies, as in the line editor.
\<close>

section \<open>State\<close>

definition TUI_SIDEBAR_WIDTH :: int where "TUI_SIDEBAR_WIDTH = 22"
definition TUI_INPUT_HEIGHT :: int where "TUI_INPUT_HEIGHT = 3"
definition TUI_CHAT_SCROLLBACK :: nat where "TUI_CHAT_SCROLLBACK = 512"
definition TUI_MAX_CONTACTS :: nat where "TUI_MAX_CONTACTS = 64"
definition TUI_INPUT_SIZE :: nat where "TUI_INPUT_SIZE = 4096"

lemmas tui_consts = TUI_SIDEBAR_WIDTH_def TUI_INPUT_HEIGHT_def TUI_CHAT_SCROLLBACK_def TUI_MAX_CONTACTS_def TUI_INPUT_SIZE_def

datatype tui_focus = TUI_FOCUS_INPUT | TUI_FOCUS_SIDEBAR

record tui_contact =
  tc_name :: bytes
  tc_onion :: bytes
  tc_online :: bool

text \<open>The scrollback is the list of the first \<open>chat_line_count\<close> entries of the two arrays, a line with its colour.\<close>

record tui_state =
  tu_chat :: "(bytes \<times> nat) list"
  tu_scroll :: int
  tu_buf :: bytes
  tu_len :: int
  tu_cursor :: int
  tu_focus :: tui_focus
  tu_contacts :: "tui_contact list"
  tu_selected :: int
  tu_cols :: int
  tu_rows :: int
  tu_active :: bool

section \<open>UTF-8\<close>

definition utf8_encode :: "u32 \<Rightarrow> bytes" where
  "utf8_encode cp =
     (let part = (\<lambda>k. ucast (0x80 OR (drop_bit k cp AND 0x3F)) :: byte) in
      if cp < 0x80 then [ucast cp]
      else if cp < 0x800 then [ucast (0xC0 OR drop_bit 6 cp), part 0]
      else if cp < 0x10000 then [ucast (0xE0 OR drop_bit 12 cp), part 6, part 0]
      else [ucast (0xF0 OR drop_bit 18 cp), part 12, part 6, part 0])"

definition utf8_char_bytes :: "bytes \<Rightarrow> int \<Rightarrow> int \<Rightarrow> int" where
  "utf8_char_bytes buf byte_pos buf_len =
     (if byte_pos \<ge> buf_len then 0
      else let b = buf ! nat byte_pos; len = (if b < 0x80 then 1 else if b < 0xE0 then 2 else if b < 0xF0 then 3 else 4) in
      if byte_pos + len > buf_len then 1 else len)"

fun cont_back :: "bytes \<Rightarrow> nat \<Rightarrow> nat" where
  "cont_back buf 0 = 0"
| "cont_back buf (Suc i) = (if buf ! Suc i AND 0xC0 = 0x80 then cont_back buf i else Suc i)"

definition utf8_prev_char_bytes :: "bytes \<Rightarrow> int \<Rightarrow> int" where
  "utf8_prev_char_bytes buf byte_pos = (if byte_pos \<le> 0 then 0 else byte_pos - int (cont_back buf (nat (byte_pos - 1))))"

section \<open>Frames on the screen\<close>

definition hline :: "int \<Rightarrow> int \<Rightarrow> int \<Rightarrow> (int \<times> int \<times> u32) list" where
  "hline x y len = map (\<lambda>i. (x + int i, y, 0x2500)) [0..<nat len]"

definition draw_box :: "int \<Rightarrow> int \<Rightarrow> int \<Rightarrow> int \<Rightarrow> (int \<times> int \<times> u32) list" where
  "draw_box x y w h =
     (if w < 2 \<or> h < 2 then []
      else [(x, y, 0x250C), (x + w - 1, y, 0x2510), (x, y + h - 1, 0x2514), (x + w - 1, y + h - 1, 0x2518)] @
        concat (map (\<lambda>i. [(x + int i, y, 0x2500), (x + int i, y + h - 1, 0x2500)]) [1..<nat (w - 1)]) @
        concat (map (\<lambda>i. [(x, y + int i, 0x2502), (x + w - 1, y + int i, 0x2502)]) [1..<nat (h - 1)]))"

section \<open>Contacts\<close>

definition contact_visitor :: "sys \<Rightarrow> bytes \<times> bytes \<Rightarrow> tui_contact list \<Rightarrow> tui_contact list" where
  "contact_visitor st = (\<lambda>(onion, name) cs.
     if length cs < TUI_MAX_CONTACTS
     then cs @ [\<lparr>tc_name = take NOX_CONTACT_NAME_LEN name, tc_onion = take NOX_ONION_LEN onion,
                 tc_online = list_ex (\<lambda>ps. ps_fd ps \<ge> 0 \<and> ps_peer_onion ps = onion) (as_peers st)\<rparr>]
     else cs)"

text \<open>The first contact with the address is marked as online.\<close>

fun mark_online :: "bytes \<Rightarrow> tui_contact list \<Rightarrow> tui_contact list option" where
  "mark_online onion [] = None"
| "mark_online onion (c # cs) =
     (if tc_onion c = onion then Some (c\<lparr>tc_online := True\<rparr> # cs) else map_option (\<lambda>cs. c # cs) (mark_online onion cs))"

text \<open>\<open>listing\<close> is what \<open>db_list_contacts\<close> visits: addresses and names in order.\<close>

definition tui_load_contacts :: "(bytes \<times> bytes) list \<Rightarrow> sys \<Rightarrow> tui_state \<Rightarrow> tui_state" where
  "tui_load_contacts listing st t =
     (let cs = (if as_ghost_mode st then [] else fold (contact_visitor st) listing []);
          onion = as_active_peer_onion st;
          cs = (if ACTIVE_PEER st \<noteq> None \<and> onion \<noteq> []
                then (case mark_online onion cs of Some cs \<Rightarrow> cs
                      | None \<Rightarrow> if length cs < TUI_MAX_CONTACTS
                                then cs @ [\<lparr>tc_name = take NOX_CONTACT_NAME_LEN (take 12 onion), tc_onion = take NOX_ONION_LEN onion, tc_online = True\<rparr>]
                                else cs)
                else cs)
      in t\<lparr>tu_contacts := cs\<rparr>)"

text \<open>A line of the side panel: the label and whether it is selected and online.\<close>

definition contact_label :: "tui_contact \<Rightarrow> bytes" where
  "contact_label c =
     (if tc_name c \<noteq> [] then tc_name c
      else let olen = length (tc_onion c) in
        if olen \<ge> 12 then take 4 (tc_onion c) @ [46, 46] @ take 4 (drop (olen - 10) (tc_onion c)) else tc_onion c)"

definition pad_right :: "nat \<Rightarrow> bytes \<Rightarrow> bytes" where
  "pad_right n s = s @ replicate (n - length s) 32"

definition sidebar_rows :: "tui_state \<Rightarrow> (bytes \<times> bool \<times> bool) list" where
  "sidebar_rows t =
     (let name_w = nat (TUI_SIDEBAR_WIDTH - 4) in
      take (nat (tu_rows t - 2))
        (map (\<lambda>(i, c). (pad_right name_w (take name_w (contact_label c)), tu_focus t = TUI_FOCUS_SIDEBAR \<and> tu_selected t = int i, tc_online c))
          (zip [0..<length (tu_contacts t)] (tu_contacts t))))"

text \<open>Drawing the side panel reloads the contacts.\<close>

definition tui_draw_sidebar :: "(bytes \<times> bytes) list \<Rightarrow> sys \<Rightarrow> tui_state \<Rightarrow> tui_state" where
  "tui_draw_sidebar listing st t = (if \<not> tu_active t then t else tui_load_contacts listing st t)"

section \<open>Scrollback\<close>

text \<open>Adding a row, with the answer of \<open>strdup\<close>.\<close>

definition chat_push :: "bool \<Rightarrow> bytes \<Rightarrow> nat \<Rightarrow> tui_state \<Rightarrow> tui_state" where
  "chat_push ok line fg t =
     (let chat = (if length (tu_chat t) \<ge> TUI_CHAT_SCROLLBACK then drop 1 (tu_chat t) else tu_chat t)
      in t\<lparr>tu_chat := (if ok then chat @ [(line, fg)] else chat)\<rparr>)"

fun last_bracket :: "bytes \<Rightarrow> nat option" where
  "last_bracket [] = None"
| "last_bracket (c # s) =
     (case last_bracket s of Some i \<Rightarrow> Some (Suc i) | None \<Rightarrow> if c = 93 \<and> take 1 s = [32] then Some 0 else None)"

text \<open>Where a row of at most \<open>n\<close> bytes ends: after its last space or newline, if it has one.\<close>

fun break_at :: "bytes \<Rightarrow> nat \<Rightarrow> nat" where
  "break_at p 0 = 0"
| "break_at p (Suc n) = (if p ! n = 32 \<or> p ! n = 10 then Suc n else break_at p n)"

definition row_len :: "nat \<Rightarrow> bytes \<Rightarrow> nat" where
  "row_len chunk p =
     (let n = min chunk (length p) in if n < length p \<and> break_at p n > 0 then break_at p n else n)"

lemma break_at_le: "break_at p n \<le> n"
  by (induction n) auto

lemma row_len_pos: "0 < chunk \<Longrightarrow> p \<noteq> [] \<Longrightarrow> 0 < row_len chunk p"
  by (auto simp: row_len_def Let_def)

text \<open>The parts of a message that become rows.\<close>

function wrap_parts :: "nat \<Rightarrow> bytes \<Rightarrow> bytes list" where
  "wrap_parts chunk p =
     (if p = [] \<or> row_len chunk p = 0 then []
      else let n = row_len chunk p; rest = drop n p in take n p # wrap_parts chunk (if take 1 rest = [32] then drop 1 rest else rest))"
  by pat_completeness auto
termination by (relation "measure (\<lambda>(chunk, p). length p)") (auto intro: diff_less)

declare wrap_parts.simps [simp del]

text \<open>The rows pass through a buffer of 1024 bytes.\<close>

definition wrap_rows :: "bytes \<Rightarrow> bytes \<Rightarrow> bytes list \<Rightarrow> bytes list" where
  "wrap_rows pre indent parts =
     (case parts of [] \<Rightarrow> [] | p # ps \<Rightarrow> take 1023 (pre @ p) # map (\<lambda>q. take 1023 (indent @ q)) ps)"

fun push_rows :: "nat \<Rightarrow> bytes list \<Rightarrow> heap_answers \<Rightarrow> tui_state \<Rightarrow> bool \<times> tui_state" where
  "push_rows fg [] al t = (True, t)"
| "push_rows fg (r # rs) al t =
     (case sodium_malloc al of (ok, al) \<Rightarrow>
      let t = chat_push ok r fg t in if ok then push_rows fg rs al t else (False, t))"

definition chat_width :: "tui_state \<Rightarrow> int" where
  "chat_width t = max 10 (tu_cols t - TUI_SIDEBAR_WIDTH - 2)"

definition tui_chat_append_colored :: "heap_answers \<Rightarrow> bytes \<Rightarrow> nat \<Rightarrow> tui_state \<Rightarrow> tui_state" where
  "tui_chat_append_colored al line fg t =
     (if \<not> tu_active t \<or> line = [] then t
      else let (prefix_len, msg) = (case last_bracket line of Some i \<Rightarrow> (i + 2, drop (i + 2) line) | None \<Rightarrow> (length line, line));
               wrap_width = nat (chat_width t) - 1;
               wrap_width = (if prefix_len \<ge> wrap_width then prefix_len + 1 else wrap_width) in
      if msg = [] \<or> prefix_len + length msg \<le> wrap_width
      then chat_push (fst (sodium_malloc al)) line fg t
      else case push_rows fg (wrap_rows (take prefix_len line) (replicate (min prefix_len 63) 32) (wrap_parts (wrap_width - prefix_len) msg)) al t of
        (ok, t) \<Rightarrow> if ok then t\<lparr>tu_scroll := 0\<rparr> else t)"

definition tui_chat_append :: "heap_answers \<Rightarrow> bytes \<Rightarrow> tui_state \<Rightarrow> tui_state" where
  "tui_chat_append al line t = tui_chat_append_colored al line 0 t"

text \<open>What is visible: the scroll position is brought into range, then a window of the scrollback is shown, each row cut to the width.\<close>

definition chat_height :: "tui_state \<Rightarrow> int" where
  "chat_height t = max 5 (tu_rows t - TUI_INPUT_HEIGHT) - 2"

definition tui_draw_chat :: "tui_state \<Rightarrow> tui_state" where
  "tui_draw_chat t =
     (if \<not> tu_active t then t
      else let max_scroll = max 0 (int (length (tu_chat t)) - chat_height t) in t\<lparr>tu_scroll := max 0 (min (tu_scroll t) max_scroll)\<rparr>)"

definition contains_sub :: "bytes \<Rightarrow> bytes \<Rightarrow> bool" where
  "contains_sub pat s \<longleftrightarrow> list_ex (\<lambda>i. take (length pat) (drop i s) = pat) [0..<Suc (length s)]"

definition TC_SELF :: nat where "TC_SELF = 0x26A269"
definition TC_PEER :: nat where "TC_PEER = 0x853C99"
definition TC_SYSTEM :: nat where "TC_SYSTEM = 0xC9970F"
definition TC_ERROR :: nat where "TC_ERROR = 0xD21826"
definition TB_BOLD :: nat where "TB_BOLD = 0x01000000"

definition line_colour :: "bytes \<Rightarrow> nat \<Rightarrow> nat" where
  "line_colour line fg =
     (if fg \<noteq> 0 then fg else if contains_sub (str_bytes ''[Sen]'') line then TC_SELF
      else if contains_sub (str_bytes ''[Peer]'') line then TC_PEER
      else if contains_sub (str_bytes ''[!]'') line then TC_ERROR + TB_BOLD else TC_SYSTEM)"

definition chat_window :: "tui_state \<Rightarrow> (bytes \<times> nat) list" where
  "chat_window t =
     (let chat_w = max 20 (tu_cols t - TUI_SIDEBAR_WIDTH);
          start = max 0 (int (length (tu_chat t)) - chat_height t - tu_scroll t);
          last = min (start + chat_height t) (int (length (tu_chat t)))
      in map (\<lambda>(line, fg). (take (nat (chat_w - 2)) line, line_colour line fg)) (take (nat (last - start)) (drop (nat start) (tu_chat t))))"

section \<open>Life cycle\<close>

definition tui_init :: "bool \<Rightarrow> int \<Rightarrow> int \<Rightarrow> tui_state" where
  "tui_init tb_ok width height =
     (let t = \<lparr>tu_chat = [], tu_scroll = 0, tu_buf = replicate TUI_INPUT_SIZE 0, tu_len = 0, tu_cursor = 0, tu_focus = TUI_FOCUS_INPUT,
               tu_contacts = [], tu_selected = 0, tu_cols = 0, tu_rows = 0, tu_active = False\<rparr>
      in if \<not> tb_ok then t else tui_draw_chat (t\<lparr>tu_cols := width, tu_rows := height, tu_active := True\<rparr>))"

text \<open>The lines are freed; the count and the rest of the state stay.\<close>

definition tui_shutdown :: "tui_state \<Rightarrow> tui_state" where
  "tui_shutdown t = (if \<not> tu_active t then t else t\<lparr>tu_active := False, tu_chat := map (\<lambda>(_, fg). ([], fg)) (tu_chat t)\<rparr>)"

definition tui_resize :: "int \<Rightarrow> int \<Rightarrow> tui_state \<Rightarrow> tui_state" where
  "tui_resize width height t = (if \<not> tu_active t then t else t\<lparr>tu_cols := width, tu_rows := height\<rparr>)"

definition tui_refresh_all :: "(bytes \<times> bytes) list \<Rightarrow> int \<Rightarrow> int \<Rightarrow> sys \<Rightarrow> tui_state \<Rightarrow> tui_state" where
  "tui_refresh_all listing width height st t =
     (if \<not> tu_active t then t else tui_draw_chat (tui_draw_sidebar listing st (t\<lparr>tu_cols := width, tu_rows := height\<rparr>)))"

section \<open>Lines for events\<close>

definition tui_append_line ::
    "(bytes \<times> bytes) list \<Rightarrow> int \<times> int \<Rightarrow> heap_answers \<Rightarrow> sys \<Rightarrow> bytes \<Rightarrow> bytes \<Rightarrow> nat \<times> nat \<times> nat \<Rightarrow> tui_state \<Rightarrow> tui_state" where
  "tui_append_line listing dims al st pre msg tm t =
     tui_refresh_all listing (fst dims) (snd dims) st (tui_chat_append al (take 8191 (clock_text tm @ [32] @ pre @ msg)) t)"

definition fe_tui_emit :: "(bytes \<times> bytes) list \<Rightarrow> int \<times> int \<Rightarrow> heap_answers \<Rightarrow> sys \<Rightarrow> fe_event \<Rightarrow> tui_state \<Rightarrow> tui_state" where
  "fe_tui_emit listing dims al st ev t =
     (case ev_type ev of
        FE_MSG_IN \<Rightarrow> tui_append_line listing dims al st (str_bytes ''Peer: '') (ev_text ev) (ev_tm ev) t
      | FE_MSG_OUT \<Rightarrow> tui_append_line listing dims al st (str_bytes ''Sen: '') (ev_text ev) (ev_tm ev) t
      | FE_SYSTEM \<Rightarrow> tui_append_line listing dims al st [] (ev_text ev) (ev_tm ev) t
      | FE_ERROR \<Rightarrow> tui_append_line listing dims al st (str_bytes ''[!] '') (ev_text ev) (ev_tm ev) t
      | FE_PROGRESS \<Rightarrow> tui_refresh_all listing (fst dims) (snd dims) st t)"

text \<open>Dispatch: the registered back end, if any; the last registration wins, and a reset goes back to the line based one. The result is what
  the line based back end writes and the two states.\<close>

datatype fe_backend = Backend_ansi | Backend_tui

definition frontend_register :: "fe_backend option \<Rightarrow> fe_backend option \<Rightarrow> fe_backend option" where
  "frontend_register ops old = ops"

definition frontend_reset :: "fe_backend option" where
  "frontend_reset = Some Backend_ansi"

definition frontend_emit ::
    "fe_backend option \<Rightarrow> bool \<Rightarrow> (bytes \<times> bytes) list \<Rightarrow> int \<times> int \<Rightarrow> heap_answers \<Rightarrow> sys \<Rightarrow> fe_event \<Rightarrow> ansi_state \<times> tui_state \<Rightarrow> bytes \<times> ansi_state \<times> tui_state" where
  "frontend_emit ops malloc_ok listing dims al st ev x =
     (case x of (a, t) \<Rightarrow>
      case ops of None \<Rightarrow> ([], a, t)
      | Some Backend_ansi \<Rightarrow> (case fe_ansi_emit malloc_ok st ev a of (out, a) \<Rightarrow> (out, a, t))
      | Some Backend_tui \<Rightarrow> ([], a, fe_tui_emit listing dims al st ev t))"

text \<open>The line of a log message, with the tag of its level and the name of its module.\<close>

definition log_line :: "bytes \<Rightarrow> bytes \<Rightarrow> bytes \<Rightarrow> bytes" where
  "log_line tag name msg =
     take 2199 (str_bytes ''[LOG] ['' @ tag @ str_bytes ''] ['' @ name @ str_bytes ''] '' @ sanitize_log_newlines (take 2047 msg))"

section \<open>Keys\<close>

definition TB_KEY_CTRL_C :: int where "TB_KEY_CTRL_C = 3"
definition TB_KEY_CTRL_P :: int where "TB_KEY_CTRL_P = 0x10"
definition TB_KEY_BACKSPACE :: int where "TB_KEY_BACKSPACE = 8"
definition TB_KEY_ENTER :: int where "TB_KEY_ENTER = 0x0d"
definition TB_KEY_DELETE :: int where "TB_KEY_DELETE = 0xffff - 13"
definition TB_KEY_HOME :: int where "TB_KEY_HOME = 0xffff - 14"
definition TB_KEY_END :: int where "TB_KEY_END = 0xffff - 15"
definition TB_KEY_PGUP :: int where "TB_KEY_PGUP = 0xffff - 16"
definition TB_KEY_PGDN :: int where "TB_KEY_PGDN = 0xffff - 17"
definition TB_KEY_ARROW_UP :: int where "TB_KEY_ARROW_UP = 0xffff - 18"
definition TB_KEY_ARROW_DOWN :: int where "TB_KEY_ARROW_DOWN = 0xffff - 19"
definition TB_KEY_ARROW_LEFT :: int where "TB_KEY_ARROW_LEFT = 0xffff - 20"
definition TB_KEY_ARROW_RIGHT :: int where "TB_KEY_ARROW_RIGHT = 0xffff - 21"
definition TB_KEY_BACK_TAB :: int where "TB_KEY_BACK_TAB = 0xffff - 22"

lemmas tb_keys = TB_KEY_CTRL_C_def TB_KEY_CTRL_P_def TB_KEY_BACKSPACE_def TB_KEY_ENTER_def TB_KEY_DELETE_def TB_KEY_HOME_def TB_KEY_END_def
  TB_KEY_PGUP_def TB_KEY_PGDN_def TB_KEY_ARROW_UP_def TB_KEY_ARROW_DOWN_def TB_KEY_ARROW_LEFT_def TB_KEY_ARROW_RIGHT_def TB_KEY_BACK_TAB_def

text \<open>\<open>memmove\<close> and \<open>memcpy\<close> in the input line, with offsets and lengths as the code computes them.\<close>

definition in_move :: "bytes \<Rightarrow> int \<Rightarrow> int \<Rightarrow> int \<Rightarrow> bytes option" where
  "in_move buf dst src n = (if dst < 0 \<or> src < 0 \<or> n < 0 then None else mem_move buf (nat dst) (nat src) (nat n))"

definition in_copy :: "bytes \<Rightarrow> int \<Rightarrow> bytes \<Rightarrow> bytes option" where
  "in_copy buf dst s = (if dst < 0 then None else mem_copy buf (nat dst) s)"

definition key_scroll :: "int \<Rightarrow> tui_state \<Rightarrow> tui_state" where
  "key_scroll d t = tui_draw_chat (t\<lparr>tu_scroll := (if d < 0 then max 0 (tu_scroll t + d) else tu_scroll t + d)\<rparr>)"

definition key_up :: "tui_state \<Rightarrow> tui_state" where
  "key_up t =
     (if tu_focus t = TUI_FOCUS_SIDEBAR
      then t\<lparr>tu_selected := (if tu_selected t > 0 then tu_selected t - 1 else int (length (tu_contacts t)))\<rparr>
      else key_scroll 1 t)"

definition key_down :: "tui_state \<Rightarrow> tui_state" where
  "key_down t =
     (if tu_focus t = TUI_FOCUS_SIDEBAR
      then t\<lparr>tu_selected := (if tu_selected t < int (length (tu_contacts t)) then tu_selected t + 1 else 0)\<rparr>
      else key_scroll (- 1) t)"

definition key_left :: "tui_state \<Rightarrow> tui_state" where
  "key_left t =
     (if tu_focus t = TUI_FOCUS_INPUT
      then if tu_cursor t > 0 then t\<lparr>tu_cursor := tu_cursor t - 1\<rparr> else t\<lparr>tu_focus := TUI_FOCUS_SIDEBAR\<rparr>
      else t)"

definition key_right :: "tui_state \<Rightarrow> tui_state" where
  "key_right t =
     (if tu_focus t = TUI_FOCUS_INPUT
      then if tu_cursor t < tu_len t then t\<lparr>tu_cursor := tu_cursor t + 1\<rparr> else t
      else t\<lparr>tu_focus := TUI_FOCUS_INPUT\<rparr>)"

definition connect_text :: bytes where "connect_text = str_bytes ''/connect ''"

text \<open>Enter: the line that is returned, if any.\<close>

definition key_enter :: "tui_state \<Rightarrow> (bytes option \<times> tui_state) option" where
  "key_enter t =
     (if tu_focus t = TUI_FOCUS_SIDEBAR
      then if tu_selected t < int (length (tu_contacts t))
        then if tu_selected t < 0 then None else
          map_option (\<lambda>buf. (Some (c_str buf), t\<lparr>tu_chat := [], tu_scroll := 0, tu_buf := buf, tu_len := 0, tu_cursor := 0, tu_focus := TUI_FOCUS_INPUT\<rparr>))
            (in_copy (tu_buf t) 0 (take (TUI_INPUT_SIZE - 1) (connect_text @ tc_onion (tu_contacts t ! nat (tu_selected t))) @ [0]))
        else map_option (\<lambda>buf. (None, t\<lparr>tu_buf := buf, tu_len := int (length connect_text), tu_cursor := int (length connect_text), tu_focus := TUI_FOCUS_INPUT\<rparr>))
            (in_copy (tu_buf t) 0 (connect_text @ [0]))
      else if tu_len t = 0 then Some (None, t)
      else map_option (\<lambda>buf. (Some (c_str buf), t\<lparr>tu_buf := buf, tu_len := 0, tu_cursor := 0, tu_scroll := 0\<rparr>)) (in_copy (tu_buf t) (tu_len t) [0]))"

definition key_backspace :: "tui_state \<Rightarrow> tui_state option" where
  "key_backspace t =
     (if tu_focus t = TUI_FOCUS_INPUT \<and> tu_cursor t > 0 \<and> tu_len t > 0
      then let del = utf8_prev_char_bytes (tu_buf t) (tu_cursor t) in do {
        buf \<leftarrow> in_move (tu_buf t) (tu_cursor t - del) (tu_cursor t) (tu_len t - tu_cursor t);
        buf \<leftarrow> in_copy buf (tu_len t - del) [0];
        Some (t\<lparr>tu_buf := buf, tu_len := tu_len t - del, tu_cursor := tu_cursor t - del\<rparr>)
      } else Some t)"

definition key_delete :: "tui_state \<Rightarrow> tui_state option" where
  "key_delete t =
     (if tu_focus t = TUI_FOCUS_INPUT \<and> tu_cursor t < tu_len t
      then let del = utf8_char_bytes (tu_buf t) (tu_cursor t) (tu_len t) in do {
        buf \<leftarrow> in_move (tu_buf t) (tu_cursor t) (tu_cursor t + del) (tu_len t - tu_cursor t - del);
        buf \<leftarrow> in_copy buf (tu_len t - del) [0];
        Some (t\<lparr>tu_buf := buf, tu_len := tu_len t - del\<rparr>)
      } else Some t)"

text \<open>The character of a key, 0 for none.\<close>

definition key_code_point :: "int \<Rightarrow> u32" where
  "key_code_point ch = (if 32 \<le> ch \<and> ch < 127 \<or> 127 < ch \<and> ch < 0x110000 then word_of_int ch else 0)"

definition key_insert :: "bytes \<Rightarrow> tui_state \<Rightarrow> tui_state option" where
  "key_insert utf8 t =
     (if tu_len t + int (length utf8) \<le> int TUI_INPUT_SIZE - 1
      then do {
        buf \<leftarrow> in_move (tu_buf t) (tu_cursor t + int (length utf8)) (tu_cursor t) (tu_len t - tu_cursor t);
        buf \<leftarrow> in_copy buf (tu_cursor t) utf8;
        Some (t\<lparr>tu_buf := buf, tu_len := tu_len t + int (length utf8), tu_cursor := tu_cursor t + int (length utf8)\<rparr>)
      } else Some t)"

text \<open>One key: the line that is returned, whether the program is to end, the state. Unless the function returns early, the side panel
  (and with it the contacts) is drawn again. \<open>None\<close>: an access outside the input line.\<close>

definition tui_handle_input :: "(bytes \<times> bytes) list \<Rightarrow> sys \<Rightarrow> int \<Rightarrow> tui_state \<Rightarrow> (bytes option \<times> bool \<times> tui_state) option" where
  "tui_handle_input listing st ch t =
     (let drawn = (\<lambda>t. Some (None, False, tui_draw_sidebar listing st t)); redraw = (\<lambda>x. x \<bind> drawn) in
      if \<not> tu_active t then Some (None, False, t)
      else if ch = TB_KEY_CTRL_C \<or> ch = TB_KEY_CTRL_P then Some (None, True, tui_draw_sidebar listing st t)
      else if ch = 9 \<or> ch = TB_KEY_BACK_TAB
      then drawn (t\<lparr>tu_focus := (if tu_focus t = TUI_FOCUS_INPUT then TUI_FOCUS_SIDEBAR else TUI_FOCUS_INPUT)\<rparr>)
      else if ch = TB_KEY_PGUP then drawn (key_scroll 10 t)
      else if ch = TB_KEY_PGDN then drawn (key_scroll (- 10) t)
      else if ch = TB_KEY_ARROW_UP then drawn (key_up t)
      else if ch = TB_KEY_ARROW_DOWN then drawn (key_down t)
      else if ch = TB_KEY_ARROW_LEFT then drawn (key_left t)
      else if ch = TB_KEY_ARROW_RIGHT then drawn (key_right t)
      else if ch = 10 \<or> ch = TB_KEY_ENTER
      then key_enter t \<bind> (\<lambda>(line, t'). if line \<noteq> None \<or> tu_focus t = TUI_FOCUS_INPUT then Some (line, False, t') else drawn t')
      else if ch = TB_KEY_BACKSPACE \<or> ch = 127 then redraw (key_backspace t)
      else if ch = TB_KEY_DELETE then redraw (key_delete t)
      else if ch = TB_KEY_HOME then drawn (if tu_focus t = TUI_FOCUS_INPUT then t\<lparr>tu_cursor := 0\<rparr> else t)
      else if ch = TB_KEY_END then drawn (if tu_focus t = TUI_FOCUS_INPUT then t\<lparr>tu_cursor := tu_len t\<rparr> else t)
      else if tu_focus t = TUI_FOCUS_INPUT
      then if key_code_point ch = 0 then Some (None, False, t) else redraw (key_insert (utf8_encode (key_code_point ch)) t)
      else drawn t)"

section \<open>Events\<close>

text \<open>What \<open>tb_peek_event\<close> delivers: a new size, or a key with its character (0 for none) and its key code.\<close>

datatype tb_event = TB_EVENT_RESIZE int int | TB_EVENT_KEY u32 "16 word"

definition event_code :: "u32 \<Rightarrow> 16 word \<Rightarrow> int" where
  "event_code ch key = (if ch \<noteq> 0 then sint ch else uint key)"

text \<open>What a line may print while it is handled: events, each with the state, the contacts, the size and the allocator of that moment.\<close>

type_synonym print_ctx = "fe_event \<times> sys \<times> (bytes \<times> bytes) list \<times> (int \<times> int) \<times> heap_answers"

definition print_all :: "print_ctx list \<Rightarrow> tui_state \<Rightarrow> tui_state" where
  "print_all ps t = fold (\<lambda>(ev, st, listing, dims, al). fe_tui_emit listing dims al st ev) ps t"

text \<open>The loop of \<open>process_stdin_events\<close> over the events that are waiting; \<open>H\<close> is \<open>process_line\<close> with what it prints. The flag tells
  whether the program is to end.\<close>

fun tui_events ::
    "(bytes \<Rightarrow> sys \<Rightarrow> print_ctx list \<times> sys) \<Rightarrow> (sys \<Rightarrow> (bytes \<times> bytes) list) \<Rightarrow> tb_event list \<Rightarrow> tui_state \<times> sys \<times> bool \<Rightarrow> (tui_state \<times> sys \<times> bool) option" where
  "tui_events H contacts [] x = Some x"
| "tui_events H contacts (TB_EVENT_RESIZE w h # evs) (t, st, down) =
     tui_events H contacts evs (tui_refresh_all (contacts st) w h st (tui_resize w h t), st, down)"
| "tui_events H contacts (TB_EVENT_KEY ch key # evs) (t, st, down) =
     (case tui_handle_input (contacts st) st (event_code ch key) t of
        None \<Rightarrow> None
      | Some (None, d, t) \<Rightarrow> tui_events H contacts evs (t, st, down \<or> d)
      | Some (Some line, d, t) \<Rightarrow>
          (case H line st of (ps, st) \<Rightarrow>
           tui_events H contacts evs ((print_all ps t)\<lparr>tu_buf := replicate TUI_INPUT_SIZE 0\<rparr>, st, down \<or> d)))"

end
