(* ===== verification/Nox_Tui_Props.thy ===== *)
theory Nox_Tui_Props
  imports Nox_Tui Nox_Editor_Props
begin

text \<open>
  What the full-screen front end promises: its state stays in order and no copy leaves the input line, a typed character is
  inserted as the bytes that decode to it, and rows keep the message.
\<close>

section \<open>Encoding and decoding\<close>

lemma high_bits:
  assumes "unat (cp :: u32) < 2 ^ k" "k \<le> n"
  shows "\<not> bit cp n"
proof
  assume "bit cp n"
  then have "bit (unat cp) n" by (simp add: bit_unsigned_iff)
  moreover have "unat cp < 2 ^ n" using assms by (meson less_le_trans one_le_numeral power_increasing)
  ultimately show False by (simp add: bit_iff_odd)
qed

lemma all_less_numeral: "(\<forall>n < numeral v. P n) \<longleftrightarrow> P (pred_numeral v) \<and> (\<forall>n < pred_numeral v. P n)" for P :: "nat \<Rightarrow> bool"
  by (auto simp: numeral_eq_Suc less_Suc_eq)

lemma decode_two:
  assumes "cp < (0x800 :: u32)"
  shows "push_bit 6 (ucast ((ucast (0xC0 OR drop_bit 6 cp) :: byte) AND 0x1F) :: u32) OR (ucast ((ucast (0x80 OR (drop_bit 0 cp AND 0x3F)) :: byte) AND 0x3F) :: u32) = cp" (is "?e = cp")
proof (rule bit_word_eqI)
  have hb: "11 \<le> n \<Longrightarrow> \<not> bit cp n" for n using high_bits [of cp 11 n] assms by (simp add: word_less_nat_alt)
  have "\<forall>n < 14. bit ?e n = bit cp n" by (simp add: all_less_numeral bit_simps hb)
  moreover have "bit ?e n = bit cp n" if "14 \<le> n" for n using that hb by (auto simp: bit_simps)
  ultimately show "bit ?e n = bit cp n" for n using not_le by blast
qed

lemma decode_three:
  assumes "cp < (0x10000 :: u32)"
  shows "push_bit 12 (ucast ((ucast (0xE0 OR drop_bit 12 cp) :: byte) AND 0x0F) :: u32) OR push_bit 6 (ucast ((ucast (0x80 OR (drop_bit 6 cp AND 0x3F)) :: byte) AND 0x3F) :: u32) OR (ucast ((ucast (0x80 OR (drop_bit 0 cp AND 0x3F)) :: byte) AND 0x3F) :: u32) = cp" (is "?e = cp")
proof (rule bit_word_eqI)
  have hb: "16 \<le> n \<Longrightarrow> \<not> bit cp n" for n using high_bits [of cp 16 n] assms by (simp add: word_less_nat_alt)
  have "\<forall>n < 20. bit ?e n = bit cp n" by (simp add: all_less_numeral bit_simps hb)
  moreover have "bit ?e n = bit cp n" if "20 \<le> n" for n using that hb by (auto simp: bit_simps)
  ultimately show "bit ?e n = bit cp n" for n using not_le by blast
qed

lemma decode_four:
  assumes "cp < (0x200000 :: u32)"
  shows "push_bit 18 (ucast ((ucast (0xF0 OR drop_bit 18 cp) :: byte) AND 0x07) :: u32) OR push_bit 12 (ucast ((ucast (0x80 OR (drop_bit 12 cp AND 0x3F)) :: byte) AND 0x3F) :: u32) OR push_bit 6 (ucast ((ucast (0x80 OR (drop_bit 6 cp AND 0x3F)) :: byte) AND 0x3F) :: u32) OR (ucast ((ucast (0x80 OR (drop_bit 0 cp AND 0x3F)) :: byte) AND 0x3F) :: u32) = cp" (is "?e = cp")
proof (rule bit_word_eqI)
  have hb: "21 \<le> n \<Longrightarrow> \<not> bit cp n" for n using high_bits [of cp 21 n] assms by (simp add: word_less_nat_alt)
  have "\<forall>n < 26. bit ?e n = bit cp n" by (simp add: all_less_numeral bit_simps hb)
  moreover have "bit ?e n = bit cp n" if "26 \<le> n" for n using that hb by (auto simp: bit_simps)
  ultimately show "bit ?e n = bit cp n" for n using not_le by blast
qed

text \<open>The first byte announces the length.\<close>

lemma eight_bits: "\<forall>n < 8. bit v n = bit w n \<Longrightarrow> v = w" for v w :: byte
  by (rule bit_word_eqI) simp

lemma lead_bits:
  "cp < (0x800 :: u32) \<Longrightarrow> (ucast (0xC0 OR drop_bit 6 cp) :: byte) AND 0x80 \<noteq> 0"
  "cp < (0x800 :: u32) \<Longrightarrow> (ucast (0xC0 OR drop_bit 6 cp) :: byte) AND 0xE0 = 0xC0"
  "cp < (0x10000 :: u32) \<Longrightarrow> (ucast (0xE0 OR drop_bit 12 cp) :: byte) AND 0x80 \<noteq> 0"
  "cp < (0x10000 :: u32) \<Longrightarrow> (ucast (0xE0 OR drop_bit 12 cp) :: byte) AND 0xE0 \<noteq> 0xC0"
  "cp < (0x10000 :: u32) \<Longrightarrow> (ucast (0xE0 OR drop_bit 12 cp) :: byte) AND 0xF0 = 0xE0"
  "cp < (0x200000 :: u32) \<Longrightarrow> (ucast (0xF0 OR drop_bit 18 cp) :: byte) AND 0x80 \<noteq> 0"
  "cp < (0x200000 :: u32) \<Longrightarrow> (ucast (0xF0 OR drop_bit 18 cp) :: byte) AND 0xE0 \<noteq> 0xC0"
  "cp < (0x200000 :: u32) \<Longrightarrow> (ucast (0xF0 OR drop_bit 18 cp) :: byte) AND 0xF0 \<noteq> 0xE0"
  "cp < (0x200000 :: u32) \<Longrightarrow> (ucast (0xF0 OR drop_bit 18 cp) :: byte) AND 0xF8 = 0xF0"
proof -
  have hb: "cp < (0x800 :: u32) \<Longrightarrow> 11 \<le> n \<Longrightarrow> \<not> bit cp n" "cp < (0x10000 :: u32) \<Longrightarrow> 16 \<le> n \<Longrightarrow> \<not> bit cp n" "cp < (0x200000 :: u32) \<Longrightarrow> 21 \<le> n \<Longrightarrow> \<not> bit cp n" for n
    using high_bits [of cp 11 n] high_bits [of cp 16 n] high_bits [of cp 21 n] by (simp_all add: word_less_nat_alt)
  have e: "cp < (0x800 :: u32) \<Longrightarrow> (ucast (0xC0 OR drop_bit 6 cp) :: byte) AND 0xE0 = 0xC0"
    "cp < (0x10000 :: u32) \<Longrightarrow> (ucast (0xE0 OR drop_bit 12 cp) :: byte) AND 0xF0 = 0xE0"
    "cp < (0x200000 :: u32) \<Longrightarrow> (ucast (0xF0 OR drop_bit 18 cp) :: byte) AND 0xF8 = 0xF0"
    by (rule eight_bits, simp add: all_less_numeral bit_simps hb)+
  have sub: "b AND m = v \<Longrightarrow> b AND (m AND k) = v AND k" for b m v k :: byte by (metis and.assoc)
  show "cp < (0x800 :: u32) \<Longrightarrow> (ucast (0xC0 OR drop_bit 6 cp) :: byte) AND 0x80 \<noteq> 0" using sub [OF e(1), of "0x80"] by simp
  show "cp < (0x10000 :: u32) \<Longrightarrow> (ucast (0xE0 OR drop_bit 12 cp) :: byte) AND 0x80 \<noteq> 0" using sub [OF e(2), of "0x80"] by simp
  show "cp < (0x10000 :: u32) \<Longrightarrow> (ucast (0xE0 OR drop_bit 12 cp) :: byte) AND 0xE0 \<noteq> 0xC0" using sub [OF e(2), of "0xE0"] by simp
  show "cp < (0x200000 :: u32) \<Longrightarrow> (ucast (0xF0 OR drop_bit 18 cp) :: byte) AND 0x80 \<noteq> 0" using sub [OF e(3), of "0x80"] by simp
  show "cp < (0x200000 :: u32) \<Longrightarrow> (ucast (0xF0 OR drop_bit 18 cp) :: byte) AND 0xE0 \<noteq> 0xC0" using sub [OF e(3), of "0xE0"] by simp
  show "cp < (0x200000 :: u32) \<Longrightarrow> (ucast (0xF0 OR drop_bit 18 cp) :: byte) AND 0xF0 \<noteq> 0xE0" using sub [OF e(3), of "0xF0"] by simp
  show "cp < (0x800 :: u32) \<Longrightarrow> (ucast (0xC0 OR drop_bit 6 cp) :: byte) AND 0xE0 = 0xC0"
    "cp < (0x10000 :: u32) \<Longrightarrow> (ucast (0xE0 OR drop_bit 12 cp) :: byte) AND 0xF0 = 0xE0"
    "cp < (0x200000 :: u32) \<Longrightarrow> (ucast (0xF0 OR drop_bit 18 cp) :: byte) AND 0xF8 = 0xF0" by (fact e)+
qed

lemma ascii_bits:
  assumes "cp < (0x80 :: u32)"
  shows "(ucast cp :: byte) AND 0x80 = 0" "ucast (ucast cp :: byte) = cp"
proof -
  have hb: "7 \<le> n \<Longrightarrow> \<not> bit cp n" for n using high_bits [of cp 7 n] assms by (simp add: word_less_nat_alt)
  show "(ucast cp :: byte) AND 0x80 = 0" by (rule eight_bits, simp add: all_less_numeral bit_simps hb)
  show "ucast (ucast cp :: byte) = cp"
  proof (rule bit_word_eqI)
    fix n
    show "bit (ucast (ucast cp :: byte) :: u32) n = bit cp n" by (cases "n < 7") (auto simp: bit_simps hb)
  qed
qed

lemma encode_decode:
  assumes "cp < 0x200000"
  shows "utf8DecodeChar (utf8_encode cp @ s) = (cp, length (utf8_encode cp))"
proof -
  consider "cp < 0x80" | "\<not> cp < 0x80" "cp < 0x800" | "\<not> cp < 0x80" "\<not> cp < 0x800" "cp < 0x10000"
    | "\<not> cp < 0x80" "\<not> cp < 0x800" "\<not> cp < 0x10000" by blast
  then show ?thesis
  proof cases
    case 1
    then show ?thesis by (simp add: utf8_encode_def utf8DecodeChar_def ascii_bits)
  next
    case 2
    then show ?thesis using decode_two [of cp] by (simp add: utf8_encode_def utf8DecodeChar_def Let_def lead_bits)
  next
    case 3
    then show ?thesis using decode_three [of cp] lead_bits [of cp] by (simp add: utf8_encode_def utf8DecodeChar_def Let_def)
  next
    case 4
    then show ?thesis using decode_four [OF assms] lead_bits [of cp] assms by (simp add: utf8_encode_def utf8DecodeChar_def Let_def)
  qed
qed

section \<open>The input line\<close>

text \<open>The state in order.\<close>

definition tui_wf :: "tui_state \<Rightarrow> bool" where
  "tui_wf t \<longleftrightarrow> length (tu_buf t) = TUI_INPUT_SIZE \<and> 0 \<le> tu_cursor t \<and> tu_cursor t \<le> tu_len t \<and> tu_len t < int TUI_INPUT_SIZE \<and>
     length (tu_chat t) \<le> TUI_CHAT_SCROLLBACK \<and> length (tu_contacts t) \<le> TUI_MAX_CONTACTS \<and> 0 \<le> tu_scroll t \<and> 0 \<le> tu_selected t"

definition tu_text :: "tui_state \<Rightarrow> bytes" where
  "tu_text t = take (nat (tu_len t)) (tu_buf t)"

lemma splice_insert:
  assumes "C \<le> L" "L + length c \<le> length buf"
  shows "mem_move buf (C + length c) C (L - C) \<bind> (\<lambda>m. mem_copy m C c) =
    Some (take C buf @ c @ take (L - C) (drop C buf) @ drop (L + length c) buf)"
proof -
  obtain k where k: "L = C + k" using assms(1) le_Suc_ex by blast
  show ?thesis using assms(2) by (simp add: k mem_move_def mem_copy_def take_append drop_append ac_simps)
qed

lemma insert_text:
  assumes wf: "tui_wf t" and room: "tu_len t + int (length c) < int TUI_INPUT_SIZE"
  obtains t' where "key_insert c t = Some t'" "tui_wf t'" "tu_text t' = take (nat (tu_cursor t)) (tu_text t) @ c @ drop (nat (tu_cursor t)) (tu_text t)"
    "tu_cursor t' = tu_cursor t + int (length c)" "tu_active t' = tu_active t" "tu_focus t' = tu_focus t"
proof -
  define C where "C = nat (tu_cursor t)"
  define L where "L = nat (tu_len t)"
  have i: "tu_cursor t = int C" "tu_len t = int L" "C \<le> L" "L + length c < TUI_INPUT_SIZE" "length (tu_buf t) = TUI_INPUT_SIZE"
    using wf room by (auto simp: tui_wf_def C_def L_def)
  let ?m = "take C (tu_buf t) @ c @ take (L - C) (drop C (tu_buf t)) @ drop (L + length c) (tu_buf t)"
  let ?t = "t\<lparr>tu_buf := ?m, tu_len := tu_len t + int (length c), tu_cursor := tu_cursor t + int (length c)\<rparr>"
  have "key_insert c t = Some ?t"
    using i bind_then [OF splice_insert [of C L c "tu_buf t"]] by (simp add: key_insert_def in_move_def in_copy_def nat_add_distrib flip: of_nat_diff of_nat_add)
  moreover have "tui_wf ?t" using wf i by (auto simp: tui_wf_def)
  moreover obtain k where k: "L = C + k" using i(3) le_Suc_ex by blast
  have "tu_text ?t = take C (tu_text t) @ c @ drop C (tu_text t)"
    using i by (auto simp: tu_text_def k nat_add_distrib take_append drop_take min_def)
  ultimately show thesis using that [of ?t] by (simp add: C_def)
qed

lemma cut_text:
  assumes wf: "tui_wf t" and p: "0 \<le> p" "0 \<le> d" "p + d \<le> tu_len t"
    and m: "m = take (nat p) (tu_buf t) @ take (nat (tu_len t) - nat p - nat d) (drop (nat p + nat d) (tu_buf t)) @ [0] @ drop (Suc (nat (tu_len t) - nat d)) (tu_buf t)"
    and c: "0 \<le> c" "c \<le> tu_len t - d"
  shows "tui_wf (t\<lparr>tu_buf := m, tu_len := tu_len t - d, tu_cursor := c\<rparr>)"
    "tu_text (t\<lparr>tu_buf := m, tu_len := tu_len t - d, tu_cursor := c\<rparr>) = take (nat p) (tu_text t) @ drop (nat (p + d)) (tu_text t)"
proof -
  obtain P D where pd: "p = int P" "d = int D" using p nonneg_int_cases by metis
  have "P + D \<le> nat (tu_len t)" using p(3) pd by linarith
  then obtain k where k: "nat (tu_len t) = P + D + k" using le_Suc_ex by blast
  have l: "tu_len t = int (P + D + k)" "length (tu_buf t) = TUI_INPUT_SIZE" "P + D + k < TUI_INPUT_SIZE" using wf k by (auto simp: tui_wf_def)
  have "length m = TUI_INPUT_SIZE" using l by (auto simp: m pd min_def)
  with wf c show "tui_wf (t\<lparr>tu_buf := m, tu_len := tu_len t - d, tu_cursor := c\<rparr>)" using p by (auto simp: tui_wf_def)
  have "take (P + k) m = take P (take (P + D + k) (tu_buf t)) @ drop (P + D) (take (P + D + k) (tu_buf t))"
    using l by (auto simp: m pd take_append drop_take min_def)
  then show "tu_text (t\<lparr>tu_buf := m, tu_len := tu_len t - d, tu_cursor := c\<rparr>) = take (nat p) (tu_text t) @ drop (nat (p + d)) (tu_text t)"
    by (simp add: tu_text_def l pd nat_add_distrib nat_diff_distrib flip: of_nat_add)
qed

lemma cont_back_le: "cont_back buf i \<le> i"
  by (induction buf i rule: cont_back.induct) auto

lemma prev_bytes: "0 < p \<Longrightarrow> 0 < utf8_prev_char_bytes buf p \<and> utf8_prev_char_bytes buf p \<le> p"
  using cont_back_le [of buf "nat (p - 1)"] by (auto simp: utf8_prev_char_bytes_def)

lemma char_bytes: "0 \<le> p \<Longrightarrow> p < n \<Longrightarrow> 0 < utf8_char_bytes buf p n \<and> p + utf8_char_bytes buf p n \<le> n"
  by (auto simp: utf8_char_bytes_def Let_def)

lemma backspace_text:
  assumes wf: "tui_wf t" and f: "tu_focus t = TUI_FOCUS_INPUT" "0 < tu_cursor t"
  obtains t' where "key_backspace t = Some t'" "tui_wf t'" "tu_cursor t' = tu_cursor t - utf8_prev_char_bytes (tu_buf t) (tu_cursor t)"
    "tu_text t' = take (nat (tu_cursor t - utf8_prev_char_bytes (tu_buf t) (tu_cursor t))) (tu_text t) @ drop (nat (tu_cursor t)) (tu_text t)"
    "tu_active t' = tu_active t" "tu_focus t' = tu_focus t"
proof -
  define d where "d = utf8_prev_char_bytes (tu_buf t) (tu_cursor t)"
  have d: "0 < d" "d \<le> tu_cursor t" using prev_bytes [OF f(2)] by (auto simp: d_def)
  have w: "tu_cursor t \<le> tu_len t" "nat (tu_len t) < length (tu_buf t)" using wf by (auto simp: tui_wf_def)
  have "nat (tu_cursor t - d) + nat d \<le> nat (tu_len t)" using d w by (simp flip: nat_add_distrib)
  note m = bind_then [OF mem_delete [OF w(2) this]]
  let ?m = "take (nat (tu_cursor t - d)) (tu_buf t) @ take (nat (tu_len t) - nat (tu_cursor t - d) - nat d) (drop (nat (tu_cursor t - d) + nat d) (tu_buf t)) @ [0] @ drop (Suc (nat (tu_len t) - nat d)) (tu_buf t)"
  let ?t = "t\<lparr>tu_buf := ?m, tu_len := tu_len t - d, tu_cursor := tu_cursor t - d\<rparr>"
  have e: "nat (tu_cursor t - d) + nat d = nat (tu_cursor t)" "nat (tu_len t - tu_cursor t) = nat (tu_len t) - nat (tu_cursor t)"
    "nat (tu_len t - d) = nat (tu_len t) - nat d" using d w by linarith+
  have "key_backspace t = Some ?t"
    using m f d w by (simp add: key_backspace_def d_def [symmetric] in_move_def in_copy_def e)
  moreover have "tui_wf ?t" "tu_text ?t = take (nat (tu_cursor t - d)) (tu_text t) @ drop (nat (tu_cursor t)) (tu_text t)"
    using cut_text [OF wf, of "tu_cursor t - d" d _ "tu_cursor t - d", OF _ _ _ refl] d w by auto
  ultimately show thesis using that [of ?t] by (simp add: d_def)
qed

lemma delete_text:
  assumes wf: "tui_wf t" and f: "tu_focus t = TUI_FOCUS_INPUT" "tu_cursor t < tu_len t"
  obtains t' where "key_delete t = Some t'" "tui_wf t'" "tu_cursor t' = tu_cursor t"
    "tu_text t' = take (nat (tu_cursor t)) (tu_text t) @ drop (nat (tu_cursor t + utf8_char_bytes (tu_buf t) (tu_cursor t) (tu_len t))) (tu_text t)"
    "tu_active t' = tu_active t" "tu_focus t' = tu_focus t"
proof -
  define d where "d = utf8_char_bytes (tu_buf t) (tu_cursor t) (tu_len t)"
  have w: "0 \<le> tu_cursor t" "nat (tu_len t) < length (tu_buf t)" using wf by (auto simp: tui_wf_def)
  have d: "0 < d" "tu_cursor t + d \<le> tu_len t" using char_bytes [OF w(1) f(2)] by (auto simp: d_def)
  have "nat (tu_cursor t) + nat d \<le> nat (tu_len t)" using d w by (simp flip: nat_add_distrib)
  note m = bind_then [OF mem_delete [OF w(2) this]]
  let ?m = "take (nat (tu_cursor t)) (tu_buf t) @ take (nat (tu_len t) - nat (tu_cursor t) - nat d) (drop (nat (tu_cursor t) + nat d) (tu_buf t)) @ [0] @ drop (Suc (nat (tu_len t) - nat d)) (tu_buf t)"
  let ?t = "t\<lparr>tu_buf := ?m, tu_len := tu_len t - d, tu_cursor := tu_cursor t\<rparr>"
  have e: "nat (tu_cursor t + d) = nat (tu_cursor t) + nat d" "nat (tu_len t - tu_cursor t - d) = nat (tu_len t) - nat (tu_cursor t) - nat d"
    "nat (tu_len t - d) = nat (tu_len t) - nat d" using d w by linarith+
  have "key_delete t = Some ?t"
    using m f d w by (simp add: key_delete_def d_def [symmetric] in_move_def in_copy_def e)
  moreover have "tui_wf ?t" "tu_text ?t = take (nat (tu_cursor t)) (tu_text t) @ drop (nat (tu_cursor t + d)) (tu_text t)"
    using cut_text [OF wf, of "tu_cursor t" d _ "tu_cursor t", OF _ _ _ refl] d w by auto
  ultimately show thesis using that [of ?t] by (simp add: d_def)
qed

section \<open>Every key keeps the state in order\<close>

lemma visitor_length: "length cs \<le> TUI_MAX_CONTACTS \<Longrightarrow> length (contact_visitor st x cs) \<le> TUI_MAX_CONTACTS"
  by (auto simp: contact_visitor_def split: prod.splits)

lemma visitors_length: "length cs \<le> TUI_MAX_CONTACTS \<Longrightarrow> length (fold (contact_visitor st) xs cs) \<le> TUI_MAX_CONTACTS"
  by (induction xs arbitrary: cs) (auto simp: visitor_length)

lemma mark_length: "mark_online onion cs = Some cs' \<Longrightarrow> length cs' = length cs"
  by (induction cs arbitrary: cs') (auto split: if_splits)

lemma load_wf: "tui_wf t \<Longrightarrow> tui_wf (tui_load_contacts listing st t)"
  using visitors_length [of "[]" st listing]
  by (auto simp: tui_load_contacts_def tui_wf_def Let_def dest: mark_length split: option.splits)

lemma sidebar_wf: "tui_wf t \<Longrightarrow> tui_wf (tui_draw_sidebar listing st t)"
  by (simp add: tui_draw_sidebar_def load_wf)

lemma sidebar_same [simp]: "tu_buf (tui_draw_sidebar listing st t) = tu_buf t" "tu_len (tui_draw_sidebar listing st t) = tu_len t"
  "tu_cursor (tui_draw_sidebar listing st t) = tu_cursor t" "tu_active (tui_draw_sidebar listing st t) = tu_active t"
  "tu_focus (tui_draw_sidebar listing st t) = tu_focus t" "tu_chat (tui_draw_sidebar listing st t) = tu_chat t"
  by (simp_all add: tui_draw_sidebar_def tui_load_contacts_def Let_def)

lemma scroll_wf: "tui_wf t \<Longrightarrow> tui_wf (key_scroll d t)"
  by (auto simp: key_scroll_def tui_draw_chat_def tui_wf_def Let_def)

lemma moves_wf:
  assumes "tui_wf t"
  shows "tui_wf (key_up t)" "tui_wf (key_down t)" "tui_wf (key_left t)" "tui_wf (key_right t)"
  using assms scroll_wf [OF assms] by (auto simp: key_up_def key_down_def key_left_def key_right_def tui_wf_def)

lemma in_copy_some: "0 \<le> dst \<Longrightarrow> nat dst + length s \<le> length buf \<Longrightarrow> \<exists>b. in_copy buf dst s = Some b \<and> length b = length buf"
  by (auto simp: in_copy_def mem_copy_def)

lemma c_str_zero: "i < length b \<Longrightarrow> b ! i = 0 \<Longrightarrow> length (c_str b) \<le> i"
proof -
  assume "i < length b" "b ! i = 0"
  then have "takeWhile (\<lambda>x. x \<noteq> 0) b = takeWhile (\<lambda>x. x \<noteq> 0) (take i b)"
    by (metis (mono_tags, lifting) id_take_nth_drop takeWhile_tail)
  then show ?thesis using length_takeWhile_le [of "\<lambda>x. x \<noteq> 0" "take i b"] by (auto simp: c_str_def)
qed

text \<open>What a key may return.\<close>

definition key_fine :: "(bytes option \<times> bool \<times> tui_state) option \<Rightarrow> bool" where
  "key_fine x \<longleftrightarrow> (\<exists>line d t. x = Some (line, d, t) \<and> tui_wf t \<and> (\<forall>s. line = Some s \<longrightarrow> length s < TUI_INPUT_SIZE \<and> 0 \<notin> set s))"

lemma enter_wf:
  assumes wf: "tui_wf t"
  shows "\<exists>line t'. key_enter t = Some (line, t') \<and> tui_wf t' \<and> (\<forall>s. line = Some s \<longrightarrow> length s < TUI_INPUT_SIZE \<and> 0 \<notin> set s)"
proof -
  have w: "length (tu_buf t) = TUI_INPUT_SIZE" "0 \<le> tu_len t" "tu_len t < int TUI_INPUT_SIZE" "0 \<le> tu_selected t" using wf by (auto simp: tui_wf_def)
  define S where "S = take (TUI_INPUT_SIZE - 1) (connect_text @ tc_onion (tu_contacts t ! nat (tu_selected t)))"
  have k: "length S + 1 \<le> TUI_INPUT_SIZE" "length connect_text = 9" by (auto simp: S_def TUI_INPUT_SIZE_def connect_text_def str_bytes_def)
  have a: "in_copy (tu_buf t) 0 (S @ [0]) = Some (S @ [0] @ drop (length S + 1) (tu_buf t))" using w k(1) by (simp add: in_copy_def mem_copy_def)
  have b: "in_copy (tu_buf t) 0 (connect_text @ [0]) = Some (connect_text @ [0] @ drop 10 (tu_buf t))"
    using w k(2) by (simp add: in_copy_def mem_copy_def TUI_INPUT_SIZE_def)
  have c: "in_copy (tu_buf t) (tu_len t) [0] = Some (take (nat (tu_len t)) (tu_buf t) @ [0] @ drop (Suc (nat (tu_len t))) (tu_buf t))"
    using w by (simp add: in_copy_def mem_copy_def)
  have x: "length (c_str (S @ [0] @ drop (length S + 1) (tu_buf t))) \<le> length S" using k(1) w(1) by (intro c_str_zero) (auto simp: nth_append)
  have y: "length (c_str (take (nat (tu_len t)) (tu_buf t) @ [0] @ drop (Suc (nat (tu_len t))) (tu_buf t))) \<le> nat (tu_len t)"
    using w by (intro c_str_zero) (auto simp: nth_append)
  show ?thesis
  proof (cases "tu_focus t = TUI_FOCUS_SIDEBAR")
    case True
    then show ?thesis
      using wf w k(2) le_less_trans [OF x, of TUI_INPUT_SIZE] k(1) a b c_str_no_zero unfolding key_enter_def S_def [symmetric] tui_wf_def
      by (auto simp: TUI_INPUT_SIZE_def)
  next
    case False
    then have "tu_focus t = TUI_FOCUS_INPUT" by (cases "tu_focus t") auto
    then show ?thesis using wf w c le_less_trans [OF y, of TUI_INPUT_SIZE] c_str_no_zero unfolding key_enter_def tui_wf_def by auto
  qed
qed

lemma key_fine_some: "tui_wf t \<Longrightarrow> key_fine (Some (None, d, t))"
  by (simp add: key_fine_def)

lemma key_fine_drawn: "tui_wf t \<Longrightarrow> key_fine (Some (None, d, tui_draw_sidebar listing st t))"
  by (simp add: key_fine_def sidebar_wf)

lemma key_fine_redraw: "x = Some t \<Longrightarrow> tui_wf t \<Longrightarrow> key_fine (x \<bind> (\<lambda>t. Some (None, False, tui_draw_sidebar listing st t)))"
  by (simp add: key_fine_drawn)

lemma key_fine_if: "(b \<Longrightarrow> key_fine x) \<Longrightarrow> (\<not> b \<Longrightarrow> key_fine y) \<Longrightarrow> key_fine (if b then x else y)"
  by simp

lemma backspace_wf: "tui_wf t \<Longrightarrow> \<exists>t'. key_backspace t = Some t' \<and> tui_wf t'"
proof (cases "tu_focus t = TUI_FOCUS_INPUT \<and> 0 < tu_cursor t")
  case True
  assume "tui_wf t"
  with True backspace_text show ?thesis by metis
qed (auto simp: key_backspace_def)

lemma delete_wf: "tui_wf t \<Longrightarrow> \<exists>t'. key_delete t = Some t' \<and> tui_wf t'"
proof (cases "tu_focus t = TUI_FOCUS_INPUT \<and> tu_cursor t < tu_len t")
  case True
  assume "tui_wf t"
  with True delete_text show ?thesis by metis
qed (auto simp: key_delete_def)

lemma insert_wf: "tui_wf t \<Longrightarrow> \<exists>t'. key_insert c t = Some t' \<and> tui_wf t'"
proof (cases "tu_len t + int (length c) < int TUI_INPUT_SIZE")
  case True
  assume "tui_wf t"
  with True insert_text show ?thesis by metis
qed (auto simp: key_insert_def)

lemma handle_input_fine:
  assumes wf: "tui_wf t"
  shows "key_fine (tui_handle_input listing st ch t)"
proof -
  obtain bs where bs: "key_backspace t = Some bs" "tui_wf bs" using backspace_wf [OF wf] by blast
  obtain de where de: "key_delete t = Some de" "tui_wf de" using delete_wf [OF wf] by blast
  obtain ins where ins: "key_insert (utf8_encode (key_code_point ch)) t = Some ins" "tui_wf ins" using insert_wf [OF wf] by blast
  obtain line en where en: "key_enter t = Some (line, en)" "tui_wf en" "\<forall>s. line = Some s \<longrightarrow> length s < TUI_INPUT_SIZE \<and> 0 \<notin> set s"
    using enter_wf [OF wf] by blast
  have enter: "key_fine (key_enter t \<bind> (\<lambda>(line, t'). if line \<noteq> None \<or> tu_focus t = TUI_FOCUS_INPUT then Some (line, False, t')
      else Some (None, False, tui_draw_sidebar listing st t')))"
    using en sidebar_wf [OF en(2)] by (auto simp: key_fine_def)
  have small: "tui_wf (t\<lparr>tu_focus := f\<rparr>)" "tui_wf (t\<lparr>tu_cursor := 0\<rparr>)" "tui_wf (t\<lparr>tu_cursor := tu_len t\<rparr>)" for f
    using wf by (auto simp: tui_wf_def)
  have "tui_wf (if b then x else t)" if "tui_wf x" for b x using wf that by simp
  note states = small scroll_wf [OF wf] moves_wf [OF wf] wf this [OF small(2)] this [OF small(3)]
  show ?thesis unfolding tui_handle_input_def Let_def
    by (intro key_fine_if key_fine_redraw [OF bs] key_fine_redraw [OF de] key_fine_redraw [OF ins] enter states [THEN key_fine_drawn] wf [THEN key_fine_some])
qed

section \<open>The scrollback\<close>

lemma push_wf: "tui_wf t \<Longrightarrow> tui_wf (chat_push ok line fg t)"
  by (auto simp: chat_push_def tui_wf_def Let_def TUI_CHAT_SCROLLBACK_def)

lemma push_rows_wf: "tui_wf t \<Longrightarrow> tui_wf (snd (push_rows fg rs al t))"
  by (induction fg rs al t rule: push_rows.induct) (auto simp: push_wf Let_def split: prod.splits)

lemma append_wf:
  assumes "tui_wf t"
  shows "tui_wf (tui_chat_append_colored al line fg t)"
proof -
  have s: "tui_wf x \<Longrightarrow> tui_wf (x\<lparr>tu_scroll := 0\<rparr>)" for x by (simp add: tui_wf_def)
  have "tui_wf t'" if "push_rows fg rs al t = (ok, t')" for rs ok t' using push_rows_wf [OF assms, of fg rs al] that by simp
  then show ?thesis using assms push_wf [OF assms] s
    by (auto simp: tui_chat_append_colored_def Let_def split: prod.splits)
qed

lemma refresh_wf: "tui_wf t \<Longrightarrow> tui_wf (tui_refresh_all listing w h st t)"
proof -
  assume "tui_wf t"
  then have "tui_wf (tui_draw_sidebar listing st (t\<lparr>tu_cols := w, tu_rows := h\<rparr>))" by (intro sidebar_wf) (simp add: tui_wf_def)
  then have "tui_wf (tui_draw_chat (tui_draw_sidebar listing st (t\<lparr>tu_cols := w, tu_rows := h\<rparr>)))"
    by (auto simp: tui_draw_chat_def tui_wf_def Let_def)
  then show ?thesis using \<open>tui_wf t\<close> by (simp add: tui_refresh_all_def)
qed

lemma emit_wf: "tui_wf t \<Longrightarrow> tui_wf (fe_tui_emit listing dims al st ev t)"
  by (auto simp: fe_tui_emit_def tui_append_line_def tui_chat_append_def append_wf refresh_wf split: fe_event_type.splits)

lemma print_wf: "tui_wf t \<Longrightarrow> tui_wf (print_all ps t)"
  unfolding print_all_def by (induction ps arbitrary: t) (auto simp: emit_wf split: prod.splits)

lemma init_wf: "tui_wf (tui_init ok w h)"
  by (auto simp: tui_init_def tui_draw_chat_def tui_wf_def Let_def tui_consts)

lemma window_bounds: "length (chat_window t) \<le> nat (chat_height t) \<and> (\<forall>(row, c) \<in> set (chat_window t). length row \<le> nat (max 20 (tu_cols t - TUI_SIDEBAR_WIDTH) - 2))"
  by (auto simp: chat_window_def Let_def split: prod.splits)

lemma events_wf: "tui_wf t \<Longrightarrow> \<exists>t' st' down'. tui_events H contacts evs (t, st, down) = Some (t', st', down') \<and> tui_wf t'"
proof (induction evs arbitrary: t st down)
  case (Cons ev evs)
  show ?case
  proof (cases ev)
    case (TB_EVENT_RESIZE w h)
    have "tui_wf (tui_resize w h t)" using Cons.prems by (simp add: tui_resize_def tui_wf_def)
    then show ?thesis using Cons.IH [OF refresh_wf] TB_EVENT_RESIZE by simp
  next
    case (TB_EVENT_KEY ch key)
    obtain line d t1 where k: "tui_handle_input (contacts st) st (event_code ch key) t = Some (line, d, t1)" "tui_wf t1"
      using handle_input_fine [OF Cons.prems, of "contacts st" st "event_code ch key"] by (auto simp: key_fine_def)
    show ?thesis
    proof (cases line)
      case None
      with k Cons.IH [OF k(2)] TB_EVENT_KEY show ?thesis by simp
    next
      case (Some s)
      obtain ps st1 where h: "H s st = (ps, st1)" by fastforce
      have "tui_wf ((print_all ps t1)\<lparr>tu_buf := replicate TUI_INPUT_SIZE 0\<rparr>)" using print_wf [OF k(2), of ps] by (simp add: tui_wf_def)
      with k h Some Cons.IH TB_EVENT_KEY show ?thesis by simp
    qed
  qed
qed simp

text \<open>C38. The full-screen front end stays in order: from its start, for every sequence of key and resize events, whatever the handled lines print and
  whatever the allocator answers, no access leaves the input line, the cursor stays within the text and the text within the 4096 bytes, there
  are at most 512 lines of scrollback and 64 contacts, the scroll position is not negative, and what is visible is at most the height of
  the panel, each row at most its width.\<close>

theorem tui_typed:
  shows "\<exists>t st' down. tui_events H contacts evs (tui_init True w h, st, False) = Some (t, st', down) \<and> tui_wf t \<and>
    length (chat_window t) \<le> nat (chat_height t) \<and>
    list_all (\<lambda>(row, c). length row \<le> nat (max 20 (tu_cols t - TUI_SIDEBAR_WIDTH) - 2)) (chat_window t)"
  using events_wf [OF init_wf, of H contacts evs True w h st False] window_bounds by (auto simp: list_all_iff)

section \<open>Typed characters\<close>

text \<open>Characters whose code is not taken for a key.\<close>

definition typable :: "u32 \<Rightarrow> bool" where
  "typable cp \<longleftrightarrow> 32 \<le> cp \<and> cp < 0x110000 \<and> cp \<noteq> 127 \<and> \<not> (0xFFE9 \<le> cp \<and> cp \<le> 0xFFF2)"

lemma typable_key:
  assumes "typable cp" "tu_active t" "tu_focus t = TUI_FOCUS_INPUT"
  shows "tui_handle_input listing st (uint cp) t = key_insert (utf8_encode cp) t \<bind> (\<lambda>t. Some (None, False, tui_draw_sidebar listing st t))"
proof -
  have "uint cp \<noteq> 127"
  proof
    assume "uint cp = 127"
    then have "word_of_int (uint cp) = (127 :: u32)" by (simp only:) simp
    with assms(1) show False by (simp add: typable_def)
  qed
  then have u: "32 \<le> uint cp" "uint cp < 0x110000" "uint cp \<noteq> 127" "\<not> (0xFFE9 \<le> uint cp \<and> uint cp \<le> 0xFFF2)"
    using assms(1) by (auto simp: typable_def word_le_def word_less_def)
  then have "key_code_point (uint cp) = cp" by (auto simp: key_code_point_def)
  moreover have "cp \<noteq> 0" using assms(1) by (auto simp: typable_def)
  moreover have "uint cp \<notin> {3, 8, 9, 10, 13, 16, 127, 0xFFE9, 0xFFEA, 0xFFEB, 0xFFEC, 0xFFED, 0xFFEE, 0xFFEF, 0xFFF0, 0xFFF1, 0xFFF2}"
    using u by auto
  ultimately show ?thesis using assms(2,3) by (simp add: tui_handle_input_def tb_keys)
qed

text \<open>C39. A typed character arrives as itself: in the input line every character of Unicode that is not taken for a key is inserted at the cursor as
  the bytes from which the decoder of the line editor reads back the same character, the rest of the line is as it was and the cursor stands
  behind the character.\<close>

theorem typed_character:
  assumes "tui_wf t" and "tu_active t" and "tu_focus t = TUI_FOCUS_INPUT" and "typable cp" and "tu_len t + 4 < int TUI_INPUT_SIZE"
  shows "\<exists>t'. tui_handle_input listing st (event_code cp 0) t = Some (None, False, t') \<and>
    tu_text t' = take (nat (tu_cursor t)) (tu_text t) @ utf8_encode cp @ drop (nat (tu_cursor t)) (tu_text t) \<and>
    tu_cursor t' = tu_cursor t + int (length (utf8_encode cp)) \<and>
    utf8DecodeChar (drop (nat (tu_cursor t)) (tu_text t')) = (cp, length (utf8_encode cp))"
proof -
  have cp: "cp < 0x200000" "cp \<noteq> 0" "cp < 0x80000000" using assms(4) by (auto simp: typable_def elim: less_trans)
  then have "sint cp = uint cp" unfolding sint_uint by (intro signed_take_bit_int_eq_self) (auto simp: word_less_def intro: order_trans [OF _ uint_ge_0])
  then have ev: "event_code cp 0 = uint cp" using cp by (simp add: event_code_def)
  have "length (utf8_encode cp) \<le> 4" by (simp add: utf8_encode_def Let_def)
  then have "tu_len t + int (length (utf8_encode cp)) < int TUI_INPUT_SIZE" using assms(5) by simp
  then obtain t' where i: "key_insert (utf8_encode cp) t = Some t'"
    "tu_text t' = take (nat (tu_cursor t)) (tu_text t) @ utf8_encode cp @ drop (nat (tu_cursor t)) (tu_text t)"
    "tu_cursor t' = tu_cursor t + int (length (utf8_encode cp))" using insert_text [OF assms(1)] by metis
  have l: "nat (tu_cursor t) \<le> length (tu_text t)" using assms(1) by (auto simp: tu_text_def tui_wf_def)
  have "tu_text (tui_draw_sidebar listing st t') = tu_text t'" by (simp add: tu_text_def)
  then show ?thesis using i l typable_key [OF assms(4,2,3)] encode_decode [OF cp(1)] by (simp add: ev)
qed

text \<open>The euro sign, typed into an empty line.\<close>

theorem typed_character_witness:
  "\<forall>st. \<exists>t'. tui_handle_input [] st (event_code 0x20AC 0) (tui_init True 80 24) = Some (None, False, t') \<and> tu_text t' = [0xE2, 0x82, 0xAC] \<and>
    tu_cursor t' = 3 \<and> utf8DecodeChar (tu_text t') = (0x20AC, 3)"
proof
  fix st
  let ?t = "tui_init True 80 24"
  have t: "tu_active ?t" "tu_focus ?t = TUI_FOCUS_INPUT" "tu_len ?t = 0" "tu_cursor ?t = 0" "tu_text ?t = []"
    by (simp_all add: tui_init_def tui_draw_chat_def tu_text_def Let_def)
  have e: "utf8_encode 0x20AC = [0xE2, 0x82, 0xAC]" by (simp add: utf8_encode_def)
  have l: "length (utf8_encode 0x20AC) = 3" by (simp add: e)
  have "typable 0x20AC" by (simp add: typable_def)
  from typed_character [OF init_wf t(1,2) this, of "[]" st, unfolded l]
  show "\<exists>t'. tui_handle_input [] st (event_code 0x20AC 0) ?t = Some (None, False, t') \<and> tu_text t' = [0xE2, 0x82, 0xAC] \<and>
    tu_cursor t' = 3 \<and> utf8DecodeChar (tu_text t') = (0x20AC, 3)" by (simp add: t e TUI_INPUT_SIZE_def)
qed

section \<open>Breaking lines\<close>

lemma row_len_bound: "row_len chunk p \<le> chunk \<and> row_len chunk p \<le> length p"
  using break_at_le [of p "min chunk (length p)"] by (auto simp: row_len_def Let_def)

text \<open>The parts fit and keep everything but blanks.\<close>

lemma wrap_parts_keep:
  "0 < chunk \<Longrightarrow> (\<forall>q \<in> set (wrap_parts chunk p). length q \<le> chunk) \<and> filter (\<lambda>c. c \<noteq> 32) (concat (wrap_parts chunk p)) = filter (\<lambda>c. c \<noteq> 32) p"
proof (induction chunk p rule: wrap_parts.induct)
  case (1 chunk p)
  show ?case
  proof (cases "p = []")
    case True
    then show ?thesis by (simp add: wrap_parts.simps)
  next
    case False
    define n where "n = row_len chunk p"
    define rest where "rest = (if take 1 (drop n p) = [32] then drop 1 (drop n p) else drop n p)"
    have n: "0 < n" "n \<le> chunk" using row_len_pos [OF 1(2) False] row_len_bound [of chunk p] by (auto simp: n_def)
    have w: "wrap_parts chunk p = take n p # wrap_parts chunk rest"
      using False n by (subst wrap_parts.simps) (simp add: n_def [symmetric] rest_def Let_def)
    have "filter (\<lambda>c. c \<noteq> 32) rest = filter (\<lambda>c. c \<noteq> 32) (drop n p)" by (cases "drop n p") (auto simp: rest_def)
    moreover have "filter (\<lambda>c. c \<noteq> 32) p = filter (\<lambda>c. c \<noteq> 32) (take n p) @ filter (\<lambda>c. c \<noteq> 32) (drop n p)"
      by (metis append_take_drop_id filter_append)
    moreover have "(\<forall>q \<in> set (wrap_parts chunk rest). length q \<le> chunk) \<and> filter (\<lambda>c. c \<noteq> 32) (concat (wrap_parts chunk rest)) = filter (\<lambda>c. c \<noteq> 32) rest"
      using 1(1) [OF _ n_def refl] False n 1(2) by (simp add: n_def [symmetric] rest_def)
    ultimately show ?thesis using n by (simp add: w)
  qed
qed

text \<open>Rows at the end of the scrollback, the oldest dropped.\<close>

definition keep_last :: "nat \<Rightarrow> 'a list \<Rightarrow> 'a list" where
  "keep_last n xs = drop (length xs - n) xs"

lemma push_keep: "length (tu_chat t) \<le> TUI_CHAT_SCROLLBACK \<Longrightarrow> chat_push True line fg t = t\<lparr>tu_chat := keep_last TUI_CHAT_SCROLLBACK (tu_chat t @ [(line, fg)])\<rparr>"
  by (auto simp: chat_push_def keep_last_def TUI_CHAT_SCROLLBACK_def Let_def)

lemma keep_last_append: "keep_last n (keep_last n xs @ ys) = keep_last n (xs @ ys)"
  by (cases "length xs \<le> n") (auto simp: keep_last_def add.commute)

lemma push_rows_keep:
  "length (tu_chat t) \<le> TUI_CHAT_SCROLLBACK \<Longrightarrow>
   push_rows fg rs [] t = (True, t\<lparr>tu_chat := keep_last TUI_CHAT_SCROLLBACK (tu_chat t @ map (\<lambda>r. (r, fg)) rs)\<rparr>)"
proof (induction rs arbitrary: t)
  case Nil
  then show ?case by (simp add: keep_last_def)
next
  case (Cons r rs)
  have "length (keep_last TUI_CHAT_SCROLLBACK (tu_chat t @ [(r, fg)])) \<le> TUI_CHAT_SCROLLBACK" by (simp add: keep_last_def)
  with Cons show ?case by (simp add: push_keep keep_last_append)
qed

text \<open>C40. Breaking a long line loses nothing: when the bracketed beginning of a line (its last \<^verbatim>\<open>] \<close>) leaves room in the panel, the line is added to the
  scrollback as rows that all fit the width of the panel, that together have every byte of the line except blanks, in order, and of the
  whole scrollback the last 512 rows are kept.\<close>

theorem wrap_exact:
  assumes "tui_wf t" and "tu_active t" and "last_bracket line = Some i" and "i + 3 < nat (chat_width t)" and "chat_width t \<le> 1024"
  shows "\<exists>rows. tu_chat (tui_chat_append_colored [] line fg t) = keep_last TUI_CHAT_SCROLLBACK (tu_chat t @ map (\<lambda>r. (r, fg)) rows) \<and>
    list_all (\<lambda>r. length r < nat (chat_width t)) rows \<and> filter (\<lambda>c. c \<noteq> 32) (concat rows) = filter (\<lambda>c. c \<noteq> 32) line"
proof -
  let ?w = "nat (chat_width t) - 1" and ?k = "i + 2"
  have wf: "length (tu_chat t) \<le> TUI_CHAT_SCROLLBACK" using assms(1) by (simp add: tui_wf_def)
  have line: "line \<noteq> []" "filter (\<lambda>c. c \<noteq> 32) line = filter (\<lambda>c. c \<noteq> 32) (take ?k line) @ filter (\<lambda>c. c \<noteq> 32) (drop ?k line)"
    using assms(3) by (auto simp flip: filter_append)
  show ?thesis
  proof (cases "drop ?k line = [] \<or> ?k + length (drop ?k line) \<le> ?w")
    case True
    then have "tui_chat_append_colored [] line fg t = chat_push True line fg t"
      using assms line(1) by (auto simp: tui_chat_append_colored_def Let_def)
    moreover have "length line < nat (chat_width t)" using True assms(4) by auto
    ultimately show ?thesis using push_keep [OF wf] by (intro exI [of _ "[line]"]) simp
  next
    case False
    define parts where "parts = wrap_parts (?w - ?k) (drop ?k line)"
    define ind :: bytes where "ind = replicate (min ?k 63) 32"
    let ?rows = "wrap_rows (take ?k line) ind parts"
    have p: "\<forall>q \<in> set parts. length q \<le> ?w - ?k" "filter (\<lambda>c. c \<noteq> 32) (concat parts) = filter (\<lambda>c. c \<noteq> 32) (drop ?k line)"
      using wrap_parts_keep [of "?w - ?k" "drop ?k line"] assms(4) by (auto simp: parts_def)
    obtain q qs where qs: "parts = q # qs"
      using False assms(4) row_len_pos [of "?w - ?k" "drop ?k line"] unfolding parts_def by (subst (asm) wrap_parts.simps) (auto simp: Let_def)
    have "length (take ?k line @ q) \<le> ?w" "\<forall>r \<in> set qs. length (ind @ r) \<le> ?w" using p(1) qs assms(4) by (auto simp: ind_def)
    then have r: "?rows = (take ?k line @ q) # map (\<lambda>r. ind @ r) qs" and fit: "list_all (\<lambda>r. length r < nat (chat_width t)) ?rows"
      using assms(4,5) by (auto simp: wrap_rows_def qs list_all_iff)
    have b: "filter (\<lambda>c. c \<noteq> 32) (concat (map (\<lambda>r. ind @ r) xs)) = filter (\<lambda>c. c \<noteq> 32) (concat xs)" for xs
      by (induction xs) (auto simp: ind_def)
    have "filter (\<lambda>c. c \<noteq> 32) (concat ?rows) = filter (\<lambda>c. c \<noteq> 32) line" using p(2) line(2) unfolding r by (simp add: qs b)
    moreover have "tui_chat_append_colored [] line fg t = (snd (push_rows fg ?rows [] t))\<lparr>tu_scroll := 0\<rparr>"
      using False assms line(1) push_rows_keep [OF wf] by (auto simp: tui_chat_append_colored_def Let_def parts_def ind_def)
    ultimately show ?thesis using fit push_rows_keep [OF wf] by (intro exI [of _ ?rows]) simp
  qed
qed

text \<open>A line of 29 bytes in a panel of 20.\<close>

theorem wrap_exact_witness:
  "\<exists>rows. tu_chat (tui_chat_append_colored [] (str_bytes ''[1] aaaa bbbb cccc dddd eeee'') 0 (tui_init True 44 24)) =
      keep_last TUI_CHAT_SCROLLBACK (map (\<lambda>r. (r, 0)) rows) \<and>
    list_all (\<lambda>r. length r < 20) rows \<and> filter (\<lambda>c. c \<noteq> 32) (concat rows) = str_bytes ''[1]aaaabbbbccccddddeeee''"
proof -
  let ?t = "tui_init True 44 24" and ?l = "str_bytes ''[1] aaaa bbbb cccc dddd eeee''"
  have t: "tu_active ?t" "tu_cols ?t = 44" "tu_chat ?t = []" by (simp_all add: tui_init_def tui_draw_chat_def Let_def)
  then have w: "chat_width ?t = 20" by (simp add: chat_width_def TUI_SIDEBAR_WIDTH_def)
  have "last_bracket ?l = Some (Suc (Suc 0))" by (simp add: str_bytes_def)
  moreover have "filter (\<lambda>c. c \<noteq> 32) ?l = str_bytes ''[1]aaaabbbbccccddddeeee''" by (simp add: str_bytes_def)
  ultimately show ?thesis using wrap_exact [OF init_wf t(1), of ?l "Suc (Suc 0)" 0] by (simp add: t w)
qed

section \<open>Limits\<close>

text \<open>The beginning of a line reaches to its last \<^verbatim>\<open>] \<close>, also when that stands in the text of the message: a line with one byte behind it is
  a single row, however long it is, and only the part that fits the panel is ever visible.\<close>

lemma bracket_in_text: "tu_active t \<Longrightarrow> last_bracket line = Some i \<Longrightarrow> length line = i + 3 \<Longrightarrow>
    tui_chat_append_colored [] line fg t = chat_push True line fg t"
  by (auto simp: tui_chat_append_colored_def Let_def)

text \<open>Six characters are taken for keys, since both kinds of codes share one number.\<close>

lemma characters_taken_for_keys:
  "event_code 0xFFED 0 = TB_KEY_ARROW_UP" "event_code 0xFFEC 0 = TB_KEY_ARROW_DOWN" "event_code 0xFFEB 0 = TB_KEY_ARROW_LEFT"
  "event_code 0xFFEA 0 = TB_KEY_ARROW_RIGHT" "event_code 0xFFE9 0 = TB_KEY_BACK_TAB" "event_code 0xFFEE 0 = TB_KEY_PGDN"
  by (simp_all add: event_code_def tb_keys)

text \<open>A peer that writes \<^verbatim>\<open>[Sen]\<close> is shown in the colour of the user, whose own lines are not.\<close>

lemma colour_of_text:
  "line_colour (str_bytes ''[12:00:00] Peer: [Sen]'') 0 = TC_SELF" "line_colour (str_bytes ''[12:00:00] Sen: hi'') 0 = TC_SYSTEM"
  by (simp_all add: line_colour_def contains_sub_def str_bytes_def upt_rec)

end
