(* ===== verification/Spec2Isabelle.thy ===== *)
theory Spec2Isabelle
  imports Nox_Noise_Props Nox_Arena_Props Nox_Wire Nox_Onion Nox_Database_Props Nox_Machine_Props Nox_Delivery
    Nox_Limits_Props Nox_Loop Nox_Terminal Nox_Control_Props Nox_Startup_Props Nox_Account_Props Nox_Launch_Props Nox_Stdin_Props
    Nox_Refresh_Props Nox_Frontend_Props Nox_Tui_Props
begin

text \<open>
  \<^bold>\<open>Verification of noxtor\<close>, a peer-to-peer messenger over Tor onion services written in C. Two instances
  find each other by onion address, run a Noise XX handshake over a SOCKS5 connection, check each
  other's signed claim to an onion address against the contact list (asking the user about keys they
  have not seen), and then exchange encrypted texts and files. One process, one thread, one event loop.

  \<^bold>\<open>Parts and theories\<close> (paths below \<^verbatim>\<open>src/\<close>).

  \<^item> \<open>Nox_Prelude\<close>, \<open>Nox_Common\<close>: bytes and words, collections of rewrite rules, the interface of an exact
    codec; the constants and error codes of \<^verbatim>\<open>include/common.h\<close>; the allocator as a sequence of answers.
  \<^item> \<open>Nox_Cipher\<close>, \<open>Nox_Handshake\<close>: \<^verbatim>\<open>src/noise.c\<close>. Cipher state with its 64-bit counter, HMAC and HKDF, the
    symmetric state, the six message handlers of XX, entry points and split, with every error path and
    wipe. \<open>Nox_Handshake_Laws\<close> has the invariant of a handshake object, \<open>Nox_Handshake_Run\<close> a complete run
    of two parties, \<open>Nox_Noise_Props\<close> the properties. The primitives of libsodium are the record \<open>sodium\<close>.
  \<^item> \<open>Nox_Arena\<close>, \<open>Nox_Arena_Laws\<close>, \<open>Nox_Arena_Props\<close>: \<^verbatim>\<open>src/arena.c\<close>, the guarded and locked arena for keys,
    over a process image with mappings, in 64-bit arithmetic.
  \<^item> \<open>Nox_Wire\<close>: the frame header and the deadline-bounded read and write loops of \<^verbatim>\<open>src/network.c\<close>.
  \<^item> \<open>Nox_Onion\<close>: base32, v3 addresses and their checksum, signed claims (\<^verbatim>\<open>src/crypto.c\<close>,
    \<open>validate_onion_address\<close>, \<open>validate_onion_input\<close>).
  \<^item> \<open>Nox_Database\<close>, \<open>Nox_Database_Props\<close>: \<^verbatim>\<open>src/database.c\<close>, contacts, the queue of outgoing texts and the
    history, each row encrypted. SQLite is a function from tables and statement to answer and tables.
  \<^item> \<open>Nox_Peer\<close>: \<^verbatim>\<open>include/types.h\<close> (slots and application state) and \<^verbatim>\<open>src/state_machine.c\<close> (transition table,
    dispatcher, actions). \<open>Nox_Peer_Props\<close>, \<open>Nox_Machine_Props\<close>: what a dispatch does, closing, approvals.
  \<^item> \<open>Nox_File\<close>, \<open>Nox_File_Props\<close>, \<open>Nox_Send_Props\<close>: \<^verbatim>\<open>src/file_transfer.c\<close>, both directions.
  \<^item> \<open>Nox_Message\<close>, \<open>Nox_Message_Props\<close>: texts of \<^verbatim>\<open>src/stdin_handler.c\<close>: splitting at UTF-8 boundaries, sending,
    queueing, the answer to a prompt.
  \<^item> \<open>Nox_Frames\<close>, \<open>Nox_Frames_Laws\<close>: the frame handlers of \<open>process_peer_frames\<close> in \<^verbatim>\<open>src/event_loop.c\<close>.
  \<^item> \<open>Nox_Event\<close>, \<open>Nox_Event_Props\<close>, \<open>Nox_Delivery\<close>, \<open>Nox_Limits_Props\<close>: the receive loop, timeouts, death of Tor,
    incoming connections, socket events of the same file.
  \<^item> \<open>Nox_Socks\<close>: \<open>socks5_connect\<close> of \<^verbatim>\<open>src/network.c\<close>.
  \<^item> \<open>Nox_Control\<close>, \<open>Nox_Control_Props\<close>: the client of Tor's control port (lines, replies, authentication,
    bootstrap, \<open>ADD_ONION\<close>) of \<^verbatim>\<open>src/network.c\<close> and the service key of \<^verbatim>\<open>src/crypto.c\<close>.
  \<^item> \<open>Nox_Command\<close>: \<open>process_line\<close> of \<^verbatim>\<open>src/stdin_handler.c\<close>, every command.
  \<^item> \<open>Nox_Stdin\<close>, \<open>Nox_Stdin_Props\<close>: the buffer that cuts piped input into lines, and the events of the line
    editor, of the same file.
  \<^item> \<open>Nox_Utf8\<close>, \<open>Nox_Editor\<close>, \<open>Nox_Editor_Props\<close>, \<open>Nox_Keys_Props\<close>, \<open>Nox_Refresh_Props\<close>: the line editor, the
    project's copy of \<^verbatim>\<open>src/linenoise.c\<close> as the program uses it: UTF-8, extents and widths of characters,
    editing, keys and escape sequences, paste, drawing of the line; the abstract editor it refines.
  \<^item> \<open>Nox_Frontend\<close>, \<open>Nox_Frontend_Props\<close>: \<^verbatim>\<open>src/frontend.c\<close> and \<^verbatim>\<open>src/fe_ansi.c\<close>, the events and what the line
    based front end writes for each.
  \<^item> \<open>Nox_Tui\<close>, \<open>Nox_Tui_Props\<close>: \<^verbatim>\<open>src/tui.c\<close>, \<^verbatim>\<open>src/fe_tui.c\<close>, the choice of the back end and the loop over
    terminal events that drives the full-screen front end.
  \<^item> \<open>Nox_Terminal\<close>: \<open>ui_strip_ansi\<close> of \<^verbatim>\<open>src/frontend.c\<close>, \<open>validate_pin\<close> of \<^verbatim>\<open>src/log.c\<close>.
  \<^item> \<open>Nox_Invariant\<close>, \<open>Nox_System\<close>, \<open>Nox_Loop\<close>: the invariant of a slot, that every operation keeps it, and the
    program as a step relation over user lines, socket events, connections, timeouts and Tor's death.
  \<^item> \<open>Nox_Directory\<close>, \<open>Nox_Identity\<close>, \<open>Nox_Identity_Props\<close>: the configuration directory with its system calls, and
    on it the master key, salt and identity files of \<^verbatim>\<open>src/crypto.c\<close>.
  \<^item> \<open>Nox_Startup\<close>, \<open>Nox_Startup_Props\<close>, \<open>Nox_Account_Props\<close>: the first half of \<^verbatim>\<open>src/main.c\<close>: PIN, directories,
    keys, wiping an account.
  \<^item> \<open>Nox_Tor\<close>, \<open>Nox_Tor_Props\<close>: the Tor process of \<^verbatim>\<open>src/network.c\<close>: stale directories, \<^verbatim>\<open>torrc\<close>, start and stop.
  \<^item> \<open>Nox_Database_Init\<close>: opening the database and the summaries of the contacts.
  \<^item> \<open>Nox_Seccomp\<close>, \<open>Nox_Sandbox\<close>, \<open>Nox_Sandbox_Props\<close>, \<open>Nox_Landlock_Props\<close>: \<^verbatim>\<open>src/seccomp.c\<close>,
    \<^verbatim>\<open>src/landlock_sandbox.c\<close>, \<^verbatim>\<open>src/cet_shstk.c\<close> and the entry of the event loop.
  \<^item> \<open>Nox_Main\<close>, \<open>Nox_Main_Props\<close>, \<open>Nox_Launch_Props\<close>: \<open>main\<close> as a whole, from the command line to \<open>cleanup\<close>.

  \<^bold>\<open>How the code is modelled.\<close> Structures are records with the fields of the source, a pointer that may be
  NULL is an option, an index into the array of slots stands for a pointer to a slot. A C string is the
  list of its bytes before the NUL; a buffer with a fill count is the list of its filled bytes. Machine
  integers that can wrap are words. Functions pass the state explicitly; \<open>sys\<close> extends the application
  state with the answers the kernel, the allocators and the random generator will give and with a log
  of effects (bytes on a wire, files, descriptors closed, texts shown). An answer list that is empty
  stands for the ordinary case (the allocation or the whole write succeeds) unless the definition says
  otherwise; in \<open>Nox_Wire\<close>, \<open>Nox_Socks\<close> and \<open>Nox_Control\<close> it means the call is still waiting (\<open>None\<close>). Errors are the
  values of \<open>nox_err_t\<close>. Logging is left out; of the screen, the state of the program
  records only the texts of the conversation, and the two front ends are modelled on their own, as functions
  from an event to the bytes written or to the new full-screen state. What the kernel does with a loaded
  filter or rule set is written out as its documentation says.

  \<^bold>\<open>Termination.\<close> All loops are total functions. Those that follow a buffer end by a measure on it (chunks
  of a text, frames of a receive buffer: \<open>frame_step_consumes\<close>); those that wait for the kernel follow the
  sequence of answers, and there is a theorem about how many answers are enough (\<open>write_full_exact\<close>).
  The bootstrap loop counts the polls of its own time limit. Only the two trimming loops of
  \<open>refreshSingleLine\<close> take a bound on their rounds, because they need not end: \<open>None\<close> stands for not finished,
  \<open>refresh_exact\<close> says that one round more than the line has bytes is enough for printable text, and
  \<open>refresh_hangs\<close> that for a line of flag emoji no number is enough.

  \<^bold>\<open>What the theorems show.\<close>
  \<^item> Noise: a complete run of two honest parties succeeds and both end with matching keys; a handshake object keeps its invariant and is dead after a failure; no nonce
    is used twice; messages arrive in order and replays are refused.
  \<^item> Arena: initialisation is sound, allocation is exact, clients within their bounds never damage the
    canary or each other, destruction wipes.
  \<^item> Codecs: frame header and onion address have exactly one encoding; contacts are read back.
  \<^item> Trust: a session needs a verified claim over the handshake's own key for the dialled address, and a
    stored key or an approval of exactly the prompt on screen; no other way leads to a conversation.
  \<^item> Messages: a text goes out as consecutive frames of its segments and the other side shows exactly
    these; queueing is all or nothing (unless SQLite refuses the rollback), and the queue is a list per recipient.
  \<^item> Files: received files stay in the checked directory under harmless names and stay only when complete
    and with the announced digest; sending keeps its bounds.
  \<^item> Limits: timeouts, at most five incoming and five outgoing handshakes per minute, replies and buffers
    within their sizes.
  \<^item> Keys: key files are replaced atomically; identity and contacts survive a restart with the right PIN
    and only with it; a wiped account leaves zeros.
  \<^item> Start and end: the loop is entered only with checked directories and PIN, with the Tor process that was
    started, a service for the own key and the sandbox in force; every failed start wipes the keys;
    \<open>cleanup\<close> closes exactly what is open.
  \<^item> Sandbox: the filters act as a plain description of the policy says; processes, programs, the
    sixteen listed socket families and files outside two directories are out of reach of the running loop
    (unlisted families are not, and a family is compared in the whole register).
  \<^item> Input: the lines of a pipe do not depend on how the kernel cuts it while they are printable and below 65024 bytes, and its buffer never exceeds 64 KB; the line editor never leaves its
    block and refines an abstract editor on plain text; what it draws is the window around the cursor.
  \<^item> Front ends: in the line based one a peer's text cannot steer the terminal; the full-screen state stays in order for all keys and
    resizes; a typed character is stored in its own encoding; breaking lines loses only blanks.
  \<^item> The whole program: in every reachable state each slot is in order for its state, and a peer's events
    touch only its own slot.
  The interfaces are locales, each interpreted on the definitions of the code: \<open>codec\<close> and \<open>exact_codec\<close> (nonces,
  frame headers), \<open>sync_channel\<close> (the transport of a session), \<open>step_invariant\<close> (handshake objects, clients of
  the arena), \<open>kept\<close> (relations that handlers, loops and whole runs keep), \<open>file_view\<close> (what every moment of writing a key
  file keeps). What the proofs need of libsodium
  and SQLite are named hypotheses of the theorems, with witnesses on concrete functions.

  \<^bold>\<open>Not modelled.\<close> Of the terminal: the welcome text, drawing single cells and placing the cursor (the vendored
  \<^verbatim>\<open>include/termbox2.h\<close>), raw mode and the queries for the size of the terminal. Of \<^verbatim>\<open>src/linenoise.c\<close>: the
  interfaces the program does not use (the blocking call, growing buffers, completions, hints, masked and
  multi-line mode). Logging and its colours; the fences and register wipes of \<^verbatim>\<open>include/asm_utils.h\<close>. Timing
  side channels and the erasure of memory by the compiler are below the level of the model.
\<close>

end
